(* ===== verification/Prelude.thy ===== *)
theory Prelude
  imports Main "HOL-Library.List_Lexorder" "HOL-Library.Char_ord" "HOL-Library.Product_Lexorder"
    "HOL-Library.Option_ord"
begin

text \<open>
  What every component of the model shares: the JavaScript primitives the code uses on strings
  and numbers, tables (lists of rows with a key), the interfaces that several components
  implement, and the simplification collections.

  Conventions. A JavaScript string is a \<^typ>\<open>string\<close> whose characters stand for the code
  points below 256; its order is the order of code points, which is SQLite's BINARY collation.
  A JavaScript number that the code uses as a count, a size, a revision or a time in
  milliseconds is an \<^typ>\<open>int\<close> (all of them stay below \<open>2 ^ 53\<close>, where doubles are exact).
  The \<open>k\<close>-th call of \<open>Date.now()\<close> during an operation returns \<open>clk k\<close> and the \<open>k\<close>-th call
  of \<open>crypto.randomUUID()\<close> returns \<open>uuid k\<close>; both are parameters of the operation.
\<close>

type_synonym ident = string
type_synonym millis = int

named_theorems table_simps \<open>lookups in tables after updates\<close>
named_theorems policy_simps \<open>definitions of the pure domain policies\<close>
named_theorems store_simps \<open>fields of the database after a store operation\<close>

section \<open>JavaScript primitives\<close>

definition truthy :: "string option \<Rightarrow> bool" where
  \<comment> \<open>truthiness of a value of type \<open>string | null\<close>\<close>
  "truthy s = (case s of None \<Rightarrow> False | Some t \<Rightarrow> t \<noteq> [])"

definition js_space :: "char \<Rightarrow> bool" where
  "js_space c = (of_char c \<in> {9, 10, 11, 12, 13, 32, 160 :: nat})"

definition js_trim :: "string \<Rightarrow> string" where
  "js_trim s = rev (dropWhile js_space (rev (dropWhile js_space s)))"

definition starts_with :: "string \<Rightarrow> string \<Rightarrow> bool" where
  "starts_with p s = (take (length p) s = p)"

definition char_between :: "char \<Rightarrow> char \<Rightarrow> char \<Rightarrow> bool" where
  \<comment> \<open>a range in a character class of a regular expression\<close>
  "char_between lo hi c = (lo \<le> c \<and> c \<le> hi)"

fun show_nat :: "nat \<Rightarrow> string" where
  "show_nat n = (if n < 10 then [char_of (48 + n)] else show_nat (n div 10) @ [char_of (48 + n mod 10)])"

declare show_nat.simps [simp del]

definition show_num :: "int \<Rightarrow> string" where
  \<comment> \<open>a number inside a template literal\<close>
  "show_num i = (if i < 0 then CHR ''-'' # show_nat (nat (- i)) else show_nat (nat i))"

definition day_ms :: millis where
  "day_ms = 24 * 60 * 60 * 1000"

lemma truthy_simps [simp]:
  "\<not> truthy None" "truthy (Some t) = (t \<noteq> [])"
  by (simp_all add: truthy_def)

lemma truthyE: "truthy s \<Longrightarrow> \<exists>t. s = Some t \<and> t \<noteq> []"
  by (cases s) auto

lemma starts_with_append [simp]: "starts_with p (p @ s)"
  by (simp add: starts_with_def)

section \<open>Tables\<close>

text \<open>
  A table is the list of its rows. \<open>key\<close> reads the primary key; SQLite keeps it unique, which
  is the predicate \<open>keyed\<close>. Statements become list functions: \<open>SELECT ... WHERE key = ?\<close>
  is \<open>row_of\<close>, an \<open>UPDATE ... WHERE\<close> is \<open>update_rows\<close>, a \<open>DELETE ... WHERE\<close> is \<open>delete_rows\<close>
  and \<open>INSERT ... ON CONFLICT (key) DO UPDATE\<close> is \<open>upsert_row\<close>, which takes the inserted row
  and the change of the row in conflict.
\<close>

definition keyed :: "('r \<Rightarrow> 'k) \<Rightarrow> 'r list \<Rightarrow> bool" where
  "keyed key rows = distinct (map key rows)"

definition row_of :: "('r \<Rightarrow> 'k) \<Rightarrow> 'k \<Rightarrow> 'r list \<Rightarrow> 'r option" where
  "row_of key k rows = find (\<lambda>r. key r = k) rows"

definition update_rows :: "('r \<Rightarrow> bool) \<Rightarrow> ('r \<Rightarrow> 'r) \<Rightarrow> 'r list \<Rightarrow> 'r list" where
  "update_rows P f rows = map (\<lambda>r. if P r then f r else r) rows"

definition delete_rows :: "('r \<Rightarrow> bool) \<Rightarrow> 'r list \<Rightarrow> 'r list" where
  "delete_rows P rows = filter (\<lambda>r. \<not> P r) rows"

definition upsert_row :: "('r \<Rightarrow> 'k) \<Rightarrow> 'r \<Rightarrow> ('r \<Rightarrow> 'r) \<Rightarrow> 'r list \<Rightarrow> 'r list" where
  "upsert_row key row f rows =
     (if \<exists>r \<in> set rows. key r = key row
      then update_rows (\<lambda>r. key r = key row) f rows
      else rows @ [row])"

definition min_of :: "int list \<Rightarrow> int option" where
  \<comment> \<open>\<open>min(column)\<close> over a selection, or the first of it in ascending order; NULL when empty\<close>
  "min_of xs = (case xs of [] \<Rightarrow> None | y # ys \<Rightarrow> Some (fold min ys y))"

definition sql_limit :: "int \<Rightarrow> 'r list \<Rightarrow> 'r list" where
  \<comment> \<open>\<open>LIMIT n\<close>; a negative limit is no limit\<close>
  "sql_limit n rows = (if n < 0 then rows else take (nat n) rows)"

lemma set_sql_limit: "r \<in> set (sql_limit n rows) \<Longrightarrow> r \<in> set rows"
  by (auto simp: sql_limit_def dest: in_set_takeD split: if_splits)

lemma keyed_Nil [simp]: "keyed key []"
  by (simp add: keyed_def)

lemma row_of_Nil [simp]: "row_of key k [] = None"
  by (simp add: row_of_def)

lemma row_of_Cons: "row_of key k (r # rs) = (if key r = k then Some r else row_of key k rs)"
  by (simp add: row_of_def)

lemma row_of_None: "row_of key k rows = None \<longleftrightarrow> (\<forall>r \<in> set rows. key r \<noteq> k)"
  by (auto simp: row_of_def find_None_iff)

lemma row_of_SomeD: "row_of key k rows = Some r \<Longrightarrow> r \<in> set rows \<and> key r = k"
  by (auto simp: row_of_def find_Some_iff)

lemma row_of_append:
  "row_of key k (xs @ ys) = (case row_of key k xs of None \<Rightarrow> row_of key k ys | Some r \<Rightarrow> Some r)"
  by (induction xs) (auto simp: row_of_Cons)

lemma row_of_keyed:
  assumes "keyed key rows" "r \<in> set rows"
  shows "row_of key (key r) rows = Some r"
  using assms by (induction rows) (auto simp: keyed_def row_of_Cons image_iff)

lemma keyed_row_iff:
  "keyed key rows \<Longrightarrow> row_of key k rows = Some r \<longleftrightarrow> r \<in> set rows \<and> key r = k"
  using row_of_keyed row_of_SomeD by fastforce

lemma keyed_unique:
  "keyed key rows \<Longrightarrow> r \<in> set rows \<Longrightarrow> r' \<in> set rows \<Longrightarrow> key r = key r' \<Longrightarrow> r = r'"
  by (metis row_of_keyed option.inject)

lemma set_update_rows [table_simps]:
  "set (update_rows P f rows) = (\<lambda>r. if P r then f r else r) ` set rows"
  by (simp add: update_rows_def)

lemma set_delete_rows [table_simps]: "set (delete_rows P rows) = {r \<in> set rows. \<not> P r}"
  by (auto simp: delete_rows_def)

lemma keys_update_rows:
  "(\<And>r. P r \<Longrightarrow> key (f r) = key r) \<Longrightarrow> map key (update_rows P f rows) = map key rows"
  by (simp add: update_rows_def)

lemma keyed_update_rows:
  "keyed key rows \<Longrightarrow> (\<And>r. P r \<Longrightarrow> key (f r) = key r) \<Longrightarrow> keyed key (update_rows P f rows)"
  by (simp add: keyed_def keys_update_rows)

lemma keyed_delete_rows: "keyed key rows \<Longrightarrow> keyed key (delete_rows P rows)"
  by (induction rows) (auto simp: keyed_def delete_rows_def)

lemma keyed_upsert_row:
  assumes rows: "keyed key rows" and f: "\<And>r. key r = key row \<Longrightarrow> key (f r) = key r"
  shows "keyed key (upsert_row key row f rows)"
proof (cases "\<exists>r \<in> set rows. key r = key row")
  case True
  then show ?thesis
    using keyed_update_rows[of key rows "\<lambda>r. key r = key row" f] rows f by (simp add: upsert_row_def)
next
  case False
  then show ?thesis using rows by (auto simp: upsert_row_def keyed_def)
qed

lemma row_of_update_rows:
  "(\<And>r. P r \<Longrightarrow> key (f r) = key r) \<Longrightarrow>
   row_of key k (update_rows P f rows) = map_option (\<lambda>r. if P r then f r else r) (row_of key k rows)"
  by (induction rows) (auto simp: update_rows_def row_of_Cons)

lemma row_of_delete_key:
  "row_of key k (delete_rows (\<lambda>r. key r = j) rows) = (if k = j then None else row_of key k rows)"
  by (induction rows) (auto simp: delete_rows_def row_of_Cons)

lemma row_of_upsert_row:
  assumes "\<And>r. key r = key row \<Longrightarrow> key (f r) = key r"
  shows "row_of key k (upsert_row key row f rows) =
    (if k = key row
     then Some (case row_of key k rows of None \<Rightarrow> row | Some r \<Rightarrow> f r)
     else row_of key k rows)"
proof (cases "\<exists>r \<in> set rows. key r = key row")
  case True
  have upd: "row_of key k (upsert_row key row f rows) =
      map_option (\<lambda>r. if key r = key row then f r else r) (row_of key k rows)"
    using True row_of_update_rows[of "\<lambda>r. key r = key row" key f k rows] assms
    by (simp add: upsert_row_def)
  show ?thesis
  proof (cases "row_of key k rows")
    case None
    with True have "k \<noteq> key row" by (auto simp: row_of_None)
    with None upd show ?thesis by simp
  next
    case (Some r)
    with upd show ?thesis by (auto dest: row_of_SomeD)
  qed
next
  case False
  then have "row_of key (key row) rows = None" by (auto simp: row_of_None)
  then show ?thesis using False
    by (auto simp: upsert_row_def row_of_append row_of_Cons split: option.splits)
qed

lemma min_of_None [simp]: "min_of xs = None \<longleftrightarrow> xs = []"
  by (simp add: min_of_def split: list.splits)

lemma min_of_Some:
  assumes "min_of xs = Some m"
  shows "m \<in> set xs" "\<And>x. x \<in> set xs \<Longrightarrow> m \<le> x"
proof -
  have fold_min: "fold min ys y \<in> insert y (set ys) \<and> (\<forall>x \<in> insert y (set ys). fold min ys y \<le> x)"
    for ys and y :: int
    by (induction ys arbitrary: y) (fastforce simp: min_def)+
  from assms fold_min show "m \<in> set xs" "\<And>x. x \<in> set xs \<Longrightarrow> m \<le> x"
    by (auto simp: min_of_def split: list.splits)
qed

lemma in_set_map_filter [simp]:
  "y \<in> set (List.map_filter f xs) \<longleftrightarrow> (\<exists>x \<in> set xs. f x = Some y)"
  by (induction xs) (auto simp: map_filter_simps split: option.splits)

lemma filter_partition_sum_list:
  "sum_list (map f xs) = sum_list (map f (filter P xs)) + sum_list (map f (filter (\<lambda>x. \<not> P x) xs))"
  for f :: "'a \<Rightarrow> int"
  by (induction xs) auto

section \<open>Interfaces\<close>

text \<open>
  A store with a primary key, as its clients use it: what a lookup returns after a write of
  a row and after a deletion of a key.
\<close>

locale keyed_store =
  fixes inv :: "'s \<Rightarrow> bool"
    and look :: "'k \<Rightarrow> 's \<Rightarrow> 'v option"
    and put :: "'k \<Rightarrow> 'v \<Rightarrow> 's \<Rightarrow> 's"
  assumes look_put: "inv s \<Longrightarrow> look j (put k v s) = (if j = k then Some v else look j s)"
    and inv_put: "inv s \<Longrightarrow> inv (put k v s)"
begin

lemma read_own_write: "inv s \<Longrightarrow> look k (put k v s) = Some v"
  by (simp add: look_put)

lemma put_frame: "inv s \<Longrightarrow> j \<noteq> k \<Longrightarrow> look j (put k v s) = look j s"
  by (simp add: look_put)

lemma last_write_wins: "inv s \<Longrightarrow> look j (put k v (put k w s)) = look j (put k v s)"
  by (simp add: look_put inv_put)

lemma puts_commute:
  "inv s \<Longrightarrow> k \<noteq> l \<Longrightarrow> look j (put k v (put l w s)) = look j (put l w (put k v s))"
  by (simp add: look_put inv_put)

end

locale keyed_store_del = keyed_store +
  fixes del :: "'b \<Rightarrow> 'a \<Rightarrow> 'a"
  assumes look_del: "inv s \<Longrightarrow> look j (del k s) = (if j = k then None else look j s)"
    and inv_del: "inv s \<Longrightarrow> inv (del k s)"
begin

lemma del_put: "inv s \<Longrightarrow> look j (del k (put k v s)) = look j (del k s)"
  by (simp add: look_put look_del inv_put)

lemma put_del: "inv s \<Longrightarrow> look k (put k v (del k s)) = Some v"
  by (simp add: look_put inv_del)

end

text \<open>
  A unit of work: an operation that may fail runs on a copy of the state; a failure rolls the
  state back, a success commits it.
\<close>

locale transaction =
  fixes run :: "('s \<Rightarrow> ('e + 'a) \<times> 's) \<Rightarrow> 's \<Rightarrow> ('e + 'a) \<times> 's"
  assumes commits: "op s = (Inr a, t) \<Longrightarrow> run op s = (Inr a, t)"
    and rolls_back: "op s = (Inl e, t) \<Longrightarrow> run op s = (Inl e, s)"
begin

lemma run_inv:
  assumes "I s" "\<And>a t. op s = (Inr a, t) \<Longrightarrow> I t"
  shows "I (snd (run op s))"
proof -
  obtain r t where op: "op s = (r, t)" by fastforce
  show ?thesis using assms op by (cases r) (auto simp: commits rolls_back)
qed

lemma failure_frame: "run op s = (Inl e, t) \<Longrightarrow> t = s"
proof -
  assume ran: "run op s = (Inl e, t)"
  obtain r u where op: "op s = (r, u)" by fastforce
  show "t = s"
  proof (cases r)
    case (Inl f)
    with op rolls_back[of op s f u] ran show ?thesis by simp
  next
    case (Inr a)
    with op commits[of op s a u] ran show ?thesis by simp
  qed
qed

lemma run_result: "fst (run op s) = fst (op s)"
proof -
  obtain r t where op: "op s = (r, t)" by fastforce
  show ?thesis using op by (cases r) (auto simp: commits rolls_back)
qed

end

text \<open>
  A component with an invariant: every operation that is admissible in a state keeps it, hence
  so does every admissible sequence of operations.
\<close>

fun admissible :: "('e \<Rightarrow> 's \<Rightarrow> bool) \<Rightarrow> ('e \<Rightarrow> 's \<Rightarrow> 's) \<Rightarrow> 'e list \<Rightarrow> 's \<Rightarrow> bool" where
  "admissible ok step [] s = True"
| "admissible ok step (e # es) s = (ok e s \<and> admissible ok step es (step e s))"

locale step_system =
  fixes step :: "'e \<Rightarrow> 's \<Rightarrow> 's"
    and ok :: "'e \<Rightarrow> 's \<Rightarrow> bool"
    and inv :: "'s \<Rightarrow> bool"
  assumes step_inv: "ok e s \<Longrightarrow> inv s \<Longrightarrow> inv (step e s)"
begin

lemma run_inv: "admissible ok step es s \<Longrightarrow> inv s \<Longrightarrow> inv (fold step es s)"
  by (induction es arbitrary: s) (auto simp: step_inv)

end

end
