(* ===== verification/Storage_Model.thy ===== *)
theory Storage_Model
  imports Prelude
begin

text \<open>
  The data of one vault's coordinator: the rows of its SQLite tables
  (\<open>src/db/do/index.ts\<close>, \<open>application/ports/outbound/storage-models.ts\<close>), the database as the
  record of its tables, the errors the services throw, and the unit of work that runs an
  operation in a transaction (\<open>adapters/outbound/sqlite/unit-of-work.ts\<close>).

  The table \<open>coordinator_state\<close> only ever holds the row with \<open>id = 1\<close>, so it is an optional row.
\<close>

section \<open>Errors\<close>

datatype detail = DStr string | DNum int

datatype coord_error =
    AppError string "(string \<times> detail) list" \<comment> \<open>\<open>SyncCoordinatorApplicationError(code, details)\<close>\<close>
  | JsError string \<comment> \<open>a plain \<open>Error(message)\<close>\<close>
  | RequestError string string \<comment> \<open>\<open>EntrySyncRequestError(code, message)\<close>\<close>
  | BatchDeleteError "string list" int \<comment> \<open>\<open>BlobObjectBatchDeleteError(failedKeys, deletedCount)\<close>\<close>

section \<open>Rows\<close>

datatype blob_state = Staged | Live | Pending_delete

datatype capture_reason = Auto | Before_delete | Before_restore | Manual

datatype op_type = Upsert | Delete

record entry_row =
  en_id :: ident
  en_revision :: int
  en_blob :: "ident option"
  en_metadata :: string
  en_deleted :: int
  en_seq :: int
  en_updatedAt :: millis
  en_userId :: ident
  en_localVaultId :: ident
  en_lastMutation :: "ident option"

record version_row =
  ve_id :: ident
  ve_entryId :: ident
  ve_sourceRevision :: int
  ve_op :: op_type
  ve_blob :: "ident option"
  ve_metadata :: string
  ve_reason :: capture_reason
  ve_bucketStart :: "millis option"
  ve_capturedAt :: millis
  ve_expiresAt :: millis
  ve_userId :: ident
  ve_localVaultId :: ident

record blob_row =
  bl_id :: ident
  bl_state :: blob_state
  bl_size :: int
  bl_createdAt :: millis
  bl_lastUploadedAt :: millis
  bl_deleteAfter :: "millis option"

record state_row =
  cs_vaultId :: ident
  cs_cursor :: int
  cs_used :: int
  cs_limit :: int
  cs_maxFile :: int
  cs_retentionDays :: int
  cs_lastCommitAt :: "millis option"
  cs_lastGcAt :: "millis option"
  cs_pausedAt :: "millis option"
  cs_pauseReason :: "string option"

record job_row =
  jb_key :: string
  jb_dueAt :: millis
  jb_retryCount :: int
  jb_lastError :: "string option"
  jb_lastErrorAt :: "millis option"
  jb_updatedAt :: millis

record connection_row =
  cn_userId :: ident
  cn_localVaultId :: ident
  cn_lastConnectedAt :: millis

record revocation_row =
  rv_key :: string
  rv_minimumVersion :: "int option"
  rv_expiresAt :: millis

record db =
  db_entries :: "entry_row list"
  db_versions :: "version_row list"
  db_blobs :: "blob_row list"
  db_state :: "state_row option"
  db_jobs :: "job_row list"
  db_connections :: "connection_row list"
  db_revocations :: "revocation_row list"

definition connection_key :: "connection_row \<Rightarrow> ident \<times> ident" where
  "connection_key c = (cn_userId c, cn_localVaultId c)"

text \<open>The primary keys SQLite enforces.\<close>

definition db_keys :: "db \<Rightarrow> bool" where
  "db_keys d \<longleftrightarrow>
     keyed en_id (db_entries d) \<and> keyed ve_id (db_versions d) \<and> keyed bl_id (db_blobs d) \<and>
     keyed jb_key (db_jobs d) \<and> keyed connection_key (db_connections d) \<and>
     keyed rv_key (db_revocations d)"

definition empty_db :: db where
  "empty_db = \<lparr>db_entries = [], db_versions = [], db_blobs = [], db_state = None,
     db_jobs = [], db_connections = [], db_revocations = []\<rparr>"

lemma db_keys_empty [simp]: "db_keys empty_db"
  by (simp add: db_keys_def empty_db_def keyed_def)

section \<open>Unit of work\<close>

text \<open>
  \<open>SqliteCoordinatorUnitOfWork.run\<close>: the operation works on stores bound to one transaction;
  when it throws, the transaction is rolled back and the error propagates.
\<close>

definition uow_run :: "(db \<Rightarrow> (coord_error + 'a) \<times> db) \<Rightarrow> db \<Rightarrow> (coord_error + 'a) \<times> db" where
  "uow_run op d = (case op d of (Inl e, _) \<Rightarrow> (Inl e, d) | (Inr a, d') \<Rightarrow> (Inr a, d'))"

interpretation uow: transaction uow_run
  by unfold_locales (simp_all add: uow_run_def)

end
