(* ===== verification/Blob_Policy.thy ===== *)
theory Blob_Policy
  imports Storage_Model
begin

text \<open>
  \<open>domain/blob-policy.ts\<close> (may an upload be staged?) and \<open>domain/blob-gc-policy.ts\<close> (may a
  blob be collected, may it be retired, when is the next collection due?).
\<close>

section \<open>Staging\<close>

record existing_blob =
  eb_state :: blob_state
  eb_size :: int
  eb_createdAt :: millis

datatype stage_rejection =
    File_too_large int int \<comment> \<open>maximum and offered size\<close>
  | Blob_already_live int
  | Blob_size_changed int int \<comment> \<open>previous and offered size\<close>
  | Quota_exceeded int int int \<comment> \<open>limit, offered size, used\<close>

datatype stage_decision =
    Stage_paused string
  | Stage_rejected stage_rejection
  | Stage_ok int \<comment> \<open>storage delta\<close>

definition stale_staged_prefix :: string where
  "stale_staged_prefix = ''staged blob ''"

definition is_stale_staged_pause_reason :: "string \<Rightarrow> bool" where
  "is_stale_staged_pause_reason reason = starts_with stale_staged_prefix reason"

definition stale_pause_reason :: "ident \<Rightarrow> string" where
  "stale_pause_reason blobId =
     ''staged blob '' @ blobId @ '' remained staged for at least one hour''"

definition decide_blob_stage ::
  "ident \<Rightarrow> int \<Rightarrow> millis \<Rightarrow> millis \<Rightarrow> existing_blob option \<Rightarrow> bool \<Rightarrow> int \<Rightarrow> int \<Rightarrow> int \<Rightarrow> stage_decision"
where
  "decide_blob_stage blobId sizeBytes now staleAfter existing pinned used limit maxFile =
     (if pinned \<and> (case existing of None \<Rightarrow> False
                   | Some e \<Rightarrow> eb_state e = Staged \<and> now - eb_createdAt e \<ge> staleAfter)
      then Stage_paused (stale_pause_reason blobId)
      else if maxFile > 0 \<and> sizeBytes > maxFile then Stage_rejected (File_too_large maxFile sizeBytes)
      else if existing \<noteq> None \<and> pinned then Stage_rejected (Blob_already_live sizeBytes)
      else case existing of
        Some e \<Rightarrow>
          if eb_size e \<noteq> sizeBytes then Stage_rejected (Blob_size_changed (eb_size e) sizeBytes)
          else Stage_ok 0
      | None \<Rightarrow>
          if limit > 0 \<and> used + sizeBytes > limit then Stage_rejected (Quota_exceeded limit sizeBytes used)
          else Stage_ok sizeBytes)"

lemma stale_pause_reason_recognised: "is_stale_staged_pause_reason (stale_pause_reason b)"
  by (simp add: is_stale_staged_pause_reason_def stale_pause_reason_def stale_staged_prefix_def
      starts_with_def)

lemma decide_stage_okD:
  assumes "decide_blob_stage b sizeBytes now stale ex pinned used limit maxFile = Stage_ok delta"
  shows "maxFile > 0 \<Longrightarrow> sizeBytes \<le> maxFile"
    "\<And>e. ex = Some e \<Longrightarrow> \<not> pinned \<and> eb_size e = sizeBytes \<and> delta = 0"
    "ex = None \<Longrightarrow> delta = sizeBytes \<and> (limit > 0 \<longrightarrow> used + sizeBytes \<le> limit)"
  using assms by (auto simp: decide_blob_stage_def split: if_splits option.splits)

lemma decide_stage_pausedD:
  "decide_blob_stage b sizeBytes now stale ex pinned used limit maxFile = Stage_paused r \<Longrightarrow>
   r = stale_pause_reason b \<and> pinned \<and> (\<exists>e. ex = Some e \<and> eb_state e = Staged \<and> stale \<le> now - eb_createdAt e)"
  by (auto simp: decide_blob_stage_def split: if_splits option.splits)

section \<open>Collection\<close>

definition default_blob_grace_period_ms :: millis where
  "default_blob_grace_period_ms = 30 * 60 * 1000"

record reference_facts =
  rf_current :: bool
  rf_history :: bool

datatype collection_reason =
  Is_live | Grace_period | Current_reference | Retained_history | Missing_deadline

datatype collection_decision = Collectible | Retained collection_reason

datatype retain_reason = Is_staged | Has_current_reference | Has_retained_history

datatype pending_delete_decision = Mark_pending_delete millis | Retain retain_reason

definition decide_blob_collection ::
  "blob_state \<Rightarrow> millis option \<Rightarrow> reference_facts \<Rightarrow> millis \<Rightarrow> collection_decision" where
  "decide_blob_collection state deleteAfter facts now =
     (if state = Live then Retained Is_live
      else case deleteAfter of
        None \<Rightarrow> Retained Missing_deadline
      | Some deadline \<Rightarrow>
          if deadline > now then Retained Grace_period
          else if rf_current facts then Retained Current_reference
          else if rf_history facts then Retained Retained_history
          else Collectible)"

definition decide_pending_delete ::
  "blob_state \<Rightarrow> millis option \<Rightarrow> reference_facts \<Rightarrow> millis \<Rightarrow> pending_delete_decision" where
  "decide_pending_delete state deleteAfter facts now =
     (if state = Staged then Retain Is_staged
      else if rf_current facts then Retain Has_current_reference
      else if rf_history facts then Retain Has_retained_history
      else Mark_pending_delete (case deleteAfter of None \<Rightarrow> now | Some t \<Rightarrow> min t now))"

definition is_blob_pinned :: "reference_facts \<Rightarrow> bool" where
  "is_blob_pinned facts = (rf_current facts \<or> rf_history facts)"

definition earliest_gc_deadline :: "millis list \<Rightarrow> millis \<Rightarrow> millis option" where
  "earliest_gc_deadline deadlines now =
     (case min_of deadlines of None \<Rightarrow> None | Some t \<Rightarrow> Some (if t \<le> now then now else t))"

lemmas [policy_simps] =
  decide_blob_stage_def decide_blob_collection_def decide_pending_delete_def is_blob_pinned_def
  earliest_gc_deadline_def

lemma collectible_iff:
  "decide_blob_collection state deleteAfter facts now = Collectible \<longleftrightarrow>
   state \<noteq> Live \<and> (\<exists>t. deleteAfter = Some t \<and> t \<le> now) \<and> \<not> is_blob_pinned facts"
  by (auto simp: policy_simps split: option.splits)

lemma pending_delete_iff:
  "decide_pending_delete state deleteAfter facts now = Mark_pending_delete t \<longleftrightarrow>
   state \<noteq> Staged \<and> \<not> is_blob_pinned facts \<and>
   t = (case deleteAfter of None \<Rightarrow> now | Some u \<Rightarrow> min u now)"
  by (auto simp: policy_simps)

lemma earliest_gc_deadline_le:
  "earliest_gc_deadline ds now = Some t \<Longrightarrow> d \<in> set ds \<Longrightarrow> now \<le> t \<and> (now \<le> d \<longrightarrow> t \<le> d)"
  by (auto simp: earliest_gc_deadline_def split: option.splits if_splits dest: min_of_Some(2))

text \<open>
  A retirement is never premature and always leads to collection: when the policy marks a
  blob for deletion, the deadline it sets has passed, and the collection policy, asked with the
  same reference facts at any later time, collects the retired blob.
\<close>

theorem retired_blob_is_collectible:
  assumes "decide_pending_delete state deleteAfter facts now = Mark_pending_delete t" "now \<le> later"
  shows "t \<le> now \<and> decide_blob_collection Pending_delete (Some t) facts later = Collectible"
  using assms by (auto simp: pending_delete_iff collectible_iff split: option.splits)

theorem retired_blob_is_collectible_witness:
  "(5 :: int) \<le> 7 \<and>
   decide_blob_collection Pending_delete (Some 5) \<lparr>rf_current = False, rf_history = False\<rparr> 9 = Collectible"
proof -
  have "decide_pending_delete Live (Some 5) \<lparr>rf_current = False, rf_history = False\<rparr> 7 = Mark_pending_delete 5"
    by (simp add: decide_pending_delete_def)
  from retired_blob_is_collectible[OF this, of 9] show ?thesis by simp
qed

end
