(* ===== verification/Blob_Store.thy ===== *)
theory Blob_Store
  imports Blob_Policy
begin

text \<open>
  The SQLite adapters of the blob table: \<open>blob-store.ts\<close>, the reference facts
  (\<open>blob-reference-facts.ts\<close>), the SQL projection of the collection policy
  (\<open>blob-collectability.ts\<close>) and the garbage collection queries (\<open>blob-gc-queries.ts\<close>).
  NULL sorts before every value, as in SQLite, which is the order of \<^typ>\<open>int option\<close>.
\<close>

section \<open>Reference facts and collectability\<close>

definition current_blob_reference :: "db \<Rightarrow> ident \<Rightarrow> bool" where
  "current_blob_reference d b = (\<exists>e \<in> set (db_entries d). en_blob e = Some b)"

definition retained_blob_reference :: "millis \<Rightarrow> db \<Rightarrow> ident \<Rightarrow> bool" where
  "retained_blob_reference now d b =
     (\<exists>v \<in> set (db_versions d). ve_blob v = Some b \<and> ve_expiresAt v > now)"

definition read_blob_reference_facts :: "ident \<Rightarrow> millis \<Rightarrow> db \<Rightarrow> reference_facts" where
  "read_blob_reference_facts b now d =
     \<lparr>rf_current = current_blob_reference d b, rf_history = retained_blob_reference now d b\<rparr>"

definition blob_unreferenced :: "millis \<Rightarrow> db \<Rightarrow> blob_row \<Rightarrow> bool" where
  "blob_unreferenced now d r =
     (\<not> current_blob_reference d (bl_id r) \<and> \<not> retained_blob_reference now d (bl_id r))"

definition due :: "millis option \<Rightarrow> millis \<Rightarrow> bool" where
  \<comment> \<open>\<open>delete_after <= now\<close>; false for NULL\<close>
  "due deadline now = (case deadline of None \<Rightarrow> False | Some t \<Rightarrow> t \<le> now)"

definition collectible_blob :: "millis \<Rightarrow> db \<Rightarrow> blob_row \<Rightarrow> bool" where
  "collectible_blob now d r =
     (bl_state r \<in> {Staged, Pending_delete} \<and> due (bl_deleteAfter r) now \<and> blob_unreferenced now d r)"

definition collectible_pending_delete :: "millis \<Rightarrow> db \<Rightarrow> blob_row \<Rightarrow> bool" where
  "collectible_pending_delete now d r =
     (bl_state r = Pending_delete \<and> due (bl_deleteAfter r) now \<and> blob_unreferenced now d r)"

section \<open>The blob table\<close>

definition read_blob :: "ident \<Rightarrow> db \<Rightarrow> blob_row option" where
  "read_blob b d = row_of bl_id b (db_blobs d)"

definition persist_stage :: "ident \<Rightarrow> int \<Rightarrow> millis \<Rightarrow> millis \<Rightarrow> db \<Rightarrow> db" where
  "persist_stage b sizeBytes now deleteAfter d =
     d\<lparr>db_blobs := upsert_row bl_id
         \<lparr>bl_id = b, bl_state = Staged, bl_size = sizeBytes, bl_createdAt = now,
          bl_lastUploadedAt = now, bl_deleteAfter = Some deleteAfter\<rparr>
         (\<lambda>r. r\<lparr>bl_state := Staged, bl_lastUploadedAt := now, bl_deleteAfter := Some deleteAfter\<rparr>)
         (db_blobs d)\<rparr>"

definition update_blob_state :: "ident \<Rightarrow> blob_state \<Rightarrow> millis option \<Rightarrow> db \<Rightarrow> db" where
  "update_blob_state b state deleteAfter d =
     d\<lparr>db_blobs := update_rows (\<lambda>r. bl_id r = b)
         (\<lambda>r. r\<lparr>bl_state := state, bl_deleteAfter := deleteAfter\<rparr>) (db_blobs d)\<rparr>"

definition delete_blobs_where :: "(blob_row \<Rightarrow> bool) \<Rightarrow> db \<Rightarrow> blob_row list \<times> db" where
  \<comment> \<open>\<open>DELETE FROM blobs WHERE ... RETURNING *\<close>\<close>
  "delete_blobs_where P d = (filter P (db_blobs d), d\<lparr>db_blobs := delete_rows P (db_blobs d)\<rparr>)"

definition delete_blob_record :: "ident \<Rightarrow> blob_state option \<Rightarrow> db \<Rightarrow> blob_row list \<times> db" where
  "delete_blob_record b expected d =
     delete_blobs_where
       (\<lambda>r. bl_id r = b \<and> (case expected of None \<Rightarrow> True | Some s \<Rightarrow> bl_state r = s)) d"

definition delete_collectible_blobs :: "ident list \<Rightarrow> millis \<Rightarrow> db \<Rightarrow> blob_row list \<times> db" where
  "delete_collectible_blobs ids now d =
     (if ids = [] then ([], d)
      else delete_blobs_where (\<lambda>r. bl_id r \<in> set ids \<and> collectible_blob now d r) d)"

definition list_stale_staged_blobs :: "millis \<Rightarrow> int \<Rightarrow> db \<Rightarrow> blob_row list" where
  "list_stale_staged_blobs createdBefore limit d =
     sql_limit limit (sort_key (\<lambda>r. (bl_createdAt r, bl_id r))
       (filter (\<lambda>r. bl_state r = Staged \<and> bl_createdAt r \<le> createdBefore) (db_blobs d)))"

section \<open>Garbage collection queries\<close>

type_synonym gc_candidate = "blob_row \<times> reference_facts"

definition to_candidate :: "millis \<Rightarrow> db \<Rightarrow> blob_row \<Rightarrow> gc_candidate" where
  "to_candidate now d r = (r, read_blob_reference_facts (bl_id r) now d)"

definition list_collectible_blobs :: "millis \<Rightarrow> int \<Rightarrow> db \<Rightarrow> gc_candidate list" where
  "list_collectible_blobs now limit d =
     map (to_candidate now d)
       (sql_limit limit (sort_key (\<lambda>r. (bl_deleteAfter r, bl_id r))
         (filter (collectible_blob now d) (db_blobs d))))"

definition read_collectible_blob :: "ident \<Rightarrow> millis \<Rightarrow> db \<Rightarrow> gc_candidate option" where
  "read_collectible_blob b now d =
     map_option (to_candidate now d)
       (find (\<lambda>r. bl_id r = b \<and> collectible_blob now d r) (db_blobs d))"

definition gc_deadlines :: "millis \<Rightarrow> db \<Rightarrow> millis list" where
  \<comment> \<open>the three branches of the \<open>UNION ALL\<close>\<close>
  "gc_deadlines now d =
     List.map_filter bl_deleteAfter
       (filter (\<lambda>r. bl_state r = Staged \<and> bl_deleteAfter r \<noteq> None \<and>
                    (\<not> due (bl_deleteAfter r) now \<or> blob_unreferenced now d r))
         (db_blobs d)) @
     List.map_filter bl_deleteAfter
       (filter (\<lambda>r. bl_state r = Pending_delete \<and> bl_deleteAfter r \<noteq> None \<and> blob_unreferenced now d r)
         (db_blobs d)) @
     map ve_expiresAt (db_versions d)"

definition read_gc_deadlines :: "millis \<Rightarrow> db \<Rightarrow> millis list" where
  "read_gc_deadlines now d = (case min_of (gc_deadlines now d) of None \<Rightarrow> [] | Some t \<Rightarrow> [t])"

section \<open>Facts about the queries\<close>

lemma due_iff [simp]: "due deadline now \<longleftrightarrow> (\<exists>t. deadline = Some t \<and> t \<le> now)"
  by (simp add: due_def split: option.splits)

lemma reference_facts_sel [simp]:
  "rf_current (read_blob_reference_facts b now d) = current_blob_reference d b"
  "rf_history (read_blob_reference_facts b now d) = retained_blob_reference now d b"
  by (simp_all add: read_blob_reference_facts_def)

lemma blob_unreferenced_pinned:
  "blob_unreferenced now d r \<longleftrightarrow> \<not> is_blob_pinned (read_blob_reference_facts (bl_id r) now d)"
  by (auto simp: blob_unreferenced_def is_blob_pinned_def)

lemma collectible_blob_iff:
  "collectible_blob now d r \<longleftrightarrow>
   decide_blob_collection (bl_state r) (bl_deleteAfter r)
     (read_blob_reference_facts (bl_id r) now d) now = Collectible"
  by (cases "bl_state r") (auto simp: collectible_blob_def collectible_iff blob_unreferenced_pinned)

lemma list_collectible_blobs_sound:
  "(r, f) \<in> set (list_collectible_blobs now limit d) \<Longrightarrow>
   r \<in> set (db_blobs d) \<and> collectible_blob now d r \<and> f = read_blob_reference_facts (bl_id r) now d"
  by (auto simp: list_collectible_blobs_def to_candidate_def dest: set_sql_limit)

lemma retained_blob_reference_mono:
  "retained_blob_reference later d b \<Longrightarrow> now \<le> later \<Longrightarrow> retained_blob_reference now d b"
  by (auto simp: retained_blob_reference_def)

lemma persist_stage_simps [store_simps]:
  "db_entries (persist_stage b s now da d) = db_entries d"
  "db_versions (persist_stage b s now da d) = db_versions d"
  "db_state (persist_stage b s now da d) = db_state d"
  "db_jobs (persist_stage b s now da d) = db_jobs d"
  "db_connections (persist_stage b s now da d) = db_connections d"
  "db_revocations (persist_stage b s now da d) = db_revocations d"
  by (simp_all add: persist_stage_def)

lemma update_blob_state_simps [store_simps]:
  "db_entries (update_blob_state b s da d) = db_entries d"
  "db_versions (update_blob_state b s da d) = db_versions d"
  "db_state (update_blob_state b s da d) = db_state d"
  "db_jobs (update_blob_state b s da d) = db_jobs d"
  "db_connections (update_blob_state b s da d) = db_connections d"
  "db_revocations (update_blob_state b s da d) = db_revocations d"
  by (simp_all add: update_blob_state_def)

lemma delete_blobs_where_simps [store_simps]:
  "db_entries (snd (delete_blobs_where P d)) = db_entries d"
  "db_versions (snd (delete_blobs_where P d)) = db_versions d"
  "db_state (snd (delete_blobs_where P d)) = db_state d"
  "db_jobs (snd (delete_blobs_where P d)) = db_jobs d"
  "db_connections (snd (delete_blobs_where P d)) = db_connections d"
  "db_revocations (snd (delete_blobs_where P d)) = db_revocations d"
  "db_blobs (snd (delete_blobs_where P d)) = delete_rows P (db_blobs d)"
  "fst (delete_blobs_where P d) = filter P (db_blobs d)"
  by (simp_all add: delete_blobs_where_def)

lemma read_blob_SomeD: "read_blob b d = Some r \<Longrightarrow> r \<in> set (db_blobs d) \<and> bl_id r = b"
  by (auto simp: read_blob_def dest: row_of_SomeD)

lemma read_blob_persist_stage:
  "read_blob c (persist_stage b s now da d) =
   (if c = b
    then Some (case read_blob b d of
        None \<Rightarrow> \<lparr>bl_id = b, bl_state = Staged, bl_size = s, bl_createdAt = now, bl_lastUploadedAt = now,
                 bl_deleteAfter = Some da\<rparr>
      | Some r \<Rightarrow> r\<lparr>bl_state := Staged, bl_lastUploadedAt := now, bl_deleteAfter := Some da\<rparr>)
    else read_blob c d)"
  by (simp add: read_blob_def persist_stage_def row_of_upsert_row)

lemma read_blob_update_state:
  "read_blob c (update_blob_state b s da d) =
   map_option (\<lambda>r. if c = b then r\<lparr>bl_state := s, bl_deleteAfter := da\<rparr> else r) (read_blob c d)"
  by (cases "row_of bl_id c (db_blobs d)")
    (auto simp: read_blob_def update_blob_state_def row_of_update_rows dest: row_of_SomeD)

text \<open>
  The SQL projection used by every garbage collection query and every guarded delete agrees
  with the domain policy: a row satisfies it exactly when the policy, asked with the reference
  facts read in the same transaction, decides that the blob is collectible.
\<close>

theorem sql_collectability_agrees:
  "collectible_blob now d r \<longleftrightarrow>
     decide_blob_collection (bl_state r) (bl_deleteAfter r)
       (read_blob_reference_facts (bl_id r) now d) now = Collectible"
  by (fact collectible_blob_iff)

text \<open>
  Liveness of the collection schedule: a blob that will be collectible at some later time,
  without further changes of the tables, is announced by the deadline query now: the query
  returns a deadline that is no later than that time.
\<close>

theorem gc_deadline_announces:
  assumes row: "r \<in> set (db_blobs d)" and later: "collectible_blob later d r" "now \<le> later"
  shows "\<exists>t. read_gc_deadlines now d = [t] \<and> t \<le> later"
proof -
  obtain u where u: "bl_deleteAfter r = Some u" "u \<le> later" "bl_state r \<noteq> Live"
    "\<not> current_blob_reference d (bl_id r)" "\<not> retained_blob_reference later d (bl_id r)"
    using later(1) by (auto simp: collectible_blob_def blob_unreferenced_def)
  have "\<exists>x \<in> set (gc_deadlines now d). x \<le> later"
  proof (cases "retained_blob_reference now d (bl_id r)")
    case True
    then obtain v where "v \<in> set (db_versions d)" "ve_blob v = Some (bl_id r)"
      by (auto simp: retained_blob_reference_def)
    moreover from this u(5) have "ve_expiresAt v \<le> later"
      by (force simp: retained_blob_reference_def)
    ultimately show ?thesis by (force simp: gc_deadlines_def)
  next
    case False
    then have "blob_unreferenced now d r" using u by (simp add: blob_unreferenced_def)
    then have "u \<in> set (gc_deadlines now d)"
      using row u by (cases "bl_state r") (force simp: gc_deadlines_def)+
    then show ?thesis using u(2) by blast
  qed
  then obtain x where x: "x \<in> set (gc_deadlines now d)" "x \<le> later" by blast
  then obtain t where "min_of (gc_deadlines now d) = Some t"
    by (cases "min_of (gc_deadlines now d)") auto
  moreover from this x have "t \<le> later" by (meson min_of_Some(2) order_trans)
  ultimately show ?thesis by (simp add: read_gc_deadlines_def)
qed

definition gc_example :: db where
  "gc_example = empty_db\<lparr>
     db_blobs := [\<lparr>bl_id = ''b'', bl_state = Pending_delete, bl_size = 3, bl_createdAt = 0,
       bl_lastUploadedAt = 0, bl_deleteAfter = Some 5\<rparr>],
     db_versions := [\<lparr>ve_id = ''v'', ve_entryId = ''e'', ve_sourceRevision = 1, ve_op = Upsert,
       ve_blob = Some ''b'', ve_metadata = '''', ve_reason = Auto, ve_bucketStart = Some 0,
       ve_capturedAt = 0, ve_expiresAt = 20, ve_userId = ''u'', ve_localVaultId = ''l''\<rparr>]\<rparr>"

theorem gc_deadline_announces_witness:
  "\<exists>t. read_gc_deadlines 10 gc_example = [t] \<and> t \<le> 20"
  by (rule gc_deadline_announces[of "hd (db_blobs gc_example)"])
    (simp_all add: gc_example_def empty_db_def collectible_blob_def blob_unreferenced_def
      current_blob_reference_def retained_blob_reference_def)

end
