(* ===== verification/Health_Policy.thy ===== *)
theory Health_Policy
  imports Storage_Model
begin

text \<open>
  \<open>domain/health-policy.ts\<close>: the health status of a vault with its reasons, and the next time at
  which a time-based reason can change.

  \<open>Math.floor(limit * 0.8)\<close> is \<open>4 * limit div 5\<close>: for \<open>0 \<le> limit < 2 ^ 48\<close> the rounding of
  the double product does not cross an integer.
\<close>

datatype health_status = Ok | Warning | Critical | Unknown

record health_facts =
  hf_used :: int
  hf_limit :: int
  hf_oldestStagedAge :: "millis option"
  hf_oldestPendingAge :: "millis option"
  hf_collectiblePending :: int
  hf_activeLocalVaults :: int
  hf_lastCommitAt :: "millis option"

definition staged_blob_stale_ms :: millis where "staged_blob_stale_ms = 60 * 60 * 1000"
definition pending_delete_stale_ms :: millis where "pending_delete_stale_ms = 24 * 60 * 60 * 1000"
definition active_without_recent_commit_ms :: millis where
  "active_without_recent_commit_ms = 24 * 60 * 60 * 1000"
definition pending_delete_backlog_warning_count :: int where
  "pending_delete_backlog_warning_count = 100"
definition default_cursor_active_ttl_ms :: millis where
  "default_cursor_active_ttl_ms = 30 * 24 * 60 * 60 * 1000"

type_synonym evaluation = "health_status \<times> string list"

definition warning :: "string \<Rightarrow> evaluation \<Rightarrow> evaluation" where
  "warning reason ev = (if fst ev = Ok then Warning else fst ev, snd ev @ [reason])"

definition critical :: "string \<Rightarrow> evaluation \<Rightarrow> evaluation" where
  "critical reason ev = (Critical, snd ev @ [reason])"

definition eval_storage :: "health_facts \<Rightarrow> evaluation \<Rightarrow> evaluation" where
  "eval_storage f ev =
     (if hf_limit f > 0 \<and> hf_used f \<ge> hf_limit f then critical ''storage_over_limit'' ev
      else if hf_limit f > 0 \<and> hf_used f \<ge> (4 * hf_limit f) div 5
      then warning ''storage_near_limit'' ev
      else ev)"

definition eval_staged :: "health_facts \<Rightarrow> evaluation \<Rightarrow> evaluation" where
  "eval_staged f ev =
     (case hf_oldestStagedAge f of
        Some age \<Rightarrow> if age \<ge> staged_blob_stale_ms then warning ''staged_blob_stale'' ev else ev
      | None \<Rightarrow> ev)"

definition eval_pending :: "health_facts \<Rightarrow> evaluation \<Rightarrow> evaluation" where
  "eval_pending f ev =
     (case hf_oldestPendingAge f of
        Some age \<Rightarrow> if age \<ge> pending_delete_stale_ms then warning ''pending_delete_stale'' ev else ev
      | None \<Rightarrow> ev)"

definition eval_backlog :: "health_facts \<Rightarrow> evaluation \<Rightarrow> evaluation" where
  "eval_backlog f ev =
     (if hf_collectiblePending f > pending_delete_backlog_warning_count
      then warning ''pending_delete_backlog'' ev else ev)"

definition eval_activity :: "health_facts \<Rightarrow> millis \<Rightarrow> evaluation \<Rightarrow> evaluation" where
  "eval_activity f now ev =
     (if hf_activeLocalVaults f > 0 \<and>
         (case hf_lastCommitAt f of None \<Rightarrow> True
          | Some t \<Rightarrow> now - t \<ge> active_without_recent_commit_ms)
      then warning ''active_without_recent_commit'' ev else ev)"

definition evaluate_health :: "health_facts \<Rightarrow> millis \<Rightarrow> evaluation" where
  "evaluate_health f now =
     eval_activity f now (eval_backlog f (eval_pending f (eval_staged f (eval_storage f (Ok, [])))))"

definition future_due_from_age :: "millis \<Rightarrow> millis option \<Rightarrow> millis \<Rightarrow> millis option" where
  "future_due_from_age now age threshold =
     (case age of None \<Rightarrow> None
      | Some a \<Rightarrow> if a \<ge> threshold then None else Some (now + (threshold - a)))"

definition commit_warning_at :: "health_facts \<Rightarrow> millis \<Rightarrow> millis option" where
  "commit_warning_at f now =
     (case hf_lastCommitAt f of
        Some t \<Rightarrow> if hf_activeLocalVaults f > 0 \<and> t + active_without_recent_commit_ms > now
                 then Some (t + active_without_recent_commit_ms) else None
      | None \<Rightarrow> None)"

definition next_health_summary_flush_at :: "health_facts \<Rightarrow> millis \<Rightarrow> millis option" where
  "next_health_summary_flush_at f now =
     min_of (List.map_filter id
       [commit_warning_at f now,
        future_due_from_age now (hf_oldestStagedAge f) staged_blob_stale_ms,
        future_due_from_age now (hf_oldestPendingAge f) pending_delete_stale_ms])"

lemmas [policy_simps] =
  evaluate_health_def eval_storage_def eval_staged_def eval_pending_def eval_backlog_def
  eval_activity_def warning_def critical_def

text \<open>The facts as they are after \<open>d\<close> more milliseconds in which nothing else happens.\<close>

definition aged :: "millis \<Rightarrow> health_facts \<Rightarrow> health_facts" where
  "aged d f = f\<lparr>hf_oldestStagedAge := map_option ((+) d) (hf_oldestStagedAge f),
                hf_oldestPendingAge := map_option ((+) d) (hf_oldestPendingAge f)\<rparr>"

lemma flush_candidates:
  "x \<in> set (List.map_filter id [a, b, c]) \<longleftrightarrow> a = Some x \<or> b = Some x \<or> c = Some x"
  by (auto simp: map_filter_def)

lemma flush_not_before:
  assumes "\<And>t. next_health_summary_flush_at f now = Some t \<Longrightarrow> later < t"
  shows "commit_warning_at f now = Some x \<Longrightarrow> later < x"
    "future_due_from_age now (hf_oldestStagedAge f) staged_blob_stale_ms = Some x \<Longrightarrow> later < x"
    "future_due_from_age now (hf_oldestPendingAge f) pending_delete_stale_ms = Some x \<Longrightarrow> later < x"
proof -
  let ?cs = "List.map_filter id
       [commit_warning_at f now,
        future_due_from_age now (hf_oldestStagedAge f) staged_blob_stale_ms,
        future_due_from_age now (hf_oldestPendingAge f) pending_delete_stale_ms]"
  have early: "later < x" if "x \<in> set ?cs" for x
  proof (cases "min_of ?cs")
    case None
    with that show ?thesis by simp
  next
    case (Some m)
    with assms have "later < m" by (simp add: next_health_summary_flush_at_def)
    with min_of_Some(2)[OF Some that] show ?thesis by simp
  qed
  show "commit_warning_at f now = Some x \<Longrightarrow> later < x"
    "future_due_from_age now (hf_oldestStagedAge f) staged_blob_stale_ms = Some x \<Longrightarrow> later < x"
    "future_due_from_age now (hf_oldestPendingAge f) pending_delete_stale_ms = Some x \<Longrightarrow> later < x"
    by (rule early, auto simp only: flush_candidates)+
qed

lemma flush_in_future: "next_health_summary_flush_at f now = Some t \<Longrightarrow> now < t"
  unfolding next_health_summary_flush_at_def
  by (drule min_of_Some(1))
     (auto simp only: flush_candidates commit_warning_at_def future_due_from_age_def
       split: option.splits if_splits)

text \<open>
  C22. The health summary is never stale between flushes: until the time that
  \<open>nextHealthSummaryFlushAt\<close> returns, the mere passing of time changes neither the status
  nor the reasons. (It is also always in the future, so a flush never reschedules itself at once.)
\<close>

theorem health_stable_until_flush:
  assumes "now \<le> later" "\<And>t. next_health_summary_flush_at f now = Some t \<Longrightarrow> later < t"
  shows "evaluate_health (aged (later - now) f) later = evaluate_health f now \<and>
    (\<forall>t. next_health_summary_flush_at f now = Some t \<longrightarrow> now < t)"
proof -
  note due = flush_not_before[OF assms(2)]
  have staged: "eval_staged (aged (later - now) f) ev = eval_staged f ev" for ev
    using due(2) assms(1)
    by (auto simp: eval_staged_def aged_def future_due_from_age_def split: option.splits if_splits)
       fastforce
  have pending: "eval_pending (aged (later - now) f) ev = eval_pending f ev" for ev
    using due(3) assms(1)
    by (auto simp: eval_pending_def aged_def future_due_from_age_def split: option.splits if_splits)
       fastforce
  have activity: "eval_activity (aged (later - now) f) later ev = eval_activity f now ev" for ev
    using due(1) assms(1)
    by (auto simp: eval_activity_def aged_def commit_warning_at_def split: option.splits if_splits)
       fastforce+
  have "eval_storage (aged (later - now) f) ev = eval_storage f ev"
    "eval_backlog (aged (later - now) f) ev = eval_backlog f ev" for ev
    by (simp_all add: eval_storage_def eval_backlog_def aged_def)
  with staged pending activity show ?thesis
    by (simp add: evaluate_health_def flush_in_future)
qed

theorem health_stable_until_flush_witness:
  "evaluate_health (aged 99 \<lparr>hf_used = 9, hf_limit = 10, hf_oldestStagedAge = Some 3599900,
      hf_oldestPendingAge = None, hf_collectiblePending = 0, hf_activeLocalVaults = 1,
      hf_lastCommitAt = Some 1000\<rparr>) 1099 = (Warning, [''storage_near_limit''])"
proof -
  let ?f = "\<lparr>hf_used = 9, hf_limit = 10, hf_oldestStagedAge = Some 3599900,
      hf_oldestPendingAge = None, hf_collectiblePending = 0, hf_activeLocalVaults = 1,
      hf_lastCommitAt = Some 1000\<rparr>"
  have "next_health_summary_flush_at ?f 1000 = Some 1100"
    by (simp add: next_health_summary_flush_at_def commit_warning_at_def future_due_from_age_def
        active_without_recent_commit_ms_def staged_blob_stale_ms_def map_filter_def min_of_def)
  then have "evaluate_health (aged (1099 - 1000) ?f) 1099 = evaluate_health ?f 1000"
    using health_stable_until_flush[of 1000 1099 ?f] by simp
  also have "evaluate_health ?f 1000 = (Warning, [''storage_near_limit''])"
    by (simp add: policy_simps staged_blob_stale_ms_def active_without_recent_commit_ms_def
        pending_delete_backlog_warning_count_def)
  finally show ?thesis by simp
qed

end
