(* ===== verification/State_Store.thy ===== *)
theory State_Store
  imports Blob_Store Health_Policy
begin

text \<open>
  The SQLite adapters of the coordinator's own state: \<open>coordinator-state-store.ts\<close>, the local
  vault connections (\<open>local-vault-connection-store.ts\<close>), the access revocations
  (\<open>sync-access-store.ts\<close>), the health statement (\<open>health-store.ts\<close>) and the purge of all
  tables (\<open>storage-lifecycle.ts\<close>).
\<close>

record vault_limits =
  lim_storage :: int
  lim_maxFile :: int
  lim_retentionDays :: int

record sync_pause =
  sp_pausedAt :: millis
  sp_reason :: string

section \<open>Coordinator state\<close>

definition on_state :: "(state_row \<Rightarrow> state_row) \<Rightarrow> db \<Rightarrow> db" where
  \<comment> \<open>\<open>UPDATE coordinator_state SET ... WHERE id = 1\<close>\<close>
  "on_state f d = d\<lparr>db_state := map_option f (db_state d)\<rparr>"

definition uninitialized :: coord_error where
  "uninitialized = JsError ''vault sync state is not initialized''"

definition vault_mismatch :: coord_error where
  "vault_mismatch = JsError ''durable object vault id mismatch''"

definition record_gc_completed :: "millis \<Rightarrow> db \<Rightarrow> db" where
  "record_gc_completed now = on_state (\<lambda>s. s\<lparr>cs_lastGcAt := Some now\<rparr>)"

definition current_cursor :: "db \<Rightarrow> coord_error + int" where
  "current_cursor d = (case db_state d of Some s \<Rightarrow> Inr (cs_cursor s) | None \<Rightarrow> Inl uninitialized)"

definition ensure_vault_state :: "ident \<Rightarrow> vault_limits \<Rightarrow> db \<Rightarrow> (coord_error + unit) \<times> db" where
  "ensure_vault_state vaultId limits d =
     (case db_state d of
        Some s \<Rightarrow> if cs_vaultId s \<noteq> vaultId then (Inl vault_mismatch, d) else (Inr (), d)
      | None \<Rightarrow> (Inr (), d\<lparr>db_state := Some \<lparr>cs_vaultId = vaultId, cs_cursor = 0, cs_used = 0,
            cs_limit = lim_storage limits, cs_maxFile = lim_maxFile limits,
            cs_retentionDays = lim_retentionDays limits, cs_lastCommitAt = None, cs_lastGcAt = None,
            cs_pausedAt = None, cs_pauseReason = None\<rparr>\<rparr>))"

definition read_vault_id :: "db \<Rightarrow> ident option" where
  "read_vault_id d = map_option cs_vaultId (db_state d)"

definition read_sync_pause :: "db \<Rightarrow> sync_pause option" where
  "read_sync_pause d =
     (case db_state d of None \<Rightarrow> None
      | Some s \<Rightarrow> (case cs_pausedAt s of None \<Rightarrow> None
          | Some t \<Rightarrow> Some \<lparr>sp_pausedAt = t, sp_reason = (case cs_pauseReason s of
                None \<Rightarrow> ''vault sync paused'' | Some r \<Rightarrow> r)\<rparr>))"

definition clear_sync_pause :: "db \<Rightarrow> db" where
  "clear_sync_pause = on_state (\<lambda>s. s\<lparr>cs_pausedAt := None, cs_pauseReason := None\<rparr>)"

definition vault_state_exists_for :: "ident \<Rightarrow> db \<Rightarrow> coord_error + bool" where
  "vault_state_exists_for vaultId d =
     (let existing = read_vault_id d in
      if \<not> truthy existing then Inr False
      else if existing \<noteq> Some vaultId then Inl vault_mismatch
      else Inr True)"

definition read_vault_limits :: "db \<Rightarrow> coord_error + vault_limits" where
  "read_vault_limits d =
     (case db_state d of None \<Rightarrow> Inl uninitialized
      | Some s \<Rightarrow> Inr \<lparr>lim_storage = cs_limit s, lim_maxFile = cs_maxFile s,
          lim_retentionDays = cs_retentionDays s\<rparr>)"

definition store_apply_vault_policy :: "ident \<Rightarrow> vault_limits \<Rightarrow> db \<Rightarrow> (coord_error + bool) \<times> db" where
  "store_apply_vault_policy vaultId limits d =
     (let existing = read_vault_id d in
      if \<not> truthy existing then (Inr False, d)
      else if existing \<noteq> Some vaultId then (Inl vault_mismatch, d)
      else (Inr True, on_state (\<lambda>s. s\<lparr>cs_limit := lim_storage limits, cs_maxFile := lim_maxFile limits,
             cs_retentionDays := lim_retentionDays limits\<rparr>) d))"

definition read_retention_days :: "db \<Rightarrow> coord_error + int" where
  "read_retention_days d = map_sum id lim_retentionDays (read_vault_limits d)"

definition read_storage_used :: "db \<Rightarrow> coord_error + int" where
  "read_storage_used d = (case db_state d of None \<Rightarrow> Inl uninitialized | Some s \<Rightarrow> Inr (cs_used s))"

definition adjust_storage_used :: "int \<Rightarrow> db \<Rightarrow> db" where
  "adjust_storage_used delta = on_state (\<lambda>s. s\<lparr>cs_used := max 0 (cs_used s + delta)\<rparr>)"

definition pause_sync :: "millis \<Rightarrow> string \<Rightarrow> db \<Rightarrow> db" where
  "pause_sync now reason = on_state (\<lambda>s. s\<lparr>
     cs_pausedAt := (case cs_pausedAt s of None \<Rightarrow> Some now | Some t \<Rightarrow> Some t),
     cs_pauseReason := (case cs_pauseReason s of None \<Rightarrow> Some reason | Some r \<Rightarrow> Some r)\<rparr>)"

definition save_commit :: "int \<Rightarrow> millis \<Rightarrow> db \<Rightarrow> db" where
  "save_commit cursor now = on_state (\<lambda>s. s\<lparr>cs_cursor := cursor, cs_lastCommitAt := Some now\<rparr>)"

section \<open>Connections and revocations\<close>

definition record_connection :: "ident \<Rightarrow> ident \<Rightarrow> millis \<Rightarrow> db \<Rightarrow> db" where
  "record_connection userId localVaultId now d =
     d\<lparr>db_connections := upsert_row connection_key
         \<lparr>cn_userId = userId, cn_localVaultId = localVaultId, cn_lastConnectedAt = now\<rparr>
         (\<lambda>c. c\<lparr>cn_lastConnectedAt := now\<rparr>) (db_connections d)\<rparr>"

definition delete_connection :: "ident \<Rightarrow> ident \<Rightarrow> db \<Rightarrow> db" where
  "delete_connection userId localVaultId d =
     d\<lparr>db_connections := delete_rows (\<lambda>c. cn_userId c = userId \<and> cn_localVaultId c = localVaultId)
         (db_connections d)\<rparr>"

definition read_revocations :: "db \<Rightarrow> revocation_row list" where
  "read_revocations d = db_revocations d"

definition write_revocation :: "revocation_row \<Rightarrow> db \<Rightarrow> db" where
  "write_revocation r d =
     d\<lparr>db_revocations := upsert_row rv_key r
         (\<lambda>old. old\<lparr>rv_key := rv_key r, rv_minimumVersion := rv_minimumVersion r,
            rv_expiresAt := rv_expiresAt r\<rparr>)
         (db_revocations d)\<rparr>"

definition delete_revocation :: "string \<Rightarrow> db \<Rightarrow> db" where
  "delete_revocation k d = d\<lparr>db_revocations := delete_rows (\<lambda>r. rv_key r = k) (db_revocations d)\<rparr>"

definition prune_revocations :: "millis \<Rightarrow> db \<Rightarrow> db" where
  "prune_revocations now d =
     d\<lparr>db_revocations := delete_rows (\<lambda>r. rv_expiresAt r \<le> now) (db_revocations d)\<rparr>"

section \<open>Health snapshot\<close>

record health_snapshot =
  hs_vaultId :: ident
  hs_cursor :: int
  hs_entryCount :: int
  hs_live :: int
  hs_staged :: int
  hs_pending :: int
  hs_collectiblePending :: int
  hs_used :: int
  hs_limit :: int
  hs_activeLocalVaults :: int
  hs_websockets :: int
  hs_oldestStagedAge :: "millis option"
  hs_oldestPendingAge :: "millis option"
  hs_lastCommitAt :: "millis option"
  hs_lastGcAt :: "millis option"

definition scalar_count :: "('r \<Rightarrow> bool) \<Rightarrow> 'r list \<Rightarrow> int" where
  "scalar_count P rows = int (length (filter P rows))"

definition age_ms :: "millis \<Rightarrow> millis option \<Rightarrow> millis option" where
  "age_ms now timestamp = map_option (\<lambda>t. max 0 (now - t)) timestamp"

definition read_health_snapshot :: "millis \<Rightarrow> millis \<Rightarrow> int \<Rightarrow> db \<Rightarrow> health_snapshot option" where
  \<comment> \<open>the third argument is the live socket count\<close>
  "read_health_snapshot now activeCursorTtlMs sockets d =
     (case db_state d of None \<Rightarrow> None
      | Some s \<Rightarrow> Some \<lparr>
          hs_vaultId = cs_vaultId s, hs_cursor = cs_cursor s,
          hs_entryCount = scalar_count (\<lambda>e. en_deleted e = 0) (db_entries d),
          hs_live = scalar_count (\<lambda>b. bl_state b = Live) (db_blobs d),
          hs_staged = scalar_count (\<lambda>b. bl_state b = Staged) (db_blobs d),
          hs_pending = scalar_count (\<lambda>b. bl_state b = Pending_delete) (db_blobs d),
          hs_collectiblePending = scalar_count (collectible_pending_delete now d) (db_blobs d),
          hs_used = cs_used s, hs_limit = cs_limit s,
          hs_activeLocalVaults =
            scalar_count (\<lambda>c. cn_lastConnectedAt c \<ge> now - activeCursorTtlMs) (db_connections d),
          hs_websockets = sockets,
          hs_oldestStagedAge =
            age_ms now (min_of (map bl_createdAt (filter (\<lambda>b. bl_state b = Staged) (db_blobs d)))),
          hs_oldestPendingAge =
            age_ms now (min_of (List.map_filter bl_deleteAfter
              (filter (collectible_pending_delete now d) (db_blobs d)))),
          hs_lastCommitAt = cs_lastCommitAt s, hs_lastGcAt = cs_lastGcAt s\<rparr>)"

definition facts_of_snapshot :: "health_snapshot \<Rightarrow> health_facts" where
  \<comment> \<open>the fields of the snapshot that the health policy reads\<close>
  "facts_of_snapshot s =
     \<lparr>hf_used = hs_used s, hf_limit = hs_limit s, hf_oldestStagedAge = hs_oldestStagedAge s,
      hf_oldestPendingAge = hs_oldestPendingAge s, hf_collectiblePending = hs_collectiblePending s,
      hf_activeLocalVaults = hs_activeLocalVaults s, hf_lastCommitAt = hs_lastCommitAt s\<rparr>"

definition read_storage_status :: "db \<Rightarrow> int \<times> int" where
  "read_storage_status d =
     (case db_state d of None \<Rightarrow> (0, 0) | Some s \<Rightarrow> (cs_used s, cs_limit s))"

section \<open>Purge\<close>

definition purge_vault_state :: "db \<Rightarrow> db" where
  "purge_vault_state d =
     d\<lparr>db_versions := [], db_entries := [], db_blobs := [], db_jobs := [], db_revocations := [],
       db_connections := [], db_state := None\<rparr>"

section \<open>Facts about the stores\<close>

lemma on_state_simps [store_simps]:
  "db_entries (on_state f d) = db_entries d"
  "db_versions (on_state f d) = db_versions d"
  "db_blobs (on_state f d) = db_blobs d"
  "db_jobs (on_state f d) = db_jobs d"
  "db_connections (on_state f d) = db_connections d"
  "db_revocations (on_state f d) = db_revocations d"
  "db_state (on_state f d) = map_option f (db_state d)"
  by (simp_all add: on_state_def)

lemmas [store_simps] =
  record_gc_completed_def clear_sync_pause_def adjust_storage_used_def pause_sync_def save_commit_def

lemma purge_is_empty [simp]: "purge_vault_state d = empty_db"
  by (simp add: purge_vault_state_def empty_db_def)

lemma read_sync_pause_None:
  "read_sync_pause d = None \<longleftrightarrow> (\<forall>s. db_state d = Some s \<longrightarrow> cs_pausedAt s = None)"
  by (auto simp: read_sync_pause_def split: option.splits)

definition connections_ok :: "db \<Rightarrow> bool" where
  "connections_ok d = keyed connection_key (db_connections d)"

definition last_connected :: "ident \<times> ident \<Rightarrow> db \<Rightarrow> millis option" where
  "last_connected k d = map_option cn_lastConnectedAt (row_of connection_key k (db_connections d))"

text \<open>Connections and revocations are stores with a primary key and deletion.\<close>

interpretation connections: keyed_store_del connections_ok last_connected
    "\<lambda>k now. record_connection (fst k) (snd k) now" "\<lambda>k. delete_connection (fst k) (snd k)"
proof unfold_locales
  fix d :: db and j k :: "ident \<times> ident" and now :: millis
  assume inv: "connections_ok d"
  have same: "connection_key c = (fst k, snd k) \<Longrightarrow> connection_key (c\<lparr>cn_lastConnectedAt := now\<rparr>) = connection_key c"
    for c by (simp add: connection_key_def)
  show "last_connected j (record_connection (fst k) (snd k) now d) = (if j = k then Some now else last_connected j d)"
    by (auto simp: last_connected_def record_connection_def row_of_upsert_row connection_key_def
        split: option.splits)
  show "connections_ok (record_connection (fst k) (snd k) now d)"
    using inv by (auto simp: connections_ok_def record_connection_def connection_key_def
        intro!: keyed_upsert_row[of connection_key])
  have del: "(\<lambda>c. cn_userId c = fst k \<and> cn_localVaultId c = snd k) = (\<lambda>c. connection_key c = k)"
    by (auto simp: connection_key_def fun_eq_iff)
  show "last_connected j (delete_connection (fst k) (snd k) d) = (if j = k then None else last_connected j d)"
    by (simp add: last_connected_def delete_connection_def del row_of_delete_key)
  show "connections_ok (delete_connection (fst k) (snd k) d)"
    using inv by (simp add: connections_ok_def delete_connection_def keyed_delete_rows)
qed

interpretation revocations: keyed_store_del "\<lambda>d. keyed rv_key (db_revocations d)"
    "\<lambda>k d. map_option (\<lambda>r. (rv_minimumVersion r, rv_expiresAt r)) (row_of rv_key k (db_revocations d))"
    "\<lambda>k v. write_revocation \<lparr>rv_key = k, rv_minimumVersion = fst v, rv_expiresAt = snd v\<rparr>"
    delete_revocation
  by unfold_locales
    (auto simp: write_revocation_def delete_revocation_def row_of_upsert_row row_of_delete_key
      keyed_upsert_row keyed_delete_rows split: option.splits)

end
