(* ===== verification/Paging.thy ===== *)
theory Paging
  imports Prelude
begin

text \<open>
  Keyset pagination. Three listings of the coordinator (entry states, deleted entries, entry
  versions) share one protocol: the service asks its store for one row more than the page
  holds, cuts the page off, says whether there is more and gives the key of the last row as
  the cursor of the next request. This theory holds the page cut, the client's loop, and the
  contract of the stores, under which the loop reads every row exactly once and in order.
\<close>

definition js_slice_to :: "int \<Rightarrow> 'r list \<Rightarrow> 'r list" where
  \<comment> \<open>\<open>rows.slice(0, n)\<close>: a negative end counts from the back\<close>
  "js_slice_to n rows = (if n < 0 then take (length rows - nat (- n)) rows else take (nat n) rows)"

definition cut_page :: "int \<Rightarrow> 'r list \<Rightarrow> 'r list \<times> bool" where
  "cut_page limit rows =
     (if int (length rows) > limit then (js_slice_to limit rows, True) else (rows, False))"

definition next_key :: "('r \<Rightarrow> 'k) \<Rightarrow> 'r list \<times> bool \<Rightarrow> 'k option" where
  \<comment> \<open>\<open>hasMore && last ? key(last) : null\<close>\<close>
  "next_key key p = (if snd p \<and> fst p \<noteq> [] then Some (key (last (fst p))) else None)"

fun read_pages :: "('k option \<Rightarrow> 'r list \<times> 'k option) \<Rightarrow> nat \<Rightarrow> 'k option \<Rightarrow> 'r list" where
  "read_pages page 0 c = []"
| "read_pages page (Suc fuel) c =
     (case page c of
        (rows, None) \<Rightarrow> rows
      | (rows, Some k) \<Rightarrow> rows @ read_pages page fuel (Some k))"

lemma cut_page_pos:
  "0 \<le> limit \<Longrightarrow> cut_page limit rows = (take (nat limit) rows, int (length rows) > limit)"
  by (auto simp: cut_page_def js_slice_to_def)

lemma filter_after_key:
  assumes "sorted_wrt before (map key (xs @ x # ys))"
    and irrefl: "\<And>k. \<not> before k k"
    and trans: "\<And>i j k. before i j \<Longrightarrow> before j k \<Longrightarrow> before i k"
  shows "filter (\<lambda>r. before (key x) (key r)) (xs @ x # ys) = ys"
proof -
  have "\<forall>r \<in> set xs. before (key r) (key x)" "\<forall>r \<in> set ys. before (key x) (key r)"
    using assms(1) by (auto simp: sorted_wrt_append)
  then have "filter (\<lambda>r. before (key x) (key r)) xs = []" "filter (\<lambda>r. before (key x) (key r)) ys = ys"
    using irrefl[of "key x"] trans[of _ _ "key x"] trans[of "key x" _ "key x"]
    unfolding filter_empty_conv filter_id_conv by blast+
  then show ?thesis using irrefl by simp
qed

locale keyset_listing =
  fixes fetch :: "'k option \<Rightarrow> int \<Rightarrow> 's \<Rightarrow> 'r list"
    and key :: "'r \<Rightarrow> 'k"
    and before :: "'k \<Rightarrow> 'k \<Rightarrow> bool"
    and inv :: "'s \<Rightarrow> bool"
    and rows :: "'s \<Rightarrow> 'r list"
  assumes fetch_first: "inv s \<Longrightarrow> 0 \<le> n \<Longrightarrow> fetch None n s = take (nat n) (rows s)"
    and fetch_after: "inv s \<Longrightarrow> 0 \<le> n \<Longrightarrow>
      fetch (Some k) n s = take (nat n) (filter (\<lambda>r. before k (key r)) (rows s))"
    and ordered: "inv s \<Longrightarrow> sorted_wrt before (map key (rows s))"
    and irrefl: "\<not> before k k"
    and trans: "before i j \<Longrightarrow> before j k \<Longrightarrow> before i k"
begin

lemma fetch_at:
  assumes "inv s" "0 \<le> n" "rows s = done @ todo" "c = (if done = [] then None else Some (key (last done)))"
  shows "fetch c n s = take (nat n) todo"
proof (cases "done = []")
  case True
  then show ?thesis using assms fetch_first by simp
next
  case False
  then obtain xs x where xs: "done = xs @ [x]" by (metis append_butlast_last_id)
  have "filter (\<lambda>r. before (key x) (key r)) (rows s) = todo"
    using filter_after_key[of before key xs x todo, OF _ irrefl trans] ordered[OF assms(1)] assms(3) xs
    by simp
  then show ?thesis using assms fetch_after[of s n "key x"] xs by simp
qed

text \<open>A request function serves the listing when every page it returns is the cut of the fetched
  rows, presented by \<open>g\<close>, for the first request and for every cursor it may have handed out.\<close>

definition serves :: "int \<Rightarrow> ('r \<Rightarrow> 'q) \<Rightarrow> ('k option \<Rightarrow> 'q list \<times> 'k option) \<Rightarrow> 's \<Rightarrow> bool" where
  "serves limit g page s \<longleftrightarrow>
     (\<forall>c. c = None \<or> (\<exists>r \<in> set (rows s). c = Some (key r)) \<longrightarrow>
        page c = (let p = cut_page limit (fetch c (limit + 1) s) in (map g (fst p), next_key key p)))"

lemma read_from:
  assumes "inv s" "0 < limit" "serves limit g page s" "rows s = done @ todo" "length todo < fuel"
    "c = (if done = [] then None else Some (key (last done)))"
  shows "read_pages page fuel c = map g todo"
  using assms(4-6)
proof (induction fuel arbitrary: "done" todo c)
  case 0
  then show ?case by simp
next
  case (Suc fuel)
  define n where "n = nat limit"
  have n: "0 < n" "nat (limit + 1) = Suc n" using assms(2) by (auto simp: n_def)
  have at: "fetch c (limit + 1) s = take (Suc n) todo"
    using fetch_at[OF assms(1) _ Suc.prems(1,3), of "limit + 1"] assms(2) n by simp
  have cut: "cut_page limit (fetch c (limit + 1) s) = (take n todo, n < length todo)"
    using assms(2) at n by (auto simp: cut_page_pos n_def min_def)
  have "done = [] \<or> last done \<in> set (rows s)" using Suc.prems(1) by (cases "done" rule: rev_cases) auto
  then have page: "page c = (map g (take n todo), next_key key (take n todo, n < length todo))"
    using assms(3) Suc.prems(3) cut by (auto simp: serves_def Let_def)
  show ?case
  proof (cases "n < length todo")
    case False
    then show ?thesis using page by (simp add: next_key_def)
  next
    case True
    let ?done = "done @ take n todo"
    have ne: "take n todo \<noteq> []" using n True by auto
    moreover have "length (drop n todo) < fuel" using Suc.prems(2) True n by simp
    moreover have "rows s = ?done @ drop n todo" using Suc.prems(1) by simp
    ultimately have "read_pages page fuel (Some (key (last (take n todo)))) = map g (drop n todo)"
      using Suc.IH[of ?done "drop n todo" "Some (key (last (take n todo)))"] by simp
    then show ?thesis using page ne True by (simp add: next_key_def flip: map_append)
  qed
qed

lemma pages_complete:
  assumes "inv s" "0 < limit" "serves limit g page s" "length (rows s) < fuel"
  shows "read_pages page fuel None = map g (rows s)"
  using read_from[OF assms(1-3), of "[]" "rows s" fuel None] assms(4) by simp

end

end
