(* ===== verification/Entry_Store.thy ===== *)
theory Entry_Store
  imports Storage_Model Paging
begin

text \<open>
  The SQLite adapters of the entry table (\<open>entry-store.ts\<close>) and of the history table
  (\<open>entry-version-store.ts\<close>), with the records they return
  (\<open>storage-models.ts\<close>, \<open>entry-writes.ts\<close>). A \<open>SELECT ... ORDER BY ... LIMIT n\<close> is a filter, a
  stable sort on the columns of the order and a prefix; a descending order is the reverse.
\<close>

record current_entry =
  ce_id :: ident
  ce_revision :: int
  ce_blob :: "ident option"
  ce_metadata :: string
  ce_deleted :: int

record mutation_entry =
  me_id :: ident
  me_revision :: int
  me_blob :: "ident option"
  me_metadata :: string
  me_deleted :: bool
  me_seq :: int
  me_lastMutation :: "ident option"

record entry_state =
  es_id :: ident
  es_revision :: int
  es_blob :: "ident option"
  es_blobSize :: "int option"
  es_metadata :: string
  es_deleted :: bool
  es_seq :: int
  es_updatedAt :: millis

record deleted_entry =
  de_id :: ident
  de_revision :: int
  de_metadata :: string
  de_deletedAt :: millis

record entry_input =
  ei_id :: ident
  ei_revision :: int
  ei_blob :: "ident option"
  ei_metadata :: string
  ei_deleted :: bool
  ei_seq :: int
  ei_updatedAt :: millis
  ei_userId :: ident
  ei_localVaultId :: ident
  ei_lastMutation :: ident

section \<open>Entries\<close>

definition to_entry_state :: "db \<Rightarrow> entry_row \<Rightarrow> entry_state" where
  "to_entry_state d e =
     \<lparr>es_id = en_id e, es_revision = en_revision e, es_blob = en_blob e,
      es_blobSize = (case en_blob e of None \<Rightarrow> None
        | Some b \<Rightarrow> map_option bl_size (row_of bl_id b (db_blobs d))),
      es_metadata = en_metadata e, es_deleted = (en_deleted e \<noteq> 0), es_seq = en_seq e,
      es_updatedAt = en_updatedAt e\<rparr>"

definition seq_key :: "entry_row \<Rightarrow> int \<times> ident" where
  "seq_key e = (en_seq e, en_id e)"

definition state_key :: "entry_state \<Rightarrow> int \<times> ident" where
  "state_key e = (es_seq e, es_id e)"

definition in_state_range :: "int \<Rightarrow> int \<Rightarrow> ident list option \<Rightarrow> entry_row \<Rightarrow> bool" where
  "in_state_range since target ids e =
     (en_seq e > since \<and> en_seq e \<le> target \<and>
      (case ids of None \<Rightarrow> True | Some xs \<Rightarrow> en_id e \<in> set xs))"

definition after_state_cursor :: "(int \<times> ident) option \<Rightarrow> entry_row \<Rightarrow> bool" where
  "after_state_cursor after e =
     (case after of None \<Rightarrow> True
      | Some (seq, i) \<Rightarrow> en_seq e > seq \<or> (en_seq e = seq \<and> en_id e > i))"

definition list_entry_states ::
  "int \<Rightarrow> int \<Rightarrow> ident list option \<Rightarrow> (int \<times> ident) option \<Rightarrow> int \<Rightarrow> db \<Rightarrow> entry_state list" where
  "list_entry_states since target ids after limit d =
     map (to_entry_state d)
       (sql_limit limit (sort_key seq_key
         (filter (\<lambda>e. in_state_range since target ids e \<and> after_state_cursor after e) (db_entries d))))"

definition count_entry_states :: "int \<Rightarrow> int \<Rightarrow> ident list option \<Rightarrow> db \<Rightarrow> int" where
  "count_entry_states since target ids d =
     int (length (filter (in_state_range since target ids) (db_entries d)))"

definition has_restorable_history :: "ident \<Rightarrow> millis \<Rightarrow> db \<Rightarrow> bool" where
  "has_restorable_history entryId retentionStart d =
     (\<exists>v \<in> set (db_versions d). ve_entryId v = entryId \<and> ve_op v = Upsert \<and> ve_blob v \<noteq> None \<and>
        ve_capturedAt v \<ge> retentionStart)"

definition deleted_key :: "entry_row \<Rightarrow> millis \<times> ident" where
  "deleted_key e = (en_updatedAt e, en_id e)"

definition deleted_entry_key :: "deleted_entry \<Rightarrow> millis \<times> ident" where
  "deleted_entry_key e = (de_deletedAt e, de_id e)"

definition before_deleted_cursor :: "(millis \<times> ident) option \<Rightarrow> entry_row \<Rightarrow> bool" where
  "before_deleted_cursor before e =
     (case before of None \<Rightarrow> True
      | Some (t, i) \<Rightarrow> en_updatedAt e < t \<or> (en_updatedAt e = t \<and> en_id e < i))"

definition is_deleted_listed :: "millis \<Rightarrow> db \<Rightarrow> entry_row \<Rightarrow> bool" where
  "is_deleted_listed retentionStart d e =
     (en_deleted e = 1 \<and> en_revision e > 0 \<and> has_restorable_history (en_id e) retentionStart d)"

definition to_deleted_entry :: "entry_row \<Rightarrow> deleted_entry" where
  "to_deleted_entry e =
     \<lparr>de_id = en_id e, de_revision = en_revision e, de_metadata = en_metadata e,
      de_deletedAt = en_updatedAt e\<rparr>"

definition list_deleted_entries ::
  "millis \<Rightarrow> (millis \<times> ident) option \<Rightarrow> int \<Rightarrow> db \<Rightarrow> deleted_entry list" where
  "list_deleted_entries retentionStart before limit d =
     map to_deleted_entry
       (sql_limit limit (rev (sort_key deleted_key
         (filter (\<lambda>e. is_deleted_listed retentionStart d e \<and> before_deleted_cursor before e)
           (db_entries d)))))"

definition read_entry :: "ident \<Rightarrow> db \<Rightarrow> current_entry option" where
  "read_entry entryId d =
     map_option (\<lambda>e. \<lparr>ce_id = en_id e, ce_revision = en_revision e, ce_blob = en_blob e,
         ce_metadata = en_metadata e, ce_deleted = en_deleted e\<rparr>)
       (row_of en_id entryId (db_entries d))"

definition to_mutation_entry :: "entry_row \<Rightarrow> mutation_entry" where
  "to_mutation_entry e =
     \<lparr>me_id = en_id e, me_revision = en_revision e, me_blob = en_blob e,
      me_metadata = en_metadata e, me_deleted = (en_deleted e \<noteq> 0), me_seq = en_seq e,
      me_lastMutation = en_lastMutation e\<rparr>"

definition read_mutation_entry :: "ident \<Rightarrow> db \<Rightarrow> mutation_entry option" where
  "read_mutation_entry entryId d = map_option to_mutation_entry (row_of en_id entryId (db_entries d))"

definition entry_of_input :: "entry_input \<Rightarrow> entry_row" where
  "entry_of_input i =
     \<lparr>en_id = ei_id i, en_revision = ei_revision i, en_blob = ei_blob i, en_metadata = ei_metadata i,
      en_deleted = (if ei_deleted i then 1 else 0), en_seq = ei_seq i, en_updatedAt = ei_updatedAt i,
      en_userId = ei_userId i, en_localVaultId = ei_localVaultId i,
      en_lastMutation = Some (ei_lastMutation i)\<rparr>"

definition upsert_entry :: "entry_input \<Rightarrow> db \<Rightarrow> db" where
  "upsert_entry i d =
     d\<lparr>db_entries := upsert_row en_id (entry_of_input i)
         (\<lambda>e. e\<lparr>en_revision := ei_revision i, en_blob := ei_blob i, en_metadata := ei_metadata i,
            en_deleted := (if ei_deleted i then 1 else 0), en_seq := ei_seq i,
            en_updatedAt := ei_updatedAt i, en_userId := ei_userId i,
            en_localVaultId := ei_localVaultId i, en_lastMutation := Some (ei_lastMutation i)\<rparr>)
         (db_entries d)\<rparr>"

section \<open>Versions\<close>

definition version_key :: "version_row \<Rightarrow> millis \<times> ident" where
  "version_key v = (ve_capturedAt v, ve_id v)"

definition is_version_listed :: "ident \<Rightarrow> millis \<Rightarrow> version_row \<Rightarrow> bool" where
  "is_version_listed entryId retentionStart v =
     (ve_entryId v = entryId \<and> ve_capturedAt v \<ge> retentionStart)"

definition before_version_cursor :: "(millis \<times> ident) option \<Rightarrow> version_row \<Rightarrow> bool" where
  "before_version_cursor before v =
     (case before of None \<Rightarrow> True
      | Some (t, i) \<Rightarrow> ve_capturedAt v < t \<or> (ve_capturedAt v = t \<and> ve_id v < i))"

definition list_entry_versions ::
  "ident \<Rightarrow> millis \<Rightarrow> (millis \<times> ident) option \<Rightarrow> int \<Rightarrow> db \<Rightarrow> version_row list" where
  "list_entry_versions entryId retentionStart before limit d =
     sql_limit limit (rev (sort_key version_key
       (filter (\<lambda>v. is_version_listed entryId retentionStart v \<and> before_version_cursor before v)
         (db_versions d))))"

definition read_entry_version :: "ident \<Rightarrow> ident \<Rightarrow> millis \<Rightarrow> db \<Rightarrow> version_row option" where
  "read_entry_version entryId versionId retentionStart d =
     find (\<lambda>v. ve_entryId v = entryId \<and> ve_id v = versionId \<and> ve_capturedAt v \<ge> retentionStart)
       (db_versions d)"

definition version_conflict :: "version_row \<Rightarrow> version_row \<Rightarrow> bool" where
  \<comment> \<open>primary key, and the unique index on entry, reason and bucket; NULL buckets never conflict\<close>
  "version_conflict v w =
     (ve_id v = ve_id w \<or>
      (ve_entryId v = ve_entryId w \<and> ve_reason v = ve_reason w \<and> ve_bucketStart v \<noteq> None \<and>
       ve_bucketStart v = ve_bucketStart w))"

definition insert_entry_version :: "version_row \<Rightarrow> db \<Rightarrow> bool \<times> db" where
  "insert_entry_version v d =
     (if \<exists>w \<in> set (db_versions d). version_conflict v w then (False, d)
      else (True, d\<lparr>db_versions := db_versions d @ [v]\<rparr>))"

definition list_blob_ids :: "ident \<Rightarrow> db \<Rightarrow> ident list" where
  "list_blob_ids entryId d =
     remdups (List.map_filter ve_blob (filter (\<lambda>v. ve_entryId v = entryId) (db_versions d)))"

definition delete_entry_versions :: "ident \<Rightarrow> db \<Rightarrow> db" where
  "delete_entry_versions entryId d =
     d\<lparr>db_versions := delete_rows (\<lambda>v. ve_entryId v = entryId) (db_versions d)\<rparr>"

definition expire_entry_versions :: "millis \<Rightarrow> db \<Rightarrow> db" where
  "expire_entry_versions now d =
     d\<lparr>db_versions := delete_rows (\<lambda>v. ve_expiresAt v \<le> now) (db_versions d)\<rparr>"

section \<open>Facts about the stores\<close>

lemma entry_of_input_id [simp]: "en_id (entry_of_input i) = ei_id i"
  by (simp add: entry_of_input_def)

lemma row_of_upsert_entry:
  "row_of en_id e (db_entries (upsert_entry i d)) =
   (if e = ei_id i then Some (entry_of_input i) else row_of en_id e (db_entries d))"
proof -
  have "row_of en_id (ei_id i) (db_entries d) = Some r \<Longrightarrow> en_id r = ei_id i" for r
    by (auto dest: row_of_SomeD)
  then show ?thesis
    by (auto simp: upsert_entry_def row_of_upsert_row entry_of_input_def split: option.splits)
qed

lemma set_upsert_entry:
  assumes "keyed en_id (db_entries d)"
  shows "set (db_entries (upsert_entry i d)) =
    insert (entry_of_input i) {e \<in> set (db_entries d). en_id e \<noteq> ei_id i}"
proof -
  have k: "keyed en_id (db_entries (upsert_entry i d))"
    unfolding upsert_entry_def using keyed_upsert_row[OF assms] by simp
  have "e \<in> set (db_entries (upsert_entry i d)) \<longleftrightarrow>
      e \<in> insert (entry_of_input i) {e \<in> set (db_entries d). en_id e \<noteq> ei_id i}" for e
    using keyed_row_iff[OF k, of "en_id e" e] keyed_row_iff[OF assms, of "en_id e" e]
    by (auto simp: row_of_upsert_entry split: if_splits)
  then show ?thesis by blast
qed

lemma upsert_entry_simps [store_simps]:
  "db_versions (upsert_entry i d) = db_versions d"
  "db_blobs (upsert_entry i d) = db_blobs d"
  "db_state (upsert_entry i d) = db_state d"
  "db_jobs (upsert_entry i d) = db_jobs d"
  "db_connections (upsert_entry i d) = db_connections d"
  "db_revocations (upsert_entry i d) = db_revocations d"
  by (simp_all add: upsert_entry_def)

lemma insert_entry_version_simps [store_simps]:
  "db_entries (snd (insert_entry_version v d)) = db_entries d"
  "db_blobs (snd (insert_entry_version v d)) = db_blobs d"
  "db_state (snd (insert_entry_version v d)) = db_state d"
  "db_jobs (snd (insert_entry_version v d)) = db_jobs d"
  "db_connections (snd (insert_entry_version v d)) = db_connections d"
  "db_revocations (snd (insert_entry_version v d)) = db_revocations d"
  by (simp_all add: insert_entry_version_def)

lemma set_insert_entry_version:
  "set (db_versions (snd (insert_entry_version v d))) \<subseteq> insert v (set (db_versions d))"
  by (auto simp: insert_entry_version_def)

lemma delete_entry_versions_simps [store_simps]:
  "db_entries (delete_entry_versions e d) = db_entries d"
  "db_blobs (delete_entry_versions e d) = db_blobs d"
  "db_state (delete_entry_versions e d) = db_state d"
  "db_jobs (delete_entry_versions e d) = db_jobs d"
  "db_connections (delete_entry_versions e d) = db_connections d"
  "db_revocations (delete_entry_versions e d) = db_revocations d"
  "set (db_versions (delete_entry_versions e d)) = {v \<in> set (db_versions d). ve_entryId v \<noteq> e}"
  by (auto simp: delete_entry_versions_def table_simps)

lemma expire_entry_versions_simps [store_simps]:
  "db_entries (expire_entry_versions now d) = db_entries d"
  "db_blobs (expire_entry_versions now d) = db_blobs d"
  "db_state (expire_entry_versions now d) = db_state d"
  "db_jobs (expire_entry_versions now d) = db_jobs d"
  "db_connections (expire_entry_versions now d) = db_connections d"
  "db_revocations (expire_entry_versions now d) = db_revocations d"
  "set (db_versions (expire_entry_versions now d)) = {v \<in> set (db_versions d). ve_expiresAt v > now}"
  by (auto simp: expire_entry_versions_def table_simps)

lemma list_blob_ids_iff:
  "b \<in> set (list_blob_ids e d) \<longleftrightarrow> (\<exists>v \<in> set (db_versions d). ve_entryId v = e \<and> ve_blob v = Some b)"
  by (auto simp: list_blob_ids_def)

lemma read_mutation_entry_upsert:
  "read_mutation_entry e (upsert_entry i d) =
   (if e = ei_id i then Some (to_mutation_entry (entry_of_input i)) else read_mutation_entry e d)"
  by (simp add: read_mutation_entry_def row_of_upsert_entry)

section \<open>The listings are keyset paginations\<close>

lemma sql_limit_nonneg: "0 \<le> n \<Longrightarrow> sql_limit n rows = take (nat n) rows"
  by (simp add: sql_limit_def)

lemma strict_sort_key:
  "distinct (map key xs) \<Longrightarrow> sorted_wrt (<) (map key (sort_key key xs))"
  for key :: "'a \<Rightarrow> 'k :: linorder"
  by (simp add: strict_sorted_iff distinct_map inj_on_def)

lemma strict_sort_key_rev:
  "distinct (map key xs) \<Longrightarrow> sorted_wrt (>) (map key (rev (sort_key key xs)))"
  for key :: "'a \<Rightarrow> 'k :: linorder"
  using strict_sort_key[of key xs] by (simp add: rev_map [symmetric] sorted_wrt_rev)

lemma distinct_pair_key:
  "distinct (map key xs) \<Longrightarrow> distinct (map (\<lambda>r. (f r, key r)) (filter P xs))"
  by (induction xs) auto

definition entry_states_in :: "int \<Rightarrow> int \<Rightarrow> ident list option \<Rightarrow> db \<Rightarrow> entry_state list" where
  \<comment> \<open>the whole listing, of which the store returns a window\<close>
  "entry_states_in since target ids d =
     map (to_entry_state d) (sort_key seq_key (filter (in_state_range since target ids) (db_entries d)))"

definition deleted_entries_in :: "millis \<Rightarrow> db \<Rightarrow> deleted_entry list" where
  "deleted_entries_in retentionStart d =
     map to_deleted_entry
       (rev (sort_key deleted_key (filter (is_deleted_listed retentionStart d) (db_entries d))))"

definition versions_in :: "ident \<Rightarrow> millis \<Rightarrow> db \<Rightarrow> version_row list" where
  "versions_in entryId retentionStart d =
     rev (sort_key version_key (filter (is_version_listed entryId retentionStart) (db_versions d)))"

lemma state_key_to_entry_state: "state_key (to_entry_state d e) = seq_key e"
  by (simp add: state_key_def to_entry_state_def seq_key_def)

lemma deleted_entry_key_to: "deleted_entry_key (to_deleted_entry e) = deleted_key e"
  by (simp add: deleted_entry_key_def to_deleted_entry_def deleted_key_def)

lemma after_state_cursor_iff: "after_state_cursor (Some k) e \<longleftrightarrow> k < seq_key e"
  by (cases k) (auto simp: after_state_cursor_def seq_key_def less_prod_def less_le)

lemma before_deleted_cursor_iff: "before_deleted_cursor (Some k) e \<longleftrightarrow> k > deleted_key e"
  by (cases k) (auto simp: before_deleted_cursor_def deleted_key_def less_prod_def less_le)

lemma before_version_cursor_iff: "before_version_cursor (Some k) v \<longleftrightarrow> k > version_key v"
  by (cases k) (auto simp: before_version_cursor_def version_key_def less_prod_def less_le)

lemma cursor_None [simp]:
  "after_state_cursor None e" "before_deleted_cursor None e" "before_version_cursor None v"
  by (simp_all add: after_state_cursor_def before_deleted_cursor_def before_version_cursor_def)

interpretation state_pages: keyset_listing "\<lambda>after n d. list_entry_states since target ids after n d"
    state_key "(<)" "\<lambda>d. keyed en_id (db_entries d)" "entry_states_in since target ids"
  for since target ids
proof unfold_locales
  fix d :: db and n :: int and k :: "int \<times> ident"
  assume inv: "keyed en_id (db_entries d)" 
  show "0 \<le> n \<Longrightarrow> list_entry_states since target ids None n d = take (nat n) (entry_states_in since target ids d)"
    by (simp add: list_entry_states_def entry_states_in_def sql_limit_nonneg take_map)
  show "0 \<le> n \<Longrightarrow> list_entry_states since target ids (Some k) n d =
      take (nat n) (filter (\<lambda>r. k < state_key r) (entry_states_in since target ids d))"
    by (simp add: list_entry_states_def entry_states_in_def sql_limit_nonneg take_map filter_map
        comp_def state_key_to_entry_state filter_sort after_state_cursor_iff conj_commute)
  have "distinct (map seq_key (filter (in_state_range since target ids) (db_entries d)))"
    using distinct_pair_key[of en_id "db_entries d" en_seq] inv by (simp add: keyed_def seq_key_def[abs_def])
  from strict_sort_key[OF this]
  show "sorted_wrt (<) (map state_key (entry_states_in since target ids d))"
    by (simp add: entry_states_in_def comp_def state_key_to_entry_state)
qed auto

interpretation deleted_pages: keyset_listing "\<lambda>before n d. list_deleted_entries start before n d"
    deleted_entry_key "(>)" "\<lambda>d. keyed en_id (db_entries d)" "deleted_entries_in start"
  for start
proof unfold_locales
  fix d :: db and n :: int and k :: "millis \<times> ident"
  assume inv: "keyed en_id (db_entries d)"
  show "0 \<le> n \<Longrightarrow> list_deleted_entries start None n d = take (nat n) (deleted_entries_in start d)"
    by (simp add: list_deleted_entries_def deleted_entries_in_def sql_limit_nonneg take_map)
  show "0 \<le> n \<Longrightarrow> list_deleted_entries start (Some k) n d =
      take (nat n) (filter (\<lambda>r. k > deleted_entry_key r) (deleted_entries_in start d))"
    by (simp add: list_deleted_entries_def deleted_entries_in_def sql_limit_nonneg take_map filter_map
        comp_def deleted_entry_key_to filter_sort before_deleted_cursor_iff conj_commute rev_filter[symmetric])
  have "distinct (map deleted_key (filter (is_deleted_listed start d) (db_entries d)))"
    using distinct_pair_key[of en_id "db_entries d" en_updatedAt] inv
    by (simp add: keyed_def deleted_key_def[abs_def])
  from strict_sort_key_rev[OF this]
  show "sorted_wrt (>) (map deleted_entry_key (deleted_entries_in start d))"
    by (simp add: deleted_entries_in_def comp_def deleted_entry_key_to)
qed auto

interpretation version_pages: keyset_listing "\<lambda>before n d. list_entry_versions entryId start before n d"
    version_key "(>)" "\<lambda>d. keyed ve_id (db_versions d)" "versions_in entryId start"
  for entryId start
proof unfold_locales
  fix d :: db and n :: int and k :: "millis \<times> ident"
  assume inv: "keyed ve_id (db_versions d)"
  show "0 \<le> n \<Longrightarrow> list_entry_versions entryId start None n d = take (nat n) (versions_in entryId start d)"
    by (simp add: list_entry_versions_def versions_in_def sql_limit_nonneg)
  show "0 \<le> n \<Longrightarrow> list_entry_versions entryId start (Some k) n d =
      take (nat n) (filter (\<lambda>r. k > version_key r) (versions_in entryId start d))"
    by (simp add: list_entry_versions_def versions_in_def sql_limit_nonneg
        filter_sort before_version_cursor_iff conj_commute rev_filter[symmetric])
  have "distinct (map version_key (filter (is_version_listed entryId start) (db_versions d)))"
    using distinct_pair_key[of ve_id "db_versions d" ve_capturedAt] inv
    by (simp add: keyed_def version_key_def[abs_def])
  from strict_sort_key_rev[OF this]
  show "sorted_wrt (>) (map version_key (versions_in entryId start d))"
    by (simp add: versions_in_def)
qed auto

end
