(* ===== verification/Coordinator_State.thy ===== *)
theory Coordinator_State
  imports State_Store Entry_Store
begin

text \<open>
  The state of one vault's coordinator at run time, on which its services work: the database,
  the objects of the vault's blob storage, the alarm, and the fields the services keep in
  memory. The stores under src/ are definitions; the object storage (R2, S3 or a disk) is
  outside and appears as the set of keys it holds, with the keys whose deletion fails during
  an operation given by the environment.

  \<open>co_alarm\<close> is the Durable Object's alarm, or \<open>armedFor\<close> of the Node scheduler.
  \<open>co_calls\<close> records, oldest first, the calls the services make to the socket gateway, whose
  effect on sockets is modelled by the gateway's own theory; \<open>co_summaries\<close> the health
  summaries written to the status repository.
\<close>

datatype gateway_call =
    Broadcast_storage_status int int \<comment> \<open>used, limit\<close>
  | Broadcast_policy_updated int int int int \<comment> \<open>limit, max file size, used, limit of the status\<close>
  | Close_all_sockets int string
  | Close_socket ident int string

record health_summary = health_snapshot +
  hs_status :: health_status
  hs_reasons :: "string list"

record coordinator =
  co_db :: db
  co_objects :: "string set"
  co_alarm :: "millis option"
  co_flushAt :: "millis option"
  co_statusTimer :: bool
  co_purged :: bool
  co_calls :: "gateway_call list"
  co_summaries :: "(health_summary \<times> millis) list"

record env =
  ev_clk :: "nat \<Rightarrow> millis" \<comment> \<open>successive readings of \<open>Date.now()\<close>\<close>
  ev_uuid :: "nat \<Rightarrow> ident" \<comment> \<open>successive results of \<open>crypto.randomUUID()\<close>\<close>
  ev_storage :: "coord_error option" \<comment> \<open>the object storage rejects every call with this error\<close>
  ev_failing :: "string set" \<comment> \<open>object keys whose deletion fails\<close>
  ev_mayCollect :: "(coord_error + bool) option" \<comment> \<open>result of \<open>mayCollect\<close>, when configured\<close>
  ev_grace :: millis \<comment> \<open>\<open>blobGracePeriodMs\<close>\<close>
  ev_cursorTtl :: millis \<comment> \<open>\<open>cursorActiveTtlMs\<close>\<close>
  ev_sockets :: int \<comment> \<open>live socket count\<close>
  ev_token :: "coord_error + unit" \<comment> \<open>result of \<open>verifySyncToken\<close>\<close>
  ev_statusRepository :: bool \<comment> \<open>a status repository is configured\<close>
  ev_upsert :: "coord_error + unit" \<comment> \<open>result of the status repository's \<open>upsert\<close>\<close>
  ev_statusDelay :: millis \<comment> \<open>\<open>storageStatusBroadcastDelayMs\<close>\<close>

definition on_db :: "(db \<Rightarrow> db) \<Rightarrow> coordinator \<Rightarrow> coordinator" where
  "on_db f c = c\<lparr>co_db := f (co_db c)\<rparr>"

definition in_transaction ::
  "(db \<Rightarrow> (coord_error + 'a) \<times> db) \<Rightarrow> coordinator \<Rightarrow> (coord_error + 'a) \<times> coordinator" where
  \<comment> \<open>\<open>unitOfWork.run\<close> inside a service\<close>
  "in_transaction op c = (let (r, d) = uow_run op (co_db c) in (r, c\<lparr>co_db := d\<rparr>))"

section \<open>Object keys\<close>

definition blob_object_key_prefix :: "ident \<Rightarrow> string" where
  "blob_object_key_prefix vaultId = vaultId @ ''/''"

definition blob_object_key :: "ident \<Rightarrow> ident \<Rightarrow> string" where
  "blob_object_key vaultId blobId = blob_object_key_prefix vaultId @ blobId"

lemma blob_object_key_inj [simp]: "blob_object_key v a = blob_object_key v b \<longleftrightarrow> a = b"
  by (simp add: blob_object_key_def)

lemma blob_object_key_has_prefix: "starts_with (blob_object_key_prefix v) (blob_object_key v b)"
  by (simp add: blob_object_key_def)

section \<open>The port to the object storage\<close>

definition object_exists :: "env \<Rightarrow> string \<Rightarrow> coordinator \<Rightarrow> coord_error + bool" where
  "object_exists env key c =
     (case ev_storage env of Some e \<Rightarrow> Inl e | None \<Rightarrow> Inr (key \<in> co_objects c))"

definition object_delete :: "env \<Rightarrow> string \<Rightarrow> coordinator \<Rightarrow> (coord_error + unit) \<times> coordinator" where
  "object_delete env key c =
     (case ev_storage env of Some e \<Rightarrow> (Inl e, c)
      | None \<Rightarrow> if key \<in> ev_failing env then (Inl (JsError ''object deletion failed''), c)
         else (Inr (), c\<lparr>co_objects := co_objects c - {key}\<rparr>))"

definition object_delete_many ::
  "env \<Rightarrow> string list \<Rightarrow> coordinator \<Rightarrow> (coord_error + string list) \<times> coordinator" where
  \<comment> \<open>the result lists the keys whose deletion failed\<close>
  "object_delete_many env keys c =
     (case ev_storage env of Some e \<Rightarrow> (Inl e, c)
      | None \<Rightarrow> (Inr (filter (\<lambda>k. k \<in> ev_failing env) keys),
          c\<lparr>co_objects := co_objects c - (set keys - ev_failing env)\<rparr>))"

definition object_delete_prefix :: "env \<Rightarrow> string \<Rightarrow> coordinator \<Rightarrow> (coord_error + unit) \<times> coordinator" where
  "object_delete_prefix env prefix c =
     (case ev_storage env of Some e \<Rightarrow> (Inl e, c)
      | None \<Rightarrow> (Inr (), c\<lparr>co_objects := Set.filter (\<lambda>k. \<not> starts_with prefix k) (co_objects c)\<rparr>))"

section \<open>Errors as text\<close>

definition error_message :: "coord_error \<Rightarrow> string" where
  "error_message e = (case e of AppError code _ \<Rightarrow> code | JsError m \<Rightarrow> m | RequestError _ m \<Rightarrow> m
     | BatchDeleteError _ _ \<Rightarrow> ''blob_object_batch_delete_failed'')"

definition error_name :: "coord_error \<Rightarrow> string" where
  "error_name e = (case e of AppError _ _ \<Rightarrow> ''SyncCoordinatorApplicationError'' | JsError _ \<Rightarrow> ''Error''
     | RequestError _ _ \<Rightarrow> ''EntrySyncRequestError'' | BatchDeleteError _ _ \<Rightarrow> ''BlobObjectBatchDeleteError'')"

definition error_string :: "coord_error \<Rightarrow> string" where
  \<comment> \<open>\<open>String(error)\<close>\<close>
  "error_string e =
     (if error_message e = [] then error_name e else error_name e @ '': '' @ error_message e)"

definition format_compact_error :: "coord_error \<Rightarrow> string" where
  "format_compact_error e =
     take 500 (if js_trim (error_message e) \<noteq> [] then error_message e else error_string e)"

lemma format_compact_error_bound: "length (format_compact_error e) \<le> 500"
  by (simp add: format_compact_error_def)

lemma in_transaction_rest [store_simps]:
  "co_objects (snd (in_transaction op c)) = co_objects c"
  "co_alarm (snd (in_transaction op c)) = co_alarm c"
  "co_purged (snd (in_transaction op c)) = co_purged c"
  "co_db (snd (in_transaction op c)) = snd (uow_run op (co_db c))"
  by (simp_all add: in_transaction_def split: prod.splits)

lemma on_db_simps [store_simps]:
  "co_db (on_db f c) = f (co_db c)" "co_objects (on_db f c) = co_objects c"
  "co_alarm (on_db f c) = co_alarm c" "co_purged (on_db f c) = co_purged c"
  by (simp_all add: on_db_def)

end
