(* ===== verification/Scheduler.thy ===== *)
theory Scheduler
  imports Coordinator_State
begin

text \<open>
  The maintenance scheduler of the Durable Object (\<open>scheduler/maintenance-scheduler.ts\<close>): jobs
  in a table, one alarm armed for the earliest of them, retries with exponential backoff.
\<close>

datatype job_key = Blob_gc | Health_summary_flush

definition key_name :: "job_key \<Rightarrow> string" where
  "key_name k = (case k of Blob_gc \<Rightarrow> ''blob_gc'' | Health_summary_flush \<Rightarrow> ''health_summary_flush'')"

definition job_key_of :: "string \<Rightarrow> job_key option" where
  \<comment> \<open>\<open>isMaintenanceJobKey\<close>\<close>
  "job_key_of s = (if s = ''blob_gc'' then Some Blob_gc
     else if s = ''health_summary_flush'' then Some Health_summary_flush else None)"

record job =
  job_key :: job_key
  job_dueAt :: millis
  job_retryCount :: int

definition max_drained_jobs :: nat where "max_drained_jobs = 16"
definition retry_min_ms :: millis where "retry_min_ms = 30 * 1000"
definition retry_max_ms :: millis where "retry_max_ms = 15 * 60 * 1000"
definition gc_bucket_ms :: millis where "gc_bucket_ms = 30 * 60 * 1000"

definition retry_delay_ms :: "int \<Rightarrow> millis" where
  "retry_delay_ms retryCount = min retry_max_ms (retry_min_ms * 2 ^ nat (max 0 (retryCount - 1)))"

definition job_due_at :: "job_key \<Rightarrow> millis \<Rightarrow> millis" where
  "job_due_at key t = (if key \<noteq> Blob_gc then t else - ((- t) div gc_bucket_ms) * gc_bucket_ms)"

definition to_job :: "job_row \<Rightarrow> job option" where
  "to_job r = map_option (\<lambda>k. \<lparr>job_key = k, job_dueAt = jb_dueAt r, job_retryCount = jb_retryCount r\<rparr>)
     (job_key_of (jb_key r))"

definition read_job :: "job_key \<Rightarrow> db \<Rightarrow> job option" where
  "read_job key d = (case row_of jb_key (key_name key) (db_jobs d) of None \<Rightarrow> None | Some r \<Rightarrow> to_job r)"

definition read_next_due_job :: "millis \<Rightarrow> db \<Rightarrow> job option" where
  "read_next_due_job now d =
     (case sort_key (\<lambda>r. (jb_dueAt r, jb_key r)) (filter (\<lambda>r. jb_dueAt r \<le> now) (db_jobs d)) of
        [] \<Rightarrow> None | r # _ \<Rightarrow> to_job r)"

definition read_next_due_at :: "db \<Rightarrow> millis option" where
  "read_next_due_at d = min_of (map jb_dueAt (db_jobs d))"

definition delete_job :: "job_key \<Rightarrow> db \<Rightarrow> db" where
  "delete_job key d = d\<lparr>db_jobs := delete_rows (\<lambda>r. jb_key r = key_name key) (db_jobs d)\<rparr>"

definition defer_job :: "job_key \<Rightarrow> millis \<Rightarrow> millis \<Rightarrow> db \<Rightarrow> db" where
  \<comment> \<open>the \<open>INSERT ... ON CONFLICT\<close> of the method \<open>defer\<close>\<close>
  "defer_job key t now d =
     d\<lparr>db_jobs := upsert_row jb_key
         \<lparr>jb_key = key_name key, jb_dueAt = t, jb_retryCount = 0, jb_lastError = None,
          jb_lastErrorAt = None, jb_updatedAt = now\<rparr>
         (\<lambda>r. r\<lparr>jb_dueAt := min (jb_dueAt r) t, jb_updatedAt := now\<rparr>) (db_jobs d)\<rparr>"

definition reschedule_job :: "job_key \<Rightarrow> millis \<Rightarrow> millis \<Rightarrow> db \<Rightarrow> db" where
  "reschedule_job key dueAt now d =
     (let t = job_due_at key dueAt in
      d\<lparr>db_jobs := upsert_row jb_key
         \<lparr>jb_key = key_name key, jb_dueAt = t, jb_retryCount = 0, jb_lastError = None,
          jb_lastErrorAt = None, jb_updatedAt = now\<rparr>
         (\<lambda>r. r\<lparr>jb_dueAt := t, jb_retryCount := 0, jb_lastError := None, jb_lastErrorAt := None,
            jb_updatedAt := now\<rparr>) (db_jobs d)\<rparr>)"

definition reschedule_failed_job :: "job \<Rightarrow> coord_error \<Rightarrow> millis \<Rightarrow> db \<Rightarrow> db" where
  "reschedule_failed_job j error now d =
     (let n = job_retryCount j + 1 in
      d\<lparr>db_jobs := update_rows (\<lambda>r. jb_key r = key_name (job_key j))
         (\<lambda>r. r\<lparr>jb_dueAt := now + retry_delay_ms n, jb_retryCount := n,
            jb_lastError := Some (format_compact_error error), jb_lastErrorAt := Some now,
            jb_updatedAt := now\<rparr>) (db_jobs d)\<rparr>)"

definition rearm :: "coordinator \<Rightarrow> coordinator" where
  "rearm c =
     (case read_next_due_at (co_db c) of
        None \<Rightarrow> c\<lparr>co_alarm := None\<rparr>
      | Some t \<Rightarrow> if co_alarm c \<noteq> Some t then c\<lparr>co_alarm := Some t\<rparr> else c)"

definition ensure_armed :: "coordinator \<Rightarrow> coordinator" where
  "ensure_armed c =
     (case read_next_due_at (co_db c) of
        None \<Rightarrow> c
      | Some t \<Rightarrow> if (case co_alarm c of None \<Rightarrow> True | Some a \<Rightarrow> a > t) then c\<lparr>co_alarm := Some t\<rparr> else c)"

definition defer_maintenance :: "job_key \<Rightarrow> millis \<Rightarrow> millis \<Rightarrow> coordinator \<Rightarrow> coordinator" where
  "defer_maintenance key dueAt now c =
     (let t = job_due_at key dueAt in
      if (case read_job key (co_db c) of None \<Rightarrow> False | Some j \<Rightarrow> job_dueAt j \<le> t) then c
      else rearm (on_db (defer_job key t now) c))"

type_synonym handler = "millis \<Rightarrow> coordinator \<Rightarrow> (coord_error + millis option) \<times> coordinator"

definition run_job :: "(job_key \<Rightarrow> handler option) \<Rightarrow> job \<Rightarrow> millis \<Rightarrow> coordinator \<Rightarrow> coordinator" where
  \<comment> \<open>the body of the loop of \<open>drain\<close>\<close>
  "run_job handlers j now c =
     (case (case handlers (job_key j) of
              None \<Rightarrow> (Inl (JsError (''No maintenance handler for '' @ key_name (job_key j))), c)
            | Some h \<Rightarrow> h now c) of
        (Inr None, c') \<Rightarrow> on_db (delete_job (job_key j)) c'
      | (Inr (Some t), c') \<Rightarrow> on_db (reschedule_job (job_key j) t now) c'
      | (Inl e, c') \<Rightarrow> on_db (reschedule_failed_job j e now) c')"

fun drain_jobs :: "nat \<Rightarrow> (job_key \<Rightarrow> handler option) \<Rightarrow> millis \<Rightarrow> coordinator \<Rightarrow> coordinator" where
  "drain_jobs 0 handlers now c = c"
| "drain_jobs (Suc n) handlers now c =
     (case read_next_due_job now (co_db c) of
        None \<Rightarrow> c
      | Some j \<Rightarrow> drain_jobs n handlers now (run_job handlers j now c))"

definition drain :: "(job_key \<Rightarrow> handler option) \<Rightarrow> millis \<Rightarrow> coordinator \<Rightarrow> coordinator" where
  "drain handlers now c = rearm (drain_jobs max_drained_jobs handlers now c)"

section \<open>Facts about the job table\<close>

lemma key_name_inj [simp]: "key_name j = key_name k \<longleftrightarrow> j = k"
  by (cases j; cases k) (simp_all add: key_name_def)

lemma job_key_of_name [simp]: "job_key_of (key_name k) = Some k"
  by (cases k) (simp_all add: job_key_of_def key_name_def)

lemma job_key_of_Some: "job_key_of s = Some k \<longleftrightarrow> s = key_name k"
  by (cases k) (auto simp: job_key_of_def key_name_def)

lemma gc_bucket_ceiling:
  "t \<le> - ((- t) div gc_bucket_ms) * gc_bucket_ms \<and> - ((- t) div gc_bucket_ms) * gc_bucket_ms < t + gc_bucket_ms"
proof -
  have "(- t) div gc_bucket_ms * gc_bucket_ms + (- t) mod gc_bucket_ms = - t" by simp
  moreover have "0 \<le> (- t) mod gc_bucket_ms" "(- t) mod gc_bucket_ms < gc_bucket_ms"
    by (simp_all add: gc_bucket_ms_def)
  ultimately show ?thesis by linarith
qed

lemma job_due_at_bounds: "t \<le> job_due_at k t" "job_due_at k t < t + gc_bucket_ms"
  using gc_bucket_ceiling[of t] by (auto simp: job_due_at_def gc_bucket_ms_def)

lemma to_job_named: "jb_key r = key_name k \<Longrightarrow>
    to_job r = Some \<lparr>job_key = k, job_dueAt = jb_dueAt r, job_retryCount = jb_retryCount r\<rparr>"
  by (simp add: to_job_def)

lemma read_job_iff:
  "read_job k d = map_option (\<lambda>r. \<lparr>job_key = k, job_dueAt = jb_dueAt r, job_retryCount = jb_retryCount r\<rparr>)
     (row_of jb_key (key_name k) (db_jobs d))"
  by (cases "row_of jb_key (key_name k) (db_jobs d)") (auto simp: read_job_def to_job_named dest: row_of_SomeD)

lemma read_next_due_at_le: "r \<in> set (db_jobs d) \<Longrightarrow> \<exists>a. read_next_due_at d = Some a \<and> a \<le> jb_dueAt r"
  using min_of_Some(2)[of "map jb_dueAt (db_jobs d)" _ "jb_dueAt r"]
  by (cases "read_next_due_at d") (auto simp: read_next_due_at_def)

definition due_of :: "job_key \<Rightarrow> db \<Rightarrow> millis option" where
  "due_of k d = map_option jb_dueAt (row_of jb_key (key_name k) (db_jobs d))"

lemma due_of_read_job: "due_of k d = map_option job_dueAt (read_job k d)"
  by (simp add: due_of_def read_job_iff option.map_comp comp_def)

lemma row_of_defer_job:
  "row_of jb_key s (db_jobs (defer_job k t now d)) =
    (if s = key_name k
     then Some (case row_of jb_key s (db_jobs d) of
         None \<Rightarrow> \<lparr>jb_key = key_name k, jb_dueAt = t, jb_retryCount = 0, jb_lastError = None,
                  jb_lastErrorAt = None, jb_updatedAt = now\<rparr>
       | Some r \<Rightarrow> r\<lparr>jb_dueAt := min (jb_dueAt r) t, jb_updatedAt := now\<rparr>)
     else row_of jb_key s (db_jobs d))"
  by (simp add: defer_job_def row_of_upsert_row)

lemma keyed_defer_job: "keyed jb_key (db_jobs d) \<Longrightarrow> keyed jb_key (db_jobs (defer_job k t now d))"
  unfolding defer_job_def by (simp add: keyed_upsert_row)

lemma job_ops_simps [store_simps]:
  "db_entries (defer_job k t now d) = db_entries d" "db_versions (defer_job k t now d) = db_versions d"
  "db_blobs (defer_job k t now d) = db_blobs d" "db_state (defer_job k t now d) = db_state d"
  "db_connections (defer_job k t now d) = db_connections d"
  "db_revocations (defer_job k t now d) = db_revocations d"
  "db_entries (delete_job k d) = db_entries d" "db_versions (delete_job k d) = db_versions d"
  "db_blobs (delete_job k d) = db_blobs d" "db_state (delete_job k d) = db_state d"
  "db_connections (delete_job k d) = db_connections d"
  "db_revocations (delete_job k d) = db_revocations d"
  "db_entries (reschedule_job k t now d) = db_entries d"
  "db_versions (reschedule_job k t now d) = db_versions d"
  "db_blobs (reschedule_job k t now d) = db_blobs d" "db_state (reschedule_job k t now d) = db_state d"
  "db_connections (reschedule_job k t now d) = db_connections d"
  "db_revocations (reschedule_job k t now d) = db_revocations d"
  "db_entries (reschedule_failed_job j e now d) = db_entries d"
  "db_versions (reschedule_failed_job j e now d) = db_versions d"
  "db_blobs (reschedule_failed_job j e now d) = db_blobs d"
  "db_state (reschedule_failed_job j e now d) = db_state d"
  "db_connections (reschedule_failed_job j e now d) = db_connections d"
  "db_revocations (reschedule_failed_job j e now d) = db_revocations d"
  by (simp_all add: defer_job_def delete_job_def reschedule_job_def reschedule_failed_job_def Let_def)

section \<open>The alarm\<close>

definition armed :: "coordinator \<Rightarrow> bool" where
  \<comment> \<open>job keys are unique and the alarm goes off no later than any job is due\<close>
  "armed c \<longleftrightarrow> keyed jb_key (db_jobs (co_db c)) \<and>
     (\<forall>r \<in> set (db_jobs (co_db c)). \<exists>a. co_alarm c = Some a \<and> a \<le> jb_dueAt r)"

definition armed_if :: "bool \<Rightarrow> coordinator \<Rightarrow> bool" where
  \<comment> \<open>while a drain is running (\<open>A = False\<close>) the alarm may be late; it is set again at the end\<close>
  "armed_if A c \<longleftrightarrow> keyed jb_key (db_jobs (co_db c)) \<and>
     (A \<longrightarrow> (\<forall>r \<in> set (db_jobs (co_db c)). \<exists>a. co_alarm c = Some a \<and> a \<le> jb_dueAt r))"

lemma armed_if_True [simp]: "armed_if True c = armed c"
  by (simp add: armed_if_def armed_def)

lemma armed_imp_if: "armed c \<Longrightarrow> armed_if A c"
  by (simp add: armed_if_def armed_def)

lemma rearm_alarm [simp]: "co_alarm (rearm c) = read_next_due_at (co_db c)"
  by (simp add: rearm_def split: option.splits)

lemma rearm_rest [simp]:
  "co_db (rearm c) = co_db c" "co_objects (rearm c) = co_objects c" "co_purged (rearm c) = co_purged c"
  "co_flushAt (rearm c) = co_flushAt c" "co_calls (rearm c) = co_calls c"
  "co_statusTimer (rearm c) = co_statusTimer c" "co_summaries (rearm c) = co_summaries c"
  by (simp_all add: rearm_def split: option.splits)

lemma rearm_armed: "keyed jb_key (db_jobs (co_db c)) \<Longrightarrow> armed (rearm c)"
  by (simp add: armed_def read_next_due_at_le)

text \<open>
  What the services rely on when they schedule maintenance: scheduling a job never postpones
  it, leaves the other jobs alone and keeps the alarm early enough.
\<close>

locale job_scheduler =
  fixes schedule :: "job_key \<Rightarrow> millis \<Rightarrow> millis \<Rightarrow> 's \<Rightarrow> 's"
    and due_at :: "job_key \<Rightarrow> 's \<Rightarrow> millis option"
    and alarm :: "'s \<Rightarrow> millis option"
    and inv :: "'s \<Rightarrow> bool"
  assumes inv_schedule: "inv s \<Longrightarrow> inv (schedule k t now s)"
    and due_schedule: "inv s \<Longrightarrow> due_at j (schedule k t now s) =
      (if j = k
       then Some (case due_at k s of None \<Rightarrow> job_due_at k t | Some u \<Rightarrow> min u (job_due_at k t))
       else due_at j s)"
    and alarm_covers: "inv s \<Longrightarrow> due_at k s = Some t \<Longrightarrow> \<exists>a. alarm s = Some a \<and> a \<le> t"
begin

lemma never_postponed: "inv s \<Longrightarrow> due_at j s = Some u \<Longrightarrow> \<exists>v. due_at j (schedule k t now s) = Some v \<and> v \<le> u"
  by (auto simp: due_schedule)

lemma schedule_twice:
  "inv s \<Longrightarrow> due_at j (schedule k t now (schedule k t now' s)) = due_at j (schedule k t now' s)"
  by (auto simp: due_schedule inv_schedule split: option.splits)

lemma schedule_order:
  "inv s \<Longrightarrow> due_at j (schedule k t now (schedule l u now' s)) = due_at j (schedule l u now' (schedule k t now s))"
  by (auto simp: due_schedule inv_schedule split: option.splits)

lemma alarm_in_time: "inv s \<Longrightarrow> \<exists>a. alarm (schedule k t now s) = Some a \<and> a \<le> job_due_at k t"
proof -
  assume inv: "inv s"
  obtain v where v: "due_at k (schedule k t now s) = Some v" "v \<le> job_due_at k t"
    using due_schedule[OF inv] by (auto split: option.splits)
  from alarm_covers[OF inv_schedule[OF inv] v(1)] v(2) show ?thesis by (meson order_trans)
qed

end

lemma due_of_defer_maintenance:
  "due_of j (co_db (defer_maintenance k t now c)) =
    (if j = k
     then Some (case due_of k (co_db c) of None \<Rightarrow> job_due_at k t | Some u \<Rightarrow> min u (job_due_at k t))
     else due_of j (co_db c))"
  by (cases "row_of jb_key (key_name k) (db_jobs (co_db c))")
    (auto simp: defer_maintenance_def Let_def read_job_iff due_of_def row_of_defer_job store_simps)

lemma defer_maintenance_armed_if: "armed_if A c \<Longrightarrow> armed_if A (defer_maintenance k t now c)"
  by (simp add: defer_maintenance_def Let_def armed_imp_if rearm_armed store_simps keyed_defer_job
      armed_if_def[of A c])

lemma defer_maintenance_armed: "armed c \<Longrightarrow> armed (defer_maintenance k t now c)"
  using defer_maintenance_armed_if[of True c] by simp

lemma defer_maintenance_rest [store_simps]:
  "co_objects (defer_maintenance k t now c) = co_objects c"
  "co_purged (defer_maintenance k t now c) = co_purged c"
  "co_flushAt (defer_maintenance k t now c) = co_flushAt c"
  "co_calls (defer_maintenance k t now c) = co_calls c"
  "db_entries (co_db (defer_maintenance k t now c)) = db_entries (co_db c)"
  "db_versions (co_db (defer_maintenance k t now c)) = db_versions (co_db c)"
  "db_blobs (co_db (defer_maintenance k t now c)) = db_blobs (co_db c)"
  "db_state (co_db (defer_maintenance k t now c)) = db_state (co_db c)"
  "db_connections (co_db (defer_maintenance k t now c)) = db_connections (co_db c)"
  "db_revocations (co_db (defer_maintenance k t now c)) = db_revocations (co_db c)"
  by (simp_all add: defer_maintenance_def Let_def store_simps on_db_def)

interpretation do_scheduler: job_scheduler defer_maintenance "\<lambda>k c. due_of k (co_db c)" co_alarm armed
proof unfold_locales
  show "armed c \<Longrightarrow> armed (defer_maintenance k t now c)" for c k t now
    by (rule defer_maintenance_armed)
  show "armed c \<Longrightarrow> due_of k (co_db c) = Some t \<Longrightarrow> \<exists>a. co_alarm c = Some a \<and> a \<le> t" for c k t
    by (auto simp: armed_def due_of_def dest: row_of_SomeD)
qed (rule due_of_defer_maintenance)

section \<open>Properties of the scheduler\<close>

lemma retry_delay_bounds: "retry_min_ms \<le> retry_delay_ms n \<and> retry_delay_ms n \<le> retry_max_ms"
proof -
  have "(1 :: int) \<le> 2 ^ nat (max 0 (n - 1))" by simp
  then show ?thesis by (simp add: retry_delay_ms_def retry_min_ms_def retry_max_ms_def)
qed

text \<open>
  Deferring a job: afterwards the job exists and is due at the earlier of its previous due
  time and the requested one (rounded up to the collection bucket), every other job keeps its
  due time, and the alarm is set to go off no later than the job is due.
\<close>

theorem defer_schedules_job:
  assumes "armed c"
  shows "due_of k (co_db (defer_maintenance k t now c)) =
           Some (case due_of k (co_db c) of None \<Rightarrow> job_due_at k t | Some u \<Rightarrow> min u (job_due_at k t))
       \<and> (\<forall>j. j \<noteq> k \<longrightarrow> due_of j (co_db (defer_maintenance k t now c)) = due_of j (co_db c))
       \<and> (\<exists>a. co_alarm (defer_maintenance k t now c) = Some a \<and> a \<le> job_due_at k t \<and>
              job_due_at k t < t + 1800000)"
  using do_scheduler.due_schedule[OF assms] do_scheduler.alarm_in_time[OF assms, of k t now]
    job_due_at_bounds(2)[of k t] by (auto simp: gc_bucket_ms_def)

definition idle_coordinator :: coordinator where
  "idle_coordinator = \<lparr>co_db = empty_db, co_objects = {}, co_alarm = None, co_flushAt = None,
     co_statusTimer = False, co_purged = False, co_calls = [], co_summaries = []\<rparr>"

lemma idle_armed [simp]: "armed idle_coordinator"
  by (simp add: armed_def idle_coordinator_def empty_db_def keyed_def)

theorem defer_schedules_job_witness:
  "due_of Blob_gc (co_db (defer_maintenance Blob_gc 1700000 5 idle_coordinator)) = Some 1800000"
  using defer_schedules_job[OF idle_armed, of Blob_gc 1700000 5]
  by (simp add: due_of_def idle_coordinator_def empty_db_def job_due_at_def gc_bucket_ms_def)

text \<open>
  A failing maintenance job is never lost and never retried in a tight loop: the row stays
  in the table with its retry count increased and an error text of at most 500 characters, it
  is due again between thirty seconds and fifteen minutes later, and the other jobs are as the
  handler left them.
\<close>

theorem failed_job_backs_off:
  assumes fails: "(case handlers (job_key j) of None \<Rightarrow> (Inl (JsError (''No maintenance handler for '' @ key_name (job_key j))), c)
                   | Some h \<Rightarrow> h now c) = (Inl e, c')"
    and row: "row_of jb_key (key_name (job_key j)) (db_jobs (co_db c')) = Some r"
  shows "\<exists>r'. row_of jb_key (key_name (job_key j)) (db_jobs (co_db (run_job handlers j now c))) = Some r' \<and>
      jb_retryCount r' = job_retryCount j + 1 \<and> now + 30000 \<le> jb_dueAt r' \<and> jb_dueAt r' \<le> now + 900000 \<and>
      (\<exists>m. jb_lastError r' = Some m \<and> length m \<le> 500) \<and>
      (\<forall>s. s \<noteq> key_name (job_key j) \<longrightarrow>
         row_of jb_key s (db_jobs (co_db (run_job handlers j now c))) = row_of jb_key s (db_jobs (co_db c')))"
proof -
  have key: "jb_key r = key_name (job_key j)" using row_of_SomeD[OF row] by simp
  have run: "run_job handlers j now c = on_db (reschedule_failed_job j e now) c'"
    using fails by (simp add: run_job_def)
  have lookup: "row_of jb_key s (db_jobs (co_db (run_job handlers j now c))) =
      map_option (\<lambda>x. if jb_key x = key_name (job_key j)
        then x\<lparr>jb_dueAt := now + retry_delay_ms (job_retryCount j + 1), jb_retryCount := job_retryCount j + 1,
               jb_lastError := Some (format_compact_error e), jb_lastErrorAt := Some now, jb_updatedAt := now\<rparr>
        else x) (row_of jb_key s (db_jobs (co_db c')))" for s
    by (simp add: run store_simps reschedule_failed_job_def Let_def row_of_update_rows)
  have other: "s \<noteq> key_name (job_key j) \<Longrightarrow>
      row_of jb_key s (db_jobs (co_db (run_job handlers j now c))) = row_of jb_key s (db_jobs (co_db c'))" for s
    by (cases "row_of jb_key s (db_jobs (co_db c'))") (auto simp: lookup dest: row_of_SomeD)
  show ?thesis
    using row key retry_delay_bounds[of "job_retryCount j + 1"] format_compact_error_bound other
    by (simp add: lookup retry_min_ms_def retry_max_ms_def)
qed

theorem failed_job_backs_off_witness:
  "\<exists>r'. row_of jb_key ''blob_gc'' (db_jobs (co_db (run_job (\<lambda>_. Some (\<lambda>_ c. (Inl (JsError ''boom''), c)))
      \<lparr>job_key = Blob_gc, job_dueAt = 0, job_retryCount = 0\<rparr> 7
      (defer_maintenance Blob_gc 0 0 idle_coordinator)))) = Some r' \<and> 30007 \<le> jb_dueAt r' \<and> jb_dueAt r' \<le> 900007"
proof -
  let ?c = "defer_maintenance Blob_gc 0 0 idle_coordinator"
  let ?h = "\<lambda>_ :: job_key. Some (\<lambda>(_ :: millis) (c :: coordinator). (Inl (JsError ''boom'') :: coord_error + millis option, c))"
  obtain r where r: "row_of jb_key (key_name Blob_gc) (db_jobs (co_db ?c)) = Some r"
    using due_of_defer_maintenance[of Blob_gc Blob_gc 0 0 idle_coordinator] by (auto simp: due_of_def)
  from failed_job_backs_off[where handlers = ?h and j = "\<lparr>job_key = Blob_gc, job_dueAt = 0, job_retryCount = 0\<rparr>"
      and c = ?c and now = 7 and e = "JsError ''boom''" and c' = ?c and r = r] r
  show ?thesis by (auto simp: key_name_def)
qed

text \<open>
  A drain always ends with the alarm set to the earliest job that is left, and with no alarm
  exactly when no job is left, whatever the handlers did to the table or to the alarm.
\<close>

theorem drain_rearms:
  "co_alarm (drain handlers now c) = min_of (map jb_dueAt (db_jobs (co_db (drain handlers now c)))) \<and>
   (co_alarm (drain handlers now c) = None \<longleftrightarrow> db_jobs (co_db (drain handlers now c)) = [])"
  by (simp add: drain_def read_next_due_at_def)

end
