(* ===== verification/Entry_Policy.thy ===== *)
theory Entry_Policy
  imports Storage_Model
begin

text \<open>
  \<open>domain/entry-policy.ts\<close>: the decision about one entry mutation (optimistic concurrency,
  idempotency by mutation id, history capture) and about purging a deleted entry.
\<close>

definition auto_bucket_ms :: millis where
  "auto_bucket_ms = 5 * 60 * 1000"

record current_facts =
  cf_revision :: int
  cf_lastMutation :: "ident option"

datatype mutation_decision =
    Idempotent
  | Stale_revision int int \<comment> \<open>expected and received base revision\<close>
  | Apply int int "ident option" bool "capture_reason option" bool "millis option"
      \<comment> \<open>previous revision, revision, next blob, next deleted, forced history,
          capture auto version, auto version bucket\<close>

definition decide_entry_mutation ::
  "current_facts option \<Rightarrow> ident \<Rightarrow> int \<Rightarrow> op_type \<Rightarrow> ident option \<Rightarrow> capture_reason option \<Rightarrow>
   millis \<Rightarrow> mutation_decision" where
  "decide_entry_mutation current mutationId baseRevision op blobId forced now =
     (if (case current of None \<Rightarrow> False | Some c \<Rightarrow> cf_lastMutation c = Some mutationId) then Idempotent
      else let previous = (case current of None \<Rightarrow> 0 | Some c \<Rightarrow> cf_revision c) in
        if previous \<noteq> baseRevision then Stale_revision previous baseRevision
        else let forced' = (if op = Delete then Some Before_delete else forced);
                 auto = (forced' = None \<and> baseRevision > 0)
          in Apply previous (previous + 1) (if op = Delete then None else blobId) (op = Delete)
               forced' auto
               (if auto then Some ((now div auto_bucket_ms) * auto_bucket_ms) else None))"

definition is_current_revision :: "int \<Rightarrow> int \<Rightarrow> bool" where
  "is_current_revision currentRevision receivedBaseRevision = (currentRevision = receivedBaseRevision)"

definition is_restore_payload_compatible ::
  "op_type \<Rightarrow> ident option \<Rightarrow> op_type \<Rightarrow> ident option \<Rightarrow> bool" where
  "is_restore_payload_compatible targetOp targetBlob restoreOp restoreBlob =
     (targetOp = restoreOp \<and> targetBlob = restoreBlob)"

datatype purge_decision =
    Purge_not_found | Purge_not_deleted | Purge_stale int | Purge_no_history | Purge_accepted

definition decide_deleted_entry_purge ::
  "(int \<times> bool) option \<Rightarrow> int \<Rightarrow> bool \<Rightarrow> purge_decision" where
  "decide_deleted_entry_purge current receivedRevision hasRestorableHistory =
     (case current of
        None \<Rightarrow> Purge_not_found
      | Some (revision, deleted) \<Rightarrow>
          if \<not> deleted then Purge_not_deleted
          else if revision \<noteq> receivedRevision then Purge_stale revision
          else if \<not> hasRestorableHistory then Purge_no_history
          else Purge_accepted)"

lemmas [policy_simps] =
  decide_entry_mutation_def is_current_revision_def is_restore_payload_compatible_def
  decide_deleted_entry_purge_def

section \<open>Facts about the decisions\<close>

lemma decide_apply_iff:
  "(\<exists>p r b dl f a k. decide_entry_mutation cur m base op blob forced now = Apply p r b dl f a k) \<longleftrightarrow>
   (case cur of None \<Rightarrow> base = 0
    | Some c \<Rightarrow> cf_lastMutation c \<noteq> Some m \<and> cf_revision c = base)"
  by (auto simp: decide_entry_mutation_def Let_def split: option.splits if_splits)

lemma decide_applyD:
  assumes "decide_entry_mutation cur m base op blob forced now = Apply p r b dl f a k"
  shows "p = base" "r = base + 1" "p = (case cur of None \<Rightarrow> 0 | Some c \<Rightarrow> cf_revision c)"
    "b = (if op = Delete then None else blob)" "dl = (op = Delete)"
    "f = (if op = Delete then Some Before_delete else forced)"
    "a \<longleftrightarrow> f = None \<and> base > 0"
  using assms by (auto simp: decide_entry_mutation_def Let_def split: if_splits)

lemma decide_retry_idempotent:
  "decide_entry_mutation (Some \<lparr>cf_revision = r, cf_lastMutation = Some m\<rparr>) m base op blob forced now
   = Idempotent"
  by (simp add: decide_entry_mutation_def)

lemma auto_bucket_bounds:
  "(now div auto_bucket_ms) * auto_bucket_ms \<le> now \<and>
   now < (now div auto_bucket_ms) * auto_bucket_ms + auto_bucket_ms"
proof -
  have "(now div auto_bucket_ms) * auto_bucket_ms + now mod auto_bucket_ms = now"
    by (rule div_mult_mod_eq)
  moreover have "0 \<le> now mod auto_bucket_ms" "now mod auto_bucket_ms < auto_bucket_ms"
    by (simp_all add: auto_bucket_ms_def)
  ultimately show ?thesis by linarith
qed

text \<open>
  The automatic history bucket of an applied mutation: it is recorded exactly when no
  forced capture happens and the entry existed before; it is the start of the five-minute
  window that holds the time of the commit, so two commits share a bucket iff they fall into the
  same window.
\<close>

theorem auto_version_bucket:
  assumes "decide_entry_mutation cur m base op blob forced now = Apply p r b dl f a k"
  shows "(a \<longleftrightarrow> op = Upsert \<and> forced = None \<and> base > 0) \<and>
    (k \<noteq> None \<longleftrightarrow> a) \<and>
    (\<forall>s. k = Some s \<longrightarrow> s \<le> now \<and> now < s + 300000 \<and> s mod 300000 = 0)"
proof -
  from assms have k: "k = (if a then Some ((now div auto_bucket_ms) * auto_bucket_ms) else None)"
    and a: "a \<longleftrightarrow> (if op = Delete then Some Before_delete else forced) = None \<and> base > 0"
    by (auto simp: decide_entry_mutation_def Let_def split: if_splits)
  show ?thesis
    using auto_bucket_bounds[of now] k a by (cases op) (auto simp: auto_bucket_ms_def split: if_splits)
qed

theorem auto_version_bucket_witness:
  "(False \<longleftrightarrow> Delete = Upsert \<and> (None :: capture_reason option) = None \<and> (3::int) > 0)"
proof -
  have "decide_entry_mutation (Some \<lparr>cf_revision = 3, cf_lastMutation = None\<rparr>) ''m'' 3 Delete None None 600001
      = Apply 3 4 None True (Some Before_delete) False None"
    by (simp add: decide_entry_mutation_def)
  from auto_version_bucket[OF this] show ?thesis by simp
qed

end
