(* ===== verification/Blob_Records.thy ===== *)
theory Blob_Records
  imports Scheduler Entry_Policy
begin

text \<open>
  The record operations shared by the services (\<open>services/blob-record-operations.ts\<close>), and the
  invariants of the database they have to keep: the storage counter equals the sizes of the
  blob rows, and every referenced blob has a row, a live one if an entry refers to it.
\<close>

section \<open>Operations\<close>

definition account_for_deleted_blobs :: "blob_row list \<Rightarrow> db \<Rightarrow> db" where
  "account_for_deleted_blobs deleted d =
     (let bytes = sum_list (map bl_size deleted) in
      if bytes > 0 then adjust_storage_used (- bytes) d else d)"

definition to_existing_blob :: "blob_row \<Rightarrow> existing_blob" where
  "to_existing_blob r = \<lparr>eb_state = bl_state r, eb_size = bl_size r, eb_createdAt = bl_createdAt r\<rparr>"

definition stage_blob_record ::
  "ident \<Rightarrow> int \<Rightarrow> millis \<Rightarrow> millis \<Rightarrow> db \<Rightarrow> (coord_error + stage_decision) \<times> db" where
  "stage_blob_record blobId sizeBytes now deleteAfter d =
     (case read_sync_pause d of
        Some p \<Rightarrow> (Inr (Stage_paused (sp_reason p)), d)
      | None \<Rightarrow>
          let blob = read_blob blobId d in
          if \<not> truthy (read_vault_id d)
          then (Inl (AppError ''sync_state_uninitialized''
                 [(''message'', DStr ''vault sync state is not initialized'')]), d)
          else case read_vault_limits d of
            Inl e \<Rightarrow> (Inl e, d)
          | Inr limits \<Rightarrow> (case read_storage_used d of
              Inl e \<Rightarrow> (Inl e, d)
            | Inr used \<Rightarrow>
                let decision = decide_blob_stage blobId sizeBytes now staged_blob_stale_ms
                      (map_option to_existing_blob blob)
                      (case blob of None \<Rightarrow> False
                       | Some r \<Rightarrow> is_blob_pinned (read_blob_reference_facts blobId now d))
                      used (lim_storage limits) (lim_maxFile limits)
                in (Inr decision,
                    case decision of
                      Stage_paused reason \<Rightarrow> pause_sync now reason d
                    | Stage_rejected r \<Rightarrow> d
                    | Stage_ok delta \<Rightarrow>
                        let d' = persist_stage blobId sizeBytes now deleteAfter d
                        in if delta > 0 then adjust_storage_used delta d' else d')))"

datatype staged_deletion = Staged_missing | Staged_referenced | Staged_deleted

definition delete_unreferenced_staged_blob :: "ident \<Rightarrow> millis \<Rightarrow> db \<Rightarrow> staged_deletion \<times> db" where
  "delete_unreferenced_staged_blob blobId now d =
     (case read_blob blobId d of
        None \<Rightarrow> (Staged_missing, d)
      | Some r \<Rightarrow>
          if bl_state r \<noteq> Staged \<or> is_blob_pinned (read_blob_reference_facts blobId now d)
          then (Staged_referenced, d)
          else let (deleted, d') = delete_blob_record blobId (Some Staged) d
               in (if deleted \<noteq> [] then Staged_deleted else Staged_missing,
                   account_for_deleted_blobs deleted d'))"

definition mark_unpinned_blob_pending_delete :: "ident \<Rightarrow> millis \<Rightarrow> db \<Rightarrow> db" where
  "mark_unpinned_blob_pending_delete blobId now d =
     (case read_blob blobId d of
        None \<Rightarrow> d
      | Some r \<Rightarrow>
          (case decide_pending_delete (bl_state r) (bl_deleteAfter r)
                  (read_blob_reference_facts blobId now d) now of
             Mark_pending_delete t \<Rightarrow> update_blob_state blobId Pending_delete (Some t) d
           | Retain _ \<Rightarrow> d))"

definition delete_collectible_blob_records :: "ident list \<Rightarrow> millis \<Rightarrow> db \<Rightarrow> blob_row list \<times> db" where
  "delete_collectible_blob_records blobIds now d =
     (let (deleted, d') = delete_collectible_blobs blobIds now d
      in (deleted, account_for_deleted_blobs deleted d'))"

section \<open>Invariants of the database\<close>

definition blob_bytes :: "db \<Rightarrow> int" where
  "blob_bytes d = sum_list (map bl_size (db_blobs d))"

definition accounted :: "db \<Rightarrow> bool" where
  "accounted d \<longleftrightarrow> (\<forall>r \<in> set (db_blobs d). 0 \<le> bl_size r) \<and>
     (case db_state d of None \<Rightarrow> db_blobs d = [] | Some s \<Rightarrow> cs_used s = blob_bytes d)"

definition pinned :: "millis \<Rightarrow> db \<Rightarrow> ident \<Rightarrow> bool" where
  "pinned now d b = is_blob_pinned (read_blob_reference_facts b now d)"

definition refs_ok :: "millis \<Rightarrow> db \<Rightarrow> bool" where
  "refs_ok now d \<longleftrightarrow> (\<forall>b. b \<noteq> [] \<longrightarrow>
     (current_blob_reference d b \<longrightarrow> (\<exists>r. read_blob b d = Some r \<and> bl_state r = Live)) \<and>
     (retained_blob_reference now d b \<longrightarrow> read_blob b d \<noteq> None))"

definition seqs_ok :: "db \<Rightarrow> bool" where
  "seqs_ok d \<longleftrightarrow> distinct (map en_seq (db_entries d)) \<and>
     (\<forall>e \<in> set (db_entries d). 0 < en_revision e) \<and>
     (case db_state d of None \<Rightarrow> db_entries d = []
      | Some s \<Rightarrow> 0 \<le> cs_cursor s \<and> (\<forall>e \<in> set (db_entries d). en_seq e \<le> cs_cursor s))"

definition versions_ok :: "db \<Rightarrow> bool" where
  "versions_ok d = sorted_wrt (\<lambda>v w. \<not> version_conflict v w) (db_versions d)"

definition db_ok :: "millis \<Rightarrow> db \<Rightarrow> bool" where
  "db_ok now d \<longleftrightarrow> db_keys d \<and> accounted d \<and> refs_ok now d \<and> seqs_ok d \<and> versions_ok d"

lemma pinned_iff: "pinned now d b \<longleftrightarrow> current_blob_reference d b \<or> retained_blob_reference now d b"
  by (simp add: pinned_def is_blob_pinned_def)

lemma db_ok_empty [simp]: "db_ok now empty_db"
  by (simp add: db_ok_def accounted_def refs_ok_def seqs_ok_def versions_ok_def current_blob_reference_def
      retained_blob_reference_def) (simp add: empty_db_def)

lemma db_ok_later: "db_ok now d \<Longrightarrow> now \<le> later \<Longrightarrow> db_ok later d"
  unfolding db_ok_def refs_ok_def using retained_blob_reference_mono by blast

lemma pinned_later: "pinned later d b \<Longrightarrow> now \<le> later \<Longrightarrow> pinned now d b"
  by (auto simp: pinned_iff dest: retained_blob_reference_mono)

lemma pinned_has_row: "db_ok now d \<Longrightarrow> b \<noteq> [] \<Longrightarrow> pinned now d b \<Longrightarrow> read_blob b d \<noteq> None"
  by (auto simp: db_ok_def refs_ok_def pinned_iff)

text \<open>The references depend on entries and versions only.\<close>

lemma references_cong:
  assumes "db_entries d' = db_entries d" "db_versions d' = db_versions d"
  shows "current_blob_reference d' b = current_blob_reference d b"
    "retained_blob_reference now d' b = retained_blob_reference now d b"
    "pinned now d' b = pinned now d b"
  using assms by (simp_all add: current_blob_reference_def retained_blob_reference_def pinned_iff)

lemma sum_upd_sizes:
  "(\<And>r. bl_size (f r) = bl_size r) \<Longrightarrow> sum_list (map bl_size (update_rows P f rows)) = sum_list (map bl_size rows)"
  by (induction rows) (auto simp: update_rows_def)

lemma sum_sizes_nonneg: "\<forall>r \<in> set rows. 0 \<le> bl_size r \<Longrightarrow> 0 \<le> sum_list (map bl_size rows)"
  by (induction rows) auto

lemma sum_deleted:
  "sum_list (map bl_size (delete_rows P rows)) = sum_list (map bl_size rows) - sum_list (map bl_size (filter P rows))"
  using filter_partition_sum_list[of bl_size rows P] by (simp add: delete_rows_def)

text \<open>Rows that are removed and accounted for leave the counter correct.\<close>

lemma account_rest [store_simps]:
  "db_entries (account_for_deleted_blobs rs d) = db_entries d"
  "db_versions (account_for_deleted_blobs rs d) = db_versions d"
  "db_blobs (account_for_deleted_blobs rs d) = db_blobs d"
  "db_jobs (account_for_deleted_blobs rs d) = db_jobs d"
  "db_connections (account_for_deleted_blobs rs d) = db_connections d"
  "db_revocations (account_for_deleted_blobs rs d) = db_revocations d"
  by (simp_all add: account_for_deleted_blobs_def Let_def store_simps)

lemma delete_account_accounted:
  assumes acc: "accounted d"
  shows "accounted (account_for_deleted_blobs (filter P (db_blobs d)) (snd (delete_blobs_where P d)))"
proof -
  let ?rs = "filter P (db_blobs d)"
  have nonneg: "0 \<le> sum_list (map bl_size ?rs)" "0 \<le> sum_list (map bl_size (delete_rows P (db_blobs d)))"
    using acc by (intro sum_sizes_nonneg; auto simp: accounted_def table_simps)+
  have rows: "\<forall>r \<in> set (delete_rows P (db_blobs d)). 0 \<le> bl_size r"
    using acc by (auto simp: accounted_def table_simps)
  show ?thesis
  proof (cases "db_state d")
    case None
    then show ?thesis using acc
      by (simp add: accounted_def account_for_deleted_blobs_def Let_def store_simps delete_rows_def)
  next
    case (Some s)
    then show ?thesis using acc nonneg rows
      by (auto simp: accounted_def account_for_deleted_blobs_def Let_def store_simps blob_bytes_def sum_deleted)
  qed
qed

lemma cursor_account [store_simps]:
  "map_option cs_cursor (db_state (account_for_deleted_blobs rs d)) = map_option cs_cursor (db_state d)"
  by (cases "db_state d") (simp_all add: account_for_deleted_blobs_def Let_def store_simps)

lemma accounted_cong:
  assumes "db_blobs d' = db_blobs d" "map_option cs_used (db_state d') = map_option cs_used (db_state d)"
  shows "accounted d' = accounted d"
  using assms by (cases "db_state d"; cases "db_state d'") (auto simp: accounted_def blob_bytes_def)

lemma seqs_ok_cong:
  assumes "db_entries d' = db_entries d" "map_option cs_cursor (db_state d') = map_option cs_cursor (db_state d)"
  shows "seqs_ok d' = seqs_ok d"
  using assms by (cases "db_state d"; cases "db_state d'") (auto simp: seqs_ok_def)

lemma read_blob_delete_where:
  assumes "keyed bl_id (db_blobs d)"
  shows "read_blob b (snd (delete_blobs_where P d)) =
    (case read_blob b d of None \<Rightarrow> None | Some r \<Rightarrow> if P r then None else Some r)"
proof -
  have k: "keyed bl_id (delete_rows P (db_blobs d))" using assms by (rule keyed_delete_rows)
  show ?thesis
  proof (cases "read_blob b d")
    case None
    then have "row_of bl_id b (delete_rows P (db_blobs d)) = None"
      by (auto simp: read_blob_def row_of_None table_simps)
    then show ?thesis using None by (simp add: read_blob_def store_simps)
  next
    case (Some r)
    then have r: "r \<in> set (db_blobs d)" "bl_id r = b" by (auto dest: read_blob_SomeD)
    show ?thesis
    proof (cases "P r")
      case True
      have "row_of bl_id b (delete_rows P (db_blobs d)) = None"
        using keyed_unique[OF assms _ r(1)] r(2) True by (force simp: row_of_None table_simps)
      then show ?thesis using Some True by (simp add: read_blob_def store_simps)
    next
      case False
      then have "r \<in> set (delete_rows P (db_blobs d))" using r by (simp add: table_simps)
      then show ?thesis using Some False keyed_row_iff[OF k, of b r] r(2) by (simp add: read_blob_def store_simps)
    qed
  qed
qed

text \<open>Removing rows of unpinned blobs, with accounting, keeps the invariant.\<close>

lemma delete_unpinned_db_ok:
  assumes ok: "db_ok now d" and unpinned: "\<And>r. r \<in> set (db_blobs d) \<Longrightarrow> P r \<Longrightarrow> \<not> pinned now d (bl_id r)"
  shows "db_ok now (account_for_deleted_blobs (filter P (db_blobs d)) (snd (delete_blobs_where P d)))"
    (is "db_ok now ?d")
proof -
  have keys: "db_keys d" using ok by (simp add: db_ok_def)
  have "db_keys ?d"
    using keys by (simp add: db_keys_def store_simps keyed_delete_rows)
  moreover have "accounted ?d" using ok delete_account_accounted by (simp add: db_ok_def)
  moreover have "seqs_ok ?d"
    using ok seqs_ok_cong[of ?d d] by (simp add: db_ok_def store_simps)
  moreover have "versions_ok ?d" using ok by (simp add: db_ok_def versions_ok_def store_simps)
  moreover have "refs_ok now ?d"
    unfolding refs_ok_def
  proof (intro allI impI)
    fix b :: ident
    assume b: "b \<noteq> []"
    have refs: "current_blob_reference ?d b = current_blob_reference d b"
      "retained_blob_reference now ?d b = retained_blob_reference now d b"
      by (rule references_cong; simp add: store_simps)+
    have "read_blob b ?d = read_blob b (snd (delete_blobs_where P d))"
      by (simp add: read_blob_def store_simps)
    also have "\<dots> = read_blob b d" if "pinned now d b"
      using that unpinned keys by (auto simp: read_blob_delete_where db_keys_def split: option.splits
          dest: read_blob_SomeD)
    finally have "pinned now d b \<Longrightarrow> read_blob b ?d = read_blob b d" .
    then show "(current_blob_reference ?d b \<longrightarrow> (\<exists>r. read_blob b ?d = Some r \<and> bl_state r = Live)) \<and>
        (retained_blob_reference now ?d b \<longrightarrow> read_blob b ?d \<noteq> None)"
      using ok b by (auto simp: refs db_ok_def refs_ok_def pinned_iff)
  qed
  ultimately show ?thesis by (simp add: db_ok_def)
qed

lemma update_blob_state_db_ok:
  assumes ok: "db_ok now d" and live: "b \<noteq> [] \<Longrightarrow> current_blob_reference d b \<Longrightarrow> s = Live"
  shows "db_ok now (update_blob_state b s da d)" (is "db_ok now ?d")
proof -
  have "db_keys ?d"
    using ok by (simp add: db_ok_def db_keys_def store_simps) (simp add: update_blob_state_def keyed_update_rows)
  moreover have "accounted ?d"
    using ok by (auto simp: db_ok_def accounted_def store_simps blob_bytes_def update_blob_state_def
        sum_upd_sizes table_simps split: option.splits) (simp add: update_rows_def)
  moreover have "seqs_ok ?d" "versions_ok ?d"
    using ok seqs_ok_cong[of ?d d] by (simp_all add: db_ok_def versions_ok_def store_simps)
  moreover have "refs_ok now ?d"
    unfolding refs_ok_def
  proof (intro allI impI)
    fix c :: ident
    assume c: "c \<noteq> []"
    have refs: "current_blob_reference ?d x = current_blob_reference d x"
      "retained_blob_reference now ?d x = retained_blob_reference now d x" for x
      by (rule references_cong; simp add: store_simps)+
    show "(current_blob_reference ?d c \<longrightarrow> (\<exists>r. read_blob c ?d = Some r \<and> bl_state r = Live)) \<and>
        (retained_blob_reference now ?d c \<longrightarrow> read_blob c ?d \<noteq> None)"
      using ok c live by (cases "c = b"; cases "read_blob c d")
        (auto simp: refs read_blob_update_state db_ok_def refs_ok_def)
  qed
  ultimately show ?thesis by (simp add: db_ok_def)
qed

lemma mark_unpinned_db_ok:
  assumes "db_ok now d"
  shows "db_ok now (mark_unpinned_blob_pending_delete b now d)"
proof -
  have "db_ok now (update_blob_state b Pending_delete (Some t) d)"
    if "decide_pending_delete s da (read_blob_reference_facts b now d) now = Mark_pending_delete t" for s da t
    using that assms by (intro update_blob_state_db_ok) (auto simp: pending_delete_iff is_blob_pinned_def)
  then show ?thesis
    using assms by (auto simp: mark_unpinned_blob_pending_delete_def split: option.splits pending_delete_decision.splits)
qed

lemma delete_collectible_db_ok:
  assumes "db_ok now d"
  shows "db_ok now (snd (delete_collectible_blob_records ids now d))"
proof (cases "ids = []")
  case True
  then show ?thesis using assms
    by (simp add: delete_collectible_blob_records_def delete_collectible_blobs_def account_for_deleted_blobs_def)
next
  case False
  let ?P = "\<lambda>r. bl_id r \<in> set ids \<and> collectible_blob now d r"
  have "db_ok now (account_for_deleted_blobs (filter ?P (db_blobs d)) (snd (delete_blobs_where ?P d)))"
    using assms by (rule delete_unpinned_db_ok) (simp add: collectible_blob_def blob_unreferenced_pinned pinned_def)
  then show ?thesis using False
    by (simp add: delete_collectible_blob_records_def delete_collectible_blobs_def delete_blobs_where_def)
qed

lemma delete_unreferenced_staged_db_ok:
  assumes ok: "db_ok now d"
  shows "db_ok now (snd (delete_unreferenced_staged_blob b now d))"
proof -
  let ?P = "\<lambda>r. bl_id r = b \<and> bl_state r = Staged"
  have "db_ok now (account_for_deleted_blobs (filter ?P (db_blobs d)) (snd (delete_blobs_where ?P d)))"
    if "\<not> is_blob_pinned (read_blob_reference_facts b now d)"
    using ok that by (intro delete_unpinned_db_ok) (auto simp: pinned_def)
  then show ?thesis using ok
    by (auto simp: delete_unreferenced_staged_blob_def delete_blob_record_def delete_blobs_where_def Let_def
        split: option.splits)
qed

lemma adjust_rest_db_ok:
  assumes keys: "db_keys d" and refs: "refs_ok now d" and seqs: "seqs_ok d" and vers: "versions_ok d"
    and acc: "accounted (on_state f d)" and cursor: "\<And>s. cs_cursor (f s) = cs_cursor s"
  shows "db_ok now (on_state f d)"
proof -
  have "read_blob b (on_state f d) = read_blob b d" for b by (simp add: read_blob_def store_simps)
  then have "refs_ok now (on_state f d)"
    using refs references_cong[of "on_state f d" d] by (simp add: refs_ok_def store_simps)
  moreover have "seqs_ok (on_state f d)"
    using seqs seqs_ok_cong[of "on_state f d" d] cursor
    by (cases "db_state d") (simp_all add: store_simps)
  ultimately show ?thesis using assms by (simp add: db_ok_def db_keys_def versions_ok_def store_simps)
qed

lemma on_state_db_ok:
  assumes "db_ok now d" "\<And>s. cs_cursor (f s) = cs_cursor s" "\<And>s. cs_used (f s) = cs_used s"
  shows "db_ok now (on_state f d)"
  using assms by (intro adjust_rest_db_ok) (auto simp: db_ok_def accounted_def store_simps blob_bytes_def split: option.splits)

section \<open>Staging\<close>

lemma blob_bytes_persist_stage:
  "blob_bytes (persist_stage b sz now da d) =
   blob_bytes d + (case read_blob b d of None \<Rightarrow> sz | Some r \<Rightarrow> 0)"
proof (cases "\<exists>r \<in> set (db_blobs d). bl_id r = b")
  case True
  then have "read_blob b d \<noteq> None" by (auto simp: read_blob_def row_of_None)
  then show ?thesis using True by (auto simp: blob_bytes_def persist_stage_def upsert_row_def sum_upd_sizes)
next
  case False
  then have "read_blob b d = None" by (auto simp: read_blob_def row_of_None)
  then show ?thesis using False by (auto simp: blob_bytes_def persist_stage_def upsert_row_def)
qed

lemma sizes_persist_stage:
  "0 \<le> sz \<Longrightarrow> \<forall>r \<in> set (db_blobs d). 0 \<le> bl_size r \<Longrightarrow> r \<in> set (db_blobs (persist_stage b sz now da d)) \<Longrightarrow> 0 \<le> bl_size r"
  by (auto simp: persist_stage_def upsert_row_def table_simps split: if_splits)

lemma stage_blob_record_ok:
  assumes stage: "stage_blob_record b sz now da d = (Inr (Stage_ok delta), d')"
  obtains s where "db_state d = Some s" "read_sync_pause d = None"
    "decide_blob_stage b sz now staged_blob_stale_ms (map_option to_existing_blob (read_blob b d))
       (case read_blob b d of None \<Rightarrow> False | Some r \<Rightarrow> pinned now d b) (cs_used s) (cs_limit s) (cs_maxFile s)
     = Stage_ok delta"
    "d' = (if delta > 0 then adjust_storage_used delta (persist_stage b sz now da d) else persist_stage b sz now da d)"
  using stage
  by (auto simp: stage_blob_record_def Let_def read_vault_limits_def read_storage_used_def pinned_def
      split: option.splits if_splits sum.splits)

lemma stage_blob_record_cases:
  assumes "stage_blob_record b sz now da d = (res, d')" "\<And>delta. res \<noteq> Inr (Stage_ok delta)"
  shows "d' = d \<or> (\<exists>reason. d' = pause_sync now reason d)"
  using assms
  by (auto simp: stage_blob_record_def Let_def split: option.splits if_splits sum.splits stage_decision.splits)

lemma persist_stage_accounted:
  assumes ok: "accounted d" and s: "db_state d = Some s" and sz: "0 \<le> sz"
    and delta: "delta = (case read_blob b d of None \<Rightarrow> sz | Some r \<Rightarrow> 0)"
  shows "accounted (if delta > 0 then adjust_storage_used delta (persist_stage b sz now da d)
                    else persist_stage b sz now da d)"
proof -
  have bytes: "blob_bytes (persist_stage b sz now da d) = cs_used s + delta"
    using ok s delta by (simp add: blob_bytes_persist_stage accounted_def)
  have nonneg: "0 \<le> delta" "0 \<le> cs_used s"
    using ok s delta sz by (auto simp: accounted_def blob_bytes_def sum_sizes_nonneg split: option.splits)
  have sizes: "\<forall>r \<in> set (db_blobs (persist_stage b sz now da d)). 0 \<le> bl_size r"
    using ok sz sizes_persist_stage by (auto simp: accounted_def)
  show ?thesis using bytes nonneg sizes s
    by (auto simp: accounted_def store_simps blob_bytes_def)
qed

lemma stage_ok_db_ok:
  assumes ok: "db_ok now d" and sz: "0 \<le> sz" and stage: "stage_blob_record b sz now da d = (Inr (Stage_ok delta), d')"
  shows "db_ok now d'"
proof -
  obtain s where s: "db_state d = Some s" and
    dec: "decide_blob_stage b sz now staged_blob_stale_ms (map_option to_existing_blob (read_blob b d))
       (case read_blob b d of None \<Rightarrow> False | Some r \<Rightarrow> pinned now d b) (cs_used s) (cs_limit s) (cs_maxFile s)
     = Stage_ok delta" and
    d': "d' = (if delta > 0 then adjust_storage_used delta (persist_stage b sz now da d) else persist_stage b sz now da d)"
    using stage_blob_record_ok[OF stage] by metis
  have delta: "delta = (case read_blob b d of None \<Rightarrow> sz | Some r \<Rightarrow> 0)"
    using decide_stage_okD(2,3)[OF dec] by (auto split: option.splits)
  have unpinned: "\<not> pinned now d b" if "b \<noteq> []"
    using decide_stage_okD(2)[OF dec] pinned_has_row[OF ok that] by (auto split: option.splits)
  let ?p = "persist_stage b sz now da d"
  have keys: "db_keys ?p"
    using ok by (simp add: db_ok_def db_keys_def store_simps) (simp add: persist_stage_def keyed_upsert_row)
  have refs: "refs_ok now ?p"
    unfolding refs_ok_def
  proof (intro allI impI)
    fix c :: ident
    assume c: "c \<noteq> []"
    have rs: "current_blob_reference ?p c = current_blob_reference d c"
      "retained_blob_reference now ?p c = retained_blob_reference now d c"
      by (rule references_cong; simp add: store_simps)+
    show "(current_blob_reference ?p c \<longrightarrow> (\<exists>r. read_blob c ?p = Some r \<and> bl_state r = Live)) \<and>
        (retained_blob_reference now ?p c \<longrightarrow> read_blob c ?p \<noteq> None)"
      using ok c unpinned by (auto simp: rs read_blob_persist_stage db_ok_def refs_ok_def pinned_iff)
  qed
  have rest: "seqs_ok ?p" "versions_ok ?p"
    using ok seqs_ok_cong[of ?p d] by (simp_all add: db_ok_def versions_ok_def store_simps)
  have acc: "accounted d'"
    using persist_stage_accounted[OF _ s sz delta, of now da] ok d' by (simp add: db_ok_def)
  show ?thesis
  proof (cases "delta > 0")
    case True
    then have "d' = on_state (\<lambda>s. s\<lparr>cs_used := max 0 (cs_used s + delta)\<rparr>) ?p"
      using d' by (simp add: adjust_storage_used_def)
    then show ?thesis using adjust_rest_db_ok[OF keys refs rest] acc by simp
  next
    case False
    then show ?thesis using d' keys refs rest acc by (simp add: db_ok_def)
  qed
qed

lemma stage_db_ok:
  assumes "db_ok now d" "0 \<le> sz"
  shows "db_ok now (snd (stage_blob_record b sz now da d))"
proof (cases "\<exists>delta. fst (stage_blob_record b sz now da d) = Inr (Stage_ok delta)")
  case True
  then obtain delta where "stage_blob_record b sz now da d = (Inr (Stage_ok delta), snd (stage_blob_record b sz now da d))"
    by (metis prod.collapse)
  then show ?thesis using stage_ok_db_ok assms by blast
next
  case False
  then have "snd (stage_blob_record b sz now da d) = d \<or>
      (\<exists>reason. snd (stage_blob_record b sz now da d) = pause_sync now reason d)"
    using stage_blob_record_cases[of b sz now da d] by (metis prod.collapse)
  then show ?thesis using assms by (auto simp: pause_sync_def intro!: on_state_db_ok)
qed

end
