(* ===== verification/Health_Service.thy ===== *)
theory Health_Service
  imports Blob_Records
begin

text \<open>
  \<open>services/health-service.ts\<close>: the delayed health summary and the debounced storage status
  broadcast; and the invariant of the coordinator that all services keep.
\<close>

definition summary_flush_delay_ms :: millis where "summary_flush_delay_ms = 10 * 60 * 1000"

definition schedule_summary_flush :: "millis \<Rightarrow> coordinator \<Rightarrow> coordinator" where
  "schedule_summary_flush now c =
     (let flushAt = now + summary_flush_delay_ms in
      if (case co_flushAt c of None \<Rightarrow> False | Some t \<Rightarrow> t \<le> flushAt) then c
      else (defer_maintenance Health_summary_flush flushAt now c)\<lparr>co_flushAt := Some flushAt\<rparr>)"

definition summary_of :: "health_snapshot \<Rightarrow> millis \<Rightarrow> health_summary" where
  "summary_of snapshot now =
     (let (status, reasons) = evaluate_health (facts_of_snapshot snapshot) now
      in health_snapshot.extend snapshot (health_summary.fields status reasons))"

definition flush_summary :: "env \<Rightarrow> millis \<Rightarrow> bool \<Rightarrow> coordinator \<Rightarrow> (coord_error + millis option) \<times> coordinator" where
  "flush_summary env now throwOnError c =
     (if \<not> ev_statusRepository env then (Inr None, c)
      else case read_health_snapshot now (ev_cursorTtl env) (ev_sockets env) (co_db c) of
        None \<Rightarrow> (Inr None, c)
      | Some snapshot \<Rightarrow>
          let summary = summary_of snapshot now in
          (case ev_upsert env of
             Inr _ \<Rightarrow>
               let next = next_health_summary_flush_at (facts_of_snapshot snapshot) now;
                   c' = c\<lparr>co_summaries := co_summaries c @ [(summary, now)], co_flushAt := next\<rparr>
               in (Inr next, case next of None \<Rightarrow> c' | Some t \<Rightarrow> defer_maintenance Health_summary_flush t now c')
           | Inl e \<Rightarrow>
               let c' = c\<lparr>co_flushAt := None\<rparr> in
               if throwOnError then (Inl e, c')
               else (Inr None, defer_maintenance Health_summary_flush now now c')))"

definition flush_storage_status :: "coordinator \<Rightarrow> coordinator" where
  "flush_storage_status c =
     (let (used, lim) = read_storage_status (co_db c)
      in c\<lparr>co_calls := co_calls c @ [Broadcast_storage_status used lim]\<rparr>)"

definition notify_storage_status_changed :: "env \<Rightarrow> coordinator \<Rightarrow> coordinator" where
  "notify_storage_status_changed env c =
     (if ev_statusDelay env \<le> 0 then flush_storage_status c
      else if co_statusTimer c then c
      else c\<lparr>co_statusTimer := True\<rparr>)"

definition status_timer_fires :: "coordinator \<Rightarrow> coordinator" where
  \<comment> \<open>the callback of \<open>setTimeout\<close>\<close>
  "status_timer_fires c = flush_storage_status (c\<lparr>co_statusTimer := False\<rparr>)"

definition dispose_health :: "coordinator \<Rightarrow> coordinator" where
  "dispose_health c = (if co_statusTimer c then c\<lparr>co_statusTimer := False\<rparr> else c)"

section \<open>The invariant of the coordinator\<close>

definition objects_ok :: "millis \<Rightarrow> ident \<Rightarrow> coordinator \<Rightarrow> bool" where
  \<comment> \<open>the ciphertext of every blob that an entry or retained history refers to is in the storage\<close>
  "objects_ok now v c \<longleftrightarrow>
     (\<forall>b. b \<noteq> [] \<longrightarrow> pinned now (co_db c) b \<longrightarrow> blob_object_key v b \<in> co_objects c)"

definition vault_inv :: "bool \<Rightarrow> millis \<Rightarrow> ident \<Rightarrow> coordinator \<Rightarrow> bool" where
  "vault_inv A now v c \<longleftrightarrow> db_ok now (co_db c) \<and> armed_if A c \<and> objects_ok now v c \<and>
     (\<forall>s. db_state (co_db c) = Some s \<longrightarrow> cs_vaultId s = v)"

abbreviation vault_ok :: "millis \<Rightarrow> ident \<Rightarrow> coordinator \<Rightarrow> bool" where
  "vault_ok \<equiv> vault_inv True"

text \<open>Two coordinators that agree on everything but the schedule and the notifications.\<close>

definition same_data :: "coordinator \<Rightarrow> coordinator \<Rightarrow> bool" where
  "same_data c c' \<longleftrightarrow>
     db_entries (co_db c') = db_entries (co_db c) \<and> db_versions (co_db c') = db_versions (co_db c) \<and>
     db_blobs (co_db c') = db_blobs (co_db c) \<and> db_state (co_db c') = db_state (co_db c) \<and>
     db_connections (co_db c') = db_connections (co_db c) \<and>
     db_revocations (co_db c') = db_revocations (co_db c) \<and> co_objects c' = co_objects c"

lemma same_data_refl [simp]: "same_data c c"
  by (simp add: same_data_def)

lemma same_data_trans: "same_data a b \<Longrightarrow> same_data b c \<Longrightarrow> same_data a c"
  by (simp add: same_data_def)

lemma vault_ok_same_data:
  assumes ok: "vault_inv A now v c" and same: "same_data c c'" and armed: "armed_if A c'"
  shows "vault_inv A now v c'"
proof -
  have refs: "current_blob_reference (co_db c') b = current_blob_reference (co_db c) b"
    "retained_blob_reference now (co_db c') b = retained_blob_reference now (co_db c) b"
    "pinned now (co_db c') b = pinned now (co_db c) b"
    "read_blob b (co_db c') = read_blob b (co_db c)" for b
    using same references_cong[of "co_db c'" "co_db c"] by (simp_all add: same_data_def read_blob_def)
  have "db_ok now (co_db c')"
    using ok same armed
    by (cases "db_state (co_db c)") (simp_all add: vault_inv_def db_ok_def same_data_def db_keys_def accounted_def seqs_ok_def versions_ok_def
        refs_ok_def refs blob_bytes_def armed_if_def)
  then show ?thesis using ok same armed by (simp add: vault_inv_def objects_ok_def same_data_def refs)
qed

lemma vault_ok_later: "vault_inv A now v c \<Longrightarrow> now \<le> later \<Longrightarrow> vault_inv A later v c"
  unfolding vault_inv_def objects_ok_def using db_ok_later pinned_later by blast

lemma vault_ok_armed: "vault_inv A now v c \<Longrightarrow> armed_if A c"
  by (simp add: vault_inv_def)

lemma same_data_defer [simp]: "same_data c (defer_maintenance k t now c)"
  by (simp add: same_data_def store_simps)

lemma armed_more [simp]:
  "armed_if A (c\<lparr>co_flushAt := x\<rparr>) = armed_if A c" "armed_if A (c\<lparr>co_summaries := y\<rparr>) = armed_if A c"
  "armed_if A (c\<lparr>co_calls := z\<rparr>) = armed_if A c" "armed_if A (c\<lparr>co_statusTimer := b\<rparr>) = armed_if A c"
  "armed_if A (c\<lparr>co_objects := os\<rparr>) = armed_if A c" "armed_if A (c\<lparr>co_purged := p\<rparr>) = armed_if A c"
  by (simp_all add: armed_if_def)

lemma same_data_more [simp]:
  "same_data c (d\<lparr>co_flushAt := x\<rparr>) = same_data c d" "same_data c (d\<lparr>co_summaries := y\<rparr>) = same_data c d"
  "same_data c (d\<lparr>co_calls := z\<rparr>) = same_data c d" "same_data c (d\<lparr>co_statusTimer := b\<rparr>) = same_data c d"
  "same_data c (d\<lparr>co_purged := p\<rparr>) = same_data c d"
  by (simp_all add: same_data_def)

lemma defer_same_data_more [simp]:
  "same_data c (defer_maintenance k t now d) = same_data c d"
  by (simp add: same_data_def store_simps)

lemma schedule_summary_flush_same [simp]:
  "same_data c (schedule_summary_flush now d) = same_data c d"
  "armed_if A d \<Longrightarrow> armed_if A (schedule_summary_flush now d)"
  by (simp_all add: schedule_summary_flush_def Let_def defer_maintenance_armed_if split: option.splits)

lemma notify_same [simp]:
  "same_data c (notify_storage_status_changed env d) = same_data c d"
  "armed_if A (notify_storage_status_changed env d) = armed_if A d"
  "same_data c (flush_storage_status d) = same_data c d"
  "armed_if A (flush_storage_status d) = armed_if A d"
  by (simp_all add: notify_storage_status_changed_def flush_storage_status_def split: prod.splits)

lemma flush_summary_same:
  "same_data c (snd (flush_summary env now th c))"
  "armed_if A c \<Longrightarrow> armed_if A (snd (flush_summary env now th c))"
  by (simp_all add: flush_summary_def Let_def defer_maintenance_armed_if split: option.splits sum.splits)

lemma flush_summary_ok: "vault_inv A now v c \<Longrightarrow> vault_inv A now v (snd (flush_summary env t th c))"
  using vault_ok_same_data flush_summary_same vault_ok_armed by blast

lemma schedule_summary_ok: "vault_inv A now v c \<Longrightarrow> vault_inv A now v (schedule_summary_flush t c)"
  by (rule vault_ok_same_data) (auto dest: vault_ok_armed)

lemma notify_ok: "vault_inv A now v c \<Longrightarrow> vault_inv A now v (notify_storage_status_changed env c)"
  by (rule vault_ok_same_data) (auto dest: vault_ok_armed)

lemma defer_ok: "vault_inv A now v c \<Longrightarrow> vault_inv A now v (defer_maintenance k t t' c)"
  by (rule vault_ok_same_data) (auto dest: vault_ok_armed intro: defer_maintenance_armed_if)

section \<open>A concrete vault\<close>

text \<open>
  One live entry with its blob and one retired blob; the witnesses evaluate the theorems on it.
\<close>

definition example_db :: db where
  "example_db = empty_db\<lparr>
     db_entries := [\<lparr>en_id = ''e'', en_revision = 1, en_blob = Some ''b'', en_metadata = ''m'', en_deleted = 0,
       en_seq = 1, en_updatedAt = 1, en_userId = ''u'', en_localVaultId = ''l'', en_lastMutation = Some ''m1''\<rparr>],
     db_blobs := [\<lparr>bl_id = ''b'', bl_state = Live, bl_size = 3, bl_createdAt = 0, bl_lastUploadedAt = 0,
       bl_deleteAfter = None\<rparr>,
      \<lparr>bl_id = ''p'', bl_state = Pending_delete, bl_size = 4, bl_createdAt = 0, bl_lastUploadedAt = 0,
       bl_deleteAfter = Some 5\<rparr>],
     db_state := Some \<lparr>cs_vaultId = ''v'', cs_cursor = 1, cs_used = 7, cs_limit = 100, cs_maxFile = 50,
       cs_retentionDays = 1, cs_lastCommitAt = Some 1, cs_lastGcAt = None, cs_pausedAt = None,
       cs_pauseReason = None\<rparr>\<rparr>"

definition example_vault :: coordinator where
  "example_vault = idle_coordinator\<lparr>co_db := example_db, co_objects := {''v/b'', ''v/p''}\<rparr>"

definition example_env :: env where
  "example_env = \<lparr>ev_clk = (\<lambda>_. 10), ev_uuid = (\<lambda>k. show_nat k), ev_storage = None, ev_failing = {},
     ev_mayCollect = Some (Inr True), ev_grace = default_blob_grace_period_ms,
     ev_cursorTtl = default_cursor_active_ttl_ms, ev_sockets = 0, ev_token = Inr (),
     ev_statusRepository = True, ev_upsert = Inr (), ev_statusDelay = 300\<rparr>"

lemma example_refs [simp]:
  "current_blob_reference example_db b = (b = ''b'')" "retained_blob_reference now example_db b = False"
  "pinned now example_db b = (b = ''b'')"
  by (auto simp: current_blob_reference_def retained_blob_reference_def pinned_iff example_db_def empty_db_def)

lemma example_rows:
  "db_entries example_db = [\<lparr>en_id = ''e'', en_revision = 1, en_blob = Some ''b'', en_metadata = ''m'', en_deleted = 0,
       en_seq = 1, en_updatedAt = 1, en_userId = ''u'', en_localVaultId = ''l'', en_lastMutation = Some ''m1''\<rparr>]"
  "db_blobs example_db = [\<lparr>bl_id = ''b'', bl_state = Live, bl_size = 3, bl_createdAt = 0, bl_lastUploadedAt = 0,
       bl_deleteAfter = None\<rparr>,
      \<lparr>bl_id = ''p'', bl_state = Pending_delete, bl_size = 4, bl_createdAt = 0, bl_lastUploadedAt = 0,
       bl_deleteAfter = Some 5\<rparr>]"
  "db_versions example_db = []" "db_jobs example_db = []"
  "db_state example_db = Some \<lparr>cs_vaultId = ''v'', cs_cursor = 1, cs_used = 7, cs_limit = 100, cs_maxFile = 50,
       cs_retentionDays = 1, cs_lastCommitAt = Some 1, cs_lastGcAt = None, cs_pausedAt = None,
       cs_pauseReason = None\<rparr>"
  by (simp_all add: example_db_def empty_db_def)

lemma example_env_sel [simp]:
  "ev_clk example_env = (\<lambda>_. 10)" "ev_uuid example_env = show_nat" "ev_storage example_env = None"
  "ev_failing example_env = {}" "ev_mayCollect example_env = Some (Inr True)"
  "ev_grace example_env = default_blob_grace_period_ms" "ev_token example_env = Inr ()"
  "ev_statusDelay example_env = 300" "ev_statusRepository example_env" "ev_upsert example_env = Inr ()"
  by (simp_all add: example_env_def)

lemma example_vault_sel [simp]:
  "co_db example_vault = example_db" "co_objects example_vault = {''v/b'', ''v/p''}"
  by (simp_all add: example_vault_def)

lemma example_db_ok: "db_ok now example_db"
proof -
  have "db_keys example_db" "versions_ok example_db" "seqs_ok example_db" "accounted example_db"
    by (simp_all add: example_db_def empty_db_def db_keys_def keyed_def versions_ok_def seqs_ok_def
        accounted_def blob_bytes_def)
  moreover have "read_blob ''b'' example_db = Some (hd (db_blobs example_db))" "bl_state (hd (db_blobs example_db)) = Live"
    by (simp_all add: example_db_def read_blob_def row_of_Cons)
  ultimately show ?thesis by (simp add: db_ok_def refs_ok_def)
qed

lemma example_vault_ok: "vault_ok now ''v'' example_vault"
proof -
  have "co_db example_vault = example_db" by (simp add: example_vault_def)
  moreover have "armed example_vault"
    by (simp add: armed_def example_vault_def example_db_def empty_db_def)
  moreover have "objects_ok now ''v'' example_vault"
    by (simp add: objects_ok_def example_vault_def blob_object_key_def blob_object_key_prefix_def)
  moreover have "db_state example_db = Some s \<Longrightarrow> cs_vaultId s = ''v''" for s
    by (auto simp: example_db_def)
  ultimately show ?thesis by (simp add: vault_inv_def example_db_ok)
qed

end
