(* ===== verification/Blob_Gc.thy ===== *)
theory Blob_Gc
  imports Health_Service
begin

text \<open>
  \<open>services/blob-gc-service.ts\<close>: scheduling of garbage collection, the collection run of an
  alarm, and the immediate collection after a purge of deleted entries.
\<close>

definition gc_batch_size :: int where "gc_batch_size = 1000"

definition js_unique :: "'a list \<Rightarrow> 'a list" where
  \<comment> \<open>\<open>[...new Set(xs)]\<close>: first occurrences in order\<close>
  "js_unique xs = rev (remdups (rev xs))"

definition schedule_at :: "millis \<Rightarrow> millis \<Rightarrow> coordinator \<Rightarrow> coordinator" where
  "schedule_at dueAt now c = defer_maintenance Blob_gc dueAt now c"

definition read_next_gc_at :: "millis \<Rightarrow> db \<Rightarrow> millis option" where
  "read_next_gc_at now d = earliest_gc_deadline (read_gc_deadlines now d) now"

definition schedule_next :: "millis \<Rightarrow> coordinator \<Rightarrow> millis option \<times> coordinator" where
  "schedule_next now c =
     (let nextGcAt = read_next_gc_at now (co_db c)
      in (nextGcAt, case nextGcAt of None \<Rightarrow> c | Some t \<Rightarrow> schedule_at t now c))"

definition schedule_now :: "millis \<Rightarrow> coordinator \<Rightarrow> coordinator" where
  "schedule_now now c = schedule_at now now c"

definition is_collectible :: "millis \<Rightarrow> gc_candidate \<Rightarrow> bool" where
  "is_collectible now cand =
     (decide_blob_collection (bl_state (fst cand)) (bl_deleteAfter (fst cand)) (snd cand) now = Collectible)"

definition delete_collectible_batch ::
  "env \<Rightarrow> ident \<Rightarrow> gc_candidate list \<Rightarrow> millis \<Rightarrow> coordinator \<Rightarrow> (coord_error + int) \<times> coordinator" where
  "delete_collectible_batch env vaultId blobs now c =
     (if blobs = [] then (Inr 0, c)
      else case object_delete_many env (map (\<lambda>b. blob_object_key vaultId (bl_id (fst b))) blobs) c of
        (Inl e, c1) \<Rightarrow> (Inl e, c1)
      | (Inr failedKeys, c1) \<Rightarrow>
          let succeeded = map (\<lambda>b. bl_id (fst b))
                (filter (\<lambda>b. blob_object_key vaultId (bl_id (fst b)) \<notin> set failedKeys) blobs);
              (result, c2) = (if succeeded = [] then (Inr 0, c1)
                else in_transaction (\<lambda>d. let (rows, d') = delete_collectible_blob_records succeeded now d
                       in (Inr (int (length rows)), d')) c1)
          in case result of
               Inl e \<Rightarrow> (Inl e, c2)
             | Inr deletedCount \<Rightarrow>
                 if failedKeys \<noteq> [] then (Inl (BatchDeleteError failedKeys deletedCount), c2)
                 else (Inr deletedCount, c2))"

definition default_now :: "env \<Rightarrow> millis option \<Rightarrow> millis" where
  "default_now env now = (case now of None \<Rightarrow> ev_clk env 0 | Some t \<Rightarrow> t)"

definition collect_due ::
  "env \<Rightarrow> ident \<Rightarrow> millis \<Rightarrow> bool \<Rightarrow> bool \<Rightarrow> coordinator \<Rightarrow> (coord_error + millis option) \<times> coordinator" where
  \<comment> \<open>\<open>runGc\<close> after the guards\<close>
  "collect_due env vaultId now scheduleHealthFlush scheduleNextGc c =
     (let c1 = on_db (expire_entry_versions now) c;
          collectible = filter (is_collectible now) (list_collectible_blobs now gc_batch_size (co_db c1))
      in case delete_collectible_batch env vaultId collectible now c1 of
           (Inl e, c2) \<Rightarrow>
             (Inl e, case e of
                BatchDeleteError _ n \<Rightarrow> if n > 0 then notify_storage_status_changed env c2 else c2
              | _ \<Rightarrow> c2)
         | (Inr deletedCount, c2) \<Rightarrow>
             let nextGcAt = read_next_gc_at now (co_db c2);
                 c3 = (case nextGcAt of Some t \<Rightarrow> if scheduleNextGc then schedule_at t now c2 else c2
                       | None \<Rightarrow> c2);
                 c4 = on_db (record_gc_completed now) c3;
                 c5 = (if scheduleHealthFlush then defer_maintenance Health_summary_flush now now c4 else c4);
                 c6 = (if deletedCount > 0 then notify_storage_status_changed env c5 else c5)
             in (Inr nextGcAt, c6))"

definition run_gc ::
  "env \<Rightarrow> ident option \<Rightarrow> millis option \<Rightarrow> bool \<Rightarrow> bool \<Rightarrow> coordinator \<Rightarrow>
   (coord_error + millis option) \<times> coordinator" where
  "run_gc env vaultId now scheduleHealthFlush scheduleNextGc c =
     (let effective = (case vaultId of None \<Rightarrow> read_vault_id (co_db c) | Some v \<Rightarrow> Some v) in
      if \<not> truthy effective then (Inr None, c)
      else case ev_mayCollect env of
        Some (Inl e) \<Rightarrow> (Inl e, c)
      | Some (Inr False) \<Rightarrow>
          let retryAt = default_now env now + 60 * 60 * 1000
          in (Inr (Some retryAt), schedule_at retryAt (ev_clk env (if now = None then 1 else 0)) c)
      | _ \<Rightarrow> collect_due env (the effective) (default_now env now) scheduleHealthFlush scheduleNextGc c)"

definition retire_purged_blob :: "millis \<Rightarrow> ident \<Rightarrow> gc_candidate list \<times> coordinator \<Rightarrow> gc_candidate list \<times> coordinator" where
  \<comment> \<open>the body of the loop of \<open>collectPurgedBlobs\<close>\<close>
  "retire_purged_blob now blobId acc =
     (let (blobs, c) = acc;
          c' = snd (in_transaction (\<lambda>d. (Inr (), mark_unpinned_blob_pending_delete blobId now d)) c)
      in case read_collectible_blob blobId now (co_db c') of
           None \<Rightarrow> (blobs, c')
         | Some b \<Rightarrow> if is_collectible now b then (blobs @ [b], c') else (blobs, c'))"

definition collect_purged_blobs ::
  "env \<Rightarrow> ident \<Rightarrow> ident list \<Rightarrow> millis \<Rightarrow> coordinator \<Rightarrow> (coord_error + unit) \<times> coordinator" where
  "collect_purged_blobs env vaultId blobIds now c =
     (case ev_mayCollect env of
        Some (Inl e) \<Rightarrow> (Inl e, c)
      | Some (Inr False) \<Rightarrow> (Inr (), c)
      | _ \<Rightarrow>
          let unique = js_unique blobIds in
          if unique = [] then (Inr (), c)
          else
            let (blobs, c1) = fold (retire_purged_blob now) unique ([], on_db (expire_entry_versions now) c);
                (result, c2) = delete_collectible_batch env vaultId blobs now c1;
                deletedCount = (case result of Inr n \<Rightarrow> n | Inl (BatchDeleteError _ n) \<Rightarrow> n | Inl _ \<Rightarrow> 0);
                c3 = schedule_summary_flush now (snd (schedule_next now c2))
            in (Inr (), if deletedCount > 0 then notify_storage_status_changed env c3 else c3))"

section \<open>The services keep the invariant\<close>

lemma schedule_at_ok: "vault_inv A now v c \<Longrightarrow> vault_inv A now v (schedule_at t t' c)"
  by (simp add: schedule_at_def defer_ok)

lemma schedule_next_ok: "vault_inv A now v c \<Longrightarrow> vault_inv A now v (snd (schedule_next t c))"
  by (simp add: schedule_next_def Let_def schedule_at_ok split: option.splits)

lemma candidate_unpinned:
  "x \<in> set (list_collectible_blobs now limit d) \<Longrightarrow> \<not> pinned now d (bl_id (fst x))"
  by (cases x) (auto dest!: list_collectible_blobs_sound
      simp: collectible_blob_def blob_unreferenced_pinned pinned_def)

text \<open>Changes of the database that keep its invariant and pin no further blob keep the coordinator's.\<close>

lemma vault_ok_on_db:
  assumes ok: "vault_inv A now v c" and db: "db_ok now (f (co_db c))"
    and jobs: "db_jobs (f (co_db c)) = db_jobs (co_db c)"
    and vid: "map_option cs_vaultId (db_state (f (co_db c))) = map_option cs_vaultId (db_state (co_db c))"
    and pins: "\<And>b. b \<noteq> [] \<Longrightarrow> pinned now (f (co_db c)) b \<Longrightarrow> pinned now (co_db c) b"
  shows "vault_inv A now v (on_db f c)"
proof -
  have "armed_if A (on_db f c)" using ok jobs by (simp add: vault_inv_def armed_if_def store_simps)
  moreover have "cs_vaultId s = v" if "db_state (f (co_db c)) = Some s" for s
    using ok vid that by (cases "db_state (co_db c)") (auto simp: vault_inv_def)
  ultimately show ?thesis using ok db pins by (simp add: vault_inv_def objects_ok_def store_simps)
qed

lemma expire_db_ok:
  assumes ok: "db_ok now d"
  shows "db_ok now (expire_entry_versions now d)"
proof -
  let ?d = "expire_entry_versions now d"
  have cur: "current_blob_reference ?d b = current_blob_reference d b"
    "retained_blob_reference now ?d b = retained_blob_reference now d b"
    "read_blob b ?d = read_blob b d" for b
    by (auto simp: current_blob_reference_def retained_blob_reference_def read_blob_def store_simps)
  have "versions_ok ?d"
    using ok by (simp add: db_ok_def versions_ok_def expire_entry_versions_def delete_rows_def sorted_wrt_filter)
  moreover have "db_keys ?d"
    using ok by (simp add: db_ok_def db_keys_def store_simps) (simp add: expire_entry_versions_def keyed_delete_rows)
  moreover have "accounted ?d" "seqs_ok ?d"
    using ok seqs_ok_cong[of ?d d]
    by (cases "db_state d"; simp add: db_ok_def accounted_def store_simps blob_bytes_def)+
  moreover have "refs_ok now ?d" using ok by (simp add: db_ok_def refs_ok_def cur)
  ultimately show ?thesis by (simp add: db_ok_def)
qed

lemma expire_vault_ok:
  assumes "vault_inv A now v c"
  shows "vault_inv A now v (on_db (expire_entry_versions now) c)"
proof (rule vault_ok_on_db[OF assms])
  show "db_ok now (expire_entry_versions now (co_db c))"
    using assms by (simp add: vault_inv_def expire_db_ok)
qed (auto simp: expire_entry_versions_def pinned_iff current_blob_reference_def
    retained_blob_reference_def table_simps)

lemma delete_collectible_records_frame [store_simps]:
  "db_entries (snd (delete_collectible_blob_records ids now d)) = db_entries d"
  "db_versions (snd (delete_collectible_blob_records ids now d)) = db_versions d"
  "db_jobs (snd (delete_collectible_blob_records ids now d)) = db_jobs d"
  by (auto simp: delete_collectible_blob_records_def delete_collectible_blobs_def store_simps
      split: prod.splits) (auto simp: delete_blobs_where_def)

lemma vaultId_account: "map_option cs_vaultId (db_state (account_for_deleted_blobs rs d)) = map_option cs_vaultId (db_state d)"
  by (cases "db_state d") (simp_all add: account_for_deleted_blobs_def Let_def store_simps)

lemma vaultId_delete_collectible:
  "map_option cs_vaultId (db_state (snd (delete_collectible_blob_records ids now d))) = map_option cs_vaultId (db_state d)"
  by (simp add: delete_collectible_blob_records_def delete_collectible_blobs_def vaultId_account
      delete_blobs_where_def split: prod.splits)

lemma in_transaction_delete_collectible:
  "in_transaction (\<lambda>d. case delete_collectible_blob_records ids now d of (rows, d') \<Rightarrow> (Inr (int (length rows)), d')) c
   = (Inr (int (length (fst (delete_collectible_blob_records ids now (co_db c))))),
      on_db (\<lambda>d. snd (delete_collectible_blob_records ids now d)) c)"
  by (simp add: in_transaction_def uow_run_def on_db_def split: prod.splits)

lemma delete_records_vault_ok:
  assumes "vault_inv A now v c"
  shows "vault_inv A now v (on_db (\<lambda>d. snd (delete_collectible_blob_records ids now d)) c)"
  using assms by (intro vault_ok_on_db)
    (auto simp: delete_collectible_db_ok vault_inv_def store_simps vaultId_delete_collectible
      dest: references_cong(3)[THEN iffD1, rotated 2])

text \<open>Deleting objects of unpinned blobs keeps the ciphertext of the pinned ones.\<close>

lemma delete_objects_vault_ok:
  assumes ok: "vault_inv A now v c" and ks: "\<And>b. b \<noteq> [] \<Longrightarrow> blob_object_key v b \<in> ks \<Longrightarrow> \<not> pinned now (co_db c) b"
  shows "vault_inv A now v (c\<lparr>co_objects := co_objects c - ks\<rparr>)"
  using assms by (auto simp: vault_inv_def objects_ok_def)

lemma delete_batch_vault_ok:
  assumes ok: "vault_inv A now v c" and un: "\<And>x. x \<in> set blobs \<Longrightarrow> \<not> pinned now (co_db c) (bl_id (fst x))"
  shows "vault_inv A now v (snd (delete_collectible_batch env v blobs now c))"
proof (cases "blobs = [] \<or> (\<exists>e. ev_storage env = Some e)")
  case True
  then show ?thesis using ok by (auto simp: delete_collectible_batch_def object_delete_many_def)
next
  case False
  define ks where "ks = set (map (\<lambda>b. blob_object_key v (bl_id (fst b))) blobs) - ev_failing env"
  let ?c = "c\<lparr>co_objects := co_objects c - ks\<rparr>"
  have c1: "vault_inv A now v ?c"
    using ok by (rule delete_objects_vault_ok) (auto simp: ks_def dest: un)
  define failed where "failed = filter (\<lambda>k. k \<in> ev_failing env) (map (\<lambda>b. blob_object_key v (bl_id (fst b))) blobs)"
  define ids where "ids = map (\<lambda>b. bl_id (fst b)) (filter (\<lambda>b. blob_object_key v (bl_id (fst b)) \<notin> set failed) blobs)"
  have many: "object_delete_many env (map (\<lambda>b. blob_object_key v (bl_id (fst b))) blobs) c = (Inr failed, ?c)"
    using False by (simp add: object_delete_many_def ks_def failed_def)
  have "snd (delete_collectible_batch env v blobs now c) = ?c \<or>
      snd (delete_collectible_batch env v blobs now c) = on_db (\<lambda>d. snd (delete_collectible_blob_records ids now d)) ?c"
    using False
    by (simp add: delete_collectible_batch_def many ids_def [symmetric] Let_def in_transaction_delete_collectible)
  then show ?thesis using c1 delete_records_vault_ok by auto
qed

lemma batch_unpinned_candidates:
  "x \<in> set (filter P (list_collectible_blobs now limit d)) \<Longrightarrow> \<not> pinned now d (bl_id (fst x))"
  by (auto dest: candidate_unpinned)

lemma record_gc_vault_ok: "vault_inv A now v c \<Longrightarrow> vault_inv A now v (on_db (record_gc_completed t) c)"
proof (rule vault_ok_on_db)
  assume ok: "vault_inv A now v c"
  then show "db_ok now (record_gc_completed t (co_db c))"
    unfolding record_gc_completed_def by (intro on_state_db_ok) (simp_all add: vault_inv_def)
  show "map_option cs_vaultId (db_state (record_gc_completed t (co_db c))) = map_option cs_vaultId (db_state (co_db c))"
    by (cases "db_state (co_db c)") (simp_all add: store_simps)
  show "pinned now (record_gc_completed t (co_db c)) b \<Longrightarrow> pinned now (co_db c) b" for b
    using references_cong(3)[of "record_gc_completed t (co_db c)" "co_db c" now b] by (simp add: store_simps)
qed (simp_all add: store_simps)

lemma collect_due_vault_ok:
  assumes ok: "vault_inv A now v c"
  shows "vault_inv A now v (snd (collect_due env v now hf sn c))"
proof -
  let ?c1 = "on_db (expire_entry_versions now) c"
  obtain r c2 where batch:
    "delete_collectible_batch env v (filter (is_collectible now) (list_collectible_blobs now gc_batch_size (co_db ?c1))) now ?c1 = (r, c2)"
    by fastforce
  have "vault_inv A now v (snd (delete_collectible_batch env v (filter (is_collectible now)
      (list_collectible_blobs now gc_batch_size (co_db ?c1))) now ?c1))"
    by (rule delete_batch_vault_ok[OF expire_vault_ok[OF ok]]) (rule batch_unpinned_candidates)
  then have c2: "vault_inv A now v c2" by (simp add: batch)
  then show ?thesis
    by (auto simp: collect_due_def Let_def batch notify_ok schedule_at_ok record_gc_vault_ok defer_ok
        split: sum.splits coord_error.splits option.splits)
qed

lemma run_gc_vault_ok:
  assumes ok: "vault_inv A now v c" and vid: "vid = None \<or> vid = Some v" and t: "now \<le> default_now env t"
  shows "vault_inv A (default_now env t) v (snd (run_gc env vid t hf sn c))"
proof -
  have later: "vault_inv A (default_now env t) v c" using ok t by (rule vault_ok_later)
  have "the (case vid of None \<Rightarrow> read_vault_id (co_db c) | Some x \<Rightarrow> Some x) = v"
    if "truthy (case vid of None \<Rightarrow> read_vault_id (co_db c) | Some x \<Rightarrow> Some x)"
    using that vid ok by (cases "db_state (co_db c)") (auto simp: read_vault_id_def vault_inv_def)
  then show ?thesis using later
    by (auto simp: run_gc_def Let_def collect_due_vault_ok schedule_at_ok split: option.splits sum.splits bool.splits)
qed

lemma in_transaction_mark:
  "in_transaction (\<lambda>d. (Inr (), mark_unpinned_blob_pending_delete b now d)) c
   = (Inr (), on_db (mark_unpinned_blob_pending_delete b now) c)"
  by (simp add: in_transaction_def uow_run_def on_db_def)

lemma mark_frame [store_simps]:
  "db_entries (mark_unpinned_blob_pending_delete b now d) = db_entries d"
  "db_versions (mark_unpinned_blob_pending_delete b now d) = db_versions d"
  "db_state (mark_unpinned_blob_pending_delete b now d) = db_state d"
  "db_jobs (mark_unpinned_blob_pending_delete b now d) = db_jobs d"
  by (simp_all add: mark_unpinned_blob_pending_delete_def store_simps split: option.splits pending_delete_decision.splits)

lemma mark_vault_ok:
  assumes "vault_inv A now v c"
  shows "vault_inv A now v (on_db (mark_unpinned_blob_pending_delete b now) c)"
  using assms by (intro vault_ok_on_db)
    (auto simp: mark_unpinned_db_ok vault_inv_def store_simps dest: references_cong(3)[THEN iffD1, rotated 2])

lemma retire_fold_ok:
  assumes "vault_inv A now v (snd acc)" "\<And>x. x \<in> set (fst acc) \<Longrightarrow> \<not> pinned now (co_db (snd acc)) (bl_id (fst x))"
  shows "vault_inv A now v (snd (fold (retire_purged_blob now) ids acc)) \<and>
    (\<forall>x \<in> set (fst (fold (retire_purged_blob now) ids acc)).
       \<not> pinned now (co_db (snd (fold (retire_purged_blob now) ids acc))) (bl_id (fst x)))"
  using assms
proof (induction ids arbitrary: acc)
  case Nil
  then show ?case by simp
next
  case (Cons b ids)
  obtain blobs c where acc: "acc = (blobs, c)" by fastforce
  let ?c = "on_db (mark_unpinned_blob_pending_delete b now) c"
  have same: "pinned now (co_db ?c) x = pinned now (co_db c) x" for x
    by (rule references_cong) (simp_all add: store_simps)
  have found: "\<not> pinned now (co_db ?c) (bl_id (fst x))" if "read_collectible_blob b now (co_db ?c) = Some x" for x
    using that by (auto simp: read_collectible_blob_def find_Some_iff collectible_blob_def
        blob_unreferenced_pinned pinned_def to_candidate_def)
  have "vault_inv A now v (snd (retire_purged_blob now b acc)) \<and>
      (\<forall>x \<in> set (fst (retire_purged_blob now b acc)).
         \<not> pinned now (co_db (snd (retire_purged_blob now b acc))) (bl_id (fst x)))"
    using Cons.prems mark_vault_ok[of A now v c b] found
    by (auto simp: acc retire_purged_blob_def Let_def in_transaction_mark same split: option.splits)
  then show ?case using Cons.IH[of "retire_purged_blob now b acc"] by simp
qed

lemma collect_purged_vault_ok:
  assumes ok: "vault_inv A now v c"
  shows "vault_inv A now v (snd (collect_purged_blobs env v ids now c))"
proof -
  obtain blobs c1 where fold: "fold (retire_purged_blob now) (js_unique ids) ([], on_db (expire_entry_versions now) c) = (blobs, c1)"
    by fastforce
  obtain r c2 where batch: "delete_collectible_batch env v blobs now c1 = (r, c2)" by fastforce
  have "vault_inv A now v c1 \<and> (\<forall>x \<in> set blobs. \<not> pinned now (co_db c1) (bl_id (fst x)))"
    using retire_fold_ok[of A now v "([], on_db (expire_entry_versions now) c)" "js_unique ids"] expire_vault_ok[OF ok] fold
    by simp
  then have "vault_inv A now v c2" using delete_batch_vault_ok[of A now v c1 blobs env] batch by simp
  then have "vault_inv A now v (schedule_summary_flush now (snd (schedule_next now c2)))"
    by (intro schedule_summary_ok schedule_next_ok)
  then show ?thesis using ok
    by (auto simp: collect_purged_blobs_def Let_def fold batch notify_ok split: option.splits sum.splits bool.splits)
qed

section \<open>What a collection removes\<close>

lemma collectible_expired:
  "collectible_blob now (expire_entry_versions now d) = collectible_blob now d"
  by (rule ext) (auto simp: collectible_blob_def blob_unreferenced_def current_blob_reference_def
      retained_blob_reference_def store_simps)

lemma all_candidates:
  assumes "int (length (filter (collectible_blob now d) (db_blobs d))) \<le> limit"
  shows "set (list_collectible_blobs now limit d) = to_candidate now d ` {r \<in> set (db_blobs d). collectible_blob now d r}"
    "filter (is_collectible now) (list_collectible_blobs now limit d) = list_collectible_blobs now limit d"
proof -
  show "set (list_collectible_blobs now limit d) = to_candidate now d ` {r \<in> set (db_blobs d). collectible_blob now d r}"
    using assms by (auto simp: list_collectible_blobs_def sql_limit_def)
  have "is_collectible now x" if "x \<in> set (list_collectible_blobs now limit d)" for x
    using list_collectible_blobs_sound[of "fst x" "snd x"] that
    by (simp add: is_collectible_def collectible_blob_iff)
  then show "filter (is_collectible now) (list_collectible_blobs now limit d) = list_collectible_blobs now limit d"
    by (simp add: filter_id_conv)
qed

lemma healthy_batch:
  assumes storage: "ev_storage env = None" "ev_failing env = {}"
  shows "fst (delete_collectible_batch env v blobs now c) =
      Inr (int (length (fst (delete_collectible_blob_records (map (\<lambda>b. bl_id (fst b)) blobs) now (co_db c)))))"
    "co_db (snd (delete_collectible_batch env v blobs now c)) =
      snd (delete_collectible_blob_records (map (\<lambda>b. bl_id (fst b)) blobs) now (co_db c))"
    "co_objects (snd (delete_collectible_batch env v blobs now c)) =
      co_objects c - set (map (\<lambda>b. blob_object_key v (bl_id (fst b))) blobs)"
proof -
  have empty: "delete_collectible_blob_records [] now d = ([], d)" for d
    by (simp add: delete_collectible_blob_records_def delete_collectible_blobs_def account_for_deleted_blobs_def)
  have "delete_collectible_batch env v blobs now c =
      (Inr (int (length (fst (delete_collectible_blob_records (map (\<lambda>b. bl_id (fst b)) blobs) now (co_db c))))),
       c\<lparr>co_objects := co_objects c - set (map (\<lambda>b. blob_object_key v (bl_id (fst b))) blobs),
         co_db := snd (delete_collectible_blob_records (map (\<lambda>b. bl_id (fst b)) blobs) now (co_db c))\<rparr>)"
    using assms by (cases "blobs = []")
      (simp_all add: delete_collectible_batch_def object_delete_many_def Let_def
        in_transaction_delete_collectible on_db_def empty)
  then show
    "fst (delete_collectible_batch env v blobs now c) =
      Inr (int (length (fst (delete_collectible_blob_records (map (\<lambda>b. bl_id (fst b)) blobs) now (co_db c)))))"
    "co_db (snd (delete_collectible_batch env v blobs now c)) =
      snd (delete_collectible_blob_records (map (\<lambda>b. bl_id (fst b)) blobs) now (co_db c))"
    "co_objects (snd (delete_collectible_batch env v blobs now c)) =
      co_objects c - set (map (\<lambda>b. blob_object_key v (bl_id (fst b))) blobs)"
    by simp_all
qed

lemma notify_frame [store_simps]:
  "co_db (notify_storage_status_changed env c) = co_db c"
  "co_objects (notify_storage_status_changed env c) = co_objects c"
  by (simp_all add: notify_storage_status_changed_def flush_storage_status_def split: prod.splits)

lemma db_blobs_delete_collectible:
  "db_blobs (snd (delete_collectible_blob_records ids now d)) =
   delete_rows (\<lambda>r. bl_id r \<in> set ids \<and> collectible_blob now d r) (db_blobs d)"
  by (simp add: delete_collectible_blob_records_def delete_collectible_blobs_def delete_blobs_where_def
      store_simps delete_rows_def)

text \<open>
  A collection run is safe whatever the object storage does: from a consistent vault, with
  the collection allowed or refused, with every deletion failing or none, the run ends in a
  consistent vault, in which the storage counter equals the sizes of the blob rows, every
  referenced blob has its row, and the ciphertext of every blob that an entry or unexpired
  history refers to is still in the storage.
\<close>

theorem run_gc_keeps_referenced_blobs:
  assumes "vault_ok now v c" "vid = None \<or> vid = Some v" "now \<le> default_now env t"
  shows "vault_ok (default_now env t) v (snd (run_gc env vid t hf sn c))"
  using assms by (rule run_gc_vault_ok)

theorem run_gc_keeps_referenced_blobs_witness:
  "vault_ok 10 ''v'' (snd (run_gc example_env None None True True example_vault))"
  using run_gc_keeps_referenced_blobs[OF example_vault_ok[of 10], of None example_env None True True]
  by (simp add: default_now_def example_env_def)

text \<open>
  C30. A collection run on a healthy storage is complete: when at most a batch of blobs is
  collectible, exactly the collectible rows and their objects are removed, in one run.
\<close>

theorem gc_collects_exactly:
  assumes storage: "ev_storage env = None" "ev_failing env = {}"
    and batch: "int (length (filter (collectible_blob now (co_db c)) (db_blobs (co_db c)))) \<le> gc_batch_size"
  shows "db_blobs (co_db (snd (collect_due env v now hf sn c))) =
      filter (\<lambda>r. \<not> collectible_blob now (co_db c) r) (db_blobs (co_db c)) \<and>
    co_objects (snd (collect_due env v now hf sn c)) =
      co_objects c - {blob_object_key v (bl_id r) | r. r \<in> set (db_blobs (co_db c)) \<and> collectible_blob now (co_db c) r}"
proof -
  let ?c1 = "on_db (expire_entry_versions now) c" and ?P = "collectible_blob now (co_db c)"
  let ?L = "list_collectible_blobs now gc_batch_size (co_db ?c1)"
  have L: "set ?L = to_candidate now (co_db ?c1) ` {r \<in> set (db_blobs (co_db c)). ?P r}"
    "filter (is_collectible now) ?L = ?L"
    using all_candidates[of now "co_db ?c1" gc_batch_size] batch
    by (simp_all add: store_simps collectible_expired)
  obtain r c2 where d: "delete_collectible_batch env v ?L now ?c1 = (r, c2)" by fastforce
  have r: "\<exists>n. r = Inr n" using healthy_batch(1)[OF storage, of v ?L now ?c1] d by auto
  have ids: "(\<lambda>b. bl_id (fst b)) ` set ?L = bl_id ` {r \<in> set (db_blobs (co_db c)). ?P r}"
    by (simp add: L(1) image_image to_candidate_def)
  have keys: "(\<lambda>b. blob_object_key v (bl_id (fst b))) ` set ?L =
      (\<lambda>r. blob_object_key v (bl_id r)) ` {r \<in> set (db_blobs (co_db c)). ?P r}"
    by (simp add: L(1) image_image to_candidate_def)
  have c2: "db_blobs (co_db c2) = delete_rows ?P (db_blobs (co_db c))"
    using healthy_batch(2)[OF storage, of v ?L now ?c1] d ids
    by (auto simp: db_blobs_delete_collectible store_simps collectible_expired delete_rows_def intro!: filter_cong)
  have o2: "co_objects c2 = co_objects c - (\<lambda>r. blob_object_key v (bl_id r)) ` {r \<in> set (db_blobs (co_db c)). ?P r}"
    using healthy_batch(3)[OF storage, of v ?L now ?c1] d keys by (simp add: store_simps)
  have "db_blobs (co_db (snd (collect_due env v now hf sn c))) = db_blobs (co_db c2)"
    "co_objects (snd (collect_due env v now hf sn c)) = co_objects c2"
    using r d L(2) by (auto simp: collect_due_def Let_def store_simps schedule_at_def split: option.splits if_splits)
  then show ?thesis by (auto simp: c2 o2 delete_rows_def)
qed

lemma example_collectible: "collectible_blob 10 example_db r \<longleftrightarrow>
    bl_state r \<noteq> Live \<and> due (bl_deleteAfter r) 10 \<and> bl_id r \<noteq> ''b''"
  by (cases "bl_state r") (auto simp: collectible_blob_def blob_unreferenced_def)

theorem gc_collects_exactly_witness:
  "map bl_id (db_blobs (co_db (snd (collect_due example_env ''v'' 10 True True example_vault)))) = [''b''] \<and>
   co_objects (snd (collect_due example_env ''v'' 10 True True example_vault)) = {''v/b''}"
proof -
  have keys: "{blob_object_key ''v'' (bl_id r) |r. r \<in> set (db_blobs example_db) \<and> collectible_blob 10 example_db r} = {''v/p''}" (is "?K = _")
  proof -
    have "?K = (\<lambda>r. blob_object_key ''v'' (bl_id r)) ` set (filter (collectible_blob 10 example_db) (db_blobs example_db))"
      by auto
    then show ?thesis
      by (simp add: example_rows example_collectible blob_object_key_def blob_object_key_prefix_def)
  qed
  show ?thesis
    using gc_collects_exactly[where env = example_env and c = example_vault and now = 10 and v = "''v''"
        and hf = True and sn = True] keys
    by (simp add: gc_batch_size_def example_rows example_collectible) auto
qed

end
