(* ===== verification/Maintenance_Service.thy ===== *)
theory Maintenance_Service
  imports Blob_Gc
begin

text \<open>
  \<open>services/maintenance-service.ts\<close> and the alarm entry points (\<open>SyncCoordinator.alarm\<close> and
  \<open>SyncCoordinator\<close>'s constructor): the maintenance jobs of one vault run in a drain of the
  scheduler. The readings of the clock inside a handler come after the one of the drain.
\<close>

definition later_clock :: "env \<Rightarrow> env" where
  "later_clock env = env\<lparr>ev_clk := \<lambda>k. ev_clk env (Suc k)\<rparr>"

definition alarm_handlers :: "env \<Rightarrow> job_key \<Rightarrow> handler option" where
  "alarm_handlers env key = Some (\<lambda>now c. case key of
       Blob_gc \<Rightarrow> run_gc (later_clock env) None (Some now) True False c
     | Health_summary_flush \<Rightarrow> flush_summary (later_clock env) now True c)"

definition handle_alarm :: "env \<Rightarrow> coordinator \<Rightarrow> coordinator" where
  "handle_alarm env c = (if co_purged c then c else drain (alarm_handlers env) (ev_clk env 0) c)"

definition alarm_fires :: "env \<Rightarrow> coordinator \<Rightarrow> coordinator" where
  \<comment> \<open>the platform clears the alarm before it calls \<open>alarm()\<close>; the drain handles every error itself\<close>
  "alarm_fires env c = handle_alarm env (c\<lparr>co_alarm := None\<rparr>)"

definition cold_start :: "coordinator \<Rightarrow> coordinator" where
  \<comment> \<open>a new instance over the stored state: memory is empty, \<open>ensureArmed\<close> checks the alarm\<close>
  "cold_start c = ensure_armed (c\<lparr>co_flushAt := None, co_statusTimer := False, co_purged := False\<rparr>)"

section \<open>The drain keeps the invariant\<close>

lemma job_update_inv:
  assumes ok: "vault_inv False now v c"
    and same: "db_entries (f (co_db c)) = db_entries (co_db c)" "db_versions (f (co_db c)) = db_versions (co_db c)"
      "db_blobs (f (co_db c)) = db_blobs (co_db c)" "db_state (f (co_db c)) = db_state (co_db c)"
      "db_connections (f (co_db c)) = db_connections (co_db c)"
      "db_revocations (f (co_db c)) = db_revocations (co_db c)"
    and keyed: "keyed jb_key (db_jobs (f (co_db c)))"
  shows "vault_inv False now v (on_db f c)"
proof (rule vault_ok_same_data[OF ok])
  show "same_data c (on_db f c)" by (simp add: same_data_def store_simps same)
  show "armed_if False (on_db f c)" by (simp add: armed_if_def store_simps keyed)
qed

lemma keyed_job_updates:
  "keyed jb_key (db_jobs d) \<Longrightarrow> keyed jb_key (db_jobs (delete_job k d))"
  "keyed jb_key (db_jobs d) \<Longrightarrow> keyed jb_key (db_jobs (reschedule_job k t now d))"
  "keyed jb_key (db_jobs d) \<Longrightarrow> keyed jb_key (db_jobs (reschedule_failed_job j e now d))"
  by (simp_all add: delete_job_def keyed_delete_rows reschedule_job_def Let_def keyed_upsert_row
      reschedule_failed_job_def keyed_update_rows)

lemma vault_inv_keyed_jobs: "vault_inv A now v c \<Longrightarrow> keyed jb_key (db_jobs (co_db c))"
  by (simp add: vault_inv_def armed_if_def)

lemma run_job_inv:
  assumes ok: "vault_inv False now v c"
    and h: "\<And>h c. handlers (job_key j) = Some h \<Longrightarrow> vault_inv False now v c \<Longrightarrow> vault_inv False now v (snd (h t c))"
  shows "vault_inv False now v (run_job handlers j t c)"
proof -
  define rc where "rc = (case handlers (job_key j) of
      None \<Rightarrow> (Inl (JsError (''No maintenance handler for '' @ key_name (job_key j))), c) | Some h \<Rightarrow> h t c)"
  obtain r c' where rc': "rc = (r, c')" by fastforce
  have inv: "vault_inv False now v (snd rc)"
    using ok h by (auto simp: rc_def split: option.splits)
  have "run_job handlers j t c = (case rc of (Inr None, c') \<Rightarrow> on_db (delete_job (job_key j)) c'
      | (Inr (Some u), c') \<Rightarrow> on_db (reschedule_job (job_key j) u t) c'
      | (Inl e, c') \<Rightarrow> on_db (reschedule_failed_job j e t) c')"
    by (simp add: run_job_def rc_def)
  then show ?thesis using inv rc' vault_inv_keyed_jobs[OF inv]
    by (auto intro!: job_update_inv simp: store_simps keyed_job_updates split: sum.splits option.splits)
qed

lemma drain_jobs_inv:
  assumes "vault_inv False now v c"
    and "\<And>k h c. handlers k = Some h \<Longrightarrow> vault_inv False now v c \<Longrightarrow> vault_inv False now v (snd (h t c))"
  shows "vault_inv False now v (drain_jobs n handlers t c)"
  using assms(1)
  by (induction n arbitrary: c) (auto intro!: run_job_inv assms(2) split: option.splits)

lemma drain_inv:
  assumes ok: "vault_inv False now v c"
    and "\<And>k h c. handlers k = Some h \<Longrightarrow> vault_inv False now v c \<Longrightarrow> vault_inv False now v (snd (h t c))"
  shows "vault_ok now v (drain handlers t c)"
proof -
  let ?c = "drain_jobs max_drained_jobs handlers t c"
  have inv: "vault_inv False now v ?c" using assms by (rule drain_jobs_inv)
  have "armed (rearm ?c)" using vault_inv_keyed_jobs[OF inv] by (rule rearm_armed)
  then show ?thesis using inv by (simp add: drain_def vault_inv_def objects_ok_def)
qed

lemma vault_inv_alarm: "vault_inv A now v c \<Longrightarrow> vault_inv False now v (c\<lparr>co_alarm := a\<rparr>)"
  by (simp add: vault_inv_def armed_if_def objects_ok_def)

lemma handle_alarm_ok:
  assumes ok: "vault_inv False now v c" and now: "now \<le> ev_clk env 0" and alive: "\<not> co_purged c"
  shows "vault_ok (ev_clk env 0) v (handle_alarm env c)"
proof -
  have "vault_ok (ev_clk env 0) v (drain (alarm_handlers env) (ev_clk env 0) c)"
  proof (rule drain_inv)
    show "vault_inv False (ev_clk env 0) v c" using ok now by (rule vault_ok_later)
  next
    fix k h and c :: coordinator
    assume h: "alarm_handlers env k = Some h" and inv: "vault_inv False (ev_clk env 0) v c"
    then show "vault_inv False (ev_clk env 0) v (snd (h (ev_clk env 0) c))"
      using run_gc_vault_ok[OF inv, of None "later_clock env" "Some (ev_clk env 0)"] flush_summary_ok[OF inv]
      by (cases k) (auto simp: alarm_handlers_def default_now_def)
  qed
  then show ?thesis using alive by (simp add: handle_alarm_def)
qed

lemma cold_start_armed: "keyed jb_key (db_jobs (co_db c)) \<Longrightarrow> armed (cold_start c)"
  using read_next_due_at_le[of _ "co_db c"]
  by (fastforce simp: cold_start_def ensure_armed_def armed_def read_next_due_at_def split: option.splits)

text \<open>
  An alarm keeps the vault consistent, whatever its jobs do: garbage collection and health
  flush may succeed, fail or reschedule themselves, up to sixteen times; afterwards every
  referenced blob still has its row and its ciphertext, the storage counter is right, and the
  alarm is armed for every job that is left.
\<close>

theorem alarm_keeps_vault_ok:
  assumes "vault_ok now v c" "now \<le> ev_clk env 0" "\<not> co_purged c"
  shows "vault_ok (ev_clk env 0) v (alarm_fires env c)"
  unfolding alarm_fires_def using vault_inv_alarm[OF assms(1)] assms(2,3) by (intro handle_alarm_ok) auto

theorem alarm_keeps_vault_ok_witness:
  "vault_ok 10 ''v'' (alarm_fires example_env (schedule_now 10 example_vault))"
  using alarm_keeps_vault_ok[OF schedule_at_ok[OF example_vault_ok[of 10], of 10 10], of example_env]
  by (simp add: schedule_now_def schedule_at_def store_simps example_vault_def idle_coordinator_def)

text \<open>
  A restart never loses maintenance: whatever the in-memory fields and the alarm were, a new
  instance over a consistent database has the alarm set no later than the earliest job.
\<close>

theorem cold_start_arms:
  assumes "keyed jb_key (db_jobs (co_db c))" "due_of k (co_db c) = Some t"
  shows "\<exists>a. co_alarm (cold_start c) = Some a \<and> a \<le> t"
proof -
  have "due_of k (co_db (cold_start c)) = Some t"
    using assms(2) by (simp add: cold_start_def ensure_armed_def split: option.splits)
  then show ?thesis using do_scheduler.alarm_covers[OF cold_start_armed[OF assms(1)]] by blast
qed

theorem cold_start_arms_witness:
  "\<exists>a. co_alarm (cold_start ((defer_maintenance Blob_gc 0 0 idle_coordinator)\<lparr>co_alarm := None\<rparr>)) = Some a \<and> a \<le> 0"
proof -
  let ?c = "(defer_maintenance Blob_gc 0 0 idle_coordinator)\<lparr>co_alarm := None\<rparr>"
  have "keyed jb_key (db_jobs (co_db ?c))"
    using defer_maintenance_armed[OF idle_armed, of Blob_gc 0 0] by (simp add: armed_def)
  moreover have "due_of Blob_gc (co_db ?c) = Some 0"
    by (simp add: due_of_defer_maintenance)
      (simp add: due_of_def idle_coordinator_def empty_db_def job_due_at_def gc_bucket_ms_def)
  ultimately show ?thesis by (rule cold_start_arms)
qed

end
