(* ===== verification/Protocol_Types.thy ===== *)
theory Protocol_Types
  imports Storage_Model
begin

text \<open>
  The data exchanged with clients: sessions, mutation payloads and results
  (\<open>application/dto/types.ts\<close>, \<open>application/dto/protocol-types.ts\<close>). The request id of a message
  is copied into its answer and is left to the message handler.
\<close>

record session =
  ss_accessVersion :: "int option"
  ss_userId :: ident
  ss_localVaultId :: ident
  ss_vaultId :: ident
  ss_displayName :: string
  ss_wantsStorageStatus :: bool
  ss_wantsPresence :: bool
  ss_presenceEntryId :: "ident option"
  ss_presenceWatch :: "ident list"

record mutation =
  mu_id :: ident
  mu_entryId :: ident
  mu_op :: op_type
  mu_base :: int
  mu_blob :: "ident option"
  mu_metadata :: string

datatype batch_result =
    Accepted ident int ident int \<comment> \<open>mutation id, cursor, entry id, revision\<close>
  | Rejected ident ident string string "int option" "int option"
      \<comment> \<open>mutation id, entry id, code, message, expected and received base revision\<close>

record commit_result =
  cr_cursor :: int
  cr_results :: "batch_result list"
  cr_broadcast :: "int option"

datatype commit_reply =
    Commit_accepted int ident int \<comment> \<open>cursor, entry id, revision\<close>
  | Commit_rejected string string "int option" "int option"

end
