(* ===== verification/Mutation_Service.thy ===== *)
theory Mutation_Service
  imports Maintenance_Service Protocol_Types
begin

text \<open>
  \<open>services/mutation-service.ts\<close>: the commit of a batch of entry mutations. The ciphertext of
  the blobs is looked up in the object storage first; then one transaction decides and applies
  the mutations in order; then collection and health summary are scheduled.
\<close>

record commit_state =
  ct_db :: db
  ct_next :: "int option" \<comment> \<open>\<open>nextCursor\<close>\<close>
  ct_results :: "batch_result list"
  ct_response :: "int option" \<comment> \<open>\<open>highestResponseCursor\<close>\<close>
  ct_broadcast :: "int option" \<comment> \<open>\<open>highestBroadcastCursor\<close>\<close>
  ct_seen :: "string list" \<comment> \<open>\<open>seenMutationIds\<close>\<close>
  ct_uuids :: nat \<comment> \<open>random ids used so far\<close>

record commit_env =
  cx_session :: session
  cx_now :: millis
  cx_retentionMs :: millis
  cx_grace :: millis
  cx_forced :: "capture_reason option"
  cx_unavailable :: "ident list"
  cx_uuid :: "nat \<Rightarrow> ident"

definition read_cursor :: "commit_env \<Rightarrow> db \<Rightarrow> coord_error + int" where
  "read_cursor ce d =
     (if read_vault_id d \<noteq> Some (ss_vaultId (cx_session ce)) then Inl vault_mismatch
      else current_cursor d)"

definition max_cursor :: "int option \<Rightarrow> int \<Rightarrow> int" where
  \<comment> \<open>\<open>Math.max(highest ?? 0, cursor)\<close>\<close>
  "max_cursor highest cursor = max (case highest of None \<Rightarrow> 0 | Some h \<Rightarrow> h) cursor"

definition reject :: "commit_state \<Rightarrow> ident \<Rightarrow> mutation \<Rightarrow> string \<Rightarrow> string \<Rightarrow> int option \<Rightarrow> int option \<Rightarrow> commit_state" where
  "reject ct mutationId m code msg expected received =
     ct\<lparr>ct_results := ct_results ct @ [Rejected mutationId (mu_entryId m) code msg expected received]\<rparr>"

definition check_next_blob :: "commit_env \<Rightarrow> ident option \<Rightarrow> db \<Rightarrow> (string \<times> string) + db" where
  "check_next_blob ce nextBlob d =
     (case nextBlob of None \<Rightarrow> Inr d
      | Some b \<Rightarrow>
          if b = [] then Inr d
          else if b \<in> set (cx_unavailable ce)
          then Inl (''blob_not_found'', ''blob '' @ b @ '' is not available'')
          else case read_blob b d of
            None \<Rightarrow> Inl (''blob_not_staged'', ''blob '' @ b @ '' was not staged'')
          | Some r \<Rightarrow> Inr (if bl_state r = Pending_delete
                then update_blob_state b Staged (Some (cx_now ce + cx_grace ce)) d else d))"

definition forced_version :: "commit_env \<Rightarrow> mutation \<Rightarrow> ident \<Rightarrow> capture_reason \<Rightarrow> mutation_entry \<Rightarrow> version_row" where
  "forced_version ce m versionId reason cur =
     \<lparr>ve_id = versionId, ve_entryId = mu_entryId m, ve_sourceRevision = me_revision cur,
      ve_op = (if me_deleted cur then Delete else Upsert), ve_blob = me_blob cur,
      ve_metadata = me_metadata cur, ve_reason = reason, ve_bucketStart = None,
      ve_capturedAt = cx_now ce, ve_expiresAt = cx_now ce + cx_retentionMs ce,
      ve_userId = ss_userId (cx_session ce), ve_localVaultId = ss_localVaultId (cx_session ce)\<rparr>"

definition auto_version :: "commit_env \<Rightarrow> mutation \<Rightarrow> ident \<Rightarrow> int \<Rightarrow> ident option \<Rightarrow> millis option \<Rightarrow> version_row" where
  "auto_version ce m versionId revision nextBlob bucket =
     \<lparr>ve_id = versionId, ve_entryId = mu_entryId m, ve_sourceRevision = revision, ve_op = mu_op m,
      ve_blob = nextBlob, ve_metadata = mu_metadata m, ve_reason = Auto, ve_bucketStart = bucket,
      ve_capturedAt = cx_now ce, ve_expiresAt = cx_now ce + cx_retentionMs ce,
      ve_userId = ss_userId (cx_session ce), ve_localVaultId = ss_localVaultId (cx_session ce)\<rparr>"

definition next_entry :: "commit_env \<Rightarrow> mutation \<Rightarrow> ident \<Rightarrow> int \<Rightarrow> ident option \<Rightarrow> bool \<Rightarrow> int \<Rightarrow> entry_input" where
  "next_entry ce m mutationId revision nextBlob nextDeleted cursor =
     \<lparr>ei_id = mu_entryId m, ei_revision = revision, ei_blob = nextBlob, ei_metadata = mu_metadata m,
      ei_deleted = nextDeleted, ei_seq = cursor, ei_updatedAt = cx_now ce,
      ei_userId = ss_userId (cx_session ce), ei_localVaultId = ss_localVaultId (cx_session ce),
      ei_lastMutation = mutationId\<rparr>"

definition promote_blob :: "ident option \<Rightarrow> db \<Rightarrow> db" where
  "promote_blob nextBlob d = (if truthy nextBlob then update_blob_state (the nextBlob) Live None d else d)"

definition retire_blob :: "commit_env \<Rightarrow> ident option \<Rightarrow> ident option \<Rightarrow> db \<Rightarrow> db" where
  "retire_blob ce currentBlob nextBlob d =
     (if truthy currentBlob \<and> currentBlob \<noteq> nextBlob \<and>
         \<not> rf_current (read_blob_reference_facts (the currentBlob) (cx_now ce) d)
      then update_blob_state (the currentBlob) Pending_delete (Some (cx_now ce)) d
      else d)"

definition apply_mutation ::
  "commit_env \<Rightarrow> mutation \<Rightarrow> ident \<Rightarrow> mutation_entry option \<Rightarrow> int \<Rightarrow> ident option \<Rightarrow> bool \<Rightarrow>
   capture_reason option \<Rightarrow> bool \<Rightarrow> millis option \<Rightarrow> commit_state \<Rightarrow> coord_error + commit_state" where
  \<comment> \<open>the rest of the loop body, once the mutation is admitted\<close>
  "apply_mutation ce m mutationId cur revision nextBlob nextDeleted forced captureAuto bucket ct =
     (let (d1, k1) = (case (forced, cur) of
             (Some reason, Some c) \<Rightarrow>
               (snd (insert_entry_version (forced_version ce m (cx_uuid ce (ct_uuids ct)) reason c) (ct_db ct)),
                Suc (ct_uuids ct))
           | _ \<Rightarrow> (ct_db ct, ct_uuids ct))
      in case (case ct_next ct of Some n \<Rightarrow> Inr n | None \<Rightarrow> read_cursor ce d1) of
           Inl e \<Rightarrow> Inl e
         | Inr base \<Rightarrow>
             let cursor = base + 1;
                 d2 = upsert_entry (next_entry ce m mutationId revision nextBlob nextDeleted cursor) d1;
                 (d3, k3) = (if captureAuto
                   then (snd (insert_entry_version (auto_version ce m (cx_uuid ce k1) revision nextBlob bucket) d2), Suc k1)
                   else (d2, k1));
                 d4 = promote_blob nextBlob d3;
                 d5 = retire_blob ce (case cur of None \<Rightarrow> None | Some c \<Rightarrow> me_blob c) nextBlob d4
             in Inr (ct\<lparr>ct_db := d5, ct_next := Some cursor,
                  ct_response := Some (max_cursor (ct_response ct) cursor),
                  ct_broadcast := Some (max_cursor (ct_broadcast ct) cursor),
                  ct_results := ct_results ct @ [Accepted mutationId cursor (mu_entryId m) revision],
                  ct_uuids := k3\<rparr>))"

definition commit_one :: "commit_env \<Rightarrow> mutation \<Rightarrow> commit_state \<Rightarrow> coord_error + commit_state" where
  "commit_one ce m ct =
     (let mutationId = js_trim (mu_id m) in
      if mutationId \<in> set (ct_seen ct)
      then Inr (reject ct mutationId m ''duplicate_mutation_id''
             (''duplicate mutation id '' @ mutationId @ '' in batch'') None None)
      else
        let ct1 = ct\<lparr>ct_seen := mutationId # ct_seen ct\<rparr>;
            cur = read_mutation_entry (mu_entryId m) (ct_db ct)
        in case decide_entry_mutation
              (map_option (\<lambda>c. \<lparr>cf_revision = me_revision c, cf_lastMutation = me_lastMutation c\<rparr>) cur)
              mutationId (mu_base m) (mu_op m) (mu_blob m) (cx_forced ce) (cx_now ce) of
          Idempotent \<Rightarrow>
            (case cur of
               None \<Rightarrow> Inl (JsError ''idempotent mutation has no current entry'')
             | Some c \<Rightarrow> Inr (ct1\<lparr>ct_response := Some (max_cursor (ct_response ct) (me_seq c)),
                 ct_results := ct_results ct @ [Accepted mutationId (me_seq c) (me_id c) (me_revision c)]\<rparr>))
        | Stale_revision expected received \<Rightarrow>
            Inr (reject ct1 mutationId m ''stale_revision''
              (''expected base revision '' @ show_num expected @ '' but received '' @ show_num received)
              (Some expected) (Some received))
        | Apply previous revision nextBlob nextDeleted forced captureAuto bucket \<Rightarrow>
            (case check_next_blob ce nextBlob (ct_db ct) of
               Inl (code, msg) \<Rightarrow> Inr (reject ct1 mutationId m code msg None None)
             | Inr d \<Rightarrow> apply_mutation ce m mutationId cur revision nextBlob nextDeleted forced captureAuto
                 bucket (ct1\<lparr>ct_db := d\<rparr>)))"

fun commit_all :: "commit_env \<Rightarrow> mutation list \<Rightarrow> commit_state \<Rightarrow> coord_error + commit_state" where
  "commit_all ce [] ct = Inr ct"
| "commit_all ce (m # ms) ct =
     (case commit_one ce m ct of Inl e \<Rightarrow> Inl e | Inr ct' \<Rightarrow> commit_all ce ms ct')"

definition commit_start :: "db \<Rightarrow> commit_state" where
  "commit_start d = \<lparr>ct_db = d, ct_next = None, ct_results = [], ct_response = None,
     ct_broadcast = None, ct_seen = [], ct_uuids = 0\<rparr>"

definition commit_transaction :: "commit_env \<Rightarrow> mutation list \<Rightarrow> db \<Rightarrow> (coord_error + commit_result) \<times> db" where
  \<comment> \<open>the operation inside \<open>unitOfWork.run\<close>\<close>
  "commit_transaction ce ms d =
     (if read_sync_pause d \<noteq> None then (Inl (AppError ''sync_paused'' []), d)
      else case commit_all ce ms (commit_start d) of
        Inl e \<Rightarrow> (Inl e, d)
      | Inr ct \<Rightarrow>
          let d' = (case ct_next ct of None \<Rightarrow> ct_db ct | Some n \<Rightarrow> save_commit n (cx_now ce) (ct_db ct))
          in case (case ct_response ct of Some n \<Rightarrow> Inr n | None \<Rightarrow> read_cursor ce d') of
               Inl e \<Rightarrow> (Inl e, d')
             | Inr cursor \<Rightarrow> (Inr \<lparr>cr_cursor = cursor, cr_results = ct_results ct, cr_broadcast = ct_broadcast ct\<rparr>, d'))"

definition upsert_blob_ids :: "mutation list \<Rightarrow> ident list" where
  "upsert_blob_ids ms =
     js_unique (List.map_filter mu_blob (filter (\<lambda>m. mu_op m = Upsert \<and> truthy (mu_blob m)) ms))"

definition commit_mutations ::
  "env \<Rightarrow> session \<Rightarrow> mutation list \<Rightarrow> capture_reason option \<Rightarrow> coordinator \<Rightarrow>
   (coord_error + commit_result) \<times> coordinator" where
  "commit_mutations env session ms forced c =
     (case (if upsert_blob_ids ms = [] then None else ev_storage env) of
        Some e \<Rightarrow> (Inl e, c)
      | None \<Rightarrow>
          let unavailable = filter (\<lambda>b. object_exists env (blob_object_key (ss_vaultId session) b) c \<noteq> Inr True)
                (upsert_blob_ids ms);
              now = ev_clk env 0
          in case read_retention_days (co_db c) of
               Inl e \<Rightarrow> (Inl e, c)
             | Inr days \<Rightarrow>
                 let (result, c1) = in_transaction (commit_transaction
                       \<lparr>cx_session = session, cx_now = now, cx_retentionMs = days * day_ms,
                        cx_grace = ev_grace env, cx_forced = forced, cx_unavailable = unavailable,
                        cx_uuid = ev_uuid env\<rparr> ms) c
                 in case result of
                      Inl e \<Rightarrow> (Inl e, c1)
                    | Inr r \<Rightarrow> (Inr r, if cr_broadcast r = None then c1
                        else schedule_summary_flush (ev_clk env 2) (snd (schedule_next (ev_clk env 1) c1))))"

definition commit_mutation ::
  "env \<Rightarrow> session \<Rightarrow> mutation \<Rightarrow> capture_reason option \<Rightarrow> coordinator \<Rightarrow>
   (coord_error + (commit_reply \<times> int option)) \<times> coordinator" where
  "commit_mutation env session m forced c =
     (case commit_mutations env session [m] forced c of
        (Inl e, c1) \<Rightarrow> (Inl e, c1)
      | (Inr r, c1) \<Rightarrow>
          (case cr_results r of
             [] \<Rightarrow> (Inl (JsError ''commit batch returned no result''), c1)
           | Accepted _ cursor entryId revision # _ \<Rightarrow>
               (Inr (Commit_accepted cursor entryId revision, cr_broadcast r), c1)
           | Rejected _ _ code msg expected received # _ \<Rightarrow>
               (Inr (Commit_rejected code msg expected received, None), c1)))"

section \<open>One applied mutation keeps the invariant\<close>

text \<open>
  During the loop the new sequence numbers exceed the stored cursor, and between the write of
  the entry and the promotion of its blob the blob \<open>X\<close> is referenced but not yet live.
\<close>

definition refs_but :: "millis \<Rightarrow> ident option \<Rightarrow> db \<Rightarrow> bool" where
  "refs_but now X d \<longleftrightarrow> (\<forall>b. b \<noteq> [] \<longrightarrow>
     (current_blob_reference d b \<longrightarrow> (\<exists>r. read_blob b d = Some r \<and> (X \<noteq> Some b \<longrightarrow> bl_state r = Live))) \<and>
     (retained_blob_reference now d b \<longrightarrow> read_blob b d \<noteq> None))"

definition commit_ok :: "millis \<Rightarrow> int \<Rightarrow> ident option \<Rightarrow> db \<Rightarrow> bool" where
  "commit_ok now n X d \<longleftrightarrow> db_keys d \<and> accounted d \<and> refs_but now X d \<and> versions_ok d \<and>
     (\<exists>s. db_state d = Some s) \<and> 0 \<le> n \<and> distinct (map en_seq (db_entries d)) \<and>
     (\<forall>e \<in> set (db_entries d). 0 < en_revision e \<and> en_seq e \<le> n)"

lemma commit_ok_db_ok: "db_state d = Some s \<Longrightarrow> db_ok now d = commit_ok now (cs_cursor s) None d"
  by (auto simp: db_ok_def commit_ok_def refs_ok_def refs_but_def seqs_ok_def)

lemma commit_ok_saved:
  assumes "commit_ok now n None d"
  shows "db_ok now (save_commit n t d)"
proof -
  obtain s where s: "db_state d = Some s" using assms by (auto simp: commit_ok_def)
  have refs: "current_blob_reference (save_commit n t d) b = current_blob_reference d b"
    "retained_blob_reference now (save_commit n t d) b = retained_blob_reference now d b"
    "read_blob b (save_commit n t d) = read_blob b d" for b
    using references_cong[of "save_commit n t d" d] by (simp_all add: store_simps read_blob_def)
  have "refs_ok now (save_commit n t d)"
    using assms by (simp add: refs_ok_def refs commit_ok_def refs_but_def)
  then show ?thesis using assms s
    by (simp add: commit_ok_def db_ok_def db_keys_def accounted_def
        versions_ok_def seqs_ok_def blob_bytes_def store_simps)
qed

lemma commit_ok_upd:
  assumes "commit_ok now n X d" "db_keys d'" "refs_but now Y d'" "versions_ok d'"
    "db_entries d' = db_entries d" "db_blobs d' = db_blobs d" "db_state d' = db_state d"
  shows "commit_ok now n Y d'"
  using assms by (auto simp: commit_ok_def accounted_def blob_bytes_def)

lemma versions_insert_ok:
  "versions_ok d \<Longrightarrow> versions_ok (snd (insert_entry_version v d))"
  by (auto simp: versions_ok_def insert_entry_version_def sorted_wrt_append version_conflict_def)

lemma keyed_insert_version:
  "keyed ve_id (db_versions d) \<Longrightarrow> keyed ve_id (db_versions (snd (insert_entry_version v d)))"
  by (auto simp: insert_entry_version_def keyed_def version_conflict_def)

lemma insert_version_commit_ok:
  assumes ok: "commit_ok now n X d" and row: "\<And>b. ve_blob v = Some b \<Longrightarrow> b \<noteq> [] \<Longrightarrow> read_blob b d \<noteq> None"
  shows "commit_ok now n X (snd (insert_entry_version v d))" (is "commit_ok now n X ?d")
proof (rule commit_ok_upd[OF ok])
  show "db_keys ?d" using ok by (simp add: commit_ok_def db_keys_def store_simps keyed_insert_version)
  show "versions_ok ?d" using ok by (simp add: commit_ok_def versions_insert_ok)
  have same: "current_blob_reference ?d b = current_blob_reference d b" "read_blob b ?d = read_blob b d" for b
    by (simp_all add: current_blob_reference_def read_blob_def store_simps)
  have ret: "retained_blob_reference now ?d b \<Longrightarrow> retained_blob_reference now d b \<or> ve_blob v = Some b" for b
    using set_insert_entry_version[of v d] by (auto simp: retained_blob_reference_def)
  show "refs_but now X ?d"
    unfolding refs_but_def same
  proof (intro allI impI)
    fix b :: ident
    assume "b \<noteq> []"
    then show "(current_blob_reference d b \<longrightarrow> (\<exists>r. read_blob b d = Some r \<and> (X \<noteq> Some b \<longrightarrow> bl_state r = Live))) \<and>
        (retained_blob_reference now ?d b \<longrightarrow> read_blob b d \<noteq> None)"
      using ok row[of b] ret[of b] by (auto simp: commit_ok_def refs_but_def)
  qed
qed (simp_all add: store_simps)

lemma distinct_keyed_map:
  "keyed key xs \<Longrightarrow> distinct (map f xs) \<longleftrightarrow> inj_on f (set xs)"
  by (auto simp: keyed_def distinct_map)

lemma keyed_upsert_entry: "keyed en_id (db_entries d) \<Longrightarrow> keyed en_id (db_entries (upsert_entry i d))"
  by (auto simp: upsert_entry_def intro!: keyed_upsert_row)

lemma current_reference_upsert:
  "keyed en_id (db_entries d) \<Longrightarrow>
   current_blob_reference (upsert_entry i d) b \<longleftrightarrow>
     ei_blob i = Some b \<or> (\<exists>e \<in> set (db_entries d). en_id e \<noteq> ei_id i \<and> en_blob e = Some b)"
  by (auto simp: current_blob_reference_def set_upsert_entry entry_of_input_def)

lemma upsert_commit_ok:
  assumes ok: "commit_ok now n None d" and rev: "0 < ei_revision i" and seq: "n < ei_seq i"
    and row: "\<And>b. ei_blob i = Some b \<Longrightarrow> b \<noteq> [] \<Longrightarrow> read_blob b d \<noteq> None"
  shows "commit_ok now (ei_seq i) (ei_blob i) (upsert_entry i d)" (is "commit_ok _ _ _ ?d")
proof -
  have k: "keyed en_id (db_entries d)" using ok by (simp add: commit_ok_def db_keys_def)
  have keys: "db_keys ?d" using ok by (simp add: commit_ok_def db_keys_def store_simps keyed_upsert_entry)
  have inj: "inj_on en_seq (set (db_entries d))"
    using ok distinct_keyed_map[OF k, of en_seq] by (simp add: commit_ok_def)
  have old: "e \<in> set (db_entries d) \<Longrightarrow> en_seq e < ei_seq i" for e
    using ok seq by (fastforce simp: commit_ok_def)
  let ?others = "{e \<in> set (db_entries d). en_id e \<noteq> ei_id i}"
  have "inj_on en_seq ?others" by (rule inj_on_subset[OF inj]) auto
  moreover have "en_seq (entry_of_input i) \<notin> en_seq ` (?others - {entry_of_input i})"
    using old by (fastforce simp: entry_of_input_def)
  ultimately have "inj_on en_seq (set (db_entries ?d))"
    by (simp add: set_upsert_entry[OF k] inj_on_insert)
  then have dist: "distinct (map en_seq (db_entries ?d))"
    using distinct_keyed_map[OF keyed_upsert_entry[OF k], of en_seq] by simp
  have bound: "\<forall>e \<in> set (db_entries ?d). 0 < en_revision e \<and> en_seq e \<le> ei_seq i"
    using ok rev old by (auto simp: set_upsert_entry[OF k] entry_of_input_def commit_ok_def less_imp_le)
  have refs: "refs_but now (ei_blob i) ?d"
    unfolding refs_but_def
  proof (intro allI impI)
    fix b :: ident
    assume b: "b \<noteq> []"
    have eq: "read_blob b ?d = read_blob b d" "retained_blob_reference now ?d b = retained_blob_reference now d b"
      by (simp_all add: read_blob_def retained_blob_reference_def store_simps)
    have "current_blob_reference ?d b \<Longrightarrow> ei_blob i = Some b \<or> current_blob_reference d b"
      using current_reference_upsert[OF k, of i b] by (auto simp: current_blob_reference_def [of d])
    then show "(current_blob_reference ?d b \<longrightarrow> (\<exists>r. read_blob b ?d = Some r \<and> (ei_blob i \<noteq> Some b \<longrightarrow> bl_state r = Live))) \<and>
        (retained_blob_reference now ?d b \<longrightarrow> read_blob b ?d \<noteq> None)"
      using ok row[of b] b by (auto simp: eq commit_ok_def refs_but_def)
  qed
  show ?thesis using ok keys dist bound refs seq accounted_cong[of ?d d]
    by (simp add: commit_ok_def versions_ok_def store_simps)
qed

lemma update_blob_commit_ok:
  assumes ok: "commit_ok now n X d"
    and live: "b \<noteq> [] \<Longrightarrow> current_blob_reference d b \<Longrightarrow> Y \<noteq> Some b \<Longrightarrow> s = Live"
    and other: "\<And>c. c \<noteq> b \<Longrightarrow> X = Some c \<Longrightarrow> Y = Some c"
  shows "commit_ok now n Y (update_blob_state b s da d)" (is "commit_ok now n Y ?d")
proof -
  have refs: "current_blob_reference ?d x = current_blob_reference d x"
    "retained_blob_reference now ?d x = retained_blob_reference now d x" for x
    by (rule references_cong; simp add: store_simps)+
  have "refs_but now Y ?d"
    unfolding refs_but_def
  proof (intro allI impI)
    fix c :: ident
    assume c: "c \<noteq> []"
    show "(current_blob_reference ?d c \<longrightarrow> (\<exists>r. read_blob c ?d = Some r \<and> (Y \<noteq> Some c \<longrightarrow> bl_state r = Live))) \<and>
        (retained_blob_reference now ?d c \<longrightarrow> read_blob c ?d \<noteq> None)"
      using ok c live other by (cases "c = b"; cases "read_blob c d")
        (auto simp: refs read_blob_update_state commit_ok_def refs_but_def)
  qed
  moreover have "db_keys ?d"
    using ok by (simp add: commit_ok_def db_keys_def store_simps) (simp add: update_blob_state_def keyed_update_rows)
  moreover have "accounted ?d"
    using ok by (auto simp: commit_ok_def accounted_def store_simps blob_bytes_def update_blob_state_def
        sum_upd_sizes table_simps split: option.splits)
  ultimately show ?thesis using ok by (simp add: commit_ok_def versions_ok_def store_simps)
qed

lemma promote_commit_ok:
  assumes "commit_ok now n X d"
  shows "commit_ok now n None (promote_blob X d)"
proof (cases "truthy X")
  case True
  then obtain b where "X = Some b" by (auto dest: truthyE)
  then show ?thesis using assms True update_blob_commit_ok[of now n X d b None Live None] by (simp add: promote_blob_def)
next
  case False
  then have "X = None \<or> X = Some []" by (cases X) auto
  then show ?thesis using assms False by (auto simp: promote_blob_def commit_ok_def refs_but_def)
qed

lemma retire_commit_ok: "commit_ok now n None d \<Longrightarrow> commit_ok now n None (retire_blob cx cb nb d)"
  unfolding retire_blob_def using update_blob_commit_ok[of now n None d "the cb" None Pending_delete]
  by (auto dest: truthyE)

section \<open>The commit keeps the invariant\<close>

lemma promote_retire_frame [store_simps]:
  "db_entries (promote_blob nb d) = db_entries d" "db_versions (promote_blob nb d) = db_versions d"
  "db_state (promote_blob nb d) = db_state d" "db_jobs (promote_blob nb d) = db_jobs d"
  "db_entries (retire_blob cx cb nb d) = db_entries d" "db_versions (retire_blob cx cb nb d) = db_versions d"
  "db_state (retire_blob cx cb nb d) = db_state d" "db_jobs (retire_blob cx cb nb d) = db_jobs d"
  by (simp_all add: promote_blob_def retire_blob_def store_simps)

lemma check_next_blob_cases:
  assumes "check_next_blob cx nb d = Inr d'"
  shows "d' = d \<or> (\<exists>b r t. nb = Some b \<and> b \<noteq> [] \<and> read_blob b d = Some r \<and> bl_state r = Pending_delete \<and>
      d' = update_blob_state b Staged (Some t) d)"
    "\<And>b. nb = Some b \<Longrightarrow> b \<noteq> [] \<Longrightarrow> b \<notin> set (cx_unavailable cx) \<and> read_blob b d \<noteq> None"
  using assms by (auto simp: check_next_blob_def split: option.splits if_splits)

lemma check_next_blob_frame:
  assumes "check_next_blob cx nb d = Inr d'"
  shows "db_entries d' = db_entries d" "db_versions d' = db_versions d" "db_state d' = db_state d"
    "db_jobs d' = db_jobs d" "read_blob c d' = None \<longleftrightarrow> read_blob c d = None"
  using check_next_blob_cases(1)[OF assms] by (auto simp: store_simps read_blob_update_state)

lemma check_next_blob_ok:
  assumes ok: "commit_ok now n None d" and chk: "check_next_blob cx nb d = Inr d'"
  shows "commit_ok now n None d'"
proof (cases "d' = d")
  case True
  then show ?thesis using ok by simp
next
  case False
  then obtain b r t where b: "nb = Some b" "b \<noteq> []" "read_blob b d = Some r" "bl_state r = Pending_delete"
    "d' = update_blob_state b Staged (Some t) d"
    using check_next_blob_cases(1)[OF chk] by blast
  have "\<not> current_blob_reference d b" using ok b by (auto simp: commit_ok_def refs_but_def)
  then show ?thesis using update_blob_commit_ok[OF ok, of b None Staged "Some t"] b(5) by simp
qed

definition loop_ok :: "commit_env \<Rightarrow> ident set \<Rightarrow> db \<Rightarrow> state_row \<Rightarrow> commit_state \<Rightarrow> bool" where
  "loop_ok cx avail d0 s ct \<longleftrightarrow>
     commit_ok (cx_now cx) (case ct_next ct of None \<Rightarrow> cs_cursor s | Some n \<Rightarrow> n) None (ct_db ct) \<and>
     db_state (ct_db ct) = Some s \<and> db_jobs (ct_db ct) = db_jobs d0 \<and>
     (\<forall>n. ct_next ct = Some n \<longrightarrow> cs_vaultId s = ss_vaultId (cx_session cx) \<and> cs_cursor s \<le> n) \<and>
     (\<forall>b. b \<noteq> [] \<longrightarrow> pinned (cx_now cx) (ct_db ct) b \<longrightarrow>
        pinned (cx_now cx) d0 b \<or> (b \<in> avail \<and> ct_next ct \<noteq> None))"

lemma loop_ok_same_db:
  "loop_ok cx avail d0 s ct \<Longrightarrow> ct_db ct' = ct_db ct \<Longrightarrow> ct_next ct' = ct_next ct \<Longrightarrow> loop_ok cx avail d0 s ct'"
  by (simp add: loop_ok_def)

lemma current_pinned_row:
  "commit_ok now n None d \<Longrightarrow> current_blob_reference d b \<Longrightarrow> b \<noteq> [] \<Longrightarrow> read_blob b d \<noteq> None"
  by (auto simp: commit_ok_def refs_but_def)

lemma mutation_entry_ref:
  "read_mutation_entry e d = Some c \<Longrightarrow> me_blob c = Some b \<Longrightarrow> current_blob_reference d b"
  by (auto simp: read_mutation_entry_def to_mutation_entry_def current_blob_reference_def dest: row_of_SomeD)

lemma pinned_insert_version:
  "pinned now (snd (insert_entry_version v d)) b \<Longrightarrow> pinned now d b \<or> ve_blob v = Some b"
  using set_insert_entry_version[of v d]
  by (auto simp: pinned_iff retained_blob_reference_def current_blob_reference_def store_simps)

lemma pinned_upsert:
  assumes "keyed en_id (db_entries d)"
  shows "pinned now (upsert_entry i d) b \<Longrightarrow> pinned now d b \<or> ei_blob i = Some b"
  using current_reference_upsert[OF assms, of i b]
  by (auto simp: pinned_iff current_blob_reference_def [of d] retained_blob_reference_def store_simps)

lemma apply_mutation_ok:
  assumes loop: "loop_ok cx avail d0 s ct" and app: "apply_mutation cx m mid cur rv nb del forced auto bucket ct = Inr ct'"
    and cur: "\<And>c b. cur = Some c \<Longrightarrow> me_blob c = Some b \<Longrightarrow> current_blob_reference (ct_db ct) b" and rv: "0 < rv"
    and nb: "\<And>b. nb = Some b \<Longrightarrow> b \<noteq> [] \<Longrightarrow> b \<in> avail \<and> read_blob b (ct_db ct) \<noteq> None"
  shows "loop_ok cx avail d0 s ct'"
proof -
  let ?n0 = "case ct_next ct of None \<Rightarrow> cs_cursor s | Some n \<Rightarrow> n"
  note ok = loop[unfolded loop_ok_def]
  have okd: "commit_ok (cx_now cx) ?n0 None (ct_db ct)" using ok by simp
  obtain d1 k1 where d1: "(case (forced, cur) of
        (Some reason, Some c) \<Rightarrow>
          (snd (insert_entry_version (forced_version cx m (cx_uuid cx (ct_uuids ct)) reason c) (ct_db ct)), Suc (ct_uuids ct))
      | _ \<Rightarrow> (ct_db ct, ct_uuids ct)) = (d1, k1)" by fastforce
  have d1': "d1 = ct_db ct \<or> (\<exists>c i r. cur = Some c \<and> d1 = snd (insert_entry_version (forced_version cx m i r c) (ct_db ct)))"
    using d1 by (auto split: option.splits)
  have fv: "ve_blob (forced_version cx m i r c) = me_blob c" for i r c by (simp add: forced_version_def)
  have row: "read_blob b (ct_db ct) \<noteq> None" if "cur = Some c" "me_blob c = Some b" "b \<noteq> []" for c b
    using cur[OF that(1,2)] current_pinned_row[OF okd _ that(3)] by blast
  have c1: "commit_ok (cx_now cx) ?n0 None d1"
    using d1' okd row by (auto intro!: insert_version_commit_ok simp: fv)
  have frame1: "db_state d1 = Some s" "db_jobs d1 = db_jobs d0" "read_blob b d1 = read_blob b (ct_db ct)" for b
    using d1' ok by (auto simp: store_simps read_blob_def)
  have pin1: "pinned (cx_now cx) (ct_db ct) b" if p: "pinned (cx_now cx) d1 b" for b
  proof (cases "d1 = ct_db ct")
    case False
    then obtain c i r where c: "cur = Some c" "d1 = snd (insert_entry_version (forced_version cx m i r c) (ct_db ct))"
      using d1' by blast
    then show ?thesis using pinned_insert_version[of "cx_now cx" _ "ct_db ct" b] p cur fv
      by (fastforce simp: pinned_iff)
  qed (use p in simp)
  obtain base where base: "(case ct_next ct of Some n \<Rightarrow> Inr n | None \<Rightarrow> read_cursor cx d1) = Inr base"
    using app d1 by (auto simp: apply_mutation_def split: option.splits sum.splits prod.splits)
  have base': "base = ?n0" "cs_vaultId s = ss_vaultId (cx_session cx)"
    using base frame1(1) ok
    by (auto simp: read_cursor_def current_cursor_def read_vault_id_def split: option.splits if_splits)
  let ?i = "next_entry cx m mid rv nb del (base + 1)"
  let ?d2 = "upsert_entry ?i d1"
  have i: "ei_blob ?i = nb" "ei_seq ?i = base + 1" "ei_revision ?i = rv" by (simp_all add: next_entry_def)
  have c2: "commit_ok (cx_now cx) (base + 1) nb ?d2"
    using upsert_commit_ok[OF c1, of ?i] rv nb base' i by (simp add: frame1(3))
  obtain d3 k3 where d3: "(if auto then (snd (insert_entry_version (auto_version cx m (cx_uuid cx k1) rv nb bucket) ?d2), Suc k1)
      else (?d2, k1)) = (d3, k3)" by fastforce
  have av: "ve_blob (auto_version cx m i r nb bk) = nb" for i r bk by (simp add: auto_version_def)
  have row2: "read_blob b (upsert_entry j d1) = read_blob b (ct_db ct)" for b j
    using frame1(3)[of b] by (simp add: read_blob_def store_simps)
  have d3': "d3 = ?d2 \<or> (\<exists>i. d3 = snd (insert_entry_version (auto_version cx m i rv nb bucket) ?d2))"
    using d3 by (auto split: if_splits)
  have c3: "commit_ok (cx_now cx) (base + 1) nb d3"
    using d3' c2 nb by (auto intro!: insert_version_commit_ok simp: row2 av)
  have frame3: "db_state d3 = Some s" "db_jobs d3 = db_jobs d0"
    using d3' frame1 by (auto simp: store_simps)
  have pin3: "pinned (cx_now cx) d3 b \<Longrightarrow> pinned (cx_now cx) ?d2 b \<or> nb = Some b" for b
    using d3' pinned_insert_version[of "cx_now cx" _ ?d2 b] av by fastforce
  define d5 where "d5 = retire_blob cx (case cur of None \<Rightarrow> None | Some c \<Rightarrow> me_blob c) nb (promote_blob nb d3)"
  have c5: "commit_ok (cx_now cx) (base + 1) None d5"
    unfolding d5_def using c3 by (intro retire_commit_ok promote_commit_ok)
  have ct': "ct_db ct' = d5" "ct_next ct' = Some (base + 1)"
    using app d1 base d3 by (auto simp: apply_mutation_def Let_def d5_def split: prod.splits)
  have k: "keyed en_id (db_entries d1)" using c1 by (simp add: commit_ok_def db_keys_def)
  have pins: "pinned (cx_now cx) d5 b \<Longrightarrow> pinned (cx_now cx) (ct_db ct) b \<or> nb = Some b" for b
    using pin3[of b] pinned_upsert[OF k, of "cx_now cx" ?i b] pin1[of b] references_cong(3)[of d5 d3 "cx_now cx" b]
    by (auto simp: i d5_def store_simps)
  have "cs_cursor s \<le> base" using ok base' by (auto split: option.splits)
  then show ?thesis
    using ok c5 frame3 base'(2) pins nb ct' by (auto simp: loop_ok_def d5_def store_simps)
qed

lemma commit_one_ok:
  assumes loop: "loop_ok cx avail d0 s ct" and one: "commit_one cx m ct = Inr ct'"
    and av: "\<And>b. mu_op m = Upsert \<Longrightarrow> mu_blob m = Some b \<Longrightarrow> b \<noteq> [] \<Longrightarrow> b \<notin> set (cx_unavailable cx) \<Longrightarrow> b \<in> avail"
  shows "loop_ok cx avail d0 s ct'"
proof -
  define mid where "mid = js_trim (mu_id m)"
  define cur where "cur = read_mutation_entry (mu_entryId m) (ct_db ct)"
  define dec where "dec = decide_entry_mutation
      (map_option (\<lambda>c. \<lparr>cf_revision = me_revision c, cf_lastMutation = me_lastMutation c\<rparr>) cur)
      mid (mu_base m) (mu_op m) (mu_blob m) (cx_forced cx) (cx_now cx)"
  let ?ct1 = "ct\<lparr>ct_seen := mid # ct_seen ct\<rparr>"
  note one' = one[unfolded commit_one_def Let_def, folded mid_def, folded cur_def, folded dec_def]
  show ?thesis
  proof (cases "mid \<in> set (ct_seen ct)")
    case True
    then show ?thesis using one' loop by (auto simp: reject_def intro: loop_ok_same_db)
  next
    case False
    show ?thesis
    proof (cases dec)
      case Idempotent
      then show ?thesis using one' False loop by (auto split: option.splits intro: loop_ok_same_db)
    next
      case (Stale_revision x y)
      then show ?thesis using one' False loop by (auto simp: reject_def intro: loop_ok_same_db)
    next
      case (Apply p rv nb del forced auto bucket)
      note d = decide_applyD[OF Apply[unfolded dec_def]]
      show ?thesis
      proof (cases "check_next_blob cx nb (ct_db ct)")
        case (Inl e)
        then show ?thesis using one' False Apply loop
          by (cases e) (auto simp: reject_def intro: loop_ok_same_db)
      next
        case (Inr d')
        note fr = check_next_blob_frame[OF Inr] and cs = check_next_blob_cases(2)[OF Inr]
        have app: "apply_mutation cx m mid cur rv nb del forced auto bucket (?ct1\<lparr>ct_db := d'\<rparr>) = Inr ct'"
          using one' False Apply Inr by simp
        have pins: "pinned (cx_now cx) d' b = pinned (cx_now cx) (ct_db ct) b" for b
          by (rule references_cong) (simp_all add: fr)
        have loop': "loop_ok cx avail d0 s (?ct1\<lparr>ct_db := d'\<rparr>)"
          using loop check_next_blob_ok[OF _ Inr] by (auto simp: loop_ok_def fr pins)
        have rvp: "0 < rv"
        proof (cases cur)
          case None
          then show ?thesis using d(1-3) by simp
        next
          case (Some c)
          then obtain e where e: "e \<in> set (db_entries (ct_db ct))" "me_revision c = en_revision e"
            by (auto simp: cur_def read_mutation_entry_def to_mutation_entry_def dest: row_of_SomeD)
          then have "0 < me_revision c" using loop by (simp add: loop_ok_def commit_ok_def)
          then show ?thesis using d(1-3) Some by simp
        qed
        show ?thesis
        proof (rule apply_mutation_ok[OF loop' app])
          show "cur = Some c \<Longrightarrow> me_blob c = Some b \<Longrightarrow> current_blob_reference (ct_db (?ct1\<lparr>ct_db := d'\<rparr>)) b" for c b
            using mutation_entry_ref[of "mu_entryId m" "ct_db ct" c b]
            by (simp add: cur_def current_blob_reference_def fr)
          show "nb = Some b \<Longrightarrow> b \<noteq> [] \<Longrightarrow> b \<in> avail \<and> read_blob b (ct_db (?ct1\<lparr>ct_db := d'\<rparr>)) \<noteq> None" for b
            using cs[of b] av[of b] d(4) by (auto simp: fr split: if_splits) (cases "mu_op m"; simp)+
        qed (rule rvp)
      qed
    qed
  qed
qed

lemma commit_all_ok:
  assumes "loop_ok cx avail d0 s ct" "commit_all cx ms ct = Inr ct'"
    and "\<And>m b. m \<in> set ms \<Longrightarrow> mu_op m = Upsert \<Longrightarrow> mu_blob m = Some b \<Longrightarrow> b \<noteq> [] \<Longrightarrow>
           b \<notin> set (cx_unavailable cx) \<Longrightarrow> b \<in> avail"
  shows "loop_ok cx avail d0 s ct'"
  using assms
proof (induction ms arbitrary: ct)
  case Nil
  then show ?case by simp
next
  case (Cons m ms)
  then obtain ct1 where ct1: "commit_one cx m ct = Inr ct1" "commit_all cx ms ct1 = Inr ct'"
    by (auto split: sum.splits)
  have loop1: "loop_ok cx avail d0 s ct1"
    using Cons.prems(1) ct1(1) by (rule commit_one_ok) (rule Cons.prems(3)[of m], simp_all)
  show ?case
  proof (rule Cons.IH[OF loop1 ct1(2)])
    fix m' b
    assume "m' \<in> set ms" "mu_op m' = Upsert" "mu_blob m' = Some b" "b \<noteq> []" "b \<notin> set (cx_unavailable cx)"
    then show "b \<in> avail" by (intro Cons.prems(3)[of m' b]) simp_all
  qed
qed

definition mentioned_blobs :: "mutation list \<Rightarrow> ident set" where
  "mentioned_blobs ms = {b. \<exists>m \<in> set ms. mu_op m = Upsert \<and> mu_blob m = Some b \<and> b \<noteq> []}"

lemma set_upsert_blob_ids: "set (upsert_blob_ids ms) = mentioned_blobs ms"
  unfolding upsert_blob_ids_def js_unique_def mentioned_blobs_def by fastforce

lemma commit_transaction_ok:
  assumes ok: "db_ok (cx_now cx) d" and s: "db_state d = Some s"
    and run: "commit_transaction cx ms d = (Inr r, d')"
  shows "db_ok (cx_now cx) d' \<and> db_jobs d' = db_jobs d \<and>
    (\<exists>s'. db_state d' = Some s' \<and> cs_vaultId s' = cs_vaultId s \<and> cs_cursor s \<le> cs_cursor s') \<and>
    (\<forall>b. b \<noteq> [] \<longrightarrow> pinned (cx_now cx) d' b \<longrightarrow> pinned (cx_now cx) d b \<or>
       (b \<in> mentioned_blobs ms - set (cx_unavailable cx) \<and> cs_vaultId s = ss_vaultId (cx_session cx)))"
proof -
  let ?avail = "mentioned_blobs ms - set (cx_unavailable cx)"
  obtain ct where ct: "commit_all cx ms (commit_start d) = Inr ct"
    and d': "d' = (case ct_next ct of None \<Rightarrow> ct_db ct | Some n \<Rightarrow> save_commit n (cx_now cx) (ct_db ct))"
    using run by (auto simp: commit_transaction_def Let_def split: if_splits sum.splits)
  have "loop_ok cx ?avail d s (commit_start d)"
    using ok s commit_ok_db_ok[OF s] by (simp add: loop_ok_def commit_start_def)
  then have loop: "loop_ok cx ?avail d s ct"
    using ct by (rule commit_all_ok) (auto simp: mentioned_blobs_def)
  show ?thesis
  proof (cases "ct_next ct")
    case None
    then show ?thesis using loop d' commit_ok_db_ok[of "ct_db ct" s] by (auto simp: loop_ok_def)
  next
    case (Some n)
    have "pinned (cx_now cx) d' b = pinned (cx_now cx) (ct_db ct) b" for b
      using Some d' by (intro references_cong) (simp_all add: store_simps)
    moreover have "db_ok (cx_now cx) d'" using loop d' Some commit_ok_saved by (simp add: loop_ok_def)
    ultimately show ?thesis using loop d' Some by (auto simp: loop_ok_def store_simps)
  qed
qed

lemma in_transaction_Inl: "in_transaction op c = (Inl e, c1) \<Longrightarrow> c1 = c"
  by (auto simp: in_transaction_def dest: uow.failure_frame split: prod.splits)

lemma in_transaction_Inr:
  "in_transaction op c = (Inr r, c1) \<Longrightarrow> \<exists>d. op (co_db c) = (Inr r, d) \<and> c1 = c\<lparr>co_db := d\<rparr>"
  by (auto simp: in_transaction_def uow_run_def split: prod.splits sum.splits)

definition commit_context :: "env \<Rightarrow> session \<Rightarrow> mutation list \<Rightarrow> capture_reason option \<Rightarrow> int \<Rightarrow> coordinator \<Rightarrow> commit_env" where
  "commit_context env session ms forced days c =
     \<lparr>cx_session = session, cx_now = ev_clk env 0, cx_retentionMs = days * day_ms, cx_grace = ev_grace env,
      cx_forced = forced,
      cx_unavailable = filter (\<lambda>b. object_exists env (blob_object_key (ss_vaultId session) b) c \<noteq> Inr True)
        (upsert_blob_ids ms),
      cx_uuid = ev_uuid env\<rparr>"

lemma commit_mutations_Inr:
  assumes "commit_mutations env session ms forced c = (Inr r, c')"
  obtains days d where "read_retention_days (co_db c) = Inr days" "upsert_blob_ids ms = [] \<or> ev_storage env = None"
    "commit_transaction (commit_context env session ms forced days c) ms (co_db c) = (Inr r, d)"
    "c' = (if cr_broadcast r = None then c\<lparr>co_db := d\<rparr>
       else schedule_summary_flush (ev_clk env 2) (snd (schedule_next (ev_clk env 1) (c\<lparr>co_db := d\<rparr>))))"
  using assms
  by (auto simp: commit_mutations_def commit_context_def Let_def dest!: in_transaction_Inr
      split: option.splits sum.splits prod.splits if_splits)

lemma commit_mutations_Inl: "commit_mutations env session ms forced c = (Inl e, c') \<Longrightarrow> c' = c"
  by (auto simp: commit_mutations_def Let_def dest: in_transaction_Inl
      split: option.splits sum.splits prod.splits if_splits)

lemma retention_state: "read_retention_days d = Inr days \<Longrightarrow> \<exists>s. db_state d = Some s \<and> days = cs_retentionDays s"
  by (auto simp: read_retention_days_def read_vault_limits_def split: option.splits)

lemma commit_mutations_inv:
  assumes ok: "vault_inv A now v c" and now: "now \<le> ev_clk env 0"
  shows "vault_inv A (ev_clk env 0) v (snd (commit_mutations env session ms forced c))"
proof -
  let ?t = "ev_clk env 0"
  have ok': "vault_inv A ?t v c" using ok now by (rule vault_ok_later)
  obtain res c' where run: "commit_mutations env session ms forced c = (res, c')" by fastforce
  show ?thesis
  proof (cases res)
    case (Inl e)
    then show ?thesis using run commit_mutations_Inl ok' by fastforce
  next
    case (Inr r)
    obtain days d where days: "read_retention_days (co_db c) = Inr days"
      and storage: "upsert_blob_ids ms = [] \<or> ev_storage env = None"
      and tx: "commit_transaction (commit_context env session ms forced days c) ms (co_db c) = (Inr r, d)"
      and c': "c' = (if cr_broadcast r = None then c\<lparr>co_db := d\<rparr>
       else schedule_summary_flush (ev_clk env 2) (snd (schedule_next (ev_clk env 1) (c\<lparr>co_db := d\<rparr>))))"
      using commit_mutations_Inr run Inr by metis
    obtain s where s: "db_state (co_db c) = Some s" "cs_vaultId s = v"
      using retention_state[OF days] ok by (auto simp: vault_inv_def)
    have cx: "cx_now (commit_context env session ms forced days c) = ?t"
      "cx_session (commit_context env session ms forced days c) = session" by (simp_all add: commit_context_def)
    note fin = commit_transaction_ok[OF _ s(1) tx, unfolded cx]
    have d: "db_ok ?t d" "db_jobs d = db_jobs (co_db c)" "\<exists>s'. db_state d = Some s' \<and> cs_vaultId s' = v"
      using fin ok' s by (auto simp: vault_inv_def)
    have obj: "blob_object_key v b \<in> co_objects c" if b: "b \<noteq> []" "pinned ?t d b" for b
    proof (cases "pinned ?t (co_db c) b")
      case True
      then show ?thesis using ok' b by (simp add: vault_inv_def objects_ok_def)
    next
      case False
      then have m: "b \<in> mentioned_blobs ms" "b \<notin> set (cx_unavailable (commit_context env session ms forced days c))"
        "v = ss_vaultId session"
        using fin ok' b s(2) by (auto simp: vault_inv_def)
      then have "upsert_blob_ids ms \<noteq> []" using set_upsert_blob_ids[of ms] by auto
      then show ?thesis using m storage
        by (auto simp: commit_context_def object_exists_def set_upsert_blob_ids split: option.splits)
    qed
    have "vault_inv A ?t v (c\<lparr>co_db := d\<rparr>)"
      using ok' d obj by (auto simp: vault_inv_def objects_ok_def armed_if_def)
    then show ?thesis using run Inr c' by (simp add: schedule_summary_ok schedule_next_ok)
  qed
qed

lemma commit_mutation_inv:
  assumes "vault_inv A now v c" "now \<le> ev_clk env 0"
  shows "vault_inv A (ev_clk env 0) v (snd (commit_mutation env session m forced c))"
  using commit_mutations_inv[OF assms, of session "[m]" forced]
  by (auto simp: commit_mutation_def split: prod.splits sum.splits list.splits batch_result.splits)

section \<open>What a commit does\<close>

lemma read_mutation_entry_frame:
  "db_entries d' = db_entries d \<Longrightarrow> read_mutation_entry e d' = read_mutation_entry e d"
  by (simp add: read_mutation_entry_def)

lemma read_cursor_cong: "db_state d' = db_state d \<Longrightarrow> read_cursor cx d' = read_cursor cx d"
  by (cases "db_state d") (simp_all add: read_cursor_def read_vault_id_def current_cursor_def)

lemma apply_mutation_effect:
  assumes "apply_mutation cx m mid cur rv nb del forced auto bucket ct = Inr ct'"
  obtains base where
    "ct_next ct = Some base \<or> (ct_next ct = None \<and> read_cursor cx (ct_db ct) = Inr base)"
    "ct_next ct' = Some (base + 1)" "ct_results ct' = ct_results ct @ [Accepted mid (base + 1) (mu_entryId m) rv]"
    "ct_response ct' = Some (max_cursor (ct_response ct) (base + 1))"
    "ct_broadcast ct' = Some (max_cursor (ct_broadcast ct) (base + 1))" "ct_seen ct' = ct_seen ct"
    "\<And>e. read_mutation_entry e (ct_db ct') = (if e = mu_entryId m
       then Some \<lparr>me_id = e, me_revision = rv, me_blob = nb, me_metadata = mu_metadata m, me_deleted = del,
                  me_seq = base + 1, me_lastMutation = Some mid\<rparr>
       else read_mutation_entry e (ct_db ct))"
proof -
  obtain d1 k1 where d1: "(case (forced, cur) of
        (Some reason, Some c) \<Rightarrow>
          (snd (insert_entry_version (forced_version cx m (cx_uuid cx (ct_uuids ct)) reason c) (ct_db ct)), Suc (ct_uuids ct))
      | _ \<Rightarrow> (ct_db ct, ct_uuids ct)) = (d1, k1)" by fastforce
  have fr1: "db_entries d1 = db_entries (ct_db ct)" "db_state d1 = db_state (ct_db ct)"
    using d1 by (auto simp: store_simps split: option.splits)
  have rc: "read_cursor cx d1 = read_cursor cx (ct_db ct)"
    using fr1(2) by (rule read_cursor_cong)
  obtain base where base: "(case ct_next ct of Some n \<Rightarrow> Inr n | None \<Rightarrow> read_cursor cx d1) = Inr base"
    using assms d1 by (auto simp: apply_mutation_def split: option.splits sum.splits prod.splits)
  let ?d2 = "upsert_entry (next_entry cx m mid rv nb del (base + 1)) d1"
  obtain d3 k3 where d3: "(if auto then (snd (insert_entry_version (auto_version cx m (cx_uuid cx k1) rv nb bucket) ?d2), Suc k1)
      else (?d2, k1)) = (d3, k3)" by fastforce
  have ct': "ct' = ct\<lparr>ct_db := retire_blob cx (case cur of None \<Rightarrow> None | Some c \<Rightarrow> me_blob c) nb (promote_blob nb d3),
      ct_next := Some (base + 1), ct_response := Some (max_cursor (ct_response ct) (base + 1)),
      ct_broadcast := Some (max_cursor (ct_broadcast ct) (base + 1)),
      ct_results := ct_results ct @ [Accepted mid (base + 1) (mu_entryId m) rv], ct_uuids := k3\<rparr>"
    using assms d1 base d3 by (auto simp: apply_mutation_def Let_def split: prod.splits)
  have "db_entries d3 = db_entries ?d2" using d3 by (auto simp: store_simps split: if_splits)
  then have "read_mutation_entry e (ct_db ct') = read_mutation_entry e ?d2" for e
    by (simp add: ct' read_mutation_entry_def store_simps)
  then have entries: "read_mutation_entry e (ct_db ct') = (if e = mu_entryId m
       then Some \<lparr>me_id = e, me_revision = rv, me_blob = nb, me_metadata = mu_metadata m, me_deleted = del,
                  me_seq = base + 1, me_lastMutation = Some mid\<rparr>
       else read_mutation_entry e (ct_db ct))" for e
    using read_mutation_entry_frame[OF fr1(1)]
    by (simp add: read_mutation_entry_upsert next_entry_def entry_of_input_def to_mutation_entry_def)
  show thesis
  proof (rule that[of base])
    show "ct_next ct = Some base \<or> ct_next ct = None \<and> read_cursor cx (ct_db ct) = Inr base"
      using base rc by (auto split: option.splits)
  qed (simp_all add: entries, simp_all add: ct')
qed

text \<open>The three ways one mutation can go, with the exact effect of each.\<close>

lemma commit_one_cases:
  assumes one: "commit_one cx m ct = Inr ct'"
  defines "mid \<equiv> js_trim (mu_id m)" and "cur \<equiv> read_mutation_entry (mu_entryId m) (ct_db ct)"
  obtains
    (replayed) c where "cur = Some c" "me_lastMutation c = Some mid" "mid \<notin> set (ct_seen ct)"
      "ct' = ct\<lparr>ct_seen := mid # ct_seen ct, ct_response := Some (max_cursor (ct_response ct) (me_seq c)),
         ct_results := ct_results ct @ [Accepted mid (me_seq c) (me_id c) (me_revision c)]\<rparr>"
  | (refused) seen code msg x y where
      "ct' = ct\<lparr>ct_seen := seen, ct_results := ct_results ct @ [Rejected mid (mu_entryId m) code msg x y]\<rparr>"
      "code \<in> {''duplicate_mutation_id'', ''stale_revision'', ''blob_not_found'', ''blob_not_staged''}"
  | (applied) base where
      "(case cur of None \<Rightarrow> 0 | Some c \<Rightarrow> me_revision c) = mu_base m"
      "ct_next ct = Some base \<or> (ct_next ct = None \<and> read_cursor cx (ct_db ct) = Inr base)"
      "ct_next ct' = Some (base + 1)" "ct_results ct' = ct_results ct @ [Accepted mid (base + 1) (mu_entryId m) (mu_base m + 1)]"
      "ct_response ct' = Some (max_cursor (ct_response ct) (base + 1))"
      "ct_broadcast ct' = Some (max_cursor (ct_broadcast ct) (base + 1))"
      "\<And>e. read_mutation_entry e (ct_db ct') = (if e = mu_entryId m
         then Some \<lparr>me_id = e, me_revision = mu_base m + 1, me_blob = (if mu_op m = Delete then None else mu_blob m),
                    me_metadata = mu_metadata m, me_deleted = (mu_op m = Delete), me_seq = base + 1,
                    me_lastMutation = Some mid\<rparr>
         else read_mutation_entry e (ct_db ct))"
proof -
  define dec where "dec = decide_entry_mutation
      (map_option (\<lambda>c. \<lparr>cf_revision = me_revision c, cf_lastMutation = me_lastMutation c\<rparr>) cur)
      mid (mu_base m) (mu_op m) (mu_blob m) (cx_forced cx) (cx_now cx)"
  note one' = one[unfolded commit_one_def Let_def, folded mid_def, folded cur_def, folded dec_def]
  show thesis
  proof (cases "mid \<in> set (ct_seen ct)")
    case True
    then show thesis using one' by (auto simp: reject_def intro!: refused[where seen = "ct_seen ct"])
  next
    case False
    show thesis
    proof (cases dec)
      case Idempotent
      then obtain c where c: "cur = Some c" using one' False by (auto split: option.splits)
      moreover have "me_lastMutation c = Some mid"
        using Idempotent c by (auto simp: dec_def decide_entry_mutation_def Let_def split: if_splits)
      ultimately show thesis using one' False Idempotent by (intro replayed) auto
    next
      case (Stale_revision x y)
      then show thesis using one' False by (auto simp: reject_def intro!: refused[where seen = "mid # ct_seen ct"])
    next
      case (Apply p rv nb del forced auto bucket)
      note d = decide_applyD[OF Apply[unfolded dec_def]]
      show thesis
      proof (cases "check_next_blob cx nb (ct_db ct)")
        case (Inl e)
        obtain code msg where e: "e = (code, msg)" by fastforce
        have "code \<in> {''blob_not_found'', ''blob_not_staged''}"
          using Inl e by (auto simp: check_next_blob_def split: option.splits if_splits)
        then show thesis using one' False Apply Inl e
          by (intro refused[where seen = "mid # ct_seen ct" and code = code and msg = msg]) (auto simp: reject_def)
      next
        case (Inr d')
        have app: "apply_mutation cx m mid cur rv nb del forced auto bucket (ct\<lparr>ct_seen := mid # ct_seen ct, ct_db := d'\<rparr>) = Inr ct'"
          using one' False Apply Inr by simp
        have rc: "read_cursor cx d' = read_cursor cx (ct_db ct)"
          by (rule read_cursor_cong) (rule check_next_blob_frame(3)[OF Inr])
        have prev: "(case cur of None \<Rightarrow> 0 | Some c \<Rightarrow> me_revision c) = mu_base m"
          using d(1,3) by (cases cur) auto
        show thesis
          by (rule apply_mutation_effect[OF app], rule applied[OF prev])
            (auto simp: rc d(2,4,5) read_mutation_entry_frame[OF check_next_blob_frame(1)[OF Inr]])
      qed
    qed
  qed
qed

definition result_key :: "batch_result \<Rightarrow> ident \<times> ident" where
  \<comment> \<open>which mutation a result answers\<close>
  "result_key r = (case r of Accepted i _ e _ \<Rightarrow> (i, e) | Rejected i e _ _ _ _ \<Rightarrow> (i, e))"

lemma mutation_entry_id: "read_mutation_entry e d = Some c \<Longrightarrow> me_id c = e"
  by (auto simp: read_mutation_entry_def to_mutation_entry_def dest: row_of_SomeD)

lemma commit_all_results:
  "commit_all cx ms ct = Inr ct' \<Longrightarrow>
   map result_key (ct_results ct') = map result_key (ct_results ct) @ map (\<lambda>m. (js_trim (mu_id m), mu_entryId m)) ms"
proof (induction ms arbitrary: ct)
  case Nil
  then show ?case by simp
next
  case (Cons m ms)
  then obtain ct1 where ct1: "commit_one cx m ct = Inr ct1" "commit_all cx ms ct1 = Inr ct'"
    by (auto split: sum.splits)
  have "map result_key (ct_results ct1) = map result_key (ct_results ct) @ [(js_trim (mu_id m), mu_entryId m)]"
    using ct1(1)
  proof (cases rule: commit_one_cases)
    case (replayed c)
    then show ?thesis using mutation_entry_id by (simp add: result_key_def)
  next
    case (refused seen code msg x y)
    then show ?thesis by (simp add: result_key_def)
  next
    case (applied base)
    then show ?thesis by (simp add: result_key_def)
  qed
  then show ?case using Cons.IH[OF ct1(2)] by simp
qed

text \<open>The cursors during the loop.\<close>

definition cursors_ok :: "db \<Rightarrow> state_row \<Rightarrow> commit_state \<Rightarrow> bool" where
  "cursors_ok d0 s ct \<longleftrightarrow> ct_broadcast ct = ct_next ct \<and>
     (case ct_next ct of
        None \<Rightarrow> ct_db ct = d0 \<and> (\<forall>r. ct_response ct = Some r \<longrightarrow> 0 \<le> r \<and> r \<le> cs_cursor s)
      | Some n \<Rightarrow> ct_response ct = Some n \<and> cs_cursor s < n)"

lemma mutation_entry_seq:
  "commit_ok now n X d \<Longrightarrow> read_mutation_entry e d = Some c \<Longrightarrow> me_seq c \<le> n"
  by (auto simp: commit_ok_def read_mutation_entry_def to_mutation_entry_def dest: row_of_SomeD)

lemma commit_one_cursors:
  assumes loop: "loop_ok cx avail d0 s ct" and cur: "cursors_ok d0 s ct" and one: "commit_one cx m ct = Inr ct'"
    and s: "0 \<le> cs_cursor s"
  shows "cursors_ok d0 s ct'"
  using one
proof (cases rule: commit_one_cases)
  case (replayed c)
  have "me_seq c \<le> (case ct_next ct of None \<Rightarrow> cs_cursor s | Some n \<Rightarrow> n)"
    using loop replayed(1) by (auto simp: loop_ok_def dest: mutation_entry_seq)
  then show ?thesis using cur s
    unfolding replayed(4) by (auto simp: cursors_ok_def max_cursor_def split: option.splits)
next
  case (refused seen code msg x y)
  then show ?thesis using cur by (simp add: cursors_ok_def split: option.splits)
next
  case (applied base)
  have "cs_cursor s \<le> base \<and> (ct_next ct = None \<longrightarrow> base = cs_cursor s)"
    using applied(2) loop cur
    by (auto simp: loop_ok_def cursors_ok_def read_cursor_def current_cursor_def split: if_splits)
  then show ?thesis using cur s applied(2-)
    by (auto simp: cursors_ok_def max_cursor_def split: option.splits)
qed

lemma commit_all_cursors:
  assumes "loop_ok cx avail d0 s ct" "cursors_ok d0 s ct" "commit_all cx ms ct = Inr ct'" "0 \<le> cs_cursor s"
    and av: "\<And>m b. m \<in> set ms \<Longrightarrow> mu_op m = Upsert \<Longrightarrow> mu_blob m = Some b \<Longrightarrow> b \<noteq> [] \<Longrightarrow>
           b \<notin> set (cx_unavailable cx) \<Longrightarrow> b \<in> avail"
  shows "cursors_ok d0 s ct'"
  using assms
proof (induction ms arbitrary: ct)
  case Nil
  then show ?case by simp
next
  case (Cons m ms)
  then obtain ct1 where ct1: "commit_one cx m ct = Inr ct1" "commit_all cx ms ct1 = Inr ct'"
    by (auto split: sum.splits)
  have loop1: "loop_ok cx avail d0 s ct1"
    using Cons.prems(1) ct1(1) by (rule commit_one_ok) (rule Cons.prems(5)[of m], simp_all)
  have cur1: "cursors_ok d0 s ct1" using Cons.prems(1,2) ct1(1) Cons.prems(4) by (rule commit_one_cursors)
  show ?case
  proof (rule Cons.IH[OF loop1 cur1 ct1(2) Cons.prems(4)])
    fix m' b
    assume "m' \<in> set ms" "mu_op m' = Upsert" "mu_blob m' = Some b" "b \<noteq> []" "b \<notin> set (cx_unavailable cx)"
    then show "b \<in> avail" by (intro Cons.prems(5)[of m' b]) simp_all
  qed
qed

lemma commit_transaction_cursors:
  assumes ok: "db_ok (cx_now cx) d" and s: "db_state d = Some s" "0 \<le> cs_cursor s"
    and run: "commit_transaction cx ms d = (Inr r, d')"
  shows "(cr_broadcast r = None \<longrightarrow> d' = d \<and> cr_cursor r \<le> cs_cursor s) \<and>
    (\<forall>n. cr_broadcast r = Some n \<longrightarrow> cr_cursor r = n \<and> cs_cursor s < n \<and> (\<exists>s'. db_state d' = Some s' \<and> cs_cursor s' = n))"
proof -
  let ?avail = "mentioned_blobs ms - set (cx_unavailable cx)"
  obtain ct where ct: "commit_all cx ms (commit_start d) = Inr ct"
    and d': "d' = (case ct_next ct of None \<Rightarrow> ct_db ct | Some n \<Rightarrow> save_commit n (cx_now cx) (ct_db ct))"
    and r: "cr_broadcast r = ct_broadcast ct"
      "(case ct_response ct of Some n \<Rightarrow> Inr n | None \<Rightarrow> read_cursor cx d') = Inr (cr_cursor r)"
    using run by (auto simp: commit_transaction_def Let_def split: if_splits sum.splits)
  have start: "loop_ok cx ?avail d s (commit_start d)" "cursors_ok d s (commit_start d)"
    using ok s commit_ok_db_ok[OF s(1)] by (simp_all add: loop_ok_def cursors_ok_def commit_start_def)
  have av: "\<And>m b. m \<in> set ms \<Longrightarrow> mu_op m = Upsert \<Longrightarrow> mu_blob m = Some b \<Longrightarrow> b \<noteq> [] \<Longrightarrow>
      b \<notin> set (cx_unavailable cx) \<Longrightarrow> b \<in> ?avail" by (auto simp: mentioned_blobs_def)
  have loop: "loop_ok cx ?avail d s ct" using start(1) ct av by (rule commit_all_ok)
  have cur: "cursors_ok d s ct" using start ct s(2) av by (rule commit_all_cursors)
  show ?thesis
  proof (cases "ct_next ct")
    case None
    then show ?thesis using cur d' r s
      by (auto simp: cursors_ok_def read_cursor_def current_cursor_def split: option.splits if_splits)
  next
    case (Some n)
    then show ?thesis using cur loop d' r by (auto simp: cursors_ok_def loop_ok_def store_simps)
  qed
qed

lemma schedule_frame [store_simps]:
  "db_entries (co_db (schedule_summary_flush t c)) = db_entries (co_db c)"
  "db_versions (co_db (schedule_summary_flush t c)) = db_versions (co_db c)"
  "db_blobs (co_db (schedule_summary_flush t c)) = db_blobs (co_db c)"
  "db_state (co_db (schedule_summary_flush t c)) = db_state (co_db c)"
  "co_objects (schedule_summary_flush t c) = co_objects c"
  "db_entries (co_db (snd (schedule_next t c))) = db_entries (co_db c)"
  "db_versions (co_db (snd (schedule_next t c))) = db_versions (co_db c)"
  "db_blobs (co_db (snd (schedule_next t c))) = db_blobs (co_db c)"
  "db_state (co_db (snd (schedule_next t c))) = db_state (co_db c)"
  "co_objects (snd (schedule_next t c)) = co_objects c"
  by (simp_all add: schedule_summary_flush_def schedule_next_def schedule_at_def Let_def store_simps split: option.splits)

lemma commit_one_state: "commit_one cx m ct = Inr ct' \<Longrightarrow> db_state (ct_db ct') = db_state (ct_db ct)"
  by (auto simp: commit_one_def Let_def reject_def apply_mutation_def store_simps check_next_blob_frame(3)
      split: if_splits mutation_decision.splits option.splits sum.splits prod.splits)

lemma commit_all_single: "commit_all cx [m] ct = commit_one cx m ct"
  by (simp split: sum.splits)

lemma single_commit:
  assumes "commit_mutations env session [m] forced c = (Inr r, c')"
  obtains cx ct s where "commit_one cx m (commit_start (co_db c)) = Inr ct" "cr_results r = ct_results ct"
    "\<And>e. read_mutation_entry e (co_db c') = read_mutation_entry e (ct_db ct)"
    "read_sync_pause (co_db c') = None" "db_state (co_db c') = Some s"
proof -
  obtain days d where days: "read_retention_days (co_db c) = Inr days"
    and tx: "commit_transaction (commit_context env session [m] forced days c) [m] (co_db c) = (Inr r, d)"
    and c': "c' = (if cr_broadcast r = None then c\<lparr>co_db := d\<rparr>
       else schedule_summary_flush (ev_clk env 2) (snd (schedule_next (ev_clk env 1) (c\<lparr>co_db := d\<rparr>))))"
    using assms commit_mutations_Inr by metis
  let ?cx = "commit_context env session [m] forced days c"
  obtain ct where ct: "commit_one ?cx m (commit_start (co_db c)) = Inr ct" "cr_results r = ct_results ct"
    and d: "d = (case ct_next ct of None \<Rightarrow> ct_db ct | Some n \<Rightarrow> save_commit n (cx_now ?cx) (ct_db ct))"
    and np: "read_sync_pause (co_db c) = None"
    using tx unfolding commit_transaction_def commit_all_single
    by (auto simp: Let_def split: if_splits sum.splits)
  obtain s where s: "db_state (co_db c) = Some s" using retention_state[OF days] by auto
  have st: "db_state (ct_db ct) = Some s" using commit_one_state[OF ct(1)] s by (simp add: commit_start_def)
  have same: "db_entries (co_db c') = db_entries d" "db_state (co_db c') = db_state d"
    using c' by (auto simp: store_simps)
  have "db_entries d = db_entries (ct_db ct)" by (simp add: d store_simps split: option.splits)
  then have ents: "read_mutation_entry e (co_db c') = read_mutation_entry e (ct_db ct)" for e
    using same by (intro read_mutation_entry_frame) simp
  obtain s' where s': "db_state (co_db c') = Some s'" "cs_pausedAt s' = cs_pausedAt s"
    using st same by (auto simp: d store_simps split: option.splits)
  then have "read_sync_pause (co_db c') = None" using np s by (simp add: read_sync_pause_None)
  then show thesis using ct ents s'(1) by (intro that)
qed

lemma commit_mutations_healthy:
  assumes "ev_storage env = None" "read_retention_days (co_db c) = Inr days"
  shows "commit_mutations env session ms forced c =
    (case in_transaction (commit_transaction (commit_context env session ms forced days c) ms) c of
       (Inl e, c1) \<Rightarrow> (Inl e, c1)
     | (Inr r, c1) \<Rightarrow> (Inr r, if cr_broadcast r = None then c1
         else schedule_summary_flush (ev_clk env 2) (snd (schedule_next (ev_clk env 1) c1))))"
  using assms by (simp add: commit_mutations_def commit_context_def Let_def split: prod.splits)

lemma commit_replay:
  assumes storage: "ev_storage env = None"
    and state: "db_state (co_db c) = Some s" "read_sync_pause (co_db c) = None"
    and entry: "read_mutation_entry (mu_entryId m) (co_db c) = Some en" "me_lastMutation en = Some (js_trim (mu_id m))"
  shows "commit_mutations env session [m] forced c =
    (Inr \<lparr>cr_cursor = max 0 (me_seq en),
          cr_results = [Accepted (js_trim (mu_id m)) (me_seq en) (mu_entryId m) (me_revision en)],
          cr_broadcast = None\<rparr>, c)"
proof -
  have days: "read_retention_days (co_db c) = Inr (cs_retentionDays s)"
    using state by (simp add: read_retention_days_def read_vault_limits_def)
  have "commit_transaction (commit_context env session [m] forced (cs_retentionDays s) c) [m] (co_db c) =
    (Inr \<lparr>cr_cursor = max 0 (me_seq en),
          cr_results = [Accepted (js_trim (mu_id m)) (me_seq en) (mu_entryId m) (me_revision en)],
          cr_broadcast = None\<rparr>, co_db c)"
    using state entry mutation_entry_id[OF entry(1)] decide_retry_idempotent
    by (simp add: commit_transaction_def commit_one_def commit_start_def Let_def max_cursor_def)
  then have "in_transaction (commit_transaction (commit_context env session [m] forced (cs_retentionDays s) c) [m]) c =
    (Inr \<lparr>cr_cursor = max 0 (me_seq en),
          cr_results = [Accepted (js_trim (mu_id m)) (me_seq en) (mu_entryId m) (me_revision en)],
          cr_broadcast = None\<rparr>, c)"
    by (simp add: in_transaction_def uow_run_def)
  then show ?thesis by (simp add: commit_mutations_healthy[OF storage days])
qed

section \<open>Properties of the commit\<close>

text \<open>
  A commit keeps the vault consistent: whatever the batch, the session and the state of the
  object storage, afterwards the storage counter equals the sizes of the blob rows, sequence
  numbers are distinct and at most the cursor, every blob referenced by an entry is live, and
  the ciphertext of every blob an entry or unexpired history refers to is in the storage; a
  commit never makes an entry point at ciphertext that is not there.
\<close>

theorem commit_keeps_vault_ok:
  assumes "vault_ok now v c" "now \<le> ev_clk env 0"
  shows "vault_ok (ev_clk env 0) v (snd (commit_mutations env session ms forced c))"
  using assms by (rule commit_mutations_inv)

text \<open>
  The cursor a client is told: when nothing was applied, nothing is broadcast, the vault is
  unchanged and the answer's cursor is not ahead of the stored one; when something was applied,
  the broadcast cursor, the answer's cursor and the stored cursor agree, and it is larger than
  the cursor before.
\<close>

theorem commit_cursor_advances:
  assumes ok: "vault_ok now v c" "now \<le> ev_clk env 0"
    and run: "commit_mutations env session ms forced c = (Inr r, c')"
    and old: "current_cursor (co_db c) = Inr old"
  shows "(cr_broadcast r = None \<longrightarrow> c' = c \<and> cr_cursor r \<le> old) \<and>
    (\<forall>n. cr_broadcast r = Some n \<longrightarrow> cr_cursor r = n \<and> old < n \<and> current_cursor (co_db c') = Inr n)"
proof -
  obtain days d where days: "read_retention_days (co_db c) = Inr days"
    and tx: "commit_transaction (commit_context env session ms forced days c) ms (co_db c) = (Inr r, d)"
    and c': "c' = (if cr_broadcast r = None then c\<lparr>co_db := d\<rparr>
       else schedule_summary_flush (ev_clk env 2) (snd (schedule_next (ev_clk env 1) (c\<lparr>co_db := d\<rparr>))))"
    using run commit_mutations_Inr by metis
  obtain s where s: "db_state (co_db c) = Some s" "cs_cursor s = old"
    using old by (auto simp: current_cursor_def split: option.splits)
  have "db_ok (ev_clk env 0) (co_db c)" using vault_ok_later[OF ok] by (simp add: vault_inv_def)
  moreover from this s have "0 \<le> cs_cursor s" by (simp add: db_ok_def seqs_ok_def)
  ultimately have fin: "(cr_broadcast r = None \<longrightarrow> d = co_db c \<and> cr_cursor r \<le> cs_cursor s) \<and>
    (\<forall>n. cr_broadcast r = Some n \<longrightarrow> cr_cursor r = n \<and> cs_cursor s < n \<and> (\<exists>s'. db_state d = Some s' \<and> cs_cursor s' = n))"
    using tx s(1) by (intro commit_transaction_cursors[where cx = "commit_context env session ms forced days c" and ms = ms])
      (simp_all add: commit_context_def)
  then show ?thesis using c' s by (auto simp: current_cursor_def store_simps)
qed

text \<open>
  C13. The effect of one mutation, decided by optimistic concurrency: exactly one result is
  appended, no other entry changes, a rejected mutation changes nothing, and an accepted one
  either replays the mutation that wrote the entry last, which changes nothing, or had the
  entry's current revision as its base and writes exactly its payload at the next revision.
\<close>

theorem commit_one_effect:
  assumes one: "commit_one cx m ct = Inr ct'"
  shows "(\<forall>e. e \<noteq> mu_entryId m \<longrightarrow> read_mutation_entry e (ct_db ct') = read_mutation_entry e (ct_db ct)) \<and>
    (\<exists>res. ct_results ct' = ct_results ct @ [res] \<and>
      (case res of
         Rejected i e _ _ _ _ \<Rightarrow> i = js_trim (mu_id m) \<and> e = mu_entryId m \<and>
           read_mutation_entry e (ct_db ct') = read_mutation_entry e (ct_db ct)
       | Accepted i cursor e revision \<Rightarrow> i = js_trim (mu_id m) \<and> e = mu_entryId m \<and>
           (\<exists>en. read_mutation_entry e (ct_db ct') = Some en \<and> me_lastMutation en = Some i \<and>
              me_seq en = cursor \<and> me_revision en = revision \<and>
              (read_mutation_entry e (ct_db ct) = Some en \<or>
               (case read_mutation_entry e (ct_db ct) of None \<Rightarrow> 0 | Some old \<Rightarrow> me_revision old) = mu_base m \<and>
               revision = mu_base m + 1 \<and> me_metadata en = mu_metadata m \<and>
               me_deleted en = (mu_op m = Delete) \<and>
               me_blob en = (if mu_op m = Delete then None else mu_blob m)))))"
  using one
proof (cases rule: commit_one_cases)
  case (replayed c)
  then show ?thesis using mutation_entry_id[OF replayed(1)] by simp
next
  case (refused seen code msg x y)
  then show ?thesis by simp
next
  case (applied base)
  then show ?thesis by simp
qed

text \<open>
  The results of a batch answer its mutations one to one and in order, whatever their fate;
  the batch restore relies on this when it writes the results back by position.
\<close>

theorem commit_results_in_order:
  assumes "commit_mutations env session ms forced c = (Inr r, c')"
  shows "map result_key (cr_results r) = map (\<lambda>m. (js_trim (mu_id m), mu_entryId m)) ms"
proof -
  obtain days d where tx: "commit_transaction (commit_context env session ms forced days c) ms (co_db c) = (Inr r, d)"
    using assms commit_mutations_Inr by metis
  then obtain ct where "commit_all (commit_context env session ms forced days c) ms (commit_start (co_db c)) = Inr ct"
    "cr_results r = ct_results ct"
    by (auto simp: commit_transaction_def Let_def split: if_splits sum.splits)
  then show ?thesis using commit_all_results by (fastforce simp: commit_start_def)
qed

text \<open>
  A commit is atomic: an error of any kind (storage, pause, foreign vault, missing state)
  leaves the whole coordinator unchanged; and while the vault is paused every commit is refused.
\<close>

theorem commit_error_is_atomic:
  "(fst (commit_mutations env session ms forced c) = Inl e \<longrightarrow> snd (commit_mutations env session ms forced c) = c) \<and>
   (read_sync_pause (co_db c) \<noteq> None \<and> ev_storage env = None \<longrightarrow>
      commit_mutations env session ms forced c = (Inl (AppError ''sync_paused'' []), c))"
proof -
  have "commit_mutations env session ms forced c = (Inl (AppError ''sync_paused'' []), c)"
    if p: "read_sync_pause (co_db c) \<noteq> None" and st: "ev_storage env = None"
  proof -
    obtain s where "db_state (co_db c) = Some s"
      using p by (cases "db_state (co_db c)") (auto simp: read_sync_pause_def)
    then show ?thesis using p st
      by (simp add: commit_mutations_def commit_transaction_def in_transaction_def uow_run_def
          read_retention_days_def read_vault_limits_def Let_def)
  qed
  then show ?thesis using commit_mutations_Inl by (metis prod.collapse)
qed

text \<open>
  C14. Retrying is safe: when a mutation was accepted and the client, which may not have seen the
  answer, sends it again before anybody else writes the entry, the retry is accepted with the
  same cursor and revision, changes nothing and broadcasts nothing.
\<close>

theorem commit_retry_is_idempotent:
  assumes first: "commit_mutations env session [m] forced c = (Inr r, c')"
    and accepted: "cr_results r = [Accepted i cursor e revision]" and storage: "ev_storage env' = None"
  shows "commit_mutations env' session' [m] forced' c' =
    (Inr \<lparr>cr_cursor = max 0 cursor, cr_results = [Accepted i cursor e revision], cr_broadcast = None\<rparr>, c')"
proof -
  obtain cx ct s where ct: "commit_one cx m (commit_start (co_db c)) = Inr ct" "cr_results r = ct_results ct"
    "\<And>e. read_mutation_entry e (co_db c') = read_mutation_entry e (ct_db ct)"
    "read_sync_pause (co_db c') = None" "db_state (co_db c') = Some s"
    using single_commit[OF first] by metis
  have "\<exists>en. read_mutation_entry (mu_entryId m) (co_db c') = Some en \<and> me_lastMutation en = Some (js_trim (mu_id m)) \<and>
      i = js_trim (mu_id m) \<and> me_seq en = cursor \<and> e = mu_entryId m \<and> me_revision en = revision"
    using ct(1)
  proof (cases rule: commit_one_cases)
    case (replayed en)
    then show ?thesis using accepted ct(2,3) mutation_entry_id[OF replayed(1)] by (auto simp: commit_start_def)
  next
    case (refused seen code msg x y)
    then show ?thesis using accepted ct(2) by (simp add: commit_start_def)
  next
    case (applied base)
    then show ?thesis using accepted ct(2,3) by (simp add: commit_start_def)
  qed
  then show ?thesis using commit_replay[OF storage ct(5,4)] by auto
qed

text \<open>
  Deleting an entry, or restoring one of its versions, never loses the state it replaces:
  the content, metadata and revision from before are kept as a history version of that entry for
  the retention period, provided the random version id is fresh.
\<close>

theorem forced_history_is_captured:
  assumes one: "commit_one cx m ct = Inr ct'" and applied: "ct_next ct' \<noteq> ct_next ct"
    and cur: "read_mutation_entry (mu_entryId m) (ct_db ct) = Some old"
    and forced: "(if mu_op m = Delete then Some Before_delete else cx_forced cx) = Some reason"
    and fresh: "cx_uuid cx (ct_uuids ct) \<notin> ve_id ` set (db_versions (ct_db ct))"
  shows "\<exists>v \<in> set (db_versions (ct_db ct')). ve_entryId v = mu_entryId m \<and> ve_blob v = me_blob old \<and>
      ve_metadata v = me_metadata old \<and> ve_sourceRevision v = me_revision old \<and> ve_reason v = reason \<and>
      ve_op v = (if me_deleted old then Delete else Upsert) \<and> ve_capturedAt v = cx_now cx \<and>
      ve_expiresAt v = cx_now cx + cx_retentionMs cx"
proof -
  obtain p rv nb del fo auto bucket d' where dec: "decide_entry_mutation
      (map_option (\<lambda>c. \<lparr>cf_revision = me_revision c, cf_lastMutation = me_lastMutation c\<rparr>) (Some old))
      (js_trim (mu_id m)) (mu_base m) (mu_op m) (mu_blob m) (cx_forced cx) (cx_now cx)
      = Apply p rv nb del fo auto bucket"
    and chk: "check_next_blob cx nb (ct_db ct) = Inr d'"
    and app: "apply_mutation cx m (js_trim (mu_id m)) (Some old) rv nb del fo auto bucket
      (ct\<lparr>ct_seen := js_trim (mu_id m) # ct_seen ct, ct_db := d'\<rparr>) = Inr ct'"
    using one applied cur
    by (auto simp: commit_one_def Let_def reject_def split: if_splits mutation_decision.splits sum.splits)
  let ?v = "forced_version cx m (cx_uuid cx (ct_uuids ct)) reason old"
  have "fo = Some reason" using decide_applyD(6)[OF dec] forced by simp
  moreover have "db_versions d' = db_versions (ct_db ct)" using chk by (rule check_next_blob_frame)
  moreover have "\<not> auto" using decide_applyD(7)[OF dec] calculation(1) by simp
  moreover have "?v \<in> set (db_versions (snd (insert_entry_version ?v d')))"
    using fresh calculation(2) by (auto simp: insert_entry_version_def version_conflict_def forced_version_def)
  ultimately have "?v \<in> set (db_versions (ct_db ct'))"
    using app by (auto simp: apply_mutation_def Let_def store_simps split: option.splits sum.splits)
  then show ?thesis by (rule bexI[rotated]) (simp add: forced_version_def)
qed

section \<open>Witnesses\<close>

definition example_session :: session where
  "example_session = \<lparr>ss_accessVersion = None, ss_userId = ''u'', ss_localVaultId = ''l'', ss_vaultId = ''v'',
     ss_displayName = '''', ss_wantsStorageStatus = False, ss_wantsPresence = False,
     ss_presenceEntryId = None, ss_presenceWatch = []\<rparr>"

definition example_mutation :: mutation where
  "example_mutation = \<lparr>mu_id = ''m2'', mu_entryId = ''e'', mu_op = Delete, mu_base = 1, mu_blob = None,
     mu_metadata = ''n''\<rparr>"

theorem commit_keeps_vault_ok_witness:
  "vault_ok 10 ''v'' (snd (commit_mutations example_env example_session [example_mutation] None example_vault))"
  using commit_keeps_vault_ok[OF example_vault_ok[of 10], of example_env] by simp

lemma example_commit:
  "fst (commit_mutations example_env example_session [example_mutation] None example_vault)
   = Inr \<lparr>cr_cursor = 2, cr_results = [Accepted ''m2'' 2 ''e'' 2], cr_broadcast = Some 2\<rparr>"
  by code_simp

theorem commit_cursor_advances_witness:
  "current_cursor (co_db (snd (commit_mutations example_env example_session [example_mutation] None example_vault))) = Inr 2"
proof -
  have run: "commit_mutations example_env example_session [example_mutation] None example_vault =
      (Inr \<lparr>cr_cursor = 2, cr_results = [Accepted ''m2'' 2 ''e'' 2], cr_broadcast = Some 2\<rparr>,
       snd (commit_mutations example_env example_session [example_mutation] None example_vault))"
    using example_commit by (metis prod.collapse)
  have old: "current_cursor (co_db example_vault) = Inr 1" by (simp add: current_cursor_def example_rows)
  from commit_cursor_advances[OF example_vault_ok[of 10] _ run old] show ?thesis by simp
qed

theorem commit_results_in_order_witness:
  "map result_key [Accepted ''m2'' 2 ''e'' 2] = map (\<lambda>m. (js_trim (mu_id m), mu_entryId m)) [example_mutation]"
proof -
  have run: "commit_mutations example_env example_session [example_mutation] None example_vault =
      (Inr \<lparr>cr_cursor = 2, cr_results = [Accepted ''m2'' 2 ''e'' 2], cr_broadcast = Some 2\<rparr>,
       snd (commit_mutations example_env example_session [example_mutation] None example_vault))"
    using example_commit by (metis prod.collapse)
  from commit_results_in_order[OF run] show ?thesis by simp
qed

theorem commit_retry_is_idempotent_witness:
  "let c' = snd (commit_mutations example_env example_session [example_mutation] None example_vault)
   in commit_mutations example_env example_session [example_mutation] None c' =
      (Inr \<lparr>cr_cursor = 2, cr_results = [Accepted ''m2'' 2 ''e'' 2], cr_broadcast = None\<rparr>, c')"
proof -
  have run: "commit_mutations example_env example_session [example_mutation] None example_vault =
      (Inr \<lparr>cr_cursor = 2, cr_results = [Accepted ''m2'' 2 ''e'' 2], cr_broadcast = Some 2\<rparr>,
       snd (commit_mutations example_env example_session [example_mutation] None example_vault))"
    using example_commit by (metis prod.collapse)
  from commit_retry_is_idempotent[OF run, of "''m2''" 2 "''e''" 2 example_env] show ?thesis by (simp add: Let_def)
qed

definition example_context :: commit_env where
  "example_context = commit_context example_env example_session [example_mutation] None 1 example_vault"

definition example_committed :: "coord_error + commit_state" where
  "example_committed = commit_one example_context example_mutation (commit_start example_db)"

lemma example_committed_next: "(case example_committed of Inl _ \<Rightarrow> None | Inr ct \<Rightarrow> ct_next ct) = Some 2"
  by code_simp

theorem commit_one_effect_witness:
  "\<exists>ct'. example_committed = Inr ct' \<and> (\<exists>res. ct_results ct' = [res])"
proof -
  obtain ct' where one: "example_committed = Inr ct'" using example_committed_next by (auto split: sum.splits)
  from commit_one_effect[OF one[unfolded example_committed_def]] one show ?thesis
    by (auto simp: commit_start_def)
qed

theorem forced_history_is_captured_witness:
  "\<exists>ct'. example_committed = Inr ct' \<and>
     (\<exists>v \<in> set (db_versions (ct_db ct')). ve_entryId v = ''e'' \<and> ve_blob v = Some ''b'' \<and> ve_reason v = Before_delete)"
proof -
  obtain ct' where one: "example_committed = Inr ct'" and nx: "ct_next ct' = Some 2"
    using example_committed_next by (auto split: sum.splits)
  obtain old where old: "read_mutation_entry ''e'' example_db = Some old" "me_blob old = Some ''b''"
    by (simp add: read_mutation_entry_def example_rows row_of_Cons to_mutation_entry_def)
  from forced_history_is_captured[OF one[unfolded example_committed_def], of old Before_delete] nx old one
  show ?thesis by (auto simp: commit_start_def example_mutation_def example_rows)
qed

definition example_paused :: coordinator where
  "example_paused = on_db (pause_sync 5 ''manual: backup'') example_vault"

lemma example_paused_reason: "read_sync_pause (co_db example_paused) = Some \<lparr>sp_pausedAt = 5, sp_reason = ''manual: backup''\<rparr>"
  by (simp add: example_paused_def read_sync_pause_def store_simps example_rows)

theorem commit_error_is_atomic_witness:
  "commit_mutations example_env example_session [example_mutation] None example_paused
   = (Inl (AppError ''sync_paused'' []), example_paused)"
  using commit_error_is_atomic[of example_env example_session "[example_mutation]" None example_paused]
  by (simp add: example_paused_reason)

end
