(* ===== verification/Entry_Service.thy ===== *)
theory Entry_Service
  imports Mutation_Service
begin

text \<open>
  \<open>services/entry-service.ts\<close>: the three listings, restoring versions, and purging deleted
  entries. Each page of a listing is cut from one row more than it holds.
\<close>

definition max_history_batch :: int where "max_history_batch = 100"
definition max_deleted_entries_batch :: int where "max_deleted_entries_batch = 100"
definition max_entry_state_batch :: int where "max_entry_state_batch = 500"

section \<open>Listings\<close>

record states_query =
  sq_since :: int
  sq_target :: "int option"
  sq_after :: "(int \<times> ident) option"
  sq_limit :: int
  sq_entryIds :: "ident list option"

record states_page =
  sg_target :: int
  sg_total :: int
  sg_hasMore :: bool
  sg_nextAfter :: "(int \<times> ident) option"
  sg_entries :: "entry_state list"

definition validate_cursor_range :: "int \<Rightarrow> (int \<times> ident) option \<Rightarrow> int \<Rightarrow> int \<Rightarrow> coord_error + unit" where
  "validate_cursor_range since after target current =
     (if since > current
      then Inl (RequestError ''cursor_ahead_of_server''
        (''Sync was paused because this device'' @ [CHR 0x27] @ ''s sync history no longer matches the remote vault. To resume syncing, disconnect and reconnect the remote vault in Synch settings.''))
      else if target < since \<or> target > current
      then Inl (RequestError ''invalid_cursor_range''
        (''Entry-state cursor range must satisfy sinceCursor <= targetCursor <= currentCursor ('' @
         show_num since @ '' <= '' @ show_num target @ '' <= '' @ show_num current @ '').''))
      else case after of
        None \<Rightarrow> Inr ()
      | Some (seq, _) \<Rightarrow>
          if seq \<le> since \<or> seq > target
          then Inl (RequestError ''invalid_cursor_range''
            (''Entry-state page cursor '' @ show_num seq @ '' must be within ('' @ show_num since @ '', '' @
             show_num target @ ''].''))
          else Inr ())"

definition present_state :: "entry_state \<Rightarrow> entry_state" where
  \<comment> \<open>\<open>blobSize: entry.deleted ? null : entry.blob_size ?? null\<close>\<close>
  "present_state e = e\<lparr>es_blobSize := (if es_deleted e then None else es_blobSize e)\<rparr>"

definition entry_states_page :: "states_query \<Rightarrow> coordinator \<Rightarrow> coord_error + states_page" where
  "entry_states_page q c =
     (let limit = min (sq_limit q) max_entry_state_batch in
      case current_cursor (co_db c) of
        Inl e \<Rightarrow> Inl e
      | Inr current \<Rightarrow>
          let target = (case sq_target q of None \<Rightarrow> current | Some t \<Rightarrow> t) in
          (case validate_cursor_range (sq_since q) (sq_after q) target current of
             Inl e \<Rightarrow> Inl e
           | Inr _ \<Rightarrow>
               let page = cut_page limit
                     (list_entry_states (sq_since q) target (sq_entryIds q) (sq_after q) (limit + 1) (co_db c))
               in Inr \<lparr>sg_target = target,
                    sg_total = count_entry_states (sq_since q) target (sq_entryIds q) (co_db c),
                    sg_hasMore = snd page, sg_nextAfter = next_key state_key page,
                    sg_entries = map present_state (fst page)\<rparr>))"

definition retention_start :: "env \<Rightarrow> coordinator \<Rightarrow> coord_error + millis" where
  "retention_start env c =
     (case read_retention_days (co_db c) of Inl e \<Rightarrow> Inl e | Inr days \<Rightarrow> Inr (ev_clk env 0 - days * day_ms))"

definition deleted_entries_page ::
  "env \<Rightarrow> (millis \<times> ident) option \<Rightarrow> int \<Rightarrow> coordinator \<Rightarrow>
   coord_error + (deleted_entry list \<times> bool \<times> (millis \<times> ident) option)" where
  "deleted_entries_page env before messageLimit c =
     (case retention_start env c of
        Inl e \<Rightarrow> Inl e
      | Inr start \<Rightarrow>
          let limit = min messageLimit max_deleted_entries_batch;
              page = cut_page limit (list_deleted_entries start before (limit + 1) (co_db c))
          in Inr (fst page, snd page, next_key deleted_entry_key page))"

definition entry_versions_page ::
  "env \<Rightarrow> ident \<Rightarrow> (millis \<times> ident) option \<Rightarrow> int \<Rightarrow> coordinator \<Rightarrow>
   coord_error + (version_row list \<times> bool \<times> (millis \<times> ident) option)" where
  "entry_versions_page env entryId before messageLimit c =
     (case retention_start env c of
        Inl e \<Rightarrow> Inl e
      | Inr start \<Rightarrow>
          let limit = min messageLimit max_history_batch;
              page = cut_page limit (list_entry_versions entryId start before (limit + 1) (co_db c))
          in if fst page = [] \<and> read_entry entryId (co_db c) = None
             then Inl (AppError ''not_found'' [(''message'', DStr ''entry history not found'')])
             else Inr (fst page, snd page, next_key version_key page))"

section \<open>Restoring versions\<close>

record restore =
  rs_entryId :: ident
  rs_versionId :: ident
  rs_base :: int
  rs_op :: op_type
  rs_blob :: "ident option"
  rs_metadata :: string

datatype restore_result =
    Restore_accepted ident ident int int int \<comment> \<open>entry, version, restored revision, cursor, revision\<close>
  | Restore_rejected ident ident string string "int option" "int option"

definition restore_mutation :: "ident \<Rightarrow> restore \<Rightarrow> mutation" where
  "restore_mutation mutationId r =
     \<lparr>mu_id = mutationId, mu_entryId = rs_entryId r, mu_op = rs_op r, mu_base = rs_base r,
      mu_blob = rs_blob r, mu_metadata = rs_metadata r\<rparr>"

definition after_restore_reads :: "nat \<Rightarrow> env \<Rightarrow> env" where
  \<comment> \<open>the commit reads the clock and draws ids after the restore's own\<close>
  "after_restore_reads k env = (later_clock env)\<lparr>ev_uuid := \<lambda>j. ev_uuid env (k + j)\<rparr>"

definition check_restore :: "millis \<Rightarrow> restore \<Rightarrow> db \<Rightarrow> (string \<times> string \<times> (int \<times> int) option) + version_row" where
  \<comment> \<open>the checks shared by both restores: code, message, revisions\<close>
  "check_restore start r d =
     (case read_entry (rs_entryId r) d of
        None \<Rightarrow> Inl (''not_found'', ''entry not found'', None)
      | Some current \<Rightarrow>
          (case read_entry_version (rs_entryId r) (rs_versionId r) start d of
             None \<Rightarrow> Inl (''not_found'', ''requested version was not found'', None)
           | Some target \<Rightarrow>
               if \<not> is_current_revision (ce_revision current) (rs_base r)
               then Inl (''stale_revision'',
                 ''expected base revision '' @ show_num (ce_revision current) @ '' but received '' @ show_num (rs_base r),
                 Some (ce_revision current, rs_base r))
               else if \<not> is_restore_payload_compatible (ve_op target) (ve_blob target) (rs_op r) (rs_blob r)
               then Inl (''version_mismatch'', ''restore payload does not match the requested version'', None)
               else Inr target))"

definition restore_entry_version ::
  "env \<Rightarrow> session \<Rightarrow> restore \<Rightarrow> coordinator \<Rightarrow> (coord_error + (restore_result \<times> int option)) \<times> coordinator" where
  "restore_entry_version env session r c =
     (case retention_start env c of
        Inl e \<Rightarrow> (Inl e, c)
      | Inr start \<Rightarrow>
          (case check_restore start r (co_db c) of
             Inl (code, msg, None) \<Rightarrow> (Inl (AppError code [(''message'', DStr msg)]), c)
           | Inl (code, msg, Some (expected, received)) \<Rightarrow>
               (Inl (AppError code [(''expectedBaseRevision'', DNum expected), (''receivedBaseRevision'', DNum received)]), c)
           | Inr target \<Rightarrow>
               (case commit_mutation (after_restore_reads 1 env) session (restore_mutation (ev_uuid env 0) r)
                       (Some Before_restore) c of
                  (Inl e, c1) \<Rightarrow> (Inl e, c1)
                | (Inr (Commit_rejected code msg _ _, _), c1) \<Rightarrow> (Inl (AppError code [(''message'', DStr msg)]), c1)
                | (Inr (Commit_accepted cursor _ revision, broadcast), c1) \<Rightarrow>
                    (Inr (Restore_accepted (rs_entryId r) (rs_versionId r) (ve_sourceRevision target) cursor revision,
                       broadcast), c1))))"

record restore_plan =
  rp_results :: "restore_result list"
  rp_indexes :: "nat list" \<comment> \<open>\<open>mutationIndexes\<close>\<close>
  rp_revisions :: "int list" \<comment> \<open>\<open>restoredFromRevisions\<close>\<close>
  rp_mutations :: "mutation list"

definition plan_restore :: "env \<Rightarrow> millis \<Rightarrow> db \<Rightarrow> restore \<Rightarrow> restore_plan \<Rightarrow> restore_plan" where
  "plan_restore env start d r p =
     (case check_restore start r d of
        Inl (code, msg, revs) \<Rightarrow>
          p\<lparr>rp_results := rp_results p @ [Restore_rejected (rs_entryId r) (rs_versionId r) code msg
              (map_option fst revs) (map_option snd revs)]\<rparr>
      | Inr target \<Rightarrow>
          p\<lparr>rp_indexes := rp_indexes p @ [length (rp_results p)],
            rp_revisions := rp_revisions p @ [ve_sourceRevision target],
            rp_results := rp_results p @ [Restore_rejected (rs_entryId r) (rs_versionId r)
              ''restore_commit_pending'' ''entry version restore has not been committed'' None None],
            rp_mutations := rp_mutations p @ [restore_mutation (ev_uuid env (length (rp_mutations p))) r]\<rparr>)"

definition settle_restore :: "restore list \<Rightarrow> restore_plan \<Rightarrow> nat \<times> batch_result \<Rightarrow> restore_result list \<Rightarrow> restore_result list" where
  \<comment> \<open>the body of the last loop of \<open>restoreEntryVersions\<close>\<close>
  "settle_restore restores p ir results =
     (let (i, result) = ir in
      if i < length (rp_indexes p) \<and> rp_indexes p ! i < length restores
      then let k = rp_indexes p ! i; r = restores ! k in
        results[k := (case result of
            Accepted _ cursor _ revision \<Rightarrow>
              Restore_accepted (rs_entryId r) (rs_versionId r)
                (if i < length (rp_revisions p) then rp_revisions p ! i else rs_base r) cursor revision
          | Rejected _ _ code msg expected received \<Rightarrow>
              Restore_rejected (rs_entryId r) (rs_versionId r) code msg expected received)]
      else results)"

definition restore_entry_versions ::
  "env \<Rightarrow> session \<Rightarrow> restore list \<Rightarrow> coordinator \<Rightarrow>
   (coord_error + (int \<times> restore_result list \<times> int option)) \<times> coordinator" where
  "restore_entry_versions env session restores c =
     (case retention_start env c of
        Inl e \<Rightarrow> (Inl e, c)
      | Inr start \<Rightarrow>
          let p = fold (plan_restore env start (co_db c)) restores
                \<lparr>rp_results = [], rp_indexes = [], rp_revisions = [], rp_mutations = []\<rparr>
          in if rp_mutations p = []
             then (case current_cursor (co_db c) of
                 Inl e \<Rightarrow> (Inl e, c)
               | Inr cursor \<Rightarrow> (Inr (cursor, rp_results p, None), c))
             else case commit_mutations (after_restore_reads (length (rp_mutations p)) env) session
                         (rp_mutations p) (Some Before_restore) c of
                 (Inl e, c1) \<Rightarrow> (Inl e, c1)
               | (Inr r, c1) \<Rightarrow>
                   (Inr (cr_cursor r,
                      fold (settle_restore restores p) (List.enumerate 0 (cr_results r)) (rp_results p),
                      cr_broadcast r), c1))"

section \<open>Purging deleted entries\<close>

datatype purge_result =
    Purge_ok ident
  | Purge_rejected ident string string "int option"

definition purge_one :: "millis \<Rightarrow> ident \<times> int \<Rightarrow> db \<Rightarrow> (coord_error + (purge_result \<times> ident list)) \<times> db" where
  \<comment> \<open>the transaction of one entry\<close>
  "purge_one start entry d =
     (let (entryId, revision) = entry in
      if read_sync_pause d \<noteq> None then (Inl (AppError ''sync_paused'' []), d)
      else case decide_deleted_entry_purge
             (map_option (\<lambda>c. (me_revision c, me_deleted c)) (read_mutation_entry entryId d))
             revision (has_restorable_history entryId start d) of
        Purge_not_found \<Rightarrow> (Inr (Purge_rejected entryId ''not_found'' ''entry not found'' None, []), d)
      | Purge_not_deleted \<Rightarrow> (Inr (Purge_rejected entryId ''not_deleted'' ''entry is not deleted'' None, []), d)
      | Purge_stale expected \<Rightarrow>
          (Inr (Purge_rejected entryId ''stale_revision''
             (''expected revision '' @ show_num expected @ '' but received '' @ show_num revision) (Some expected), []), d)
      | Purge_no_history \<Rightarrow>
          (Inr (Purge_rejected entryId ''no_history'' ''deleted entry has no restorable history'' None, []), d)
      | Purge_accepted \<Rightarrow> (Inr (Purge_ok entryId, list_blob_ids entryId d), delete_entry_versions entryId d))"

fun purge_all ::
  "millis \<Rightarrow> (ident \<times> int) list \<Rightarrow> coordinator \<Rightarrow> (coord_error + (purge_result list \<times> ident list)) \<times> coordinator" where
  "purge_all start [] c = (Inr ([], []), c)"
| "purge_all start (entry # entries) c =
     (case in_transaction (purge_one start entry) c of
        (Inl e, c1) \<Rightarrow> (Inl e, c1)
      | (Inr (result, blobs), c1) \<Rightarrow>
          (case purge_all start entries c1 of
             (Inl e, c2) \<Rightarrow> (Inl e, c2)
           | (Inr (results, others), c2) \<Rightarrow> (Inr (result # results, blobs @ others), c2)))"

definition purge_deleted_entries ::
  "env \<Rightarrow> session \<Rightarrow> (ident \<times> int) list \<Rightarrow> coordinator \<Rightarrow>
   (coord_error + (purge_result list \<times> ident list)) \<times> coordinator" where
  "purge_deleted_entries env session entries c =
     (case retention_start env c of
        Inl e \<Rightarrow> (Inl e, c)
      | Inr start \<Rightarrow>
          (case purge_all start entries c of
             (Inl e, c1) \<Rightarrow> (Inl e, c1)
           | (Inr (results, blobs), c1) \<Rightarrow>
               let candidates = js_unique blobs in
               (case collect_purged_blobs env (ss_vaultId session) candidates (ev_clk env 1) c1 of
                  (Inl e, c2) \<Rightarrow> (Inl e, c2)
                | (Inr _, c2) \<Rightarrow> (Inr (results, candidates), c2))))"

section \<open>The services keep the invariant\<close>

lemma later_clock_sel [simp]:
  "ev_clk (later_clock env) k = ev_clk env (Suc k)" "ev_clk (after_restore_reads j env) k = ev_clk env (Suc k)"
  by (simp_all add: later_clock_def after_restore_reads_def)

lemma restore_entry_version_inv:
  assumes "vault_inv A now v c" "now \<le> ev_clk env 1"
  shows "vault_inv A (ev_clk env 1) v (snd (restore_entry_version env session r c))"
proof -
  have "vault_inv A (ev_clk env 1) v (snd (commit_mutation (after_restore_reads 1 env) session m (Some Before_restore) c))" for m
    using commit_mutation_inv[of A now v c "after_restore_reads 1 env"] assms by simp
  moreover have "vault_inv A (ev_clk env 1) v c" using assms by (rule vault_ok_later)
  ultimately show ?thesis
    by (auto simp: restore_entry_version_def split: sum.splits option.splits prod.splits commit_reply.splits)
      (metis snd_conv)+
qed

lemma restore_entry_versions_inv:
  assumes "vault_inv A now v c" "now \<le> ev_clk env 1"
  shows "vault_inv A (ev_clk env 1) v (snd (restore_entry_versions env session rs c))"
proof -
  have "vault_inv A (ev_clk env 1) v (snd (commit_mutations (after_restore_reads j env) session ms (Some Before_restore) c))" for j ms
    using commit_mutations_inv[of A now v c "after_restore_reads j env"] assms by simp
  moreover have "vault_inv A (ev_clk env 1) v c" using assms by (rule vault_ok_later)
  ultimately show ?thesis
    by (auto simp: restore_entry_versions_def Let_def split: sum.splits prod.splits) (metis snd_conv)+
qed

lemma delete_versions_db_ok:
  assumes ok: "db_ok now d"
  shows "db_ok now (delete_entry_versions e d)"
proof -
  let ?d = "delete_entry_versions e d"
  have same: "current_blob_reference ?d b = current_blob_reference d b" "read_blob b ?d = read_blob b d"
    "retained_blob_reference now ?d b \<Longrightarrow> retained_blob_reference now d b" for b
    by (auto simp: current_blob_reference_def retained_blob_reference_def read_blob_def store_simps)
  have "versions_ok ?d"
    using ok by (simp add: db_ok_def versions_ok_def delete_entry_versions_def delete_rows_def sorted_wrt_filter)
  moreover have "db_keys ?d"
    using ok by (simp add: db_ok_def db_keys_def store_simps) (simp add: delete_entry_versions_def keyed_delete_rows)
  moreover have "accounted ?d" "seqs_ok ?d"
    using ok seqs_ok_cong[of ?d d] accounted_cong[of ?d d] by (simp_all add: db_ok_def store_simps)
  moreover have "refs_ok now ?d" using ok same by (auto simp: db_ok_def refs_ok_def)
  ultimately show ?thesis by (simp add: db_ok_def)
qed

lemma delete_versions_vault_inv:
  assumes ok: "vault_inv A now v c"
  shows "vault_inv A now v (on_db (delete_entry_versions e) c)"
proof (rule vault_ok_on_db[OF ok])
  show "db_ok now (delete_entry_versions e (co_db c))" using ok by (simp add: vault_inv_def delete_versions_db_ok)
qed (auto simp: store_simps delete_entry_versions_def pinned_iff current_blob_reference_def
    retained_blob_reference_def table_simps)

lemma purge_one_cases:
  assumes "in_transaction (purge_one start entry) c = (res, c')"
  shows "(\<exists>e. res = Inl e \<and> c' = c) \<or>
    (\<exists>r. res = Inr (r, []) \<and> c' = c \<and> r \<noteq> Purge_ok (fst entry)) \<or>
    (res = Inr (Purge_ok (fst entry), list_blob_ids (fst entry) (co_db c)) \<and>
     c' = on_db (delete_entry_versions (fst entry)) c)"
  using assms
  by (cases entry) (auto simp: in_transaction_def uow_run_def purge_one_def Let_def on_db_def
      split: if_splits purge_decision.splits)

lemma purge_all_inv: "vault_inv A now v c \<Longrightarrow> vault_inv A now v (snd (purge_all start entries c))"
proof (induction entries arbitrary: c)
  case Nil
  then show ?case by simp
next
  case (Cons entry entries)
  obtain res c1 where one: "in_transaction (purge_one start entry) c = (res, c1)" by fastforce
  then have "vault_inv A now v c1"
    using purge_one_cases[OF one] Cons.prems delete_versions_vault_inv by auto
  from Cons.IH[OF this] this show ?case by (auto simp: one split: sum.splits prod.splits)
qed

lemma purge_deleted_entries_inv:
  assumes ok: "vault_inv A now v c" and now: "now \<le> ev_clk env 1" and v: "ss_vaultId session = v"
  shows "vault_inv A (ev_clk env 1) v (snd (purge_deleted_entries env session entries c))"
proof -
  have later: "vault_inv A (ev_clk env 1) v c" using ok now by (rule vault_ok_later)
  have "vault_inv A (ev_clk env 1) v (snd (purge_all start entries c))" for start
    using later by (rule purge_all_inv)
  then have "vault_inv A (ev_clk env 1) v c1" if "purge_all start entries c = (r, c1)" for start r c1
    using that by (metis snd_conv)
  then show ?thesis using later v
    by (auto simp: purge_deleted_entries_def Let_def split: sum.splits prod.splits)
      (metis collect_purged_vault_ok snd_conv)+
qed

section \<open>Properties of the listings\<close>

definition read_states :: "coordinator \<Rightarrow> states_query \<Rightarrow> (int \<times> ident) option \<Rightarrow> entry_state list \<times> (int \<times> ident) option" where
  \<comment> \<open>one request of a client that pages through the entry states\<close>
  "read_states c q after =
     (case entry_states_page (q\<lparr>sq_after := after\<rparr>) c of
        Inl _ \<Rightarrow> ([], None) | Inr p \<Rightarrow> (sg_entries p, sg_nextAfter p))"

lemma entry_states_range:
  "e \<in> set (entry_states_in since target ids d) \<Longrightarrow> since < es_seq e \<and> es_seq e \<le> target"
  by (auto simp: entry_states_in_def to_entry_state_def in_state_range_def)

text \<open>
  C1. Paging through the entry states is complete: a client that asks for a fixed target cursor
  and follows \<open>nextAfter\<close> until it is null receives every entry of the range exactly once, in
  order of sequence number, whatever positive page size it asks for (the server caps it at 500);
  none of its requests is refused.
\<close>

theorem entry_state_pages_complete:
  assumes "vault_ok now v c" "current_cursor (co_db c) = Inr current"
    and range: "sq_since q \<le> target" "target \<le> current" "sq_target q = Some target" and limit: "0 < sq_limit q"
    and fuel: "length (entry_states_in (sq_since q) target (sq_entryIds q) (co_db c)) < fuel"
  shows "read_pages (read_states c q) fuel None =
    map present_state (entry_states_in (sq_since q) target (sq_entryIds q) (co_db c))"
proof (rule state_pages.pages_complete[OF _ _ _ fuel, of "min (sq_limit q) max_entry_state_batch"])
  show "keyed en_id (db_entries (co_db c))" using assms(1) by (simp add: vault_inv_def db_ok_def db_keys_def)
  show "0 < min (sq_limit q) max_entry_state_batch" using limit by (simp add: max_entry_state_batch_def)
  show "state_pages.serves (sq_since q) target (sq_entryIds q) (min (sq_limit q) max_entry_state_batch) present_state
      (read_states c q) (co_db c)"
    unfolding state_pages.serves_def
  proof (intro allI impI)
    fix after
    assume "after = None \<or> (\<exists>r \<in> set (entry_states_in (sq_since q) target (sq_entryIds q) (co_db c)). after = Some (state_key r))"
    then have "validate_cursor_range (sq_since q) after target current = Inr ()"
      using range by (auto simp: validate_cursor_range_def state_key_def dest: entry_states_range)
    then show "read_states c q after = (let p = cut_page (min (sq_limit q) max_entry_state_batch)
        (list_entry_states (sq_since q) target (sq_entryIds q) after (min (sq_limit q) max_entry_state_batch + 1) (co_db c))
        in (map present_state (fst p), next_key state_key p))"
      using assms(2) range(3) by (simp add: read_states_def entry_states_page_def Let_def)
  qed
qed

definition read_deleted :: "env \<Rightarrow> coordinator \<Rightarrow> int \<Rightarrow> (millis \<times> ident) option \<Rightarrow> deleted_entry list \<times> (millis \<times> ident) option" where
  "read_deleted env c limit before =
     (case deleted_entries_page env before limit c of Inl _ \<Rightarrow> ([], None) | Inr (rows, _, next) \<Rightarrow> (rows, next))"

definition read_versions :: "env \<Rightarrow> coordinator \<Rightarrow> ident \<Rightarrow> int \<Rightarrow> (millis \<times> ident) option \<Rightarrow> version_row list \<times> (millis \<times> ident) option" where
  "read_versions env c entryId limit before =
     (case entry_versions_page env entryId before limit c of Inl _ \<Rightarrow> ([], None) | Inr (rows, _, next) \<Rightarrow> (rows, next))"

text \<open>
  Paging through the deleted entries and through the history of one entry is complete in the
  same sense: with the retention window fixed by the clock, following the cursors returns every
  restorable deleted entry, and every version inside the window, once, newest first.
\<close>

theorem history_pages_complete:
  assumes ok: "vault_ok now v c" and start: "retention_start env c = Inr start" and limit: "0 < limit"
    and fuel: "length (deleted_entries_in start (co_db c)) < fuel" "length (versions_in entryId start (co_db c)) < fuel"
  shows "read_pages (read_deleted env c limit) fuel None = deleted_entries_in start (co_db c) \<and>
    read_pages (read_versions env c entryId limit) fuel None = versions_in entryId start (co_db c)"
proof
  have keys: "keyed en_id (db_entries (co_db c))" "keyed ve_id (db_versions (co_db c))"
    using ok by (simp_all add: vault_inv_def db_ok_def db_keys_def)
  have "read_pages (read_deleted env c limit) fuel None = map id (deleted_entries_in start (co_db c))"
  proof (rule deleted_pages.pages_complete[OF keys(1) _ _ fuel(1), of "min limit max_deleted_entries_batch"])
    show "0 < min limit max_deleted_entries_batch" using limit by (simp add: max_deleted_entries_batch_def)
    show "deleted_pages.serves start (min limit max_deleted_entries_batch) id (read_deleted env c limit) (co_db c)"
      using start by (simp add: deleted_pages.serves_def read_deleted_def deleted_entries_page_def Let_def)
  qed
  then show "read_pages (read_deleted env c limit) fuel None = deleted_entries_in start (co_db c)" by simp
  have "read_pages (read_versions env c entryId limit) fuel None = map id (versions_in entryId start (co_db c))"
  proof (rule version_pages.pages_complete[OF keys(2) _ _ fuel(2), of "min limit max_history_batch"])
    show "0 < min limit max_history_batch" using limit by (simp add: max_history_batch_def)
    show "version_pages.serves entryId start (min limit max_history_batch) id (read_versions env c entryId limit) (co_db c)"
      using start by (auto simp: version_pages.serves_def read_versions_def entry_versions_page_def Let_def next_key_def)
  qed
  then show "read_pages (read_versions env c entryId limit) fuel None = versions_in entryId start (co_db c)" by simp
qed

section \<open>Properties of restoring and purging\<close>

text \<open>
  C39. A successful restore brings back exactly the requested version: it lay inside the retention
  window, the entry's revision was the one the client knew, and afterwards the entry has the
  version's content and the next revision.
\<close>

theorem restore_brings_back_version:
  assumes run: "restore_entry_version env session r c = (Inr (Restore_accepted e ver srev cursor revision, bc), c')"
    and fresh: "\<And>en. read_mutation_entry (rs_entryId r) (co_db c) = Some en \<Longrightarrow> me_lastMutation en \<noteq> Some (js_trim (ev_uuid env 0))"
  shows "\<exists>start target old en. retention_start env c = Inr start \<and>
      read_entry_version (rs_entryId r) (rs_versionId r) start (co_db c) = Some target \<and>
      read_mutation_entry (rs_entryId r) (co_db c) = Some old \<and> me_revision old = rs_base r \<and>
      read_mutation_entry (rs_entryId r) (co_db c') = Some en \<and> me_revision en = rs_base r + 1 \<and>
      me_deleted en = (ve_op target = Delete) \<and>
      me_blob en = (if ve_op target = Delete then None else ve_blob target)"
proof -
  let ?m = "restore_mutation (ev_uuid env 0) r"
  obtain start target where start: "retention_start env c = Inr start" and chk: "check_restore start r (co_db c) = Inr target"
    and cm: "\<exists>x. commit_mutation (after_restore_reads 1 env) session ?m (Some Before_restore) c
      = (Inr (Commit_accepted cursor x revision, bc), c')"
    using run by (auto simp: restore_entry_version_def split: sum.splits option.splits prod.splits commit_reply.splits)
  have target: "read_entry_version (rs_entryId r) (rs_versionId r) start (co_db c) = Some target"
    "ve_op target = rs_op r" "ve_blob target = rs_blob r"
    using chk by (auto simp: check_restore_def is_restore_payload_compatible_def split: option.splits if_splits)
  obtain old where old: "read_mutation_entry (rs_entryId r) (co_db c) = Some old" "me_revision old = rs_base r"
    using chk by (auto simp: check_restore_def read_entry_def read_mutation_entry_def to_mutation_entry_def
        is_current_revision_def split: option.splits if_splits)
  obtain res where res: "commit_mutations (after_restore_reads 1 env) session [?m] (Some Before_restore) c = (Inr res, c')"
    "\<exists>i x rs. cr_results res = Accepted i cursor x revision # rs"
    using cm by (auto simp: commit_mutation_def split: sum.splits prod.splits list.splits batch_result.splits)
  obtain cx ct s where ct: "commit_one cx ?m (commit_start (co_db c)) = Inr ct" "cr_results res = ct_results ct"
    "\<And>e. read_mutation_entry e (co_db c') = read_mutation_entry e (ct_db ct)"
    using single_commit[OF res(1)] by metis
  have m: "mu_id ?m = ev_uuid env 0" "mu_entryId ?m = rs_entryId r" "mu_base ?m = rs_base r" "mu_op ?m = rs_op r"
    "mu_blob ?m = rs_blob r" by (simp_all add: restore_mutation_def)
  from ct(1) have "\<exists>en. read_mutation_entry (rs_entryId r) (co_db c') = Some en \<and> me_revision en = rs_base r + 1 \<and>
      me_deleted en = (rs_op r = Delete) \<and> me_blob en = (if rs_op r = Delete then None else rs_blob r)"
  proof (cases rule: commit_one_cases)
    case (replayed en)
    then show ?thesis using fresh[of en] by (simp add: commit_start_def m)
  next
    case (refused seen code msg x y)
    then show ?thesis using res(2) ct(2) by (auto simp: commit_start_def)
  next
    case (applied base)
    then show ?thesis by (simp add: ct(3) m)
  qed
  then show ?thesis using start target old by auto
qed

text \<open>
  Purging removes history only: an entry's versions are deleted exactly when it is a
  tombstone at the stated revision with something restorable left, and then only its versions;
  the tombstone itself, other histories and all blob rows stay; in every other case, and while
  the vault is paused, nothing changes.
\<close>

theorem purge_removes_confirmed_history:
  assumes "purge_one start (e, revision) d = (res, d')"
  shows "((\<exists>bs. res = Inr (Purge_ok e, bs)) \<longleftrightarrow>
      read_sync_pause d = None \<and> has_restorable_history e start d \<and>
      (\<exists>en. read_mutation_entry e d = Some en \<and> me_deleted en \<and> me_revision en = revision)) \<and>
    (if \<exists>bs. res = Inr (Purge_ok e, bs)
     then d' = d\<lparr>db_versions := filter (\<lambda>v. ve_entryId v \<noteq> e) (db_versions d)\<rparr> \<and>
       (\<forall>v b. v \<in> set (db_versions d) \<and> ve_entryId v = e \<and> ve_blob v = Some b \<longrightarrow> b \<in> set (snd (projr res)))
     else d' = d)"
proof (rule conjI)
  have r: "purge_one start (e, revision) d = (res, d')" by (fact assms)
  show "(\<exists>bs. res = Inr (Purge_ok e, bs)) \<longleftrightarrow>
      read_sync_pause d = None \<and> has_restorable_history e start d \<and>
      (\<exists>en. read_mutation_entry e d = Some en \<and> me_deleted en \<and> me_revision en = revision)"
    using r by (auto simp: purge_one_def decide_deleted_entry_purge_def split: if_splits option.splits)
  show "if \<exists>bs. res = Inr (Purge_ok e, bs)
      then d' = d\<lparr>db_versions := filter (\<lambda>v. ve_entryId v \<noteq> e) (db_versions d)\<rparr> \<and>
        (\<forall>v b. v \<in> set (db_versions d) \<and> ve_entryId v = e \<and> ve_blob v = Some b \<longrightarrow> b \<in> set (snd (projr res)))
      else d' = d"
    using r by (auto simp: purge_one_def delete_entry_versions_def delete_rows_def list_blob_ids_iff
        split: if_splits purge_decision.splits)
qed

section \<open>Instances\<close>

definition example_deleted :: coordinator where
  \<comment> \<open>the example after its only entry was deleted: one tombstone with one restorable version\<close>
  "example_deleted = snd (commit_mutations example_env example_session [example_mutation] None example_vault)"

lemma example_deleted_ok: "vault_ok 10 ''v'' example_deleted"
  unfolding example_deleted_def
  using commit_mutations_inv[where A = True and now = 10 and v = "''v''" and c = example_vault and env = example_env
    and session = example_session] example_vault_ok[of 10] by simp

definition example_query :: states_query where
  "example_query = \<lparr>sq_since = 0, sq_target = Some 2, sq_after = None, sq_limit = 1, sq_entryIds = None\<rparr>"

lemma example_deleted_cursor: "current_cursor (co_db example_deleted) = Inr 2" by code_simp
lemma example_deleted_states: "length (entry_states_in 0 2 None (co_db example_deleted)) = 1" by code_simp
lemma example_deleted_lists: "length (deleted_entries_in (10 - day_ms) (co_db example_deleted)) = 1"
  "length (versions_in ''e'' (10 - day_ms) (co_db example_deleted)) = 1" by code_simp+
lemma example_retention: "retention_start example_env example_deleted = Inr (10 - day_ms)" by code_simp

theorem entry_state_pages_complete_witness:
  "read_pages (read_states example_deleted example_query) 2 None =
   map present_state (entry_states_in 0 2 None (co_db example_deleted))"
  using entry_state_pages_complete[OF example_deleted_ok example_deleted_cursor, of example_query 2 2]
  by (simp add: example_query_def example_deleted_states)

theorem history_pages_complete_witness:
  "length (read_pages (read_versions example_env example_deleted ''e'' 1) 2 None) = 1"
  using history_pages_complete[OF example_deleted_ok example_retention, of 1 2 "''e''"]
  by (simp add: example_deleted_lists)

definition example_version :: version_row where
  "example_version = hd (versions_in ''e'' (10 - day_ms) (co_db example_deleted))"

definition example_restore :: restore where
  "example_restore = \<lparr>rs_entryId = ''e'', rs_versionId = ve_id example_version, rs_base = 2, rs_op = Upsert,
     rs_blob = Some ''b'', rs_metadata = ''r''\<rparr>"

lemma example_restored:
  "fst (restore_entry_version example_env example_session example_restore example_deleted)
   = Inr (Restore_accepted ''e'' (ve_id example_version) 1 3 3, Some 3)" by code_simp
lemma example_restore_fresh:
  "map_option me_lastMutation (read_mutation_entry ''e'' (co_db example_deleted)) = Some (Some ''m2'')"
  "js_trim (ev_uuid example_env 0) = ''0''" by code_simp+

theorem restore_brings_back_version_witness:
  "\<exists>en. read_mutation_entry ''e''
      (co_db (snd (restore_entry_version example_env example_session example_restore example_deleted))) = Some en \<and>
    me_revision en = 3 \<and> \<not> me_deleted en \<and> me_blob en = Some ''b''"
proof -
  have run: "restore_entry_version example_env example_session example_restore example_deleted =
      (Inr (Restore_accepted ''e'' (ve_id example_version) 1 3 3, Some 3),
       snd (restore_entry_version example_env example_session example_restore example_deleted))"
    using example_restored by (metis prod.collapse)
  have r: "rs_entryId example_restore = ''e''" "rs_base example_restore = 2"
    "rs_versionId example_restore = ve_id example_version" by (simp_all add: example_restore_def)
  have v: "read_entry_version ''e'' (ve_id example_version) (10 - day_ms) (co_db example_deleted) = Some example_version"
    "ve_op example_version = Upsert" "ve_blob example_version = Some ''b''" by code_simp+
  have "me_lastMutation en \<noteq> Some (js_trim (ev_uuid example_env 0))"
    if "read_mutation_entry (rs_entryId example_restore) (co_db example_deleted) = Some en" for en
    using example_restore_fresh that by (auto simp: r)
  from restore_brings_back_version[OF run this] show ?thesis by (auto simp: r v example_retention)
qed

theorem purge_removes_confirmed_history_witness:
  "db_versions (snd (purge_one (10 - day_ms) (''e'', 2) (co_db example_deleted))) =
   filter (\<lambda>v. ve_entryId v \<noteq> ''e'') (db_versions (co_db example_deleted))"
proof -
  obtain res d' where run: "purge_one (10 - day_ms) (''e'', 2) (co_db example_deleted) = (res, d')" by fastforce
  have "fst (purge_one (10 - day_ms) (''e'', 2) (co_db example_deleted)) = Inr (Purge_ok ''e'', [''b''])" by code_simp
  then show ?thesis using purge_removes_confirmed_history[OF run] run by auto
qed

end
