(* ===== verification/Blob_Service.thy ===== *)
theory Blob_Service
  imports Entry_Service
begin

text \<open>
  \<open>services/blob-service.ts\<close>: reserving room for an upload, giving up an upload, and deleting a
  blob on request of a client. The result of verifying the sync token is a field of the
  environment.
\<close>

section \<open>Operations\<close>

definition legacy_pause_quota_compatibility :: bool where
  "legacy_pause_quota_compatibility = True"

definition sync_paused_error :: coord_error where
  "sync_paused_error = AppError ''sync_paused'' []"

definition blob_stage_error :: "ident \<Rightarrow> stage_rejection \<Rightarrow> coord_error" where
  \<comment> \<open>\<open>throwBlobStageError\<close>\<close>
  "blob_stage_error blobId decision = (case decision of
     File_too_large maxFile sz \<Rightarrow>
       AppError ''file_too_large''
         [(''message'', DStr (''blob exceeds maximum file size of '' @ show_num maxFile @ '' bytes'')),
          (''maxFileSizeBytes'', DNum maxFile), (''sizeBytes'', DNum sz)]
   | Blob_already_live sz \<Rightarrow>
       AppError ''blob_already_live''
         [(''message'', DStr (''blob '' @ blobId @ '' is already live'')), (''blobId'', DStr blobId)]
   | Blob_size_changed previous sz \<Rightarrow>
       AppError ''blob_size_changed''
         [(''message'', DStr (''blob '' @ blobId @ '' size changed between staged uploads'')),
          (''blobId'', DStr blobId), (''previousSizeBytes'', DNum previous), (''sizeBytes'', DNum sz)]
   | Quota_exceeded limit sz used \<Rightarrow>
       AppError ''quota_exceeded''
         [(''message'', DStr (''vault storage quota exceeded: '' @ show_num (used + sz) @ ''/'' @
             show_num limit @ '' bytes'')),
          (''storageLimitBytes'', DNum limit), (''sizeBytes'', DNum sz), (''usedBytes'', DNum used)])"

definition close_all_sockets :: "int \<Rightarrow> string \<Rightarrow> coordinator \<Rightarrow> coordinator" where
  "close_all_sockets code reason c = c\<lparr>co_calls := co_calls c @ [Close_all_sockets code reason]\<rparr>"

definition stage_blob :: "env \<Rightarrow> ident \<Rightarrow> int \<Rightarrow> coordinator \<Rightarrow> (coord_error + unit) \<times> coordinator" where
  "stage_blob env blobId sizeBytes c =
     (case ev_token env of
        Inl e \<Rightarrow> (Inl e, c)
      | Inr _ \<Rightarrow>
          let now = ev_clk env 0 in
          (case in_transaction (stage_blob_record blobId sizeBytes now (now + ev_grace env)) c of
             (Inl e, c1) \<Rightarrow> (Inl e, c1)
           | (Inr (Stage_rejected r), c1) \<Rightarrow> (Inl (blob_stage_error blobId r), c1)
           | (Inr (Stage_paused _), c1) \<Rightarrow>
               (Inl sync_paused_error,
                if \<not> legacy_pause_quota_compatibility
                then close_all_sockets 1013 ''sync paused for vault repair'' c1 else c1)
           | (Inr (Stage_ok _), c1) \<Rightarrow>
               (Inr (), notify_storage_status_changed env (schedule_at (now + ev_grace env) now c1))))"

definition abort_staged_blob :: "env \<Rightarrow> ident \<Rightarrow> ident \<Rightarrow> coordinator \<Rightarrow> (coord_error + unit) \<times> coordinator" where
  "abort_staged_blob env vaultId blobId c =
     (if read_vault_id (co_db c) \<noteq> Some vaultId then (Inl (AppError ''vault_mismatch'' []), c)
      else case read_blob blobId (co_db c) of
        None \<Rightarrow> (Inr (), c)
      | Some blob \<Rightarrow>
          (case bl_deleteAfter blob of
             Some deleteAfter \<Rightarrow>
               if bl_state blob = Staged
               then (Inr (), schedule_at (max (ev_clk env 0) deleteAfter) (ev_clk env 0) c)
               else (Inr (), c)
           | None \<Rightarrow> (Inr (), c)))"

definition delete_record :: "ident \<Rightarrow> db \<Rightarrow> db" where
  \<comment> \<open>the second transaction of \<open>deleteBlob\<close>\<close>
  "delete_record blobId d =
     (let (deleted, d') = delete_blob_record blobId None d in account_for_deleted_blobs deleted d')"

definition delete_blob :: "env \<Rightarrow> ident \<Rightarrow> ident \<Rightarrow> coordinator \<Rightarrow> (coord_error + unit) \<times> coordinator" where
  "delete_blob env vaultId blobId c =
     (case ev_token env of
        Inl e \<Rightarrow> (Inl e, c)
      | Inr _ \<Rightarrow>
          if read_sync_pause (co_db c) \<noteq> None then (Inl sync_paused_error, c)
          else let now = ev_clk env 0;
                   blob = read_blob blobId (co_db c);
                   referenceFacts = read_blob_reference_facts blobId now (co_db c)
            in if blob \<noteq> None \<and> is_blob_pinned referenceFacts then (Inr (), c)
               else (case object_delete env (blob_object_key vaultId blobId) c of
                   (Inl e, c1) \<Rightarrow> (Inl e, c1)
                 | (Inr _, c1) \<Rightarrow>
                     (Inr (), if blob = None then c1
                        else notify_storage_status_changed env
                          (schedule_summary_flush (ev_clk env 1) (on_db (delete_record blobId) c1)))))"

section \<open>The invariant\<close>

lemma vaultId_stage:
  "map_option cs_vaultId (db_state (snd (stage_blob_record b sz now da d))) = map_option cs_vaultId (db_state d)"
  by (cases "db_state d") (auto simp: stage_blob_record_def Let_def store_simps
      split: option.splits sum.splits stage_decision.splits)

lemma stage_record_frame [store_simps]:
  "db_entries (snd (stage_blob_record b sz now da d)) = db_entries d"
  "db_versions (snd (stage_blob_record b sz now da d)) = db_versions d"
  "db_jobs (snd (stage_blob_record b sz now da d)) = db_jobs d"
  by (auto simp: stage_blob_record_def Let_def store_simps split: option.splits sum.splits stage_decision.splits)

lemma stage_record_vault_inv:
  assumes "vault_inv A now v c" "0 \<le> sz"
  shows "vault_inv A now v (on_db (\<lambda>d. snd (stage_blob_record b sz now da d)) c)"
  using assms by (intro vault_ok_on_db)
    (auto simp: stage_db_ok vault_inv_def store_simps vaultId_stage dest: references_cong(3)[THEN iffD1, rotated 2])

lemma in_transaction_stage:
  "\<exists>r. in_transaction (stage_blob_record b sz now da) c = (r, c) \<or>
       in_transaction (stage_blob_record b sz now da) c = (r, on_db (\<lambda>d. snd (stage_blob_record b sz now da d)) c)"
  by (auto simp: in_transaction_def uow_run_def on_db_def split: prod.splits sum.splits)

lemma close_all_ok: "vault_inv A now v c \<Longrightarrow> vault_inv A now v (close_all_sockets n r c)"
  by (rule vault_ok_same_data) (auto simp: close_all_sockets_def dest: vault_ok_armed)

lemma stage_blob_inv:
  assumes ok: "vault_inv A now v c" and now: "now \<le> ev_clk env 0" and sz: "0 \<le> sz"
  shows "vault_inv A (ev_clk env 0) v (snd (stage_blob env b sz c))"
proof -
  let ?t = "ev_clk env 0"
  have later: "vault_inv A ?t v c" using ok now by (rule vault_ok_later)
  obtain r c1 where tx: "in_transaction (stage_blob_record b sz ?t (?t + ev_grace env)) c = (r, c1)" by fastforce
  have "vault_inv A ?t v c1"
    using tx in_transaction_stage[of b sz ?t "?t + ev_grace env" c] later
      stage_record_vault_inv[OF later sz, of b "?t + ev_grace env"] by auto
  then show ?thesis using later
    by (auto simp: stage_blob_def Let_def tx notify_ok schedule_at_ok close_all_ok
        split: sum.splits stage_decision.splits)
qed

lemma abort_staged_blob_inv: "vault_inv A now v c \<Longrightarrow> vault_inv A now v (snd (abort_staged_blob env x b c))"
  by (auto simp: abort_staged_blob_def schedule_at_ok split: option.splits)

lemma delete_record_frame [store_simps]:
  "db_entries (delete_record b d) = db_entries d" "db_versions (delete_record b d) = db_versions d"
  "db_jobs (delete_record b d) = db_jobs d"
  by (simp_all add: delete_record_def delete_blob_record_def delete_blobs_where_def store_simps)

lemma delete_record_unfold:
  "delete_record b d = account_for_deleted_blobs (filter (\<lambda>r. bl_id r = b) (db_blobs d))
     (snd (delete_blobs_where (\<lambda>r. bl_id r = b) d))"
  by (simp add: delete_record_def delete_blob_record_def delete_blobs_where_def)

lemma delete_record_vault_inv:
  assumes ok: "vault_inv A now v c" and un: "\<not> pinned now (co_db c) b"
  shows "vault_inv A now v (on_db (delete_record b) c)"
proof (rule vault_ok_on_db[OF ok])
  show "db_ok now (delete_record b (co_db c))"
    unfolding delete_record_unfold using ok un by (intro delete_unpinned_db_ok) (auto simp: vault_inv_def)
  show "map_option cs_vaultId (db_state (delete_record b (co_db c))) = map_option cs_vaultId (db_state (co_db c))"
    by (simp add: delete_record_unfold vaultId_account delete_blobs_where_def)
  show "pinned now (delete_record b (co_db c)) x \<Longrightarrow> pinned now (co_db c) x" for x
    using references_cong(3)[of "delete_record b (co_db c)" "co_db c" now x] by (simp add: store_simps)
qed (simp_all add: store_simps)

lemma object_delete_inv:
  assumes ok: "vault_inv A now v c" and un: "b \<noteq> [] \<Longrightarrow> \<not> pinned now (co_db c) b"
  shows "vault_inv A now v (snd (object_delete env (blob_object_key v b) c))"
  using ok delete_objects_vault_ok[OF ok, of "{blob_object_key v b}"] un
  by (auto simp: object_delete_def split: option.splits)

lemma object_delete_frame [store_simps]:
  "co_db (snd (object_delete env k c)) = co_db c" "co_alarm (snd (object_delete env k c)) = co_alarm c"
  by (simp_all add: object_delete_def split: option.splits)

lemma delete_blob_inv:
  assumes ok: "vault_inv A now v c" and now: "now \<le> ev_clk env 0" and b: "b \<noteq> []"
  shows "vault_inv A (ev_clk env 0) v (snd (delete_blob env v b c))"
proof -
  let ?t = "ev_clk env 0"
  have later: "vault_inv A ?t v c" using ok now by (rule vault_ok_later)
  obtain r c1 where del: "object_delete env (blob_object_key v b) c = (r, c1)" by fastforce
  have same: "co_db c1 = co_db c" using object_delete_frame(1)[of env "blob_object_key v b" c] by (simp add: del)
  have "vault_inv A ?t v c1 \<and> vault_inv A ?t v (on_db (delete_record b) c1)"
    if un: "read_blob b (co_db c) = None \<or> \<not> pinned ?t (co_db c) b"
  proof -
    have np: "\<not> pinned ?t (co_db c) b"
      using un later b by (auto simp: vault_inv_def dest: pinned_has_row)
    have c1: "vault_inv A ?t v c1" using object_delete_inv[OF later, of b env] np del by simp
    then show ?thesis using delete_record_vault_inv np same by simp
  qed
  then show ?thesis using later
    by (auto simp: delete_blob_def Let_def del notify_ok schedule_summary_ok pinned_def
        split: sum.splits)
qed

section \<open>Properties\<close>

lemma read_delete_record:
  "keyed bl_id (db_blobs d) \<Longrightarrow> read_blob b (delete_record a d) = (if b = a then None else read_blob b d)"
  by (cases "read_blob b d") (auto simp: delete_record_unfold read_blob_def store_simps delete_blobs_where_def
      row_of_delete_key)


lemma stage_blob_Inr:
  assumes "stage_blob env b sz c = (Inr (), c')"
  obtains delta d where "stage_blob_record b sz (ev_clk env 0) (ev_clk env 0 + ev_grace env) (co_db c) = (Inr (Stage_ok delta), d)"
    "c' = notify_storage_status_changed env (schedule_at (ev_clk env 0 + ev_grace env) (ev_clk env 0) (c\<lparr>co_db := d\<rparr>))"
  using assms
  by (auto simp: stage_blob_def in_transaction_def uow_run_def Let_def split: sum.splits prod.splits stage_decision.splits)

lemma notify_alarm_frame [store_simps]:
  "co_db (notify_storage_status_changed env c) = co_db c" "co_alarm (notify_storage_status_changed env c) = co_alarm c"
  by (simp_all add: notify_storage_status_changed_def flush_storage_status_def split: prod.splits)

lemma schedule_at_data [store_simps]:
  "db_state (co_db (schedule_at t now c)) = db_state (co_db c)" "db_blobs (co_db (schedule_at t now c)) = db_blobs (co_db c)"
  "db_entries (co_db (schedule_at t now c)) = db_entries (co_db c)"
  "db_versions (co_db (schedule_at t now c)) = db_versions (co_db c)"
  by (simp_all add: schedule_at_def store_simps)

text \<open>
  Staging an upload respects the limits of the vault and can never overwrite referenced
  data: when it succeeds, the blob was unreferenced, its size is within the file limit, and it is
  now staged with the offered size and a grace deadline. A new blob has its size added to the
  storage counter, which stays within the quota; a repeated upload must have the recorded size
  and adds nothing. The collection of the blob, should it never be committed, is scheduled
  within one collection bucket after its deadline.
\<close>

theorem stage_blob_respects_limits:
  assumes ok: "vault_ok now v c" and now: "now \<le> ev_clk env 0" and sz: "0 \<le> sz"
    and run: "stage_blob env b sz c = (Inr (), c')"
  shows "\<exists>s s' r. db_state (co_db c) = Some s \<and> db_state (co_db c') = Some s' \<and> read_blob b (co_db c') = Some r \<and>
    (0 < cs_maxFile s \<longrightarrow> sz \<le> cs_maxFile s) \<and> cs_pausedAt s = None \<and>
    bl_state r = Staged \<and> bl_size r = sz \<and> bl_deleteAfter r = Some (ev_clk env 0 + ev_grace env) \<and>
    (case read_blob b (co_db c) of
       None \<Rightarrow> cs_used s' = cs_used s + sz \<and> (0 < cs_limit s \<longrightarrow> cs_used s' \<le> cs_limit s)
     | Some old \<Rightarrow> bl_size old = sz \<and> \<not> pinned (ev_clk env 0) (co_db c) b \<and> cs_used s' = cs_used s) \<and>
    (\<exists>u a. due_of Blob_gc (co_db c') = Some u \<and> u \<le> job_due_at Blob_gc (ev_clk env 0 + ev_grace env) \<and>
           co_alarm c' = Some a \<and> a \<le> u)"
proof -
  let ?t = "ev_clk env 0" and ?da = "ev_clk env 0 + ev_grace env"
  obtain delta d where rec: "stage_blob_record b sz ?t ?da (co_db c) = (Inr (Stage_ok delta), d)"
    and c': "c' = notify_storage_status_changed env (schedule_at ?da ?t (c\<lparr>co_db := d\<rparr>))"
    using run by (rule stage_blob_Inr)
  obtain s where s: "db_state (co_db c) = Some s" "read_sync_pause (co_db c) = None"
    and dec: "decide_blob_stage b sz ?t staged_blob_stale_ms (map_option to_existing_blob (read_blob b (co_db c)))
       (case read_blob b (co_db c) of None \<Rightarrow> False | Some r \<Rightarrow> pinned ?t (co_db c) b) (cs_used s) (cs_limit s) (cs_maxFile s)
     = Stage_ok delta"
    and d: "d = (if delta > 0 then adjust_storage_used delta (persist_stage b sz ?t ?da (co_db c)) else persist_stage b sz ?t ?da (co_db c))"
    using rec by (rule stage_blob_record_ok)
  note dd = decide_stage_okD[OF dec]
  have used: "0 \<le> cs_used s"
    using ok s(1) by (auto simp: vault_inv_def db_ok_def accounted_def blob_bytes_def intro: sum_sizes_nonneg)
  have data: "db_state (co_db c') = db_state d" "db_blobs (co_db c') = db_blobs d"
    by (simp_all add: c' store_simps)
  have blobs: "db_blobs (co_db c') = db_blobs (persist_stage b sz ?t ?da (co_db c))"
    by (simp add: data d store_simps)
  have st: "db_state (co_db c') = Some (if delta > 0 then s\<lparr>cs_used := cs_used s + delta\<rparr> else s)"
    using used by (simp add: data d s(1) store_simps)
  have read: "read_blob b (co_db c') = read_blob b (persist_stage b sz ?t ?da (co_db c))"
    by (simp add: read_blob_def blobs)
  have arm: "\<exists>u a. due_of Blob_gc (co_db c') = Some u \<and> u \<le> job_due_at Blob_gc ?da \<and> co_alarm c' = Some a \<and> a \<le> u"
  proof -
    obtain u where u: "due_of Blob_gc (co_db c') = Some u" "u \<le> job_due_at Blob_gc ?da"
      by (auto simp: c' store_simps schedule_at_def due_of_defer_maintenance split: option.splits)
    have "armed c'" using stage_blob_inv[OF ok now sz, of b] run by (simp add: vault_inv_def)
    from do_scheduler.alarm_covers[OF this u(1)] u show ?thesis by blast
  qed
  show ?thesis
    using s dd sz st arm read
    by (cases "read_blob b (co_db c)")
      (auto simp: read_blob_persist_stage to_existing_blob_def read_sync_pause_None split: if_splits)
qed

lemma stage_record_paused:
  assumes "stage_blob_record b sz now da d = (Inr (Stage_paused reason), d')"
  shows "(read_sync_pause d \<noteq> None \<and> d' = d) \<or>
    (read_sync_pause d = None \<and> reason = stale_pause_reason b \<and> pinned now d b \<and> d' = pause_sync now reason d \<and>
     (\<exists>r. read_blob b d = Some r \<and> bl_state r = Staged \<and> staged_blob_stale_ms \<le> now - bl_createdAt r))"
proof (cases "read_sync_pause d")
  case None
  then have "\<exists>used limit maxFile. decide_blob_stage b sz now staged_blob_stale_ms (map_option to_existing_blob (read_blob b d))
      (case read_blob b d of None \<Rightarrow> False | Some r \<Rightarrow> is_blob_pinned (read_blob_reference_facts b now d)) used limit maxFile
      = Stage_paused reason \<and> d' = pause_sync now reason d"
  proof (cases "truthy (read_vault_id d) \<and> (\<exists>l u. read_vault_limits d = Inr l \<and> read_storage_used d = Inr u)")
    case True
    then obtain l u where "read_vault_limits d = Inr l" "read_storage_used d = Inr u" by blast
    then show ?thesis using assms None True
      by (simp add: stage_blob_record_def Let_def) (metis stage_decision.simps(10))
  next
    case False
    then show ?thesis using assms None by (auto simp: stage_blob_record_def Let_def split: if_splits sum.splits)
  qed
  then show ?thesis using None
    by (auto simp: to_existing_blob_def pinned_def split: option.splits dest!: decide_stage_pausedD)
next
  case (Some p)
  then show ?thesis using assms by (simp add: stage_blob_record_def)
qed

text \<open>
  A refused upload changes nothing, with one exception: an upload of a blob that has been
  staged for at least an hour and is nevertheless referenced, which is the sign of a damaged
  vault, pauses the vault with a reason the repair recognises. Every other error, and every
  upload to a paused vault, leaves the coordinator as it was.
\<close>

theorem stage_blob_error_effect:
  assumes run: "stage_blob env b sz c = (Inl e, c')"
  shows "c' = c \<or>
    (e = sync_paused_error \<and> read_sync_pause (co_db c) = None \<and> pinned (ev_clk env 0) (co_db c) b \<and>
     (\<exists>r. read_blob b (co_db c) = Some r \<and> bl_state r = Staged \<and> staged_blob_stale_ms \<le> ev_clk env 0 - bl_createdAt r) \<and>
     (\<exists>reason. is_stale_staged_pause_reason reason \<and> c' = on_db (pause_sync (ev_clk env 0) reason) c))"
proof -
  let ?t = "ev_clk env 0" and ?da = "ev_clk env 0 + ev_grace env"
  obtain r d where rec: "stage_blob_record b sz ?t ?da (co_db c) = (r, d)" by fastforce
  consider (err) x where "r = Inl x" | (paused) reason where "r = Inr (Stage_paused reason)"
    | (rej) x where "r = Inr (Stage_rejected x)" | (ok) delta where "r = Inr (Stage_ok delta)"
    by (metis stage_decision.exhaust sum.exhaust)
  then show ?thesis
  proof cases
    case paused
    then have "c' = c\<lparr>co_db := d\<rparr> \<and> e = sync_paused_error \<or> c' = c"
      using run rec by (auto simp: stage_blob_def in_transaction_def uow_run_def legacy_pause_quota_compatibility_def Let_def
          split: sum.splits)
    then show ?thesis using stage_record_paused[OF rec[unfolded paused]] stale_pause_reason_recognised
      by (auto simp: on_db_def)
  next
    case rej
    then have "d = co_db c"
      using rec by (auto simp: stage_blob_record_def Let_def split: option.splits if_splits sum.splits stage_decision.splits)
    then show ?thesis using run rec rej
      by (auto simp: stage_blob_def in_transaction_def uow_run_def Let_def split: sum.splits)
  qed (use run rec in \<open>auto simp: stage_blob_def in_transaction_def uow_run_def Let_def split: sum.splits\<close>)
qed

lemma filter_keyed: "keyed bl_id rows \<Longrightarrow> row_of bl_id b rows = Some r \<Longrightarrow> filter (\<lambda>r. bl_id r = b) rows = [r]"
proof (induction rows)
  case (Cons x rows)
  then show ?case by (auto simp: keyed_def row_of_Cons filter_empty_conv image_iff split: if_splits)
qed simp

lemma size_le_total: "r \<in> set rows \<Longrightarrow> \<forall>r \<in> set rows. 0 \<le> bl_size r \<Longrightarrow> bl_size r \<le> sum_list (map bl_size rows)"
  by (induction rows) (auto dest: sum_sizes_nonneg)

lemma delete_record_used:
  assumes "accounted d" "keyed bl_id (db_blobs d)" "read_blob b d = Some r" "db_state d = Some s"
  shows "db_state (delete_record b d) = Some (s\<lparr>cs_used := cs_used s - bl_size r\<rparr>)"
proof -
  have r: "r \<in> set (db_blobs d)" using assms(3) by (auto simp: read_blob_def dest: row_of_SomeD)
  then have "bl_size r \<le> cs_used s" "0 \<le> bl_size r"
    using assms(1,4) size_le_total[OF r] by (auto simp: accounted_def blob_bytes_def)
  moreover have "filter (\<lambda>r. bl_id r = b) (db_blobs d) = [r]"
    using assms(2,3) by (auto simp: read_blob_def filter_keyed)
  ultimately show ?thesis using assms(4)
    by (cases "bl_size r = 0") (simp_all add: delete_record_unfold account_for_deleted_blobs_def delete_blobs_where_def
        adjust_storage_used_def on_state_def)
qed

text \<open>
  Deleting a blob on request: a blob that an entry or unexpired history refers to is left
  alone, row and ciphertext; any other blob loses both, and its bytes are given back to the
  quota; when the storage fails, or the vault is paused, or the token is refused, neither the
  database nor the storage changes. Other blobs are not touched.
\<close>

theorem delete_blob_effect:
  assumes ok: "vault_ok now v c" and now: "now \<le> ev_clk env 0" and b: "b \<noteq> []"
    and run: "delete_blob env v b c = (res, c')"
  shows "(\<forall>a. a \<noteq> b \<longrightarrow> read_blob a (co_db c') = read_blob a (co_db c)) \<and>
    (case res of
       Inl _ \<Rightarrow> c' = c
     | Inr _ \<Rightarrow>
         if pinned (ev_clk env 0) (co_db c) b then c' = c
         else read_blob b (co_db c') = None \<and> co_objects c' = co_objects c - {blob_object_key v b} \<and>
           (case read_blob b (co_db c) of
              None \<Rightarrow> db_state (co_db c') = db_state (co_db c)
            | Some r \<Rightarrow> \<forall>s. db_state (co_db c) = Some s \<longrightarrow>
                (\<exists>s'. db_state (co_db c') = Some s' \<and> cs_used s' = cs_used s - bl_size r)))"
proof -
  let ?t = "ev_clk env 0" and ?k = "blob_object_key v b"
  have keys: "keyed bl_id (db_blobs (co_db c))" and acc: "accounted (co_db c)"
    using ok by (simp_all add: vault_inv_def db_ok_def db_keys_def)
  show ?thesis
  proof (cases "(\<exists>e. ev_token env = Inl e) \<or> read_sync_pause (co_db c) \<noteq> None \<or>
      (read_blob b (co_db c) \<noteq> None \<and> pinned ?t (co_db c) b)")
    case True
    then show ?thesis using run by (auto simp: delete_blob_def pinned_def Let_def split: sum.splits if_splits)
  next
    case False
    have np: "\<not> pinned ?t (co_db c) b"
      using False vault_ok_later[OF ok now] b pinned_has_row[of ?t "co_db c" b] by (auto simp: vault_inv_def)
    obtain r c1 where del: "object_delete env ?k c = (r, c1)" by fastforce
    have run': "(res, c') = (case r of Inl e \<Rightarrow> (Inl e, c1) | Inr _ \<Rightarrow>
        (Inr (), if read_blob b (co_db c) = None then c1 else notify_storage_status_changed env
           (schedule_summary_flush (ev_clk env 1) (on_db (delete_record b) c1))))"
      using run False del by (auto simp: delete_blob_def pinned_def Let_def split: sum.splits)
    show ?thesis
    proof (cases r)
      case (Inl e)
      then show ?thesis using run' del by (auto simp: object_delete_def split: option.splits if_splits)
    next
      case (Inr u)
      then have c1: "c1 = c\<lparr>co_objects := co_objects c - {?k}\<rparr>"
        using del by (auto simp: object_delete_def split: option.splits if_splits)
      have rows: "db_blobs (co_db c') = db_blobs (delete_record b (co_db c)) \<and> co_objects c' = co_objects c - {?k} \<and>
          db_state (co_db c') = db_state (delete_record b (co_db c))" if "read_blob b (co_db c) \<noteq> None"
        using that run' Inr by (auto simp: c1 store_simps)
      have gone: "read_blob x (delete_record b (co_db c)) = (if x = b then None else read_blob x (co_db c))" for x
        using keys by (rule read_delete_record)
      show ?thesis
      proof (cases "read_blob b (co_db c)")
        case None
        then show ?thesis using run' Inr np by (simp add: c1)
      next
        case (Some row)
        then have same: "read_blob x (co_db c') = (if x = b then None else read_blob x (co_db c))" for x
          using rows gone by (simp add: read_blob_def)
        have "res = Inr ()" using run' Inr by simp
        then show ?thesis using rows same np Some delete_record_used[OF acc keys Some] by simp
      qed
    qed
  qed
qed

section \<open>Instances\<close>

lemma example_staged: "fst (stage_blob example_env ''n'' 5 example_vault) = Inr ()" by code_simp
lemma example_refused: "fst (stage_blob example_env ''n'' 60 example_vault) =
    Inl (blob_stage_error ''n'' (File_too_large 50 60))" by code_simp

theorem stage_blob_respects_limits_witness:
  "\<exists>s'. db_state (co_db (snd (stage_blob example_env ''n'' 5 example_vault))) = Some s' \<and> cs_used s' = 12"
proof -
  have run: "stage_blob example_env ''n'' 5 example_vault = (Inr (), snd (stage_blob example_env ''n'' 5 example_vault))"
    using example_staged by (metis prod.collapse)
  have "read_blob ''n'' example_db = None" by (simp add: read_blob_def example_rows row_of_Cons)
  then show ?thesis using stage_blob_respects_limits[OF example_vault_ok[of 10] _ _ run] by (auto simp: example_rows)
qed

theorem stage_blob_error_effect_witness: "snd (stage_blob example_env ''n'' 60 example_vault) = example_vault"
proof -
  have run: "stage_blob example_env ''n'' 60 example_vault =
      (Inl (blob_stage_error ''n'' (File_too_large 50 60)), snd (stage_blob example_env ''n'' 60 example_vault))"
    using example_refused by (metis prod.collapse)
  from stage_blob_error_effect[OF run] show ?thesis by auto
qed

theorem delete_blob_effect_witness:
  "read_blob ''p'' (co_db (snd (delete_blob example_env ''v'' ''p'' example_vault))) = None \<and>
   co_objects (snd (delete_blob example_env ''v'' ''p'' example_vault)) = {''v/b''}"
proof -
  have "fst (delete_blob example_env ''v'' ''p'' example_vault) = Inr ()" by code_simp
  then have run: "delete_blob example_env ''v'' ''p'' example_vault =
      (Inr (), snd (delete_blob example_env ''v'' ''p'' example_vault))" by (metis prod.collapse)
  from delete_blob_effect[OF example_vault_ok[of 10] _ _ run] show ?thesis
    by (auto simp: blob_object_key_def blob_object_key_prefix_def)
qed

end
