(* ===== verification/Vault_Service.thy ===== *)
theory Vault_Service
  imports Blob_Service
begin

text \<open>
  \<open>services/vault-service.ts\<close>: the manual pause, the state of a new vault, the policy of its
  plan, the purge of a deleted vault, and the repair of stale staged blobs. The limits of a new
  vault come from the billing side and are a parameter.
\<close>

section \<open>Operations\<close>

definition manual_sync_pause_prefix :: string where "manual_sync_pause_prefix = ''manual: ''"
definition max_repairable_stale_staged_blobs :: int where "max_repairable_stale_staged_blobs = 100"

definition service_read_sync_pause :: "ident \<Rightarrow> coordinator \<Rightarrow> coord_error + sync_pause option" where
  "service_read_sync_pause vaultId c =
     map_sum id (\<lambda>present. if present then read_sync_pause (co_db c) else None)
       (vault_state_exists_for vaultId (co_db c))"

definition set_sync_pause ::
  "env \<Rightarrow> ident \<Rightarrow> string option \<Rightarrow> coordinator \<Rightarrow> (coord_error + sync_pause option) \<times> coordinator" where
  "set_sync_pause env vaultId reason c =
     (case vault_state_exists_for vaultId (co_db c) of
        Inl e \<Rightarrow> (Inl e, c)
      | Inr False \<Rightarrow> (Inl (AppError ''not_found'' []), c)
      | Inr True \<Rightarrow>
          if (case read_sync_pause (co_db c) of None \<Rightarrow> False
              | Some p \<Rightarrow> \<not> starts_with manual_sync_pause_prefix (sp_reason p))
          then (Inl (AppError ''sync_repair_required''
                 [(''message'', DStr ''vault requires sync repair before changing its pause state'')]), c)
          else let c1 = (case reason of
                   None \<Rightarrow> on_db clear_sync_pause c
                 | Some r \<Rightarrow> close_all_sockets 1013 ''sync paused for vault repair''
                     (on_db (pause_sync (ev_clk env 0) (manual_sync_pause_prefix @ r)) c))
               in (Inr (read_sync_pause (co_db c1)), c1))"

definition service_ensure_vault_state ::
  "coord_error + vault_limits \<Rightarrow> ident \<Rightarrow> coordinator \<Rightarrow> (coord_error + unit) \<times> coordinator" where
  \<comment> \<open>\<open>ensureVaultState\<close>; the first argument is the answer of the initial limit reader\<close>
  "service_ensure_vault_state initialLimits vaultId c =
     (case vault_state_exists_for vaultId (co_db c) of
        Inl e \<Rightarrow> (Inl e, c)
      | Inr True \<Rightarrow> (Inr (), c)
      | Inr False \<Rightarrow> (case initialLimits of
            Inl e \<Rightarrow> (Inl e, c)
          | Inr limits \<Rightarrow> let (r, d) = ensure_vault_state vaultId limits (co_db c) in (r, c\<lparr>co_db := d\<rparr>)))"

definition detach_local_vault :: "env \<Rightarrow> ident \<Rightarrow> ident \<Rightarrow> coordinator \<Rightarrow> coordinator" where
  "detach_local_vault env userId localVaultId c =
     schedule_summary_flush (ev_clk env 0) (on_db (delete_connection userId localVaultId) c)"

definition apply_vault_policy ::
  "env \<Rightarrow> ident \<Rightarrow> vault_limits \<Rightarrow> coordinator \<Rightarrow> (coord_error + bool) \<times> coordinator" where
  "apply_vault_policy env vaultId limits c =
     (case store_apply_vault_policy vaultId limits (co_db c) of
        (Inl e, d) \<Rightarrow> (Inl e, c)
      | (Inr False, d) \<Rightarrow> (Inr False, c)
      | (Inr True, d) \<Rightarrow>
          let c1 = schedule_summary_flush (ev_clk env 0) (c\<lparr>co_db := d\<rparr>);
              (used, lim) = read_storage_status (co_db c1)
          in (Inr True, c1\<lparr>co_calls := co_calls c1 @
                [Broadcast_policy_updated (lim_storage limits) (lim_maxFile limits) used lim]\<rparr>))"

definition purge_vault :: "env \<Rightarrow> ident \<Rightarrow> coordinator \<Rightarrow> (coord_error + unit) \<times> coordinator" where
  "purge_vault env vaultId c =
     (case object_delete_prefix env (blob_object_key_prefix vaultId)
             (close_all_sockets 4403 ''vault deleted'' (c\<lparr>co_purged := True\<rparr>)) of
        (Inl e, c1) \<Rightarrow> (Inl e, c1)
      | (Inr _, c1) \<Rightarrow> (Inr (), on_db purge_vault_state c1))"

definition handle_socket_close :: "env \<Rightarrow> coordinator \<Rightarrow> coordinator" where
  \<comment> \<open>\<open>bind-coordinator-api.ts\<close>\<close>
  "handle_socket_close env c = (if co_purged c then c else schedule_summary_flush (ev_clk env 0) c)"

subsection \<open>Repair\<close>

datatype repair_issue =
  Unsupported_pause_reason | Referenced_staged_blob | Blob_storage_delete_failed | Repair_limit_exceeded

datatype repair_status = Repaired | Not_paused | Manual_repair_required

record repair_result =
  rr_status :: repair_status
  rr_deleted :: int
  rr_remaining :: int
  rr_nextGcAt :: "millis option"
  rr_pause :: "sync_pause option"
  rr_issue :: "repair_issue option"

definition empty_repair_result :: "sync_pause option \<Rightarrow> millis option \<Rightarrow> repair_status \<Rightarrow> repair_result" where
  "empty_repair_result pause nextGcAt status =
     \<lparr>rr_status = status, rr_deleted = 0, rr_remaining = 0, rr_nextGcAt = nextGcAt, rr_pause = pause,
      rr_issue = None\<rparr>"

definition repair_required_result ::
  "sync_pause option \<Rightarrow> int \<Rightarrow> millis option \<Rightarrow> repair_issue \<Rightarrow> int \<Rightarrow> repair_result" where
  "repair_required_result pause remaining nextGcAt issue deletedCount =
     \<lparr>rr_status = Manual_repair_required, rr_deleted = deletedCount, rr_remaining = remaining,
      rr_nextGcAt = nextGcAt, rr_pause = pause, rr_issue = Some issue\<rparr>"

definition repair_blob ::
  "env \<Rightarrow> ident \<Rightarrow> millis \<Rightarrow> blob_row \<Rightarrow> int \<times> repair_issue option \<times> coordinator \<Rightarrow>
   int \<times> repair_issue option \<times> coordinator" where
  \<comment> \<open>the body of the loop: the row first, then the object; the transaction cannot fail\<close>
  "repair_blob env vaultId now blob acc =
     (let (deletedCount, issue, c) = acc;
          (metadataResult, d) = delete_unreferenced_staged_blob (bl_id blob) now (co_db c);
          c1 = c\<lparr>co_db := d\<rparr>
      in if metadataResult = Staged_referenced then (deletedCount, Some Referenced_staged_blob, c1)
         else case object_delete env (blob_object_key vaultId (bl_id blob)) c1 of
             (Inl _, c2) \<Rightarrow> (deletedCount, Some Blob_storage_delete_failed, c2)
           | (Inr _, c2) \<Rightarrow> (if metadataResult = Staged_deleted then deletedCount + 1 else deletedCount, issue, c2))"

definition stale_blobs :: "millis \<Rightarrow> coordinator \<Rightarrow> blob_row list" where
  "stale_blobs now c =
     list_stale_staged_blobs (now - staged_blob_stale_ms) (max_repairable_stale_staged_blobs + 1) (co_db c)"

definition repair_stale_blobs ::
  "env \<Rightarrow> ident \<Rightarrow> millis \<Rightarrow> sync_pause option \<Rightarrow> blob_row list \<Rightarrow> coordinator \<Rightarrow> repair_result \<times> coordinator" where
  \<comment> \<open>\<open>repairSyncState\<close> after its guards\<close>
  "repair_stale_blobs env vaultId now pause staleBlobs c =
     (let (deletedCount, issue, c1) = fold (repair_blob env vaultId now) staleBlobs (0, None, c);
          remaining = stale_blobs now c1;
          nextGcAt = read_next_gc_at now (co_db c1);
          c2 = schedule_now now c1
      in if issue \<noteq> None \<or> remaining \<noteq> []
         then (repair_required_result pause (int (length remaining)) nextGcAt
                 (case issue of None \<Rightarrow> Referenced_staged_blob | Some i \<Rightarrow> i) deletedCount, c2)
         else (\<lparr>rr_status = (if pause \<noteq> None \<or> deletedCount > 0 then Repaired else Not_paused),
                 rr_deleted = deletedCount, rr_remaining = 0, rr_nextGcAt = nextGcAt, rr_pause = None,
                 rr_issue = None\<rparr>,
               if pause \<noteq> None then on_db clear_sync_pause c2 else c2))"

definition repair_sync_state :: "env \<Rightarrow> ident \<Rightarrow> coordinator \<Rightarrow> (coord_error + repair_result) \<times> coordinator" where
  "repair_sync_state env vaultId c =
     (case vault_state_exists_for vaultId (co_db c) of
        Inl e \<Rightarrow> (Inl e, c)
      | Inr False \<Rightarrow> (Inr (empty_repair_result None None Not_paused), c)
      | Inr True \<Rightarrow>
          let now = ev_clk env 0;
              pause = read_sync_pause (co_db c);
              staleBlobs = stale_blobs now c
          in if (case pause of None \<Rightarrow> False | Some p \<Rightarrow> \<not> is_stale_staged_pause_reason (sp_reason p))
             then (Inr (repair_required_result pause (int (length staleBlobs)) None Unsupported_pause_reason 0), c)
             else if int (length staleBlobs) > max_repairable_stale_staged_blobs
             then (Inr (repair_required_result pause (int (length staleBlobs)) None Repair_limit_exceeded 0), c)
             else let (r, c1) = repair_stale_blobs env vaultId now pause staleBlobs c in (Inr r, c1))"

section \<open>The invariant\<close>

lemma on_state_vault_inv:
  assumes ok: "vault_inv A now v c" and "\<And>s. cs_cursor (f s) = cs_cursor s" "\<And>s. cs_used (f s) = cs_used s"
    and vid: "\<And>s. cs_vaultId (f s) = cs_vaultId s"
  shows "vault_inv A now v (on_db (on_state f) c)"
proof (rule vault_ok_on_db[OF ok])
  show "db_ok now (on_state f (co_db c))" using assms by (intro on_state_db_ok) (auto simp: vault_inv_def)
  show "map_option cs_vaultId (db_state (on_state f (co_db c))) = map_option cs_vaultId (db_state (co_db c))"
    using vid by (cases "db_state (co_db c)") (simp_all add: store_simps)
  show "pinned now (on_state f (co_db c)) b \<Longrightarrow> pinned now (co_db c) b" for b
    using references_cong(3)[of "on_state f (co_db c)" "co_db c" now b] by (simp add: store_simps)
qed (simp add: store_simps)

lemma pause_vault_inv:
  "vault_inv A now v c \<Longrightarrow> vault_inv A now v (on_db (pause_sync t r) c)"
  "vault_inv A now v c \<Longrightarrow> vault_inv A now v (on_db clear_sync_pause c)"
  unfolding pause_sync_def clear_sync_pause_def by (rule on_state_vault_inv; simp)+

lemma set_sync_pause_inv: "vault_inv A now v c \<Longrightarrow> vault_inv A now v (snd (set_sync_pause env x reason c))"
  by (auto simp: set_sync_pause_def Let_def pause_vault_inv close_all_ok
      split: sum.splits bool.splits option.splits)

lemma ensure_state_inv:
  assumes ok: "vault_inv A now v c"
  shows "vault_inv A now v (snd (service_ensure_vault_state limits v c))"
proof (cases "db_state (co_db c)")
  case (Some s)
  then show ?thesis using ok
    by (auto simp: service_ensure_vault_state_def ensure_vault_state_def split: sum.splits bool.splits)
next
  case None
  have "vault_inv A now v (c\<lparr>co_db := (co_db c)\<lparr>db_state := Some \<lparr>cs_vaultId = v, cs_cursor = 0, cs_used = 0,
            cs_limit = l, cs_maxFile = m, cs_retentionDays = r, cs_lastCommitAt = None, cs_lastGcAt = None,
            cs_pausedAt = None, cs_pauseReason = None\<rparr>\<rparr>\<rparr>)" (is "vault_inv A now v (c\<lparr>co_db := ?d\<rparr>)") for l m r
  proof -
    have refs: "current_blob_reference ?d b = current_blob_reference (co_db c) b"
      "retained_blob_reference now ?d b = retained_blob_reference now (co_db c) b"
      "pinned now ?d b = pinned now (co_db c) b" for b by (rule references_cong; simp)+
    have "db_ok now ?d"
      using ok None by (simp add: vault_inv_def db_ok_def db_keys_def accounted_def blob_bytes_def refs_ok_def refs
          read_blob_def seqs_ok_def versions_ok_def) auto
    then show ?thesis using ok by (simp add: vault_inv_def armed_if_def objects_ok_def refs)
  qed
  then show ?thesis using ok None
    by (auto simp: service_ensure_vault_state_def ensure_vault_state_def split: sum.splits bool.splits)
qed

lemma delete_connection_frame [store_simps]:
  "db_entries (delete_connection u l d) = db_entries d" "db_versions (delete_connection u l d) = db_versions d"
  "db_blobs (delete_connection u l d) = db_blobs d" "db_state (delete_connection u l d) = db_state d"
  "db_jobs (delete_connection u l d) = db_jobs d" "db_revocations (delete_connection u l d) = db_revocations d"
  by (simp_all add: delete_connection_def)

lemma delete_connection_inv:
  assumes ok: "vault_inv A now v c"
  shows "vault_inv A now v (on_db (delete_connection u l) c)"
proof (rule vault_ok_on_db[OF ok])
  let ?d = "delete_connection u l (co_db c)"
  have refs: "current_blob_reference ?d b = current_blob_reference (co_db c) b"
    "retained_blob_reference now ?d b = retained_blob_reference now (co_db c) b"
    "pinned now ?d b = pinned now (co_db c) b" for b by (rule references_cong; simp add: store_simps)+
  have "keyed connection_key (db_connections ?d)"
    using ok by (simp add: vault_inv_def db_ok_def db_keys_def delete_connection_def keyed_delete_rows)
  moreover have "accounted ?d" "seqs_ok ?d"
    using ok accounted_cong[of ?d "co_db c"] seqs_ok_cong[of ?d "co_db c"]
    by (simp_all add: vault_inv_def db_ok_def store_simps)
  ultimately show "db_ok now ?d"
    using ok by (simp add: vault_inv_def db_ok_def db_keys_def refs_ok_def refs read_blob_def versions_ok_def store_simps)
  show "pinned now ?d b \<Longrightarrow> pinned now (co_db c) b" for b by (simp add: refs)
qed (simp_all add: delete_connection_def)

lemma detach_inv: "vault_inv A now v c \<Longrightarrow> vault_inv A now v (detach_local_vault env u l c)"
  by (simp add: detach_local_vault_def schedule_summary_ok delete_connection_inv)

lemma calls_inv: "vault_inv A now v c \<Longrightarrow> vault_inv A now v (c\<lparr>co_calls := xs\<rparr>)"
  by (rule vault_ok_same_data) (auto dest: vault_ok_armed)

lemma apply_policy_inv:
  assumes ok: "vault_inv A now v c"
  shows "vault_inv A now v (snd (apply_vault_policy env x limits c))"
proof -
  have "vault_inv A now v (c\<lparr>co_db := on_state (\<lambda>s. s\<lparr>cs_limit := a, cs_maxFile := b, cs_retentionDays := r\<rparr>) (co_db c)\<rparr>)" for a b r
    using on_state_vault_inv[OF ok, of "\<lambda>s. s\<lparr>cs_limit := a, cs_maxFile := b, cs_retentionDays := r\<rparr>"]
    by (simp add: on_db_def)
  then show ?thesis using ok
    by (auto simp: apply_vault_policy_def store_apply_vault_policy_def Let_def calls_inv schedule_summary_ok
        split: sum.splits bool.splits prod.splits)
qed

lemma staged_deletion_frame [store_simps]:
  "db_entries (snd (delete_unreferenced_staged_blob b now d)) = db_entries d"
  "db_versions (snd (delete_unreferenced_staged_blob b now d)) = db_versions d"
  "db_jobs (snd (delete_unreferenced_staged_blob b now d)) = db_jobs d"
  by (simp_all add: delete_unreferenced_staged_blob_def delete_blob_record_def delete_blobs_where_def store_simps
      split: option.splits prod.splits)

lemma vaultId_staged_deletion:
  "map_option cs_vaultId (db_state (snd (delete_unreferenced_staged_blob b now d))) = map_option cs_vaultId (db_state d)"
  by (simp add: delete_unreferenced_staged_blob_def delete_blob_record_def delete_blobs_where_def vaultId_account
      split: option.splits)

lemma staged_deletion_inv:
  assumes "vault_inv A now v c"
  shows "vault_inv A now v (c\<lparr>co_db := snd (delete_unreferenced_staged_blob b now (co_db c))\<rparr>)"
proof -
  have "vault_inv A now v (on_db (\<lambda>d. snd (delete_unreferenced_staged_blob b now d)) c)"
    using assms by (intro vault_ok_on_db)
      (auto simp: delete_unreferenced_staged_db_ok vault_inv_def store_simps vaultId_staged_deletion
        dest: references_cong(3)[THEN iffD1, rotated 2])
  then show ?thesis by (simp add: on_db_def)
qed

lemma staged_deletion_unpinned:
  assumes "db_ok now d" "fst (delete_unreferenced_staged_blob b now d) \<noteq> Staged_referenced" "b \<noteq> []"
  shows "\<not> pinned now d b"
  using assms pinned_has_row[OF assms(1,3)]
  by (auto simp: delete_unreferenced_staged_blob_def pinned_def split: option.splits if_splits)

lemma repair_blob_inv:
  assumes ok: "vault_inv A now v (snd (snd acc))"
  shows "vault_inv A now v (snd (snd (repair_blob env v now blob acc)))"
proof -
  obtain n i c where acc: "acc = (n, i, c)" by (cases acc)
  let ?b = "bl_id blob"
  obtain m d where del: "delete_unreferenced_staged_blob ?b now (co_db c) = (m, d)" by fastforce
  let ?c = "c\<lparr>co_db := d\<rparr>"
  have c1: "vault_inv A now v ?c" using staged_deletion_inv[of A now v c ?b] ok by (simp add: acc del)
  have "vault_inv A now v (snd (object_delete env (blob_object_key v ?b) ?c))" if m: "m \<noteq> Staged_referenced"
  proof (rule object_delete_inv[OF c1])
    assume b: "?b \<noteq> []"
    have "\<not> pinned now (co_db c) ?b"
      using staged_deletion_unpinned[of now "co_db c" ?b] ok b m by (simp add: acc del vault_inv_def)
    moreover have "pinned now d ?b = pinned now (co_db c) ?b"
      using staged_deletion_frame[of ?b now "co_db c"] by (intro references_cong) (simp_all add: del)
    ultimately show "\<not> pinned now (co_db ?c) ?b" by simp
  qed
  then show ?thesis using c1 by (auto simp: repair_blob_def acc del Let_def split: sum.splits prod.splits)
qed

lemma repair_fold_inv:
  "vault_inv A now v (snd (snd acc)) \<Longrightarrow> vault_inv A now v (snd (snd (fold (repair_blob env v now) blobs acc)))"
  by (induction blobs arbitrary: acc) (auto simp: repair_blob_inv)

lemma repair_sync_state_inv:
  assumes ok: "vault_inv A now v c" and now: "now \<le> ev_clk env 0"
  shows "vault_inv A (ev_clk env 0) v (snd (repair_sync_state env v c))"
proof -
  let ?t = "ev_clk env 0"
  have later: "vault_inv A ?t v c" using ok now by (rule vault_ok_later)
  obtain n i c1 where fold: "fold (repair_blob env v ?t) (stale_blobs ?t c) (0, None, c) = (n, i, c1)"
    by (cases "fold (repair_blob env v ?t) (stale_blobs ?t c) (0, None, c)")
  have "vault_inv A ?t v c1"
    using repair_fold_inv[of A ?t v "(0, None, c)" env "stale_blobs ?t c"] later by (simp add: fold)
  then have c2: "vault_inv A ?t v (schedule_now ?t c1)" by (simp add: schedule_now_def schedule_at_ok)
  then show ?thesis using later
    by (simp add: repair_sync_state_def repair_stale_blobs_def Let_def fold pause_vault_inv
        split: sum.splits bool.splits option.splits)
qed

lemma purge_vault_inv:
  assumes "purge_vault env v c = (Inr (), c')"
  shows "vault_inv A now w c'"
proof -
  have "co_db c' = empty_db" using assms by (auto simp: purge_vault_def store_simps split: prod.splits sum.splits)
  then show ?thesis
    by (simp add: vault_inv_def armed_if_def objects_ok_def pinned_iff current_blob_reference_def
        retained_blob_reference_def) (simp add: empty_db_def)
qed

lemma socket_close_inv: "vault_inv A now v c \<Longrightarrow> vault_inv A now v (handle_socket_close env c)"
  by (simp add: handle_socket_close_def schedule_summary_ok)

section \<open>Properties of the pause\<close>

lemma prefixes_disjoint: "starts_with manual_sync_pause_prefix r \<Longrightarrow> \<not> is_stale_staged_pause_reason r"
  by (cases r) (auto simp: starts_with_def manual_sync_pause_prefix_def is_stale_staged_pause_reason_def
      stale_staged_prefix_def)

text \<open>
  The two kinds of pause do not interfere: a pause for repair is neither cleared nor replaced
  by the administrator's pause and resume, and a manual pause is not lifted by a repair, which
  then changes nothing at all.
\<close>

theorem pause_owners_are_separate:
  assumes "read_sync_pause (co_db c) = Some p"
  shows "(\<not> starts_with manual_sync_pause_prefix (sp_reason p) \<longrightarrow> snd (set_sync_pause env v reason c) = c) \<and>
    (starts_with manual_sync_pause_prefix (sp_reason p) \<longrightarrow> snd (repair_sync_state env v c) = c)"
  using assms prefixes_disjoint
  by (auto simp: set_sync_pause_def repair_sync_state_def Let_def split: sum.splits bool.splits)

text \<open>
  Pausing and resuming by hand: a successful pause leaves the vault with a manual pause, the
  first one winning when it is repeated, and closes every socket with 1013; a successful resume
  leaves no pause; the answer is the stored pause, and no other data changes.
\<close>

theorem set_sync_pause_effect:
  assumes run: "set_sync_pause env v reason c = (Inr answer, c')"
    and consistent: "\<And>s. db_state (co_db c) = Some s \<Longrightarrow> cs_pausedAt s = None \<Longrightarrow> cs_pauseReason s = None"
  shows "answer = read_sync_pause (co_db c') \<and>
    db_blobs (co_db c') = db_blobs (co_db c) \<and> db_entries (co_db c') = db_entries (co_db c) \<and>
    (case reason of
       None \<Rightarrow> answer = None \<and> co_calls c' = co_calls c
     | Some r \<Rightarrow>
         (\<exists>p. answer = Some p \<and> starts_with manual_sync_pause_prefix (sp_reason p) \<and>
            (case read_sync_pause (co_db c) of
               None \<Rightarrow> p = \<lparr>sp_pausedAt = ev_clk env 0, sp_reason = manual_sync_pause_prefix @ r\<rparr>
             | Some q \<Rightarrow> p = q)) \<and>
         co_calls c' = co_calls c @ [Close_all_sockets 1013 ''sync paused for vault repair''])"
proof -
  have c': "c' = (case reason of None \<Rightarrow> on_db clear_sync_pause c
      | Some r \<Rightarrow> close_all_sockets 1013 ''sync paused for vault repair''
          (on_db (pause_sync (ev_clk env 0) (manual_sync_pause_prefix @ r)) c))"
    and ans: "answer = read_sync_pause (co_db c')" and ex: "vault_state_exists_for v (co_db c) = Inr True"
    and manual: "\<And>p. read_sync_pause (co_db c) = Some p \<Longrightarrow> starts_with manual_sync_pause_prefix (sp_reason p)"
    using run by (auto simp: set_sync_pause_def Let_def split: sum.splits bool.splits if_splits option.splits)
  obtain s where s: "db_state (co_db c) = Some s"
    using ex by (cases "db_state (co_db c)") (auto simp: vault_state_exists_for_def read_vault_id_def)
  show ?thesis
  proof (cases reason)
    case None
    then show ?thesis using ans s by (simp add: c' read_sync_pause_def store_simps on_db_def)
  next
    case (Some r)
    show ?thesis
    proof (cases "cs_pausedAt s")
      case None
      then show ?thesis using Some ans s consistent[OF s]
        by (simp add: c' read_sync_pause_def store_simps on_db_def close_all_sockets_def)
    next
      case paused: (Some t)
      then have "\<exists>q. read_sync_pause (co_db c) = Some q" using s by (simp add: read_sync_pause_def)
      then obtain q where q: "read_sync_pause (co_db c) = Some q" ..
      have "read_sync_pause (pause_sync (ev_clk env 0) (manual_sync_pause_prefix @ r) (co_db c)) = Some q"
        if "cs_pauseReason s \<noteq> None" using that paused s q by (auto simp: read_sync_pause_def store_simps)
      moreover have "cs_pauseReason s \<noteq> None"
        using manual[OF q] paused s q
        by (cases "cs_pauseReason s") (auto simp: read_sync_pause_def starts_with_def manual_sync_pause_prefix_def)
      ultimately show ?thesis using Some ans q manual[OF q]
        by (simp add: c' store_simps close_all_sockets_def on_db_def)
    qed
  qed
qed

section \<open>Properties of the purge\<close>

text \<open>
  C37. Purging a deleted vault: when it succeeds, the database is empty, every object of the vault
  is gone and no object of another vault is touched, and neither a late alarm nor the closing
  of the sockets writes anything back; when the storage fails, the database is untouched, so
  the purge can be repeated.
\<close>

theorem purge_erases_vault:
  assumes run: "purge_vault env v c = (res, c')"
  shows "co_purged c' \<and>
    (case res of
       Inl _ \<Rightarrow> co_db c' = co_db c
     | Inr _ \<Rightarrow> co_db c' = empty_db \<and>
         (\<forall>b. blob_object_key v b \<notin> co_objects c') \<and>
         (\<forall>w b. CHR ''/'' \<notin> set v \<and> CHR ''/'' \<notin> set w \<and> w \<noteq> v \<longrightarrow>
            (blob_object_key w b \<in> co_objects c') = (blob_object_key w b \<in> co_objects c)) \<and>
         (\<forall>env'. co_db (alarm_fires env' c') = empty_db \<and> handle_socket_close env' c' = c'))"
proof -
  have other: "\<not> starts_with (v @ ''/'') (w @ ''/'' @ b)"
    if "CHR ''/'' \<notin> set v" "CHR ''/'' \<notin> set w" "w \<noteq> v" for w b
  proof
    assume "starts_with (v @ ''/'') (w @ ''/'' @ b)"
    then have "takeWhile (\<lambda>x. x \<noteq> CHR ''/'') (w @ ''/'' @ b) = takeWhile (\<lambda>x. x \<noteq> CHR ''/'') ((v @ ''/'') @ drop (Suc (length v)) (w @ ''/'' @ b))"
      unfolding starts_with_def by (metis append_take_drop_id length_append_singleton)
    with that show False by (auto simp: takeWhile_append split: if_splits)
  qed
  show ?thesis
    using run other blob_object_key_has_prefix[of v]
    by (auto simp: purge_vault_def store_simps object_delete_prefix_def close_all_sockets_def alarm_fires_def
        handle_alarm_def handle_socket_close_def blob_object_key_def blob_object_key_prefix_def
        split: option.splits)
qed

section \<open>Properties of the repair\<close>

lemma staged_deletion_rows:
  assumes "keyed bl_id (db_blobs d)"
  shows "read_blob x (snd (delete_unreferenced_staged_blob b now d)) =
    (if x = b \<and> fst (delete_unreferenced_staged_blob b now d) \<noteq> Staged_referenced then None else read_blob x d)"
proof -
  have keep: "read_blob y (account_for_deleted_blobs rs d') = read_blob y d'" for y rs d'
    by (simp add: read_blob_def store_simps)
  show ?thesis using read_blob_delete_where[OF assms]
    by (cases "read_blob b d"; cases "read_blob x d")
      (auto simp: delete_unreferenced_staged_blob_def delete_blob_record_def delete_blobs_where_def keep
        dest: read_blob_SomeD split: option.splits if_splits)
qed

text \<open>One step of the repair touches only an unreferenced staged row.\<close>

lemma repair_blob_db:
  "co_db (snd (snd (repair_blob env v now blob acc))) =
   snd (delete_unreferenced_staged_blob (bl_id blob) now (co_db (snd (snd acc))))"
proof -
  obtain n i c where acc: "acc = (n, i, c)" by (cases acc)
  obtain m d where del: "delete_unreferenced_staged_blob (bl_id blob) now (co_db c) = (m, d)" by fastforce
  show ?thesis
    using object_delete_frame(1)[of env "blob_object_key v (bl_id blob)" "c\<lparr>co_db := d\<rparr>"]
    by (auto simp: repair_blob_def acc del Let_def split: sum.splits prod.splits)
qed

lemma staged_deletion_kept:
  assumes "read_blob x d = Some r" "bl_state r \<noteq> Staged \<or> pinned now d x \<or> x \<noteq> b" "keyed bl_id (db_blobs d)"
  shows "read_blob x (snd (delete_unreferenced_staged_blob b now d)) = Some r"
  using assms staged_deletion_rows[OF assms(3), of x b now]
  by (auto simp: delete_unreferenced_staged_blob_def pinned_def split: option.splits if_splits)

lemma keyed_staged_deletion:
  "keyed bl_id (db_blobs d) \<Longrightarrow> keyed bl_id (db_blobs (snd (delete_unreferenced_staged_blob b now d)))"
  by (auto simp: delete_unreferenced_staged_blob_def delete_blob_record_def delete_blobs_where_def store_simps
      keyed_delete_rows split: option.splits)

lemma repair_fold_kept:
  assumes "read_blob x (co_db (snd (snd acc))) = Some r" "keyed bl_id (db_blobs (co_db (snd (snd acc))))"
    and "bl_state r \<noteq> Staged \<or> pinned now (co_db (snd (snd acc))) x \<or> x \<notin> bl_id ` set blobs"
  shows "read_blob x (co_db (snd (snd (fold (repair_blob env v now) blobs acc)))) = Some r"
  using assms
proof (induction blobs arbitrary: acc)
  case Nil
  then show ?case by simp
next
  case (Cons b blobs)
  let ?acc = "repair_blob env v now b acc" and ?d = "co_db (snd (snd acc))"
  have pin: "pinned now (co_db (snd (snd ?acc))) x = pinned now ?d x"
    by (rule references_cong) (simp_all add: repair_blob_db store_simps)
  have "read_blob x (co_db (snd (snd ?acc))) = Some r"
    unfolding repair_blob_db using Cons.prems by (intro staged_deletion_kept) auto
  moreover have "keyed bl_id (db_blobs (co_db (snd (snd ?acc))))"
    unfolding repair_blob_db using Cons.prems by (intro keyed_staged_deletion)
  ultimately show ?case using Cons.IH[of ?acc] Cons.prems(3) by (auto simp: pin)
qed

lemma staged_deletion_state:
  assumes "\<And>s u. f (s\<lparr>cs_used := u\<rparr>) = f s"
  shows "map_option f (db_state (snd (delete_unreferenced_staged_blob b now d))) = map_option f (db_state d)"
  using assms by (cases "db_state d") (auto simp: delete_unreferenced_staged_blob_def delete_blob_record_def
      delete_blobs_where_def account_for_deleted_blobs_def Let_def store_simps split: option.splits)

lemma repair_fold_state:
  "map_option cs_pausedAt (db_state (co_db (snd (snd (fold (repair_blob env v now) blobs acc))))) =
   map_option cs_pausedAt (db_state (co_db (snd (snd acc)))) \<and>
   map_option cs_pauseReason (db_state (co_db (snd (snd (fold (repair_blob env v now) blobs acc))))) =
   map_option cs_pauseReason (db_state (co_db (snd (snd acc))))"
proof (induction blobs arbitrary: acc)
  case Nil
  then show ?case by simp
next
  case (Cons b blobs)
  then show ?case by (simp add: repair_blob_db staged_deletion_state)
qed

lemma read_sync_pause_cong:
  "map_option cs_pausedAt (db_state d) = map_option cs_pausedAt (db_state d') \<Longrightarrow>
   map_option cs_pauseReason (db_state d) = map_option cs_pauseReason (db_state d') \<Longrightarrow>
   read_sync_pause d = read_sync_pause d'"
  by (cases "db_state d"; cases "db_state d'") (auto simp: read_sync_pause_def split: option.splits)

lemma stale_blobs_iff:
  "stale_blobs now c = [] \<longleftrightarrow>
   (\<forall>r \<in> set (db_blobs (co_db c)). bl_state r = Staged \<longrightarrow> now - staged_blob_stale_ms < bl_createdAt r)"
  by (auto simp: stale_blobs_def list_stale_staged_blobs_def sql_limit_def max_repairable_stale_staged_blobs_def
      filter_empty_conv not_le dest: arg_cong[of _ _ length])

lemma set_stale_blobs:
  "r \<in> set (stale_blobs now c) \<Longrightarrow> r \<in> set (db_blobs (co_db c)) \<and> bl_state r = Staged \<and> bl_createdAt r \<le> now - staged_blob_stale_ms"
  by (auto simp: stale_blobs_def list_stale_staged_blobs_def dest!: set_sql_limit)

lemma repair_exists:
  assumes run: "repair_sync_state env v c = (Inr r, c')" and ex: "vault_state_exists_for v (co_db c) = Inr True"
  shows "(c' = c \<and> rr_status r = Manual_repair_required) \<or>
    (r, c') = repair_stale_blobs env v (ev_clk env 0) (read_sync_pause (co_db c)) (stale_blobs (ev_clk env 0) c) c"
  using assms
  by (auto simp: repair_sync_state_def Let_def repair_required_result_def split: sum.splits prod.splits if_splits)

text \<open>
  C36. The repair is safe and its verdict is honest: a blob that is live, retired, referenced or
  staged less than an hour ago keeps its row; if the repair reports that work is left for an
  administrator, the pause is as it was, and otherwise the vault is not paused and no blob has
  been staged for an hour or more.
\<close>

theorem repair_outcome:
  assumes ok: "vault_ok now v c" and ex: "vault_state_exists_for v (co_db c) = Inr True"
    and run: "repair_sync_state env v c = (Inr r, c')"
  shows "(\<forall>x row. read_blob x (co_db c) = Some row \<and>
        (bl_state row \<noteq> Staged \<or> pinned (ev_clk env 0) (co_db c) x \<or> ev_clk env 0 - staged_blob_stale_ms < bl_createdAt row) \<longrightarrow>
        read_blob x (co_db c') = Some row) \<and>
    (if rr_status r = Manual_repair_required then read_sync_pause (co_db c') = read_sync_pause (co_db c)
     else read_sync_pause (co_db c') = None \<and>
       (\<forall>row \<in> set (db_blobs (co_db c')). bl_state row = Staged \<longrightarrow> ev_clk env 0 - staged_blob_stale_ms < bl_createdAt row))"
proof -
  let ?t = "ev_clk env 0"
  have keys: "keyed bl_id (db_blobs (co_db c))" using ok by (simp add: vault_inv_def db_ok_def db_keys_def)
  obtain n i c1 where fold: "fold (repair_blob env v ?t) (stale_blobs ?t c) (0, None, c) = (n, i, c1)"
    by (cases "fold (repair_blob env v ?t) (stale_blobs ?t c) (0, None, c)")
  have kept: "read_blob x (co_db c1) = Some row"
    if "read_blob x (co_db c) = Some row"
      "bl_state row \<noteq> Staged \<or> pinned ?t (co_db c) x \<or> ?t - staged_blob_stale_ms < bl_createdAt row" for x row
  proof -
    have fresh: "x \<notin> bl_id ` set (stale_blobs ?t c)" if recent: "?t - staged_blob_stale_ms < bl_createdAt row"
    proof
      assume "x \<in> bl_id ` set (stale_blobs ?t c)"
      then obtain b where b: "bl_id b = x" "b \<in> set (stale_blobs ?t c)" by blast
      have "b = row" using keyed_unique[OF keys, of b row] b set_stale_blobs[OF b(2)]
          read_blob_SomeD[OF \<open>read_blob x (co_db c) = Some row\<close>] by simp
      then show False using set_stale_blobs[OF b(2)] recent by simp
    qed
    show ?thesis
      using repair_fold_kept[of x "(0, None, c)" row ?t "stale_blobs ?t c" env v] that keys fresh by (simp add: fold) blast
  qed
  have pause1: "read_sync_pause (co_db c1) = read_sync_pause (co_db c)"
    using repair_fold_state[of env v ?t "stale_blobs ?t c" "(0, None, c)"] by (intro read_sync_pause_cong) (simp_all add: fold)
  let ?c2 = "schedule_now ?t c1"
  have same2: "db_blobs (co_db ?c2) = db_blobs (co_db c1)" "db_state (co_db ?c2) = db_state (co_db c1)"
    by (simp_all add: schedule_now_def store_simps)
  consider (same) "c' = c" "rr_status r = Manual_repair_required"
    | (left) "c' = ?c2" "rr_status r = Manual_repair_required"
    | (finished) "stale_blobs ?t c1 = []" "rr_status r \<noteq> Manual_repair_required"
        "c' = (if read_sync_pause (co_db c) \<noteq> None then on_db clear_sync_pause ?c2 else ?c2)"
    using repair_exists[OF run ex]
    by (auto simp: repair_stale_blobs_def fold Let_def repair_required_result_def split: if_splits)
  then show ?thesis
  proof cases
    case same
    then show ?thesis by simp
  next
    case left
    then show ?thesis using kept pause1 by (simp add: read_blob_def same2 read_sync_pause_def)
  next
    case finished
    have "db_blobs (co_db c') = db_blobs (co_db c1)" using finished(3) by (simp add: same2 store_simps)
    moreover have "read_sync_pause (co_db c') = None"
      using finished(3) pause1 by (auto simp: same2 store_simps read_sync_pause_def split: option.splits)
    ultimately show ?thesis using kept finished(1,2) by (simp add: read_blob_def stale_blobs_iff)
  qed
qed

section \<open>Instances\<close>

theorem pause_owners_are_separate_witness:
  "snd (repair_sync_state example_env ''v'' example_paused) = example_paused"
  using pause_owners_are_separate[OF example_paused_reason, of example_env "''v''" None]
  by (simp add: starts_with_def manual_sync_pause_prefix_def)

theorem set_sync_pause_effect_witness:
  "read_sync_pause (co_db (snd (set_sync_pause example_env ''v'' (Some ''x'') example_vault))) =
   Some \<lparr>sp_pausedAt = 10, sp_reason = ''manual: x''\<rparr>"
proof -
  obtain answer c' where run: "set_sync_pause example_env ''v'' (Some ''x'') example_vault = (Inr answer, c')"
    by (simp add: set_sync_pause_def vault_state_exists_for_def read_vault_id_def read_sync_pause_def example_rows Let_def)
  have "read_sync_pause example_db = None" by (simp add: read_sync_pause_def example_rows)
  then show ?thesis using set_sync_pause_effect[OF run] run by (auto simp: example_rows manual_sync_pause_prefix_def)
qed

theorem purge_erases_vault_witness:
  "co_db (snd (purge_vault example_env ''v'' example_vault)) = empty_db"
proof -
  obtain c' where run: "purge_vault example_env ''v'' example_vault = (Inr (), c')"
    by (simp add: purge_vault_def object_delete_prefix_def)
  from purge_erases_vault[OF run] show ?thesis by (simp add: run)
qed

definition example_stale :: coordinator where
  \<comment> \<open>an upload that was never committed\<close>
  "example_stale = snd (stage_blob example_env ''n'' 5 example_vault)"

definition example_late :: env where
  "example_late = example_env\<lparr>ev_clk := (\<lambda>_. 10000000)\<rparr>"

lemma example_repaired:
  "map_sum id rr_status (fst (repair_sync_state example_late ''v'' example_stale)) = Inr Repaired"
  "vault_state_exists_for ''v'' (co_db example_stale) = Inr True"
  "map bl_id (stale_blobs 10000000 example_stale) = [''n'']" by code_simp+

theorem repair_outcome_witness:
  "filter (\<lambda>row. bl_state row = Staged \<and> bl_createdAt row \<le> 6400000)
     (db_blobs (co_db (snd (repair_sync_state example_late ''v'' example_stale)))) = []"
proof -
  have ok: "vault_ok 10 ''v'' example_stale"
    unfolding example_stale_def using stage_blob_inv[OF example_vault_ok[of 10], of example_env 5 "''n''"] by simp
  obtain r c' where run: "repair_sync_state example_late ''v'' example_stale = (Inr r, c')" "rr_status r = Repaired"
    using example_repaired(1) by (cases "repair_sync_state example_late ''v'' example_stale") (auto simp: map_sum_def split: sum.splits)
  from repair_outcome[OF ok example_repaired(2) run(1)] show ?thesis
    using run by (auto simp: example_late_def staged_blob_stale_ms_def filter_empty_conv)
qed

end
