(* ===== verification/Sync_Access.thy ===== *)
theory Sync_Access
  imports Vault_Service
begin

text \<open>
  \<open>services/sync-access-service.ts\<close>: the revocations a coordinator keeps so that a sync token
  loses its power as soon as access changes, long before it expires. The rows are cached in
  memory with the earliest expiry; \<open>Infinity\<close> is \<^term>\<open>None\<close>. The snapshot of the sharing
  database and the list of open sockets are parameters.
\<close>

section \<open>Operations\<close>

record access_state =
  ac_cache :: "revocation_row list option" \<comment> \<open>\<open>revocations\<close>\<close>
  ac_nextExpiry :: "millis option"

record access_snapshot =
  sn_suspended :: bool
  sn_grants :: "(ident \<times> int) list" \<comment> \<open>user and access version\<close>

datatype access_error = Sharing_error int string string \<comment> \<open>status, code, message\<close>

definition vault_suspension_key :: string where "vault_suspension_key = ''vault''"

definition user_revocation_key :: "ident \<Rightarrow> string" where
  "user_revocation_key userId = ''user:'' @ userId"

definition earliest_expiry :: "revocation_row list \<Rightarrow> millis option" where
  "earliest_expiry rows = min_of (map rv_expiresAt rows)"

definition load_access :: "millis \<Rightarrow> access_state \<times> db \<Rightarrow> access_state \<times> db" where
  "load_access now sd =
     (let (s, d) = sd;
          s1 = (case ac_cache s of
                  None \<Rightarrow> \<lparr>ac_cache = Some (read_revocations d), ac_nextExpiry = earliest_expiry (read_revocations d)\<rparr>
                | Some _ \<Rightarrow> s)
      in if (case ac_nextExpiry s1 of None \<Rightarrow> True | Some t \<Rightarrow> t > now) then (s1, d)
         else let rows = filter (\<lambda>r. \<not> rv_expiresAt r \<le> now) (the (ac_cache s1))
              in (\<lparr>ac_cache = Some rows, ac_nextExpiry = earliest_expiry rows\<rparr>, prune_revocations now d))"

definition cached :: "access_state \<Rightarrow> string \<Rightarrow> revocation_row option" where
  \<comment> \<open>\<open>this.revocations?.get(key)\<close>\<close>
  "cached s key = (case ac_cache s of None \<Rightarrow> None | Some rows \<Rightarrow> row_of rv_key key rows)"

definition denial :: "access_state \<Rightarrow> ident \<Rightarrow> int \<Rightarrow> access_error option" where
  "denial s userId version =
     (if cached s vault_suspension_key \<noteq> None
      then Some (Sharing_error 403 ''sharing_suspended''
             ''Shared vault sync is paused until the organization renews Sync Plus'')
      else case cached s (user_revocation_key userId) of
        None \<Rightarrow> None
      | Some revoked \<Rightarrow>
          (case rv_minimumVersion revoked of
             None \<Rightarrow> None
           | Some minimumVersion \<Rightarrow>
               if version < minimumVersion
               then Some (Sharing_error 403 ''vault_access_denied'' ''This sync session is no longer authorized'')
               else None))"

definition assert_sync_allowed :: "db \<Rightarrow> access_error + unit" where
  \<comment> \<open>\<open>create-coordinator-application.ts\<close>\<close>
  "assert_sync_allowed d =
     (if \<not> legacy_pause_quota_compatibility \<and> read_sync_pause d \<noteq> None
      then Inl (Sharing_error 503 ''sync_paused'' ''vault sync is temporarily paused for repair'')
      else Inr ())"

definition require_access ::
  "millis \<Rightarrow> ident \<Rightarrow> int \<Rightarrow> access_state \<times> db \<Rightarrow> (access_error + unit) \<times> access_state \<times> db" where
  "require_access now userId accessVersion sd =
     (case assert_sync_allowed (snd sd) of
        Inl e \<Rightarrow> (Inl e, sd)
      | Inr _ \<Rightarrow>
          let sd1 = load_access now sd
          in (case denial (fst sd1) userId accessVersion of Some e \<Rightarrow> Inl e | None \<Rightarrow> Inr (), sd1))"

datatype access_decision = Access_ok | Access_denied int string string

definition authorize_verified ::
  "millis \<Rightarrow> ident \<Rightarrow> int \<Rightarrow> access_state \<times> db \<Rightarrow> access_decision \<times> access_state \<times> db" where
  "authorize_verified now userId accessVersion sd =
     (case require_access now userId accessVersion sd of
        (Inr _, sd1) \<Rightarrow> (Access_ok, sd1)
      | (Inl (Sharing_error status code msg), sd1) \<Rightarrow>
          (Access_denied (if status = 503 then 503 else 403) code msg, sd1))"

definition write_grant :: "millis \<Rightarrow> access_state \<Rightarrow> ident \<times> int \<Rightarrow> db \<Rightarrow> db" where
  \<comment> \<open>the body of the loop over the grants\<close>
  "write_grant expiresAt s grant d =
     (let (userId, accessVersion) = grant in
      if accessVersion \<le> 1 then d
      else let key = user_revocation_key userId;
               previous = cached s key;
               previousMinimum = (case previous of None \<Rightarrow> 0 | Some p \<Rightarrow>
                 (case rv_minimumVersion p of None \<Rightarrow> 0 | Some m \<Rightarrow> m));
               previousExpiry = (case previous of None \<Rightarrow> 0 | Some p \<Rightarrow> rv_expiresAt p)
        in write_revocation \<lparr>rv_key = key, rv_minimumVersion = Some (max accessVersion previousMinimum),
             rv_expiresAt = max expiresAt previousExpiry\<rparr> d)"

definition write_suspension :: "millis \<Rightarrow> bool \<Rightarrow> db \<Rightarrow> db" where
  "write_suspension expiresAt suspended d =
     (if suspended
      then write_revocation \<lparr>rv_key = vault_suspension_key, rv_minimumVersion = None, rv_expiresAt = expiresAt\<rparr> d
      else delete_revocation vault_suspension_key d)"

definition denied_sockets :: "access_state \<Rightarrow> (ident \<times> session) list \<Rightarrow> ident list" where
  "denied_sockets s sockets =
     map fst (filter (\<lambda>(_, session). denial s (ss_userId session)
        (case ss_accessVersion session of None \<Rightarrow> 1 | Some n \<Rightarrow> n) \<noteq> None) sockets)"

definition refresh_access ::
  "env \<Rightarrow> millis \<Rightarrow> access_error + access_snapshot \<Rightarrow> (ident \<times> session) list \<Rightarrow> access_state \<times> coordinator \<Rightarrow>
   (access_error + unit) \<times> access_state \<times> coordinator" where
  \<comment> \<open>\<open>refresh\<close>, which the tail of promises serialises; the second argument is the token lifetime\<close>
  "refresh_access env tokenLifetimeMs snapshot sockets sc =
     (case snapshot of
        Inl e \<Rightarrow> (Inl e, sc)
      | Inr sn \<Rightarrow>
          let (s, c) = sc;
              (s1, d1) = load_access (ev_clk env 0) (s, co_db c);
              expiresAt = ev_clk env 1 + tokenLifetimeMs;
              d2 = write_suspension expiresAt (sn_suspended sn) (fold (write_grant expiresAt s1) (sn_grants sn) d1);
              (s3, d3) = load_access (ev_clk env 2) (s1\<lparr>ac_cache := None\<rparr>, d2);
              calls = map (\<lambda>id. Close_socket id 1012 ''vault access changed; reconnect'') (denied_sockets s3 sockets)
          in (Inr (), s3, c\<lparr>co_db := d3, co_calls := co_calls c @ calls\<rparr>))"

section \<open>The cache\<close>

definition access_ok :: "access_state \<times> db \<Rightarrow> bool" where
  \<comment> \<open>a loaded cache equals the table and knows the earliest expiry\<close>
  "access_ok sd \<longleftrightarrow> keyed rv_key (db_revocations (snd sd)) \<and>
     (\<forall>rows. ac_cache (fst sd) = Some rows \<longrightarrow>
        rows = db_revocations (snd sd) \<and> ac_nextExpiry (fst sd) = earliest_expiry rows)"

definition live_rows :: "millis \<Rightarrow> db \<Rightarrow> revocation_row list" where
  "live_rows now d = filter (\<lambda>r. now < rv_expiresAt r) (db_revocations d)"

text \<open>The specification: a decision by the unexpired rows of the table alone.\<close>

definition denied_by :: "revocation_row list \<Rightarrow> ident \<Rightarrow> int \<Rightarrow> bool" where
  "denied_by rows userId version \<longleftrightarrow>
     (\<exists>r \<in> set rows. rv_key r = vault_suspension_key \<or>
        (rv_key r = user_revocation_key userId \<and> (\<exists>m. rv_minimumVersion r = Some m \<and> version < m)))"

lemma keyed_filter: "keyed key rows \<Longrightarrow> keyed key (filter P rows)"
  using keyed_delete_rows[of key rows "\<lambda>r. \<not> P r"] by (simp add: delete_rows_def)

lemma row_of_filter:
  "keyed key rows \<Longrightarrow> row_of key k (filter P rows) = (case row_of key k rows of None \<Rightarrow> None | Some r \<Rightarrow> if P r then Some r else None)"
  by (induction rows) (auto simp: row_of_Cons keyed_def row_of_None image_iff split: option.splits dest!: row_of_SomeD)

lemma load_access_spec:
  assumes "access_ok (s, d)" "load_access now (s, d) = (s1, d1)"
  shows "ac_cache s1 = Some (live_rows now d) \<and> live_rows now d1 = live_rows now d \<and> access_ok (s1, d1) \<and>
    db_revocations d1 = live_rows now d \<and> d1\<lparr>db_revocations := db_revocations d\<rparr> = d"
proof -
  let ?rows = "db_revocations d"
  have all: "live_rows now d = ?rows" if "case earliest_expiry ?rows of None \<Rightarrow> True | Some t \<Rightarrow> now < t"
    using that min_of_Some(2)[of "map rv_expiresAt ?rows"]
    by (force simp: live_rows_def earliest_expiry_def filter_id_conv split: option.splits)
  define s' where "s' = (case ac_cache s of
      None \<Rightarrow> \<lparr>ac_cache = Some ?rows, ac_nextExpiry = earliest_expiry ?rows\<rparr> | Some _ \<Rightarrow> s)"
  have s': "ac_cache s' = Some ?rows" "ac_nextExpiry s' = earliest_expiry ?rows"
    using assms(1) by (auto simp: s'_def access_ok_def split: option.splits)
  have load: "load_access now (s, d) = (if (case ac_nextExpiry s' of None \<Rightarrow> True | Some t \<Rightarrow> t > now) then (s', d)
      else (\<lparr>ac_cache = Some (live_rows now d), ac_nextExpiry = earliest_expiry (live_rows now d)\<rparr>, prune_revocations now d))"
    using s' by (auto simp: load_access_def Let_def s'_def read_revocations_def live_rows_def not_le split: option.splits)
  have prune: "db_revocations (prune_revocations now d) = live_rows now d"
    by (simp add: prune_revocations_def delete_rows_def live_rows_def not_le)
  have keyed: "keyed rv_key ?rows" "keyed rv_key (live_rows now d)"
    using assms(1) by (simp_all add: access_ok_def live_rows_def keyed_filter)
  show ?thesis
    using assms(2) all s' prune keyed
    by (auto simp: load access_ok_def split: if_splits) (auto simp: prune_revocations_def live_rows_def)
qed

lemma denied_by_row:
  assumes "keyed rv_key rows"
  shows "denied_by rows userId version \<longleftrightarrow> row_of rv_key vault_suspension_key rows \<noteq> None \<or>
    (\<exists>r m. row_of rv_key (user_revocation_key userId) rows = Some r \<and> rv_minimumVersion r = Some m \<and> version < m)"
  using keyed_row_iff[OF assms] unfolding denied_by_def row_of_None by blast

lemma denial_iff:
  assumes "ac_cache s = Some rows" "keyed rv_key rows"
  shows "denial s userId version \<noteq> None \<longleftrightarrow> denied_by rows userId version"
proof -
  have "cached s k = row_of rv_key k rows" for k using assms(1) by (simp add: cached_def)
  then show ?thesis using denied_by_row[OF assms(2)] by (auto simp: denial_def split: option.splits)
qed

section \<open>Properties\<close>

text \<open>
  The cached decision is the decision of the table: whatever was cached and whenever rows
  expired, a verified token is refused exactly when an unexpired row suspends the vault or asks
  a newer access version of its user; and the decision changes neither the unexpired rows nor
  the rest of the database, so it can be repeated.
\<close>

theorem access_decision_is_table_decision:
  assumes ok: "access_ok (s, d)" and run: "authorize_verified now userId version (s, d) = (decision, s', d')"
  shows "(decision = Access_ok \<longleftrightarrow> \<not> denied_by (live_rows now d) userId version) \<and>
    (decision = Access_ok \<or> (\<exists>code msg. decision = Access_denied 403 code msg)) \<and>
    access_ok (s', d') \<and> live_rows now d' = live_rows now d \<and>
    d'\<lparr>db_revocations := db_revocations d\<rparr> = d"
proof -
  obtain s1 d1 where load: "load_access now (s, d) = (s1, d1)" by fastforce
  note spec = load_access_spec[OF ok load]
  have dn: "denial s1 userId version \<noteq> None \<longleftrightarrow> denied_by (live_rows now d) userId version"
    using spec ok by (intro denial_iff) (auto simp: access_ok_def live_rows_def keyed_filter)
  have code: "\<exists>code msg. e = Sharing_error 403 code msg" if "denial s1 userId version = Some e" for e
    using that by (auto simp: denial_def split: if_splits option.splits)
  show ?thesis
  proof (cases "denial s1 userId version")
    case None
    then show ?thesis using run dn spec
      by (simp add: authorize_verified_def require_access_def assert_sync_allowed_def
          legacy_pause_quota_compatibility_def load Let_def)
  next
    case (Some e)
    then obtain code msg where e: "e = Sharing_error 403 code msg" using code by blast
    then show ?thesis using run dn spec Some
      by (auto simp: authorize_verified_def require_access_def assert_sync_allowed_def
          legacy_pause_quota_compatibility_def load Let_def)
  qed
qed

lemma user_key_inj [simp]: "user_revocation_key a = user_revocation_key b \<longleftrightarrow> a = b"
  "user_revocation_key a \<noteq> vault_suspension_key" "vault_suspension_key \<noteq> user_revocation_key a"
  by (auto simp: user_revocation_key_def vault_suspension_key_def)

definition grant_row :: "millis \<Rightarrow> access_state \<Rightarrow> ident \<Rightarrow> int \<Rightarrow> revocation_row" where
  "grant_row expiresAt s u n =
     (let prev = cached s (user_revocation_key u) in
      \<lparr>rv_key = user_revocation_key u,
       rv_minimumVersion = Some (max n (case prev of None \<Rightarrow> 0 | Some p \<Rightarrow> (case rv_minimumVersion p of None \<Rightarrow> 0 | Some m \<Rightarrow> m))),
       rv_expiresAt = max expiresAt (case prev of None \<Rightarrow> 0 | Some p \<Rightarrow> rv_expiresAt p)\<rparr>)"

lemma write_revocation_row:
  "row_of rv_key k (db_revocations (write_revocation r d)) = (if k = rv_key r then Some r else row_of rv_key k (db_revocations d))"
  by (auto simp: write_revocation_def row_of_upsert_row split: option.splits)

lemma write_grant_row:
  "row_of rv_key k (db_revocations (write_grant ex s (u, n) d)) =
    (if 1 < n \<and> k = user_revocation_key u then Some (grant_row ex s u n) else row_of rv_key k (db_revocations d))"
  by (auto simp: write_grant_def Let_def write_revocation_row grant_row_def)

lemma write_grants_row:
  assumes "distinct (map fst grants)"
  shows "row_of rv_key k (db_revocations (fold (write_grant ex s) grants d)) =
    (case find (\<lambda>(u, n). 1 < n \<and> k = user_revocation_key u) grants of
       Some (u, n) \<Rightarrow> Some (grant_row ex s u n)
     | None \<Rightarrow> row_of rv_key k (db_revocations d))"
  using assms
proof (induction grants arbitrary: d)
  case Nil
  then show ?case by simp
next
  case (Cons g grants)
  obtain u n where g: "g = (u, n)" by fastforce
  have "find (\<lambda>(u, n). 1 < n \<and> k = user_revocation_key u) grants = None" if "k = user_revocation_key u"
    using Cons.prems that by (auto simp: g find_None_iff image_iff)
  then show ?case using Cons.IH[of "write_grant ex s g d"] Cons.prems
    by (auto simp: g write_grant_row split: option.splits)
qed

lemma write_access_keyed:
  "keyed rv_key (db_revocations d) \<Longrightarrow> keyed rv_key (db_revocations (write_grant ex s g d))"
  "keyed rv_key (db_revocations d) \<Longrightarrow> keyed rv_key (db_revocations (fold (write_grant ex s) gs d))"
  "keyed rv_key (db_revocations d) \<Longrightarrow> keyed rv_key (db_revocations (write_suspension ex b d))"
proof -
  have put: "keyed rv_key (db_revocations d) \<Longrightarrow> keyed rv_key (db_revocations (write_revocation r d))" for r d
    using revocations.inv_put[of d "rv_key r" "(rv_minimumVersion r, rv_expiresAt r)"] by (cases r) simp
  show grant: "keyed rv_key (db_revocations d) \<Longrightarrow> keyed rv_key (db_revocations (write_grant ex s g d))" for g d
    by (cases g) (simp add: write_grant_def Let_def put)
  show "keyed rv_key (db_revocations d) \<Longrightarrow> keyed rv_key (db_revocations (fold (write_grant ex s) gs d))"
    by (induction gs arbitrary: d) (auto simp: grant)
  show "keyed rv_key (db_revocations d) \<Longrightarrow> keyed rv_key (db_revocations (write_suspension ex b d))"
    by (simp add: write_suspension_def put revocations.inv_del)
qed

lemma live_row:
  "keyed rv_key (db_revocations d) \<Longrightarrow> row_of rv_key k (live_rows t d) = (case row_of rv_key k (db_revocations d) of
      None \<Rightarrow> None | Some r \<Rightarrow> if t < rv_expiresAt r then Some r else None)"
  using row_of_filter by (simp add: live_rows_def)

text \<open>The table after a refresh, row by row.\<close>

lemma refresh_table:
  assumes ok: "access_ok (s, co_db c)" and grants: "distinct (map fst (sn_grants sn))"
    and run: "refresh_access env life (Inr sn) sockets (s, c) = (res, s', c')"
    and now: "ev_clk env 2 \<le> now"
  obtains d s1 where "res = Inr ()" "access_ok (s', co_db c')" "keyed rv_key (db_revocations d)"
    "live_rows now (co_db c') = live_rows now d"
    "co_calls c' = co_calls c @ map (\<lambda>id. Close_socket id 1012 ''vault access changed; reconnect'') (denied_sockets s' sockets)"
    "ac_cache s' = Some (live_rows (ev_clk env 2) (co_db c'))"
    "row_of rv_key vault_suspension_key (db_revocations d) =
      (if sn_suspended sn
       then Some \<lparr>rv_key = vault_suspension_key, rv_minimumVersion = None, rv_expiresAt = ev_clk env 1 + life\<rparr> else None)"
    "\<And>u. row_of rv_key (user_revocation_key u) (db_revocations d) =
      (case find (\<lambda>(v, n). 1 < n \<and> user_revocation_key u = user_revocation_key v) (sn_grants sn) of
         Some (v, n) \<Rightarrow> Some (grant_row (ev_clk env 1 + life) s1 v n)
       | None \<Rightarrow> row_of rv_key (user_revocation_key u) (live_rows (ev_clk env 0) (co_db c)))"
    "\<And>k. cached s1 k = row_of rv_key k (live_rows (ev_clk env 0) (co_db c))"
proof -
  let ?ex = "ev_clk env 1 + life" and ?t0 = "ev_clk env 0" and ?t2 = "ev_clk env 2"
  obtain s1 d1 where load: "load_access ?t0 (s, co_db c) = (s1, d1)" by fastforce
  note l1 = load_access_spec[OF ok load]
  define d2 where "d2 = write_suspension ?ex (sn_suspended sn) (fold (write_grant ?ex s1) (sn_grants sn) d1)"
  obtain s3 d3 where load3: "load_access ?t2 (s1\<lparr>ac_cache := None\<rparr>, d2) = (s3, d3)" by fastforce
  have d1: "db_revocations d1 = live_rows ?t0 (co_db c)" using l1 by simp
  have k2: "keyed rv_key (db_revocations d2)"
    using ok by (simp add: d2_def write_access_keyed d1 live_rows_def keyed_filter access_ok_def)
  then have "access_ok (s1\<lparr>ac_cache := None\<rparr>, d2)" by (simp add: access_ok_def)
  note l3 = load_access_spec[OF this load3]
  have out: "res = Inr ()" "s' = s3" "co_db c' = d3"
    "co_calls c' = co_calls c @ map (\<lambda>id. Close_socket id 1012 ''vault access changed; reconnect'') (denied_sockets s3 sockets)"
    using run load3[unfolded d2_def] by (auto simp: refresh_access_def load Let_def)
  have live: "live_rows now d3 = live_rows now d2"
    using l3 now by (simp add: live_rows_def) (rule filter_cong, auto)
  show thesis
  proof (rule that[of d2 s1])
    show "row_of rv_key (user_revocation_key u) (db_revocations d2) =
      (case find (\<lambda>(v, n). 1 < n \<and> user_revocation_key u = user_revocation_key v) (sn_grants sn) of
         Some (v, n) \<Rightarrow> Some (grant_row ?ex s1 v n)
       | None \<Rightarrow> row_of rv_key (user_revocation_key u) (live_rows ?t0 (co_db c)))" for u
      unfolding d1 [symmetric] using write_grants_row[OF grants, of "user_revocation_key u" ?ex s1 d1]
      by (simp add: d2_def write_suspension_def write_revocation_row delete_revocation_def row_of_delete_key)
  qed (use out l1 l3 k2 live in \<open>simp_all add: cached_def d2_def write_suspension_def write_revocation_row
      delete_revocation_def row_of_delete_key\<close>)
qed

text \<open>Who is refused after a refresh, by the grants and the rows that were live before it.\<close>

definition refused_before :: "millis \<Rightarrow> db \<Rightarrow> ident \<Rightarrow> int \<Rightarrow> bool" where
  "refused_before t d u version \<longleftrightarrow> (\<exists>r m. r \<in> set (live_rows t d) \<and> rv_key r = user_revocation_key u \<and>
     rv_minimumVersion r = Some m \<and> version < m)"

lemma find_granted:
  "distinct (map fst grants) \<Longrightarrow> (u, n) \<in> set grants \<Longrightarrow> 1 < n \<Longrightarrow>
   find (\<lambda>(v, n). 1 < n \<and> user_revocation_key u = user_revocation_key v) grants = Some (u, n)"
  for n :: int
  by (induction grants) (auto simp: image_iff)

lemma find_not_granted:
  "\<not> (\<exists>n. (u, n) \<in> set grants \<and> 1 < n) \<Longrightarrow>
   find (\<lambda>(v, n). 1 < n \<and> user_revocation_key u = user_revocation_key v) grants = None"
  for grants :: "(ident \<times> int) list"
  by (auto simp: find_None_iff)

lemma refresh_denied:
  assumes ok: "access_ok (s, co_db c)" and grants: "distinct (map fst (sn_grants sn))"
    and run: "refresh_access env life (Inr sn) sockets (s, c) = (res, s', c')"
    and now: "ev_clk env 0 \<le> ev_clk env 2" "ev_clk env 2 \<le> now" "now < ev_clk env 1 + life"
  shows "denied_by (live_rows now (co_db c')) u version \<longleftrightarrow> sn_suspended sn \<or>
    (if \<exists>n. (u, n) \<in> set (sn_grants sn) \<and> 1 < n
     then (\<exists>n. (u, n) \<in> set (sn_grants sn) \<and> version < n) \<or> refused_before (ev_clk env 0) (co_db c) u version
     else refused_before now (co_db c) u version)"
proof -
  let ?ex = "ev_clk env 1 + life" and ?t0 = "ev_clk env 0"
  let ?row = "\<lambda>t d. row_of rv_key (user_revocation_key u) (live_rows t d)"
  have keyed: "keyed rv_key (db_revocations (co_db c))" using ok by (simp add: access_ok_def)
  have before: "refused_before t (co_db c) u version \<longleftrightarrow>
      (\<exists>r m. ?row t (co_db c) = Some r \<and> rv_minimumVersion r = Some m \<and> version < m)" for t
    using keyed_row_iff[of rv_key "live_rows t (co_db c)"] keyed
    by (auto simp: refused_before_def live_rows_def keyed_filter)
  have narrow: "?row now (co_db c) = Some r \<longleftrightarrow> ?row ?t0 (co_db c) = Some r \<and> now < rv_expiresAt r" for r
    using now(1,2) by (auto simp: live_row[OF keyed] split: option.splits if_splits)
  obtain d s1 where d: "keyed rv_key (db_revocations d)" "live_rows now (co_db c') = live_rows now d"
    and vault: "row_of rv_key vault_suspension_key (db_revocations d) = (if sn_suspended sn
       then Some \<lparr>rv_key = vault_suspension_key, rv_minimumVersion = None, rv_expiresAt = ?ex\<rparr> else None)"
    and user: "row_of rv_key (user_revocation_key u) (db_revocations d) =
      (case find (\<lambda>(v, n). 1 < n \<and> user_revocation_key u = user_revocation_key v) (sn_grants sn) of
         Some (v, n) \<Rightarrow> Some (grant_row ?ex s1 v n) | None \<Rightarrow> ?row ?t0 (co_db c))"
    and cached1: "cached s1 (user_revocation_key u) = ?row ?t0 (co_db c)"
    by (rule refresh_table[OF ok grants run now(2)]) (rule that; assumption)
  have "keyed rv_key (live_rows now d)" using d(1) by (simp add: live_rows_def keyed_filter)
  then have denied: "denied_by (live_rows now d) u version \<longleftrightarrow> sn_suspended sn \<or>
      (\<exists>r m. row_of rv_key (user_revocation_key u) (db_revocations d) = Some r \<and> now < rv_expiresAt r \<and>
         rv_minimumVersion r = Some m \<and> version < m)"
    using now(3) by (cases "row_of rv_key (user_revocation_key u) (db_revocations d)")
      (auto simp: denied_by_row live_row[OF d(1)] vault split: if_splits)
  show ?thesis
  proof (cases "\<exists>n. (u, n) \<in> set (sn_grants sn) \<and> 1 < n")
    case True
    then obtain n where n: "(u, n) \<in> set (sn_grants sn)" "1 < n" by blast
    have uniq: "(u, m) \<in> set (sn_grants sn) \<longleftrightarrow> m = n" for m using n grants by (auto dest: eq_key_imp_eq_value)
    have "row_of rv_key (user_revocation_key u) (db_revocations d) = Some (grant_row ?ex s1 u n)"
      unfolding user find_granted[OF grants n] by simp
    then show ?thesis using True now(3) n(2)
      by (auto simp: d(2) denied before uniq grant_row_def Let_def cached1 split: option.splits)
  next
    case False
    then have "row_of rv_key (user_revocation_key u) (db_revocations d) = ?row ?t0 (co_db c)"
      unfolding user find_not_granted[OF False] by simp
    then show ?thesis unfolding if_not_P[OF False] d(2) denied before by (simp add: narrow)
  qed
qed

lemma refresh_closes:
  assumes ok: "access_ok (s, co_db c)" and grants: "distinct (map fst (sn_grants sn))"
    and run: "refresh_access env life (Inr sn) sockets (s, c) = (res, s', c')"
  shows "res = Inr () \<and> access_ok (s', co_db c') \<and>
    co_calls c' = co_calls c @ map (\<lambda>x. Close_socket (fst x) 1012 ''vault access changed; reconnect'')
      (filter (\<lambda>x. denied_by (live_rows (ev_clk env 2) (co_db c')) (ss_userId (snd x))
         (case ss_accessVersion (snd x) of None \<Rightarrow> 1 | Some n \<Rightarrow> n)) sockets)"
proof -
  let ?t2 = "ev_clk env 2"
  have r: "res = Inr ()" "access_ok (s', co_db c')"
      "co_calls c' = co_calls c @ map (\<lambda>id. Close_socket id 1012 ''vault access changed; reconnect'') (denied_sockets s' sockets)"
      "ac_cache s' = Some (live_rows ?t2 (co_db c'))"
    by (rule refresh_table[OF ok grants run order_refl]; assumption)+
  have "keyed rv_key (live_rows ?t2 (co_db c'))"
    using r(2) by (simp add: access_ok_def live_rows_def keyed_filter)
  then show ?thesis using r denial_iff[OF r(4)] by (simp add: denied_sockets_def case_prod_unfold comp_def)
qed

text \<open>
  C29. A refresh enforces the sharing database at once and for as long as an older token can live.
  Until the token lifetime has passed: everyone is refused while the vault is suspended, every
  user is refused with a token older than the granted access version, a refusal that held
  before still holds, and nobody else is refused; and exactly the open sockets whose session is
  refused at that moment are closed.
\<close>

theorem refresh_enforces_access:
  assumes ok: "access_ok (s, co_db c)" and grants: "distinct (map fst (sn_grants sn))"
    and run: "refresh_access env life (Inr sn) sockets (s, c) = (res, s', c')"
    and now: "ev_clk env 0 \<le> ev_clk env 2" "ev_clk env 2 \<le> now" "now < ev_clk env 1 + life"
  shows "res = Inr () \<and> access_ok (s', co_db c') \<and>
    (\<forall>u version. sn_suspended sn \<or> (\<exists>n. (u, n) \<in> set (sn_grants sn) \<and> 1 < n \<and> version < n) \<or>
       refused_before now (co_db c) u version \<longrightarrow> denied_by (live_rows now (co_db c')) u version) \<and>
    (\<forall>u version. denied_by (live_rows now (co_db c')) u version \<longrightarrow>
       sn_suspended sn \<or> (\<exists>n. (u, n) \<in> set (sn_grants sn) \<and> 1 < n \<and> version < n) \<or>
       refused_before (ev_clk env 0) (co_db c) u version) \<and>
    co_calls c' = co_calls c @ map (\<lambda>x. Close_socket (fst x) 1012 ''vault access changed; reconnect'')
      (filter (\<lambda>x. denied_by (live_rows (ev_clk env 2) (co_db c')) (ss_userId (snd x))
         (case ss_accessVersion (snd x) of None \<Rightarrow> 1 | Some n \<Rightarrow> n)) sockets)"
proof -
  have uniq: "(u, n) \<in> set (sn_grants sn) \<Longrightarrow> (u, m) \<in> set (sn_grants sn) \<Longrightarrow> m = n" for u n m
    using grants by (auto dest: eq_key_imp_eq_value)
  have later: "refused_before now (co_db c) u version \<Longrightarrow> refused_before (ev_clk env 0) (co_db c) u version" for u version
    using now(1,2) by (fastforce simp: refused_before_def live_rows_def)
  have given: "denied_by (live_rows now (co_db c')) u version \<longleftrightarrow> sn_suspended sn \<or>
    (if \<exists>n. (u, n) \<in> set (sn_grants sn) \<and> 1 < n
     then (\<exists>n. (u, n) \<in> set (sn_grants sn) \<and> version < n) \<or> refused_before (ev_clk env 0) (co_db c) u version
     else refused_before now (co_db c) u version)" for u version
    by (rule refresh_denied[OF ok grants run now])
  have must: "denied_by (live_rows now (co_db c')) u version"
    if "sn_suspended sn \<or> (\<exists>n. (u, n) \<in> set (sn_grants sn) \<and> 1 < n \<and> version < n) \<or> refused_before now (co_db c) u version"
    for u version using that later unfolding given by (auto split: if_splits)
  have only: "sn_suspended sn \<or> (\<exists>n. (u, n) \<in> set (sn_grants sn) \<and> 1 < n \<and> version < n) \<or>
      refused_before (ev_clk env 0) (co_db c) u version"
    if "denied_by (live_rows now (co_db c')) u version" for u version
    using that later uniq unfolding given by (auto split: if_splits) blast
  show ?thesis using refresh_closes[OF ok grants run] must only by blast
qed

section \<open>Instances\<close>

definition example_access :: access_state where
  "example_access = \<lparr>ac_cache = None, ac_nextExpiry = None\<rparr>"

definition example_grants :: access_snapshot where
  "example_grants = \<lparr>sn_suspended = False, sn_grants = [(''u'', 3)]\<rparr>"

definition example_revoked :: db where
  "example_revoked = write_revocation \<lparr>rv_key = ''user:u'', rv_minimumVersion = Some 2, rv_expiresAt = 50\<rparr> example_db"

lemma example_access_ok: "access_ok (example_access, example_db)" "access_ok (example_access, example_revoked)"
  by (simp_all add: access_ok_def example_access_def example_revoked_def write_revocation_def example_db_def empty_db_def
      upsert_row_def keyed_def)

theorem access_decision_is_table_decision_witness:
  "fst (authorize_verified 20 ''u'' 1 (example_access, example_revoked)) \<noteq> Access_ok \<and>
   fst (authorize_verified 60 ''u'' 1 (example_access, example_revoked)) = Access_ok"
proof -
  have rows: "db_revocations example_revoked = [\<lparr>rv_key = ''user:u'', rv_minimumVersion = Some 2, rv_expiresAt = 50\<rparr>]"
    by (simp add: example_revoked_def write_revocation_def example_db_def empty_db_def upsert_row_def)
  have "denied_by (live_rows 20 example_revoked) ''u'' 1" "\<not> denied_by (live_rows 60 example_revoked) ''u'' 1"
    by (simp_all add: denied_by_def live_rows_def rows user_revocation_key_def)
  then show ?thesis
    using access_decision_is_table_decision[OF example_access_ok(2), of 20 "''u''" 1]
      access_decision_is_table_decision[OF example_access_ok(2), of 60 "''u''" 1] by (metis prod.collapse)
qed

theorem refresh_enforces_access_witness:
  "denied_by (live_rows 1000 (co_db (snd (snd (refresh_access example_env 120000 (Inr example_grants) []
     (example_access, example_vault)))))) ''u'' 2"
proof -
  obtain res s' c' where run: "refresh_access example_env 120000 (Inr example_grants) [] (example_access, example_vault) = (res, s', c')"
    by (metis prod.collapse)
  have "denied_by (live_rows 1000 (co_db c')) ''u'' 2"
    using refresh_enforces_access[OF _ _ run, of 1000] example_access_ok(1) by (simp add: example_grants_def)
  then show ?thesis by (simp add: run)
qed

end
