(* ===== verification/Coordinator_Api.thy ===== *)
theory Coordinator_Api
  imports Sync_Access
begin

text \<open>
  \<open>services/bind-coordinator-api.ts\<close>: the operations of one vault's coordinator, as they are
  bound to its services, and its history as a sequence of calls, alarms, timers, uploads and
  restarts. Calls run one after the other, as the vault lock of the Node runtime has it; what a
  Durable Object allows beyond that is the subject of the last section.
\<close>

section \<open>Calls and steps\<close>

datatype call =
    Commit_mutations session "mutation list"
  | Commit_mutation session mutation
  | Restore_entry_version session restore
  | Restore_entry_versions session "restore list"
  | Purge_deleted_entries session "(ident \<times> int) list"
  | Stage_blob ident int
  | Abort_staged_blob ident ident
  | Delete_blob ident
  | Prepare_socket "coord_error + vault_limits" \<comment> \<open>\<open>ensureVaultState\<close> after the token was verified\<close>
  | Detach_local_vault ident ident
  | Set_sync_pause "string option"
  | Repair_sync_state
  | Apply_vault_policy vault_limits
  | Purge_vault
  | Run_gc
  | Flush_health_summary
  | Handle_alarm
  | Handle_socket_close
  | Storage_status_timer
  | Object_uploaded ident \<comment> \<open>the blob transfer stored the ciphertext of a blob\<close>
  | Restarted

fun perform :: "ident \<Rightarrow> env \<Rightarrow> call \<Rightarrow> coordinator \<Rightarrow> coordinator" where
  "perform v env (Commit_mutations session ms) c = snd (commit_mutations env session ms None c)"
| "perform v env (Commit_mutation session m) c = snd (commit_mutation env session m None c)"
| "perform v env (Restore_entry_version session r) c = snd (restore_entry_version env session r c)"
| "perform v env (Restore_entry_versions session rs) c = snd (restore_entry_versions env session rs c)"
| "perform v env (Purge_deleted_entries session es) c = snd (purge_deleted_entries env session es c)"
| "perform v env (Stage_blob b sz) c = snd (stage_blob env b sz c)"
| "perform v env (Abort_staged_blob w b) c = snd (abort_staged_blob env w b c)"
| "perform v env (Delete_blob b) c = snd (delete_blob env v b c)"
| "perform v env (Prepare_socket limits) c = snd (service_ensure_vault_state limits v c)"
| "perform v env (Detach_local_vault u l) c = detach_local_vault env u l c"
| "perform v env (Set_sync_pause reason) c = snd (set_sync_pause env v reason c)"
| "perform v env Repair_sync_state c = snd (repair_sync_state env v c)"
| "perform v env (Apply_vault_policy limits) c = snd (apply_vault_policy env v limits c)"
| "perform v env Purge_vault c = snd (purge_vault env v c)"
| "perform v env Run_gc c = snd (run_gc env None None True True c)"
| "perform v env Flush_health_summary c = snd (flush_summary env (ev_clk env 0) False c)"
| "perform v env Handle_alarm c = alarm_fires env c"
| "perform v env Handle_socket_close c = handle_socket_close env c"
| "perform v env Storage_status_timer c = status_timer_fires c"
| "perform v env (Object_uploaded b) c = c\<lparr>co_objects := insert (blob_object_key v b) (co_objects c)\<rparr>"
| "perform v env Restarted c = cold_start c"

text \<open>
  An event is a call in its environment, over by a given time. Calls arrive only for the
  coordinator's own vault, sizes are not negative and a deleted blob is named; a purge is
  complete (an interrupted one is repeated), and after it no job is left for an alarm.
\<close>

fun call_ok :: "ident \<Rightarrow> env \<Rightarrow> call \<Rightarrow> coordinator \<Rightarrow> bool" where
  "call_ok v env (Purge_deleted_entries session es) c = (ss_vaultId session = v)"
| "call_ok v env (Stage_blob b sz) c = (0 \<le> sz)"
| "call_ok v env (Delete_blob b) c = (b \<noteq> [])"
| "call_ok v env Purge_vault c = (ev_storage env = None)"
| "call_ok v env Handle_alarm c = (\<not> co_purged c \<or> db_jobs (co_db c) = [])"
| "call_ok v env _ c = True"

type_synonym event = "env \<times> call \<times> millis"

definition event_ok :: "ident \<Rightarrow> event \<Rightarrow> millis \<times> coordinator \<Rightarrow> bool" where
  "event_ok v = (\<lambda>(env, call, until) (now, c).
     (\<forall>k. now \<le> ev_clk env k \<and> ev_clk env k \<le> until) \<and> call_ok v env call c)"

definition coordinator_step :: "ident \<Rightarrow> event \<Rightarrow> millis \<times> coordinator \<Rightarrow> millis \<times> coordinator" where
  "coordinator_step v = (\<lambda>(env, call, until) (now, c). (until, perform v env call c))"

definition system_ok :: "ident \<Rightarrow> millis \<times> coordinator \<Rightarrow> bool" where
  "system_ok v = (\<lambda>(now, c). vault_ok now v c)"

section \<open>Every step keeps the invariant\<close>

lemma flush_timer_inv: "vault_inv A now v c \<Longrightarrow> vault_inv A now v (status_timer_fires c)"
  by (rule vault_ok_same_data) (auto simp: status_timer_fires_def dest: vault_ok_armed)

lemma upload_inv: "vault_inv A now v c \<Longrightarrow> vault_inv A now v (c\<lparr>co_objects := insert k (co_objects c)\<rparr>)"
  by (auto simp: vault_inv_def objects_ok_def armed_if_def)

lemma cold_start_inv:
  assumes ok: "vault_ok now v c"
  shows "vault_ok now v (cold_start c)"
proof (rule vault_ok_same_data[OF ok])
  show "same_data c (cold_start c)" by (simp add: cold_start_def ensure_armed_def same_data_def split: option.splits)
  show "armed_if True (cold_start c)" using ok by (simp add: cold_start_armed vault_inv_keyed_jobs)
qed

lemma alarm_inv:
  assumes ok: "vault_ok now v c" and now: "now \<le> ev_clk env 0" and c: "\<not> co_purged c \<or> db_jobs (co_db c) = []"
  shows "vault_ok (ev_clk env 0) v (alarm_fires env c)"
proof (cases "co_purged c")
  case True
  then have "vault_ok now v (c\<lparr>co_alarm := None\<rparr>)"
    using ok c by (simp add: vault_inv_def armed_if_def objects_ok_def armed_def)
  then show ?thesis using True vault_ok_later[OF _ now] by (simp add: alarm_fires_def handle_alarm_def)
next
  case False
  then show ?thesis
    unfolding alarm_fires_def using vault_inv_alarm[OF ok] now by (intro handle_alarm_ok) auto
qed

lemma perform_inv:
  assumes ok: "vault_ok now v c" and t: "\<And>k. now \<le> ev_clk env k" "\<And>k. ev_clk env k \<le> until"
    and call: "call_ok v env call c"
  shows "vault_ok until v (perform v env call c)"
proof -
  have nu: "now \<le> until" using t order_trans by blast
  have ok': "vault_ok until v c" using ok nu by (rule vault_ok_later)
  note up = vault_ok_later[OF _ t(2)]
  show ?thesis
  proof (cases call)
    case Purge_vault
    then have "fst (purge_vault env v c) = Inr ()"
      using call by (simp add: purge_vault_def object_delete_prefix_def)
    then have "purge_vault env v c = (Inr (), snd (purge_vault env v c))" by (metis prod.collapse)
    from purge_vault_inv[OF this] show ?thesis using Purge_vault by simp
  next
    case Handle_alarm
    then show ?thesis using alarm_inv[OF ok t(1)] call up by simp
  next
    case Run_gc
    then show ?thesis using run_gc_vault_ok[OF ok, of None env None True True] t(1) up by (simp add: default_now_def)
  qed (use call ok' ok t(1) in \<open>auto intro: up commit_mutations_inv commit_mutation_inv restore_entry_version_inv
      restore_entry_versions_inv purge_deleted_entries_inv stage_blob_inv abort_staged_blob_inv delete_blob_inv
      ensure_state_inv detach_inv set_sync_pause_inv repair_sync_state_inv apply_policy_inv flush_summary_ok
      socket_close_inv flush_timer_inv upload_inv cold_start_inv\<close>)
qed

interpretation coordinator: step_system "coordinator_step v" "event_ok v" "system_ok v" for v
proof unfold_locales
  fix e and s :: "millis \<times> coordinator"
  assume "event_ok v e s" "system_ok v s"
  then show "system_ok v (coordinator_step v e s)"
    by (cases e; cases s) (auto simp: event_ok_def system_ok_def coordinator_step_def intro: perform_inv)
qed

lemma idle_vault_ok: "vault_ok now v idle_coordinator"
proof -
  have c: "co_db idle_coordinator = empty_db" by (simp add: idle_coordinator_def)
  have "\<not> current_blob_reference empty_db b" "\<not> retained_blob_reference now empty_db b" "db_state empty_db = None" for b
    by (simp_all add: current_blob_reference_def retained_blob_reference_def empty_db_def)
  then show ?thesis by (simp add: vault_inv_def objects_ok_def pinned_iff c)
qed

section \<open>Properties\<close>

text \<open>
  C1. No history of a vault loses data. Start with an empty coordinator and let any sequence of
  commits, restores, purges, uploads, deletions, repairs, pauses, policy changes, collections,
  alarms, timers, purges of the vault and restarts run, with storage and database failures as
  the operations handle them: afterwards every blob that a current entry refers to has a live
  row and its ciphertext in the storage, so has (with any row) every blob that unexpired history
  refers to; the storage counter is exactly the sum of the stored sizes; sequence numbers are
  distinct and not ahead of the cursor; and the alarm covers every maintenance job.
\<close>

theorem no_history_loses_data:
  assumes "admissible (event_ok v) (coordinator_step v) events (start, idle_coordinator)"
    and "fold (coordinator_step v) events (start, idle_coordinator) = (now, c)"
  shows "(\<forall>e b. e \<in> set (db_entries (co_db c)) \<and> en_blob e = Some b \<and> b \<noteq> [] \<longrightarrow>
      (\<exists>r. read_blob b (co_db c) = Some r \<and> bl_state r = Live) \<and> blob_object_key v b \<in> co_objects c) \<and>
    (\<forall>w b. w \<in> set (db_versions (co_db c)) \<and> ve_blob w = Some b \<and> b \<noteq> [] \<and> now < ve_expiresAt w \<longrightarrow>
      read_blob b (co_db c) \<noteq> None \<and> blob_object_key v b \<in> co_objects c) \<and>
    (\<forall>s. db_state (co_db c) = Some s \<longrightarrow> cs_vaultId s = v \<and>
      cs_used s = sum_list (map bl_size (db_blobs (co_db c))) \<and>
      (\<forall>e \<in> set (db_entries (co_db c)). en_seq e \<le> cs_cursor s)) \<and>
    distinct (map en_seq (db_entries (co_db c))) \<and>
    (\<forall>j \<in> set (db_jobs (co_db c)). \<exists>a. co_alarm c = Some a \<and> a \<le> jb_dueAt j)"
proof -
  have "system_ok v (fold (coordinator_step v) events (start, idle_coordinator))"
    using assms(1) idle_vault_ok by (intro coordinator.run_inv) (simp_all add: system_ok_def)
  then have ok: "db_ok now (co_db c)" "armed c" "objects_ok now v c"
      "\<And>s. db_state (co_db c) = Some s \<Longrightarrow> cs_vaultId s = v"
    using assms(2) by (simp_all add: system_ok_def vault_inv_def)
  have cur: "current_blob_reference (co_db c) b" if "e \<in> set (db_entries (co_db c))" "en_blob e = Some b" for e b
    using that by (auto simp: current_blob_reference_def)
  have ret: "retained_blob_reference now (co_db c) b"
    if "w \<in> set (db_versions (co_db c))" "ve_blob w = Some b" "now < ve_expiresAt w" for w b
    using that by (auto simp: retained_blob_reference_def)
  have refs: "current_blob_reference (co_db c) b \<Longrightarrow> b \<noteq> [] \<Longrightarrow>
      (\<exists>r. read_blob b (co_db c) = Some r \<and> bl_state r = Live) \<and> blob_object_key v b \<in> co_objects c"
    "retained_blob_reference now (co_db c) b \<Longrightarrow> b \<noteq> [] \<Longrightarrow>
      read_blob b (co_db c) \<noteq> None \<and> blob_object_key v b \<in> co_objects c" for b
    using ok(1,3) unfolding db_ok_def refs_ok_def objects_ok_def pinned_iff by blast+
  show ?thesis
  proof (intro conjI)
    show "\<forall>e b. e \<in> set (db_entries (co_db c)) \<and> en_blob e = Some b \<and> b \<noteq> [] \<longrightarrow>
      (\<exists>r. read_blob b (co_db c) = Some r \<and> bl_state r = Live) \<and> blob_object_key v b \<in> co_objects c"
      using cur refs(1) by blast
    show "\<forall>w b. w \<in> set (db_versions (co_db c)) \<and> ve_blob w = Some b \<and> b \<noteq> [] \<and> now < ve_expiresAt w \<longrightarrow>
      read_blob b (co_db c) \<noteq> None \<and> blob_object_key v b \<in> co_objects c"
      using ret refs(2) by blast
  qed (use ok in \<open>auto simp: db_ok_def accounted_def seqs_ok_def blob_bytes_def armed_def\<close>)
qed

section \<open>An instance\<close>

text \<open>A new vault: its first session, an upload, its commit, a collection and a restart.\<close>

definition example_limits :: vault_limits where
  "example_limits = \<lparr>lim_storage = 100, lim_maxFile = 50, lim_retentionDays = 1\<rparr>"

definition example_create :: mutation where
  "example_create = \<lparr>mu_id = ''m1'', mu_entryId = ''e'', mu_op = Upsert, mu_base = 0, mu_blob = Some ''b'', mu_metadata = ''n''\<rparr>"

definition example_events :: "event list" where
  "example_events = map (\<lambda>x. (example_env, x, 10)) [Prepare_socket (Inr example_limits), Stage_blob ''b'' 5,
     Object_uploaded ''b'', Commit_mutations example_session [example_create], Run_gc, Restarted]"

lemma example_history:
  "map en_blob (db_entries (co_db (snd (fold (coordinator_step ''v'') example_events (10, idle_coordinator))))) = [Some ''b'']"
  by code_simp

theorem no_history_loses_data_witness:
  "blob_object_key ''v'' ''b'' \<in> co_objects (snd (fold (coordinator_step ''v'') example_events (10, idle_coordinator)))"
proof -
  obtain now c where run: "fold (coordinator_step ''v'') example_events (10, idle_coordinator) = (now, c)" by fastforce
  have adm: "admissible (event_ok ''v'') (coordinator_step ''v'') example_events (10, idle_coordinator)"
    by (simp add: example_events_def event_ok_def coordinator_step_def)
  have "map en_blob (db_entries (co_db c)) = [Some ''b'']" using example_history by (simp add: run)
  then obtain e where "e \<in> set (db_entries (co_db c))" "en_blob e = Some ''b''" by fastforce
  then show ?thesis using no_history_loses_data[OF adm run] by (simp add: run)
qed

section \<open>Interleaving on a Durable Object\<close>

text \<open>
  A Durable Object may deliver another event while an operation waits for the object storage. A
  collection waits between deciding and deleting the rows, a commit between checking that the
  ciphertext exists and its transaction. The following schedule runs the two checks first, then
  the deletion of the objects, then the commit, then the deletion of the rows.
\<close>

definition collection_overtakes_commit ::
  "env \<Rightarrow> ident \<Rightarrow> session \<Rightarrow> mutation list \<Rightarrow> coordinator \<Rightarrow> coordinator" where
  "collection_overtakes_commit env v session ms c =
     (let now = ev_clk env 0;
          collectible = filter (is_collectible now) (list_collectible_blobs now gc_batch_size (co_db c));
          ids = map (\<lambda>b. bl_id (fst b)) collectible;
          unavailable = filter (\<lambda>b. object_exists env (blob_object_key v b) c \<noteq> Inr True) (upsert_blob_ids ms);
          c1 = snd (object_delete_many env (map (blob_object_key v) ids) c);
          c2 = snd (in_transaction (commit_transaction
                 \<lparr>cx_session = session, cx_now = now, cx_retentionMs = day_ms, cx_grace = ev_grace env,
                  cx_forced = None, cx_unavailable = unavailable, cx_uuid = ev_uuid env\<rparr> ms) c1)
      in on_db (\<lambda>d. snd (delete_collectible_blob_records ids now d)) c2)"

definition example_revive :: mutation where
  \<comment> \<open>a new entry for the retired blob, whose ciphertext the client has seen in the storage\<close>
  "example_revive = \<lparr>mu_id = ''m9'', mu_entryId = ''f'', mu_op = Upsert, mu_base = 0, mu_blob = Some ''p'', mu_metadata = ''n''\<rparr>"

lemma interleaved_commit_loses_ciphertext:
  "let c = collection_overtakes_commit example_env ''v'' example_session [example_revive] example_vault in
   map en_blob (db_entries (co_db c)) = [Some ''b'', Some ''p''] \<and>
   map (\<lambda>r. (bl_id r, bl_state r)) (db_blobs (co_db c)) = [(''b'', Live), (''p'', Live)] \<and>
   \<not> blob_object_key ''v'' ''p'' \<in> co_objects c"
  by code_simp

end
