(* ===== verification/Control_Messages.thy ===== *)
theory Control_Messages
  imports Coordinator_Api
begin

text \<open>
  The messages of the control socket (\<open>application/dto/protocol-types.ts\<close> and
  \<open>application/dto/types.ts\<close>): what a client may send, once it is parsed, and what the server
  answers or announces. The texts on the wire are the JSON encodings of these values.
\<close>

section \<open>Messages of the client\<close>

record presence_position =
  pp_line :: int
  pp_ch :: int

record presence_selection =
  pn_anchor :: presence_position
  pn_head :: presence_position

datatype client_message =
    Msg_hello ident int
  | Msg_commit_mutation ident mutation \<comment> \<open>in the type, but not in the schema of the socket\<close>
  | Msg_commit_mutations ident "mutation list"
  | Msg_list_entry_states ident states_query
  | Msg_list_entry_versions ident ident "(millis \<times> ident) option" int
  | Msg_list_deleted_entries ident "(millis \<times> ident) option" int
  | Msg_restore_entry_version ident restore
  | Msg_restore_entry_versions ident "restore list"
  | Msg_purge_deleted_entries ident "(ident \<times> int) list"
  | Msg_detach_local_vault ident
  | Msg_heartbeat ident
  | Msg_watch_storage_status
  | Msg_unwatch_storage_status
  | Msg_watch_presence "ident list"
  | Msg_unwatch_presence
  | Msg_presence_update ident presence_selection
  | Msg_presence_clear

section \<open>Messages of the server\<close>

record storage_status =
  st_used :: int
  st_limit :: int

record policy_snapshot =
  po_limit :: int
  po_maxFile :: int

datatype failure_kind =
    Commit_mutations_failed
  | Entry_states_list_failed
  | Entry_versions_list_failed
  | Deleted_entries_list_failed
  | Entry_restore_failed
  | Deleted_entries_purge_failed

datatype server_message =
    Hello_ack ident int policy_snapshot storage_status
  | Cursor_advanced int
  | Storage_status_updated storage_status
  | Policy_updated policy_snapshot storage_status
  | Commit_answered ident commit_reply \<comment> \<open>\<open>commit_accepted\<close> or \<open>commit_rejected\<close>\<close>
  | Local_vault_detached ident
  | Heartbeat_ack ident
  | Commit_mutations_committed ident int "batch_result list"
  | Entry_states_listed ident states_page
  | Entry_versions_listed ident ident "version_row list" bool "(millis \<times> ident) option"
  | Deleted_entries_listed ident "deleted_entry list" bool "(millis \<times> ident) option"
  | Entry_version_restored ident restore_result
  | Entry_versions_restored ident int "restore_result list"
  | Deleted_entries_purged ident "purge_result list"
  | Request_failed failure_kind ident string string \<comment> \<open>type, request id, code, message\<close>
  | Session_error string string
  | Presence_updated ident ident ident string presence_selection
      \<comment> \<open>presence id, entry id, user id, display name, selection\<close>
  | Presence_cleared ident
  | Presence_availability bool

text \<open>The request a message asks for, and the request an answer belongs to.\<close>

fun request_of :: "client_message \<Rightarrow> ident option" where
  "request_of (Msg_hello r _) = Some r"
| "request_of (Msg_commit_mutation r _) = Some r"
| "request_of (Msg_commit_mutations r _) = Some r"
| "request_of (Msg_list_entry_states r _) = Some r"
| "request_of (Msg_list_entry_versions r _ _ _) = Some r"
| "request_of (Msg_list_deleted_entries r _ _) = Some r"
| "request_of (Msg_restore_entry_version r _) = Some r"
| "request_of (Msg_restore_entry_versions r _) = Some r"
| "request_of (Msg_purge_deleted_entries r _) = Some r"
| "request_of (Msg_detach_local_vault r) = Some r"
| "request_of (Msg_heartbeat r) = Some r"
| "request_of _ = None"

fun answers :: "server_message \<Rightarrow> ident option" where
  "answers (Hello_ack r _ _ _) = Some r"
| "answers (Commit_answered r _) = Some r"
| "answers (Local_vault_detached r) = Some r"
| "answers (Heartbeat_ack r) = Some r"
| "answers (Commit_mutations_committed r _ _) = Some r"
| "answers (Entry_states_listed r _) = Some r"
| "answers (Entry_versions_listed r _ _ _ _) = Some r"
| "answers (Deleted_entries_listed r _ _ _) = Some r"
| "answers (Entry_version_restored r _) = Some r"
| "answers (Entry_versions_restored r _ _) = Some r"
| "answers (Deleted_entries_purged r _) = Some r"
| "answers (Request_failed _ r _ _) = Some r"
| "answers _ = None"

fun presence_about :: "server_message \<Rightarrow> ident option" where
  \<comment> \<open>the entry whose editors a message tells of\<close>
  "presence_about (Presence_updated _ e _ _ _) = Some e"
| "presence_about _ = None"

end
