(* ===== verification/Socket_Gateway.thy ===== *)
theory Socket_Gateway
  imports Control_Messages
begin

text \<open>
  \<open>adapters/outbound/socket/node-service.ts\<close>: the sockets of one vault under the Node runtime,
  and \<open>domain/socket-policy.ts\<close>. The gateway is a map from sockets to their connection id and
  session, in the order of registration; ids come from \<open>crypto.randomUUID\<close>, so two sockets
  never share one, and an id stands for its socket.

  The socket of the \<open>ws\<close> package appears by what the gateway uses of it: its ready state, whether
  \<open>send\<close> works (it may throw on an open socket), what was sent, and the close it was asked for.
\<close>

datatype ready_state = Connecting | Open | Closing | Closed

record 'a socket =
  so_id :: ident
  so_data :: 'a
  so_ready :: ready_state
  so_works :: bool
  so_sent :: "server_message list" \<comment> \<open>oldest first\<close>
  so_closed :: "(int \<times> string) option"

type_synonym sockets = "session socket list"

definition should_replace :: "session \<Rightarrow> session \<Rightarrow> bool" where
  "should_replace existing incoming =
     (ss_userId existing = ss_userId incoming \<and> ss_localVaultId existing = ss_localVaultId incoming)"

section \<open>One socket\<close>

definition can_send :: "'a socket \<Rightarrow> bool" where
  "can_send s \<longleftrightarrow> so_ready s = Open \<and> so_works s"

definition try_send :: "server_message \<Rightarrow> 'a socket \<Rightarrow> 'a socket" where
  "try_send m s = (if can_send s then s\<lparr>so_sent := so_sent s @ [m]\<rparr> else s)"

definition close_native :: "int \<Rightarrow> string \<Rightarrow> 'a socket \<Rightarrow> 'a socket" where
  "close_native code reason s =
     (if so_ready s = Closing \<or> so_ready s = Closed then s
      else s\<lparr>so_ready := Closing, so_closed := Some (code, reason)\<rparr>)"

fun change_first :: "('a \<Rightarrow> bool) \<Rightarrow> ('a \<Rightarrow> 'a) \<Rightarrow> 'a list \<Rightarrow> 'a list" where
  \<comment> \<open>the loops that return at the first hit\<close>
  "change_first P f [] = []"
| "change_first P f (x # xs) = (if P x then f x # xs else x # change_first P f xs)"

definition with_id :: "ident \<Rightarrow> 'a socket \<Rightarrow> bool" where
  "with_id i s \<longleftrightarrow> so_id s = i"

section \<open>The gateway\<close>

definition socket_for :: "ident \<Rightarrow> 'a socket list \<Rightarrow> 'a socket option" where
  "socket_for i g = List.find (with_id i) g"

definition send_socket_message :: "ident \<Rightarrow> server_message \<Rightarrow> 'a socket list \<Rightarrow> bool \<times> 'a socket list" where
  "send_socket_message i m g =
     (case socket_for i g of None \<Rightarrow> (False, g) | Some s \<Rightarrow> (can_send s, change_first (with_id i) (try_send m) g))"

definition close_socket :: "ident \<Rightarrow> int \<Rightarrow> string \<Rightarrow> 'a socket list \<Rightarrow> 'a socket list" where
  "close_socket i code reason g =
     (case socket_for i g of None \<Rightarrow> g | Some _ \<Rightarrow> change_first (with_id i) (close_native code reason) g)"

definition close_sockets :: "int \<Rightarrow> string \<Rightarrow> 'a socket list \<Rightarrow> 'a socket list" where
  "close_sockets code reason g = map (close_native code reason) g"

definition attach_socket_session :: "ident \<Rightarrow> session \<Rightarrow> sockets \<Rightarrow> sockets" where
  "attach_socket_session i session g = change_first (with_id i) (\<lambda>s. s\<lparr>so_data := session\<rparr>) g"

definition read_socket_session :: "ident \<Rightarrow> sockets \<Rightarrow> session option" where
  "read_socket_session i g = map_option so_data (List.find (\<lambda>s. so_id s = i \<and> so_ready s = Open) g)"

definition list_socket_sessions :: "sockets \<Rightarrow> (ident \<times> session) list" where
  "list_socket_sessions g = map (\<lambda>s. (so_id s, so_data s)) (filter (\<lambda>s. so_ready s = Open) g)"

definition send_where :: "('a socket \<Rightarrow> bool) \<Rightarrow> server_message \<Rightarrow> 'a socket list \<Rightarrow> 'a socket list" where
  \<comment> \<open>the loops over all sockets\<close>
  "send_where P m g = map (\<lambda>s. if P s then try_send m s else s) g"

definition broadcast_storage_status :: "storage_status \<Rightarrow> sockets \<Rightarrow> sockets" where
  "broadcast_storage_status status =
     send_where (\<lambda>s. ss_wantsStorageStatus (so_data s)) (Storage_status_updated status)"

definition broadcast_policy_updated :: "policy_snapshot \<Rightarrow> storage_status \<Rightarrow> sockets \<Rightarrow> sockets" where
  "broadcast_policy_updated policy status = send_where (\<lambda>_. True) (Policy_updated policy status)"

definition broadcast_presence_to_watchers :: "ident \<Rightarrow> ident \<Rightarrow> server_message \<Rightarrow> sockets \<Rightarrow> sockets" where
  "broadcast_presence_to_watchers entryId excluded m =
     send_where (\<lambda>s. so_id s \<noteq> excluded \<and> ss_wantsPresence (so_data s) \<and>
       entryId \<in> set (ss_presenceWatch (so_data s))) m"

definition presence_watcher :: "ident option \<Rightarrow> session socket \<Rightarrow> bool" where
  "presence_watcher excluded s \<longleftrightarrow> Some (so_id s) \<noteq> excluded \<and> ss_wantsPresence (so_data s)"

definition broadcast_presence_availability :: "ident option \<Rightarrow> sockets \<Rightarrow> bool \<times> sockets" where
  "broadcast_presence_availability excluded g =
     (let enabled = length (filter (presence_watcher excluded) g) > 1
      in (enabled, send_where (presence_watcher excluded) (Presence_availability enabled) g))"

definition broadcast_except :: "ident \<Rightarrow> server_message \<Rightarrow> 'a socket list \<Rightarrow> 'a socket list" where
  "broadcast_except excluded m = send_where (\<lambda>s. so_id s \<noteq> excluded) m"

definition replaced_message :: server_message where
  "replaced_message = Session_error ''local_vault_replaced''
     ''connection replaced by a newer sync session for this local vault''"

definition close_superseded_sockets :: "ident \<Rightarrow> session \<Rightarrow> sockets \<Rightarrow> sockets" where
  \<comment> \<open>\<open>current\<close> is the new socket's connection\<close>
  "close_superseded_sockets current session g =
     fold (\<lambda>s g'. if so_id s \<noteq> current \<and> should_replace (so_data s) session
        then close_socket (so_id s) 4409 ''superseded by newer connection''
          (snd (send_socket_message (so_id s) replaced_message g'))
        else g') g g"

definition register_socket :: "ident \<Rightarrow> session \<Rightarrow> sockets \<Rightarrow> sockets" where
  \<comment> \<open>a new open socket under the id \<open>crypto.randomUUID()\<close> returned\<close>
  "register_socket i session g =
     close_superseded_sockets i session (g @ [\<lparr>so_id = i, so_data = session, so_ready = Open, so_works = True,
       so_sent = [], so_closed = None\<rparr>])"

definition unregister_socket :: "ident \<Rightarrow> sockets \<Rightarrow> sockets" where
  "unregister_socket i g = filter (\<lambda>s. so_id s \<noteq> i) g"

section \<open>The sockets of a gateway are kept apart by their ids\<close>

definition ids_ok :: "'a socket list \<Rightarrow> bool" where
  "ids_ok g \<longleftrightarrow> distinct (map so_id g)"

lemma change_first_map:
  "distinct (map key xs) \<Longrightarrow> (\<And>x. P x \<longleftrightarrow> key x = k) \<Longrightarrow> change_first P f xs = map (\<lambda>x. if P x then f x else x) xs"
proof (induction xs)
  case (Cons x xs)
  have "P x \<Longrightarrow> map (\<lambda>y. if P y then f y else y) xs = xs"
    using Cons.prems by (intro map_idI) (auto intro: rev_image_eqI)
  then show ?case using Cons by auto
qed simp

lemma change_first_id: "ids_ok g \<Longrightarrow> change_first (with_id i) f g = map (\<lambda>s. if so_id s = i then f s else s) g"
  using change_first_map[of so_id g "with_id i" i f] by (simp add: ids_ok_def with_id_def)

lemma send_change_id [simp]: "so_id (try_send m s) = so_id s" "so_id (close_native c r s) = so_id s"
  "so_data (try_send m s) = so_data s" "so_data (close_native c r s) = so_data s"
  "so_ready (try_send m s) = so_ready s" "so_sent (close_native c r s) = so_sent s"
  "so_works (try_send m s) = so_works s" "so_works (close_native c r s) = so_works s"
  by (simp_all add: try_send_def close_native_def)

lemma find_none_map: "List.find P g = None \<Longrightarrow> map (\<lambda>s. if P s then f s else s) g = g"
  by (intro map_idI) (auto simp: find_None_iff)

text \<open>
  Every operation works on each socket separately. The lemmas give its effect on one socket; the
  proofs about handlers only use them.
\<close>

lemma send_socket_message_map:
  "ids_ok g \<Longrightarrow> snd (send_socket_message i m g) = map (\<lambda>s. if so_id s = i then try_send m s else s) g"
  using find_none_map[of "with_id i" g "try_send m"] change_first_id[of g i "try_send m"]
  by (simp add: send_socket_message_def socket_for_def with_id_def split: option.splits)

lemma close_socket_map:
  "ids_ok g \<Longrightarrow> close_socket i code reason g = map (\<lambda>s. if so_id s = i then close_native code reason s else s) g"
  using find_none_map[of "with_id i" g "close_native code reason"] change_first_id[of g i "close_native code reason"]
  by (simp add: close_socket_def socket_for_def with_id_def split: option.splits)

lemma attach_socket_session_map:
  "ids_ok g \<Longrightarrow> attach_socket_session i session g = map (\<lambda>s. if so_id s = i then s\<lparr>so_data := session\<rparr> else s) g"
  by (simp add: attach_socket_session_def change_first_id)

lemma ids_ok_map [simp]: "(\<And>s. so_id (f s) = so_id s) \<Longrightarrow> ids_ok (map f g) = ids_ok g"
  by (simp add: ids_ok_def comp_def)

lemmas socket_maps = send_socket_message_map close_socket_map attach_socket_session_map

lemma ids_ok_operations [simp]:
  "ids_ok g \<Longrightarrow> ids_ok (snd (send_socket_message i m g))"
  "ids_ok g \<Longrightarrow> ids_ok (close_socket i code reason g)"
  "ids_ok g' \<Longrightarrow> ids_ok (attach_socket_session i session g')"
  "ids_ok (close_sockets code reason g) = ids_ok g" "ids_ok (send_where P m g) = ids_ok g"
  "ids_ok g \<Longrightarrow> ids_ok (unregister_socket i g)"
  "ids_ok (broadcast_storage_status st g') = ids_ok g'" "ids_ok (broadcast_policy_updated po st g') = ids_ok g'"
  "ids_ok (broadcast_presence_to_watchers e x m g') = ids_ok g'" "ids_ok (broadcast_except x m g) = ids_ok g"
  "ids_ok (snd (broadcast_presence_availability xo g')) = ids_ok g'"
  by (simp_all add: socket_maps close_sockets_def send_where_def broadcast_storage_status_def
      broadcast_policy_updated_def broadcast_presence_to_watchers_def broadcast_except_def
      broadcast_presence_availability_def Let_def)
     (simp add: ids_ok_def unregister_socket_def distinct_map_filter)


lemma fold_by_id:
  assumes "ids_ok g" "distinct (map so_id xs)"
    and upd: "\<And>i g. ids_ok g \<Longrightarrow> upd i g = map (\<lambda>s. if so_id s = i then f s else s) g"
    and f: "\<And>s. so_id (f s) = so_id s"
  shows "fold (\<lambda>x g. if Q x then upd (so_id x) g else g) xs g =
    map (\<lambda>s. if \<exists>x \<in> set xs. Q x \<and> so_id x = so_id s then f s else s) g"
  using assms(1,2)
proof (induction xs arbitrary: g)
  case Nil
  then show ?case by simp
next
  case (Cons x xs)
  let ?h = "map (\<lambda>s. if so_id s = so_id x then f s else s) g"
  have h: "ids_ok ?h" using Cons.prems(1) f by simp
  have apart: "x' \<in> set xs \<Longrightarrow> so_id x' \<noteq> so_id x" for x' using Cons.prems(2) by (auto simp: image_iff)
  show ?case
  proof (cases "Q x")
    case True
    have "fold (\<lambda>x g. if Q x then upd (so_id x) g else g) (x # xs) g =
        map (\<lambda>s. if \<exists>y \<in> set xs. Q y \<and> so_id y = so_id s then f s else s) ?h"
      using True Cons.IH[OF h] Cons.prems upd by simp
    also have "\<dots> = map (\<lambda>s. if \<exists>y \<in> set (x # xs). Q y \<and> so_id y = so_id s then f s else s) g"
      using True apart by (auto simp: f)
    finally show ?thesis .
  next
    case False
    then show ?thesis using Cons.IH[OF Cons.prems(1)] Cons.prems(2) by simp
  qed
qed

lemma close_superseded_map:
  assumes ids: "ids_ok g"
  shows "close_superseded_sockets i session g =
    map (\<lambda>s. if so_id s \<noteq> i \<and> should_replace (so_data s) session
      then close_native 4409 ''superseded by newer connection'' (try_send replaced_message s) else s) g"
proof -
  let ?f = "\<lambda>s. close_native 4409 ''superseded by newer connection'' (try_send replaced_message s)"
  have "close_superseded_sockets i session g =
      map (\<lambda>s. if \<exists>x \<in> set g. (so_id x \<noteq> i \<and> should_replace (so_data x) session) \<and> so_id x = so_id s then ?f s else s) g"
    unfolding close_superseded_sockets_def using ids
    by (intro fold_by_id[where f = ?f and upd = "\<lambda>i g. close_socket i 4409 ''superseded by newer connection''
          (snd (send_socket_message i replaced_message g))"])
       (auto simp: ids_ok_def[symmetric] socket_maps)
  also have "\<dots> = map (\<lambda>s. if so_id s \<noteq> i \<and> should_replace (so_data s) session then ?f s else s) g"
    using ids by (intro map_cong) (auto simp: ids_ok_def distinct_map inj_on_eq_iff)
  finally show ?thesis .
qed

section \<open>One live connection per local vault\<close>

definition identity :: "session \<Rightarrow> ident \<times> ident" where
  "identity s = (ss_userId s, ss_localVaultId s)"

definition sockets_ok :: "sockets \<Rightarrow> bool" where
  "sockets_ok g \<longleftrightarrow> ids_ok g \<and> distinct (map (identity \<circ> so_data) (filter (\<lambda>s. so_ready s = Open) g))"

lemma should_replace_identity: "should_replace a b \<longleftrightarrow> identity a = identity b"
  by (simp add: should_replace_def identity_def)

lemma distinct_map_filter_map:
  assumes "distinct (map h (filter P xs))" "\<And>x. x \<in> set xs \<Longrightarrow> P (f x) \<Longrightarrow> P x \<and> h (f x) = h x"
  shows "distinct (map h (filter P (map f xs)))"
proof -
  have "map h (filter P (map f xs)) = map h (filter (P \<circ> f) (filter P xs))"
    using assms(2) by (induction xs) auto
  then show ?thesis using distinct_map_filter[OF assms(1), of "P \<circ> f"] by simp
qed

lemma sockets_ok_map:
  assumes "sockets_ok g" "\<And>s. s \<in> set g \<Longrightarrow> so_id (f s) = so_id s"
    "\<And>s. s \<in> set g \<Longrightarrow> identity (so_data (f s)) = identity (so_data s)"
    "\<And>s. s \<in> set g \<Longrightarrow> so_ready (f s) = Open \<Longrightarrow> so_ready s = Open"
  shows "sockets_ok (map f g)"
proof -
  have ids: "map so_id (map f g) = map so_id g" using assms(2) by simp
  have "distinct (map (identity \<circ> so_data) (filter (\<lambda>s. so_ready s = Open) (map f g)))"
    using assms by (intro distinct_map_filter_map) (auto simp: sockets_ok_def)
  then show ?thesis using assms(1) unfolding sockets_ok_def ids_ok_def ids by blast
qed

lemma sockets_ok_send_where [simp]: "sockets_ok g \<Longrightarrow> sockets_ok (send_where P m g)"
  unfolding send_where_def by (rule sockets_ok_map) (auto split: if_splits)

lemma close_native_open: "so_ready (close_native c r s) \<noteq> Open"
  by (simp add: close_native_def)

lemma sockets_ok_operations [simp]:
  assumes "sockets_ok g"
  shows "sockets_ok (snd (send_socket_message i m g))" "sockets_ok (close_socket i code reason g)"
    "sockets_ok (close_sockets code reason g)" "sockets_ok (unregister_socket i g)"
    "sockets_ok (broadcast_storage_status st g)" "sockets_ok (broadcast_policy_updated po st g)"
    "sockets_ok (broadcast_presence_to_watchers e x m g)" "sockets_ok (broadcast_except x m g)"
    "sockets_ok (snd (broadcast_presence_availability xo g))"
proof -
  have ids: "ids_ok g" using assms by (simp add: sockets_ok_def)
  show "sockets_ok (snd (send_socket_message i m g))" "sockets_ok (close_socket i code reason g)"
    using ids assms by (auto simp: socket_maps close_native_open intro!: sockets_ok_map split: if_splits)
  show "sockets_ok (close_sockets code reason g)"
    using assms by (auto simp: close_sockets_def close_native_open intro!: sockets_ok_map)
  show "sockets_ok (unregister_socket i g)"
    using assms distinct_map_filter[of "identity \<circ> so_data" "filter (\<lambda>s. so_ready s = Open) g" "\<lambda>s. so_id s \<noteq> i"]
    by (simp add: sockets_ok_def unregister_socket_def ids_ok_def conj_commute distinct_map_filter)
qed (use assms in \<open>simp_all add: broadcast_storage_status_def broadcast_policy_updated_def
    broadcast_presence_to_watchers_def broadcast_except_def broadcast_presence_availability_def Let_def\<close>)

lemma sockets_ok_attach:
  assumes "sockets_ok g" "\<And>s. s \<in> set g \<Longrightarrow> so_id s = i \<Longrightarrow> identity session = identity (so_data s)"
  shows "sockets_ok (attach_socket_session i session g)"
proof -
  have "ids_ok g" using assms(1) by (simp add: sockets_ok_def)
  then show ?thesis using assms by (auto simp: socket_maps intro!: sockets_ok_map split: if_splits)
qed

lemma sockets_ok_snoc:
  assumes "sockets_ok g" "so_id t \<notin> so_id ` set g"
    "\<And>s. s \<in> set g \<Longrightarrow> so_ready s = Open \<Longrightarrow> identity (so_data s) \<noteq> identity (so_data t)"
  shows "sockets_ok (g @ [t])"
proof -
  have "identity (so_data t) \<notin> (identity \<circ> so_data) ` set (filter (\<lambda>s. so_ready s = Open) g)" using assms(3) by force
  then show ?thesis using assms(1,2) by (auto simp: sockets_ok_def ids_ok_def)
qed

lemma sockets_ok_register:
  assumes ok: "sockets_ok g" and fresh: "i \<notin> so_id ` set g"
  shows "sockets_ok (register_socket i session g)"
proof -
  let ?new = "\<lparr>so_id = i, so_data = session, so_ready = Open, so_works = True, so_sent = [], so_closed = None\<rparr> :: session socket"
  let ?F = "\<lambda>s. if so_id s \<noteq> i \<and> should_replace (so_data s) session
      then close_native 4409 ''superseded by newer connection'' (try_send replaced_message s) else s"
  have "ids_ok (g @ [?new])" using ok fresh by (auto simp: sockets_ok_def ids_ok_def)
  then have reg: "register_socket i session g = map ?F g @ [?new]"
    by (simp add: register_socket_def close_superseded_map)
  have old: "sockets_ok (map ?F g)"
    using ok by (intro sockets_ok_map) (auto simp: close_native_open split: if_splits)
  have "identity (so_data s) \<noteq> identity session" if "s \<in> set (map ?F g)" "so_ready s = Open" for s
    using that fresh by (force simp: close_native_open should_replace_identity split: if_splits)
  moreover have "so_id ` set (map ?F g) = so_id ` set g" unfolding set_map image_image by (rule image_cong) simp_all
  ultimately show ?thesis using old fresh unfolding reg by (intro sockets_ok_snoc) auto
qed

end
