(* ===== verification/Presence_Store.thy ===== *)
theory Presence_Store
  imports Control_Messages "HOL-Library.AList"
begin

text \<open>
  \<open>adapters/outbound/socket/presence-store.ts\<close>: who edits which entry, at most one entry per
  connection, with at most one update in 200 milliseconds. A JavaScript map keeps the position
  of a key that is set again, as \<^const>\<open>AList.update\<close> does.
\<close>

definition min_presence_update_interval_ms :: millis where
  "min_presence_update_interval_ms = 200"

datatype presence_decision = Presence_stored | Presence_throttled

record presence_payload =
  py_presenceId :: ident
  py_entryId :: ident
  py_selection :: presence_selection

record presence_store =
  pr_payloads :: "(ident \<times> presence_payload) list"
  pr_lastUpdateAt :: "(ident \<times> millis) list"

definition no_presence :: presence_store where
  "no_presence = \<lparr>pr_payloads = [], pr_lastUpdateAt = []\<rparr>"

definition presence_try_store ::
  "ident \<Rightarrow> ident \<Rightarrow> presence_selection \<Rightarrow> millis \<Rightarrow> presence_store \<Rightarrow> presence_decision \<times> presence_store" where
  "presence_try_store presenceId entryId selection now p =
     (case map_of (pr_lastUpdateAt p) presenceId of
        Some t \<Rightarrow> if now - t < min_presence_update_interval_ms then (Presence_throttled, p)
          else (Presence_stored,
            \<lparr>pr_payloads = AList.update presenceId
               \<lparr>py_presenceId = presenceId, py_entryId = entryId, py_selection = selection\<rparr> (pr_payloads p),
             pr_lastUpdateAt = AList.update presenceId now (pr_lastUpdateAt p)\<rparr>)
      | None \<Rightarrow> (Presence_stored,
            \<lparr>pr_payloads = AList.update presenceId
               \<lparr>py_presenceId = presenceId, py_entryId = entryId, py_selection = selection\<rparr> (pr_payloads p),
             pr_lastUpdateAt = AList.update presenceId now (pr_lastUpdateAt p)\<rparr>))"

definition presence_get :: "ident \<Rightarrow> presence_store \<Rightarrow> presence_payload option" where
  "presence_get presenceId p = map_of (pr_payloads p) presenceId"

definition presence_list :: "ident \<Rightarrow> ident option \<Rightarrow> presence_store \<Rightarrow> presence_payload list" where
  \<comment> \<open>\<open>listByEntryId\<close>\<close>
  "presence_list entryId except p =
     map snd (filter (\<lambda>(i, y). \<not> (Some i = except \<or> py_entryId y \<noteq> entryId)) (pr_payloads p))"

definition presence_clear :: "ident \<Rightarrow> presence_store \<Rightarrow> presence_payload option \<times> presence_store" where
  "presence_clear presenceId p =
     (presence_get presenceId p,
      \<lparr>pr_payloads = AList.delete presenceId (pr_payloads p),
       pr_lastUpdateAt = AList.delete presenceId (pr_lastUpdateAt p)\<rparr>)"

definition presence_clear_all :: "presence_store \<Rightarrow> presence_store" where
  "presence_clear_all p = \<lparr>pr_payloads = [], pr_lastUpdateAt = []\<rparr>"

section \<open>The store is a map from connections to payloads\<close>

text \<open>
  Abstractly the store is a partial map from connections to the entry, the selection and the time
  of the last accepted update. \<open>presence_ok\<close> says when the two maps represent one.
\<close>

definition presence_ok :: "presence_store \<Rightarrow> bool" where
  "presence_ok p \<longleftrightarrow> distinct (map fst (pr_payloads p)) \<and> distinct (map fst (pr_lastUpdateAt p)) \<and>
     fst ` set (pr_payloads p) = fst ` set (pr_lastUpdateAt p) \<and>
     (\<forall>(i, y) \<in> set (pr_payloads p). py_presenceId y = i)"

definition presence_map :: "presence_store \<Rightarrow> ident \<rightharpoonup> ident \<times> presence_selection \<times> millis" where
  "presence_map p i = (case (map_of (pr_payloads p) i, map_of (pr_lastUpdateAt p) i) of
     (Some y, Some t) \<Rightarrow> Some (py_entryId y, py_selection y, t) | _ \<Rightarrow> None)"

lemma presence_ok_empty [simp]: "presence_ok no_presence" "presence_ok (presence_clear_all p)"
  by (simp_all add: presence_ok_def no_presence_def presence_clear_all_def)

lemma set_alist_update:
  "distinct (map fst xs) \<Longrightarrow> set (AList.update k v xs) = insert (k, v) {x \<in> set xs. fst x \<noteq> k}"
  by (induction xs) (auto simp: image_iff)

lemma presence_ok_try_store:
  assumes "presence_ok p"
  shows "presence_ok (snd (presence_try_store i e sel now p))"
proof -
  have "presence_ok \<lparr>pr_payloads = AList.update i \<lparr>py_presenceId = i, py_entryId = e, py_selection = sel\<rparr> (pr_payloads p),
      pr_lastUpdateAt = AList.update i now (pr_lastUpdateAt p)\<rparr>"
    using assms by (auto simp: presence_ok_def distinct_update set_alist_update update_keys)
  then show ?thesis using assms by (simp add: presence_try_store_def split: option.split)
qed

lemma keys_alist_delete: "fst ` set (AList.delete k xs) = fst ` set xs - {k}"
  by (induction xs) (auto simp: AList.delete_eq)

lemma presence_ok_clear: "presence_ok p \<Longrightarrow> presence_ok (snd (presence_clear i p))"
  by (auto simp: presence_ok_def presence_clear_def distinct_delete keys_alist_delete) (auto simp: AList.delete_eq)

lemma presence_map_simps:
  "presence_map no_presence = Map.empty" "presence_map (presence_clear_all p) = Map.empty"
  "presence_map (snd (presence_clear i p)) = (presence_map p)(i := None)"
  by (auto simp: presence_map_def no_presence_def presence_clear_all_def presence_clear_def delete_conv' fun_eq_iff)

lemma presence_ok_same_keys:
  assumes "presence_ok p"
  shows "map_of (pr_payloads p) i = None \<longleftrightarrow> map_of (pr_lastUpdateAt p) i = None"
  using assms by (simp add: presence_ok_def map_of_eq_None_iff)

lemma payload_eq:
  "y = \<lparr>py_presenceId = i, py_entryId = e, py_selection = s\<rparr> \<longleftrightarrow>
    py_presenceId y = i \<and> py_entryId y = e \<and> py_selection y = s"
  by (cases y) auto

lemma presence_map_eq:
  assumes "presence_ok p"
  shows "presence_map p i = Some (e, s, t) \<longleftrightarrow>
    (i, \<lparr>py_presenceId = i, py_entryId = e, py_selection = s\<rparr>) \<in> set (pr_payloads p) \<and> map_of (pr_lastUpdateAt p) i = Some t"
proof -
  have keys: "distinct (map fst (pr_payloads p))" using assms by (simp add: presence_ok_def)
  have own: "map_of (pr_payloads p) i = Some y \<Longrightarrow> py_presenceId y = i" for y
    using assms map_of_SomeD[of "pr_payloads p" i y] by (auto simp: presence_ok_def)
  have "presence_map p i = Some (e, s, t) \<longleftrightarrow>
      (\<exists>y. map_of (pr_payloads p) i = Some y \<and> y = \<lparr>py_presenceId = i, py_entryId = e, py_selection = s\<rparr>) \<and>
      map_of (pr_lastUpdateAt p) i = Some t"
    unfolding payload_eq using own by (auto simp: presence_map_def split: option.splits)
  then show ?thesis using map_of_eq_Some_iff[OF keys] by simp
qed

lemma map_of_lastUpdate:
  assumes "presence_ok p"
  shows "map_of (pr_lastUpdateAt p) i = map_option (\<lambda>(_, _, t). t) (presence_map p i)"
  using presence_ok_same_keys[OF assms, of i] by (auto simp: presence_map_def split: option.splits)

lemma presence_time:
  assumes "presence_ok p" "(j, y) \<in> set (pr_payloads p)"
  shows "\<exists>t. map_of (pr_lastUpdateAt p) j = Some t"
proof -
  have "j \<in> fst ` set (pr_payloads p)" using assms(2) by force
  then have "map_of (pr_payloads p) j \<noteq> None" by (simp add: map_of_eq_None_iff)
  then show ?thesis using presence_ok_same_keys[OF assms(1)] by auto
qed

lemma set_presence_list:
  assumes ok: "presence_ok p"
  shows "set (presence_list e (Some i) p) =
    {\<lparr>py_presenceId = j, py_entryId = e, py_selection = s\<rparr> |j s. j \<noteq> i \<and> (\<exists>t. presence_map p j = Some (e, s, t))}"
proof (intro set_eqI iffI)
  fix y assume "y \<in> set (presence_list e (Some i) p)"
  then obtain j where j: "(j, y) \<in> set (pr_payloads p)" "j \<noteq> i" "py_entryId y = e" by (auto simp: presence_list_def)
  moreover have "py_presenceId y = j" using ok j(1) by (auto simp: presence_ok_def)
  ultimately obtain s where "y = \<lparr>py_presenceId = j, py_entryId = e, py_selection = s\<rparr>" by (auto simp: payload_eq)
  then show "y \<in> {\<lparr>py_presenceId = j, py_entryId = e, py_selection = s\<rparr> |j s. j \<noteq> i \<and> (\<exists>t. presence_map p j = Some (e, s, t))}"
    using j presence_time[OF ok j(1)] by (auto simp: presence_map_eq[OF ok])
next
  fix y assume "y \<in> {\<lparr>py_presenceId = j, py_entryId = e, py_selection = s\<rparr> |j s. j \<noteq> i \<and> (\<exists>t. presence_map p j = Some (e, s, t))}"
  then show "y \<in> set (presence_list e (Some i) p)"
    by (auto simp: presence_map_eq[OF ok] presence_list_def image_iff intro!: bexI)
qed

section \<open>Property\<close>

text \<open>
  The presence store implements the abstract map with a rate limit: an update within 200
  milliseconds of the connection's last accepted one changes nothing, any other replaces the
  connection's entry; reading, clearing and clearing all are those of the map; and the listing of
  an entry's editors names each of them once, without the connection that asks.
\<close>

theorem presence_store_refines_map:
  assumes ok: "presence_ok p"
  shows "(if \<exists>e' s' t. presence_map p i = Some (e', s', t) \<and> now - t < min_presence_update_interval_ms
     then presence_try_store i e sel now p = (Presence_throttled, p)
     else fst (presence_try_store i e sel now p) = Presence_stored \<and>
       presence_map (snd (presence_try_store i e sel now p)) = (presence_map p)(i \<mapsto> (e, sel, now))) \<and>
    map_option (\<lambda>y. (py_entryId y, py_selection y)) (presence_get i p) = map_option (\<lambda>(e, s, _). (e, s)) (presence_map p i) \<and>
    fst (presence_clear i p) = presence_get i p \<and> presence_map (snd (presence_clear i p)) = (presence_map p)(i := None) \<and>
    presence_map (presence_clear_all p) = Map.empty \<and>
    distinct (presence_list e (Some i) p) \<and>
    set (presence_list e (Some i) p) =
      {\<lparr>py_presenceId = j, py_entryId = e, py_selection = s\<rparr> |j s. j \<noteq> i \<and> (\<exists>t. presence_map p j = Some (e, s, t))}"
proof -
  have upd: "presence_map \<lparr>pr_payloads = AList.update i \<lparr>py_presenceId = i, py_entryId = e, py_selection = sel\<rparr> (pr_payloads p),
      pr_lastUpdateAt = AList.update i now (pr_lastUpdateAt p)\<rparr> = (presence_map p)(i \<mapsto> (e, sel, now))"
    by (auto simp: presence_map_def update_conv' fun_eq_iff)
  have get: "map_option (\<lambda>y. (py_entryId y, py_selection y)) (presence_get i p) = map_option (\<lambda>(e, s, _). (e, s)) (presence_map p i)"
    using presence_ok_same_keys[OF ok, of i] by (auto simp: presence_get_def presence_map_def split: option.splits)
  have own: "py_presenceId y = j" if "(j, y) \<in> set (pr_payloads p)" for j y
    using ok that by (auto simp: presence_ok_def)
  have keys: "distinct (map fst (pr_payloads p))" using ok by (simp add: presence_ok_def)
  have "map py_presenceId (presence_list e (Some i) p) =
      map fst (filter (\<lambda>(j, y). \<not> (Some j = Some i \<or> py_entryId y \<noteq> e)) (pr_payloads p))"
    using own by (auto simp: presence_list_def)
  then have "distinct (map py_presenceId (presence_list e (Some i) p))"
    using distinct_map_filter[OF keys] by simp
  then have "distinct (presence_list e (Some i) p)" by (simp add: distinct_map)
  moreover have "set (presence_list e (Some i) p) =
      {\<lparr>py_presenceId = j, py_entryId = e, py_selection = s\<rparr> |j s. j \<noteq> i \<and> (\<exists>t. presence_map p j = Some (e, s, t))}"
    by (intro set_presence_list[OF ok])
  moreover have "if \<exists>e' s' t. presence_map p i = Some (e', s', t) \<and> now - t < min_presence_update_interval_ms
     then presence_try_store i e sel now p = (Presence_throttled, p)
     else fst (presence_try_store i e sel now p) = Presence_stored \<and>
       presence_map (snd (presence_try_store i e sel now p)) = (presence_map p)(i \<mapsto> (e, sel, now))"
  proof (cases "presence_map p i")
    case None
    then have "map_of (pr_lastUpdateAt p) i = None" using map_of_lastUpdate[OF ok, of i] by simp
    then show ?thesis using None upd by (simp add: presence_try_store_def)
  next
    case (Some x)
    obtain e' s' t where x: "x = (e', s', t)" by (cases x)
    then have "map_of (pr_lastUpdateAt p) i = Some t" using map_of_lastUpdate[OF ok, of i] Some by simp
    then show ?thesis using Some x upd by (simp add: presence_try_store_def)
  qed
  ultimately show ?thesis
    by (intro conjI get presence_map_simps(2,3)) (simp_all only: presence_clear_def fst_conv)
qed

theorem presence_store_refines_map_witness:
  "let sel = \<lparr>pn_anchor = \<lparr>pp_line = 1, pp_ch = 2\<rparr>, pn_head = \<lparr>pp_line = 1, pp_ch = 2\<rparr>\<rparr>;
       p = snd (presence_try_store ''a'' ''e'' sel 1000 no_presence) in
   presence_try_store ''a'' ''f'' sel 1199 p = (Presence_throttled, p) \<and>
   set (presence_list ''e'' (Some ''b'') p) = {\<lparr>py_presenceId = ''a'', py_entryId = ''e'', py_selection = sel\<rparr>}"
proof -
  let ?sel = "\<lparr>pn_anchor = \<lparr>pp_line = 1, pp_ch = 2\<rparr>, pn_head = \<lparr>pp_line = 1, pp_ch = 2\<rparr>\<rparr>"
  let ?p = "snd (presence_try_store ''a'' ''e'' ?sel 1000 no_presence)"
  have ok: "presence_ok ?p" by (rule presence_ok_try_store) simp
  have m: "presence_map ?p = [''a'' \<mapsto> (''e'', ?sel, 1000)]"
    using presence_store_refines_map[OF presence_ok_empty(1), of "''a''" 1000 "''e''" ?sel]
    by (simp add: presence_map_simps)
  show ?thesis
    using presence_store_refines_map[OF ok, of "''a''" 1199 "''f''" ?sel] presence_store_refines_map[OF ok, of "''b''" 0 "''e''" ?sel] m
    by (simp add: Let_def min_presence_update_interval_ms_def)
qed

end
