(* ===== verification/Control_Handler.thy ===== *)
theory Control_Handler
  imports Socket_Gateway Presence_Store
begin

text \<open>
  \<open>adapters/inbound/websocket/control-message-handler.ts\<close>: what the coordinator does with a
  message of a client, on the state of one vault's instance: the coordinator, the cached access
  revocations, the sockets and the presence store, as \<open>create-coordinator-application.ts\<close> wires
  them. The calls the services make to the socket gateway are delivered before the answer is sent.
\<close>

record hub =
  hb_co :: coordinator
  hb_access :: access_state
  hb_sockets :: sockets
  hb_presence :: presence_store

section \<open>The gateway under the services\<close>

fun deliver :: "gateway_call \<Rightarrow> sockets \<Rightarrow> sockets" where
  "deliver (Broadcast_storage_status used lim) g =
     broadcast_storage_status \<lparr>st_used = used, st_limit = lim\<rparr> g"
| "deliver (Broadcast_policy_updated lim maxFile used statusLimit) g =
     broadcast_policy_updated \<lparr>po_limit = lim, po_maxFile = maxFile\<rparr> \<lparr>st_used = used, st_limit = statusLimit\<rparr> g"
| "deliver (Close_all_sockets code reason) g = close_sockets code reason g"
| "deliver (Close_socket i code reason) g = close_socket i code reason g"

definition with_services :: "(coordinator \<Rightarrow> 'r \<times> coordinator) \<Rightarrow> hub \<Rightarrow> 'r \<times> hub" where
  "with_services op h =
     (let (r, c) = op ((hb_co h)\<lparr>co_calls := []\<rparr>)
      in (r, h\<lparr>hb_co := c\<lparr>co_calls := []\<rparr>, hb_sockets := fold deliver (co_calls c) (hb_sockets h)\<rparr>))"

definition on_sockets :: "(sockets \<Rightarrow> sockets) \<Rightarrow> hub \<Rightarrow> hub" where
  "on_sockets f h = h\<lparr>hb_sockets := f (hb_sockets h)\<rparr>"

definition send :: "ident \<Rightarrow> server_message \<Rightarrow> hub \<Rightarrow> hub" where
  "send i m = on_sockets (\<lambda>g. snd (send_socket_message i m g))"

definition attach :: "ident \<Rightarrow> session \<Rightarrow> hub \<Rightarrow> hub" where
  "attach i session = on_sockets (attach_socket_session i session)"

section \<open>Errors\<close>

definition extract_error_code :: "coord_error \<Rightarrow> string option" where
  "extract_error_code e =
     (case e of AppError code _ \<Rightarrow> if js_trim code \<noteq> [] then Some code else None
      | RequestError code _ \<Rightarrow> if js_trim code \<noteq> [] then Some code else None
      | _ \<Rightarrow> None)"

definition websocket_request_error :: "coord_error \<Rightarrow> string \<Rightarrow> string \<Rightarrow> string \<times> string" where
  "websocket_request_error e fallbackCode fallbackMessage =
     (case extract_error_code e of None \<Rightarrow> fallbackCode | Some code \<Rightarrow> code,
      if js_trim (error_message e) \<noteq> [] then error_message e else fallbackMessage)"

definition request_failed :: "failure_kind \<Rightarrow> ident \<Rightarrow> coord_error \<Rightarrow> string \<Rightarrow> string \<Rightarrow> server_message" where
  "request_failed kind requestId e fallbackCode fallbackMessage =
     (let (code, msg) = websocket_request_error e fallbackCode fallbackMessage
      in Request_failed kind requestId code msg)"

section \<open>Authorization\<close>

definition authorize :: "env \<Rightarrow> session \<Rightarrow> hub \<Rightarrow> (access_error + unit) \<times> hub" where
  \<comment> \<open>\<open>syncAccess.require\<close>\<close>
  "authorize env session h =
     (let (r, s, d) = require_access (ev_clk env 0) (ss_userId session)
            (case ss_accessVersion session of None \<Rightarrow> 1 | Some n \<Rightarrow> n) (hb_access h, co_db (hb_co h))
      in (r, h\<lparr>hb_access := s, hb_co := (hb_co h)\<lparr>co_db := d\<rparr>\<rparr>))"

definition refuse :: "ident \<Rightarrow> access_error \<Rightarrow> hub \<Rightarrow> hub" where
  \<comment> \<open>the \<open>catch\<close> around the authorization\<close>
  "refuse i e h =
     (case e of Sharing_error _ code msg \<Rightarrow>
        let paused = (code = ''sync_paused''); revoked = (code = ''vault_access_denied'');
            suspended = (code = ''sharing_suspended'')
        in on_sockets (close_socket i (if revoked then 4403 else 1013)
             (if paused then ''sync paused for vault repair'' else if suspended then ''shared sync paused''
              else if revoked then ''vault access denied'' else ''vault access temporarily unavailable''))
           (send i (Session_error (if paused then ''sync_paused'' else if suspended then ''sharing_suspended''
              else if revoked then ''unauthorized'' else ''access_unavailable'') msg) h))"

section \<open>Presence\<close>

definition broadcast_presence_cleared :: "ident \<Rightarrow> ident \<Rightarrow> hub \<Rightarrow> hub" where
  "broadcast_presence_cleared entryId presenceId =
     on_sockets (broadcast_presence_to_watchers entryId presenceId (Presence_cleared presenceId))"

definition push_presence_updated :: "ident \<Rightarrow> ident \<Rightarrow> presence_selection \<Rightarrow> ident option \<Rightarrow> hub \<Rightarrow> hub" where
  "push_presence_updated presenceId entryId selection receiver h =
     (case read_socket_session presenceId (hb_sockets h) of
        None \<Rightarrow> h
      | Some session \<Rightarrow>
          let m = Presence_updated presenceId entryId (ss_userId session) (ss_displayName session) selection
          in (case receiver of
                Some i \<Rightarrow> send i m h
              | None \<Rightarrow> on_sockets (broadcast_presence_to_watchers entryId presenceId m) h))"

definition push_snapshots :: "ident \<Rightarrow> ident \<Rightarrow> hub \<Rightarrow> hub" where
  \<comment> \<open>the loop over \<open>listByEntryId(entryId, connectionId)\<close>\<close>
  "push_snapshots i entryId h =
     fold (\<lambda>y. push_presence_updated (py_presenceId y) (py_entryId y) (py_selection y) (Some i))
       (presence_list entryId (Some i) (hb_presence h)) h"

definition clear_presence :: "ident \<Rightarrow> hub \<Rightarrow> presence_payload option \<times> hub" where
  "clear_presence i h = (let (previous, p) = presence_clear i (hb_presence h) in (previous, h\<lparr>hb_presence := p\<rparr>))"

definition announce_cleared :: "ident \<Rightarrow> presence_payload option \<Rightarrow> hub \<Rightarrow> hub" where
  "announce_cleared i previous h =
     (case previous of None \<Rightarrow> h | Some y \<Rightarrow> broadcast_presence_cleared (py_entryId y) i h)"

definition announce_availability :: "ident option \<Rightarrow> hub \<Rightarrow> bool \<times> hub" where
  "announce_availability excluded h =
     (let (enabled, g) = broadcast_presence_availability excluded (hb_sockets h);
          h1 = h\<lparr>hb_sockets := g\<rparr>
      in (enabled, if enabled then h1 else h1\<lparr>hb_presence := presence_clear_all (hb_presence h1)\<rparr>))"

definition watch_presence :: "ident \<Rightarrow> session \<Rightarrow> ident list \<Rightarrow> hub \<Rightarrow> hub" where
  "watch_presence i session entryIds h =
     (let watched = js_unique entryIds;
          newly = filter (\<lambda>e. e \<notin> set (ss_presenceWatch session)) watched;
          shouldClear = ((case presence_get i (hb_presence h) of None \<Rightarrow> False | Some y \<Rightarrow> py_entryId y \<notin> set watched) \<or>
            (case ss_presenceEntryId session of None \<Rightarrow> False | Some e \<Rightarrow> e \<notin> set watched));
          h1 = attach i (session\<lparr>ss_presenceEntryId := (if shouldClear then None else ss_presenceEntryId session),
                 ss_presenceWatch := watched, ss_wantsPresence := True\<rparr>) h;
          h2 = (if shouldClear then (case clear_presence i h1 of (previous, h') \<Rightarrow> announce_cleared i previous h') else h1);
          (enabled, h3) = announce_availability None h2
      in if \<not> enabled then h3 else fold (push_snapshots i) newly h3)"

definition unwatch_presence :: "ident \<Rightarrow> session \<Rightarrow> hub \<Rightarrow> hub" where
  "unwatch_presence i session h =
     (let (previous, h1) = clear_presence i h;
          h2 = attach i (session\<lparr>ss_presenceEntryId := None, ss_presenceWatch := [], ss_wantsPresence := False\<rparr>) h1
      in snd (announce_availability None (announce_cleared i previous h2)))"

definition drop_presence :: "ident \<Rightarrow> session \<Rightarrow> hub \<Rightarrow> hub" where
  \<comment> \<open>\<open>presence_clear\<close>\<close>
  "drop_presence i session h =
     (if \<not> ss_wantsPresence session then h
      else let (previous, h1) = clear_presence i h
        in announce_cleared i previous (attach i (session\<lparr>ss_presenceEntryId := None\<rparr>) h1))"

definition update_presence :: "env \<Rightarrow> ident \<Rightarrow> session \<Rightarrow> ident \<Rightarrow> presence_selection \<Rightarrow> hub \<Rightarrow> hub" where
  "update_presence env i session entryId selection h =
     (if \<not> ss_wantsPresence session then h
      else let previous = presence_get i (hb_presence h) in
        case presence_try_store i entryId selection (ev_clk env 1) (hb_presence h) of
          (Presence_throttled, _) \<Rightarrow> h
        | (Presence_stored, p) \<Rightarrow>
            let moved = (case previous of None \<Rightarrow> False | Some y \<Rightarrow> py_entryId y \<noteq> entryId);
                h1 = attach i (session\<lparr>ss_presenceEntryId := Some entryId\<rparr>) (h\<lparr>hb_presence := p\<rparr>);
                h2 = (if moved then announce_cleared i previous h1 else h1);
                h3 = push_presence_updated i entryId selection None h2
            in if previous = None \<or> moved then push_snapshots i entryId h3 else h3)"

section \<open>Requests\<close>

definition say_hello :: "env \<Rightarrow> ident \<Rightarrow> session \<Rightarrow> ident \<Rightarrow> int \<Rightarrow> hub \<Rightarrow> hub" where
  "say_hello env i session requestId lastKnownCursor h =
     (case current_cursor (co_db (hb_co h)) of
        Inl e \<Rightarrow> send i (Session_error ''hello_failed'' (error_message e)) h
      | Inr cursor \<Rightarrow>
          if lastKnownCursor > cursor
          then send i (Session_error ''cursor_ahead_of_server''
            (''Sync was paused because this device'' @ [CHR 0x27] @ ''s sync history no longer matches the remote vault. To resume syncing, disconnect and reconnect the remote vault in Synch settings.'')) h
          else
            let h1 = h\<lparr>hb_co := on_db (record_connection (ss_userId session) (ss_localVaultId session) (ev_clk env 1)) (hb_co h)\<rparr>
            in (case read_vault_limits (co_db (hb_co h1)) of
                  Inl e \<Rightarrow> send i (Session_error ''hello_failed'' (error_message e)) h1
                | Inr limits \<Rightarrow>
                    let h2 = h1\<lparr>hb_co := schedule_summary_flush (ev_clk env 2) (hb_co h1)\<rparr>;
                        (used, lim) = read_storage_status (co_db (hb_co h2))
                    in (case current_cursor (co_db (hb_co h2)) of
                          Inl e \<Rightarrow> send i (Session_error ''hello_failed'' (error_message e)) h2
                        | Inr cursor' \<Rightarrow> send i (Hello_ack requestId cursor'
                            \<lparr>po_limit = lim_storage limits, po_maxFile = lim_maxFile limits\<rparr>
                            \<lparr>st_used = used, st_limit = lim\<rparr>) h2)))"

definition reply_and_broadcast :: "ident \<Rightarrow> server_message \<Rightarrow> int option \<Rightarrow> hub \<Rightarrow> hub" where
  "reply_and_broadcast i m broadcast h =
     (let h1 = send i m h in
      case broadcast of None \<Rightarrow> h1 | Some cursor \<Rightarrow> on_sockets (broadcast_except i (Cursor_advanced cursor)) h1)"

fun respond :: "env \<Rightarrow> ident \<Rightarrow> session \<Rightarrow> client_message \<Rightarrow> hub \<Rightarrow> hub" where
  \<comment> \<open>\<open>handle\<close> after the authorization, which read the clock once\<close>
  "respond env i session (Msg_hello r cursor) h = say_hello env i session r cursor h"
| "respond env i session (Msg_commit_mutations r ms) h =
     (case with_services (commit_mutations (later_clock env) session ms None) h of
        (Inl e, h1) \<Rightarrow> send i (Request_failed Commit_mutations_failed r ''commit_failed'' (error_message e)) h1
      | (Inr res, h1) \<Rightarrow>
          reply_and_broadcast i (Commit_mutations_committed r (cr_cursor res) (cr_results res)) (cr_broadcast res) h1)"
| "respond env i session (Msg_list_entry_states r q) h =
     send i (case entry_states_page q (hb_co h) of
        Inl e \<Rightarrow> request_failed Entry_states_list_failed r e ''entry_states_list_failed'' ''entry states list failed''
      | Inr page \<Rightarrow> Entry_states_listed r page) h"
| "respond env i session (Msg_list_entry_versions r entryId before limit) h =
     send i (case entry_versions_page (later_clock env) entryId before limit (hb_co h) of
        Inl e \<Rightarrow> request_failed Entry_versions_list_failed r e ''entry_versions_list_failed'' ''entry history failed''
      | Inr (versions, hasMore, next) \<Rightarrow> Entry_versions_listed r entryId versions hasMore next) h"
| "respond env i session (Msg_list_deleted_entries r before limit) h =
     send i (case deleted_entries_page (later_clock env) before limit (hb_co h) of
        Inl e \<Rightarrow> request_failed Deleted_entries_list_failed r e ''deleted_entries_list_failed'' ''deleted entries list failed''
      | Inr (entries, hasMore, next) \<Rightarrow> Deleted_entries_listed r entries hasMore next) h"
| "respond env i session (Msg_restore_entry_version r x) h =
     (case with_services (restore_entry_version (later_clock env) session x) h of
        (Inl e, h1) \<Rightarrow> send i (request_failed Entry_restore_failed r e ''entry_restore_failed'' ''entry restore failed'') h1
      | (Inr (res, broadcast), h1) \<Rightarrow> reply_and_broadcast i (Entry_version_restored r res) broadcast h1)"
| "respond env i session (Msg_restore_entry_versions r xs) h =
     (case with_services (restore_entry_versions (later_clock env) session xs) h of
        (Inl e, h1) \<Rightarrow> send i (request_failed Entry_restore_failed r e ''entry_restore_failed'' ''entry restore failed'') h1
      | (Inr (cursor, results, broadcast), h1) \<Rightarrow>
          reply_and_broadcast i (Entry_versions_restored r cursor results) broadcast h1)"
| "respond env i session (Msg_purge_deleted_entries r entries) h =
     (case with_services (purge_deleted_entries (later_clock env) session entries) h of
        (Inl e, h1) \<Rightarrow> send i (request_failed Deleted_entries_purge_failed r e
          ''deleted_entries_purge_failed'' ''deleted entries purge failed'') h1
      | (Inr (results, _), h1) \<Rightarrow> send i (Deleted_entries_purged r results) h1)"
| "respond env i session (Msg_detach_local_vault r) h =
     send i (Local_vault_detached r)
       (snd (with_services (\<lambda>c. ((), detach_local_vault (later_clock env) (ss_userId session) (ss_localVaultId session) c)) h))"
| "respond env i session (Msg_heartbeat r) h = send i (Heartbeat_ack r) h"
| "respond env i session Msg_watch_storage_status h =
     (let (used, lim) = read_storage_status (co_db (hb_co h))
      in send i (Storage_status_updated \<lparr>st_used = used, st_limit = lim\<rparr>)
           (attach i (session\<lparr>ss_wantsStorageStatus := True\<rparr>) h))"
| "respond env i session Msg_unwatch_storage_status h = attach i (session\<lparr>ss_wantsStorageStatus := False\<rparr>) h"
| "respond env i session (Msg_watch_presence entryIds) h = watch_presence i session entryIds h"
| "respond env i session Msg_unwatch_presence h = unwatch_presence i session h"
| "respond env i session Msg_presence_clear h = drop_presence i session h"
| "respond env i session (Msg_presence_update entryId selection) h = update_presence env i session entryId selection h"
| "respond env i session (Msg_commit_mutation _ _) h =
     send i (Session_error ''unsupported_message'' ''unsupported websocket message type'') h"

definition handle :: "env \<Rightarrow> ident \<Rightarrow> client_message \<Rightarrow> hub \<Rightarrow> hub" where
  "handle env i m h =
     (case read_socket_session i (hb_sockets h) of
        None \<Rightarrow> on_sockets (close_socket i 4401 ''missing socket session'')
          (send i (Session_error ''unauthorized'' ''socket session is missing'') h)
      | Some session \<Rightarrow>
          (case authorize env session h of
             (Inl e, h1) \<Rightarrow> refuse i e h1
           | (Inr _, h1) \<Rightarrow> respond env i session m h1))"

definition handle_disconnect :: "ident \<Rightarrow> hub \<Rightarrow> hub" where
  "handle_disconnect i h =
     (let (previous, h1) = clear_presence i h
      in snd (announce_availability (Some i) (announce_cleared i previous h1)))"

section \<open>The services only broadcast the storage status\<close>

text \<open>
  The requests of a client never make a service close sockets; all a service does on the gateway
  is to broadcast the storage status.
\<close>

definition quiet :: "coordinator \<Rightarrow> coordinator \<Rightarrow> bool" where
  "quiet c c' \<longleftrightarrow> (\<exists>ks. co_calls c' = co_calls c @ ks \<and> (\<forall>k \<in> set ks. \<exists>used lim. k = Broadcast_storage_status used lim))"

lemma quiet_same [intro]: "co_calls c' = co_calls c \<Longrightarrow> quiet c c'"
  by (simp add: quiet_def)

lemma quiet_trans [trans]: "quiet c c' \<Longrightarrow> quiet c' c'' \<Longrightarrow> quiet c c''"
  unfolding quiet_def by (metis Un_iff append.assoc set_append)

lemma calls_kept:
  "co_calls (snd (in_transaction op c)) = co_calls c" "co_calls (on_db f c) = co_calls c"
  "co_calls (schedule_summary_flush t c) = co_calls c" "co_calls (schedule_at t t' c) = co_calls c"
  "co_calls (snd (schedule_next t c)) = co_calls c"
  "co_calls (snd (object_delete_many env ks c)) = co_calls c"
  by (auto simp: in_transaction_def on_db_def schedule_summary_flush_def schedule_at_def schedule_next_def Let_def
      object_delete_many_def defer_maintenance_rest split: prod.splits option.splits)

lemma quiet_notify: "quiet c (notify_storage_status_changed env c)"
  by (auto simp: quiet_def notify_storage_status_changed_def flush_storage_status_def split: prod.splits)

lemma in_transaction_calls: "in_transaction op c = (r, c') \<Longrightarrow> co_calls c' = co_calls c"
  using calls_kept(1)[of op c] by simp

lemma object_delete_calls: "object_delete_many env ks c = (r, c') \<Longrightarrow> co_calls c' = co_calls c"
  using calls_kept(6)[of env ks c] by simp

lemma commit_mutations_calls: "co_calls (snd (commit_mutations env session ms forced c)) = co_calls c"
  by (auto simp: commit_mutations_def Let_def calls_kept split: option.splits sum.splits prod.splits dest: in_transaction_calls)

lemma commit_mutations_quiet: "quiet c (snd (commit_mutations env session ms forced c))"
  by (intro quiet_same commit_mutations_calls)

lemma commit_mutation_quiet: "quiet c (snd (commit_mutation env session m forced c))"
  using commit_mutations_quiet[of c env session "[m]" forced]
  by (auto simp: commit_mutation_def split: sum.splits prod.splits list.splits batch_result.splits)

lemma restore_entry_version_quiet: "quiet c (snd (restore_entry_version env session r c))"
  using commit_mutation_quiet[of c "after_restore_reads 1 env" session "restore_mutation (ev_uuid env 0) r" "Some Before_restore"]
  by (auto simp: restore_entry_version_def split: sum.splits prod.splits option.splits commit_reply.splits)

lemma restore_entry_versions_quiet: "quiet c (snd (restore_entry_versions env session rs c))"
  by (auto simp: restore_entry_versions_def Let_def split: sum.splits prod.splits)
     (metis commit_mutations_quiet snd_conv)+

lemma purge_all_calls: "co_calls (snd (purge_all start es c)) = co_calls c"
proof (induction es arbitrary: c)
  case (Cons e es)
  have "co_calls (snd (in_transaction (purge_one start e) c)) = co_calls c" by (rule calls_kept)
  then show ?case using Cons by (auto split: sum.splits prod.splits) (metis snd_conv)+
qed simp

lemma delete_batch_calls: "co_calls (snd (delete_collectible_batch env v bs now c)) = co_calls c"
proof -
  obtain r c1 where deleted: "object_delete_many env (map (\<lambda>b. blob_object_key v (bl_id (fst b))) bs) c = (r, c1)" by fastforce
  show ?thesis using object_delete_calls[OF deleted]
    by (auto simp: delete_collectible_batch_def Let_def deleted split: sum.splits prod.splits if_splits dest: in_transaction_calls)
qed

lemma retire_purged_calls: "co_calls (snd (fold (retire_purged_blob now) bs (acc, c))) = co_calls c"
proof (induction bs arbitrary: acc c)
  case (Cons b bs)
  obtain acc' c' where step: "retire_purged_blob now b (acc, c) = (acc', c')" by fastforce
  then have "co_calls c' = co_calls c"
    by (auto simp: retire_purged_blob_def Let_def calls_kept split: option.splits if_splits)
  then show ?case using Cons step by simp
qed simp

lemma collect_purged_quiet: "quiet c (snd (collect_purged_blobs env v bs now c))"
proof -
  obtain blobs c1 where retired: "fold (retire_purged_blob now) (js_unique bs) ([], on_db (expire_entry_versions now) c) = (blobs, c1)"
    by fastforce
  obtain result c2 where deleted: "delete_collectible_batch env v blobs now c1 = (result, c2)" by fastforce
  have same: "co_calls c2 = co_calls c"
    using retire_purged_calls[of now "js_unique bs" "[]" "on_db (expire_entry_versions now) c"]
      delete_batch_calls[of env v blobs now c1] retired deleted by (simp add: calls_kept)
  have "quiet c (notify_storage_status_changed env (schedule_summary_flush now (snd (schedule_next now c2))))"
    using quiet_trans[OF quiet_same quiet_notify] same by (simp add: calls_kept)
  moreover have "quiet c (schedule_summary_flush now (snd (schedule_next now c2)))"
    using same by (simp add: quiet_same calls_kept)
  ultimately show ?thesis
    by (simp add: collect_purged_blobs_def retired deleted quiet_same Let_def split: option.split sum.split bool.split)
qed

lemma purge_deleted_entries_quiet: "quiet c (snd (purge_deleted_entries env session es c))"
proof -
  have start: "quiet c c1" if "purge_all start es c = (r, c1)" for start r c1
    using purge_all_calls[of start es c] that by auto
  show ?thesis
    by (auto simp: purge_deleted_entries_def Let_def split: sum.splits prod.splits)
       (metis start quiet_trans collect_purged_quiet snd_conv)+
qed

lemma detach_quiet: "quiet c (detach_local_vault env u l c)"
  by (intro quiet_same) (simp add: detach_local_vault_def calls_kept)

end
