(* ===== verification/Json.thy ===== *)
theory Json
  imports Prelude "HOL-Library.Countable"
begin

text \<open>
  Values of unknown shape, as the code receives them from \<open>JSON.parse\<close>, a verified token or a
  socket attachment: the checks on them are \<open>typeof\<close> tests and comparisons. A number that is not
  an integer has no constructor for its value, because no check lets one pass.
\<close>

datatype json =
    JNull
  | JBool bool
  | JInt int
  | JFraction \<comment> \<open>any number that is not an integer\<close>
  | JString string
  | JArray "json list"
  | JObject "(string \<times> json) list" \<comment> \<open>own properties in order; JSON has no duplicates\<close>

instance json :: countable
  by countable_datatype

definition property :: "string \<Rightarrow> json \<Rightarrow> json option" where
  \<comment> \<open>\<open>value[key]\<close> of an object; \<^term>\<open>None\<close> is \<open>undefined\<close>\<close>
  "property key v = (case v of JObject ps \<Rightarrow> map_of ps key | _ \<Rightarrow> None)"

definition is_object :: "json \<Rightarrow> bool" where
  \<comment> \<open>\<open>value && typeof value === "object"\<close>\<close>
  "is_object v \<longleftrightarrow> (case v of JObject _ \<Rightarrow> True | JArray _ \<Rightarrow> True | _ \<Rightarrow> False)"

definition as_string :: "json option \<Rightarrow> string option" where
  "as_string v = (case v of Some (JString s) \<Rightarrow> Some s | _ \<Rightarrow> None)"

definition as_int :: "json option \<Rightarrow> int option" where
  \<comment> \<open>\<open>typeof v === "number" && Number.isInteger(v)\<close>\<close>
  "as_int v = (case v of Some (JInt n) \<Rightarrow> Some n | _ \<Rightarrow> None)"

definition max_safe_integer :: int where "max_safe_integer = 2 ^ 53 - 1"

definition safe_integer :: "int \<Rightarrow> bool" where
  "safe_integer n \<longleftrightarrow> \<bar>n\<bar> \<le> max_safe_integer"

lemma as_string_simps [simp]: "as_string (Some (JString s)) = Some s" "as_string None = None"
  by (simp_all add: as_string_def)

lemma as_int_simps [simp]: "as_int (Some (JInt n)) = Some n" "as_int None = None"
  by (simp_all add: as_int_def)

lemma as_string_Some: "as_string v = Some s \<longleftrightarrow> v = Some (JString s)"
  by (auto simp: as_string_def split: option.splits json.splits)

lemma as_int_Some: "as_int v = Some n \<longleftrightarrow> v = Some (JInt n)"
  by (auto simp: as_int_def split: option.splits json.splits)

section \<open>Text\<close>

text \<open>Trimming is idempotent and what is trimmed stays.\<close>

lemma dropWhile_settled: "xs = [] \<or> \<not> P (hd xs) \<Longrightarrow> dropWhile P xs = xs"
  by (cases xs) auto

lemma dropWhile_result: "dropWhile P xs = [] \<or> \<not> P (hd (dropWhile P xs))"
  by (induction xs) auto

lemma dropWhile_end_settled:
  "xs = [] \<or> \<not> P (hd xs) \<Longrightarrow> rev (dropWhile P (rev xs)) = [] \<or> \<not> P (hd (rev (dropWhile P (rev xs))))"
  by (cases xs) (simp_all add: dropWhile_append3)

lemma js_trim_idem [simp]: "js_trim (js_trim s) = js_trim s"
proof -
  let ?t = "js_trim s"
  have "dropWhile js_space ?t = ?t"
    unfolding js_trim_def by (rule dropWhile_settled, rule dropWhile_end_settled, rule dropWhile_result)
  moreover have "dropWhile js_space (rev ?t) = rev ?t"
    by (simp add: js_trim_def dropWhile_settled dropWhile_result)
  ultimately show ?thesis by (simp add: js_trim_def)
qed

end
