(* ===== verification/Sync_Token.thy ===== *)
theory Sync_Token
  imports Json Sync_Access
begin

text \<open>
  The feature \<open>sync-access\<close>: sync tokens, short-lived JWTs that let a device talk to a vault's
  coordinator. \<open>domain/token-policy.ts\<close> checks the claims, \<open>services/sync-token-service.ts\<close>
  issues and verifies tokens, \<open>jose-sync-token-codec.ts\<close> signs them, \<open>request-auth.ts\<close> finds a
  token in a request. The library \<open>jose\<close> is a parameter: a signing and a verifying function,
  whose documented behaviour is \<open>jose_documented\<close>.
\<close>

section \<open>Errors\<close>

datatype sync_access_error =
    Missing_token | Invalid_token | Expired_token | Invalid_token_claims | Invalid_scope
  | Vault_mismatch | Vault_access_denied | Sync_paused

datatype token_failure =
    Sync_access_failure sync_access_error
  | Sharing_refusal access_error
  | Other_failure string \<comment> \<open>anything else the services behind a port throw\<close>

fun sync_access_public_error :: "sync_access_error \<Rightarrow> int \<times> string \<times> string" where
  \<comment> \<open>status, code, message\<close>
  "sync_access_public_error Missing_token = (401, ''unauthorized'', ''missing sync token'')"
| "sync_access_public_error Invalid_token = (401, ''unauthorized'', ''invalid sync token'')"
| "sync_access_public_error Expired_token = (401, ''unauthorized'', ''sync token expired'')"
| "sync_access_public_error Invalid_token_claims = (401, ''unauthorized'', ''invalid sync token claims'')"
| "sync_access_public_error Invalid_scope = (403, ''forbidden'', ''invalid sync scope'')"
| "sync_access_public_error Vault_mismatch = (403, ''forbidden'', ''vault mismatch'')"
| "sync_access_public_error Vault_access_denied = (403, ''forbidden'', ''vault access denied'')"
| "sync_access_public_error Sync_paused = (503, ''sync_paused'', ''vault sync is temporarily paused for repair'')"

section \<open>Claims\<close>

record token_claims =
  tc_accessVersion :: "int option"
  tc_sub :: ident
  tc_vaultId :: ident
  tc_localVaultId :: ident
  tc_displayName :: string
  tc_iat :: int
  tc_exp :: int

definition sync_scope :: string where "sync_scope = ''vault:sync''"

definition parse_sync_token_claim_values :: "json \<Rightarrow> token_claims option" where
  "parse_sync_token_claim_values v =
     (if \<not> is_object v then None
      else case (as_string (property ''sub'' v), as_string (property ''vaultId'' v),
          as_string (property ''localVaultId'' v), as_int (property ''iat'' v), as_int (property ''exp'' v)) of
        (Some sub, Some vaultId, Some localVaultId, Some iat, Some ex) \<Rightarrow>
          if property ''scope'' v \<noteq> Some (JString sync_scope) then None
          else if js_trim sub = [] \<or> js_trim vaultId = [] \<or> js_trim localVaultId = [] then None
          else map_option (\<lambda>version.
                 \<lparr>tc_accessVersion = version, tc_sub = js_trim sub, tc_vaultId = js_trim vaultId,
                  tc_localVaultId = js_trim localVaultId,
                  tc_displayName = (case as_string (property ''displayName'' v) of None \<Rightarrow> [] | Some s \<Rightarrow> js_trim s),
                  tc_iat = iat, tc_exp = ex\<rparr>)
               (case property ''accessVersion'' v of
                  None \<Rightarrow> Some None
                | Some (JInt n) \<Rightarrow> if safe_integer n \<and> 1 \<le> n then Some (Some n) else None
                | _ \<Rightarrow> None)
      | _ \<Rightarrow> None)"

section \<open>The codec\<close>

definition sync_token_issuer :: string where "sync_token_issuer = ''synch-api''"
definition sync_token_audience :: string where "sync_token_audience = ''synch-sync''"

definition token_payload :: "token_claims \<Rightarrow> json" where
  \<comment> \<open>what \<open>signSyncToken\<close> hands to \<open>SignJWT\<close>; an undefined property is not encoded\<close>
  "token_payload c = JObject
     ((case tc_accessVersion c of None \<Rightarrow> [] | Some n \<Rightarrow> [(''accessVersion'', JInt n)]) @
      [(''vaultId'', JString (tc_vaultId c)), (''localVaultId'', JString (tc_localVaultId c)),
       (''displayName'', JString (tc_displayName c)), (''scope'', JString sync_scope),
       (''iss'', JString sync_token_issuer), (''aud'', JString sync_token_audience),
       (''sub'', JString (tc_sub c)), (''iat'', JInt (tc_iat c)), (''exp'', JInt (tc_exp c))])"

datatype jwt_result = Jwt_payload json | Jwt_expired | Jwt_failed

text \<open>
  \<open>jose\<close>: \<open>sign\<close> makes a token of a payload under the secret, \<open>verify\<close> checks a token at a time in
  seconds. What the code relies on: a token signed with the same secret and algorithm, issuer and
  audience is accepted until it expires, and rejected with \<open>JWTExpired\<close> from then on.
\<close>

definition jose_documented :: "(json \<Rightarrow> string) \<Rightarrow> (int \<Rightarrow> string \<Rightarrow> jwt_result) \<Rightarrow> bool" where
  "jose_documented sign verify \<longleftrightarrow>
     (\<forall>payload. sign payload \<noteq> []) \<and>
     (\<forall>payload ex now. property ''iss'' payload = Some (JString sync_token_issuer) \<longrightarrow>
        property ''aud'' payload = Some (JString sync_token_audience) \<longrightarrow> property ''exp'' payload = Some (JInt ex) \<longrightarrow>
        verify now (sign payload) = (if ex \<le> now then Jwt_expired else Jwt_payload payload))"

definition codec_verify_sync_token ::
  "(int \<Rightarrow> string \<Rightarrow> jwt_result) \<Rightarrow> millis \<Rightarrow> string \<Rightarrow> sync_access_error + token_claims" where
  "codec_verify_sync_token verify now token =
     (case verify (now div 1000) token of
        Jwt_payload payload \<Rightarrow> (case parse_sync_token_claim_values payload of
            None \<Rightarrow> Inl Invalid_token_claims | Some claims \<Rightarrow> Inr claims)
      | Jwt_expired \<Rightarrow> Inl Expired_token
      | Jwt_failed \<Rightarrow> Inl Invalid_token)"

section \<open>Issuing and verifying\<close>

definition default_sync_token_ttl_seconds :: int where "default_sync_token_ttl_seconds = 120"
definition current_sync_format_version :: int where "current_sync_format_version = 2"

record issue_input =
  ii_userId :: ident
  ii_vaultId :: ident
  ii_localVaultId :: ident
  ii_displayName :: string
  ii_resumeSync :: bool

record issue_ports =
  ip_vault :: "token_failure + ident option" \<comment> \<open>id of the vault \<open>getAccessibleVault\<close> finds\<close>
  ip_access :: "(token_failure + int) option" \<comment> \<open>\<open>accessReader\<close>, when configured\<close>
  ip_paused :: "token_failure + bool" \<comment> \<open>the first \<open>readSyncPause\<close>\<close>
  ip_resume :: "(token_failure + unit) option" \<comment> \<open>\<open>syncPauseResumer\<close>, when configured\<close>
  ip_pausedAgain :: "token_failure + bool" \<comment> \<open>\<open>readSyncPause\<close> after a resume\<close>

record issued_token =
  it_token :: string
  it_expiresAt :: int
  it_vaultId :: ident
  it_localVaultId :: ident
  it_syncFormatVersion :: int

definition resume_if_asked :: "issue_input \<Rightarrow> issue_ports \<Rightarrow> bool \<Rightarrow> (token_failure + bool) \<times> bool" where
  \<comment> \<open>the pause after the attempt to resume, and whether the coordinator was told to resume\<close>
  "resume_if_asked input ports paused =
     (if \<not> (ii_resumeSync input \<and> paused) then (Inr paused, False)
      else case ip_resume ports of
        None \<Rightarrow> (Inl (Sync_access_failure Sync_paused), False)
      | Some (Inl e) \<Rightarrow> (Inl e, True)
      | Some (Inr _) \<Rightarrow>
          (case ip_pausedAgain ports of
             Inl e \<Rightarrow> (Inl e, True)
           | Inr again \<Rightarrow> (if again then Inl (Sync_access_failure Sync_paused) else Inr False, True)))"

definition claims_of :: "int \<Rightarrow> millis \<Rightarrow> issue_input \<Rightarrow> int option \<Rightarrow> token_claims" where
  "claims_of ttl now input accessVersion =
     \<lparr>tc_accessVersion = accessVersion, tc_sub = ii_userId input, tc_vaultId = ii_vaultId input,
      tc_localVaultId = ii_localVaultId input, tc_displayName = js_trim (ii_displayName input),
      tc_iat = now div 1000, tc_exp = now div 1000 + ttl\<rparr>"

definition issue_sync_token ::
  "(json \<Rightarrow> string) \<Rightarrow> int \<Rightarrow> millis \<Rightarrow> issue_input \<Rightarrow> issue_ports \<Rightarrow> (token_failure + issued_token) \<times> bool" where
  "issue_sync_token sign ttl now input ports =
     (case ip_vault ports of
        Inl e \<Rightarrow> (Inl e, False)
      | Inr None \<Rightarrow> (Inl (Sync_access_failure Vault_access_denied), False)
      | Inr (Some _) \<Rightarrow>
          (case (case ip_access ports of None \<Rightarrow> Inr None | Some (Inl e) \<Rightarrow> Inl e | Some (Inr n) \<Rightarrow> Inr (Some n)) of
             Inl e \<Rightarrow> (Inl e, False)
           | Inr accessVersion \<Rightarrow>
               (case ip_paused ports of
                  Inl e \<Rightarrow> (Inl e, False)
                | Inr paused \<Rightarrow>
                    let (pause, resumed) = resume_if_asked input ports paused in
                    (case pause of
                       Inl e \<Rightarrow> Inl e
                     | Inr stillPaused \<Rightarrow>
                         if stillPaused \<and> \<not> legacy_pause_quota_compatibility then Inl (Sync_access_failure Sync_paused)
                         else let claims = claims_of ttl now input accessVersion in
                           Inr \<lparr>it_token = sign (token_payload claims), it_expiresAt = tc_exp claims,
                             it_vaultId = tc_vaultId claims, it_localVaultId = tc_localVaultId claims,
                             it_syncFormatVersion = current_sync_format_version\<rparr>,
                     resumed))))"

definition verify_sync_token ::
  "(int \<Rightarrow> string \<Rightarrow> jwt_result) \<Rightarrow> (token_claims \<Rightarrow> token_failure + unit) option \<Rightarrow> millis \<Rightarrow>
   string option \<Rightarrow> ident option \<Rightarrow> token_failure + token_claims" where
  \<comment> \<open>the scope was checked with the claims\<close>
  "verify_sync_token verify accessVerifier now token expectedVaultId =
     (if \<not> truthy token then Inl (Sync_access_failure Missing_token)
      else case codec_verify_sync_token verify now (the token) of
        Inl e \<Rightarrow> Inl (Sync_access_failure e)
      | Inr claims \<Rightarrow>
          if truthy expectedVaultId \<and> tc_vaultId claims \<noteq> the expectedVaultId
          then Inl (Sync_access_failure Vault_mismatch)
          else (case accessVerifier of
              None \<Rightarrow> Inr claims
            | Some verifier \<Rightarrow> (case verifier claims of Inl e \<Rightarrow> Inl e | Inr _ \<Rightarrow> Inr claims)))"

section \<open>Well-formed claims\<close>

definition claims_ok :: "token_claims \<Rightarrow> bool" where
  "claims_ok c \<longleftrightarrow> js_trim (tc_sub c) = tc_sub c \<and> tc_sub c \<noteq> [] \<and> js_trim (tc_vaultId c) = tc_vaultId c \<and> tc_vaultId c \<noteq> [] \<and>
     js_trim (tc_localVaultId c) = tc_localVaultId c \<and> tc_localVaultId c \<noteq> [] \<and>
     js_trim (tc_displayName c) = tc_displayName c \<and>
     (case tc_accessVersion c of None \<Rightarrow> True | Some n \<Rightarrow> 1 \<le> n \<and> n \<le> max_safe_integer)"

lemma property_object [simp]: "property key (JObject ps) = map_of ps key" "is_object (JObject ps)"
  by (simp_all add: property_def is_object_def)

lemma js_trim_Nil [simp]: "js_trim [] = []"
  by (simp add: js_trim_def)

lemma parse_claims_ok: "parse_sync_token_claim_values v = Some c \<Longrightarrow> claims_ok c"
  by (auto simp: parse_sync_token_claim_values_def claims_ok_def safe_integer_def split: option.splits if_splits json.splits)

lemma parse_token_payload: "claims_ok c \<Longrightarrow> parse_sync_token_claim_values (token_payload c) = Some c"
  by (cases c) (auto simp: parse_sync_token_claim_values_def claims_ok_def token_payload_def safe_integer_def
      sync_scope_def split: option.splits)

lemma token_payload_properties:
  "property ''iss'' (token_payload c) = Some (JString sync_token_issuer)"
  "property ''aud'' (token_payload c) = Some (JString sync_token_audience)"
  "property ''exp'' (token_payload c) = Some (JInt (tc_exp c))"
  by (simp_all add: token_payload_def split: option.split)

section \<open>Tokens in requests\<close>

text \<open>
  \<open>request-auth.ts\<close> reads headers of a \<open>Request\<close>; \<open>node-websocket.ts\<close> has its own copies for
  upgrades. A header is its value, or \<^term>\<open>None\<close> when it is missing.
\<close>

definition sync_websocket_protocol :: string where "sync_websocket_protocol = ''synch.v1''"
definition sync_websocket_auth_protocol_prefix :: string where "sync_websocket_auth_protocol_prefix = ''synch.auth.''"

fun js_split :: "char \<Rightarrow> string \<Rightarrow> string list" where
  \<comment> \<open>\<open>s.split(c)\<close>\<close>
  "js_split c [] = [[]]"
| "js_split c (x # xs) =
     (if x = c then [] # js_split c xs
      else case js_split c xs of [] \<Rightarrow> [[x]] | w # ws \<Rightarrow> (x # w) # ws)"

definition parse_bearer_token :: "string option \<Rightarrow> string option" where
  "parse_bearer_token authorization =
     (case authorization of None \<Rightarrow> None
      | Some a \<Rightarrow> if \<not> starts_with ''Bearer '' a then None
          else let token = drop 7 a in if token = [] then None else Some token)"

definition read_requested_protocols :: "string option \<Rightarrow> string list" where
  "read_requested_protocols header =
     (if \<not> truthy header then [] else filter (\<lambda>v. length v > 0) (map js_trim (js_split (CHR '','') (the header))))"

fun first_auth_protocol :: "string list \<Rightarrow> string option" where
  \<comment> \<open>the loop over the protocols\<close>
  "first_auth_protocol [] = None"
| "first_auth_protocol (p # ps) =
     (if starts_with sync_websocket_auth_protocol_prefix p \<and> drop (length sync_websocket_auth_protocol_prefix) p \<noteq> []
      then Some (drop (length sync_websocket_auth_protocol_prefix) p) else first_auth_protocol ps)"

definition read_sync_token_from_request :: "string option \<Rightarrow> string option \<Rightarrow> string option" where
  \<comment> \<open>the headers \<open>authorization\<close> and \<open>sec-websocket-protocol\<close>\<close>
  "read_sync_token_from_request authorization protocols =
     (case parse_bearer_token authorization of
        Some token \<Rightarrow> Some token
      | None \<Rightarrow> first_auth_protocol (read_requested_protocols protocols))"

definition select_sync_websocket_protocol :: "string option \<Rightarrow> string option" where
  "select_sync_websocket_protocol protocols =
     (if sync_websocket_protocol \<in> set (read_requested_protocols protocols) then Some sync_websocket_protocol else None)"

definition node_read_sync_token :: "string option \<Rightarrow> string option \<Rightarrow> string option" where
  "node_read_sync_token authorization protocols =
     (case parse_bearer_token authorization of
        Some token \<Rightarrow> Some token
      | None \<Rightarrow> first_auth_protocol (map js_trim (js_split (CHR '','') (case protocols of None \<Rightarrow> [] | Some h \<Rightarrow> h))))"

definition node_select_sync_websocket_protocol :: "string option \<Rightarrow> string option" where
  "node_select_sync_websocket_protocol protocols =
     (if \<not> truthy protocols then None
      else if sync_websocket_protocol \<in> set (map js_trim (js_split (CHR '','') (the protocols)))
      then Some sync_websocket_protocol else None)"

lemma first_auth_protocol_filter:
  "first_auth_protocol (filter (\<lambda>v. length v > 0) ps) = first_auth_protocol ps"
  by (induction ps) (auto simp: starts_with_def sync_websocket_auth_protocol_prefix_def)

lemma js_split_no: "c \<notin> set s \<Longrightarrow> js_split c s = [s]"
  by (induction s) auto

lemma js_split_append: "c \<notin> set s \<Longrightarrow> js_split c (s @ c # t) = s # js_split c t"
  by (induction s) auto

lemma js_trim_word: "(\<And>x. x \<in> set s \<Longrightarrow> \<not> js_space x) \<Longrightarrow> js_trim s = s"
proof -
  assume word: "\<And>x. x \<in> set s \<Longrightarrow> \<not> js_space x"
  have "dropWhile js_space t = t" if "set t = set s" for t
    using word[of "hd t"] that by (intro dropWhile_settled) (cases t, auto)
  then have "dropWhile js_space s = s" "dropWhile js_space (rev s) = rev s" by simp_all
  then show ?thesis by (simp add: js_trim_def)
qed

section \<open>Properties\<close>

text \<open>
  C34. Sync tokens round trip. A token that was issued verifies, until it expires and only for its
  own vault, to exactly the claims it was issued with: the user, vault and device of the request,
  the trimmed display name and the access version read at issue time. Its expiry is the issue
  second plus the lifetime, and from then on it is refused as expired. The result of an access
  verifier is respected.
\<close>

theorem issued_token_verifies:
  assumes jose: "jose_documented sign verify"
    and issued: "fst (issue_sync_token sign ttl now input ports) = Inr t"
    and access: "ip_access ports = map_option Inr version" and ok: "claims_ok (claims_of ttl now input version)"
  shows "it_expiresAt t = now div 1000 + ttl \<and>
    verify_sync_token verify accessVerifier later (Some (it_token t)) (Some v) =
      (if now div 1000 + ttl \<le> later div 1000 then Inl (Sync_access_failure Expired_token)
       else if v \<noteq> [] \<and> v \<noteq> ii_vaultId input then Inl (Sync_access_failure Vault_mismatch)
       else case accessVerifier of
           None \<Rightarrow> Inr (claims_of ttl now input version)
         | Some verifier \<Rightarrow> map_sum id (\<lambda>_. claims_of ttl now input version) (verifier (claims_of ttl now input version)))"
proof -
  let ?c = "claims_of ttl now input version"
  have t: "it_token t = sign (token_payload ?c)" "it_expiresAt t = now div 1000 + ttl"
    using issued access
    by (auto simp: issue_sync_token_def Let_def claims_of_def split: sum.splits option.splits prod.splits if_splits)
  have v: "verify (later div 1000) (it_token t) =
      (if now div 1000 + ttl \<le> later div 1000 then Jwt_expired else Jwt_payload (token_payload ?c))" and nonempty: "it_token t \<noteq> []"
    using jose token_payload_properties[of ?c] unfolding jose_documented_def t by (auto simp: claims_of_def)
  have "tc_vaultId ?c = ii_vaultId input" by (simp add: claims_of_def)
  then show ?thesis using t(2) nonempty
    by (auto simp: verify_sync_token_def truthy_def codec_verify_sync_token_def v parse_token_payload[OF ok]
        map_sum_def split: option.split sum.split)
qed

text \<open>
  Only checked claims get through, and all of them: whatever a token carries, the claims the
  code goes on with have trimmed nonempty user, vault and device ids, a trimmed display name and
  an access version that is a positive safe integer or absent; and the payload made of such claims
  is read back as they are.
\<close>

theorem claim_values_are_checked:
  "(parse_sync_token_claim_values v = Some c \<longrightarrow> claims_ok c) \<and>
   (claims_ok c \<longleftrightarrow> parse_sync_token_claim_values (token_payload c) = Some c)"
  using parse_claims_ok parse_token_payload by blast

text \<open>
  A device's wish to resume a paused vault is only passed on for a user who may access the
  vault, after the live access check succeeded, and only for a vault that is paused; and while the
  vault stays paused against the user's wish, no token is issued.
\<close>

theorem resume_needs_access:
  assumes "issue_sync_token sign ttl now input ports = (result, True)"
  shows "ii_resumeSync input \<and> (\<exists>vault. ip_vault ports = Inr (Some vault)) \<and>
    (\<forall>e. ip_access ports \<noteq> Some (Inl e)) \<and> ip_paused ports = Inr True \<and>
    (ip_pausedAgain ports = Inr True \<longrightarrow> (\<exists>e. result = Inl e))"
  using assms
  by (auto simp: issue_sync_token_def resume_if_asked_def Let_def split: sum.splits option.splits prod.splits if_splits)

text \<open>
  The Node runtime reads the same token and selects the same protocol from an upgrade request
  as the Worker. A token in the header of a browser, which can only offer protocols, is found
  again; a bearer token has precedence; and the protocol that is echoed is never the one that
  carries the token.
\<close>

theorem upgrade_headers_carry_token:
  assumes token: "token \<noteq> []" "\<And>x. x \<in> set token \<Longrightarrow> \<not> js_space x \<and> x \<noteq> CHR '',''"
  shows "node_read_sync_token a p = read_sync_token_from_request a p \<and>
    node_select_sync_websocket_protocol p = select_sync_websocket_protocol p \<and>
    read_sync_token_from_request None (Some (''synch.v1, synch.auth.'' @ token)) = Some token \<and>
    select_sync_websocket_protocol (Some (''synch.v1, synch.auth.'' @ token)) = Some ''synch.v1'' \<and>
    read_sync_token_from_request (Some (''Bearer '' @ token)) p = Some token \<and>
    select_sync_websocket_protocol (Some (''synch.auth.'' @ token)) = None"
proof -
  have comma: "CHR '','' \<notin> set (''synch.auth.'' @ token)" "CHR '','' \<notin> set ('' synch.auth.'' @ token)"
    "CHR '','' \<notin> set ''synch.v1''" using token(2) by auto
  have "''synch.v1, synch.auth.'' @ token = ''synch.v1'' @ CHR '','' # ('' synch.auth.'' @ token)" by simp
  then have split: "js_split (CHR '','') (''synch.v1, synch.auth.'' @ token) = [''synch.v1'', '' synch.auth.'' @ token]"
    "js_split (CHR '','') (''synch.auth.'' @ token) = [''synch.auth.'' @ token]"
    by (simp_all only: js_split_append[OF comma(3)] js_split_no[OF comma(1)] js_split_no[OF comma(2)])
  have word: "js_trim (''synch.auth.'' @ token) = ''synch.auth.'' @ token"
    using token(2) by (intro js_trim_word) (auto simp: js_space_def)
  have "js_trim (CHR '' '' # s) = js_trim s" for s by (simp add: js_trim_def js_space_def)
  then have trims: "js_trim ('' synch.auth.'' @ token) = ''synch.auth.'' @ token" "js_trim ''synch.v1'' = ''synch.v1''"
    using word by (simp_all add: js_trim_def js_space_def)
  have protocols: "read_requested_protocols (Some (''synch.v1, synch.auth.'' @ token)) = [''synch.v1'', ''synch.auth.'' @ token]"
    "read_requested_protocols (Some (''synch.auth.'' @ token)) = [''synch.auth.'' @ token]"
    unfolding read_requested_protocols_def truthy_def option.case option.sel split list.map trims word by simp_all
  have "first_auth_protocol [''synch.v1'', ''synch.auth.'' @ token] = Some token"
    using token(1) by (simp add: starts_with_def sync_websocket_auth_protocol_prefix_def)
  then have read: "read_sync_token_from_request None (Some (''synch.v1, synch.auth.'' @ token)) = Some token"
    unfolding read_sync_token_from_request_def parse_bearer_token_def protocols by simp
  have same: "node_read_sync_token a p = read_sync_token_from_request a p"
    using first_auth_protocol_filter[of "map js_trim (js_split (CHR '','') (the p))"]
    by (cases p) (auto simp: node_read_sync_token_def read_sync_token_from_request_def read_requested_protocols_def
        first_auth_protocol_filter truthy_def starts_with_def sync_websocket_auth_protocol_prefix_def js_trim_def
        split: option.split)
  show ?thesis
  proof (intro conjI same read)
    show "node_select_sync_websocket_protocol p = select_sync_websocket_protocol p"
      by (auto simp: node_select_sync_websocket_protocol_def select_sync_websocket_protocol_def
          read_requested_protocols_def sync_websocket_protocol_def)
    show "read_sync_token_from_request (Some (''Bearer '' @ token)) p = Some token"
      using token(1) by (simp add: read_sync_token_from_request_def parse_bearer_token_def starts_with_def)
  qed (unfold select_sync_websocket_protocol_def protocols, simp_all add: sync_websocket_protocol_def)
qed

section \<open>Instances\<close>

definition example_sign :: "json \<Rightarrow> string" where
  "example_sign payload = replicate (Suc (to_nat payload)) (CHR ''x'')"

definition example_verify :: "int \<Rightarrow> string \<Rightarrow> jwt_result" where
  "example_verify now token = (let payload = from_nat (length token - 1) in
     case as_int (property ''exp'' payload) of
       None \<Rightarrow> Jwt_failed
     | Some ex \<Rightarrow> if ex \<le> now then Jwt_expired else Jwt_payload payload)"

lemma example_jose: "jose_documented example_sign example_verify"
  by (simp add: jose_documented_def example_sign_def example_verify_def)

definition example_input :: issue_input where
  "example_input = \<lparr>ii_userId = ''u'', ii_vaultId = ''v'', ii_localVaultId = ''l'', ii_displayName = '' Jo '',
     ii_resumeSync = True\<rparr>"

definition example_ports :: issue_ports where
  "example_ports = \<lparr>ip_vault = Inr (Some ''v''), ip_access = Some (Inr 2), ip_paused = Inr True,
     ip_resume = Some (Inr ()), ip_pausedAgain = Inr False\<rparr>"

definition example_claims :: token_claims where
  "example_claims = \<lparr>tc_accessVersion = Some 2, tc_sub = ''u'', tc_vaultId = ''v'', tc_localVaultId = ''l'',
     tc_displayName = ''Jo'', tc_iat = 5, tc_exp = 125\<rparr>"

lemma example_claims_of: "claims_of 120 5300 example_input (Some 2) = example_claims"
  by (simp add: claims_of_def example_input_def example_claims_def js_trim_def js_space_def)

lemma example_vault_id: "ii_vaultId example_input = ''v''" "ip_access example_ports = Some (Inr 2)"
  by (simp_all add: example_input_def example_ports_def)

lemma example_claims_ok: "claims_ok example_claims"
  by (simp add: claims_ok_def example_claims_def js_trim_def js_space_def max_safe_integer_def)

lemma example_issue: "issue_sync_token example_sign 120 5300 example_input example_ports =
    (Inr \<lparr>it_token = example_sign (token_payload example_claims), it_expiresAt = 125, it_vaultId = ''v'',
       it_localVaultId = ''l'', it_syncFormatVersion = 2\<rparr>, True)"
  unfolding issue_sync_token_def resume_if_asked_def
  by (simp add: example_ports_def example_claims_of Let_def current_sync_format_version_def)
     (simp add: example_input_def example_claims_def)

theorem issued_token_verifies_witness:
  "verify_sync_token example_verify None 124999 (Some (example_sign (token_payload example_claims))) (Some ''v'') = Inr example_claims \<and>
   verify_sync_token example_verify None 125000 (Some (example_sign (token_payload example_claims))) (Some ''v'') =
     Inl (Sync_access_failure Expired_token)"
proof -
  let ?t = "\<lparr>it_token = example_sign (token_payload example_claims), it_expiresAt = 125, it_vaultId = ''v'',
       it_localVaultId = ''l'', it_syncFormatVersion = 2\<rparr>"
  have v: "verify_sync_token example_verify None later (Some (it_token ?t)) (Some ''v'') =
      (if 125 \<le> later div 1000 then Inl (Sync_access_failure Expired_token) else Inr example_claims)" for later
    using issued_token_verifies[OF example_jose, of 120 5300 example_input example_ports ?t "Some 2" None later "''v''"]
    by (simp add: example_issue example_claims_of example_claims_ok example_vault_id)
  show ?thesis using v[of 124999] v[of 125000] by simp
qed

theorem claim_values_are_checked_witness:
  "parse_sync_token_claim_values (token_payload example_claims) = Some example_claims \<and>
   parse_sync_token_claim_values (token_payload (example_claims\<lparr>tc_accessVersion := Some 0\<rparr>)) \<noteq>
     Some (example_claims\<lparr>tc_accessVersion := Some 0\<rparr>)"
proof -
  have "\<not> claims_ok (example_claims\<lparr>tc_accessVersion := Some 0\<rparr>)" by (simp add: claims_ok_def example_claims_def)
  then show ?thesis using claim_values_are_checked example_claims_ok by blast
qed

theorem resume_needs_access_witness:
  "snd (issue_sync_token example_sign 120 5300 example_input example_ports) \<and> ip_paused example_ports = Inr True"
  using resume_needs_access[of example_sign 120 5300 example_input example_ports] example_issue by simp

theorem upgrade_headers_carry_token_witness:
  "node_read_sync_token None (Some ''synch.v1, synch.auth.abc'') = Some ''abc''"
proof -
  have "\<not> js_space x \<and> x \<noteq> CHR '',''" if "x \<in> set ''abc''" for x using that by (auto simp: js_space_def)
  then show ?thesis
    using upgrade_headers_carry_token[of "''abc''" None "Some ''synch.v1, synch.auth.abc''"] by simp
qed

end
