(* ===== verification/Socket_Connection.thy ===== *)
theory Socket_Connection
  imports Control_Handler Sync_Token
begin

text \<open>
  \<open>services/socket-connection-service.ts\<close> and the acceptance of a socket
  (\<open>CoordinatorSocketService.openSocket\<close>, \<open>NodeSocketGateway.registerSocket\<close>): a verified token
  prepares a session, which is accepted at most once, before the token expires, and only if the
  access is still granted at that moment; what a closed connection leaves behind is cleared.
\<close>

datatype socket_failure =
    Token_failure token_failure
  | Coordinator_failure coord_error
  | Access_failure access_error

definition session_of_claims :: "token_claims \<Rightarrow> session" where
  "session_of_claims claims =
     \<lparr>ss_accessVersion = tc_accessVersion claims, ss_userId = tc_sub claims, ss_localVaultId = tc_localVaultId claims,
      ss_vaultId = tc_vaultId claims, ss_displayName = tc_displayName claims, ss_wantsStorageStatus = False,
      ss_wantsPresence = False, ss_presenceEntryId = None, ss_presenceWatch = []\<rparr>"

record prepared_session =
  pd_session :: session
  pd_expiry :: "millis option" \<comment> \<open>the entry of the session in \<open>preparedExpiry\<close>\<close>

definition prepare_socket_session ::
  "token_failure + token_claims \<Rightarrow> coord_error + vault_limits \<Rightarrow> coordinator \<Rightarrow>
   (socket_failure + prepared_session) \<times> coordinator" where
  \<comment> \<open>given what \<open>verifySyncToken\<close> and the reader of the initial limits answer\<close>
  "prepare_socket_session verified initialLimits c =
     (case verified of
        Inl e \<Rightarrow> (Inl (Token_failure e), c)
      | Inr claims \<Rightarrow>
          (case service_ensure_vault_state initialLimits (tc_vaultId claims) c of
             (Inl e, c1) \<Rightarrow> (Inl (Coordinator_failure e), c1)
           | (Inr _, c1) \<Rightarrow>
               (Inr \<lparr>pd_session = session_of_claims claims, pd_expiry = Some (tc_exp claims * 1000)\<rparr>, c1)))"

definition assert_session_access ::
  "env \<Rightarrow> prepared_session \<Rightarrow> hub \<Rightarrow> (socket_failure + unit) \<times> prepared_session \<times> hub" where
  "assert_session_access env p h =
     (if (case pd_expiry p of None \<Rightarrow> 0 | Some t \<Rightarrow> t) \<le> ev_clk env 0
      then (Inl (Token_failure (Sync_access_failure Invalid_token)), p, h)
      else case authorize (later_clock env) (pd_session p) h of
        (Inl e, h1) \<Rightarrow> (Inl (Access_failure e), p, h1)
      | (Inr _, h1) \<Rightarrow> (Inr (), p\<lparr>pd_expiry := None\<rparr>, h1))"

definition complete_socket_open :: "env \<Rightarrow> coordinator \<Rightarrow> coordinator" where
  "complete_socket_open env c = schedule_summary_flush (ev_clk env 2) c"

definition accept_socket ::
  "env \<Rightarrow> ident \<Rightarrow> prepared_session \<Rightarrow> hub \<Rightarrow> (socket_failure + unit) \<times> prepared_session \<times> hub" where
  \<comment> \<open>the check and, without a pause, the registration of the socket under a new id\<close>
  "accept_socket env i p h =
     (case assert_session_access env p h of
        (Inl e, p1, h1) \<Rightarrow> (Inl e, p1, h1)
      | (Inr _, p1, h1) \<Rightarrow>
          let h2 = on_sockets (register_socket i (pd_session p)) h1
          in (Inr (), p1, h2\<lparr>hb_co := complete_socket_open env (hb_co h2)\<rparr>))"

definition close_connection :: "env \<Rightarrow> ident \<Rightarrow> hub \<Rightarrow> hub" where
  \<comment> \<open>\<open>onDisconnect\<close> of \<open>node-websocket.ts\<close>\<close>
  "close_connection env i h =
     (let h1 = handle_disconnect i (on_sockets (unregister_socket i) h)
      in h1\<lparr>hb_co := handle_socket_close env (hb_co h1)\<rparr>)"

end
