(* ===== verification/Hub.thy ===== *)
theory Hub
  imports Socket_Connection
begin

text \<open>
  One vault's instance with its connections as a whole: what every message, connection, call and
  alarm keeps. The sessions behind the sockets change only through \<open>attachSocketSession\<close>,
  registration and removal; everything else only appends messages or closes.
\<close>

section \<open>Sessions\<close>

definition sessions :: "sockets \<Rightarrow> (ident \<times> session) list" where
  "sessions g = map (\<lambda>s. (so_id s, so_data s)) g"

lemma sessions_map:
  "(\<And>s. so_id (f s) = so_id s) \<Longrightarrow> (\<And>s. so_data (f s) = so_data s) \<Longrightarrow> sessions (map f g) = sessions g"
  by (simp add: sessions_def)

lemma sessions_send_where [simp]: "sessions (send_where P m g) = sessions g"
  by (simp add: send_where_def sessions_map)

lemma sessions_broadcast [simp]:
  "sessions (broadcast_storage_status st g) = sessions g" "sessions (broadcast_policy_updated po st g) = sessions g"
  "sessions (broadcast_presence_to_watchers e x m g) = sessions g" "sessions (broadcast_except x m g) = sessions g"
  "sessions (snd (broadcast_presence_availability xo g)) = sessions g"
  "sessions (close_sockets code reason g) = sessions g"
  by (simp_all add: broadcast_storage_status_def broadcast_policy_updated_def broadcast_presence_to_watchers_def
      broadcast_except_def broadcast_presence_availability_def Let_def close_sockets_def sessions_map)

lemma sessions_change_first:
  "(\<And>s. so_id (f s) = so_id s) \<Longrightarrow> (\<And>s. so_data (f s) = so_data s) \<Longrightarrow> sessions (change_first P f g) = sessions g"
  by (induction g) (simp_all add: sessions_def)

lemma sessions_send [simp]:
  "sessions (snd (send_socket_message i m g)) = sessions g" "sessions (close_socket i code reason g) = sessions g"
  by (simp_all add: send_socket_message_def close_socket_def sessions_change_first split: option.splits)

lemma deliver_keeps [simp]: "sessions (deliver k g) = sessions g" "sockets_ok g \<Longrightarrow> sockets_ok (deliver k g)"
  by (cases k; simp)+

lemma deliver_all_keeps [simp]:
  "sessions (fold deliver ks g) = sessions g" "sockets_ok g \<Longrightarrow> sockets_ok (fold deliver ks g)"
  by (induction ks arbitrary: g) simp_all

lemma sessions_attach:
  assumes "sockets_ok g"
  shows "sessions (attach_socket_session i session g) = map (\<lambda>(j, s). (j, if j = i then session else s)) (sessions g)"
  using assms by (simp add: sockets_ok_def attach_socket_session_map sessions_def)

lemma read_session_in: "read_socket_session i g = Some session \<Longrightarrow> (i, session) \<in> set (sessions g)"
  by (auto simp: read_socket_session_def sessions_def find_Some_iff)

lemma sessions_keyed: "sockets_ok g \<Longrightarrow> (i, a) \<in> set (sessions g) \<Longrightarrow> (i, b) \<in> set (sessions g) \<Longrightarrow> a = b"
proof -
  have "sockets_ok g \<Longrightarrow> distinct (map fst (sessions g))" by (simp add: sockets_ok_def ids_ok_def sessions_def comp_def)
  then show "sockets_ok g \<Longrightarrow> (i, a) \<in> set (sessions g) \<Longrightarrow> (i, b) \<in> set (sessions g) \<Longrightarrow> a = b"
    by (metis eq_key_imp_eq_value)
qed

section \<open>The invariant\<close>

definition presence_sited :: "(ident \<times> session) list \<Rightarrow> presence_store \<Rightarrow> bool" where
  \<comment> \<open>whoever is shown in an entry is a registered connection that shares its presence there\<close>
  "presence_sited ss p \<longleftrightarrow> (\<forall>i e sel t. presence_map p i = Some (e, sel, t) \<longrightarrow>
     (\<exists>s. (i, s) \<in> set ss \<and> ss_wantsPresence s \<and> ss_presenceEntryId s = Some e))"

definition hub_ok :: "ident \<Rightarrow> hub \<Rightarrow> bool" where
  "hub_ok v h \<longleftrightarrow> sockets_ok (hb_sockets h) \<and> (\<forall>(i, s) \<in> set (sessions (hb_sockets h)). ss_vaultId s = v) \<and>
     presence_ok (hb_presence h) \<and> presence_sited (sessions (hb_sockets h)) (hb_presence h)"

lemma hub_ok_same:
  assumes "hub_ok v h" "sockets_ok (hb_sockets h')" "sessions (hb_sockets h') = sessions (hb_sockets h)"
    "hb_presence h' = hb_presence h"
  shows "hub_ok v h'"
  using assms by (simp add: hub_ok_def)

lemma hub_ok_sockets: "hub_ok v h \<Longrightarrow> sockets_ok (hb_sockets h)"
  by (simp add: hub_ok_def)

lemma hub_ok_on_sockets:
  assumes "hub_ok v h" "\<And>g. sockets_ok g \<Longrightarrow> sockets_ok (f g)" "\<And>g. sessions (f g) = sessions g"
  shows "hub_ok v (on_sockets f h)"
  using assms by (intro hub_ok_same[OF assms(1)]) (simp_all add: on_sockets_def hub_ok_sockets)

lemma hub_ok_simps [simp]:
  "hub_ok v (h\<lparr>hb_co := c\<rparr>) = hub_ok v h" "hub_ok v (h\<lparr>hb_access := a\<rparr>) = hub_ok v h"
  "hub_ok v (h\<lparr>hb_access := a, hb_co := c\<rparr>) = hub_ok v h"
  by (simp_all add: hub_ok_def)

lemma hub_ok_send [intro]: "hub_ok v h \<Longrightarrow> hub_ok v (send i m h)"
  by (auto simp: send_def intro: hub_ok_on_sockets)

lemma hub_ok_reply [intro]: "hub_ok v h \<Longrightarrow> hub_ok v (reply_and_broadcast i m b h)"
  by (auto simp: reply_and_broadcast_def Let_def intro!: hub_ok_on_sockets split: option.split)

lemma hub_ok_with_services: "hub_ok v h \<Longrightarrow> hub_ok v (snd (with_services op h))"
  by (cases "op ((hb_co h)\<lparr>co_calls := []\<rparr>)") (auto simp: with_services_def hub_ok_sockets intro: hub_ok_same)

lemma hub_ok_with_servicesD: "with_services op h = (r, h') \<Longrightarrow> hub_ok v h \<Longrightarrow> hub_ok v h'"
  using hub_ok_with_services[of v h op] by simp

lemma hub_ok_announce_cleared [intro]: "hub_ok v h \<Longrightarrow> hub_ok v (announce_cleared i previous h)"
  by (auto simp: announce_cleared_def broadcast_presence_cleared_def intro: hub_ok_on_sockets split: option.split)

lemma hub_ok_push [intro]: "hub_ok v h \<Longrightarrow> hub_ok v (push_presence_updated p e sel receiver h)"
  by (auto simp: push_presence_updated_def Let_def intro!: hub_ok_on_sockets split: option.split)

lemma hub_ok_snapshots [intro]: "hub_ok v h \<Longrightarrow> hub_ok v (push_snapshots i e h)"
proof -
  have "hub_ok v h \<Longrightarrow> hub_ok v (fold (\<lambda>y. push_presence_updated (py_presenceId y) (py_entryId y) (py_selection y) (Some i)) ys h)" for ys
    by (induction ys arbitrary: h) auto
  then show "hub_ok v h \<Longrightarrow> hub_ok v (push_snapshots i e h)" by (simp add: push_snapshots_def)
qed

lemma hub_ok_all_snapshots [intro]: "hub_ok v h \<Longrightarrow> hub_ok v (fold (push_snapshots i) es h)"
  by (induction es arbitrary: h) auto

section \<open>Presence\<close>

lemma hub_ok_less_presence:
  assumes "hub_ok v h" "presence_ok p" "\<And>i x. presence_map p i = Some x \<Longrightarrow> presence_map (hb_presence h) i = Some x"
  shows "hub_ok v (h\<lparr>hb_presence := p\<rparr>)"
  using assms unfolding hub_ok_def presence_sited_def by auto

lemma hub_ok_availability: "hub_ok v h \<Longrightarrow> hub_ok v (snd (announce_availability x h))"
proof -
  assume ok: "hub_ok v h"
  obtain enabled g where g: "broadcast_presence_availability x (hb_sockets h) = (enabled, g)" by fastforce
  then have "sessions g = sessions (hb_sockets h)" "sockets_ok g"
    using sessions_broadcast(5)[of x "hb_sockets h"] sockets_ok_operations(9)[OF hub_ok_sockets[OF ok], of x] by simp_all
  then have ok1: "hub_ok v (h\<lparr>hb_sockets := g\<rparr>)" using ok by (intro hub_ok_same[OF ok]) simp_all
  have "hub_ok v ((h\<lparr>hb_sockets := g\<rparr>)\<lparr>hb_presence := presence_clear_all (hb_presence h)\<rparr>)"
    using ok1 by (rule hub_ok_less_presence) (simp_all add: presence_map_simps)
  then show "hub_ok v (snd (announce_availability x h))"
    using ok1 by (simp add: announce_availability_def g Let_def)
qed

text \<open>
  The one place where sessions change: connection \<open>i\<close> gets a session with the same owner, and the
  store is told about \<open>i\<close> what the new session says.
\<close>

lemma hub_ok_attach:
  assumes ok: "hub_ok v h" and old: "(i, old) \<in> set (sessions (hb_sockets h))"
    and new: "identity session = identity old" "ss_vaultId session = ss_vaultId old"
    and p: "presence_ok p" "\<And>j. j \<noteq> i \<Longrightarrow> presence_map p j = presence_map (hb_presence h) j"
    "\<And>e sel t. presence_map p i = Some (e, sel, t) \<Longrightarrow> ss_wantsPresence session \<and> ss_presenceEntryId session = Some e"
  shows "hub_ok v (attach i session (h\<lparr>hb_presence := p\<rparr>))"
proof -
  let ?g = "hb_sockets h"
  have sok: "sockets_ok ?g" using ok by (rule hub_ok_sockets)
  have id: "identity session = identity (so_data s)" if "s \<in> set ?g" "so_id s = i" for s
    using that new(1) sessions_keyed[OF sok old] by (auto simp: sessions_def)
  have sess: "sessions (attach_socket_session i session ?g) = map (\<lambda>(j, s). (j, if j = i then session else s)) (sessions ?g)"
    using sok by (rule sessions_attach)
  have "sockets_ok (attach_socket_session i session ?g)" using sok id by (rule sockets_ok_attach)
  moreover have "\<forall>(j, s) \<in> set (sessions (attach_socket_session i session ?g)). ss_vaultId s = v"
    using ok old new(2) by (auto simp: sess hub_ok_def)
  moreover have "presence_sited (sessions (attach_socket_session i session ?g)) p"
    unfolding presence_sited_def
  proof (intro allI impI)
    fix j e sel t assume at: "presence_map p j = Some (e, sel, t)"
    show "\<exists>s. (j, s) \<in> set (sessions (attach_socket_session i session ?g)) \<and> ss_wantsPresence s \<and> ss_presenceEntryId s = Some e"
    proof (cases "j = i")
      case True
      then show ?thesis using p(3) at old by (intro exI[of _ session]) (force simp: sess)
    next
      case False
      then show ?thesis using p(2)[OF False] at ok
        by (simp add: sess hub_ok_def presence_sited_def) (smt (verit) image_iff case_prod_conv)
    qed
  qed
  ultimately show ?thesis using p(1) by (simp add: hub_ok_def attach_def on_sockets_def)
qed

lemma identity_update [simp]:
  "identity (s\<lparr>ss_wantsStorageStatus := a\<rparr>) = identity s" "identity (s\<lparr>ss_wantsPresence := a\<rparr>) = identity s"
  "identity (s\<lparr>ss_presenceEntryId := e\<rparr>) = identity s" "identity (s\<lparr>ss_presenceWatch := es\<rparr>) = identity s"
  by (simp_all add: identity_def)

lemma clear_presence_eq:
  "clear_presence i h = (presence_get i (hb_presence h), h\<lparr>hb_presence := snd (presence_clear i (hb_presence h))\<rparr>)"
  by (simp add: clear_presence_def presence_clear_def)

lemma hb_presence_attach [simp]: "hb_presence (attach i session h) = hb_presence h"
  by (simp add: attach_def on_sockets_def)

lemma attach_presence: "(attach i session h)\<lparr>hb_presence := p\<rparr> = attach i session (h\<lparr>hb_presence := p\<rparr>)"
  by (simp add: attach_def on_sockets_def)

lemma attach_same_presence: "attach i session h = attach i session (h\<lparr>hb_presence := hb_presence h\<rparr>)"
  by (simp add: attach_def on_sockets_def)

lemma hub_ok_attach_same:
  assumes "hub_ok v h" "(i, old) \<in> set (sessions (hb_sockets h))"
    "identity session = identity old" "ss_vaultId session = ss_vaultId old"
    "ss_wantsPresence old \<Longrightarrow> ss_wantsPresence session" "ss_presenceEntryId session = ss_presenceEntryId old"
  shows "hub_ok v (attach i session h)"
proof -
  have "ss_wantsPresence session \<and> ss_presenceEntryId session = Some e"
    if "presence_map (hb_presence h) i = Some (e, sel, t)" for e sel t
    using that assms sessions_keyed[OF hub_ok_sockets[OF assms(1)] assms(2)]
    unfolding hub_ok_def presence_sited_def by metis
  then show ?thesis
    unfolding attach_same_presence[of i session h] using assms
    by (intro hub_ok_attach[where old = old]) (auto simp: hub_ok_def)
qed

lemma hub_ok_attach_cleared:
  assumes "hub_ok v h" "(i, old) \<in> set (sessions (hb_sockets h))"
    "identity session = identity old" "ss_vaultId session = ss_vaultId old"
  shows "hub_ok v (attach i session (h\<lparr>hb_presence := snd (presence_clear i (hb_presence h))\<rparr>))"
  using assms by (intro hub_ok_attach[where old = old]) (auto simp: hub_ok_def presence_ok_clear presence_map_simps)

lemma watch_presence_shape:
  assumes ok: "hub_ok v h" and i: "(i, session) \<in> set (sessions (hb_sockets h))"
  obtains session' p previous where "hub_ok v (attach i session' (h\<lparr>hb_presence := p\<rparr>))"
    "ss_wantsPresence session'" "ss_presenceWatch session' = js_unique entryIds"
    "watch_presence i session entryIds h =
      (case announce_availability None (announce_cleared i previous (attach i session' (h\<lparr>hb_presence := p\<rparr>))) of
         (enabled, h3) \<Rightarrow> if \<not> enabled then h3
           else fold (push_snapshots i) (filter (\<lambda>e. e \<notin> set (ss_presenceWatch session)) (js_unique entryIds)) h3)"
proof -
  define watched where "watched = js_unique entryIds"
  define clears where "clears \<longleftrightarrow> (case presence_get i (hb_presence h) of None \<Rightarrow> False | Some y \<Rightarrow> py_entryId y \<notin> set watched) \<or>
            (case ss_presenceEntryId session of None \<Rightarrow> False | Some e \<Rightarrow> e \<notin> set watched)"
  define session' where "session' = session\<lparr>ss_presenceEntryId := (if clears then None else ss_presenceEntryId session),
                 ss_presenceWatch := watched, ss_wantsPresence := True\<rparr>"
  have s': "identity session' = identity session" "ss_vaultId session' = ss_vaultId session" by (simp_all add: session'_def)
  note run = watch_presence_def[of i session entryIds h, unfolded Let_def, folded watched_def, folded clears_def, folded session'_def, unfolded watched_def]
  show thesis
  proof (cases clears)
    case True
    have "hub_ok v (attach i session' (h\<lparr>hb_presence := snd (presence_clear i (hb_presence h))\<rparr>))"
      using ok i s' by (rule hub_ok_attach_cleared)
    then show thesis
      by (rule that[where previous = "presence_get i (hb_presence h)"])
         (use True in \<open>simp_all add: run clear_presence_eq attach_presence watched_def session'_def\<close>)
  next
    case False
    then have "hub_ok v (attach i session' (h\<lparr>hb_presence := hb_presence h\<rparr>))"
      using hub_ok_attach_same[OF ok i s'] by (simp add: session'_def)
    then show thesis
      by (rule that[where previous = None])
         (use False in \<open>simp_all add: run announce_cleared_def watched_def session'_def\<close>)
  qed
qed

lemma hub_ok_watch_presence:
  assumes ok: "hub_ok v h" and i: "(i, session) \<in> set (sessions (hb_sockets h))"
  shows "hub_ok v (watch_presence i session entryIds h)"
proof -
  obtain session' p previous where h1: "hub_ok v (attach i session' (h\<lparr>hb_presence := p\<rparr>))" and run: "watch_presence i session entryIds h =
      (case announce_availability None (announce_cleared i previous (attach i session' (h\<lparr>hb_presence := p\<rparr>))) of
         (enabled, h3) \<Rightarrow> if \<not> enabled then h3
           else fold (push_snapshots i) (filter (\<lambda>e. e \<notin> set (ss_presenceWatch session)) (js_unique entryIds)) h3)"
    by (rule watch_presence_shape[OF ok i, of entryIds])
  have "hub_ok v (snd (announce_availability None (announce_cleared i previous (attach i session' (h\<lparr>hb_presence := p\<rparr>)))))"
    using h1 by (intro hub_ok_availability hub_ok_announce_cleared)
  then show ?thesis unfolding run by (auto split: prod.splits)
qed

lemma hub_ok_unwatch_presence:
  assumes "hub_ok v h" "(i, session) \<in> set (sessions (hb_sockets h))"
  shows "hub_ok v (unwatch_presence i session h)"
  using assms by (auto simp: unwatch_presence_def clear_presence_eq intro!: hub_ok_availability hub_ok_announce_cleared
      hub_ok_attach_cleared[where old = session])

lemma hub_ok_drop_presence:
  assumes "hub_ok v h" "(i, session) \<in> set (sessions (hb_sockets h))"
  shows "hub_ok v (drop_presence i session h)"
  using assms by (auto simp: drop_presence_def clear_presence_eq intro!: hub_ok_announce_cleared
      hub_ok_attach_cleared[where old = session])

lemma presence_map_try_store:
  assumes "presence_ok p" "presence_try_store i e sel now p = (Presence_stored, p')"
  shows "presence_ok p'" "presence_map p' = (presence_map p)(i \<mapsto> (e, sel, now))"
proof -
  show "presence_ok p'" using presence_ok_try_store[OF assms(1), of i e sel now] assms(2) by simp
  have "p' = \<lparr>pr_payloads = AList.update i \<lparr>py_presenceId = i, py_entryId = e, py_selection = sel\<rparr> (pr_payloads p),
      pr_lastUpdateAt = AList.update i now (pr_lastUpdateAt p)\<rparr>"
    using assms(2) by (auto simp: presence_try_store_def split: option.splits if_splits)
  then show "presence_map p' = (presence_map p)(i \<mapsto> (e, sel, now))"
    by (auto simp: presence_map_def update_conv' fun_eq_iff)
qed

lemma hub_ok_update_presence:
  assumes ok: "hub_ok v h" and i: "(i, session) \<in> set (sessions (hb_sockets h))"
  shows "hub_ok v (update_presence env i session e sel h)"
proof (cases "presence_try_store i e sel (ev_clk env 1) (hb_presence h)")
  case (Pair decision p)
  show ?thesis
  proof (cases "ss_wantsPresence session \<and> decision = Presence_stored")
    case True
    then have "presence_ok p" "presence_map p = (presence_map (hb_presence h))(i \<mapsto> (e, sel, ev_clk env 1))"
      using ok Pair presence_map_try_store by (auto simp: hub_ok_def)
    then have "hub_ok v (attach i (session\<lparr>ss_presenceEntryId := Some e\<rparr>) (h\<lparr>hb_presence := p\<rparr>))"
      using ok i True by (intro hub_ok_attach[where old = session]) auto
    then show ?thesis using True Pair by (auto simp: update_presence_def Let_def)
  next
    case False
    then show ?thesis using ok Pair by (cases decision) (auto simp: update_presence_def Let_def)
  qed
qed

section \<open>Messages and disconnects\<close>

lemma hub_ok_say_hello: "hub_ok v h \<Longrightarrow> hub_ok v (say_hello env i session r cursor h)"
  by (auto simp: say_hello_def Let_def split: sum.split prod.split)

lemma hub_ok_service:
  assumes "hub_ok v h" "\<And>e h1. hub_ok v h1 \<Longrightarrow> hub_ok v (f e h1)" "\<And>x h1. hub_ok v h1 \<Longrightarrow> hub_ok v (k x h1)"
  shows "hub_ok v (case with_services op h of (Inl e, h1) \<Rightarrow> f e h1 | (Inr x, h1) \<Rightarrow> k x h1)"
  using assms hub_ok_with_services[OF assms(1), of op]
  by (cases "with_services op h" rule: prod.exhaust) (auto split: sum.split)

lemma hub_ok_respond:
  assumes ok: "hub_ok v h" and i: "(i, session) \<in> set (sessions (hb_sockets h))"
  shows "hub_ok v (respond env i session m h)"
proof (cases m)
  case (Msg_detach_local_vault r)
  then show ?thesis using ok by (auto intro: hub_ok_with_services)
next
  case Msg_watch_storage_status
  have "hub_ok v (attach i (session\<lparr>ss_wantsStorageStatus := True\<rparr>) h)"
    using ok i by (intro hub_ok_attach_same[where old = session]) auto
  then show ?thesis using Msg_watch_storage_status by (auto split: prod.split)
next
  case Msg_unwatch_storage_status
  have "hub_ok v (attach i (session\<lparr>ss_wantsStorageStatus := False\<rparr>) h)"
    using ok i by (intro hub_ok_attach_same[where old = session]) auto
  then show ?thesis using Msg_unwatch_storage_status by simp
next
  case (Msg_commit_mutations r ms)
  show ?thesis unfolding Msg_commit_mutations respond.simps by (rule hub_ok_service[OF ok]) auto
next
  case (Msg_restore_entry_version r x)
  show ?thesis unfolding Msg_restore_entry_version respond.simps
    by (rule hub_ok_service[OF ok]) (auto split: prod.split)
next
  case (Msg_restore_entry_versions r xs)
  show ?thesis unfolding Msg_restore_entry_versions respond.simps
    by (rule hub_ok_service[OF ok]) (auto split: prod.split)
next
  case (Msg_purge_deleted_entries r es)
  show ?thesis unfolding Msg_purge_deleted_entries respond.simps
    by (rule hub_ok_service[OF ok]) (auto split: prod.split)
qed (use ok i in \<open>simp_all add: hub_ok_say_hello hub_ok_watch_presence hub_ok_unwatch_presence hub_ok_drop_presence
    hub_ok_update_presence hub_ok_send\<close>)

lemma hub_ok_refuse:
  assumes "hub_ok v h"
  shows "hub_ok v (refuse i e h)"
proof (cases e)
  case (Sharing_error status code msg)
  show ?thesis unfolding refuse_def Sharing_error access_error.case Let_def
    by (intro hub_ok_on_sockets hub_ok_send assms) simp_all
qed

lemma authorize_fields: "authorize env session h = (r, h') \<Longrightarrow> hb_sockets h' = hb_sockets h \<and> hb_presence h' = hb_presence h"
  by (auto simp: authorize_def split: prod.splits)

lemma hub_ok_handle:
  assumes ok: "hub_ok v h"
  shows "hub_ok v (handle env i m h)"
proof (cases "read_socket_session i (hb_sockets h)")
  case None
  then show ?thesis using ok by (auto simp: handle_def intro!: hub_ok_on_sockets)
next
  case (Some session)
  obtain r h1 where auth: "authorize env session h = (r, h1)" by fastforce
  then have "hub_ok v h1" "(i, session) \<in> set (sessions (hb_sockets h1))"
    using ok Some authorize_fields[OF auth] by (auto simp: hub_ok_def dest: read_session_in)
  then show ?thesis using Some auth
    by (auto simp: handle_def hub_ok_refuse hub_ok_respond split: sum.split)
qed

section \<open>The data of the vault\<close>

lemma side_tables_inv:
  assumes ok: "vault_inv A now v c" and "keyed connection_key cs" "keyed rv_key rs"
  shows "vault_inv A now v (on_db (\<lambda>d. d\<lparr>db_connections := cs, db_revocations := rs\<rparr>) c)"
proof (rule vault_ok_on_db[OF ok])
  let ?d = "(co_db c)\<lparr>db_connections := cs, db_revocations := rs\<rparr>"
  have refs: "current_blob_reference ?d b = current_blob_reference (co_db c) b"
    "retained_blob_reference now ?d b = retained_blob_reference now (co_db c) b"
    "pinned now ?d b = pinned now (co_db c) b" for b by (rule references_cong; simp)+
  have "accounted ?d" "seqs_ok ?d"
    using ok accounted_cong[of ?d "co_db c"] seqs_ok_cong[of ?d "co_db c"]
    by (simp_all add: vault_inv_def db_ok_def)
  then have "db_ok now ?d"
    using ok assms(2,3) by (simp add: vault_inv_def db_ok_def db_keys_def refs_ok_def refs read_blob_def versions_ok_def)
  then show "db_ok now ((\<lambda>d. d\<lparr>db_connections := cs, db_revocations := rs\<rparr>) (co_db c))" by simp
  show "pinned now ((\<lambda>d. d\<lparr>db_connections := cs, db_revocations := rs\<rparr>) (co_db c)) b \<Longrightarrow> pinned now (co_db c) b" for b
    by (simp add: refs)
qed simp_all

lemma load_access_db:
  "load_access now (s, d) = (s', d') \<Longrightarrow> d' = d \<or> d' = prune_revocations now d"
  by (auto simp: load_access_def Let_def split: if_splits)

lemma authorize_db:
  assumes auth: "authorize env session h = (r, h')"
  shows "\<exists>d. hb_co h' = (hb_co h)\<lparr>co_db := d\<rparr> \<and> (d = co_db (hb_co h) \<or> d = prune_revocations (ev_clk env 0) (co_db (hb_co h)))"
proof (cases "assert_sync_allowed (co_db (hb_co h))")
  case (Inl e)
  then show ?thesis using auth by (intro exI[of _ "co_db (hb_co h)"]) (auto simp: authorize_def require_access_def)
next
  case (Inr u)
  obtain s d where load: "load_access (ev_clk env 0) (hb_access h, co_db (hb_co h)) = (s, d)" by fastforce
  then show ?thesis using auth Inr load_access_db[OF load]
    by (intro exI[of _ d]) (auto simp: authorize_def require_access_def)
qed

lemma authorize_inv:
  assumes ok: "vault_ok now v (hb_co h)" and auth: "authorize env session h = (r, h')"
  shows "vault_ok now v (hb_co h')"
proof -
  obtain d where d: "hb_co h' = (hb_co h)\<lparr>co_db := d\<rparr>" "d = co_db (hb_co h) \<or> d = prune_revocations (ev_clk env 0) (co_db (hb_co h))"
    using authorize_db[OF auth] by (elim exE conjE)
  show ?thesis
  proof (cases "d = co_db (hb_co h)")
    case True
    then show ?thesis using ok d(1) by simp
  next
    case False
    have keys: "keyed connection_key (db_connections (co_db (hb_co h)))" "keyed rv_key (db_revocations (co_db (hb_co h)))"
      using ok by (simp_all add: vault_inv_def db_ok_def db_keys_def)
    have "hb_co h' = on_db (\<lambda>d. d\<lparr>db_connections := db_connections (co_db (hb_co h)),
        db_revocations := delete_rows (\<lambda>r. rv_expiresAt r \<le> ev_clk env 0) (db_revocations (co_db (hb_co h)))\<rparr>) (hb_co h)"
      using d False by (simp add: on_db_def prune_revocations_def)
    then show ?thesis using side_tables_inv[OF ok] keys keyed_delete_rows by metis
  qed
qed

lemma record_connection_inv:
  assumes ok: "vault_inv A now v c"
  shows "vault_inv A now v (on_db (record_connection u l t) c)"
proof -
  have keys: "keyed connection_key (db_connections (co_db c))" "keyed rv_key (db_revocations (co_db c))"
    using ok by (simp_all add: vault_inv_def db_ok_def db_keys_def)
  let ?cs = "db_connections (record_connection u l t (co_db c))"
  have "keyed connection_key ?cs"
    using keys(1) by (auto simp: record_connection_def connection_key_def intro!: keyed_upsert_row)
  moreover have "on_db (record_connection u l t) c = on_db (\<lambda>d. d\<lparr>db_connections := ?cs, db_revocations := db_revocations (co_db c)\<rparr>) c"
    by (simp add: on_db_def record_connection_def)
  ultimately show ?thesis using side_tables_inv[OF ok _ keys(2)] by metis
qed

lemma hb_co_kept [simp]:
  "hb_co (send i m h) = hb_co h" "hb_co (on_sockets f h) = hb_co h" "hb_co (attach i session h) = hb_co h"
  "hb_co (reply_and_broadcast i m b h) = hb_co h" "hb_co (announce_cleared i previous h) = hb_co h"
  "hb_co (push_presence_updated p e sel receiver h) = hb_co h" "hb_co (refuse i x h) = hb_co h"
  "hb_co (snd (announce_availability y h)) = hb_co h"
  by (simp_all add: send_def on_sockets_def attach_def reply_and_broadcast_def Let_def announce_cleared_def
      broadcast_presence_cleared_def push_presence_updated_def refuse_def announce_availability_def
      split: option.split access_error.split prod.split)

lemma hb_co_snapshots [simp]: "hb_co (push_snapshots i e h) = hb_co h" "hb_co (fold (push_snapshots i) es h) = hb_co h"
proof -
  have "hb_co (fold (\<lambda>y. push_presence_updated (py_presenceId y) (py_entryId y) (py_selection y) (Some i)) ys h) = hb_co h" for ys h
    by (induction ys arbitrary: h) auto
  then show one: "hb_co (push_snapshots i e h) = hb_co h" for e h by (simp add: push_snapshots_def)
  show "hb_co (fold (push_snapshots i) es h) = hb_co h" by (induction es arbitrary: h) (auto simp: one)
qed

lemma with_services_inv:
  assumes ok: "vault_ok now v (hb_co h)" and t: "\<And>k. now \<le> ev_clk env k" "\<And>k. ev_clk env k \<le> until"
    and call: "call_ok v env call ((hb_co h)\<lparr>co_calls := []\<rparr>)"
    and op: "\<And>c. snd (op c) = perform v env call c"
  shows "vault_ok until v (hb_co (snd (with_services op h)))"
proof -
  have "vault_ok until v (snd (op ((hb_co h)\<lparr>co_calls := []\<rparr>)))"
    unfolding op by (rule perform_inv[OF calls_inv[OF ok] t call])
  then show ?thesis using calls_inv by (auto simp: with_services_def split: prod.splits)
qed

lemma hb_co_service:
  assumes "\<And>e h1. hb_co (f e h1) = hb_co h1" "\<And>x h1. hb_co (k x h1) = hb_co h1"
  shows "hb_co (case with_services op h of (Inl e, h1) \<Rightarrow> f e h1 | (Inr x, h1) \<Rightarrow> k x h1) = hb_co (snd (with_services op h))"
  using assms by (cases "with_services op h" rule: prod.exhaust) (auto split: sum.split)

lemma hb_co_presence [simp]:
  "hb_co (watch_presence i session es h) = hb_co h" "hb_co (unwatch_presence i session h) = hb_co h"
  "hb_co (drop_presence i session h) = hb_co h" "hb_co (update_presence env i session e sel h) = hb_co h"
proof -
  have "hb_co h1 = hb_co h" if "announce_availability x h = (b, h1)" for x h b h1
    using hb_co_kept(8)[of x h] that by simp
  then show "hb_co (watch_presence i session es h) = hb_co h"
    by (auto simp: watch_presence_def Let_def clear_presence_eq split: prod.split)
  show "hb_co (unwatch_presence i session h) = hb_co h" "hb_co (drop_presence i session h) = hb_co h"
    "hb_co (update_presence env i session e sel h) = hb_co h"
    by (auto simp: unwatch_presence_def drop_presence_def update_presence_def Let_def clear_presence_eq
        split: prod.split presence_decision.split)
qed

lemma say_hello_inv: "vault_ok now v (hb_co h) \<Longrightarrow> vault_ok now v (hb_co (say_hello env i session r cursor h))"
  by (simp add: say_hello_def Let_def record_connection_inv schedule_summary_ok split: sum.split prod.split)

lemma respond_inv:
  assumes ok: "vault_ok now v (hb_co h)" and t: "\<And>k. now \<le> ev_clk env k" "\<And>k. ev_clk env k \<le> until"
    and session: "ss_vaultId session = v"
  shows "vault_ok until v (hb_co (respond env i session m h))"
proof -
  have t': "now \<le> ev_clk (later_clock env) k" "ev_clk (later_clock env) k \<le> until" for k
    by (simp_all add: t)
  have "now \<le> until" using t order_trans by blast
  then have ok': "vault_ok until v (hb_co h)" using ok vault_ok_later by blast
  note service = with_services_inv[OF ok t']
  show ?thesis
  proof (cases m)
    case (Msg_commit_mutations r ms)
    show ?thesis unfolding Msg_commit_mutations respond.simps
      by (subst hb_co_service) (auto intro: service[where call = "Commit_mutations session ms"])
  next
    case (Msg_restore_entry_version r x)
    show ?thesis unfolding Msg_restore_entry_version respond.simps
      by (subst hb_co_service) (auto intro: service[where call = "Restore_entry_version session x"] split: prod.split)
  next
    case (Msg_restore_entry_versions r xs)
    show ?thesis unfolding Msg_restore_entry_versions respond.simps
      by (subst hb_co_service) (auto intro: service[where call = "Restore_entry_versions session xs"] split: prod.split)
  next
    case (Msg_purge_deleted_entries r es)
    show ?thesis unfolding Msg_purge_deleted_entries respond.simps
      by (subst hb_co_service)
         (auto simp: session intro: service[where call = "Purge_deleted_entries session es"] split: prod.split)
  next
    case (Msg_detach_local_vault r)
    show ?thesis unfolding Msg_detach_local_vault respond.simps hb_co_kept
      by (rule service[where call = "Detach_local_vault (ss_userId session) (ss_localVaultId session)"]) simp_all
  qed (use ok' say_hello_inv in \<open>auto split: prod.split\<close>)
qed

lemma handle_inv:
  assumes ok: "vault_ok now v (hb_co h)" and hub: "hub_ok v h"
    and t: "\<And>k. now \<le> ev_clk env k" "\<And>k. ev_clk env k \<le> until"
  shows "vault_ok until v (hb_co (handle env i m h))"
proof -
  have "now \<le> until" using t order_trans by blast
  then have later: "vault_ok now v c \<Longrightarrow> vault_ok until v c" for c using vault_ok_later by blast
  show ?thesis
  proof (cases "read_socket_session i (hb_sockets h)")
    case None
    then show ?thesis using ok later by (simp add: handle_def)
  next
    case (Some session)
    obtain r h1 where auth: "authorize env session h = (r, h1)" by fastforce
    have ok1: "vault_ok now v (hb_co h1)" using ok auth by (rule authorize_inv)
    have "ss_vaultId session = v" using hub read_session_in[OF Some] by (auto simp: hub_ok_def)
    then have "vault_ok until v (hb_co (respond env i session m h1))" using respond_inv[OF ok1 t] by simp
    then show ?thesis using Some auth ok1 later by (auto simp: handle_def split: sum.split)
  qed
qed

section \<open>Connections come and go\<close>

lemma sessions_unregister: "sessions (unregister_socket i g) = filter (\<lambda>(j, _). j \<noteq> i) (sessions g)"
  by (induction g) (auto simp: sessions_def unregister_socket_def)

lemma hub_ok_close_connection:
  assumes ok: "hub_ok v h"
  shows "hub_ok v (close_connection env i h)"
proof -
  let ?h = "(on_sockets (unregister_socket i) h)\<lparr>hb_presence := snd (presence_clear i (hb_presence h))\<rparr>"
  have sock: "sockets_ok (unregister_socket i (hb_sockets h))" using ok by (simp add: hub_ok_sockets)
  have "presence_sited (filter (\<lambda>(j, _). j \<noteq> i) (sessions (hb_sockets h))) (snd (presence_clear i (hb_presence h)))"
    using ok unfolding hub_ok_def presence_sited_def presence_map_simps by (auto simp: fun_upd_def split: if_splits)
  then have "hub_ok v ?h"
    using ok sock by (auto simp: hub_ok_def on_sockets_def sessions_unregister presence_ok_clear)
  then have "hub_ok v (snd (announce_availability (Some i) (announce_cleared i previous ?h)))" for previous
    by (intro hub_ok_availability hub_ok_announce_cleared)
  then show ?thesis
    by (simp add: close_connection_def handle_disconnect_def clear_presence_eq Let_def on_sockets_def)
qed

lemma register_map:
  assumes "sockets_ok g" "i \<notin> so_id ` set g"
  shows "sessions (register_socket i session g) = sessions g @ [(i, session)]"
proof -
  let ?new = "\<lparr>so_id = i, so_data = session, so_ready = Open, so_works = True, so_sent = [], so_closed = None\<rparr> :: session socket"
  have "ids_ok (g @ [?new])" using assms by (auto simp: sockets_ok_def ids_ok_def)
  then show ?thesis unfolding register_socket_def close_superseded_map[OF \<open>ids_ok (g @ [?new])\<close>]
    by (subst sessions_map) (auto simp: sessions_def)
qed

lemma hub_ok_accept:
  assumes ok: "hub_ok v h" and fresh: "i \<notin> so_id ` set (hb_sockets h)" and vault: "ss_vaultId (pd_session p) = v"
  shows "hub_ok v (snd (snd (accept_socket env i p h)))"
proof -
  have ok1: "hub_ok v h1 \<and> hb_sockets h1 = hb_sockets h" if "assert_session_access env p h = (r, p1, h1)" for r p1 h1
  proof -
    obtain a ha where auth: "authorize (later_clock env) (pd_session p) h = (a, ha)" by fastforce
    have "hub_ok v ha" "hb_sockets ha = hb_sockets h" using ok authorize_fields[OF auth] by (auto simp: hub_ok_def)
    then show ?thesis using that ok by (auto simp: assert_session_access_def auth split: if_splits sum.splits)
  qed
  have reg: "hub_ok v (on_sockets (register_socket i (pd_session p)) h1)" if "hub_ok v h1" "hb_sockets h1 = hb_sockets h" for h1
  proof -
    have "sockets_ok (register_socket i (pd_session p) (hb_sockets h))"
      using ok fresh by (intro sockets_ok_register) (auto simp: hub_ok_def)
    moreover have "presence_sited (sessions (hb_sockets h) @ [(i, pd_session p)]) (hb_presence h1)"
      using that by (fastforce simp: hub_ok_def presence_sited_def)
    ultimately show ?thesis
      using that vault fresh register_map[OF hub_ok_sockets[OF ok] fresh] by (auto simp: hub_ok_def on_sockets_def)
  qed
  obtain r p1 h1 where a: "assert_session_access env p h = (r, p1, h1)" by (cases "assert_session_access env p h")
  then have "hub_ok v h1" "hub_ok v (on_sockets (register_socket i (pd_session p)) h1)"
    using ok1[OF a] reg[of h1] by auto
  then show ?thesis by (simp add: accept_socket_def a Let_def split: sum.split)
qed

lemma accept_inv:
  assumes ok: "vault_ok now v (hb_co h)"
  shows "vault_ok now v (hb_co (snd (snd (accept_socket env i p h))))"
proof -
  obtain a ha where auth: "authorize (later_clock env) (pd_session p) h = (a, ha)" by fastforce
  have "vault_ok now v (hb_co ha)" using ok auth by (rule authorize_inv)
  then show ?thesis using ok
    by (auto simp: accept_socket_def assert_session_access_def auth Let_def complete_socket_open_def schedule_summary_ok
        split: sum.split if_split)
qed

section \<open>The system\<close>

datatype hub_event =
    Connected ident prepared_session
  | Received ident client_message
  | Disconnected ident
  | Called call \<comment> \<open>HTTP requests, remote calls, alarms, timers\<close>
  | Access_changed millis "access_error + access_snapshot"
  | Hibernated \<comment> \<open>a Durable Object loses its memory, but keeps its sockets\<close>

definition refresh_hub :: "env \<Rightarrow> millis \<Rightarrow> access_error + access_snapshot \<Rightarrow> hub \<Rightarrow> hub" where
  "refresh_hub env life snapshot h =
     (let (_, s, c) = refresh_access env life snapshot (list_socket_sessions (hb_sockets h))
            (hb_access h, (hb_co h)\<lparr>co_calls := []\<rparr>)
      in h\<lparr>hb_access := s, hb_co := c\<lparr>co_calls := []\<rparr>, hb_sockets := fold deliver (co_calls c) (hb_sockets h)\<rparr>)"

definition hibernate :: "hub \<Rightarrow> hub" where
  "hibernate h = h\<lparr>hb_co := cold_start (hb_co h), hb_access := \<lparr>ac_cache = None, ac_nextExpiry = None\<rparr>,
     hb_presence := no_presence\<rparr>"

fun hub_do :: "ident \<Rightarrow> env \<Rightarrow> hub_event \<Rightarrow> hub \<Rightarrow> hub" where
  "hub_do v env (Connected i p) h = snd (snd (accept_socket env i p h))"
| "hub_do v env (Received i m) h = handle env i m h"
| "hub_do v env (Disconnected i) h = close_connection env i h"
| "hub_do v env (Called call) h = snd (with_services (\<lambda>c. ((), perform v env call c)) h)"
| "hub_do v env (Access_changed life snapshot) h = refresh_hub env life snapshot h"
| "hub_do v env Hibernated h = hibernate h"

fun hub_event_ok :: "ident \<Rightarrow> env \<Rightarrow> hub_event \<Rightarrow> hub \<Rightarrow> bool" where
  \<comment> \<open>connection ids are fresh, tokens were verified for this vault\<close>
  "hub_event_ok v env (Connected i p) h \<longleftrightarrow> i \<notin> so_id ` set (hb_sockets h) \<and> ss_vaultId (pd_session p) = v"
| "hub_event_ok v env (Called call) h \<longleftrightarrow> call_ok v env call ((hb_co h)\<lparr>co_calls := []\<rparr>)"
| "hub_event_ok v env _ h \<longleftrightarrow> True"

definition hub_step :: "ident \<Rightarrow> env \<times> hub_event \<times> millis \<Rightarrow> millis \<times> hub \<Rightarrow> millis \<times> hub" where
  "hub_step v = (\<lambda>(env, event, until) (now, h). (until, hub_do v env event h))"

definition hub_step_ok :: "ident \<Rightarrow> env \<times> hub_event \<times> millis \<Rightarrow> millis \<times> hub \<Rightarrow> bool" where
  "hub_step_ok v = (\<lambda>(env, event, until) (now, h).
     (\<forall>k. now \<le> ev_clk env k \<and> ev_clk env k \<le> until) \<and> hub_event_ok v env event h)"

definition hub_inv :: "ident \<Rightarrow> millis \<times> hub \<Rightarrow> bool" where
  "hub_inv v = (\<lambda>(now, h). hub_ok v h \<and> vault_ok now v (hb_co h))"

definition idle_hub :: hub where
  "idle_hub = \<lparr>hb_co = idle_coordinator, hb_access = \<lparr>ac_cache = None, ac_nextExpiry = None\<rparr>, hb_sockets = [],
     hb_presence = no_presence\<rparr>"

section \<open>Every step keeps the invariant\<close>

definition revocations_only :: "db \<Rightarrow> db \<Rightarrow> bool" where
  "revocations_only d d' \<longleftrightarrow> (\<exists>rs. d' = d\<lparr>db_revocations := rs\<rparr>) \<and>
     (keyed rv_key (db_revocations d) \<longrightarrow> keyed rv_key (db_revocations d'))"

lemma revocations_only_refl [simp]: "revocations_only d d"
  by (auto simp: revocations_only_def intro: exI[of _ "db_revocations d"])

lemma revocations_only_trans: "revocations_only d d' \<Longrightarrow> revocations_only d' d'' \<Longrightarrow> revocations_only d d''"
  by (auto simp: revocations_only_def)

lemma revocations_only_store:
  "revocations_only d (prune_revocations t d)" "revocations_only d (write_revocation r d)"
  "revocations_only d (delete_revocation k d)"
  by (auto simp: revocations_only_def prune_revocations_def write_revocation_def delete_revocation_def
      keyed_delete_rows intro!: keyed_upsert_row)

lemma revocations_only_load: "revocations_only d (snd (load_access now (s, d)))"
  using load_access_db[of now s d] revocations_only_store(1) by (cases "load_access now (s, d)") auto

lemma revocations_only_grants: "revocations_only d (fold (write_grant ex s) grants d)"
proof (induction grants arbitrary: d)
  case (Cons g grants)
  have "revocations_only d (write_grant ex s g d)"
    by (simp add: write_grant_def Let_def revocations_only_store split: prod.split)
  then show ?case using Cons revocations_only_trans by fastforce
qed simp

lemma refresh_only:
  assumes "refresh_access env life snapshot sockets (s, c) = (r, s', c')"
  shows "\<exists>d ks. c' = c\<lparr>co_db := d, co_calls := ks\<rparr> \<and> revocations_only (co_db c) d"
proof (cases snapshot)
  case (Inl e)
  then show ?thesis using assms
    by (intro exI[of _ "co_db c"] exI[of _ "co_calls c"]) (simp add: refresh_access_def)
next
  case (Inr sn)
  obtain s1 d1 where l1: "load_access (ev_clk env 0) (s, co_db c) = (s1, d1)" by fastforce
  define d2 where "d2 = write_suspension (ev_clk env 1 + life) (sn_suspended sn)
      (fold (write_grant (ev_clk env 1 + life) s1) (sn_grants sn) d1)"
  obtain s3 d3 where l3: "load_access (ev_clk env 2) (s1\<lparr>ac_cache := None\<rparr>, d2) = (s3, d3)" by fastforce
  have "revocations_only (co_db c) d1" using revocations_only_load[of "co_db c" "ev_clk env 0" s] by (simp add: l1)
  moreover have "revocations_only d1 d2"
  proof (rule revocations_only_trans[OF revocations_only_grants])
    show "revocations_only (fold (write_grant (ev_clk env 1 + life) s1) (sn_grants sn) d1) d2"
      by (simp add: d2_def write_suspension_def revocations_only_store)
  qed
  moreover have "revocations_only d2 d3" using revocations_only_load[of d2 "ev_clk env 2" "s1\<lparr>ac_cache := None\<rparr>"] by (simp add: l3)
  ultimately have "revocations_only (co_db c) d3" using revocations_only_trans by blast
  moreover have "c' = c\<lparr>co_db := d3, co_calls := co_calls c @ map (\<lambda>id. Close_socket id 1012 ''vault access changed; reconnect'')
      (denied_sockets s3 sockets)\<rparr>"
    using assms l3[unfolded d2_def] unfolding refresh_access_def Inr by (auto simp: l1 Let_def)
  ultimately show ?thesis by blast
qed

lemma revocations_only_inv:
  assumes "vault_inv A now v c" "revocations_only (co_db c) d"
  shows "vault_inv A now v (c\<lparr>co_db := d, co_calls := ks\<rparr>)"
proof -
  have keys: "keyed connection_key (db_connections (co_db c))" "keyed rv_key (db_revocations (co_db c))"
    using assms(1) by (simp_all add: vault_inv_def db_ok_def db_keys_def)
  obtain rs where d: "d = (co_db c)\<lparr>db_revocations := rs\<rparr>" "keyed rv_key rs"
    using assms(2) keys(2) by (auto simp: revocations_only_def)
  have "vault_inv A now v (on_db (\<lambda>d. d\<lparr>db_connections := db_connections (co_db c), db_revocations := rs\<rparr>) c)"
    using side_tables_inv[OF assms(1) keys(1) d(2)] .
  then have "vault_inv A now v (c\<lparr>co_db := d\<rparr>)" by (simp add: on_db_def d(1))
  then show ?thesis using calls_inv by blast
qed

lemma hub_step_inv:
  assumes step: "hub_step_ok v e s" and inv: "hub_inv v s"
  shows "hub_inv v (hub_step v e s)"
proof -
  obtain env event until now h where e: "e = (env, event, until)" and s: "s = (now, h)" by (cases e; cases s) auto
  have ok: "hub_ok v h" and data: "vault_ok now v (hb_co h)" and ev: "hub_event_ok v env event h"
    and t: "\<And>k. now \<le> ev_clk env k" "\<And>k. ev_clk env k \<le> until"
    using step inv by (auto simp: hub_step_ok_def hub_inv_def e s)
  have "now \<le> until" using t order_trans by blast
  then have later: "vault_ok now v c \<Longrightarrow> vault_ok until v c" for c using vault_ok_later by blast
  have "hub_ok v (hub_do v env event h) \<and> vault_ok until v (hb_co (hub_do v env event h))"
  proof (cases event)
    case (Connected i p)
    then show ?thesis using ev ok data later by (auto simp: hub_ok_accept accept_inv)
  next
    case (Received i m)
    then show ?thesis using hub_ok_handle[OF ok] handle_inv[OF data ok t] by simp
  next
    case (Disconnected i)
    have "vault_ok now v (hb_co (close_connection env i h))"
      using data by (simp add: close_connection_def handle_disconnect_def clear_presence_eq Let_def socket_close_inv)
    then show ?thesis using Disconnected ok later by (simp add: hub_ok_close_connection)
  next
    case (Called call)
    then show ?thesis using ok ev with_services_inv[OF data t, where call = call and op = "\<lambda>c. ((), perform v env call c)"]
      by (simp add: hub_ok_with_services)
  next
    case (Access_changed life snapshot)
    let ?c = "(hb_co h)\<lparr>co_calls := []\<rparr>"
    obtain r s' c' where run: "refresh_access env life snapshot (list_socket_sessions (hb_sockets h)) (hb_access h, ?c) = (r, s', c')"
      by (metis prod_cases3)
    obtain d ks where c': "c' = ?c\<lparr>co_db := d, co_calls := ks\<rparr>" and "revocations_only (co_db (hb_co h)) d"
      using refresh_only[OF run] by auto
    then have "vault_ok now v (c'\<lparr>co_calls := []\<rparr>)"
      using revocations_only_inv[OF data, of d "[]"] by simp
    moreover have "hub_ok v (refresh_hub env life snapshot h)"
      by (rule hub_ok_same[OF ok]) (simp_all add: refresh_hub_def run hub_ok_sockets[OF ok])
    ultimately show ?thesis using Access_changed later by (simp add: refresh_hub_def run)
  next
    case Hibernated
    have "hub_ok v (hibernate h)"
      using ok by (simp add: hub_ok_def hibernate_def presence_sited_def presence_map_simps)
    then show ?thesis using Hibernated cold_start_inv[OF data] later by (simp add: hibernate_def)
  qed
  then show ?thesis by (simp add: hub_step_def hub_inv_def e s)
qed

interpretation hub: step_system "hub_step v" "hub_step_ok v" "hub_inv v" for v
  by unfold_locales (rule hub_step_inv)

lemma idle_hub_inv: "hub_inv v (now, idle_hub)"
  by (simp add: hub_inv_def idle_hub_def hub_ok_def sockets_ok_def ids_ok_def sessions_def presence_sited_def
      presence_map_simps idle_vault_ok)

section \<open>Properties\<close>

text \<open>
  C5. Whatever clients and the platform do, the connections of a vault stay in order. Start empty
  and let any sequence of accepted connections, messages, disconnects, other calls, alarms, access
  changes and hibernations happen: a device (user and local vault) has at most one open
  connection; connection ids are unique; every session belongs to this vault; whoever the presence
  store shows in an entry is a registered connection that shares its presence and is in that entry,
  in one entry only; and the data of the vault is as consistent as after any history of the
  coordinator alone.
\<close>

theorem connections_stay_in_order:
  assumes "admissible (hub_step_ok v) (hub_step v) events (start, idle_hub)"
    and "fold (hub_step v) events (start, idle_hub) = (now, h)"
  shows "distinct (map so_id (hb_sockets h)) \<and>
    (\<forall>s t. s \<in> set (hb_sockets h) \<and> t \<in> set (hb_sockets h) \<and> so_ready s = Open \<and> so_ready t = Open \<and>
       identity (so_data s) = identity (so_data t) \<longrightarrow> s = t) \<and>
    (\<forall>s \<in> set (hb_sockets h). ss_vaultId (so_data s) = v) \<and>
    (\<forall>i e sel t. presence_map (hb_presence h) i = Some (e, sel, t) \<longrightarrow>
       (\<exists>s \<in> set (hb_sockets h). so_id s = i \<and> ss_wantsPresence (so_data s) \<and> ss_presenceEntryId (so_data s) = Some e)) \<and>
    presence_ok (hb_presence h) \<and> vault_ok now v (hb_co h)"
proof -
  have "hub_inv v (fold (hub_step v) events (start, idle_hub))"
    using assms(1) idle_hub_inv by (rule hub.run_inv)
  then have ok: "hub_ok v h" "vault_ok now v (hb_co h)" by (simp_all add: assms(2) hub_inv_def)
  have inj: "inj_on (identity \<circ> so_data) (set (filter (\<lambda>s. so_ready s = Open) (hb_sockets h)))"
    using ok(1) by (simp add: hub_ok_def sockets_ok_def distinct_map)
  show ?thesis
  proof (intro conjI)
    show "\<forall>s t. s \<in> set (hb_sockets h) \<and> t \<in> set (hb_sockets h) \<and> so_ready s = Open \<and> so_ready t = Open \<and>
       identity (so_data s) = identity (so_data t) \<longrightarrow> s = t"
      using inj by (auto simp: inj_on_def)
    show "\<forall>i e sel t. presence_map (hb_presence h) i = Some (e, sel, t) \<longrightarrow>
       (\<exists>s \<in> set (hb_sockets h). so_id s = i \<and> ss_wantsPresence (so_data s) \<and> ss_presenceEntryId (so_data s) = Some e)"
      using ok(1) by (fastforce simp: hub_ok_def presence_sited_def sessions_def)
  qed (use ok in \<open>auto simp: hub_ok_def sockets_ok_def ids_ok_def sessions_def\<close>)
qed

section \<open>An instance\<close>

definition example_prepared :: prepared_session where
  "example_prepared = \<lparr>pd_session = session_of_claims example_claims, pd_expiry = Some 1000\<rparr>"

definition example_selection :: presence_selection where
  "example_selection = \<lparr>pn_anchor = \<lparr>pp_line = 1, pp_ch = 2\<rparr>, pn_head = \<lparr>pp_line = 1, pp_ch = 2\<rparr>\<rparr>"

definition example_hub_events :: "(env \<times> hub_event \<times> millis) list" where
  \<comment> \<open>the device \<open>l\<close> connects twice, a second device once; the second connection edits\<close>
  "example_hub_events = map (\<lambda>e. (example_env, e, 10)) [Called (Prepare_socket (Inr example_limits)),
     Connected ''a'' example_prepared, Connected ''b'' example_prepared,
     Connected ''c'' (example_prepared\<lparr>pd_session := (session_of_claims example_claims)\<lparr>ss_localVaultId := ''k''\<rparr>\<rparr>),
     Received ''b'' (Msg_watch_presence [''e'']), Received ''c'' (Msg_watch_presence [''e'']),
     Received ''b'' (Msg_presence_update ''e'' example_selection)]"

lemma example_hub_run:
  "let h = snd (fold (hub_step ''v'') example_hub_events (10, idle_hub)) in
   map (\<lambda>s. (so_id s, so_ready s = Open, so_sent s)) (hb_sockets h) =
     [(''a'', False, [replaced_message]), (''b'', True, [Presence_availability False, Presence_availability True]),
      (''c'', True, [Presence_availability True, Presence_updated ''b'' ''e'' ''u'' ''Jo'' example_selection])] \<and>
   presence_map (hb_presence h) ''b'' = Some (''e'', example_selection, 10)"
  by code_simp

lemma admissible_at_example_time:
  "\<forall>x \<in> set es. fst x = example_env \<and> snd (snd x) = 10 \<Longrightarrow>
   admissible (\<lambda>(env, event, until) (now, h). hub_event_ok v env event h) (hub_step v) es (10, h) \<Longrightarrow>
   admissible (hub_step_ok v) (hub_step v) es (10, h)"
  by (induction es arbitrary: h) (auto simp: hub_step_ok_def hub_step_def)

theorem connections_stay_in_order_witness:
  "\<exists>s \<in> set (hb_sockets (snd (fold (hub_step ''v'') example_hub_events (10, idle_hub)))).
     so_id s = ''b'' \<and> ss_wantsPresence (so_data s) \<and> ss_presenceEntryId (so_data s) = Some ''e''"
proof -
  obtain now h where run: "fold (hub_step ''v'') example_hub_events (10, idle_hub) = (now, h)" by fastforce
  have adm: "admissible (hub_step_ok ''v'') (hub_step ''v'') example_hub_events (10, idle_hub)"
    by (rule admissible_at_example_time, simp add: example_hub_events_def, code_simp)
  have "presence_map (hb_presence h) ''b'' = Some (''e'', example_selection, 10)"
    using example_hub_run by (simp add: run)
  then show ?thesis using connections_stay_in_order[OF adm run] by (simp add: run)
qed

end
