(* ===== verification/Hub_Messages.thy ===== *)
theory Hub_Messages
  imports Hub
begin

text \<open>
  What a message makes the server send, connection by connection: the answer to the one that
  asked, the announcement of a commit to the others, presence to those who watch, and nothing but
  a refusal to who lost the access.
\<close>

section \<open>One connection\<close>

definition conn :: "ident \<Rightarrow> 'a socket list \<Rightarrow> 'a socket list" where
  "conn i g = filter (\<lambda>s. so_id s = i) g"

lemma conn_map: "(\<And>s. so_id (f s) = so_id s) \<Longrightarrow> conn i (map f g) = map f (conn i g)"
  by (simp add: conn_def filter_map comp_def)

lemma conn_id: "s \<in> set (conn i g) \<Longrightarrow> so_id s = i"
  by (simp add: conn_def)

lemma map_conn_if: "map (\<lambda>s. if so_id s = j then f s else s) (conn i g) = (if i = j then map f (conn i g) else conn i g)"
  by (auto intro!: map_cong map_idI dest: conn_id)

lemma conn_send:
  "ids_ok g \<Longrightarrow> conn i (snd (send_socket_message j m g)) = (if i = j then map (try_send m) (conn i g) else conn i g)"
  by (simp add: send_socket_message_map conn_map map_conn_if)

lemma conn_close:
  "ids_ok g \<Longrightarrow> conn i (close_socket j code reason g) = (if i = j then map (close_native code reason) (conn i g) else conn i g)"
  by (simp add: close_socket_map conn_map map_conn_if)

lemma conn_send_where: "conn i (send_where P m g) = map (\<lambda>s. if P s then try_send m s else s) (conn i g)"
  by (simp add: send_where_def conn_map)

lemma conn_except:
  "conn i (broadcast_except j m g) = (if i = j then conn i g else map (try_send m) (conn i g))"
  unfolding broadcast_except_def conn_send_where by (auto intro!: map_cong map_idI dest: conn_id)

text \<open>What a connection was sent since an earlier state.\<close>

definition received :: "ident \<Rightarrow> sockets \<Rightarrow> sockets \<Rightarrow> server_message list \<Rightarrow> bool" where
  \<comment> \<open>the connection is still there, in the same state, and was sent exactly these messages\<close>
  "received i g g' ms \<longleftrightarrow> (\<exists>s s'. conn i g = [s] \<and> conn i g' = [s'] \<and> can_send s \<and> can_send s' \<and>
     so_sent s' = so_sent s @ ms)"

lemma received_refl: "conn i g = [s] \<Longrightarrow> can_send s \<Longrightarrow> received i g g []"
  by (simp add: received_def)

lemma received_trans: "received i g g' ms \<Longrightarrow> received i g' g'' ns \<Longrightarrow> received i g g'' (ms @ ns)"
  by (auto simp: received_def)

lemma received_same: "received i g g' ms \<Longrightarrow> conn i g'' = conn i g' \<Longrightarrow> received i g g'' ms"
  by (simp add: received_def)

lemma can_send_try [simp]: "can_send (try_send m s) = can_send s"
  by (simp add: can_send_def)

lemma sent_try: "can_send s \<Longrightarrow> so_sent (try_send m s) = so_sent s @ [m]"
  by (simp add: try_send_def)

lemma received_step:
  assumes "conn i g = [s]" "can_send s" "conn i g' = map (try_send m) (conn i g)"
  shows "received i g g' [m]"
  using assms by (simp add: received_def sent_try)

lemma received_send: "ids_ok g \<Longrightarrow> conn i g = [s] \<Longrightarrow> can_send s \<Longrightarrow> received i g (snd (send_socket_message i m g)) [m]"
  by (rule received_step) (simp_all add: conn_send)

lemma received_state: "received i g g' ms \<Longrightarrow> \<exists>s'. conn i g' = [s'] \<and> can_send s'"
  by (auto simp: received_def)

section \<open>Broadcasts of the services\<close>

definition status_only :: "server_message list \<Rightarrow> bool" where
  "status_only ms \<longleftrightarrow> (\<forall>m \<in> set ms. \<exists>st. m = Storage_status_updated st)"

lemma received_deliver:
  assumes "conn i g = [s]" "can_send s" "\<forall>k \<in> set ks. \<exists>used lim. k = Broadcast_storage_status used lim"
  shows "\<exists>ms. received i g (fold deliver ks g) ms \<and> status_only ms"
  using assms
proof (induction ks arbitrary: g s)
  case Nil
  then show ?case by (auto simp: status_only_def intro: received_refl)
next
  case (Cons k ks)
  then obtain used lim where k: "k = Broadcast_storage_status used lim" by auto
  let ?m = "Storage_status_updated \<lparr>st_used = used, st_limit = lim\<rparr>"
  have one: "\<exists>ns. received i g (deliver k g) ns \<and> status_only ns"
  proof (cases "ss_wantsStorageStatus (so_data s)")
    case True
    then have "received i g (deliver k g) [?m]"
      using Cons.prems by (intro received_step) (simp_all add: k broadcast_storage_status_def conn_send_where)
    then show ?thesis by (auto simp: status_only_def)
  next
    case False
    then have "conn i (deliver k g) = conn i g" using Cons.prems by (simp add: k broadcast_storage_status_def conn_send_where)
    then have "received i g (deliver k g) []" using Cons.prems by (simp add: received_def)
    then show ?thesis by (auto simp: status_only_def)
  qed
  then obtain ns s' where ns: "received i g (deliver k g) ns" "status_only ns" "conn i (deliver k g) = [s']" "can_send s'"
    using received_state by blast
  obtain ms where "received i (deliver k g) (fold deliver ks (deliver k g)) ms" "status_only ms"
    using Cons.IH[OF ns(3,4)] Cons.prems(3) by auto
  then show ?case using received_trans[OF ns(1)] ns(2) by (auto simp: status_only_def intro!: exI[of _ "ns @ ms"])
qed

lemma received_services:
  assumes "conn i (hb_sockets h) = [s]" "can_send s" "\<And>c. quiet c (snd (op c))" "with_services op h = (r, h')"
  shows "\<exists>ms. received i (hb_sockets h) (hb_sockets h') ms \<and> status_only ms"
proof -
  obtain r c where op: "op ((hb_co h)\<lparr>co_calls := []\<rparr>) = (r, c)" by fastforce
  have "\<forall>k \<in> set (co_calls c). \<exists>used lim. k = Broadcast_storage_status used lim"
    using assms(3)[of "(hb_co h)\<lparr>co_calls := []\<rparr>"] by (auto simp: quiet_def op)
  then show ?thesis using received_deliver[OF assms(1,2), of "co_calls c"] assms(4) by (auto simp: with_services_def op)
qed

section \<open>Answers\<close>

definition answered :: "ident \<Rightarrow> hub \<Rightarrow> hub \<Rightarrow> (server_message \<Rightarrow> bool) \<Rightarrow> bool" where
  \<comment> \<open>the connection is sent storage statuses, if any, and then one message with the property\<close>
  "answered i h h' P \<longleftrightarrow> (\<exists>ms a. received i (hb_sockets h) (hb_sockets h') (ms @ [a]) \<and> status_only ms \<and> P a)"

definition listening :: "ident \<Rightarrow> hub \<Rightarrow> bool" where
  "listening i h \<longleftrightarrow> ids_ok (hb_sockets h) \<and> (\<exists>s. conn i (hb_sockets h) = [s] \<and> can_send s)"

lemma answered_send:
  assumes "listening i h" "P a" "hb_sockets h = hb_sockets h0"
  shows "answered i h0 (send i a h) P"
proof -
  have "received i (hb_sockets h) (hb_sockets (send i a h)) ([] @ [a])"
    using assms(1) by (auto simp: listening_def send_def on_sockets_def received_send)
  then show ?thesis unfolding answered_def using assms(2,3) by (metis empty_iff list.set(1) status_only_def)
qed

lemma answered_reply:
  assumes "listening i h" "P a"
  shows "answered i h (reply_and_broadcast i a b h) P"
proof -
  have ids: "ids_ok (hb_sockets (send i a h))" using assms(1) by (simp add: listening_def send_def on_sockets_def)
  have "conn i (hb_sockets (reply_and_broadcast i a b h)) = conn i (hb_sockets (send i a h))"
    by (simp add: reply_and_broadcast_def Let_def on_sockets_def conn_except split: option.split)
  moreover have "answered i h (send i a h) P" using assms by (intro answered_send refl)
  ultimately show ?thesis using received_same unfolding answered_def by blast
qed

lemma answered_service:
  assumes hub: "hub_ok v h" and i: "listening i h" and quiet: "\<And>c. quiet c (snd (op c))"
    and failure: "\<And>e h1. listening i h1 \<Longrightarrow> answered i h1 (f e h1) P"
    and success: "\<And>x h1. listening i h1 \<Longrightarrow> answered i h1 (k x h1) P"
  shows "answered i h (case with_services op h of (Inl e, h1) \<Rightarrow> f e h1 | (Inr x, h1) \<Rightarrow> k x h1) P"
proof -
  obtain r h1 where run: "with_services op h = (r, h1)" by fastforce
  obtain s where s: "conn i (hb_sockets h) = [s]" "can_send s" using i by (auto simp: listening_def)
  obtain ms where ms: "received i (hb_sockets h) (hb_sockets h1) ms" "status_only ms"
    using received_services[OF s quiet run] by blast
  have "ids_ok (hb_sockets h1)" using hub_ok_with_servicesD[OF run hub] by (simp add: hub_ok_def sockets_ok_def)
  then have "listening i h1" using received_state[OF ms(1)] by (auto simp: listening_def)
  then have "answered i h1 (case r of Inl e \<Rightarrow> f e h1 | Inr x \<Rightarrow> k x h1) P"
    using failure success by (cases r) auto
  then obtain ns a where "received i (hb_sockets h1) (hb_sockets (case r of Inl e \<Rightarrow> f e h1 | Inr x \<Rightarrow> k x h1)) (ns @ [a])"
      "status_only ns" "P a" by (auto simp: answered_def)
  then have "received i (hb_sockets h) (hb_sockets (case r of Inl e \<Rightarrow> f e h1 | Inr x \<Rightarrow> k x h1)) ((ms @ ns) @ [a])"
    "status_only (ms @ ns)" using received_trans[OF ms(1)] ms(2) by (auto simp: status_only_def)
  then have "answered i h (case r of Inl e \<Rightarrow> f e h1 | Inr x \<Rightarrow> k x h1) P"
    using \<open>P a\<close> unfolding answered_def by blast
  then show ?thesis unfolding run by (cases r) auto
qed

lemma request_failed_answers: "answers (request_failed kind r e c t) = Some r"
  by (simp add: request_failed_def websocket_request_error_def)

lemma answered_hello:
  assumes "listening i h"
  shows "answered i h (say_hello env i session r cursor h) (\<lambda>a. answers a = Some r \<or> (\<exists>code text. a = Session_error code text))"
proof -
  have "listening i (h\<lparr>hb_co := c\<rparr>)" for c using assms by (simp add: listening_def)
  then show ?thesis using assms
    by (auto simp: say_hello_def Let_def intro!: answered_send split: sum.split prod.split)
qed

lemma answered_respond:
  assumes hub: "hub_ok v h" and i: "listening i h" and r: "request_of m = Some r"
  shows "answered i h (respond env i session m h)
    (\<lambda>a. answers a = Some r \<or> (case m of Msg_hello _ _ \<Rightarrow> True | Msg_commit_mutation _ _ \<Rightarrow> True | _ \<Rightarrow> False) \<and> (\<exists>code text. a = Session_error code text))"
proof (cases m)
  case (Msg_hello q cursor)
  then show ?thesis using answered_hello[OF i] r by simp
next
  case (Msg_commit_mutations q ms)
  show ?thesis unfolding Msg_commit_mutations respond.simps
    by (rule answered_service[OF hub i commit_mutations_quiet])
       (use r in \<open>auto simp: Msg_commit_mutations intro: answered_send answered_reply\<close>)
next
  case (Msg_restore_entry_version q x)
  show ?thesis unfolding Msg_restore_entry_version respond.simps
    by (rule answered_service[OF hub i restore_entry_version_quiet])
       (use r in \<open>auto simp: Msg_restore_entry_version request_failed_answers intro: answered_send answered_reply split: prod.split\<close>)
next
  case (Msg_restore_entry_versions q xs)
  show ?thesis unfolding Msg_restore_entry_versions respond.simps
    by (rule answered_service[OF hub i restore_entry_versions_quiet])
       (use r in \<open>auto simp: Msg_restore_entry_versions request_failed_answers intro: answered_send answered_reply split: prod.split\<close>)
next
  case (Msg_purge_deleted_entries q es)
  show ?thesis unfolding Msg_purge_deleted_entries respond.simps
    by (rule answered_service[OF hub i purge_deleted_entries_quiet])
       (use r in \<open>auto simp: Msg_purge_deleted_entries request_failed_answers intro: answered_send split: prod.split\<close>)
next
  case (Msg_detach_local_vault q)
  let ?op = "\<lambda>c. (Inr () :: unit + unit, detach_local_vault (later_clock env) (ss_userId session) (ss_localVaultId session) c)"
  have "answered i h (case with_services ?op h of (Inl e, h1) \<Rightarrow> send i (Local_vault_detached q) h1
      | (Inr x, h1) \<Rightarrow> send i (Local_vault_detached q) h1) (\<lambda>a. answers a = Some r)"
    by (rule answered_service[OF hub i]) (use r in \<open>auto simp: Msg_detach_local_vault detach_quiet intro: answered_send\<close>)
  moreover have "snd (with_services ?op h) = snd (with_services (\<lambda>c. ((), snd (?op c))) h)" by (simp add: with_services_def)
  ultimately show ?thesis by (auto simp: Msg_detach_local_vault with_services_def)
qed (use i r in \<open>auto simp: request_failed_answers intro!: answered_send split: sum.split\<close>)

lemma read_conn: "conn i g = [s] \<Longrightarrow> so_ready s = Open \<Longrightarrow> read_socket_session i g = Some (so_data s)"
  by (induction g) (auto simp: conn_def read_socket_session_def split: if_splits)

lemma read_conn_none: "conn i g = [s] \<Longrightarrow> so_ready s \<noteq> Open \<Longrightarrow> read_socket_session i g = None"
  by (induction g) (auto simp: conn_def read_socket_session_def filter_empty_conv find_None_iff split: if_splits)

section \<open>Properties\<close>

text \<open>
  C11. Every request is answered. A client with an open connection that may still access the vault
  gets, for each message that carries a request id, exactly one answer with that id, as the last
  message of the exchange and on its own connection; before it there can only be storage statuses,
  to which the connection subscribed. Instead of the answer to a greeting there may be a session
  error.
\<close>

theorem requests_are_answered:
  assumes hub: "hub_ok v h" and s: "conn i (hb_sockets h) = [s]" "can_send s"
    and access: "fst (authorize env (so_data s) h) = Inr ()" and r: "request_of m = Some r"
  shows "\<exists>ms a. received i (hb_sockets h) (hb_sockets (handle env i m h)) (ms @ [a]) \<and> status_only ms \<and>
    (answers a = Some r \<or> (case m of Msg_hello _ _ \<Rightarrow> True | Msg_commit_mutation _ _ \<Rightarrow> True | _ \<Rightarrow> False) \<and>
       (\<exists>code text. a = Session_error code text))"
proof -
  obtain h1 where auth: "authorize env (so_data s) h = (Inr (), h1)" using access by (metis prod.collapse)
  have same: "hb_sockets h1 = hb_sockets h" "hb_presence h1 = hb_presence h" using authorize_fields[OF auth] by simp_all
  then have hub1: "hub_ok v h1" using hub by (simp add: hub_ok_def)
  have "listening i h1" using hub1 s by (auto simp: same listening_def hub_ok_def sockets_ok_def)
  then have "answered i h1 (respond env i (so_data s) m h1)
      (\<lambda>a. answers a = Some r \<or> (case m of Msg_hello _ _ \<Rightarrow> True | Msg_commit_mutation _ _ \<Rightarrow> True | _ \<Rightarrow> False) \<and> (\<exists>code text. a = Session_error code text))"
    using hub1 r by (intro answered_respond)
  moreover have "handle env i m h = respond env i (so_data s) m h1"
    using s by (simp add: handle_def read_conn can_send_def auth)
  ultimately show ?thesis by (simp add: answered_def same)
qed

text \<open>
  C12. A commit is announced. When a client's commit succeeds, it is answered with the service's
  result, every other open connection is told the new cursor, exactly when the commit advanced
  it, and nobody is sent anything else.
\<close>

theorem commit_is_announced:
  assumes hub: "hub_ok v h" and s: "conn i (hb_sockets h) = [s]" "can_send s"
    and access: "authorize env (so_data s) h = (Inr (), h1)"
    and commit: "commit_mutations (later_clock env) (so_data s) ms None ((hb_co h1)\<lparr>co_calls := []\<rparr>) = (Inr res, c)"
  shows "let g = hb_sockets h; g' = hb_sockets (handle env i (Msg_commit_mutations r ms) h) in
    received i g g' [Commit_mutations_committed r (cr_cursor res) (cr_results res)] \<and>
    (\<forall>j t. j \<noteq> i \<and> conn j g = [t] \<and> can_send t \<longrightarrow>
       received j g g' (case cr_broadcast res of None \<Rightarrow> [] | Some n \<Rightarrow> [Cursor_advanced n])) \<and>
    co_db (hb_co (handle env i (Msg_commit_mutations r ms) h)) = co_db c"
proof -
  let ?m = "Commit_mutations_committed r (cr_cursor res) (cr_results res)" and ?g = "hb_sockets h"
  have same: "hb_sockets h1 = ?g" using authorize_fields[OF access] by simp
  have ids: "ids_ok ?g" using hub by (simp add: hub_ok_def sockets_ok_def)
  have calls: "co_calls c = []"
    using commit_mutations_calls[of "later_clock env" "so_data s" ms None "(hb_co h1)\<lparr>co_calls := []\<rparr>"] commit by simp
  let ?h2 = "h1\<lparr>hb_co := c\<lparr>co_calls := []\<rparr>, hb_sockets := ?g\<rparr>"
  have h: "handle env i (Msg_commit_mutations r ms) h = reply_and_broadcast i ?m (cr_broadcast res) ?h2"
    using s by (simp add: handle_def read_conn can_send_def access with_services_def commit calls same)
  have sent: "hb_sockets (send i ?m ?h2) = snd (send_socket_message i ?m ?g)" by (simp add: send_def on_sockets_def)
  have g': "hb_sockets (handle env i (Msg_commit_mutations r ms) h) = (case cr_broadcast res of
      None \<Rightarrow> snd (send_socket_message i ?m ?g)
    | Some n \<Rightarrow> broadcast_except i (Cursor_advanced n) (snd (send_socket_message i ?m ?g)))"
    by (simp add: h reply_and_broadcast_def Let_def on_sockets_def sent split: option.split)
  have own: "received i ?g (hb_sockets (handle env i (Msg_commit_mutations r ms) h)) [?m]"
    using received_send[OF ids s, of ?m] by (rule received_same) (simp add: g' conn_except split: option.split)
  have other: "received j ?g (hb_sockets (handle env i (Msg_commit_mutations r ms) h))
      (case cr_broadcast res of None \<Rightarrow> [] | Some n \<Rightarrow> [Cursor_advanced n])" if j: "j \<noteq> i" "conn j ?g = [t]" "can_send t" for j t
  proof (cases "cr_broadcast res")
    case None
    then show ?thesis using j ids by (simp add: g' received_def conn_send)
  next
    case (Some n)
    then show ?thesis using j ids by (simp, intro received_step) (simp_all add: g' conn_send conn_except)
  qed
  have "hb_co (handle env i (Msg_commit_mutations r ms) h) = c\<lparr>co_calls := []\<rparr>" by (simp add: h)
  then show ?thesis using own other unfolding Let_def by auto
qed

section \<open>Presence\<close>

text \<open>
  \<open>spreads P g g'\<close>: between the two states only messages were sent, each to a connection for which
  \<open>P\<close> holds with the message.
\<close>

definition spreads :: "(ident \<Rightarrow> server_message \<Rightarrow> bool) \<Rightarrow> sockets \<Rightarrow> sockets \<Rightarrow> bool" where
  "spreads P g g' \<longleftrightarrow> ids_ok g \<and> sessions g' = sessions g \<and>
     list_all2 (\<lambda>s s'. so_id s' = so_id s \<and> (\<exists>ms. so_sent s' = so_sent s @ ms \<and> (\<forall>m \<in> set ms. P (so_id s) m))) g g'"

lemma spreads_ids: "spreads P g g' \<Longrightarrow> ids_ok g'"
proof -
  assume "spreads P g g'"
  then have "ids_ok g" "map fst (sessions g') = map fst (sessions g)" by (simp_all add: spreads_def)
  then show "ids_ok g'" by (simp add: ids_ok_def sessions_def comp_def)
qed

lemma spreads_refl: "ids_ok g \<Longrightarrow> spreads P g g"
  by (simp add: spreads_def list_all2_refl)

lemma spreads_trans: "spreads P g g' \<Longrightarrow> spreads P g' g'' \<Longrightarrow> spreads P g g''"
proof -
  assume a: "spreads P g g'" and b: "spreads P g' g''"
  have "list_all2 (\<lambda>s s'. so_id s' = so_id s \<and> (\<exists>ms. so_sent s' = so_sent s @ ms \<and> (\<forall>m \<in> set ms. P (so_id s) m))) g g''"
    using list_all2_trans[of _ _ "\<lambda>s s'. so_id s' = so_id s \<and> (\<exists>ms. so_sent s' = so_sent s @ ms \<and> (\<forall>m \<in> set ms. P (so_id s) m))" g g' g'']
      a b unfolding spreads_def
    by (smt (verit, best) Un_iff append.assoc list_all2_trans set_append)
  then show "spreads P g g''" using a b by (simp add: spreads_def)
qed

lemma spreads_map:
  assumes "ids_ok g" "\<And>s. s \<in> set g \<Longrightarrow> f s = s \<or> f s = try_send m s \<and> P (so_id s) m"
  shows "spreads P g (map f g)"
proof -
  have f: "so_id (f s) = so_id s \<and> so_data (f s) = so_data s \<and> (\<exists>ms. so_sent (f s) = so_sent s @ ms \<and> (\<forall>m \<in> set ms. P (so_id s) m))"
    if "s \<in> set g" for s
    using assms(2)[OF that] by (auto simp: try_send_def)
  then have "sessions (map f g) = sessions g" by (simp add: sessions_def)
  then show ?thesis using assms(1) f by (simp add: spreads_def list_all2_conv_all_nth)
qed

lemma spreads_send: "ids_ok g \<Longrightarrow> P i m \<Longrightarrow> spreads P g (snd (send_socket_message i m g))"
  unfolding send_socket_message_map by (rule spreads_map[where m = m]) auto

lemma spreads_send_where:
  "ids_ok g \<Longrightarrow> (\<And>s. s \<in> set g \<Longrightarrow> Q s \<Longrightarrow> P (so_id s) m) \<Longrightarrow> spreads P g (send_where Q m g)"
  unfolding send_where_def by (rule spreads_map[where m = m]) auto

lemma hub_fields [simp]:
  "hb_presence (send i m h) = hb_presence h" "hb_presence (on_sockets f h) = hb_presence h"
  "hb_presence (announce_cleared i previous h) = hb_presence h"
  "hb_presence (push_presence_updated p e sel receiver h) = hb_presence h"
  "sessions (hb_sockets (send i m h)) = sessions (hb_sockets h)"
  "sessions (hb_sockets (announce_cleared i previous h)) = sessions (hb_sockets h)"
  "sessions (hb_sockets (push_presence_updated p e sel receiver h)) = sessions (hb_sockets h)"
  by (simp_all add: send_def on_sockets_def announce_cleared_def broadcast_presence_cleared_def
      push_presence_updated_def Let_def split: option.split)

lemma snapshots_fields [simp]:
  "hb_presence (push_snapshots i e h) = hb_presence h"
  "sessions (hb_sockets (push_snapshots i e h)) = sessions (hb_sockets h)"
proof -
  have "hb_presence (fold (\<lambda>y. push_presence_updated (py_presenceId y) (py_entryId y) (py_selection y) (Some i)) ys h) = hb_presence h \<and>
    sessions (hb_sockets (fold (\<lambda>y. push_presence_updated (py_presenceId y) (py_entryId y) (py_selection y) (Some i)) ys h)) = sessions (hb_sockets h)"
    for ys :: "presence_payload list" by (induction ys arbitrary: h) auto
  then show "hb_presence (push_snapshots i e h) = hb_presence h"
    "sessions (hb_sockets (push_snapshots i e h)) = sessions (hb_sockets h)" by (simp_all add: push_snapshots_def)
qed

lemma all_snapshots_fields [simp]:
  "hb_presence (fold (push_snapshots i) es h) = hb_presence h"
  "sessions (hb_sockets (fold (push_snapshots i) es h)) = sessions (hb_sockets h)"
  by (induction es arbitrary: h) auto

text \<open>
  Who may be told what: presence in an entry is only shown to a connection that shares presence and
  watches the entry, or that just announced itself there; never to the person itself; and it is
  what the store holds, under the name of the session behind it.
\<close>

definition may_see :: "ident \<Rightarrow> client_message \<Rightarrow> hub \<Rightarrow> ident \<Rightarrow> server_message \<Rightarrow> bool" where
  "may_see i msg h j m \<longleftrightarrow> (\<forall>p e u n sel. m = Presence_updated p e u n sel \<longrightarrow> p \<noteq> j \<and>
     (\<exists>s. (p, s) \<in> set (sessions (hb_sockets h)) \<and> ss_userId s = u \<and> ss_displayName s = n) \<and>
     (\<exists>t. presence_map (hb_presence h) p = Some (e, sel, t)) \<and>
     (\<exists>s. (j, s) \<in> set (sessions (hb_sockets h)) \<and> ss_wantsPresence s \<and>
        (e \<in> set (ss_presenceWatch s) \<or> j = i \<and> (\<exists>sel'. msg = Msg_presence_update e sel'))))"

lemma may_see_cong:
  "sessions (hb_sockets h) = sessions (hb_sockets h') \<Longrightarrow> hb_presence h = hb_presence h' \<Longrightarrow> may_see i msg h = may_see i msg h'"
  by (simp add: may_see_def fun_eq_iff)

definition tells :: "ident \<Rightarrow> client_message \<Rightarrow> hub \<Rightarrow> hub \<Rightarrow> bool" where
  \<comment> \<open>what is sent between the two states may be seen in the second one\<close>
  "tells i msg h h' \<longleftrightarrow> spreads (may_see i msg h') (hb_sockets h) (hb_sockets h') \<and> hb_presence h' = hb_presence h"

lemma tells_sessions: "tells i msg h h' \<Longrightarrow> sessions (hb_sockets h') = sessions (hb_sockets h) \<and> hb_presence h' = hb_presence h"
  by (simp add: tells_def spreads_def)

lemma tells_trans: "tells i msg h h' \<Longrightarrow> tells i msg h' h'' \<Longrightarrow> tells i msg h h''"
proof -
  assume a: "tells i msg h h'" and b: "tells i msg h' h''"
  have "may_see i msg h' = may_see i msg h''" using tells_sessions[OF b] by (intro may_see_cong) simp_all
  then have "spreads (may_see i msg h'') (hb_sockets h) (hb_sockets h')" using a by (simp add: tells_def)
  then show "tells i msg h h''" using a b spreads_trans unfolding tells_def by metis
qed

lemma tells_refl: "ids_ok (hb_sockets h) \<Longrightarrow> tells i msg h h"
  by (simp add: tells_def spreads_refl)

lemma tells_ids: "tells i msg h h' \<Longrightarrow> ids_ok (hb_sockets h')"
  by (auto simp: tells_def dest: spreads_ids)

lemma may_see_other: "presence_about m = None \<Longrightarrow> may_see i msg h j m"
  by (cases m) (auto simp: may_see_def)

lemma tells_send:
  assumes "ids_ok (hb_sockets h)" "may_see i msg h j m"
  shows "tells i msg h (send j m h)"
  using assms may_see_cong[of "send j m h" h i msg]
  by (simp add: tells_def) (simp add: send_def on_sockets_def spreads_send)

lemma tells_broadcast:
  assumes "ids_ok (hb_sockets h)" "\<And>s. s \<in> set (hb_sockets h) \<Longrightarrow> Q s \<Longrightarrow> may_see i msg h (so_id s) m"
  shows "tells i msg h (on_sockets (send_where Q m) h)"
proof -
  have "may_see i msg (on_sockets (send_where Q m) h) = may_see i msg h"
    by (rule may_see_cong) (simp_all add: on_sockets_def)
  then show ?thesis using assms by (simp add: tells_def) (simp add: on_sockets_def spreads_send_where)
qed

lemma tells_announce_cleared:
  "ids_ok (hb_sockets h) \<Longrightarrow> tells i msg h (announce_cleared j previous h)"
  unfolding announce_cleared_def broadcast_presence_cleared_def broadcast_presence_to_watchers_def
  by (auto intro!: tells_refl tells_broadcast may_see_other split: option.split)

lemma tells_push:
  assumes "ids_ok (hb_sockets h)"
    and "\<And>s. (p, s) \<in> set (sessions (hb_sockets h)) \<Longrightarrow> may_see i msg h j (Presence_updated p e (ss_userId s) (ss_displayName s) sel)"
  shows "tells i msg h (push_presence_updated p e sel (Some j) h)"
  using assms by (auto simp: push_presence_updated_def Let_def intro!: tells_refl tells_send dest: read_session_in split: option.split)

lemma tells_snapshots:
  assumes hub: "hub_ok v h" and i: "(i, session) \<in> set (sessions (hb_sockets h))" "ss_wantsPresence session"
    "e \<in> set (ss_presenceWatch session) \<or> (\<exists>sel. msg = Msg_presence_update e sel)"
  shows "tells i msg h (push_snapshots i e h)"
proof -
  have "tells i msg h (fold (\<lambda>y. push_presence_updated (py_presenceId y) (py_entryId y) (py_selection y) (Some i)) ys h)"
    if "set ys \<subseteq> set (presence_list e (Some i) (hb_presence h))" for ys :: "presence_payload list"
    using that
  proof (induction ys rule: rev_induct)
    case Nil
    then show ?case using hub by (simp add: tells_refl hub_ok_def sockets_ok_def)
  next
    case (snoc y ys)
    let ?h = "fold (\<lambda>y. push_presence_updated (py_presenceId y) (py_entryId y) (py_selection y) (Some i)) ys h"
    have IH: "tells i msg h ?h" using snoc by simp
    have same: "sessions (hb_sockets ?h) = sessions (hb_sockets h)" "hb_presence ?h = hb_presence h"
      using tells_sessions[OF IH] by simp_all
    obtain j s t where y: "y = \<lparr>py_presenceId = j, py_entryId = e, py_selection = s\<rparr>" "j \<noteq> i"
        "presence_map (hb_presence h) j = Some (e, s, t)"
      using snoc.prems set_presence_list[of "hb_presence h" e i] hub by (auto simp: hub_ok_def)
    have "tells i msg ?h (push_presence_updated (py_presenceId y) (py_entryId y) (py_selection y) (Some i) ?h)"
      using tells_ids[OF IH] y i by (intro tells_push) (auto simp: may_see_def same)
    then show ?case using tells_trans[OF IH] by simp
  qed
  then show ?thesis by (simp add: push_snapshots_def)
qed

definition discreet :: "sockets \<Rightarrow> sockets \<Rightarrow> bool" where
  \<comment> \<open>no presence is shown\<close>
  "discreet g g' \<longleftrightarrow> spreads (\<lambda>_ m. presence_about m = None) g g'"

lemma discreet_spreads: "discreet g g' \<Longrightarrow> spreads (may_see i msg h) g g'"
  unfolding discreet_def spreads_def using may_see_other by (auto elim!: list_all2_mono)

lemma discreet_trans: "discreet g g' \<Longrightarrow> discreet g' g'' \<Longrightarrow> discreet g g''"
  unfolding discreet_def by (rule spreads_trans)

lemma discreet_refl: "ids_ok g \<Longrightarrow> discreet g g"
  unfolding discreet_def by (rule spreads_refl)

lemma discreet_send_where: "ids_ok g \<Longrightarrow> presence_about m = None \<Longrightarrow> discreet g (send_where Q m g)"
  unfolding discreet_def by (rule spreads_send_where) simp_all

lemma discreet_send: "ids_ok g \<Longrightarrow> presence_about m = None \<Longrightarrow> discreet g (snd (send_socket_message i m g))"
  unfolding discreet_def by (rule spreads_send)

lemma discreet_close: "ids_ok g \<Longrightarrow> discreet g (close_socket i code reason g)"
  by (simp add: discreet_def spreads_def) (simp add: close_socket_map list_all2_conv_all_nth)

lemma discreet_sends:
  "ids_ok (hb_sockets h) \<Longrightarrow> presence_about m = None \<Longrightarrow> discreet (hb_sockets h) (hb_sockets (send i m h))"
  "ids_ok (hb_sockets h) \<Longrightarrow> presence_about m = None \<Longrightarrow> discreet (hb_sockets h) (hb_sockets (reply_and_broadcast i m b h))"
  "ids_ok (hb_sockets h) \<Longrightarrow> discreet (hb_sockets h) (hb_sockets (announce_cleared i previous h))"
  "ids_ok (hb_sockets h) \<Longrightarrow> discreet (hb_sockets h) (hb_sockets (snd (announce_availability x h)))"
proof -
  assume ids: "ids_ok (hb_sockets h)"
  show send: "presence_about m = None \<Longrightarrow> discreet (hb_sockets h) (hb_sockets (send i m h))" for i m
    using ids by (simp add: send_def on_sockets_def discreet_send)
  show "presence_about m = None \<Longrightarrow> discreet (hb_sockets h) (hb_sockets (reply_and_broadcast i m b h))"
  proof (cases b)
    case None
    then show ?thesis if "presence_about m = None" using send[OF that] by (simp add: reply_and_broadcast_def)
  next
    case (Some n)
    have two: "discreet g (broadcast_except i (Cursor_advanced n) g)" if "ids_ok g" for g :: sockets
      using that by (simp add: broadcast_except_def discreet_send_where)
    show ?thesis if "presence_about m = None"
    proof -
      have one: "discreet (hb_sockets h) (hb_sockets (send i m h))" using that by (rule send)
      then have "ids_ok (hb_sockets (send i m h))" unfolding discreet_def by (rule spreads_ids)
      then show ?thesis using discreet_trans[OF one two] by (simp add: Some reply_and_broadcast_def on_sockets_def Let_def)
    qed
  qed
  show "discreet (hb_sockets h) (hb_sockets (announce_cleared i previous h))"
    using ids by (auto simp: announce_cleared_def broadcast_presence_cleared_def on_sockets_def
        broadcast_presence_to_watchers_def intro!: discreet_refl discreet_send_where split: option.split)
  show "discreet (hb_sockets h) (hb_sockets (snd (announce_availability x h)))"
    using ids by (auto simp: announce_availability_def broadcast_presence_availability_def Let_def intro!: discreet_send_where)
qed

lemma discreet_deliver:
  assumes "ids_ok g" "\<forall>k \<in> set ks. \<exists>used lim. k = Broadcast_storage_status used lim"
  shows "discreet g (fold deliver ks g)"
  using assms
proof (induction ks arbitrary: g)
  case (Cons k ks)
  then obtain used lim where k: "k = Broadcast_storage_status used lim" by auto
  have "discreet g (deliver k g)" using Cons.prems(1) by (simp add: k broadcast_storage_status_def discreet_send_where)
  moreover have "discreet (deliver k g) (fold deliver ks (deliver k g))"
    using Cons by (simp add: k)
  ultimately show ?case using discreet_trans by simp
qed (simp add: discreet_refl)

lemma discreet_services:
  assumes "ids_ok (hb_sockets h)" "\<And>c. quiet c (snd (op c))"
  shows "discreet (hb_sockets h) (hb_sockets (snd (with_services op h)))"
proof -
  obtain r c where op: "op ((hb_co h)\<lparr>co_calls := []\<rparr>) = (r, c)" by fastforce
  have "\<forall>k \<in> set (co_calls c). \<exists>used lim. k = Broadcast_storage_status used lim"
    using assms(2)[of "(hb_co h)\<lparr>co_calls := []\<rparr>"] by (auto simp: quiet_def op)
  then show ?thesis using discreet_deliver[OF assms(1)] by (simp add: with_services_def op)
qed

lemma discreet_service:
  assumes ids: "ids_ok (hb_sockets h)" and quiet: "\<And>c. quiet c (snd (op c))"
    and "\<And>e h1. ids_ok (hb_sockets h1) \<Longrightarrow> discreet (hb_sockets h1) (hb_sockets (f e h1))"
    and "\<And>x h1. ids_ok (hb_sockets h1) \<Longrightarrow> discreet (hb_sockets h1) (hb_sockets (k x h1))"
  shows "discreet (hb_sockets h) (hb_sockets (case with_services op h of (Inl e, h1) \<Rightarrow> f e h1 | (Inr x, h1) \<Rightarrow> k x h1))"
proof -
  obtain r h1 where run: "with_services op h = (r, h1)" by fastforce
  then have one: "discreet (hb_sockets h) (hb_sockets h1)" using discreet_services[OF ids quiet] by (metis snd_conv)
  then have "ids_ok (hb_sockets h1)" unfolding discreet_def by (rule spreads_ids)
  then show ?thesis using assms(3,4) discreet_trans[OF one] by (cases r) (simp_all add: run)
qed

lemma presence_about_request_failed: "presence_about (request_failed kind r e c t) = None"
  by (simp add: request_failed_def websocket_request_error_def)

lemma discreet_hello: "ids_ok (hb_sockets h) \<Longrightarrow> discreet (hb_sockets h) (hb_sockets (say_hello env i session r cursor h))"
proof -
  have send: "ids_ok (hb_sockets h) \<Longrightarrow> presence_about m = None \<Longrightarrow> discreet (hb_sockets h) (hb_sockets (send i m (h\<lparr>hb_co := c\<rparr>)))" for m c
    using discreet_sends(1)[of "h\<lparr>hb_co := c\<rparr>" m i] by simp
  assume "ids_ok (hb_sockets h)"
  then show ?thesis
    by (auto simp: say_hello_def Let_def intro!: send discreet_sends split: sum.split prod.split)
qed

section \<open>What a message tells\<close>

definition reveals :: "ident \<Rightarrow> client_message \<Rightarrow> hub \<Rightarrow> hub \<Rightarrow> bool" where
  \<comment> \<open>a session may change first, then only messages are sent that their receivers may see\<close>
  "reveals i msg h h' \<longleftrightarrow> (\<exists>g. map (\<lambda>s. (so_id s, so_sent s)) g = map (\<lambda>s. (so_id s, so_sent s)) (hb_sockets h) \<and>
     spreads (may_see i msg h') g (hb_sockets h'))"

lemma reveals_discreet: "discreet (hb_sockets h) (hb_sockets h') \<Longrightarrow> reveals i msg h h'"
  unfolding reveals_def using discreet_spreads by blast

lemma attach_sent:
  "ids_ok (hb_sockets h) \<Longrightarrow> map (\<lambda>s. (so_id s, so_sent s)) (hb_sockets (attach j session h)) = map (\<lambda>s. (so_id s, so_sent s)) (hb_sockets h)"
  by (simp add: attach_def on_sockets_def attach_socket_session_map)

lemma reveals_attach:
  "ids_ok (hb_sockets h) \<Longrightarrow> spreads (may_see i msg h') (hb_sockets (attach j session h)) (hb_sockets h') \<Longrightarrow> reveals i msg h h'"
  unfolding reveals_def using attach_sent by blast

lemma ids_ok_attach: "ids_ok (hb_sockets h) \<Longrightarrow> ids_ok (hb_sockets (attach j session h))"
  by (simp add: attach_def on_sockets_def)

lemma hb_sockets_presence [simp]: "hb_sockets (attach j session (h\<lparr>hb_presence := p\<rparr>)) = hb_sockets (attach j session h)"
  by (simp add: attach_def on_sockets_def)

lemma tells_all_snapshots:
  assumes hub: "hub_ok v h" and i: "(i, session) \<in> set (sessions (hb_sockets h))" "ss_wantsPresence session"
    and es: "set es \<subseteq> set (ss_presenceWatch session)"
  shows "tells i msg h (fold (push_snapshots i) es h)"
  using es
proof (induction es rule: rev_induct)
  case Nil
  then show ?case using hub by (simp add: tells_refl hub_ok_def sockets_ok_def)
next
  case (snoc e es)
  have IH: "tells i msg h (fold (push_snapshots i) es h)" using snoc by simp
  have "tells i msg (fold (push_snapshots i) es h) (push_snapshots i e (fold (push_snapshots i) es h))"
    using snoc.prems i hub by (intro tells_snapshots[where session = session and v = v]) auto
  then show ?case using tells_trans[OF IH] by simp
qed

lemma reveals_watch:
  assumes hub: "hub_ok v h" and i: "(i, session) \<in> set (sessions (hb_sockets h))"
  shows "reveals i msg h (watch_presence i session entryIds h)"
proof -
  let ?newly = "filter (\<lambda>e. e \<notin> set (ss_presenceWatch session)) (js_unique entryIds)"
  obtain session' p previous where ok1: "hub_ok v (attach i session' (h\<lparr>hb_presence := p\<rparr>))"
    and s': "ss_wantsPresence session'" "ss_presenceWatch session' = js_unique entryIds"
    and run: "watch_presence i session entryIds h =
      (case announce_availability None (announce_cleared i previous (attach i session' (h\<lparr>hb_presence := p\<rparr>))) of
         (enabled, h3) \<Rightarrow> if \<not> enabled then h3 else fold (push_snapshots i) ?newly h3)"
    by (rule watch_presence_shape[OF hub i, of entryIds])
  let ?h1 = "attach i session' (h\<lparr>hb_presence := p\<rparr>)" and ?h2 = "announce_cleared i previous (attach i session' (h\<lparr>hb_presence := p\<rparr>))"
  obtain enabled h3 where h3: "announce_availability None ?h2 = (enabled, h3)" by fastforce
  have ids: "ids_ok (hb_sockets h)" "ids_ok (hb_sockets ?h1)" using hub ok1 by (simp_all add: hub_ok_def sockets_ok_def)
  have two: "discreet (hb_sockets ?h1) (hb_sockets ?h2)" using ids(2) by (rule discreet_sends)
  then have "ids_ok (hb_sockets ?h2)" unfolding discreet_def by (rule spreads_ids)
  then have three: "discreet (hb_sockets ?h1) (hb_sockets h3)"
    using discreet_trans[OF two] discreet_sends(4)[of ?h2 None] by (simp add: h3)
  have ok3: "hub_ok v h3" using hub_ok_availability[OF hub_ok_announce_cleared[OF ok1], of None] h3 by (metis snd_conv)
  show ?thesis
  proof (cases enabled)
    case False
    have "spreads (may_see i msg h3) (hb_sockets ?h1) (hb_sockets h3)" using three by (rule discreet_spreads)
    then show ?thesis using False ids(1) by (simp add: run h3 reveals_attach)
  next
    case True
    have "(i, session') \<in> set (sessions (hb_sockets ?h1))"
      using i sessions_attach[OF hub_ok_sockets[OF hub], of i session'] by (force simp: attach_def on_sockets_def)
    then have "(i, session') \<in> set (sessions (hb_sockets h3))"
      using three by (simp add: discreet_def spreads_def)
    then have told: "tells i msg h3 (fold (push_snapshots i) ?newly h3)"
      using ok3 s' by (intro tells_all_snapshots) auto
    then have "spreads (may_see i msg (fold (push_snapshots i) ?newly h3)) (hb_sockets ?h1) (hb_sockets (fold (push_snapshots i) ?newly h3))"
      using discreet_spreads[OF three] unfolding tells_def by (blast intro: spreads_trans)
    then show ?thesis using True ids(1) by (simp add: run h3 reveals_attach)
  qed
qed

lemma reveals_attach_discreet:
  assumes "ids_ok (hb_sockets h)" "\<And>g. ids_ok (hb_sockets g) \<Longrightarrow> discreet (hb_sockets g) (hb_sockets (f g))"
  shows "reveals i msg h (f (attach j session (h\<lparr>hb_presence := p\<rparr>)))"
proof -
  have "discreet (hb_sockets (attach j session (h\<lparr>hb_presence := p\<rparr>))) (hb_sockets (f (attach j session (h\<lparr>hb_presence := p\<rparr>))))"
    using assms by (intro assms(2)) (simp add: ids_ok_attach)
  then show ?thesis using assms(1) by (intro reveals_attach[where j = j and session = session]) (simp_all add: discreet_spreads)
qed

lemma reveals_unwatch: "ids_ok (hb_sockets h) \<Longrightarrow> reveals i msg h (unwatch_presence i session h)"
proof -
  assume ids: "ids_ok (hb_sockets h)"
  have "discreet (hb_sockets g) (hb_sockets (snd (announce_availability None (announce_cleared i previous g))))"
    if "ids_ok (hb_sockets g)" for g previous
    using that discreet_sends(3)[OF that] discreet_trans discreet_sends(4) spreads_ids unfolding discreet_def by blast
  then show ?thesis
    using reveals_attach_discreet[OF ids, of "\<lambda>g. snd (announce_availability None (announce_cleared i previous g))" for previous]
    by (simp add: unwatch_presence_def clear_presence_eq Let_def)
qed

lemma reveals_drop: "ids_ok (hb_sockets h) \<Longrightarrow> reveals i msg h (drop_presence i session h)"
  using reveals_attach_discreet[of h "announce_cleared i previous" for previous] discreet_sends(3)
  by (auto simp: drop_presence_def clear_presence_eq intro: reveals_discreet discreet_refl)

lemma tells_push_watchers:
  assumes hub: "hub_ok v h" and m: "msg = Msg_presence_update e sel" and stored: "presence_map (hb_presence h) i = Some (e, sel, t)"
  shows "tells i msg h (push_presence_updated i e sel None h)"
proof (cases "read_socket_session i (hb_sockets h)")
  case None
  then show ?thesis using hub by (simp add: push_presence_updated_def tells_refl hub_ok_def sockets_ok_def)
next
  case (Some session)
  have "may_see i msg h (so_id s) (Presence_updated i e (ss_userId session) (ss_displayName session) sel)"
    if "s \<in> set (hb_sockets h)" "so_id s \<noteq> i \<and> ss_wantsPresence (so_data s) \<and> e \<in> set (ss_presenceWatch (so_data s))" for s
    using that stored read_session_in[OF Some] unfolding may_see_def sessions_def by force
  then show ?thesis using hub
    by (auto simp: push_presence_updated_def Some broadcast_presence_to_watchers_def hub_ok_def sockets_ok_def
        intro!: tells_broadcast)
qed

lemma reveals_stored:
  assumes hub: "hub_ok v h" and i: "(i, session) \<in> set (sessions (hb_sockets h))" "ss_wantsPresence session"
    and stored: "presence_try_store i e sel now (hb_presence h) = (Presence_stored, p)"
  defines "h1 \<equiv> attach i (session\<lparr>ss_presenceEntryId := Some e\<rparr>) (h\<lparr>hb_presence := p\<rparr>)"
  assumes h2: "h2 = (if moved then announce_cleared i previous h1 else h1)"
    and h4: "h4 = (if fresh then push_snapshots i e (push_presence_updated i e sel None h2) else push_presence_updated i e sel None h2)"
  shows "reveals i (Msg_presence_update e sel) h h4"
proof -
  let ?s = "session\<lparr>ss_presenceEntryId := Some e\<rparr>" and ?m = "Msg_presence_update e sel"
  let ?h3 = "push_presence_updated i e sel None h2"
  have p: "presence_ok p" "presence_map p = (presence_map (hb_presence h))(i \<mapsto> (e, sel, now))"
    using hub presence_map_try_store[OF _ stored] by (auto simp: hub_ok_def)
  have ok1: "hub_ok v h1" unfolding h1_def using hub i p by (intro hub_ok_attach[where old = session]) auto
  have in1: "(i, ?s) \<in> set (sessions (hb_sockets h1))"
    using i(1) sessions_attach[OF hub_ok_sockets[OF hub], of i ?s] by (force simp: h1_def attach_def on_sockets_def)
  have ids: "ids_ok (hb_sockets h1)" using ok1 by (simp add: hub_ok_def sockets_ok_def)
  have ok2: "hub_ok v h2" using ok1 by (simp add: h2 hub_ok_announce_cleared)
  have two: "tells i ?m h1 h2" using ids by (simp add: h2 tells_refl tells_announce_cleared)
  have "presence_map (hb_presence h1) i = Some (e, sel, now)" using p by (simp add: h1_def)
  then have stored2: "presence_map (hb_presence h2) i = Some (e, sel, now)" using tells_sessions[OF two] by simp
  have three: "tells i ?m h2 ?h3" using ok2 refl stored2 by (rule tells_push_watchers)
  have ok3: "hub_ok v ?h3" using ok2 by (rule hub_ok_push)
  have "(i, ?s) \<in> set (sessions (hb_sockets ?h3))" using in1 tells_sessions[OF two] tells_sessions[OF three] by simp
  then have "tells i ?m ?h3 (push_snapshots i e ?h3)" using ok3 i(2) by (intro tells_snapshots[where session = ?s]) auto
  then have "tells i ?m h1 h4"
    using tells_trans[OF tells_trans[OF two three]] tells_trans[OF two three] by (simp add: h4)
  then show ?thesis using hub
    by (intro reveals_attach[where j = i and session = ?s]) (simp_all add: tells_def h1_def hub_ok_def sockets_ok_def)
qed

lemma reveals_same: "ids_ok (hb_sockets h) \<Longrightarrow> hb_sockets h' = hb_sockets h \<Longrightarrow> reveals i msg h h'"
  by (intro reveals_discreet) (simp add: discreet_refl)

lemma reveals_update:
  assumes hub: "hub_ok v h" and i: "(i, session) \<in> set (sessions (hb_sockets h))"
  shows "reveals i (Msg_presence_update e sel) h (update_presence env i session e sel h)"
proof (cases "presence_try_store i e sel (ev_clk env 1) (hb_presence h)")
  case (Pair decision p)
  have same: "reveals i (Msg_presence_update e sel) h h" using hub by (simp add: reveals_same hub_ok_def sockets_ok_def)
  show ?thesis
  proof (cases "ss_wantsPresence session \<and> decision = Presence_stored")
    case True
    then show ?thesis using Pair
      by (intro reveals_stored[OF hub i _ _ refl refl, where p = p and now = "ev_clk env 1" and previous = "presence_get i (hb_presence h)"
          and moved = "case presence_get i (hb_presence h) of None \<Rightarrow> False | Some y \<Rightarrow> py_entryId y \<noteq> e"
          and fresh = "presence_get i (hb_presence h) = None \<or> (case presence_get i (hb_presence h) of None \<Rightarrow> False | Some y \<Rightarrow> py_entryId y \<noteq> e)",
          THEN back_subst[where P = "reveals i (Msg_presence_update e sel) h"]])
        (simp_all add: update_presence_def Let_def)
  next
    case False
    then show ?thesis using same Pair by (cases decision) (auto simp: update_presence_def Let_def)
  qed
qed

lemma reveals_respond:
  assumes hub: "hub_ok v h" and i: "(i, session) \<in> set (sessions (hb_sockets h))"
  shows "reveals i m h (respond env i session m h)"
proof -
  have ids: "ids_ok (hb_sockets h)" using hub by (simp add: hub_ok_def sockets_ok_def)
  note quiet = commit_mutations_quiet restore_entry_version_quiet restore_entry_versions_quiet purge_deleted_entries_quiet
  show ?thesis
  proof (cases m)
    case (Msg_hello r cursor)
    then show ?thesis using discreet_hello[OF ids] by (simp add: reveals_discreet)
  next
    case (Msg_commit_mutations r ms)
    show ?thesis unfolding Msg_commit_mutations respond.simps
      by (rule reveals_discreet[OF discreet_service[OF ids quiet(1)]]) (simp_all add: discreet_sends)
  next
    case (Msg_restore_entry_version r x)
    show ?thesis unfolding Msg_restore_entry_version respond.simps
      by (rule reveals_discreet[OF discreet_service[OF ids quiet(2)]])
         (simp_all add: discreet_sends presence_about_request_failed split: prod.split)
  next
    case (Msg_restore_entry_versions r xs)
    show ?thesis unfolding Msg_restore_entry_versions respond.simps
      by (rule reveals_discreet[OF discreet_service[OF ids quiet(3)]])
         (simp_all add: discreet_sends presence_about_request_failed split: prod.split)
  next
    case (Msg_purge_deleted_entries r es)
    show ?thesis unfolding Msg_purge_deleted_entries respond.simps
      by (rule reveals_discreet[OF discreet_service[OF ids quiet(4)]])
         (simp_all add: discreet_sends presence_about_request_failed split: prod.split)
  next
    case (Msg_detach_local_vault r)
    let ?op = "\<lambda>c. ((), detach_local_vault (later_clock env) (ss_userId session) (ss_localVaultId session) c)"
    have one: "discreet (hb_sockets h) (hb_sockets (snd (with_services ?op h)))"
      by (rule discreet_services[OF ids]) (simp add: detach_quiet)
    then have "ids_ok (hb_sockets (snd (with_services ?op h)))" unfolding discreet_def by (rule spreads_ids)
    then show ?thesis using discreet_trans[OF one] by (simp add: Msg_detach_local_vault reveals_discreet discreet_sends)
  next
    case Msg_watch_storage_status
    show ?thesis unfolding Msg_watch_storage_status respond.simps Let_def
      using reveals_attach_discreet[OF ids, where p = "hb_presence h"] discreet_sends(1)
      by (simp split: prod.split flip: attach_same_presence)
  next
    case Msg_unwatch_storage_status
    show ?thesis unfolding Msg_unwatch_storage_status respond.simps
      using reveals_attach_discreet[OF ids discreet_refl, where p = "hb_presence h"] by (simp flip: attach_same_presence)
  next
    case (Msg_presence_update e sel)
    then show ?thesis using reveals_update[OF hub i] by simp
  qed (use ids hub i in \<open>simp_all add: reveals_watch reveals_unwatch reveals_drop reveals_discreet discreet_sends
      presence_about_request_failed split: sum.split prod.split\<close>)
qed

lemma discreet_close_after_send:
  assumes "ids_ok (hb_sockets h)" "presence_about m = None"
  shows "discreet (hb_sockets h) (hb_sockets (on_sockets (close_socket i code reason) (send i m h)))"
proof -
  have one: "discreet (hb_sockets h) (hb_sockets (send i m h))" using assms by (rule discreet_sends)
  then have "ids_ok (hb_sockets (send i m h))" unfolding discreet_def by (rule spreads_ids)
  then have "discreet (hb_sockets (send i m h)) (close_socket i code reason (hb_sockets (send i m h)))" by (rule discreet_close)
  then show ?thesis using discreet_trans[OF one] by (simp add: on_sockets_def)
qed

lemma reveals_handle:
  assumes hub: "hub_ok v h"
  shows "reveals i m h (handle env i m h)"
proof (cases "read_socket_session i (hb_sockets h)")
  case None
  have "ids_ok (hb_sockets h)" using hub by (simp add: hub_ok_def sockets_ok_def)
  then show ?thesis by (simp add: handle_def None reveals_discreet discreet_close_after_send)
next
  case (Some session)
  obtain r h1 where auth: "authorize env session h = (r, h1)" by fastforce
  have same: "hb_sockets h1 = hb_sockets h" "hb_presence h1 = hb_presence h" using authorize_fields[OF auth] by simp_all
  have hub1: "hub_ok v h1" using hub by (simp add: hub_ok_def same)
  have "reveals i m h1 (handle env i m h)"
  proof (cases r)
    case (Inl e)
    have "ids_ok (hb_sockets h1)" using hub1 by (simp add: hub_ok_def sockets_ok_def)
    then have "reveals i m h1 (refuse i e h1)"
      by (cases e) (simp add: refuse_def Let_def reveals_discreet discreet_close_after_send)
    then show ?thesis by (simp add: handle_def Some auth Inl)
  next
    case (Inr u)
    have "reveals i m h1 (respond env i session m h1)"
      using hub1 read_session_in[OF Some] by (intro reveals_respond) (simp_all add: same)
    then show ?thesis by (simp add: handle_def Some auth Inr)
  qed
  then show ?thesis by (simp add: reveals_def same)
qed

text \<open>
  C7. Presence stays with the watchers. Whatever a client sends and whatever its session is
  allowed, the sockets stay the same and every presence that the message makes the server show to
  a connection is about an entry which that connection, sharing presence itself, watches, or, if it
  is the sender, in which it has just announced itself; it is never about the connection itself;
  it is what the presence store holds after the message; and the user and the name on it are those
  of the session behind the presence.
\<close>

theorem presence_stays_with_watchers:
  assumes "hub_ok v h"
  shows "let h' = handle env i m h in
    list_all2 (\<lambda>s s'. so_id s' = so_id s \<and>
      (\<exists>ms. so_sent s' = so_sent s @ ms \<and> (\<forall>x \<in> set ms. may_see i m h' (so_id s) x))) (hb_sockets h) (hb_sockets h')"
proof -
  obtain g where g: "map (\<lambda>s. (so_id s, so_sent s)) g = map (\<lambda>s. (so_id s, so_sent s)) (hb_sockets h)"
    "spreads (may_see i m (handle env i m h)) g (hb_sockets (handle env i m h))"
    using reveals_handle[OF assms, of i m env] by (auto simp: reveals_def)
  have l: "length g = length (hb_sockets h)" using g(1) by (rule map_eq_imp_length_eq)
  have "so_id (g ! k) = so_id (hb_sockets h ! k) \<and> so_sent (g ! k) = so_sent (hb_sockets h ! k)" if "k < length g" for k
    using that arg_cong[OF g(1), of "\<lambda>xs. xs ! k"] l by simp
  then show ?thesis using g(2) l by (simp add: Let_def spreads_def list_all2_conv_all_nth)
qed

section \<open>Refused messages\<close>

text \<open>
  C10. Losing the access is final for the connection. When the access check refuses the session, the
  message is not executed: the data of the vault stays as it is, up to expired access revocations
  that the check drops, no presence changes and no other connection hears of it; the sender is
  sent one session error and is closed, with the code that tells a revocation from a refusal that
  may pass.
\<close>

theorem unauthorized_message_is_refused:
  assumes hub: "hub_ok v h" and s: "conn i (hb_sockets h) = [s]" "can_send s"
    and refused: "authorize env (so_data s) h = (Inl (Sharing_error status code msg), h1)"
  shows "let h' = handle env i m h in
    (\<exists>code' reason. conn i (hb_sockets h') =
       [s\<lparr>so_sent := so_sent s @ [Session_error code' msg], so_ready := Closing,
          so_closed := Some (if code = ''vault_access_denied'' then 4403 else 1013, reason)\<rparr>]) \<and>
    (\<forall>j. j \<noteq> i \<longrightarrow> conn j (hb_sockets h') = conn j (hb_sockets h)) \<and>
    read_socket_session i (hb_sockets h') = None \<and> hb_presence h' = hb_presence h \<and>
    (\<exists>d. hb_co h' = (hb_co h)\<lparr>co_db := d\<rparr> \<and> (d = co_db (hb_co h) \<or> d = prune_revocations (ev_clk env 0) (co_db (hb_co h))))"
proof -
  define m' where "m' = Session_error (if code = ''sync_paused'' then ''sync_paused'' else if code = ''sharing_suspended'' then ''sharing_suspended''
      else if code = ''vault_access_denied'' then ''unauthorized'' else ''access_unavailable'') msg"
  define k where "k = (if code = ''vault_access_denied'' then 4403 else 1013 :: int)"
  define reason where "reason = (if code = ''sync_paused'' then ''sync paused for vault repair'' else if code = ''sharing_suspended'' then ''shared sync paused''
               else if code = ''vault_access_denied'' then ''vault access denied'' else ''vault access temporarily unavailable'')"
  note same = authorize_fields[OF refused]
  have ids: "ids_ok (hb_sockets h)" using hub by (simp add: hub_ok_def sockets_ok_def)
  have read: "read_socket_session i (hb_sockets h) = Some (so_data s)" using s by (simp add: read_conn can_send_def)
  have h': "handle env i m h = on_sockets (close_socket i k reason) (send i m' h1)"
    by (simp add: handle_def read refused refuse_def Let_def m'_def k_def reason_def)
  have sent: "hb_sockets (send i m' h1) = snd (send_socket_message i m' (hb_sockets h))" by (simp add: send_def on_sockets_def same)
  have conns: "conn j (hb_sockets (handle env i m h)) =
      (if j = i then map (close_native k reason) (map (try_send m') (conn i (hb_sockets h))) else conn j (hb_sockets h))" for j
    using ids by (simp add: h' on_sockets_def sent conn_close conn_send)
  have mine: "conn i (hb_sockets (handle env i m h)) =
      [s\<lparr>so_sent := so_sent s @ [m'], so_ready := Closing, so_closed := Some (k, reason)\<rparr>]"
    using s by (simp add: conns close_native_def try_send_def can_send_def)
  then have closed: "read_socket_session i (hb_sockets (handle env i m h)) = None" by (rule read_conn_none) simp
  have pr: "hb_presence (handle env i m h) = hb_presence h" by (simp add: h' same)
  have co: "hb_co (handle env i m h) = hb_co h1" by (simp add: h' on_sockets_def send_def)
  have "\<exists>code' reason. conn i (hb_sockets (handle env i m h)) =
      [s\<lparr>so_sent := so_sent s @ [Session_error code' msg], so_ready := Closing, so_closed := Some (k, reason)\<rparr>]"
    unfolding mine m'_def by (intro exI) (rule refl)
  moreover have "\<forall>j. j \<noteq> i \<longrightarrow> conn j (hb_sockets (handle env i m h)) = conn j (hb_sockets h)" by (simp add: conns)
  ultimately show ?thesis
    unfolding Let_def k_def[symmetric] co using closed pr authorize_db[OF refused] by (intro conjI)
qed

section \<open>An instance\<close>

definition example_hub :: hub where
  "example_hub = (snd (fold (hub_step ''v'') example_hub_events (10, idle_hub)))\<lparr>hb_co := example_vault\<rparr>"

definition example_peer :: "ident \<Rightarrow> session socket" where
  "example_peer i = hd (conn i (hb_sockets example_hub))"

lemma example_hub_ok: "hub_ok ''v'' example_hub"
proof -
  have "admissible (hub_step_ok ''v'') (hub_step ''v'') example_hub_events (10, idle_hub)"
    by (rule admissible_at_example_time, simp add: example_hub_events_def, code_simp)
  then have "hub_inv ''v'' (fold (hub_step ''v'') example_hub_events (10, idle_hub))"
    using idle_hub_inv by (rule hub.run_inv)
  then show ?thesis by (auto simp: hub_inv_def example_hub_def)
qed

lemma example_peers:
  "length (conn ''b'' (hb_sockets example_hub)) = 1" "length (conn ''c'' (hb_sockets example_hub)) = 1"
  "can_send (example_peer ''b'')" "can_send (example_peer ''c'')"
  "fst (authorize example_env (so_data (example_peer ''b'')) example_hub) = Inr ()"
  by code_simp+

lemma example_conns: "conn ''b'' (hb_sockets example_hub) = [example_peer ''b'']" "conn ''c'' (hb_sockets example_hub) = [example_peer ''c'']"
  using example_peers(1,2) by (auto simp: example_peer_def length_Suc_conv)

theorem requests_are_answered_witness:
  "\<exists>ms a. received ''b'' (hb_sockets example_hub) (hb_sockets (handle example_env ''b'' (Msg_heartbeat ''r'') example_hub)) (ms @ [a]) \<and>
     answers a = Some ''r''"
  using requests_are_answered[OF example_hub_ok example_conns(1) example_peers(3,5), of "Msg_heartbeat ''r''" "''r''"] by auto

theorem commit_is_announced_witness:
  "received ''c'' (hb_sockets example_hub)
     (hb_sockets (handle example_env ''b'' (Msg_commit_mutations ''r'' [example_mutation]) example_hub)) [Cursor_advanced 2]"
proof -
  obtain h1 where access: "authorize example_env (so_data (example_peer ''b'')) example_hub = (Inr (), h1)"
    using example_peers(5) by (metis prod.collapse)
  have h1: "h1 = snd (authorize example_env (so_data (example_peer ''b'')) example_hub)" by (simp add: access)
  let ?run = "commit_mutations (later_clock example_env) (so_data (example_peer ''b'')) [example_mutation] None ((hb_co h1)\<lparr>co_calls := []\<rparr>)"
  have "fst ?run = Inr \<lparr>cr_cursor = 2, cr_results = [Accepted ''m2'' 2 ''e'' 2], cr_broadcast = Some 2\<rparr>"
    unfolding h1 by code_simp
  then have run: "?run = (Inr \<lparr>cr_cursor = 2, cr_results = [Accepted ''m2'' 2 ''e'' 2], cr_broadcast = Some 2\<rparr>, snd ?run)"
    by (metis prod.collapse)
  show ?thesis
    using commit_is_announced[OF example_hub_ok example_conns(1) example_peers(3) access run, of "''r''"] example_conns(2) example_peers(4)
    by (simp add: Let_def)
qed

theorem presence_stays_with_watchers_witness:
  "(let h' = handle example_env ''c'' (Msg_presence_update ''e'' example_selection) example_hub in
     list_all2 (\<lambda>s s'. so_id s' = so_id s) (hb_sockets example_hub) (hb_sockets h')) \<and>
   map (\<lambda>s. (so_id s, length (so_sent s))) (hb_sockets (handle example_env ''c'' (Msg_presence_update ''e'' example_selection) example_hub))
     = [(''a'', 1), (''b'', 3), (''c'', 3)]"
proof
  show "let h' = handle example_env ''c'' (Msg_presence_update ''e'' example_selection) example_hub in
     list_all2 (\<lambda>s s'. so_id s' = so_id s) (hb_sockets example_hub) (hb_sockets h')"
    using presence_stays_with_watchers[OF example_hub_ok, where i = "''c''" and env = example_env and m = "Msg_presence_update ''e'' example_selection"]
    unfolding Let_def by (rule list_all2_mono) simp
  show "map (\<lambda>s. (so_id s, length (so_sent s))) (hb_sockets (handle example_env ''c'' (Msg_presence_update ''e'' example_selection) example_hub))
     = [(''a'', 1), (''b'', 3), (''c'', 3)]"
    by code_simp
qed

definition example_revoked :: hub where
  \<comment> \<open>the sessions of the user with an access version below 3 are revoked\<close>
  "example_revoked = example_hub\<lparr>hb_access := \<lparr>ac_cache = Some [\<lparr>rv_key = user_revocation_key ''u'',
     rv_minimumVersion = Some 3, rv_expiresAt = 1000\<rparr>], ac_nextExpiry = Some 1000\<rparr>\<rparr>"

theorem unauthorized_message_is_refused_witness:
  "read_socket_session ''b'' (hb_sockets (handle example_env ''b'' Msg_presence_clear example_revoked)) = None"
proof -
  have hub: "hub_ok ''v'' example_revoked" using example_hub_ok by (simp add: example_revoked_def)
  have peer: "conn ''b'' (hb_sockets example_revoked) = [example_peer ''b'']" using example_conns(1) by (simp add: example_revoked_def)
  have "case fst (authorize example_env (so_data (example_peer ''b'')) example_revoked) of Inl _ \<Rightarrow> True | Inr _ \<Rightarrow> False"
    by code_simp
  then obtain e h1 where "authorize example_env (so_data (example_peer ''b'')) example_revoked = (Inl e, h1)"
    by (cases "authorize example_env (so_data (example_peer ''b'')) example_revoked") (auto split: sum.splits)
  then obtain status code msg where "authorize example_env (so_data (example_peer ''b'')) example_revoked = (Inl (Sharing_error status code msg), h1)"
    by (cases e) auto
  from unauthorized_message_is_refused[OF hub peer example_peers(3) this, of Msg_presence_clear] show ?thesis
    by (simp add: Let_def)
qed

end
