(* ===== verification/Durable_Gateway.thy ===== *)
theory Durable_Gateway
  imports Socket_Gateway Sync_Token
begin

type_synonym connection_ids = "ident \<rightharpoonup> ident" \<comment> \<open>the \<open>WeakMap\<close>\<close>

section \<open>Attachments\<close>

definition attachment_of :: "session \<Rightarrow> ident \<Rightarrow> json" where
  "attachment_of s connectionId = JObject
     ((case ss_accessVersion s of None \<Rightarrow> [] | Some n \<Rightarrow> [(''accessVersion'', JInt n)]) @
      [(''userId'', JString (ss_userId s)), (''localVaultId'', JString (ss_localVaultId s)),
       (''vaultId'', JString (ss_vaultId s)), (''displayName'', JString (ss_displayName s)),
       (''wantsStorageStatus'', JBool (ss_wantsStorageStatus s)), (''wantsPresence'', JBool (ss_wantsPresence s)),
       (''presenceEntryId'', case ss_presenceEntryId s of None \<Rightarrow> JNull | Some e \<Rightarrow> JString e),
       (''presenceWatchEntryIds'', JArray (map JString (ss_presenceWatch s))),
       (''connectionId'', JString connectionId)])"

definition watched_entries :: "json option \<Rightarrow> ident list" where
  "watched_entries v = (case v of
     Some (JArray xs) \<Rightarrow> filter (\<lambda>e. length (js_trim e) > 0) (List.map_filter (\<lambda>x. as_string (Some x)) xs)
   | _ \<Rightarrow> [])"

definition read_attachment :: "json \<Rightarrow> ident \<Rightarrow> session option" where
  \<comment> \<open>\<open>readSocketSessionFromSocket\<close>\<close>
  "read_attachment v connectionId =
     (if \<not> is_object v \<or> (property ''connectionId'' v \<noteq> None \<and> property ''connectionId'' v \<noteq> Some (JString connectionId)) then None
      else case (as_string (property ''userId'' v), as_string (property ''localVaultId'' v), as_string (property ''vaultId'' v)) of
        (Some userId, Some localVaultId, Some vaultId) \<Rightarrow>
          map_option (\<lambda>version.
              \<lparr>ss_accessVersion = version, ss_userId = userId, ss_localVaultId = localVaultId, ss_vaultId = vaultId,
               ss_displayName = (case as_string (property ''displayName'' v) of None \<Rightarrow> [] | Some n \<Rightarrow> n),
               ss_wantsStorageStatus = (property ''wantsStorageStatus'' v = Some (JBool True)),
               ss_wantsPresence = (property ''wantsPresence'' v = Some (JBool True)),
               ss_presenceEntryId = as_string (property ''presenceEntryId'' v),
               ss_presenceWatch = watched_entries (property ''presenceWatchEntryIds'' v)\<rparr>)
            (case property ''accessVersion'' v of
               None \<Rightarrow> Some None
             | Some (JInt n) \<Rightarrow> if safe_integer n \<and> 1 \<le> n then Some (Some n) else None
             | _ \<Rightarrow> None)
      | _ \<Rightarrow> None)"

section \<open>Connection ids\<close>

definition connection_id_for :: "ident \<Rightarrow> json socket \<Rightarrow> connection_ids \<Rightarrow> ident \<times> connection_ids" where
  \<comment> \<open>given a random id\<close>
  "connection_id_for fresh s ids =
     (let remembered = (case ids (so_id s) of None \<Rightarrow> [] | Some i \<Rightarrow> i)
      in if remembered \<noteq> [] then (remembered, ids)
         else (case as_string (property ''connectionId'' (so_data s)) of
           Some i \<Rightarrow> (i, ids(so_id s \<mapsto> i))
         | None \<Rightarrow> (fresh, ids(so_id s \<mapsto> fresh))))"

definition connection_id :: "connection_ids \<Rightarrow> json socket \<Rightarrow> ident" where
  \<comment> \<open>the answer; it is remembered, so that it is the same whenever it is asked for again\<close>
  "connection_id ids s = fst (connection_id_for (so_id s) s ids)"

section \<open>Operations\<close>

















section \<open>Attachments round trip\<close>

definition session_ok :: "session \<Rightarrow> bool" where
  "session_ok s \<longleftrightarrow> (case ss_accessVersion s of None \<Rightarrow> True | Some n \<Rightarrow> safe_integer n \<and> 1 \<le> n) \<and>
     (\<forall>e \<in> set (ss_presenceWatch s). js_trim e \<noteq> [])"

lemma watched_strings: "\<forall>e \<in> set es. js_trim e \<noteq> [] \<Longrightarrow> watched_entries (Some (JArray (map JString es))) = es"
  by (induction es) (auto simp: watched_entries_def List.map_filter_def)

lemma attachment_roundtrip: "session_ok s \<Longrightarrow> read_attachment (attachment_of s i) i = Some s"
  by (cases s) (auto simp: read_attachment_def attachment_of_def session_ok_def watched_strings as_string_def split: option.splits)

lemma foreign_attachment: "j \<noteq> i \<Longrightarrow> read_attachment (attachment_of s i) j = None"
  by (simp add: read_attachment_def attachment_of_def split: option.split)

definition stored_socket :: "session socket \<Rightarrow> json socket" where
  "stored_socket s = \<lparr>so_id = so_id s, so_data = attachment_of (so_data s) (so_id s), so_ready = so_ready s,
     so_works = so_works s, so_sent = so_sent s, so_closed = so_closed s\<rparr>"

lemma stored_fields [simp]: "so_id (stored_socket s) = so_id s" "so_ready (stored_socket s) = so_ready s"
  "so_data (stored_socket s) = attachment_of (so_data s) (so_id s)" "can_send (stored_socket s) = can_send s"
  "try_send m (stored_socket s) = stored_socket (try_send m s)" "close_native c r (stored_socket s) = stored_socket (close_native c r s)"
  by (simp_all add: stored_socket_def can_send_def try_send_def close_native_def)

text \<open>What the memory holds is right, whatever was lost of it.\<close>

definition memory_ok :: "connection_ids \<Rightarrow> bool" where
  "memory_ok ids \<longleftrightarrow> (\<forall>i j. ids i = Some j \<longrightarrow> j = i)"

lemma stored_id [simp]: "memory_ok ids \<Longrightarrow> connection_id ids (stored_socket s) = so_id s"
  by (auto simp: connection_id_def connection_id_for_def memory_ok_def attachment_of_def as_string_def Let_def split: option.split)

lemma memory_ok_step: "memory_ok ids \<Longrightarrow> memory_ok (snd (connection_id_for (so_id s) (stored_socket s) ids))"
  by (auto simp: connection_id_for_def memory_ok_def attachment_of_def as_string_def Let_def split: option.split)


section \<open>Each operation on stored sockets\<close>



lemma session_stored: "session_ok (so_data s) \<Longrightarrow> read_attachment (so_data (stored_socket s)) (so_id s) = Some (so_data s)"
  by (simp add: attachment_roundtrip)























section \<open>The two gateways agree\<close>





end
