(* ===== verification/Node_Scheduler.thy ===== *)
theory Node_Scheduler
  imports Maintenance_Service
begin

text \<open>
  \<open>scheduler/node-maintenance-scheduler.ts\<close>: the maintenance scheduler of the Node runtime. It
  works on the same job table as the scheduler of the Durable Object, but its alarm is a timer of
  the process: \<open>armedFor\<close> is \<^const>\<open>co_alarm\<close> of the coordinator, and next to it stands the time
  at which the callback of \<open>setTimeout\<close> runs. The last section relates the two schedulers.
\<close>

type_synonym node_state = "coordinator \<times> millis option"

definition timeout_max :: millis where "timeout_max = 2147483647"

definition set_timeout :: "millis \<Rightarrow> millis \<Rightarrow> millis" where
  \<comment> \<open>when a timer set at \<open>now\<close> fires: Node replaces a delay out of range by one millisecond\<close>
  "set_timeout now delay = now + (if 1 \<le> delay \<and> delay \<le> timeout_max then delay else 1)"

section \<open>Operations\<close>

definition node_dispose :: "node_state \<Rightarrow> node_state" where
  "node_dispose s = ((fst s)\<lparr>co_alarm := None\<rparr>, None)"

definition node_arm :: "millis \<Rightarrow> millis \<Rightarrow> node_state \<Rightarrow> node_state" where
  "node_arm at now s = ((fst s)\<lparr>co_alarm := Some at\<rparr>, Some (set_timeout now (max 0 (at - now))))"

definition node_rearm :: "millis \<Rightarrow> node_state \<Rightarrow> node_state" where
  "node_rearm now s =
     (case read_next_due_at (co_db (fst s)) of
        None \<Rightarrow> node_dispose s
      | Some next \<Rightarrow> if co_alarm (fst s) \<noteq> Some next then node_arm next now s else s)"


definition node_retry_after :: "millis \<Rightarrow> millis \<Rightarrow> node_state \<Rightarrow> node_state" where
  "node_retry_after delayMs now s = node_arm (now + delayMs) now s"

definition node_defer :: "job_key \<Rightarrow> millis \<Rightarrow> millis \<Rightarrow> millis \<Rightarrow> node_state \<Rightarrow> node_state" where
  \<comment> \<open>the third time is the clock when the timer is set\<close>
  "node_defer key dueAt now clock s =
     (let t = job_due_at key dueAt in
      if (case read_job key (co_db (fst s)) of None \<Rightarrow> False | Some j \<Rightarrow> job_dueAt j \<le> t) then s
      else node_rearm clock (on_db (defer_job key t now) (fst s), snd s))"

type_synonym node_handler = "millis \<Rightarrow> node_state \<Rightarrow> (coord_error + millis option) \<times> node_state"

definition node_run_job :: "(job_key \<Rightarrow> node_handler option) \<Rightarrow> job \<Rightarrow> millis \<Rightarrow> node_state \<Rightarrow> node_state" where
  "node_run_job handlers j now s =
     (case (case handlers (job_key j) of
              None \<Rightarrow> (Inl (JsError (''No maintenance handler for '' @ key_name (job_key j))), s)
            | Some h \<Rightarrow> h now s) of
        (Inr None, s') \<Rightarrow> (on_db (delete_job (job_key j)) (fst s'), snd s')
      | (Inr (Some t), s') \<Rightarrow> (on_db (reschedule_job (job_key j) t now) (fst s'), snd s')
      | (Inl e, s') \<Rightarrow> (on_db (reschedule_failed_job j e now) (fst s'), snd s'))"

fun node_drain_jobs :: "nat \<Rightarrow> (job_key \<Rightarrow> node_handler option) \<Rightarrow> millis \<Rightarrow> node_state \<Rightarrow> node_state" where
  "node_drain_jobs 0 handlers now s = s"
| "node_drain_jobs (Suc n) handlers now s =
     (case read_next_due_job now (co_db (fst s)) of
        None \<Rightarrow> s
      | Some j \<Rightarrow> node_drain_jobs n handlers now (node_run_job handlers j now s))"

definition node_drain :: "(job_key \<Rightarrow> node_handler option) \<Rightarrow> millis \<Rightarrow> millis \<Rightarrow> node_state \<Rightarrow> node_state" where
  "node_drain handlers now clock s = node_rearm clock (node_drain_jobs max_drained_jobs handlers now s)"

definition node_timer_fires :: "(node_state \<Rightarrow> node_state) \<Rightarrow> node_state \<Rightarrow> node_state" where
  \<comment> \<open>the callback of \<open>arm\<close>, with what \<open>onAlarmDue\<close> does\<close>
  "node_timer_fires onAlarmDue s = onAlarmDue ((fst s)\<lparr>co_alarm := None\<rparr>, None)"

section \<open>The Node scheduler refines the scheduler of the Durable Object\<close>

lemma fst_node_ops [simp]:
  "fst (node_arm at now s) = (fst s)\<lparr>co_alarm := Some at\<rparr>" "fst (node_dispose s) = (fst s)\<lparr>co_alarm := None\<rparr>"
  by (simp_all add: node_arm_def node_dispose_def)

lemma node_rearm_refines: "fst (node_rearm now s) = rearm (fst s)"
  by (simp add: node_rearm_def rearm_def split: option.splits)


lemma node_defer_refines: "fst (node_defer key dueAt now clock s) = defer_maintenance key dueAt now (fst s)"
  by (simp add: node_defer_def defer_maintenance_def Let_def node_rearm_refines)





text \<open>The timer stands for the alarm: it is set exactly when the alarm is, and it is never late.\<close>

definition timer_ok :: "millis \<Rightarrow> node_state \<Rightarrow> bool" where
  "timer_ok now s = (case (co_alarm (fst s), snd s) of
       (None, None) \<Rightarrow> True
     | (Some a, Some f) \<Rightarrow> f \<le> max a (now + 1)
     | _ \<Rightarrow> False)"


lemma timer_ok_later: "timer_ok now s \<Longrightarrow> now \<le> later \<Longrightarrow> timer_ok later s"
  by (auto simp: timer_ok_def split: option.splits)






interpretation node_scheduler: job_scheduler "\<lambda>k t now. node_defer k t now now" "\<lambda>k s. due_of k (co_db (fst s))"
    "\<lambda>s. co_alarm (fst s)" "\<lambda>s. armed (fst s)"
proof unfold_locales
  show "armed (fst s) \<Longrightarrow> armed (fst (node_defer k t now now s))" for s k t now
    by (simp add: node_defer_refines defer_maintenance_armed)
  show "armed (fst s) \<Longrightarrow> due_of k (co_db (fst s)) = Some t \<Longrightarrow> \<exists>a. co_alarm (fst s) = Some a \<and> a \<le> t" for s k t
    by (rule do_scheduler.alarm_covers)
qed (simp add: node_defer_refines due_of_defer_maintenance)

section \<open>Properties\<close>



text \<open>
  A due time more than \<open>2 ^ 31 - 1\<close> milliseconds (about 24.8 days) ahead is beyond the range of
  the timer: the callback runs after one millisecond, finds no job due, and arms the same time
  again, so that the process wakes every millisecond. Retention is a single day in the self-hosted
  edition, which keeps the due times of its jobs far below.
\<close>

lemma far_alarm_spins:
  assumes next_due: "read_next_due_at (co_db (fst s)) = Some at" and far: "now + timeout_max < at"
  shows "node_timer_fires (node_drain handlers now now) s = ((fst s)\<lparr>co_alarm := Some at\<rparr>, Some (now + 1))"
proof -
  have "\<not> jb_dueAt r \<le> now" if "r \<in> set (db_jobs (co_db (fst s)))" for r
    using read_next_due_at_le[OF that] next_due far by (auto simp: timeout_max_def)
  then have "read_next_due_job now (co_db (fst s)) = None"
    by (simp add: read_next_due_job_def filter_False)
  then have "node_drain_jobs (Suc n) handlers now ((fst s)\<lparr>co_alarm := None\<rparr>, None) = ((fst s)\<lparr>co_alarm := None\<rparr>, None)" for n
    by simp
  moreover have "max_drained_jobs = Suc 15" by (simp add: max_drained_jobs_def)
  ultimately have "node_drain_jobs max_drained_jobs handlers now ((fst s)\<lparr>co_alarm := None\<rparr>, None) = ((fst s)\<lparr>co_alarm := None\<rparr>, None)"
    by metis
  then show ?thesis using next_due far
    by (simp add: node_timer_fires_def node_drain_def node_rearm_def node_arm_def set_timeout_def timeout_max_def)
qed

end
