(* ===== verification/Vault_Lock.thy ===== *)
theory Vault_Lock
  imports Prelude
begin

text \<open>
  \<open>sqlite/vault-lock.ts\<close>: the lock that runs the work on one vault one call at a time. A call of
  \<open>run\<close> takes the tail of the vault's chain of promises as its predecessor and becomes the tail;
  it runs its function when the predecessor's promise is resolved, and resolves its own when the
  function has returned or thrown. Promises are numbered in the order of their creation.
\<close>

datatype phase = Waiting | Running | Finished

record 'v lock_call =
  lc_vault :: 'v
  lc_previous :: "nat option" \<comment> \<open>\<open>previousTail\<close>; \<^term>\<open>None\<close> is \<open>Promise.resolve()\<close>\<close>
  lc_phase :: phase

record 'v lock_state =
  lk_tails :: "'v \<rightharpoonup> nat"
  lk_calls :: "'v lock_call list" \<comment> \<open>the call with the \<open>n\<close>-th promise\<close>
  lk_resolved :: "nat set"

definition unlocked :: "'v lock_state" where
  "unlocked = \<lparr>lk_tails = Map.empty, lk_calls = [], lk_resolved = {}\<rparr>"

definition enter :: "'v \<Rightarrow> 'v lock_state \<Rightarrow> 'v lock_state" where
  \<comment> \<open>\<open>run\<close> up to its first \<open>await\<close>\<close>
  "enter v s = s\<lparr>lk_tails := (lk_tails s)(v \<mapsto> length (lk_calls s)),
     lk_calls := lk_calls s @ [\<lparr>lc_vault = v, lc_previous = lk_tails s v, lc_phase = Waiting\<rparr>]\<rparr>"

definition may_begin :: "nat \<Rightarrow> 'v lock_state \<Rightarrow> bool" where
  "may_begin n s \<longleftrightarrow> n < length (lk_calls s) \<and> lc_phase (lk_calls s ! n) = Waiting \<and>
     (case lc_previous (lk_calls s ! n) of None \<Rightarrow> True | Some p \<Rightarrow> p \<in> lk_resolved s)"

definition begin_work :: "nat \<Rightarrow> 'v lock_state \<Rightarrow> 'v lock_state" where
  \<comment> \<open>after \<open>await previousTail\<close>\<close>
  "begin_work n s = s\<lparr>lk_calls := (lk_calls s)[n := (lk_calls s ! n)\<lparr>lc_phase := Running\<rparr>]\<rparr>"

definition finish_work :: "nat \<Rightarrow> 'v lock_state \<Rightarrow> 'v lock_state" where
  \<comment> \<open>the \<open>finally\<close> block\<close>
  "finish_work n s =
     (let v = lc_vault (lk_calls s ! n) in
      s\<lparr>lk_calls := (lk_calls s)[n := (lk_calls s ! n)\<lparr>lc_phase := Finished\<rparr>],
        lk_resolved := insert n (lk_resolved s),
        lk_tails := (if lk_tails s v = Some n then (lk_tails s)(v := None) else lk_tails s)\<rparr>)"

inductive lock_step :: "'v lock_state \<Rightarrow> 'v lock_state \<Rightarrow> bool" where
  step_enter: "lock_step s (enter v s)"
| step_begin: "may_begin n s \<Longrightarrow> lock_step s (begin_work n s)"
| step_finish: "n < length (lk_calls s) \<Longrightarrow> lc_phase (lk_calls s ! n) = Running \<Longrightarrow> lock_step s (finish_work n s)"

inductive lock_reachable :: "'v lock_state \<Rightarrow> bool" where
  start: "lock_reachable unlocked"
| step: "lock_reachable s \<Longrightarrow> lock_step s t \<Longrightarrow> lock_reachable t"

inductive_cases lock_stepE: "lock_step s t"

section \<open>The queue behind the promises\<close>

definition pending :: "'v \<Rightarrow> 'v lock_state \<Rightarrow> nat list" where
  \<comment> \<open>the unfinished calls of a vault in the order in which they were made\<close>
  "pending v s = filter (\<lambda>n. lc_vault (lk_calls s ! n) = v \<and> lc_phase (lk_calls s ! n) \<noteq> Finished)
     [0..<length (lk_calls s)]"

text \<open>
  The specification is one queue per vault: a call enters at the end, only the call at the front
  works, and finishing removes it. \<open>lock_ok\<close> says that the promises implement the queue.
\<close>

fun linked :: "'v lock_state \<Rightarrow> nat list \<Rightarrow> bool" where
  "linked s (m # n # ns) = (lc_previous (lk_calls s ! n) = Some m \<and> lc_phase (lk_calls s ! n) = Waiting \<and> linked s (n # ns))"
| "linked s _ = True"

definition lock_ok :: "'v lock_state \<Rightarrow> bool" where
  "lock_ok s \<longleftrightarrow>
     lk_resolved s = {n. n < length (lk_calls s) \<and> lc_phase (lk_calls s ! n) = Finished} \<and>
     (\<forall>v. linked s (pending v s) \<and>
        lk_tails s v = (if pending v s = [] then None else Some (last (pending v s))) \<and>
        (pending v s \<noteq> [] \<longrightarrow> (case lc_previous (lk_calls s ! hd (pending v s)) of
           None \<Rightarrow> True | Some p \<Rightarrow> p \<in> lk_resolved s)))"

lemma lock_okD:
  assumes "lock_ok s"
  shows "lk_resolved s = {n. n < length (lk_calls s) \<and> lc_phase (lk_calls s ! n) = Finished}"
    and "linked s (pending v s)"
    and "lk_tails s v = (if pending v s = [] then None else Some (last (pending v s)))"
    and "pending v s \<noteq> [] \<Longrightarrow> case lc_previous (lk_calls s ! hd (pending v s)) of None \<Rightarrow> True | Some p \<Rightarrow> p \<in> lk_resolved s"
  using assms unfolding lock_ok_def by blast+

lemma set_pending: "n \<in> set (pending v s) \<longleftrightarrow>
    n < length (lk_calls s) \<and> lc_vault (lk_calls s ! n) = v \<and> lc_phase (lk_calls s ! n) \<noteq> Finished"
  by (auto simp: pending_def)

lemma sorted_pending: "sorted_wrt (<) (pending v s)"
  by (simp add: pending_def sorted_wrt_filter)

lemma linked_waiting: "linked s ns \<Longrightarrow> n \<in> set (tl ns) \<Longrightarrow> lc_phase (lk_calls s ! n) = Waiting"
  by (induction s ns rule: linked.induct) auto

lemma linked_previous: "linked s (ms @ m # n # ns) \<Longrightarrow> lc_previous (lk_calls s ! n) = Some m"
proof (induction ms)
  case (Cons a ms)
  then show ?case by (cases ms) auto
qed simp

lemma linked_cong:
  "(\<And>n. n \<in> set (tl ns) \<Longrightarrow> lk_calls t ! n = lk_calls s ! n) \<Longrightarrow> linked t ns = linked s ns"
  by (induction s ns rule: linked.induct) auto

lemma linked_append:
  "linked s (ns @ [n]) \<longleftrightarrow> linked s ns \<and> (ns = [] \<or> lc_previous (lk_calls s ! n) = Some (last ns) \<and> lc_phase (lk_calls s ! n) = Waiting)"
  by (induction s ns rule: linked.induct) auto

lemma linked_tl: "linked s ns \<Longrightarrow> linked s (tl ns)"
  by (induction s ns rule: linked.induct) auto

lemma pending_enter:
  "pending w (enter v s) = pending w s @ (if w = v then [length (lk_calls s)] else [])"
proof -
  have "filter (\<lambda>n. lc_vault (lk_calls (enter v s) ! n) = w \<and> lc_phase (lk_calls (enter v s) ! n) \<noteq> Finished) [0..<length (lk_calls s)]
      = pending w s"
    unfolding pending_def by (rule filter_cong) (auto simp: enter_def nth_append)
  then show ?thesis by (simp add: pending_def enter_def nth_append)
qed

text \<open>Only the front of the queue can begin, and only it can be running.\<close>

lemma running_is_front:
  assumes ok: "lock_ok s" and n: "n < length (lk_calls s)" and "lc_phase (lk_calls s ! n) = Running"
  shows "\<exists>ns. pending (lc_vault (lk_calls s ! n)) s = n # ns"
proof -
  let ?v = "lc_vault (lk_calls s ! n)"
  have "n \<in> set (pending ?v s)" using assms by (simp add: set_pending)
  moreover have "n \<notin> set (tl (pending ?v s))"
    using ok assms(3) linked_waiting[of s "pending ?v s" n] by (auto simp: lock_ok_def)
  ultimately show ?thesis by (cases "pending ?v s") auto
qed

lemma beginner_is_front:
  assumes ok: "lock_ok s" and b: "may_begin n s"
  shows "\<exists>ns. pending (lc_vault (lk_calls s ! n)) s = n # ns"
proof -
  let ?v = "lc_vault (lk_calls s ! n)"
  have mem: "n \<in> set (pending ?v s)" using b by (simp add: set_pending may_begin_def)
  show ?thesis
  proof (cases "pending ?v s")
    case Nil
    then show ?thesis using mem by simp
  next
    case (Cons m ms)
    have "n \<notin> set ms"
    proof
      assume "n \<in> set ms"
      then obtain xs ys where "ms = xs @ n # ys" by (auto simp: in_set_conv_decomp)
      then have split: "pending ?v s = butlast (m # xs) @ last (m # xs) # n # ys"
        using Cons by (simp add: append_butlast_last_id[symmetric] del: append_butlast_last_id)
      have "linked s (pending ?v s)" using ok by (simp add: lock_ok_def)
      then have "lc_previous (lk_calls s ! n) = Some (last (m # xs))"
        unfolding split by (rule linked_previous)
      then have "last (m # xs) \<in> lk_resolved s" using b by (simp add: may_begin_def)
      moreover have "last (m # xs) \<in> set (pending ?v s)" unfolding split by simp
      ultimately show False using ok by (auto simp: lock_ok_def set_pending)
    qed
    then show ?thesis using mem Cons by auto
  qed
qed

section \<open>Every step keeps the queue\<close>

lemma in_set_tlD: "x \<in> set (tl xs) \<Longrightarrow> x \<in> set xs"
  by (cases xs) auto

lemma lock_ok_unlocked: "lock_ok unlocked"
  by (simp add: lock_ok_def unlocked_def pending_def)

lemma lock_ok_enter:
  assumes ok: "lock_ok s"
  shows "lock_ok (enter v s)"
proof -
  let ?t = "enter v s" and ?n = "length (lk_calls s)"
  have old: "m < ?n \<Longrightarrow> lk_calls ?t ! m = lk_calls s ! m" for m by (simp add: enter_def nth_append)
  have new: "lk_calls ?t ! ?n = \<lparr>lc_vault = v, lc_previous = lk_tails s v, lc_phase = Waiting\<rparr>"
    by (simp add: enter_def)
  have same: "linked ?t (pending w s) = linked s (pending w s)" for w
    by (rule linked_cong) (metis in_set_tlD old set_pending mem_Collect_eq)
  have hd_old: "pending w s \<noteq> [] \<Longrightarrow> lk_calls ?t ! hd (pending w s) = lk_calls s ! hd (pending w s)" for w
    using hd_in_set[of "pending w s"] by (auto simp: set_pending intro: old)
  have tails: "lk_tails s w = (if pending w s = [] then None else Some (last (pending w s)))" for w
    using ok by (simp add: lock_ok_def)
  have "lk_resolved ?t = {n. n < length (lk_calls ?t) \<and> lc_phase (lk_calls ?t ! n) = Finished}"
    using ok new by (auto simp: lock_ok_def enter_def nth_append)
  moreover have "linked ?t (pending w ?t)" for w
    using ok by (simp add: pending_enter linked_append same new tails lock_ok_def)
  moreover have "lk_tails ?t w = (if pending w ?t = [] then None else Some (last (pending w ?t)))" for w
    using tails by (simp add: pending_enter) (simp add: enter_def)
  moreover have "case lc_previous (lk_calls ?t ! hd (pending w ?t)) of None \<Rightarrow> True | Some p \<Rightarrow> p \<in> lk_resolved ?t"
    if "pending w ?t \<noteq> []" for w
  proof (cases "pending w s")
    case Nil
    then show ?thesis using that tails[of w] by (auto simp: pending_enter new split: if_splits)
  next
    case (Cons m ms)
    then have "hd (pending w ?t) = m" by (simp add: pending_enter)
    moreover have "lk_calls ?t ! m = lk_calls s ! m" using hd_old[of w] Cons by simp
    moreover have "lk_resolved ?t = lk_resolved s" by (simp add: enter_def)
    ultimately show ?thesis using lock_okD(4)[OF ok, of w] Cons by (auto split: option.splits)
  qed
  ultimately show ?thesis by (simp add: lock_ok_def)
qed

lemma pending_begin:
  assumes "may_begin n s"
  shows "pending w (begin_work n s) = pending w s"
  unfolding pending_def using assms
  by (auto simp: begin_work_def may_begin_def nth_list_update intro!: filter_cong)

lemma lock_ok_begin:
  assumes ok: "lock_ok s" and b: "may_begin n s"
  shows "lock_ok (begin_work n s)"
proof -
  let ?t = "begin_work n s"
  obtain ns where front: "pending (lc_vault (lk_calls s ! n)) s = n # ns" using beginner_is_front[OF ok b] by blast
  have other: "m \<noteq> n \<Longrightarrow> lk_calls ?t ! m = lk_calls s ! m" for m by (simp add: begin_work_def)
  have tail: "m \<noteq> n" if "m \<in> set (tl (pending w s))" for m w
  proof
    assume "m = n"
    then have "n \<in> set (pending w s)" using that by (cases "pending w s") auto
    then have "w = lc_vault (lk_calls s ! n)" by (simp add: set_pending)
    then show False using that \<open>m = n\<close> front sorted_pending[of w s] by auto
  qed
  have "linked ?t (pending w s) = linked s (pending w s)" for w by (rule linked_cong) (use tail other in blast)
  moreover have "lc_previous (lk_calls ?t ! m) = lc_previous (lk_calls s ! m)" for m
    using b by (cases "m = n") (simp_all add: begin_work_def may_begin_def)
  moreover have "lk_resolved ?t = {m. m < length (lk_calls ?t) \<and> lc_phase (lk_calls ?t ! m) = Finished}"
    using ok b by (auto simp: lock_ok_def begin_work_def may_begin_def nth_list_update)
  moreover have "lk_tails ?t w = (if pending w ?t = [] then None else Some (last (pending w ?t)))" for w
    using lock_okD(3)[OF ok, of w] unfolding pending_begin[OF b] by (simp add: begin_work_def)
  moreover have "lk_resolved ?t = lk_resolved s" by (simp add: begin_work_def)
  ultimately show ?thesis using lock_okD(2,4)[OF ok] unfolding lock_ok_def pending_begin[OF b] by metis
qed

lemma pending_finish:
  assumes ok: "lock_ok s" and n: "n < length (lk_calls s)" "lc_phase (lk_calls s ! n) = Running"
  shows "pending w (finish_work n s) = (if w = lc_vault (lk_calls s ! n) then tl (pending w s) else pending w s)"
proof -
  have "pending w (finish_work n s) = filter (\<lambda>m. m \<noteq> n) (pending w s)"
    unfolding pending_def filter_filter using n(1)
    by (auto simp: finish_work_def Let_def nth_list_update intro!: filter_cong)
  moreover have "filter (\<lambda>m. m \<noteq> n) (pending w s) = tl (pending w s)" if w: "w = lc_vault (lk_calls s ! n)"
  proof -
    obtain ns where front: "pending w s = n # ns" using running_is_front[OF ok n] w by blast
    then have "n \<notin> set ns" using sorted_pending[of w s] by auto
    then show ?thesis using front by (simp add: filter_id_conv) (metis)
  qed
  moreover have "filter (\<lambda>m. m \<noteq> n) (pending w s) = pending w s" if "w \<noteq> lc_vault (lk_calls s ! n)"
    using that by (auto simp: filter_id_conv set_pending)
  ultimately show ?thesis by simp
qed

lemma lock_ok_finish:
  assumes ok: "lock_ok s" and n: "n < length (lk_calls s)" "lc_phase (lk_calls s ! n) = Running"
  shows "lock_ok (finish_work n s)"
proof -
  let ?t = "finish_work n s" and ?v = "lc_vault (lk_calls s ! n)"
  obtain ns where front: "pending ?v s = n # ns" using running_is_front[OF ok n] by blast
  have notin: "n \<notin> set ns" using sorted_pending[of ?v s] front by auto
  have other: "m \<noteq> n \<Longrightarrow> lk_calls ?t ! m = lk_calls s ! m" for m by (simp add: finish_work_def Let_def)
  have gone: "n \<notin> set (pending w ?t)" for w
    using notin by (auto simp: pending_finish[OF ok n] front set_pending)
  have prev: "lc_previous (lk_calls ?t ! m) = lc_previous (lk_calls s ! m)" for m
    using n by (cases "m = n") (simp_all add: finish_work_def Let_def)
  have res: "lk_resolved ?t = insert n (lk_resolved s)" by (simp add: finish_work_def Let_def)
  have "lk_resolved ?t = {m. m < length (lk_calls ?t) \<and> lc_phase (lk_calls ?t ! m) = Finished}"
    using ok n by (auto simp: res lock_ok_def finish_work_def Let_def nth_list_update)
  moreover have "linked ?t (pending w ?t)" for w
  proof -
    have "linked ?t (pending w ?t) = linked s (pending w ?t)"
      by (rule linked_cong) (metis gone in_set_tlD other)
    then show ?thesis using ok linked_tl[of s "pending w s"] by (auto simp: pending_finish[OF ok n] lock_ok_def)
  qed
  moreover have "lk_tails ?t w = (if pending w ?t = [] then None else Some (last (pending w ?t)))" for w
  proof (cases "w = ?v")
    case True
    have "last ns \<noteq> n" if "ns \<noteq> []" using that notin by auto
    then have "lk_tails ?t ?v = (if ns = [] then None else Some (last ns))"
      using lock_okD(3)[OF ok, of ?v] unfolding front by (simp add: finish_work_def Let_def)
    moreover have "pending ?v ?t = ns" by (simp add: pending_finish[OF ok n] front)
    ultimately show ?thesis using True by simp
  next
    case False
    have "lk_tails ?t w = lk_tails s w" using False by (simp add: finish_work_def Let_def)
    then show ?thesis using False lock_okD(3)[OF ok, of w] by (simp add: pending_finish[OF ok n])
  qed
  moreover have "case lc_previous (lk_calls ?t ! hd (pending w ?t)) of None \<Rightarrow> True | Some p \<Rightarrow> p \<in> lk_resolved ?t"
    if "pending w ?t \<noteq> []" for w
  proof (cases "w = ?v")
    case True
    then have "ns \<noteq> []" using that by (simp add: pending_finish[OF ok n] front)
    then obtain m ms where ns: "ns = m # ms" by (cases ns) auto
    have "linked s (pending ?v s)" using ok by (simp add: lock_ok_def)
    then have "lc_previous (lk_calls s ! m) = Some n" by (simp add: front ns)
    then show ?thesis using True front ns by (simp add: pending_finish[OF ok n] prev res)
  next
    case False
    then have "case lc_previous (lk_calls s ! hd (pending w s)) of None \<Rightarrow> True | Some p \<Rightarrow> p \<in> lk_resolved s"
      using ok that by (simp add: lock_ok_def pending_finish[OF ok n])
    then show ?thesis using False by (simp add: pending_finish[OF ok n] prev res split: option.splits)
  qed
  ultimately show ?thesis by (simp add: lock_ok_def)
qed

lemma reachable_lock_ok: "lock_reachable s \<Longrightarrow> lock_ok s"
proof (induction rule: lock_reachable.induct)
  case start
  then show ?case by (rule lock_ok_unlocked)
next
  case (step s t)
  from step.hyps(2) step.IH show ?case
    by cases (auto intro: lock_ok_enter lock_ok_begin lock_ok_finish)
qed

section \<open>Properties\<close>

text \<open>
  C32. The vault lock works. In every reachable state: at most one call per vault is running; a
  call that runs or may begin comes after every earlier call of its vault has finished, so calls
  work in the order in which they were made; whenever a vault has an unfinished call, one of its
  calls is running or may begin at once, whatever the calls of other vaults do, so nobody is
  stuck; and the map keeps an entry exactly for the vaults with unfinished calls, so it does not
  grow.
\<close>

theorem vault_lock_serialises:
  assumes "lock_reachable s"
  shows "(\<forall>m n. m < length (lk_calls s) \<and> n < length (lk_calls s) \<and> lc_vault (lk_calls s ! m) = lc_vault (lk_calls s ! n) \<and>
      (lc_phase (lk_calls s ! n) = Running \<or> may_begin n s) \<and> (m < n \<or> lc_phase (lk_calls s ! m) = Running) \<longrightarrow>
      m = n \<or> lc_phase (lk_calls s ! m) = Finished) \<and>
    (\<forall>n. n < length (lk_calls s) \<and> lc_phase (lk_calls s ! n) \<noteq> Finished \<longrightarrow>
      (\<exists>m \<le> n. lc_vault (lk_calls s ! m) = lc_vault (lk_calls s ! n) \<and>
         (lc_phase (lk_calls s ! m) = Running \<or> may_begin m s))) \<and>
    (\<forall>v. lk_tails s v = None \<longleftrightarrow>
      (\<forall>n < length (lk_calls s). lc_vault (lk_calls s ! n) = v \<longrightarrow> lc_phase (lk_calls s ! n) = Finished))"
proof -
  have ok: "lock_ok s" using assms by (rule reachable_lock_ok)
  have front: "\<exists>ns. pending (lc_vault (lk_calls s ! n)) s = n # ns"
    if "n < length (lk_calls s)" "lc_phase (lk_calls s ! n) = Running \<or> may_begin n s" for n
    using that running_is_front[OF ok] beginner_is_front[OF ok] by blast
  have order: "m = n \<or> lc_phase (lk_calls s ! m) = Finished"
    if m: "m < length (lk_calls s)" "lc_vault (lk_calls s ! m) = lc_vault (lk_calls s ! n)"
      and n: "n < length (lk_calls s)" "lc_phase (lk_calls s ! n) = Running \<or> may_begin n s" and earlier: "m < n \<or> lc_phase (lk_calls s ! m) = Running" for m n
  proof (rule disjCI)
    assume unfinished: "lc_phase (lk_calls s ! m) \<noteq> Finished"
    obtain ns where ns: "pending (lc_vault (lk_calls s ! n)) s = n # ns" using front n by blast
    have "m \<in> set (n # ns)" using set_pending[of m "lc_vault (lk_calls s ! n)" s] m unfinished ns by simp
    then show "m = n"
      using m n earlier ns front[of m] sorted_pending[of "lc_vault (lk_calls s ! n)" s] by auto
  qed
  have progress: "\<exists>m \<le> n. lc_vault (lk_calls s ! m) = lc_vault (lk_calls s ! n) \<and>
      (lc_phase (lk_calls s ! m) = Running \<or> may_begin m s)"
    if n: "n < length (lk_calls s)" "lc_phase (lk_calls s ! n) \<noteq> Finished" for n
  proof -
    let ?v = "lc_vault (lk_calls s ! n)"
    have mem: "n \<in> set (pending ?v s)" using n by (simp add: set_pending)
    then obtain m ms where q: "pending ?v s = m # ms" by (cases "pending ?v s") auto
    then have m: "m < length (lk_calls s)" "lc_vault (lk_calls s ! m) = ?v" "lc_phase (lk_calls s ! m) \<noteq> Finished"
      using set_pending[of m ?v s] by auto
    have "case lc_previous (lk_calls s ! m) of None \<Rightarrow> True | Some p \<Rightarrow> p \<in> lk_resolved s"
      using ok q unfolding lock_ok_def by (metis list.distinct(1) list.sel(1))
    then have "lc_phase (lk_calls s ! m) = Running \<or> may_begin m s"
      using m by (cases "lc_phase (lk_calls s ! m)") (auto simp: may_begin_def)
    moreover have "m \<le> n" using mem q sorted_pending[of ?v s] by auto
    ultimately show ?thesis using m by blast
  qed
  have "lk_tails s v = None \<longleftrightarrow> pending v s = []" for v using ok by (simp add: lock_ok_def)
  moreover have "pending v s = [] \<longleftrightarrow>
      (\<forall>n < length (lk_calls s). lc_vault (lk_calls s ! n) = v \<longrightarrow> lc_phase (lk_calls s ! n) = Finished)" for v
    by (auto simp: pending_def filter_empty_conv)
  ultimately show ?thesis using order progress by simp
qed

lemma vault_lock_serialises_witness:
  "let s = begin_work 0 (enter ''v'' (enter ''v'' unlocked)) in
     lock_reachable s \<and> lc_phase (lk_calls s ! 0) = Running \<and> \<not> may_begin 1 s \<and> lk_tails s ''v'' = Some 1 \<and>
     may_begin 1 (finish_work 0 s)"
proof -
  let ?u = "enter ''v'' (enter ''v'' unlocked) :: string lock_state"
  let ?s = "begin_work 0 ?u"
  have reach: "lock_reachable ?s"
    by (intro lock_reachable.step[OF _ step_begin] lock_reachable.step[OF _ step_enter] lock_reachable.start)
       (simp add: may_begin_def enter_def unlocked_def)
  have state: "length (lk_calls ?s) = 2" "lc_phase (lk_calls ?s ! 0) = Running" "lc_phase (lk_calls ?s ! 1) = Waiting"
    "lc_vault (lk_calls ?s ! 0) = ''v''" "lc_vault (lk_calls ?s ! 1) = ''v''" "lk_tails ?s ''v'' = Some 1"
    by (simp_all add: begin_work_def enter_def unlocked_def)
  have "\<not> may_begin 1 ?s"
  proof
    assume "may_begin 1 ?s"
    then have "0 = (1::nat) \<or> lc_phase (lk_calls ?s ! 0) = Finished"
      using vault_lock_serialises[OF reach] state by (metis less_numeral_extra(1) one_less_numeral_iff zero_less_numeral semiring_norm(76))
    then show False using state by simp
  qed
  moreover have "may_begin 1 (finish_work 0 ?s)"
    by (simp add: may_begin_def finish_work_def begin_work_def enter_def unlocked_def Let_def)
  ultimately show ?thesis using reach state by (simp add: Let_def)
qed

end
