(* ===== verification/Directory.thy ===== *)
theory Directory
  imports Prelude
begin

text \<open>
  The shared database of the service (\<open>src/db/d1\<close>), as far as organizations, vaults and access to
  them are concerned: its rows, and the database as the record of its tables. Columns whose type is
  text keep their text (roles, statuses), a nullable column is an option, a time is its number of
  milliseconds. The tables of the library better-auth that only it reads (accounts, sessions,
  verifications) are left out, and so are columns no code under \<open>src/\<close> but that library uses.
\<close>

section \<open>Rows\<close>

record user_row =
  us_id :: ident
  us_name :: string
  us_email :: string
  us_verified :: bool

record organization_row =
  or_id :: ident
  or_name :: string
  or_vaultsOverride :: "int option"

record member_row =
  mb_id :: ident
  mb_org :: ident
  mb_user :: ident
  mb_role :: string
  mb_createdAt :: millis

record invitation_row =
  in_id :: ident
  in_org :: ident
  in_email :: string
  in_role :: "string option"
  in_status :: string
  in_expiresAt :: millis
  in_createdAt :: millis
  in_inviter :: ident

record vault_row =
  va_id :: ident
  va_org :: ident
  va_name :: string
  va_sharedAt :: "millis option"
  va_keyVersion :: int
  va_createdAt :: millis
  va_deletedAt :: "millis option"
  va_purgeStatus :: "string option"
  va_purgeError :: "string option"

record membership_row =
  vm_vault :: ident
  vm_user :: ident
  vm_version :: int
  vm_creator :: bool
  vm_status :: string
  vm_joinedAt :: millis
  vm_revokedAt :: "millis option"

text \<open>\<open>vault/domain/types.ts\<close>: the encryption of a vault's key under a user's password.\<close>

record key_derivation =
  kd_name :: string
  kd_memoryKiB :: int
  kd_iterations :: int
  kd_parallelism :: int
  kd_salt :: string

record key_wrap =
  wr_algorithm :: string
  wr_nonce :: string
  wr_ciphertext :: string

record key_envelope =
  ke_binding :: "(ident \<times> ident) option" \<comment> \<open>vault and user\<close>
  ke_version :: int
  ke_keyVersion :: int
  ke_kdf :: key_derivation
  ke_wrap :: key_wrap

record wrapper_row =
  kw_id :: ident
  kw_vault :: ident
  kw_keyVersion :: int
  kw_kind :: string
  kw_user :: "ident option"
  kw_envelope :: key_envelope
  kw_createdAt :: millis
  kw_revokedAt :: "millis option"

record transfer_envelope =
  te_version :: int
  te_algorithm :: string
  te_ciphertext :: string

record request_row =
  kr_id :: ident
  kr_vault :: ident
  kr_user :: ident
  kr_purpose :: string
  kr_version :: int
  kr_publicKey :: string
  kr_status :: string
  kr_envelope :: "transfer_envelope option" \<comment> \<open>stored as its JSON text\<close>
  kr_approvedBy :: "ident option"
  kr_createdAt :: millis
  kr_expiresAt :: millis

record audit_row =
  au_id :: ident
  au_org :: ident
  au_actor :: ident
  au_action :: string
  au_target :: ident
  au_createdAt :: millis

record refresh_row =
  rf_vault :: ident
  rf_revision :: ident
  rf_createdAt :: millis

record subscription_row =
  su_id :: ident
  su_product :: string
  su_org :: ident
  su_status :: string
  su_periodEnd :: "millis option"

section \<open>The database\<close>

record directory =
  di_users :: "user_row list"
  di_orgs :: "organization_row list"
  di_members :: "member_row list"
  di_invitations :: "invitation_row list"
  di_vaults :: "vault_row list"
  di_memberships :: "membership_row list"
  di_wrappers :: "wrapper_row list"
  di_requests :: "request_row list"
  di_audit :: "audit_row list"
  di_refreshes :: "refresh_row list"
  di_commits :: "(ident \<times> millis option) list" \<comment> \<open>\<open>vault_sync_status\<close>: vault and \<open>last_commit_at\<close>\<close>
  di_subscriptions :: "subscription_row list"

definition empty_directory :: directory where
  "empty_directory = \<lparr>di_users = [], di_orgs = [], di_members = [], di_invitations = [], di_vaults = [],
     di_memberships = [], di_wrappers = [], di_requests = [], di_audit = [], di_refreshes = [],
     di_commits = [], di_subscriptions = []\<rparr>"

definition membership_key :: "membership_row \<Rightarrow> ident \<times> ident" where
  "membership_key m = (vm_vault m, vm_user m)"

definition wrapper_key :: "wrapper_row \<Rightarrow> ident \<times> string \<times> ident option" where
  \<comment> \<open>the columns of the unique index; two NULL users are distinct there\<close>
  "wrapper_key w = (kw_vault w, kw_kind w, kw_user w)"

section \<open>Conditions the statements share\<close>

definition is_member :: "ident \<Rightarrow> ident \<Rightarrow> directory \<Rightarrow> bool" where
  "is_member orgId userId d \<longleftrightarrow> (\<exists>m \<in> set (di_members d). mb_org m = orgId \<and> mb_user m = userId)"

definition vault_orgs :: "ident \<Rightarrow> directory \<Rightarrow> ident set" where
  "vault_orgs vaultId d = {va_org v | v. v \<in> set (di_vaults d) \<and> va_id v = vaultId}"

definition live_vault :: "ident \<Rightarrow> directory \<Rightarrow> vault_row option" where
  \<comment> \<open>the vault by its primary key, unless it is deleted\<close>
  "live_vault vaultId d = find (\<lambda>v. va_id v = vaultId \<and> va_deletedAt v = None) (di_vaults d)"

definition grant_of :: "ident \<Rightarrow> ident \<Rightarrow> directory \<Rightarrow> membership_row option" where
  "grant_of vaultId userId d = row_of membership_key (vaultId, userId) (di_memberships d)"

lemma grant_ofD: "grant_of v u d = Some g \<Longrightarrow> g \<in> set (di_memberships d) \<and> vm_vault g = v \<and> vm_user g = u"
  by (auto simp: grant_of_def membership_key_def dest: row_of_SomeD)

lemma live_vaultD: "live_vault v d = Some r \<Longrightarrow> r \<in> set (di_vaults d) \<and> va_id r = v \<and> va_deletedAt r = None"
  by (auto simp: live_vault_def find_Some_iff)

lemma update_rowsE:
  assumes "r \<in> set (update_rows P f rows)"
  obtains (changed) r0 where "r0 \<in> set rows" "P r0" "r = f r0" | (kept) "r \<in> set rows" "\<not> P r"
  using assms by (auto simp: set_update_rows split: if_splits)

lemma upsert_rowE:
  assumes "r \<in> set (upsert_row key row f rows)"
  obtains (changed) r0 where "r0 \<in> set rows" "key r0 = key row" "r = f r0" | (kept) "r \<in> set rows" "key r \<noteq> key row"
    | (inserted) "r = row" "\<forall>x \<in> set rows. key x \<noteq> key row"
  using assms by (auto simp: upsert_row_def set_update_rows split: if_splits)

end
