(* ===== verification/Sharing_Store.thy ===== *)
theory Sharing_Store
  imports Directory
begin

text \<open>
  \<open>sharing/adapters/drizzle-sharing-store.ts\<close>: the statements behind the sharing of vaults. A
  statement, or a batch of statements, runs atomically; the times and random ids it is built from are
  parameters. A join is a condition on the rows it joins, an \<open>INSERT ... SELECT ... WHERE\<close> inserts if
  the condition holds.
\<close>

section \<open>Reads\<close>

definition sql_lower :: "string \<Rightarrow> string" where
  \<comment> \<open>\<open>lower\<close> of SQLite: ASCII letters only\<close>
  "sql_lower s = map (\<lambda>c. if CHR ''A'' \<le> c \<and> c \<le> CHR ''Z'' then char_of (of_char c + 32 :: nat) else c) s"

definition js_lower :: "string \<Rightarrow> string" where
  \<comment> \<open>\<open>toLowerCase\<close> on the code points below 256\<close>
  "js_lower s = map (\<lambda>c. let n = of_char c :: nat in
     if (65 \<le> n \<and> n \<le> 90) \<or> (192 \<le> n \<and> n \<le> 222 \<and> n \<noteq> 215) then char_of (n + 32) else c) s"

definition access_versions :: "ident \<Rightarrow> directory \<Rightarrow> (ident \<times> int) list" where
  "access_versions vaultId d =
     map (\<lambda>m. (vm_user m, vm_version m)) (filter (\<lambda>m. vm_vault m = vaultId) (di_memberships d))"

definition organizations_of :: "ident \<Rightarrow> directory \<Rightarrow> (ident \<times> string \<times> string) list" where
  \<comment> \<open>id, name and the user's role, in the order of joining\<close>
  "organizations_of userId d =
     concat (map (\<lambda>m. map (\<lambda>g. (or_id g, or_name g, mb_role m)) (filter (\<lambda>g. or_id g = mb_org m) (di_orgs d)))
       (sort_key mb_createdAt (filter (\<lambda>m. mb_user m = userId) (di_members d))))"

definition membership :: "ident \<Rightarrow> ident \<Rightarrow> directory \<Rightarrow> member_row option" where
  "membership orgId userId d = find (\<lambda>m. mb_org m = orgId \<and> mb_user m = userId) (di_members d)"

definition user_of :: "ident \<Rightarrow> directory \<Rightarrow> user_row option" where
  "user_of userId d = row_of us_id userId (di_users d)"

record organization_member =
  om_id :: ident
  om_name :: string
  om_email :: string
  om_role :: string

definition members_of :: "ident \<Rightarrow> directory \<Rightarrow> organization_member list" where
  "members_of orgId d =
     concat (map (\<lambda>m. map (\<lambda>u. \<lparr>om_id = mb_user m, om_name = us_name u, om_email = us_email u, om_role = mb_role m\<rparr>)
         (filter (\<lambda>u. us_id u = mb_user m) (di_users d)))
       (filter (\<lambda>m. mb_org m = orgId) (di_members d)))"

definition organization_of :: "ident \<Rightarrow> directory \<Rightarrow> organization_row option" where
  "organization_of orgId d = row_of or_id orgId (di_orgs d)"

definition vaults_of :: "ident \<Rightarrow> directory \<Rightarrow> vault_row list" where
  "vaults_of orgId d = filter (\<lambda>v. va_org v = orgId \<and> va_deletedAt v = None) (di_vaults d)"

definition grants_of :: "ident \<Rightarrow> directory \<Rightarrow> (ident \<times> string \<times> string \<times> string) list" where
  \<comment> \<open>user, status, name and e-mail address\<close>
  "grants_of vaultId d =
     concat (map (\<lambda>m. map (\<lambda>u. (vm_user m, vm_status m, us_name u, us_email u)) (filter (\<lambda>u. us_id u = vm_user m) (di_users d)))
       (filter (\<lambda>m. vm_vault m = vaultId) (di_memberships d)))"

definition invitations_of :: "ident \<Rightarrow> directory \<Rightarrow> invitation_row list" where
  "invitations_of orgId d = sql_limit 100 (rev (sort_key in_createdAt (filter (\<lambda>i. in_org i = orgId) (di_invitations d))))"

definition invitation_of :: "ident \<Rightarrow> directory \<Rightarrow> invitation_row option" where
  "invitation_of i d = row_of in_id i (di_invitations d)"

definition refreshes :: "directory \<Rightarrow> refresh_row list" where
  "refreshes d = sql_limit 100 (di_refreshes d)"

definition key_requests_of :: "millis \<Rightarrow> ident \<Rightarrow> directory \<Rightarrow> request_row list" where
  "key_requests_of now vaultId d = sort_key kr_createdAt
     (filter (\<lambda>r. kr_vault r = vaultId \<and> kr_status r \<in> {''pending'', ''approved''} \<and> kr_expiresAt r > now) (di_requests d))"

definition key_request :: "ident \<Rightarrow> directory \<Rightarrow> request_row option" where
  "key_request i d = row_of kr_id i (di_requests d)"

definition password_wrapper :: "ident \<Rightarrow> ident \<Rightarrow> directory \<Rightarrow> key_envelope option" where
  "password_wrapper vaultId userId d = map_option kw_envelope
     (find (\<lambda>w. kw_vault w = vaultId \<and> kw_user w = Some userId \<and> kw_kind w = ''password'' \<and> kw_revokedAt w = None) (di_wrappers d))"

section \<open>Audit and deliveries\<close>

definition audit :: "ident \<Rightarrow> millis \<Rightarrow> ident \<Rightarrow> ident \<Rightarrow> string \<Rightarrow> ident \<Rightarrow> directory \<Rightarrow> directory" where
  "audit uuid now orgId actorId action targetId d =
     d\<lparr>di_audit := di_audit d @ [\<lparr>au_id = uuid, au_org = orgId, au_actor = actorId, au_action = action,
       au_target = targetId, au_createdAt = now\<rparr>]\<rparr>"

definition claim_invitation_delivery :: "ident \<Rightarrow> millis \<Rightarrow> invitation_row \<Rightarrow> directory \<Rightarrow> bool \<times> directory" where
  "claim_invitation_delivery uuid now invite d =
     (if (\<exists>a \<in> set (di_audit d). au_target a = in_id invite \<and> au_action a = ''invitation_delivery'' \<and> au_createdAt a > now - 60000) \<or>
         length (filter (\<lambda>a. au_org a = in_org invite \<and> au_action a = ''invitation_delivery'' \<and> au_createdAt a > now - 3600000)
           (di_audit d)) \<ge> 20
      then (False, d)
      else (True, audit uuid now (in_org invite) (in_inviter invite) ''invitation_delivery'' (in_id invite) d))"

section \<open>Organizations and invitations\<close>

definition rename_organization :: "ident \<Rightarrow> string \<Rightarrow> directory \<Rightarrow> directory" where
  "rename_organization orgId name d = d\<lparr>di_orgs := update_rows (\<lambda>g. or_id g = orgId) (\<lambda>g. g\<lparr>or_name := name\<rparr>) (di_orgs d)\<rparr>"

record invitation_input =
  ii_org :: ident
  ii_email :: string
  ii_role :: string
  ii_inviter :: ident
  ii_memberLimit :: int

definition pending_invitation :: "millis \<Rightarrow> invitation_row \<Rightarrow> bool" where
  "pending_invitation now i \<longleftrightarrow> in_status i = ''pending'' \<and> in_expiresAt i > now"

definition seats_taken :: "millis \<Rightarrow> ident \<Rightarrow> directory \<Rightarrow> nat" where
  "seats_taken now orgId d = length (filter (\<lambda>m. mb_org m = orgId) (di_members d)) +
     length (filter (\<lambda>i. in_org i = orgId \<and> pending_invitation now i) (di_invitations d))"

definition create_invitation :: "ident \<Rightarrow> millis \<Rightarrow> invitation_input \<Rightarrow> directory \<Rightarrow> invitation_row option \<times> directory" where
  "create_invitation uuid now input d =
     (if \<not> (\<exists>i \<in> set (di_invitations d). in_org i = ii_org input \<and> sql_lower (in_email i) = ii_email input \<and> pending_invitation now i) \<and>
         \<not> (\<exists>m \<in> set (di_members d). \<exists>u \<in> set (di_users d). us_id u = mb_user m \<and> mb_org m = ii_org input \<and>
              sql_lower (us_email u) = ii_email input) \<and>
         (ii_memberLimit input = 0 \<or> int (seats_taken now (ii_org input) d) < ii_memberLimit input)
      then let d' = d\<lparr>di_invitations := di_invitations d @ [\<lparr>in_id = uuid, in_org = ii_org input, in_email = ii_email input,
               in_role = Some (ii_role input), in_status = ''pending'', in_expiresAt = now + 48 * 60 * 60 * 1000,
               in_createdAt = now, in_inviter = ii_inviter input\<rparr>]\<rparr>
           in (invitation_of uuid d', d')
      else (None, d))"

definition set_invitation_status :: "ident \<Rightarrow> string \<Rightarrow> directory \<Rightarrow> directory" where
  "set_invitation_status i status d =
     d\<lparr>di_invitations := update_rows (\<lambda>r. in_id r = i \<and> in_status r = ''pending'') (\<lambda>r. r\<lparr>in_status := status\<rparr>) (di_invitations d)\<rparr>"

definition queue_refreshes :: "refresh_row \<Rightarrow> ident \<Rightarrow> millis \<Rightarrow> ident list \<Rightarrow> directory \<Rightarrow> directory" where
  \<comment> \<open>\<open>INSERT INTO sharing_refresh SELECT ... ON CONFLICT DO UPDATE\<close> for these vaults: the row to insert,
      and revision and time in case of a conflict\<close>
  "queue_refreshes r revision at vaults d =
     d\<lparr>di_refreshes := fold (\<lambda>v. upsert_row rf_vault (r\<lparr>rf_vault := v\<rparr>) (\<lambda>x. x\<lparr>rf_revision := revision, rf_createdAt := at\<rparr>))
       vaults (di_refreshes d)\<rparr>"

definition accept_invitation ::
  "(nat \<Rightarrow> millis) \<Rightarrow> (nat \<Rightarrow> ident) \<Rightarrow> invitation_row \<Rightarrow> ident \<Rightarrow> directory \<Rightarrow> bool \<times> directory" where
  \<comment> \<open>the condition \<open>pending\<close> is the same for the four statements of the batch: only the last one changes it\<close>
  "accept_invitation clk uuid invite userId d =
     (if \<exists>i \<in> set (di_invitations d). in_id i = in_id invite \<and> pending_invitation (clk 0) i
      then let d1 = (if is_member (in_org invite) userId d then d
                     else d\<lparr>di_members := di_members d @ [\<lparr>mb_id = uuid 0, mb_org = in_org invite, mb_user = userId,
                       mb_role = (case in_role invite of None \<Rightarrow> ''member'' | Some r \<Rightarrow> r), mb_createdAt = clk 1\<rparr>]\<rparr>);
               d2 = d1\<lparr>di_vaults := update_rows (\<lambda>v. va_org v = in_org invite \<and> va_deletedAt v = None)
                     (\<lambda>v. v\<lparr>va_sharedAt := (case va_sharedAt v of None \<Rightarrow> Some (clk 2) | Some t \<Rightarrow> Some t)\<rparr>) (di_vaults d1)\<rparr>;
               d3 = queue_refreshes \<lparr>rf_vault = [], rf_revision = uuid 1, rf_createdAt = clk 3\<rparr> (uuid 2) (clk 4)
                     (map va_id (vaults_of (in_org invite) d2)) d2
           in (True, d3\<lparr>di_invitations := update_rows (\<lambda>i. in_id i = in_id invite) (\<lambda>i. i\<lparr>in_status := ''accepted''\<rparr>) (di_invitations d3)\<rparr>)
      else (False, d))"

section \<open>Members\<close>

definition change_organization_role :: "ident \<Rightarrow> ident \<Rightarrow> string \<Rightarrow> directory \<Rightarrow> directory" where
  "change_organization_role orgId userId role d =
     d\<lparr>di_members := update_rows (\<lambda>m. mb_org m = orgId \<and> mb_user m = userId \<and> mb_role m \<noteq> ''owner'') (\<lambda>m. m\<lparr>mb_role := role\<rparr>) (di_members d)\<rparr>"

definition vault_ids_of :: "ident \<Rightarrow> directory \<Rightarrow> ident list" where
  \<comment> \<open>deleted vaults included\<close>
  "vault_ids_of orgId d = map va_id (filter (\<lambda>v. va_org v = orgId) (di_vaults d))"

definition remove_organization_member ::
  "millis \<Rightarrow> (nat \<Rightarrow> ident) \<Rightarrow> ident \<Rightarrow> ident \<Rightarrow> directory \<Rightarrow> directory" where
  "remove_organization_member now uuid orgId userId d =
     (let vs = vault_ids_of orgId d;
          d1 = d\<lparr>di_memberships := update_rows (\<lambda>m. vm_vault m \<in> set vs \<and> vm_user m = userId \<and> vm_status m \<noteq> ''revoked'')
                (\<lambda>m. m\<lparr>vm_status := ''revoked'', vm_revokedAt := Some now, vm_version := vm_version m + 1\<rparr>) (di_memberships d)\<rparr>;
          d2 = d1\<lparr>di_wrappers := update_rows (\<lambda>w. kw_vault w \<in> set vs \<and> kw_user w = Some userId)
                (\<lambda>w. w\<lparr>kw_revokedAt := Some now\<rparr>) (di_wrappers d1)\<rparr>;
          d3 = d2\<lparr>di_requests := update_rows (\<lambda>r. kr_vault r \<in> set vs \<and> kr_user r = userId)
                (\<lambda>r. r\<lparr>kr_status := ''canceled'', kr_envelope := None\<rparr>) (di_requests d2)\<rparr>;
          d4 = queue_refreshes \<lparr>rf_vault = [], rf_revision = uuid 0, rf_createdAt = now\<rparr> (uuid 1) now vs d3
      in d4\<lparr>di_members := delete_rows (\<lambda>m. mb_org m = orgId \<and> mb_user m = userId) (di_members d4)\<rparr>)"

definition ensure_vault_enrollment :: "millis \<Rightarrow> ident \<Rightarrow> ident \<Rightarrow> directory \<Rightarrow> directory" where
  "ensure_vault_enrollment now vaultId userId d =
     (if \<exists>v \<in> set (di_vaults d). va_id v = vaultId \<and> va_deletedAt v = None \<and> is_member (va_org v) userId d
      then d\<lparr>di_memberships := upsert_row membership_key
             \<lparr>vm_vault = vaultId, vm_user = userId, vm_version = 1, vm_creator = False, vm_status = ''pending_key'',
              vm_joinedAt = now, vm_revokedAt = None\<rparr>
             (\<lambda>m. if vm_status m = ''revoked''
                then m\<lparr>vm_status := ''pending_key'', vm_revokedAt := None, vm_version := vm_version m + 1\<rparr> else m)
             (di_memberships d)\<rparr>
      else d)"

section \<open>Refresh tasks\<close>

definition finish_refresh :: "ident \<Rightarrow> ident \<Rightarrow> directory \<Rightarrow> directory" where
  "finish_refresh vaultId revision d =
     d\<lparr>di_refreshes := delete_rows (\<lambda>r. rf_vault r = vaultId \<and> rf_revision r = revision) (di_refreshes d)\<rparr>"

definition queue_refresh :: "(nat \<Rightarrow> millis) \<Rightarrow> (nat \<Rightarrow> ident) \<Rightarrow> ident \<Rightarrow> directory \<Rightarrow> directory option" where
  \<comment> \<open>the foreign key refuses a vault that is gone\<close>
  "queue_refresh clk uuid vaultId d =
     (if vaultId \<notin> va_id ` set (di_vaults d) then None
      else Some (queue_refreshes \<lparr>rf_vault = [], rf_revision = uuid 0, rf_createdAt = clk 0\<rparr> (uuid 1) (clk 1) [vaultId] d))"

section \<open>Key requests\<close>

definition open_request :: "request_row \<Rightarrow> bool" where
  "open_request r \<longleftrightarrow> kr_status r \<in> {''pending'', ''approved''}"

definition cancel_request :: "request_row \<Rightarrow> request_row" where
  "cancel_request r = r\<lparr>kr_status := ''canceled'', kr_envelope := None\<rparr>"

definition prune_expired_requests :: "millis \<Rightarrow> directory \<Rightarrow> directory" where
  "prune_expired_requests now d =
     d\<lparr>di_requests := update_rows (\<lambda>r. kr_expiresAt r \<le> now \<and> open_request r) cancel_request (di_requests d)\<rparr>"

definition create_key_request :: "request_row \<Rightarrow> directory \<Rightarrow> directory option" where
  \<comment> \<open>the primary key may be taken, or the vault may be gone: then the batch fails as a whole\<close>
  "create_key_request r d =
     (if (\<exists>x \<in> set (di_requests d). kr_id x = kr_id r) \<or> kr_vault r \<notin> va_id ` set (di_vaults d) then None
      else Some (d\<lparr>di_requests := update_rows (\<lambda>x. kr_vault x = kr_vault r \<and> kr_user x = kr_user r \<and> open_request x)
        cancel_request (di_requests d) @ [r]\<rparr>))"

definition can_approve :: "ident \<Rightarrow> ident \<Rightarrow> directory \<Rightarrow> bool" where
  \<comment> \<open>the first \<open>EXISTS\<close>: an active owner or administrator of the vault's organization\<close>
  "can_approve vaultId userId d \<longleftrightarrow> (\<exists>a \<in> set (di_memberships d). \<exists>v \<in> set (di_vaults d). \<exists>m \<in> set (di_members d).
     va_id v = vm_vault a \<and> mb_org m = va_org v \<and> mb_user m = vm_user a \<and> vm_vault a = vaultId \<and> vm_user a = userId \<and>
     vm_status a = ''active'' \<and> mb_role m \<in> {''owner'', ''admin''} \<and> va_deletedAt v = None)"

definition current_enrollment :: "request_row \<Rightarrow> membership_row \<Rightarrow> bool" where
  "current_enrollment r m \<longleftrightarrow> vm_vault m = kr_vault r \<and> vm_user m = kr_user r \<and> vm_version m = kr_version r \<and>
     vm_status m \<in> {''active'', ''pending_key''}"

definition approve_key_request :: "millis \<Rightarrow> ident \<Rightarrow> ident \<Rightarrow> transfer_envelope \<Rightarrow> directory \<Rightarrow> bool \<times> directory" where
  "approve_key_request now i approvedBy envelope d =
     (let P = (\<lambda>r. kr_id r = i \<and> kr_status r = ''pending'' \<and> kr_expiresAt r > now \<and> can_approve (kr_vault r) approvedBy d \<and>
            (\<exists>m \<in> set (di_memberships d). current_enrollment r m))
      in (\<exists>r \<in> set (di_requests d). P r,
          d\<lparr>di_requests := update_rows P (\<lambda>r. r\<lparr>kr_status := ''approved'', kr_approvedBy := Some approvedBy, kr_envelope := Some envelope\<rparr>)
            (di_requests d)\<rparr>))"

definition completable :: "millis \<Rightarrow> request_row \<Rightarrow> directory \<Rightarrow> bool" where
  \<comment> \<open>\<open>current\<close>: the request as it was read, against the rows as they are\<close>
  "completable now request d \<longleftrightarrow>
     (\<exists>r \<in> set (di_requests d). kr_id r = kr_id request \<and> kr_status r = ''approved'' \<and> kr_expiresAt r > now) \<and>
     (\<exists>m \<in> set (di_memberships d). \<exists>o' \<in> set (di_members d). \<exists>v \<in> set (di_vaults d). mb_user o' = vm_user m \<and>
        va_id v = vm_vault m \<and> va_org v = mb_org o' \<and> current_enrollment request m)"

definition complete_key_request ::
  "(nat \<Rightarrow> millis) \<Rightarrow> ident \<Rightarrow> request_row \<Rightarrow> key_envelope \<Rightarrow> directory \<Rightarrow> bool \<times> directory" where
  "complete_key_request clk uuid request envelope d =
     (if completable (clk 0) request d
      then let d1 = d\<lparr>di_wrappers := upsert_row wrapper_key
                 \<lparr>kw_id = uuid, kw_vault = kr_vault request, kw_keyVersion = ke_keyVersion envelope, kw_kind = ''password'',
                  kw_user = Some (kr_user request), kw_envelope = envelope, kw_createdAt = clk 1, kw_revokedAt = None\<rparr>
                 (\<lambda>w. w\<lparr>kw_envelope := envelope, kw_revokedAt := None\<rparr>) (di_wrappers d)\<rparr>;
               d2 = d1\<lparr>di_memberships := update_rows
                 (\<lambda>m. vm_vault m = kr_vault request \<and> vm_user m = kr_user request \<and> vm_version m = kr_version request)
                 (\<lambda>m. m\<lparr>vm_status := ''active'', vm_revokedAt := None\<rparr>) (di_memberships d1)\<rparr>
           in (True, d2\<lparr>di_requests := update_rows (\<lambda>r. kr_id r = kr_id request)
                 (\<lambda>r. r\<lparr>kr_status := ''completed'', kr_envelope := None\<rparr>) (di_requests d2)\<rparr>)
      else (False, d))"

end
