(* ===== verification/Vault_Store.thy ===== *)
theory Vault_Store
  imports Directory
begin

text \<open>
  \<open>vault/domain/policy.ts\<close> and \<open>vault/adapters/outbound/drizzle-vault-store.ts\<close>: who may access or
  manage a vault, and the statements behind the catalogue of vaults, their keys and their deletion.
  A violated unique index or primary key is an exception of the database.
\<close>

section \<open>Policy\<close>

record authorization_facts =
  af_vault :: "(ident \<times> bool) option" \<comment> \<open>organization, and whether it is deleted\<close>
  af_status :: "string option" \<comment> \<open>of the vault membership\<close>
  af_role :: "string option"

definition can_access_vault :: "authorization_facts \<Rightarrow> bool" where
  "can_access_vault f \<longleftrightarrow> (case af_vault f of None \<Rightarrow> False | Some (_, deleted) \<Rightarrow>
     \<not> deleted \<and> af_status f = Some ''active'' \<and> af_role f \<noteq> None)"

definition can_manage_vault :: "authorization_facts \<Rightarrow> bool" where
  "can_manage_vault f \<longleftrightarrow> (case af_vault f of None \<Rightarrow> False | Some (_, deleted) \<Rightarrow>
     \<not> deleted \<and> (af_role f = Some ''owner'' \<or> af_role f = Some ''admin''))"

definition vault_enrollment_status :: "membership_row option \<Rightarrow> string" where
  "vault_enrollment_status m = (case m of None \<Rightarrow> ''pending_key''
     | Some g \<Rightarrow> if vm_status g = ''revoked'' then ''pending_key'' else vm_status g)"

definition free_vault_inactivity_delete_after_ms :: millis where
  "free_vault_inactivity_delete_after_ms = 90 * 24 * 60 * 60 * 1000"

section \<open>Errors and records\<close>

datatype vault_error =
    Vault_error string
  | Vault_limit_exceeded string int \<comment> \<open>the error with its details: plan name and limit\<close>
  | Database_error \<comment> \<open>a constraint is violated\<close>

record vault_record =
  vr_id :: ident
  vr_org :: ident
  vr_name :: string
  vr_keyVersion :: int
  vr_createdAt :: millis
  vr_deletedAt :: "millis option"
  vr_purgeStatus :: "string option"
  vr_purgeError :: "string option"

definition to_vault_record :: "vault_row \<Rightarrow> vault_record" where
  "to_vault_record v = \<lparr>vr_id = va_id v, vr_org = va_org v, vr_name = va_name v, vr_keyVersion = va_keyVersion v,
     vr_createdAt = va_createdAt v, vr_deletedAt = va_deletedAt v,
     vr_purgeStatus = (if va_purgeStatus v \<in> {Some ''queued'', Some ''running'', Some ''failed'', None} then va_purgeStatus v else None),
     vr_purgeError = va_purgeError v\<rparr>"

section \<open>Reads\<close>

definition read_vault_authorization_facts :: "ident \<Rightarrow> ident \<Rightarrow> directory \<Rightarrow> authorization_facts" where
  "read_vault_authorization_facts userId vaultId d =
     (case row_of va_id vaultId (di_vaults d) of
        None \<Rightarrow> \<lparr>af_vault = None, af_status = None, af_role = None\<rparr>
      | Some v \<Rightarrow> \<lparr>af_vault = Some (va_org v, va_deletedAt v \<noteq> None),
          af_status = map_option vm_status (grant_of vaultId userId d),
          af_role = map_option mb_role (find (\<lambda>m. mb_org m = va_org v \<and> mb_user m = userId) (di_members d))\<rparr>)"

definition list_vaults_for_user :: "ident \<Rightarrow> bool \<Rightarrow> directory \<Rightarrow> vault_record list" where
  "list_vaults_for_user userId includeDeleting d =
     map to_vault_record (sort_key va_createdAt
       (concat (map (\<lambda>v. map (\<lambda>_. v) (filter (\<lambda>m. mb_org m = va_org v \<and> mb_user m = userId) (di_members d)))
         (filter (\<lambda>v. includeDeleting \<or> va_deletedAt v = None) (di_vaults d)))))"

definition accessible_vault_row :: "ident \<Rightarrow> ident \<Rightarrow> directory \<Rightarrow> vault_row option" where
  "accessible_vault_row userId vaultId d =
     find (\<lambda>v. va_id v = vaultId \<and> va_deletedAt v = None \<and> is_member (va_org v) userId d \<and>
       (\<exists>g \<in> set (di_memberships d). vm_vault g = vaultId \<and> vm_user g = userId \<and> vm_status g = ''active'')) (di_vaults d)"

definition read_accessible_vault :: "ident \<Rightarrow> ident \<Rightarrow> directory \<Rightarrow> vault_record option" where
  "read_accessible_vault userId vaultId d = map_option to_vault_record (accessible_vault_row userId vaultId d)"

definition count_vaults :: "ident \<Rightarrow> directory \<Rightarrow> int" where
  "count_vaults orgId d = int (length (filter (\<lambda>v. va_org v = orgId \<and> va_deletedAt v = None) (di_vaults d)))"

definition list_active_vault_ids :: "ident \<Rightarrow> directory \<Rightarrow> ident list" where
  "list_active_vault_ids orgId d =
     map va_id (sort_key va_createdAt (filter (\<lambda>v. va_org v = orgId \<and> va_deletedAt v = None) (di_vaults d)))"

definition vault_name_exists :: "ident \<Rightarrow> string \<Rightarrow> directory \<Rightarrow> bool" where
  "vault_name_exists orgId name d \<longleftrightarrow> (\<exists>v \<in> set (di_vaults d). va_org v = orgId \<and> va_name v = name \<and> va_deletedAt v = None)"

definition read_default_organization_id :: "ident \<Rightarrow> directory \<Rightarrow> ident option" where
  "read_default_organization_id userId d =
     (case sort_key mb_createdAt (filter (\<lambda>m. mb_user m = userId) (di_members d)) of [] \<Rightarrow> None | m # _ \<Rightarrow> Some (mb_org m))"

definition user_is_organization_member :: "ident \<Rightarrow> ident \<Rightarrow> directory \<Rightarrow> bool" where
  "user_is_organization_member userId orgId d = is_member orgId userId d"

definition read_vault_organization_id :: "ident \<Rightarrow> directory \<Rightarrow> ident option" where
  "read_vault_organization_id vaultId d = map_option va_org (live_vault vaultId d)"

definition read_vault_bootstrap :: "ident \<Rightarrow> ident \<Rightarrow> directory \<Rightarrow> (vault_record \<times> wrapper_row list) option" where
  "read_vault_bootstrap userId vaultId d =
     map_option (\<lambda>v. (to_vault_record v, sort_key kw_createdAt
         (filter (\<lambda>w. kw_vault w = vaultId \<and> kw_revokedAt w = None \<and>
            (kw_user w = Some userId \<or> (kw_user w = None \<and> va_sharedAt v = None))) (di_wrappers d))))
       (accessible_vault_row userId vaultId d)"

section \<open>Creation\<close>

definition unique_vault_name :: "vault_row list \<Rightarrow> bool" where
  \<comment> \<open>the index \<open>vault_organization_name_active_uidx\<close>\<close>
  "unique_vault_name vs \<longleftrightarrow> distinct (map (\<lambda>v. (va_org v, va_name v)) (filter (\<lambda>v. va_deletedAt v = None) vs))"

definition create_vault_for_user ::
  "(nat \<Rightarrow> ident) \<Rightarrow> millis \<Rightarrow> ident \<Rightarrow> ident \<Rightarrow> string \<Rightarrow> string \<times> key_envelope \<Rightarrow> int \<Rightarrow> directory \<Rightarrow>
   (vault_error + vault_record) \<times> directory" where
  \<comment> \<open>the wrapper is a kind and an envelope; a batch that violates a constraint changes nothing\<close>
  "create_vault_for_user uuid now userId orgId name wrapper maxVaults d =
     (if (maxVaults = 0 \<or> count_vaults orgId d < maxVaults) \<and>
         (\<exists>m \<in> set (di_members d). mb_org m = orgId \<and> mb_user m = userId \<and> mb_role m \<in> {''owner'', ''admin''})
      then let row = \<lparr>va_id = uuid 0, va_org = orgId, va_name = name,
                 va_sharedAt = (if length (filter (\<lambda>m. mb_org m = orgId) (di_members d)) > 1 then Some now else None),
                 va_keyVersion = ke_keyVersion (snd wrapper), va_createdAt = now, va_deletedAt = None,
                 va_purgeStatus = None, va_purgeError = None\<rparr>
           in if uuid 0 \<in> va_id ` set (di_vaults d) \<or> \<not> unique_vault_name (di_vaults d @ [row]) then (Inl Database_error, d)
              else (Inr (to_vault_record row), d\<lparr>di_vaults := di_vaults d @ [row],
                di_wrappers := di_wrappers d @ [\<lparr>kw_id = uuid 1, kw_vault = uuid 0, kw_keyVersion = ke_keyVersion (snd wrapper),
                  kw_kind = fst wrapper, kw_user = Some userId, kw_envelope = snd wrapper, kw_createdAt = now, kw_revokedAt = None\<rparr>],
                di_memberships := di_memberships d @ [\<lparr>vm_vault = uuid 0, vm_user = userId, vm_version = 1, vm_creator = True,
                  vm_status = ''active'', vm_joinedAt = now, vm_revokedAt = None\<rparr>]\<rparr>)
      else (Inl (Vault_limit_exceeded ''Organization'' maxVaults), d))"

section \<open>Deletion\<close>

definition mark_vault_deletion_queued :: "millis \<Rightarrow> ident \<Rightarrow> directory \<Rightarrow> bool \<times> directory" where
  "mark_vault_deletion_queued now vaultId d =
     (\<exists>v \<in> set (di_vaults d). va_id v = vaultId \<and> va_deletedAt v = None,
      d\<lparr>di_vaults := update_rows (\<lambda>v. va_id v = vaultId \<and> va_deletedAt v = None)
        (\<lambda>v. v\<lparr>va_deletedAt := Some now, va_purgeStatus := Some ''queued'', va_purgeError := None\<rparr>) (di_vaults d)\<rparr>)"

record inactive_candidate =
  ic_vault :: ident
  ic_org :: ident
  ic_name :: string
  ic_ownerEmail :: string
  ic_lastCommitAt :: "millis option"

definition last_commit_at :: "ident \<Rightarrow> directory \<Rightarrow> millis option" where
  \<comment> \<open>the left join with \<open>vault_sync_status\<close>\<close>
  "last_commit_at vaultId d = (case row_of fst vaultId (di_commits d) of None \<Rightarrow> None | Some (_, at) \<Rightarrow> at)"

definition inactive_vault :: "millis \<Rightarrow> directory \<Rightarrow> vault_row \<Rightarrow> bool" where
  "inactive_vault inactiveSince d v \<longleftrightarrow> va_deletedAt v = None \<and> va_sharedAt v = None \<and>
     (case last_commit_at (va_id v) d of None \<Rightarrow> va_createdAt v | Some t \<Rightarrow> t) \<le> inactiveSince"

definition owner_emails :: "ident \<Rightarrow> directory \<Rightarrow> string list" where
  "owner_emails orgId d =
     concat (map (\<lambda>m. map us_email (filter (\<lambda>u. us_id u = mb_user m) (di_users d)))
       (filter (\<lambda>m. mb_org m = orgId \<and> mb_role m = ''owner'') (di_members d)))"

definition inactive_candidates :: "millis \<Rightarrow> directory \<Rightarrow> inactive_candidate list" where
  \<comment> \<open>the joined rows, ordered by the id of the vault\<close>
  "inactive_candidates inactiveSince d =
     concat (map (\<lambda>v. map (\<lambda>email. \<lparr>ic_vault = va_id v, ic_org = va_org v, ic_name = va_name v, ic_ownerEmail = email,
         ic_lastCommitAt = last_commit_at (va_id v) d\<rparr>) (owner_emails (va_org v) d))
       (sort_key va_id (filter (inactive_vault inactiveSince d) (di_vaults d))))"

definition list_inactive_vault_candidates ::
  "millis \<Rightarrow> ident option \<Rightarrow> int \<Rightarrow> directory \<Rightarrow> inactive_candidate list" where
  "list_inactive_vault_candidates inactiveSince afterVaultId limit d =
     sql_limit limit (filter (\<lambda>c. \<not> truthy afterVaultId \<or> ic_vault c > the afterVaultId) (inactive_candidates inactiveSince d))"

definition mark_vault_purge_running :: "ident \<Rightarrow> directory \<Rightarrow> directory" where
  "mark_vault_purge_running vaultId d =
     d\<lparr>di_vaults := update_rows (\<lambda>v. va_id v = vaultId \<and> va_deletedAt v \<noteq> None)
        (\<lambda>v. v\<lparr>va_purgeStatus := Some ''running'', va_purgeError := None\<rparr>) (di_vaults d)\<rparr>"

definition mark_vault_purge_failed :: "ident \<Rightarrow> string \<Rightarrow> directory \<Rightarrow> directory" where
  "mark_vault_purge_failed vaultId msg d =
     d\<lparr>di_vaults := update_rows (\<lambda>v. va_id v = vaultId \<and> va_deletedAt v \<noteq> None)
        (\<lambda>v. v\<lparr>va_purgeStatus := Some ''failed'', va_purgeError := Some msg\<rparr>) (di_vaults d)\<rparr>"

definition mark_vault_deletion_queue_failed :: "ident \<Rightarrow> string \<Rightarrow> directory \<Rightarrow> directory option" where
  \<comment> \<open>the vault becomes active again, which may violate the unique index on names\<close>
  "mark_vault_deletion_queue_failed vaultId msg d =
     (let vs = update_rows (\<lambda>v. va_id v = vaultId)
            (\<lambda>v. v\<lparr>va_deletedAt := None, va_purgeStatus := Some ''failed'', va_purgeError := Some msg\<rparr>) (di_vaults d)
      in if unique_vault_name vs then Some (d\<lparr>di_vaults := vs\<rparr>) else None)"

definition hard_delete_vault :: "ident \<Rightarrow> directory \<Rightarrow> directory" where
  \<comment> \<open>with the rows that cascade: memberships, wrappers, requests, refreshes, sync status\<close>
  "hard_delete_vault vaultId d =
     (if \<exists>v \<in> set (di_vaults d). va_id v = vaultId
      then d\<lparr>di_vaults := delete_rows (\<lambda>v. va_id v = vaultId) (di_vaults d),
             di_memberships := delete_rows (\<lambda>m. vm_vault m = vaultId) (di_memberships d),
             di_wrappers := delete_rows (\<lambda>w. kw_vault w = vaultId) (di_wrappers d),
             di_requests := delete_rows (\<lambda>r. kr_vault r = vaultId) (di_requests d),
             di_refreshes := delete_rows (\<lambda>r. rf_vault r = vaultId) (di_refreshes d),
             di_commits := delete_rows (\<lambda>c. fst c = vaultId) (di_commits d)\<rparr>
      else d)"

section \<open>Password wrappers\<close>

definition may_store_wrapper :: "ident \<Rightarrow> ident \<Rightarrow> key_envelope \<Rightarrow> directory \<Rightarrow> bool" where
  \<comment> \<open>\<open>authorized\<close>\<close>
  "may_store_wrapper userId vaultId envelope d \<longleftrightarrow>
     (\<exists>v \<in> set (di_vaults d). \<exists>m \<in> set (di_memberships d). vm_vault m = va_id v \<and> is_member (va_org v) (vm_user m) d \<and>
        va_id v = vaultId \<and> va_deletedAt v = None \<and> vm_user m = userId \<and> vm_status m = ''active'' \<and>
        va_keyVersion v = ke_keyVersion envelope)"

definition upsert_password_wrapper ::
  "ident \<Rightarrow> millis \<Rightarrow> ident \<Rightarrow> ident \<Rightarrow> key_envelope \<Rightarrow> directory \<Rightarrow> (vault_error + wrapper_row) \<times> directory" where
  "upsert_password_wrapper uuid now userId vaultId envelope d =
     (if may_store_wrapper userId vaultId envelope d
      then let ws = upsert_row wrapper_key
                 \<lparr>kw_id = uuid, kw_vault = vaultId, kw_keyVersion = ke_keyVersion envelope, kw_kind = ''password'',
                  kw_user = Some userId, kw_envelope = envelope, kw_createdAt = now, kw_revokedAt = None\<rparr>
                 (\<lambda>w. w\<lparr>kw_envelope := envelope, kw_revokedAt := None\<rparr>) (di_wrappers d)
           in (Inr (the (row_of wrapper_key (vaultId, ''password'', Some userId) ws)),
               d\<lparr>di_wrappers := ws,
                 di_requests := update_rows (\<lambda>r. kr_vault r = vaultId \<and> kr_user r = userId \<and> kr_status r \<in> {''pending'', ''approved''})
                   (\<lambda>r. r\<lparr>kr_status := ''canceled'', kr_envelope := None\<rparr>) (di_requests d)\<rparr>)
      else (Inl (Vault_error ''forbidden''), d))"

end
