(* ===== verification/Directory_Steps.thy ===== *)
theory Directory_Steps
  imports Sharing_Store Vault_Store
begin

text \<open>
  The database under every sequence of the statements that the sharing and the vault stores issue.
  Requests of many users, the purge queue and the scheduled jobs run concurrently on this database; a
  statement, or a batch, is atomic, so what they can do together is a sequence of \<open>directory_step\<close>s in
  any order. \<open>directory_ok\<close> is what holds in between: keys are unique, a vault's keys follow the membership
  in its organization, and a key request holds an envelope only while it is approved.
\<close>

section \<open>Steps\<close>

datatype directory_step =
    Sign_up user_row organization_row member_row
  | Rename_organization ident string
  | Audit_entry ident millis ident ident string ident
  | Claim_delivery ident millis invitation_row
  | Invite ident millis invitation_input
  | Close_invitation ident string
  | Accept "nat \<Rightarrow> millis" "nat \<Rightarrow> ident" invitation_row ident
  | Change_role ident ident string
  | Remove_member millis "nat \<Rightarrow> ident" ident ident
  | Ensure_enrollment millis ident ident
  | Queue_refresh "nat \<Rightarrow> millis" "nat \<Rightarrow> ident" ident
  | Finish_refresh ident ident
  | Prune_requests millis
  | Create_request request_row
  | Approve_request millis ident ident transfer_envelope
  | Complete_request "nat \<Rightarrow> millis" ident request_row key_envelope
  | Create_vault "nat \<Rightarrow> ident" millis ident ident string "string \<times> key_envelope" int
  | Queue_deletion millis ident
  | Revive_vault ident string
  | Purge_running ident
  | Purge_failed ident string
  | Purge_done ident
  | Store_wrapper ident millis ident ident key_envelope

fun dir_step :: "directory_step \<Rightarrow> directory \<Rightarrow> directory" where
  \<comment> \<open>better-auth creates a user, and its hook the personal organization with the user as owner\<close>
  "dir_step (Sign_up u g m) d =
     d\<lparr>di_users := di_users d @ [u], di_orgs := di_orgs d @ [g], di_members := di_members d @ [m]\<rparr>"
| "dir_step (Rename_organization orgId name) d = rename_organization orgId name d"
| "dir_step (Audit_entry uuid now orgId actorId action targetId) d = audit uuid now orgId actorId action targetId d"
| "dir_step (Claim_delivery uuid now invite) d = snd (claim_invitation_delivery uuid now invite d)"
| "dir_step (Invite uuid now input) d = snd (create_invitation uuid now input d)"
| "dir_step (Close_invitation i status) d = set_invitation_status i status d"
| "dir_step (Accept clk uuid invite userId) d = snd (accept_invitation clk uuid invite userId d)"
| "dir_step (Change_role orgId userId role) d = change_organization_role orgId userId role d"
| "dir_step (Remove_member now uuid orgId userId) d = remove_organization_member now uuid orgId userId d"
| "dir_step (Ensure_enrollment now vaultId userId) d = ensure_vault_enrollment now vaultId userId d"
| "dir_step (Queue_refresh clk uuid vaultId) d = (case queue_refresh clk uuid vaultId d of None \<Rightarrow> d | Some d' \<Rightarrow> d')"
| "dir_step (Finish_refresh vaultId revision) d = finish_refresh vaultId revision d"
| "dir_step (Prune_requests now) d = prune_expired_requests now d"
| "dir_step (Create_request r) d = (case create_key_request r d of None \<Rightarrow> d | Some d' \<Rightarrow> d')"
| "dir_step (Approve_request now i approvedBy envelope) d = snd (approve_key_request now i approvedBy envelope d)"
| "dir_step (Complete_request clk uuid request envelope) d = snd (complete_key_request clk uuid request envelope d)"
| "dir_step (Create_vault uuid now userId orgId name wrapper maxVaults) d =
     snd (create_vault_for_user uuid now userId orgId name wrapper maxVaults d)"
| "dir_step (Queue_deletion now vaultId) d = snd (mark_vault_deletion_queued now vaultId d)"
| "dir_step (Revive_vault vaultId msg) d =
     (case mark_vault_deletion_queue_failed vaultId msg d of None \<Rightarrow> d | Some d' \<Rightarrow> d')"
| "dir_step (Purge_running vaultId) d = mark_vault_purge_running vaultId d"
| "dir_step (Purge_failed vaultId msg) d = mark_vault_purge_failed vaultId msg d"
| "dir_step (Purge_done vaultId) d = hard_delete_vault vaultId d"
| "dir_step (Store_wrapper uuid now userId vaultId envelope) d =
     snd (upsert_password_wrapper uuid now userId vaultId envelope d)"

section \<open>The invariant\<close>

definition keys_ok :: "directory \<Rightarrow> bool" where
  "keys_ok d \<longleftrightarrow> keyed va_id (di_vaults d) \<and> keyed membership_key (di_memberships d) \<and> keyed in_id (di_invitations d) \<and>
     keyed kr_id (di_requests d) \<and> keyed rf_vault (di_refreshes d)"

definition enrollment_ok :: "directory \<Rightarrow> membership_row \<Rightarrow> bool" where
  \<comment> \<open>the vault exists, and who is enrolled in it is a member of its organization\<close>
  "enrollment_ok d m \<longleftrightarrow> 1 \<le> vm_version m \<and>
     (\<exists>v \<in> set (di_vaults d). va_id v = vm_vault m \<and> (vm_status m \<noteq> ''revoked'' \<longrightarrow> is_member (va_org v) (vm_user m) d))"

definition wrapper_ok :: "directory \<Rightarrow> wrapper_row \<Rightarrow> bool" where
  \<comment> \<open>a user's key that is not revoked belongs to an active enrollment\<close>
  "wrapper_ok d w \<longleftrightarrow> kw_user w = None \<or> kw_revokedAt w \<noteq> None \<or>
     (\<exists>m \<in> set (di_memberships d). vm_vault m = kw_vault w \<and> Some (vm_user m) = kw_user w \<and> vm_status m = ''active'')"

definition request_ok :: "request_row \<Rightarrow> bool" where
  "request_ok r \<longleftrightarrow> (kr_envelope r \<noteq> None \<longleftrightarrow> kr_status r = ''approved'')"

definition request_key :: "request_row \<Rightarrow> ident \<times> ident" where
  "request_key r = (kr_vault r, kr_user r)"

definition directory_ok :: "directory \<Rightarrow> bool" where
  "directory_ok d \<longleftrightarrow> keys_ok d \<and> (\<forall>m \<in> set (di_memberships d). enrollment_ok d m) \<and>
     (\<forall>w \<in> set (di_wrappers d). wrapper_ok d w) \<and> (\<forall>r \<in> set (di_requests d). request_ok r) \<and>
     keyed request_key (filter open_request (di_requests d))"

definition genuine :: "directory_step \<Rightarrow> directory \<Rightarrow> bool" where
  \<comment> \<open>what the services pass: fresh random ids, rows as they were read, new requests as the service makes them\<close>
  "genuine e d = (case e of
       Invite uuid now input \<Rightarrow> uuid \<notin> in_id ` set (di_invitations d)
     | Close_invitation i status \<Rightarrow> status \<in> {''canceled'', ''rejected''}
     | Accept clk uuid invite userId \<Rightarrow> (\<forall>i \<in> set (di_invitations d). in_id i = in_id invite \<longrightarrow> in_org i = in_org invite)
     | Create_request r \<Rightarrow> kr_status r = ''pending'' \<and> kr_envelope r = None
     | _ \<Rightarrow> True)"

section \<open>The statements keep the invariant\<close>

lemma directory_okD:
  assumes "directory_ok d"
  shows "keys_ok d" "\<And>m. m \<in> set (di_memberships d) \<Longrightarrow> enrollment_ok d m" "\<And>w. w \<in> set (di_wrappers d) \<Longrightarrow> wrapper_ok d w"
    "\<And>r. r \<in> set (di_requests d) \<Longrightarrow> request_ok r" "keyed request_key (filter open_request (di_requests d))"
  using assms by (auto simp: directory_ok_def)

lemma enrollment_ok_mono:
  assumes "enrollment_ok d m" "\<And>v. v \<in> set (di_vaults d) \<Longrightarrow> \<exists>v' \<in> set (di_vaults d'). va_id v' = va_id v \<and> va_org v' = va_org v"
    "\<And>g u. is_member g u d \<Longrightarrow> is_member g u d'"
  shows "enrollment_ok d' m"
  using assms unfolding enrollment_ok_def by metis

lemma wrapper_ok_same: "di_memberships d' = di_memberships d \<Longrightarrow> wrapper_ok d' w = wrapper_ok d w"
  by (simp add: wrapper_ok_def)

lemma directory_ok_frame:
  assumes ok: "directory_ok d" and same: "di_memberships d' = di_memberships d" "di_wrappers d' = di_wrappers d" "di_requests d' = di_requests d"
    and vaults: "\<And>v. v \<in> set (di_vaults d) \<Longrightarrow> \<exists>v' \<in> set (di_vaults d'). va_id v' = va_id v \<and> va_org v' = va_org v"
    and keys: "keyed va_id (di_vaults d')" "keyed in_id (di_invitations d')" "keyed rf_vault (di_refreshes d')"
    and members: "\<And>g u. is_member g u d \<Longrightarrow> is_member g u d'"
  shows "directory_ok d'"
proof -
  have "enrollment_ok d' m" if "m \<in> set (di_memberships d)" for m
    using directory_okD(2)[OF ok that] vaults members by (rule enrollment_ok_mono)
  then show ?thesis using directory_okD(1,3,4,5)[OF ok] keys
    by (simp add: directory_ok_def keys_ok_def same wrapper_ok_same[OF same(1)])
qed

lemma keyed_filter_update:
  assumes "keyed key (filter P rows)" "\<And>r. Q r \<Longrightarrow> key (f r) = key r" "\<And>r. Q r \<Longrightarrow> P (f r) \<Longrightarrow> P r"
  shows "keyed key (filter P (update_rows Q f rows))"
  using assms
proof (induction rows)
  case (Cons r rs)
  have sub: "key ` set (filter P (update_rows Q f rs)) \<subseteq> key ` set (filter P rs)"
    using Cons.prems(2,3) by (auto simp: update_rows_def)
  show ?case using Cons sub by (auto simp: keyed_def update_rows_def split: if_splits)
qed (simp add: update_rows_def)

lemma directory_ok_requests:
  assumes ok: "directory_ok d" and f: "\<And>r. P r \<Longrightarrow> kr_id (f r) = kr_id r" "\<And>r. P r \<Longrightarrow> request_key (f r) = request_key r"
    "\<And>r. P r \<Longrightarrow> request_ok (f r)" "\<And>r. P r \<Longrightarrow> open_request (f r) \<Longrightarrow> open_request r"
  shows "directory_ok (d\<lparr>di_requests := update_rows P f (di_requests d)\<rparr>)"
proof -
  note o = directory_okD[OF ok]
  have e: "enrollment_ok (d\<lparr>di_requests := rs\<rparr>) m = enrollment_ok d m" for rs m
    by (simp add: enrollment_ok_def is_member_def)
  have w: "wrapper_ok (d\<lparr>di_requests := rs\<rparr>) x = wrapper_ok d x" for rs x by (simp add: wrapper_ok_def)
  have k: "keyed kr_id (update_rows P f (di_requests d))" using o(1) f(1) by (auto simp: keys_ok_def intro: keyed_update_rows)
  have k': "keyed request_key (filter open_request (update_rows P f (di_requests d)))"
    using o(5) f(2,4) by (rule keyed_filter_update)
  show ?thesis using o k k' f(3) by (auto simp: directory_ok_def keys_ok_def e w set_update_rows)
qed

lemma directory_ok_vaults:
  assumes "directory_ok d" "\<And>v. va_id (f v) = va_id v" "\<And>v. va_org (f v) = va_org v"
  shows "directory_ok (d\<lparr>di_vaults := update_rows P f (di_vaults d)\<rparr>)"
proof (rule directory_ok_frame[OF assms(1)])
  show "keyed va_id (di_vaults (d\<lparr>di_vaults := update_rows P f (di_vaults d)\<rparr>))"
    using directory_okD(1)[OF assms(1)] assms(2) by (auto simp: keys_ok_def intro: keyed_update_rows)
  show "\<exists>v' \<in> set (di_vaults (d\<lparr>di_vaults := update_rows P f (di_vaults d)\<rparr>)). va_id v' = va_id v \<and> va_org v' = va_org v"
    if "v \<in> set (di_vaults d)" for v
    using that assms(2,3) by (intro bexI[of _ "if P v then f v else v"]) (auto simp: set_update_rows)
qed (use directory_okD(1)[OF assms(1)] in \<open>auto simp: keys_ok_def is_member_def\<close>)

lemma keyed_queue_refreshes:
  "keyed rf_vault (di_refreshes d) \<Longrightarrow> keyed rf_vault (di_refreshes (queue_refreshes r revision at vs d))"
proof -
  have "keyed rf_vault rows \<Longrightarrow> keyed rf_vault
      (fold (\<lambda>v. upsert_row rf_vault (r\<lparr>rf_vault := v\<rparr>) (\<lambda>x. x\<lparr>rf_revision := revision, rf_createdAt := at\<rparr>)) vs rows)" for rows
    by (induction vs arbitrary: rows) (simp_all add: keyed_upsert_row)
  then show "keyed rf_vault (di_refreshes d) \<Longrightarrow> ?thesis" by (simp add: queue_refreshes_def)
qed

lemma queue_refreshes_fields [simp]:
  "di_users (queue_refreshes r n a vs d) = di_users d" "di_orgs (queue_refreshes r n a vs d) = di_orgs d"
  "di_members (queue_refreshes r n a vs d) = di_members d" "di_invitations (queue_refreshes r n a vs d) = di_invitations d"
  "di_vaults (queue_refreshes r n a vs d) = di_vaults d" "di_memberships (queue_refreshes r n a vs d) = di_memberships d"
  "di_wrappers (queue_refreshes r n a vs d) = di_wrappers d" "di_requests (queue_refreshes r n a vs d) = di_requests d"
  "di_audit (queue_refreshes r n a vs d) = di_audit d"
  by (simp_all add: queue_refreshes_def)

lemma queue_refreshes_ok: "directory_ok d \<Longrightarrow> directory_ok (queue_refreshes r n a vs d)"
  by (rule directory_ok_frame) (use directory_okD(1)[of d] in \<open>auto simp: keys_ok_def is_member_def keyed_queue_refreshes\<close>)

lemma invitations_ok:
  assumes "directory_ok d" "keyed in_id is"
  shows "directory_ok (d\<lparr>di_invitations := is\<rparr>)"
  by (rule directory_ok_frame[OF assms(1)]) (use assms directory_okD(1)[OF assms(1)] in \<open>auto simp: keys_ok_def is_member_def\<close>)

lemma more_members_ok:
  assumes "directory_ok d"
  shows "directory_ok (d\<lparr>di_members := di_members d @ ms\<rparr>)"
  by (rule directory_ok_frame[OF assms]) (use directory_okD(1)[OF assms] in \<open>auto simp: keys_ok_def is_member_def\<close>)

lemma create_invitation_ok:
  assumes ok: "directory_ok d" and fresh: "uuid \<notin> in_id ` set (di_invitations d)"
  shows "directory_ok (snd (create_invitation uuid now input d))"
proof -
  have "keyed in_id (di_invitations d @ [i])" if "in_id i = uuid" for i
    using directory_okD(1)[OF ok] fresh that by (auto simp: keys_ok_def keyed_def)
  then show ?thesis using ok invitations_ok[OF ok] by (auto simp: create_invitation_def Let_def)
qed

lemma set_invitation_status_ok: "directory_ok d \<Longrightarrow> directory_ok (set_invitation_status i status d)"
  unfolding set_invitation_status_def
  by (rule invitations_ok) (use directory_okD(1)[of d] in \<open>auto simp: keys_ok_def intro: keyed_update_rows\<close>)

lemma accept_invitation_ok:
  assumes ok: "directory_ok d"
  shows "directory_ok (snd (accept_invitation clk uuid invite userId d))"
proof -
  define d1 where "d1 = (if is_member (in_org invite) userId d then d else d\<lparr>di_members := di_members d @
    [\<lparr>mb_id = uuid 0, mb_org = in_org invite, mb_user = userId,
      mb_role = (case in_role invite of None \<Rightarrow> ''member'' | Some r \<Rightarrow> r), mb_createdAt = clk 1\<rparr>]\<rparr>)"
  define d2 where "d2 = d1\<lparr>di_vaults := update_rows (\<lambda>v. va_org v = in_org invite \<and> va_deletedAt v = None)
    (\<lambda>v. v\<lparr>va_sharedAt := (case va_sharedAt v of None \<Rightarrow> Some (clk 2) | Some t \<Rightarrow> Some t)\<rparr>) (di_vaults d1)\<rparr>"
  define d3 where "d3 = queue_refreshes \<lparr>rf_vault = [], rf_revision = uuid 1, rf_createdAt = clk 3\<rparr> (uuid 2) (clk 4)
    (map va_id (vaults_of (in_org invite) d2)) d2"
  have "directory_ok d1" using ok more_members_ok[OF ok] by (simp add: d1_def)
  then have "directory_ok d2" unfolding d2_def by (rule directory_ok_vaults) simp_all
  then have d3: "directory_ok d3" unfolding d3_def by (rule queue_refreshes_ok)
  have "directory_ok (d3\<lparr>di_invitations := update_rows (\<lambda>i. in_id i = in_id invite) (\<lambda>i. i\<lparr>in_status := ''accepted''\<rparr>) (di_invitations d3)\<rparr>)"
    by (rule invitations_ok[OF d3]) (use directory_okD(1)[OF d3] in \<open>auto simp: keys_ok_def intro: keyed_update_rows\<close>)
  then show ?thesis using ok unfolding accept_invitation_def Let_def d1_def[symmetric] d2_def[symmetric] d3_def[symmetric] by simp
qed

lemma is_member_delete:
  "is_member g u (d\<lparr>di_members := delete_rows (\<lambda>m. mb_org m = orgId \<and> mb_user m = userId) (di_members d)\<rparr>) \<longleftrightarrow>
     is_member g u d \<and> \<not> (g = orgId \<and> u = userId)"
  by (auto simp: is_member_def set_delete_rows)

lemma remove_organization_member_fields:
  defines "mine v d orgId \<equiv> v \<in> set (vault_ids_of orgId d)"
  shows "di_vaults (remove_organization_member now uuid orgId userId d) = di_vaults d"
    "di_invitations (remove_organization_member now uuid orgId userId d) = di_invitations d"
    "di_memberships (remove_organization_member now uuid orgId userId d) =
       update_rows (\<lambda>m. mine (vm_vault m) d orgId \<and> vm_user m = userId \<and> vm_status m \<noteq> ''revoked'')
         (\<lambda>m. m\<lparr>vm_status := ''revoked'', vm_revokedAt := Some now, vm_version := vm_version m + 1\<rparr>) (di_memberships d)"
    "di_wrappers (remove_organization_member now uuid orgId userId d) =
       update_rows (\<lambda>w. mine (kw_vault w) d orgId \<and> kw_user w = Some userId) (\<lambda>w. w\<lparr>kw_revokedAt := Some now\<rparr>) (di_wrappers d)"
    "di_requests (remove_organization_member now uuid orgId userId d) =
       update_rows (\<lambda>r. mine (kr_vault r) d orgId \<and> kr_user r = userId) cancel_request (di_requests d)"
    "di_members (remove_organization_member now uuid orgId userId d) =
       delete_rows (\<lambda>m. mb_org m = orgId \<and> mb_user m = userId) (di_members d)"
  by (simp_all add: remove_organization_member_def Let_def mine_def cancel_request_def[abs_def] queue_refreshes_def)

lemma vault_org_unique:
  "directory_ok d \<Longrightarrow> v \<in> set (di_vaults d) \<Longrightarrow> v' \<in> set (di_vaults d) \<Longrightarrow> va_id v = va_id v' \<Longrightarrow> v = v'"
  using directory_okD(1)[of d] keyed_unique[of va_id "di_vaults d" v v'] by (simp add: keys_ok_def)

lemma in_vault_ids_of: "vaultId \<in> set (vault_ids_of orgId d) \<longleftrightarrow> (\<exists>v \<in> set (di_vaults d). va_id v = vaultId \<and> va_org v = orgId)"
  by (auto simp: vault_ids_of_def)

lemma remove_organization_member_ok:
  assumes ok: "directory_ok d"
  shows "directory_ok (remove_organization_member now uuid orgId userId d)" (is "directory_ok ?d")
proof -
  note o = directory_okD[OF ok] and f = remove_organization_member_fields[of now uuid orgId userId d]
  have members: "is_member g u ?d \<longleftrightarrow> is_member g u d \<and> \<not> (g = orgId \<and> u = userId)" for g u
    by (auto simp: is_member_def f(6) set_delete_rows)
  have grants: "enrollment_ok ?d m" if "m \<in> set (di_memberships ?d)" for m
  proof -
    from that show ?thesis unfolding f(3)
    proof (cases rule: update_rowsE)
      case (changed m0)
      then show ?thesis using o(2)[OF changed(1)] by (auto simp: enrollment_ok_def f(1))
    next
      case kept
      then show ?thesis using o(2)[OF kept(1)] by (auto simp: enrollment_ok_def f(1) members in_vault_ids_of)
    qed
  qed
  have wrappers: "wrapper_ok ?d w" if "w \<in> set (di_wrappers ?d)" for w
    using that unfolding f(4)
  proof (cases rule: update_rowsE)
    case kept
    have "m \<in> set (di_memberships ?d)" if "m \<in> set (di_memberships d)" "vm_vault m = kw_vault w" "Some (vm_user m) = kw_user w" for m
      using that kept(2) by (force simp: f(3) set_update_rows)
    then show ?thesis using o(3)[OF kept(1)] by (auto simp: wrapper_ok_def)
  qed (simp add: wrapper_ok_def)
  have "keyed membership_key (di_memberships ?d)" unfolding f(3)
    by (rule keyed_update_rows) (use o(1) in \<open>simp_all add: keys_ok_def membership_key_def\<close>)
  moreover have "keyed kr_id (di_requests ?d)" unfolding f(5)
    by (rule keyed_update_rows) (use o(1) in \<open>simp_all add: keys_ok_def cancel_request_def\<close>)
  moreover have "keyed rf_vault (di_refreshes ?d)"
    using o(1) by (simp add: remove_organization_member_def Let_def keys_ok_def keyed_queue_refreshes)
  moreover have "keyed request_key (filter open_request (di_requests ?d))"
    unfolding f(5) by (rule keyed_filter_update[OF o(5)]) (simp_all add: request_key_def cancel_request_def open_request_def)
  moreover have "\<forall>r \<in> set (di_requests ?d). request_ok r"
    using o(4) by (auto simp: f(5) set_update_rows request_ok_def cancel_request_def)
  ultimately show ?thesis using o(1) grants wrappers by (auto simp: directory_ok_def keys_ok_def f(1,2))
qed

lemma ensure_vault_enrollment_ok:
  assumes ok: "directory_ok d"
  shows "directory_ok (ensure_vault_enrollment now vaultId userId d)"
proof (cases "\<exists>v \<in> set (di_vaults d). va_id v = vaultId \<and> va_deletedAt v = None \<and> is_member (va_org v) userId d")
  case True
  then obtain v where v: "v \<in> set (di_vaults d)" "va_id v = vaultId" "is_member (va_org v) userId d" by blast
  let ?row = "\<lparr>vm_vault = vaultId, vm_user = userId, vm_version = 1, vm_creator = False, vm_status = ''pending_key'',
     vm_joinedAt = now, vm_revokedAt = None\<rparr>"
  let ?f = "\<lambda>m. if vm_status m = ''revoked''
     then m\<lparr>vm_status := ''pending_key'', vm_revokedAt := None, vm_version := vm_version m + 1\<rparr> else m"
  let ?d = "d\<lparr>di_memberships := upsert_row membership_key ?row ?f (di_memberships d)\<rparr>"
  note o = directory_okD[OF ok]
  have kept: "enrollment_ok ?d m = enrollment_ok d m" for m by (simp add: enrollment_ok_def is_member_def)
  have grants: "enrollment_ok d m" if "m \<in> set (di_memberships ?d)" for m
  proof -
    from that have "m \<in> set (upsert_row membership_key ?row ?f (di_memberships d))" by simp
    then show ?thesis
    proof (cases rule: upsert_rowE)
      case (changed m0)
      have "1 \<le> vm_version m0" using o(2)[OF changed(1)] by (simp add: enrollment_ok_def)
      then have "vm_vault m = vaultId \<and> vm_user m = userId \<and> 1 \<le> vm_version m"
        using changed(2) by (simp add: changed(3) membership_key_def)
      then show ?thesis using v unfolding enrollment_ok_def by metis
    next
      case inserted
      then show ?thesis using v by (auto simp: enrollment_ok_def)
    qed (rule o(2))
  qed
  have wrappers: "wrapper_ok ?d w" if "w \<in> set (di_wrappers d)" for w
  proof -
    have "m \<in> set (di_memberships ?d)" if "m \<in> set (di_memberships d)" "vm_status m = ''active''" for m
      using that image_eqI[of m _ m "set (di_memberships d)"] by (simp add: upsert_row_def set_update_rows)
    then show ?thesis using o(3)[OF that] by (auto simp: wrapper_ok_def)
  qed
  have "keyed membership_key (di_memberships ?d)"
    using o(1) keyed_upsert_row[of membership_key "di_memberships d" ?row ?f] by (simp add: keys_ok_def membership_key_def)
  then have "directory_ok ?d" using o(1,4,5) grants wrappers by (simp add: directory_ok_def keys_ok_def kept)
  then show ?thesis using True by (simp add: ensure_vault_enrollment_def)
next
  case False
  then have "ensure_vault_enrollment now vaultId userId d = d" unfolding ensure_vault_enrollment_def by (rule if_not_P)
  then show ?thesis using ok by simp
qed

text \<open>Storing a key for an enrolled user; the enrollment becomes, or is, active.\<close>

lemma store_key_ok:
  assumes ok: "directory_ok d" and active: "m \<in> set (di_memberships d)" "vm_vault m = kw_vault row" "Some (vm_user m) = kw_user row"
    "vm_status m = ''active''" and f: "\<And>w. wrapper_key (f w) = wrapper_key w"
  shows "directory_ok (d\<lparr>di_wrappers := upsert_row wrapper_key row f (di_wrappers d)\<rparr>)" (is "directory_ok ?d")
proof -
  note o = directory_okD[OF ok]
  have "wrapper_ok d w" if "w \<in> set (upsert_row wrapper_key row f (di_wrappers d))" for w
    using that
  proof (cases rule: upsert_rowE)
    case (changed w0)
    then have "wrapper_key w = wrapper_key row" using f by simp
    then show ?thesis using active by (auto simp: wrapper_ok_def wrapper_key_def)
  next
    case inserted
    then show ?thesis using active by (auto simp: wrapper_ok_def)
  qed (rule o(3))
  moreover have "wrapper_ok ?d w = wrapper_ok d w" "enrollment_ok ?d e = enrollment_ok d e" for w e
    by (simp_all add: wrapper_ok_def enrollment_ok_def is_member_def)
  ultimately show ?thesis using o(1,2,4,5) by (simp add: directory_ok_def keys_ok_def)
qed

lemma activate_ok:
  assumes ok: "directory_ok d" and enrolled: "\<And>m. m \<in> set (di_memberships d) \<Longrightarrow> P m \<Longrightarrow> vm_status m \<noteq> ''revoked''"
  shows "directory_ok (d\<lparr>di_memberships := update_rows P (\<lambda>m. m\<lparr>vm_status := ''active'', vm_revokedAt := None\<rparr>) (di_memberships d)\<rparr>)"
    (is "directory_ok ?d")
proof -
  note o = directory_okD[OF ok]
  have kept: "enrollment_ok ?d m = enrollment_ok d m" for m by (simp add: enrollment_ok_def is_member_def)
  have grants: "enrollment_ok d m" if "m \<in> set (di_memberships ?d)" for m
  proof -
    from that have "m \<in> set (update_rows P (\<lambda>m. m\<lparr>vm_status := ''active'', vm_revokedAt := None\<rparr>) (di_memberships d))" by simp
    then show ?thesis
    proof (cases rule: update_rowsE)
      case (changed m0)
      then show ?thesis using o(2)[OF changed(1)] enrolled[OF changed(1,2)] by (simp add: enrollment_ok_def)
    qed (rule o(2))
  qed
  have wrappers: "wrapper_ok ?d w" if w: "w \<in> set (di_wrappers d)" for w
  proof -
    have "\<exists>m' \<in> set (di_memberships ?d). vm_vault m' = vm_vault m \<and> vm_user m' = vm_user m \<and> vm_status m' = ''active''"
      if "m \<in> set (di_memberships d)" "vm_status m = ''active''" for m
      using that by (intro bexI[of _ "if P m then m\<lparr>vm_status := ''active'', vm_revokedAt := None\<rparr> else m"]) (auto simp: set_update_rows)
    then show ?thesis using o(3)[OF w] by (force simp: wrapper_ok_def)
  qed
  have "keyed membership_key (update_rows P (\<lambda>m. m\<lparr>vm_status := ''active'', vm_revokedAt := None\<rparr>) (di_memberships d))"
    by (rule keyed_update_rows) (use o(1) in \<open>simp_all add: keys_ok_def membership_key_def\<close>)
  then show ?thesis using o(1,4,5) grants wrappers by (simp add: directory_ok_def keys_ok_def kept)
qed

lemma complete_key_request_ok:
  assumes ok: "directory_ok d"
  shows "directory_ok (snd (complete_key_request clk uuid request envelope d))"
proof (cases "completable (clk 0) request d")
  case True
  then obtain m where m: "m \<in> set (di_memberships d)" "current_enrollment request m" by (auto simp: completable_def)
  let ?P = "\<lambda>m. vm_vault m = kr_vault request \<and> vm_user m = kr_user request \<and> vm_version m = kr_version request"
  let ?row = "\<lparr>kw_id = uuid, kw_vault = kr_vault request, kw_keyVersion = ke_keyVersion envelope, kw_kind = ''password'',
     kw_user = Some (kr_user request), kw_envelope = envelope, kw_createdAt = clk 1, kw_revokedAt = None\<rparr>"
  let ?f = "\<lambda>w. w\<lparr>kw_envelope := envelope, kw_revokedAt := None\<rparr>"
  define d1 where "d1 = d\<lparr>di_memberships := update_rows ?P (\<lambda>m. m\<lparr>vm_status := ''active'', vm_revokedAt := None\<rparr>) (di_memberships d)\<rparr>"
  define d2 where "d2 = d1\<lparr>di_wrappers := upsert_row wrapper_key ?row ?f (di_wrappers d1)\<rparr>"
  define d3 where "d3 = d2\<lparr>di_requests := update_rows (\<lambda>r. kr_id r = kr_id request) (\<lambda>r. r\<lparr>kr_status := ''completed'', kr_envelope := None\<rparr>) (di_requests d2)\<rparr>"
  have same: "x = m" if "x \<in> set (di_memberships d)" "?P x" for x
    using keyed_unique[of membership_key "di_memberships d" x m] directory_okD(1)[OF ok] that m
    by (simp add: keys_ok_def current_enrollment_def membership_key_def)
  have d1: "directory_ok d1" unfolding d1_def
    by (rule activate_ok[OF ok]) (use same m(2) in \<open>auto simp: current_enrollment_def\<close>)
  have active: "m\<lparr>vm_status := ''active'', vm_revokedAt := None\<rparr> \<in> set (di_memberships d1)"
    using m by (auto simp: d1_def set_update_rows current_enrollment_def)
  have d2: "directory_ok d2" unfolding d2_def
    by (rule store_key_ok[OF d1 active]) (use m(2) in \<open>simp_all add: current_enrollment_def wrapper_key_def\<close>)
  have "directory_ok d3" unfolding d3_def
    by (rule directory_ok_requests[OF d2]) (simp_all add: request_key_def request_ok_def open_request_def)
  moreover have "snd (complete_key_request clk uuid request envelope d) = d3"
    using True by (simp add: complete_key_request_def Let_def d1_def d2_def d3_def)
  ultimately show ?thesis by simp
qed (simp add: complete_key_request_def ok)

lemma cancel_open_requests_ok:
  "directory_ok d \<Longrightarrow> directory_ok (d\<lparr>di_requests := update_rows P cancel_request (di_requests d)\<rparr>)"
  by (rule directory_ok_requests) (simp_all add: request_key_def request_ok_def open_request_def cancel_request_def)

lemma upsert_password_wrapper_ok:
  assumes ok: "directory_ok d"
  shows "directory_ok (snd (upsert_password_wrapper uuid now userId vaultId envelope d))"
proof (cases "may_store_wrapper userId vaultId envelope d")
  case True
  then obtain m where m: "m \<in> set (di_memberships d)" "vm_vault m = vaultId" "vm_user m = userId" "vm_status m = ''active''"
    by (auto simp: may_store_wrapper_def)
  let ?row = "\<lparr>kw_id = uuid, kw_vault = vaultId, kw_keyVersion = ke_keyVersion envelope, kw_kind = ''password'',
     kw_user = Some userId, kw_envelope = envelope, kw_createdAt = now, kw_revokedAt = None\<rparr>"
  define d1 where "d1 = d\<lparr>di_wrappers := upsert_row wrapper_key ?row (\<lambda>w. w\<lparr>kw_envelope := envelope, kw_revokedAt := None\<rparr>) (di_wrappers d)\<rparr>"
  have "directory_ok d1" unfolding d1_def
    by (rule store_key_ok[OF ok m(1)]) (simp_all add: m wrapper_key_def)
  then have "directory_ok (d1\<lparr>di_requests := update_rows
      (\<lambda>r. kr_vault r = vaultId \<and> kr_user r = userId \<and> kr_status r \<in> {''pending'', ''approved''}) cancel_request (di_requests d1)\<rparr>)"
    by (rule cancel_open_requests_ok)
  then show ?thesis using True by (simp add: upsert_password_wrapper_def Let_def d1_def cancel_request_def[abs_def])
qed (simp add: upsert_password_wrapper_def ok)

lemma create_key_request_ok:
  assumes ok: "directory_ok d" and r: "kr_status r = ''pending''" "kr_envelope r = None" and run: "create_key_request r d = Some d'"
  shows "directory_ok d'"
proof -
  let ?P = "\<lambda>x. kr_vault x = kr_vault r \<and> kr_user x = kr_user r \<and> open_request x"
  define d1 where "d1 = d\<lparr>di_requests := update_rows ?P cancel_request (di_requests d)\<rparr>"
  have d1: "directory_ok d1" unfolding d1_def using ok by (rule cancel_open_requests_ok)
  have fresh: "\<forall>x \<in> set (di_requests d). kr_id x \<noteq> kr_id r" and d': "d' = d1\<lparr>di_requests := di_requests d1 @ [r]\<rparr>"
    using run by (auto simp: create_key_request_def d1_def split: if_splits)
  have new: "kr_id r \<notin> kr_id ` set (di_requests d1)" "request_key r \<notin> request_key ` set (filter open_request (di_requests d1))"
    using fresh by (auto simp: d1_def set_update_rows cancel_request_def open_request_def request_key_def split: if_splits)
  have frame: "enrollment_ok d' m = enrollment_ok d1 m" "wrapper_ok d' w = wrapper_ok d1 w" for m w
    by (simp_all add: d' enrollment_ok_def wrapper_ok_def is_member_def)
  have "keyed kr_id (di_requests d')" "keyed request_key (filter open_request (di_requests d'))"
    using directory_okD(1,5)[OF d1] new by (simp_all add: d' keys_ok_def keyed_def)
  moreover have "request_ok r" using r by (simp add: request_ok_def)
  ultimately show ?thesis using directory_okD[OF d1]
    by (simp add: directory_ok_def keys_ok_def frame) (simp add: d')
qed

lemma create_vault_for_user_Inr:
  assumes "create_vault_for_user uuid now userId orgId name wrapper maxVaults d = (Inr v, d')"
  shows "maxVaults = 0 \<or> count_vaults orgId d < maxVaults" "uuid 0 \<notin> va_id ` set (di_vaults d)" "is_member orgId userId d"
    "\<exists>row. va_id row = uuid 0 \<and> va_org row = orgId \<and> va_deletedAt row = None \<and> di_vaults d' = di_vaults d @ [row] \<and>
       unique_vault_name (di_vaults d @ [row])"
    "\<exists>m. vm_vault m = uuid 0 \<and> vm_user m = userId \<and> vm_version m = 1 \<and> vm_status m = ''active'' \<and> di_memberships d' = di_memberships d @ [m]"
    "\<exists>w. kw_vault w = uuid 0 \<and> kw_user w = Some userId \<and> di_wrappers d' = di_wrappers d @ [w]"
    "di_members d' = di_members d" "di_requests d' = di_requests d" "di_invitations d' = di_invitations d" "di_refreshes d' = di_refreshes d"
  using assms unfolding create_vault_for_user_def Let_def is_member_def by (auto split: if_split_asm)

lemma create_vault_for_user_Inl:
  "create_vault_for_user uuid now userId orgId name wrapper maxVaults d = (Inl e, d') \<Longrightarrow> d' = d"
  by (auto simp: create_vault_for_user_def Let_def split: if_split_asm)

lemma create_vault_for_user_ok:
  assumes ok: "directory_ok d" and run: "create_vault_for_user uuid now userId orgId name wrapper maxVaults d = (res, d')"
  shows "directory_ok d'"
proof (cases res)
  case (Inl e)
  then show ?thesis using ok run create_vault_for_user_Inl by metis
next
  case (Inr v)
  note c = create_vault_for_user_Inr[OF run[unfolded Inr]]
  obtain row where row: "va_id row = uuid 0" "va_org row = orgId" "di_vaults d' = di_vaults d @ [row]" using c(4) by auto
  obtain m where m: "vm_vault m = uuid 0" "vm_user m = userId" "vm_version m = 1" "vm_status m = ''active''"
    "di_memberships d' = di_memberships d @ [m]" using c(5) by auto
  obtain w where w: "kw_vault w = uuid 0" "kw_user w = Some userId" "di_wrappers d' = di_wrappers d @ [w]" using c(6) by auto
  note o = directory_okD[OF ok] and fields = row(3) m(5) w(3) c(7-10)
  have "membership_key m \<notin> membership_key ` set (di_memberships d)"
    using o(2) m(1) c(2) by (force simp: enrollment_ok_def membership_key_def)
  then have keys: "keyed va_id (di_vaults d')" "keyed membership_key (di_memberships d')"
    using o(1) row(1) c(2) by (simp_all add: fields keys_ok_def keyed_def)
  have "enrollment_ok d' e" if "e \<in> set (di_memberships d)" for e
    using o(2)[OF that] by (rule enrollment_ok_mono) (auto simp: fields is_member_def)
  moreover have "enrollment_ok d' m" using m row c(3) by (simp add: enrollment_ok_def fields is_member_def)
  moreover have "wrapper_ok d' x" if "x \<in> set (di_wrappers d)" for x
    using o(3)[OF that] by (auto simp: wrapper_ok_def fields)
  moreover have "wrapper_ok d' w" using m w by (simp add: wrapper_ok_def fields)
  ultimately show ?thesis using o(1,4,5) keys by (simp add: directory_ok_def keys_ok_def) (simp add: fields)
qed

lemma hard_delete_vault_ok:
  assumes ok: "directory_ok d"
  shows "directory_ok (hard_delete_vault vaultId d)"
proof (cases "\<exists>v \<in> set (di_vaults d). va_id v = vaultId")
  case True
  let ?d = "hard_delete_vault vaultId d"
  note o = directory_okD[OF ok]
  have fields: "di_vaults ?d = delete_rows (\<lambda>v. va_id v = vaultId) (di_vaults d)"
    "di_memberships ?d = delete_rows (\<lambda>m. vm_vault m = vaultId) (di_memberships d)"
    "di_wrappers ?d = delete_rows (\<lambda>w. kw_vault w = vaultId) (di_wrappers d)"
    "di_requests ?d = delete_rows (\<lambda>r. kr_vault r = vaultId) (di_requests d)"
    "di_refreshes ?d = delete_rows (\<lambda>r. rf_vault r = vaultId) (di_refreshes d)"
    "di_invitations ?d = di_invitations d" "di_members ?d = di_members d"
    using True by (simp_all add: hard_delete_vault_def)
  have keys: "keys_ok ?d" using o(1) by (simp add: keys_ok_def fields keyed_delete_rows)
  have grants: "enrollment_ok ?d m" if "m \<in> set (di_memberships ?d)" for m
    using that o(2)[of m] by (force simp: enrollment_ok_def fields set_delete_rows is_member_def)
  have wrappers: "wrapper_ok ?d w" if "w \<in> set (di_wrappers ?d)" for w
    using that o(3)[of w] by (force simp: wrapper_ok_def fields set_delete_rows)
  have "filter open_request (di_requests ?d) = delete_rows (\<lambda>r. kr_vault r = vaultId) (filter open_request (di_requests d))"
    by (simp add: fields delete_rows_def conj_commute)
  then have "keyed request_key (filter open_request (di_requests ?d))" using o(5) by (simp add: keyed_delete_rows)
  then show ?thesis using keys grants wrappers o(4) by (simp add: directory_ok_def) (simp add: fields set_delete_rows)
qed (simp add: hard_delete_vault_def ok)

lemma directory_ok_other:
  assumes "directory_ok d"
  shows "directory_ok (d\<lparr>di_orgs := gs\<rparr>)" "directory_ok (d\<lparr>di_audit := as\<rparr>)" "directory_ok (d\<lparr>di_users := us\<rparr>)"
  using assms by (simp_all add: directory_ok_def keys_ok_def enrollment_ok_def wrapper_ok_def is_member_def)

lemma directory_ok_roles:
  assumes "directory_ok d" "\<And>m. mb_org (f m) = mb_org m" "\<And>m. mb_user (f m) = mb_user m"
  shows "directory_ok (d\<lparr>di_members := update_rows P f (di_members d)\<rparr>)"
proof (rule directory_ok_frame[OF assms(1)])
  show "is_member g u (d\<lparr>di_members := update_rows P f (di_members d)\<rparr>)" if "is_member g u d" for g u
  proof -
    obtain m where "m \<in> set (di_members d)" "mb_org m = g" "mb_user m = u" using \<open>is_member g u d\<close> by (auto simp: is_member_def)
    then show ?thesis using assms(2,3) unfolding is_member_def
      by (intro bexI[of _ "if P m then f m else m"]) (auto simp: set_update_rows)
  qed
qed (use directory_okD(1)[OF assms(1)] in \<open>auto simp: keys_ok_def\<close>)

lemma finish_refresh_ok:
  assumes "directory_ok d"
  shows "directory_ok (finish_refresh vaultId revision d)"
  by (rule directory_ok_frame[OF assms])
    (use directory_okD(1)[OF assms] in \<open>auto simp: finish_refresh_def keys_ok_def is_member_def keyed_delete_rows\<close>)

lemma approve_key_request_ok: "directory_ok d \<Longrightarrow> directory_ok (snd (approve_key_request now i by' envelope d))"
  unfolding approve_key_request_def Let_def snd_conv
  by (erule directory_ok_requests) (auto simp: request_key_def request_ok_def open_request_def)

lemma revive_ok:
  "directory_ok d \<Longrightarrow> mark_vault_deletion_queue_failed vaultId msg d = Some d' \<Longrightarrow> directory_ok d'"
  by (auto simp: mark_vault_deletion_queue_failed_def Let_def intro: directory_ok_vaults split: if_splits)

lemma sign_up_ok:
  assumes "directory_ok d"
  shows "directory_ok (dir_step (Sign_up u g m) d)"
  using more_members_ok[OF directory_ok_other(1)[OF directory_ok_other(3)[OF assms]], of "di_orgs d @ [g]" "di_users d @ [u]" "[m]"]
  by simp

lemma dir_step_ok:
  assumes ok: "directory_ok d" and "genuine e d"
  shows "directory_ok (dir_step e d)"
proof (cases e)
  case (Sign_up u g m)
  show ?thesis unfolding Sign_up using ok by (rule sign_up_ok)
next
  case (Invite uuid now input)
  then show ?thesis using create_invitation_ok[OF ok] assms(2) by (simp add: genuine_def)
next
  case (Create_request r)
  then show ?thesis using create_key_request_ok[OF ok, of r] assms(2) ok by (simp add: genuine_def split: option.split)
next
  case (Create_vault uuid now userId orgId name wrapper maxVaults)
  then show ?thesis using create_vault_for_user_ok[OF ok] by (metis dir_step.simps(17) prod.collapse)
qed (use ok in \<open>simp_all add: rename_organization_def audit_def claim_invitation_delivery_def change_organization_role_def
   directory_ok_other directory_ok_roles set_invitation_status_ok accept_invitation_ok remove_organization_member_ok
   ensure_vault_enrollment_ok queue_refresh_def queue_refreshes_ok finish_refresh_ok prune_expired_requests_def
   cancel_open_requests_ok approve_key_request_ok complete_key_request_ok mark_vault_deletion_queued_def directory_ok_vaults
   mark_vault_purge_running_def mark_vault_purge_failed_def hard_delete_vault_ok upsert_password_wrapper_ok revive_ok
   split: option.split\<close>)

interpretation directory: step_system dir_step genuine directory_ok
  by unfold_locales (rule dir_step_ok)

lemma empty_directory_ok: "directory_ok empty_directory"
  by (simp add: directory_ok_def keys_ok_def empty_directory_def)

section \<open>Versions of an enrollment\<close>

definition outdated :: "ident \<Rightarrow> ident \<Rightarrow> int \<Rightarrow> directory \<Rightarrow> bool" where
  \<comment> \<open>a token of version \<open>n\<close> has lost its power: the vault is gone, or the enrollment has a later version\<close>
  "outdated vaultId userId n d \<longleftrightarrow> vaultId \<notin> va_id ` set (di_vaults d) \<or>
     (\<exists>g \<in> set (di_memberships d). vm_vault g = vaultId \<and> vm_user g = userId \<and> n < vm_version g)"

definition creates_vault :: "ident \<Rightarrow> directory_step \<Rightarrow> bool" where
  "creates_vault vaultId e = (case e of Create_vault uuid now userId orgId name wrapper maxVaults \<Rightarrow> uuid 0 = vaultId | _ \<Rightarrow> False)"

lemma outdated_frame:
  assumes "outdated v u n d" "va_id ` set (di_vaults d') = va_id ` set (di_vaults d)" "di_memberships d' = di_memberships d"
  shows "outdated v u n d'"
  using assms by (simp add: outdated_def)

lemma outdated_update:
  assumes "outdated v u n d" "va_id ` set (di_vaults d') = va_id ` set (di_vaults d)" "di_memberships d' = update_rows P f (di_memberships d)"
    and f: "\<And>m. vm_vault (f m) = vm_vault m" "\<And>m. vm_user (f m) = vm_user m" "\<And>m. vm_version m \<le> vm_version (f m)"
  shows "outdated v u n d'"
  using assms(1) unfolding outdated_def
proof (elim disjE bexE)
  fix g assume g: "g \<in> set (di_memberships d)" "vm_vault g = v \<and> vm_user g = u \<and> n < vm_version g"
  have "n < vm_version (f g)" using g f(3)[of g] by linarith
  then have "\<exists>x \<in> set (di_memberships d'). vm_vault x = v \<and> vm_user x = u \<and> n < vm_version x"
    using g f(1,2) by (intro bexI[of _ "if P g then f g else g"]) (auto simp: assms(3) set_update_rows)
  then show "v \<notin> va_id ` set (di_vaults d') \<or> (\<exists>x \<in> set (di_memberships d'). vm_vault x = v \<and> vm_user x = u \<and> n < vm_version x)" ..
qed (use assms(2) in simp)

lemma va_id_update_rows: "(\<And>v. va_id (f v) = va_id v) \<Longrightarrow> va_id ` set (update_rows P f vs) = va_id ` set vs"
  by (simp only: set_update_rows image_image if_distrib[of va_id] if_cancel)

lemma outdated_ensure:
  assumes "outdated v u n d"
  shows "outdated v u n (ensure_vault_enrollment now vaultId userId d)"
proof -
  let ?row = "\<lparr>vm_vault = vaultId, vm_user = userId, vm_version = 1, vm_creator = False, vm_status = ''pending_key'',
     vm_joinedAt = now, vm_revokedAt = None\<rparr>"
  let ?f = "\<lambda>m. if vm_status m = ''revoked''
     then m\<lparr>vm_status := ''pending_key'', vm_revokedAt := None, vm_version := vm_version m + 1\<rparr> else m"
  have updated: "outdated v u n (d\<lparr>di_memberships := update_rows P ?f (di_memberships d)\<rparr>)" for P
    using assms by (rule outdated_update[of _ _ _ _ _ P ?f]) simp_all
  have more: "outdated v u n (d\<lparr>di_memberships := di_memberships d @ [x]\<rparr>)" for x
    using assms by (auto simp: outdated_def)
  show ?thesis using assms updated more by (simp add: ensure_vault_enrollment_def upsert_row_def)
qed

lemma outdated_create:
  assumes "outdated v u n d" "uuid 0 \<noteq> v" "create_vault_for_user uuid now userId orgId name wrapper maxVaults d = (res, d')"
  shows "outdated v u n d'"
proof (cases res)
  case (Inl e)
  then show ?thesis using assms create_vault_for_user_Inl by metis
next
  case (Inr r)
  note c = create_vault_for_user_Inr[OF assms(3)[unfolded Inr]]
  show ?thesis using assms(1,2) c(4,5) by (auto simp: outdated_def)
qed

lemma outdated_purge: "outdated v u n d \<Longrightarrow> outdated v u n (hard_delete_vault vaultId d)"
  by (auto simp: outdated_def hard_delete_vault_def set_delete_rows)

lemma complete_key_request_memberships:
  "\<exists>P. di_memberships (snd (complete_key_request clk uuid request envelope d)) =
     update_rows P (\<lambda>m. m\<lparr>vm_status := ''active'', vm_revokedAt := None\<rparr>) (di_memberships d)"
proof (cases "completable (clk 0) request d")
  case False
  then show ?thesis by (intro exI[of _ "\<lambda>_. False"]) (simp add: complete_key_request_def update_rows_def)
qed (auto simp: complete_key_request_def Let_def)

lemma outdated_step:
  assumes old: "outdated v u n d" and other: "\<not> creates_vault v e"
  shows "outdated v u n (dir_step e d)"
proof (cases e)
  case (Create_vault uuid now userId orgId name wrapper maxVaults)
  then show ?thesis using outdated_create[OF old _ prod.collapse[symmetric]] other by (simp add: creates_vault_def)
next
  case (Remove_member now uuid orgId userId)
  show ?thesis unfolding Remove_member dir_step.simps
    by (rule outdated_update[OF old _ remove_organization_member_fields(3)]) (simp_all add: remove_organization_member_fields)
next
  case (Complete_request clk uuid request envelope)
  obtain P where P: "di_memberships (dir_step e d) = update_rows P (\<lambda>m. m\<lparr>vm_status := ''active'', vm_revokedAt := None\<rparr>) (di_memberships d)"
    using complete_key_request_memberships[of clk uuid request envelope d] by (auto simp: Complete_request)
  show ?thesis by (rule outdated_update[OF old _ P]) (simp_all add: Complete_request complete_key_request_def Let_def)
next
  case (Accept clk uuid invite userId)
  show ?thesis unfolding Accept dir_step.simps
    by (rule outdated_frame[OF old]) (simp_all add: accept_invitation_def Let_def va_id_update_rows)
next
  case (Revive_vault vaultId msg)
  show ?thesis unfolding Revive_vault dir_step.simps
    by (rule outdated_frame[OF old]) (simp_all add: mark_vault_deletion_queue_failed_def Let_def va_id_update_rows)
next
  case (Ensure_enrollment now vaultId userId)
  then show ?thesis using outdated_ensure[OF old] by simp
next
  case (Purge_done vaultId)
  then show ?thesis using outdated_purge[OF old] by simp
qed (rule outdated_frame[OF old]; simp add: rename_organization_def audit_def claim_invitation_delivery_def
   create_invitation_def set_invitation_status_def change_organization_role_def queue_refresh_def finish_refresh_def
   prune_expired_requests_def create_key_request_def approve_key_request_def Let_def mark_vault_deletion_queued_def
   mark_vault_purge_running_def mark_vault_purge_failed_def upsert_password_wrapper_def va_id_update_rows)+

lemma outdated_run:
  "outdated v u n d \<Longrightarrow> \<forall>e \<in> set es. \<not> creates_vault v e \<Longrightarrow> outdated v u n (fold dir_step es d)"
  by (induction es arbitrary: d) (simp_all add: outdated_step)

lemma vault_keeps_organization:
  assumes "\<not> creates_vault v e" "x \<in> set (di_vaults (dir_step e d))" "va_id x = v"
  shows "\<exists>y \<in> set (di_vaults d). va_id y = v \<and> va_org y = va_org x"
proof -
  have updated: "x \<in> set (update_rows P f (di_vaults d)) \<Longrightarrow> (\<And>r. va_id (f r) = va_id r) \<Longrightarrow> (\<And>r. va_org (f r) = va_org r) \<Longrightarrow> ?thesis" for P f
    using assms(3) by (auto elim!: update_rowsE)
  show ?thesis
  proof (cases e)
    case (Create_vault uuid now userId orgId name wrapper maxVaults)
    then show ?thesis using assms by (auto simp: creates_vault_def create_vault_for_user_def Let_def split: if_split_asm)
  next
    case (Accept clk uuid invite userId)
    then show ?thesis using assms updated by (simp add: accept_invitation_def Let_def split: if_split_asm) blast+
  next
    case (Revive_vault vaultId msg)
    then show ?thesis using assms updated by (simp add: mark_vault_deletion_queue_failed_def Let_def split: if_split_asm) blast+
  next
    case (Purge_done vaultId)
    then show ?thesis using assms by (auto simp: hard_delete_vault_def set_delete_rows split: if_split_asm)
  next
    case (Queue_deletion now vaultId)
    then show ?thesis using assms updated by (simp add: mark_vault_deletion_queued_def)
  next
    case (Purge_running vaultId)
    then show ?thesis using assms updated by (simp add: mark_vault_purge_running_def)
  next
    case (Purge_failed vaultId msg)
    then show ?thesis using assms updated by (simp add: mark_vault_purge_failed_def)
  qed (use assms in \<open>auto simp: rename_organization_def audit_def claim_invitation_delivery_def create_invitation_def
     set_invitation_status_def change_organization_role_def queue_refresh_def finish_refresh_def prune_expired_requests_def
     create_key_request_def approve_key_request_def Let_def upsert_password_wrapper_def remove_organization_member_fields
     ensure_vault_enrollment_def complete_key_request_def split: if_split_asm\<close>)
qed

lemma vault_keeps_organization_run:
  "\<forall>e \<in> set es. \<not> creates_vault v e \<Longrightarrow> x \<in> set (di_vaults (fold dir_step es d)) \<Longrightarrow> va_id x = v \<Longrightarrow>
     \<exists>y \<in> set (di_vaults d). va_id y = v \<and> va_org y = va_org x"
proof (induction es arbitrary: d)
  case (Cons e es)
  then obtain y where y: "y \<in> set (di_vaults (dir_step e d))" "va_id y = v" "va_org y = va_org x" by auto
  then show ?case using vault_keeps_organization[OF _ y(1,2)] Cons.prems(1) by auto
qed auto

lemma removal_outdates:
  assumes ok: "directory_ok d" and v: "v \<in> set (di_vaults d)" "va_id v = vaultId" "va_org v = orgId"
    and g: "grant_of vaultId userId d = Some g" "vm_status g \<noteq> ''revoked''"
  shows "outdated vaultId userId (vm_version g) (remove_organization_member now uuid orgId userId d)"
proof -
  let ?P = "\<lambda>m. vm_vault m \<in> set (vault_ids_of orgId d) \<and> vm_user m = userId \<and> vm_status m \<noteq> ''revoked''"
  let ?f = "\<lambda>m. m\<lparr>vm_status := ''revoked'', vm_revokedAt := Some now, vm_version := vm_version m + 1\<rparr>"
  note m = grant_ofD[OF g(1)]
  have "?P g" using m v g(2) by (auto simp: in_vault_ids_of)
  then have "?f g \<in> set (di_memberships (remove_organization_member now uuid orgId userId d))"
    using m unfolding remove_organization_member_fields(3) set_update_rows by (intro image_eqI[of _ _ g]) auto
  then show ?thesis using m unfolding outdated_def by (intro disjI2 bexI[of _ "?f g"]) simp_all
qed

section \<open>Properties\<close>

text \<open>
  C2. Keys follow membership. Whatever statements run from the empty database on, in any order: who is
  enrolled in a vault is a member of the organization that owns it; a user's key to a vault that is not
  revoked belongs to an active enrollment; a key request holds a transfer envelope only while it is
  approved, so a completed or canceled one holds none; and a user has at most one open request for a vault.
\<close>

theorem keys_follow_membership:
  assumes "admissible genuine dir_step es empty_directory"
  shows "let d = fold dir_step es empty_directory in
    (\<forall>m \<in> set (di_memberships d). vm_status m \<noteq> ''revoked'' \<longrightarrow>
       (\<exists>v \<in> set (di_vaults d). va_id v = vm_vault m \<and> is_member (va_org v) (vm_user m) d)) \<and>
    (\<forall>w \<in> set (di_wrappers d). \<forall>u. kw_user w = Some u \<and> kw_revokedAt w = None \<longrightarrow>
       (\<exists>m. grant_of (kw_vault w) u d = Some m \<and> vm_status m = ''active'')) \<and>
    (\<forall>r \<in> set (di_requests d). kr_envelope r \<noteq> None \<longleftrightarrow> kr_status r = ''approved'') \<and>
    (\<forall>r \<in> set (di_requests d). \<forall>x \<in> set (di_requests d). open_request r \<and> open_request x \<and>
       kr_vault r = kr_vault x \<and> kr_user r = kr_user x \<longrightarrow> r = x)"
proof -
  define d where "d = fold dir_step es empty_directory"
  have ok: "directory_ok d" unfolding d_def by (rule directory.run_inv[OF assms empty_directory_ok])
  note o = directory_okD[OF ok]
  have one: "r = x" if "r \<in> set (di_requests d)" "x \<in> set (di_requests d)" "open_request r" "open_request x"
      "kr_vault r = kr_vault x" "kr_user r = kr_user x" for r x
    using keyed_unique[OF o(5), of r x] that by (simp add: request_key_def)
  have active: "\<exists>m. grant_of (kw_vault w) u d = Some m \<and> vm_status m = ''active''"
    if w: "w \<in> set (di_wrappers d)" "kw_user w = Some u" "kw_revokedAt w = None" for w u
  proof -
    obtain m where m: "m \<in> set (di_memberships d)" "vm_vault m = kw_vault w" "vm_user m = u" "vm_status m = ''active''"
      using o(3)[OF w(1)] w(2,3) by (auto simp: wrapper_ok_def)
    then have "grant_of (kw_vault w) u d = Some m"
      using o(1) row_of_keyed[of membership_key "di_memberships d" m] by (simp add: grant_of_def keys_ok_def membership_key_def)
    then show ?thesis using m(4) by blast
  qed
  have member: "\<exists>v \<in> set (di_vaults d). va_id v = vm_vault m \<and> is_member (va_org v) (vm_user m) d"
    if "m \<in> set (di_memberships d)" "vm_status m \<noteq> ''revoked''" for m
    using o(2)[OF that(1)] that(2) by (auto simp: enrollment_ok_def)
  have envelope: "(kr_envelope r \<noteq> None) = (kr_status r = ''approved'')" if "r \<in> set (di_requests d)" for r
    using o(4)[OF that] by (simp add: request_ok_def)
  show ?thesis unfolding Let_def d_def[symmetric]
  proof (intro conjI)
    show "\<forall>m \<in> set (di_memberships d). vm_status m \<noteq> ''revoked'' \<longrightarrow>
       (\<exists>v \<in> set (di_vaults d). va_id v = vm_vault m \<and> is_member (va_org v) (vm_user m) d)" using member by blast
    show "\<forall>w \<in> set (di_wrappers d). \<forall>u. kw_user w = Some u \<and> kw_revokedAt w = None \<longrightarrow>
       (\<exists>m. grant_of (kw_vault w) u d = Some m \<and> vm_status m = ''active'')" using active by blast
    show "\<forall>r \<in> set (di_requests d). kr_envelope r \<noteq> None \<longleftrightarrow> kr_status r = ''approved''" using envelope by blast
  qed (use one in blast)
qed

definition example_envelope :: key_envelope where
  "example_envelope = \<lparr>ke_binding = None, ke_version = 1, ke_keyVersion = 1,
     ke_kdf = \<lparr>kd_name = ''argon2id'', kd_memoryKiB = 65536, kd_iterations = 3, kd_parallelism = 1, kd_salt = ''s''\<rparr>,
     ke_wrap = \<lparr>wr_algorithm = ''aes-256-gcm'', wr_nonce = ''n'', wr_ciphertext = ''c''\<rparr>\<rparr>"

definition example_sign_up :: "ident \<Rightarrow> ident \<Rightarrow> directory_step" where
  "example_sign_up u g = Sign_up \<lparr>us_id = u, us_name = u, us_email = u, us_verified = True\<rparr> \<lparr>or_id = g, or_name = g, or_vaultsOverride = None\<rparr>
     \<lparr>mb_id = g, mb_org = g, mb_user = u, mb_role = ''owner'', mb_createdAt = 0\<rparr>"

definition example_request :: request_row where
  "example_request = \<lparr>kr_id = ''k'', kr_vault = ''v'', kr_user = ''bob'', kr_purpose = ''enrollment'', kr_version = 1, kr_publicKey = ''p'',
     kr_status = ''pending'', kr_envelope = None, kr_approvedBy = None, kr_createdAt = 3, kr_expiresAt = 1000\<rparr>"

definition example_invite :: invitation_row where
  "example_invite = \<lparr>in_id = ''i'', in_org = ''org'', in_email = ''bob'', in_role = Some ''member'', in_status = ''pending'',
     in_expiresAt = 172800002, in_createdAt = 2, in_inviter = ''alice''\<rparr>"

definition example_sharing :: "directory_step list" where
  \<comment> \<open>alice shares her vault with bob\<close>
  "example_sharing = [example_sign_up ''alice'' ''org'', example_sign_up ''bob'' ''home'',
     Create_vault (\<lambda>k. if k = 0 then ''v'' else ''w'') 1 ''alice'' ''org'' ''notes'' (''password'', example_envelope) 1,
     Invite ''i'' 2 \<lparr>ii_org = ''org'', ii_email = ''bob'', ii_role = ''member'', ii_inviter = ''alice'', ii_memberLimit = 3\<rparr>,
     Accept (\<lambda>_. 3) (\<lambda>k. ''m'') example_invite ''bob'', Ensure_enrollment 4 ''v'' ''bob'', Create_request example_request,
     Approve_request 5 ''k'' ''alice'' \<lparr>te_version = 1, te_algorithm = ''rsa'', te_ciphertext = ''t''\<rparr>,
     Complete_request (\<lambda>_. 6) ''x'' (example_request\<lparr>kr_status := ''approved''\<rparr>) example_envelope]"

definition example_shared :: directory where
  "example_shared = fold dir_step example_sharing empty_directory"

lemma example_sharing_genuine: "admissible genuine dir_step example_sharing empty_directory"
  by code_simp

lemma example_shared_ok: "directory_ok example_shared"
  unfolding example_shared_def by (rule directory.run_inv[OF example_sharing_genuine empty_directory_ok])

theorem keys_follow_membership_witness:
  "\<exists>w m. w \<in> set (di_wrappers example_shared) \<and> kw_user w = Some ''bob'' \<and> grant_of (kw_vault w) ''bob'' example_shared = Some m \<and>
     vm_status m = ''active''"
proof -
  have "\<exists>w \<in> set (di_wrappers example_shared). kw_user w = Some ''bob'' \<and> kw_revokedAt w = None" by code_simp
  then show ?thesis using keys_follow_membership[OF example_sharing_genuine, unfolded example_shared_def[symmetric] Let_def] by blast
qed

text \<open>
  C6. Removal locks a member out. Once a member is removed from an organization, every access
  version that was valid before is out of date, whatever else happens in the database later, an
  invitation back included: either the vault is gone, or every snapshot of the access versions that a
  coordinator reads gives that user a later version. And as long as the user is no member again, no
  enrollment of the user in that vault and no key of the user to it is in force.
\<close>

theorem removal_locks_out:
  assumes ok: "directory_ok d" and v: "v \<in> set (di_vaults d)" "va_id v = vaultId" "va_org v = orgId"
    and g: "grant_of vaultId userId d = Some g" "vm_status g = ''active''"
    and later: "admissible genuine dir_step es (remove_organization_member now uuid orgId userId d)" "\<forall>e \<in> set es. \<not> creates_vault vaultId e"
  shows "let d' = fold dir_step es (remove_organization_member now uuid orgId userId d) in
    (vaultId \<notin> va_id ` set (di_vaults d') \<or> (\<exists>n. (userId, n) \<in> set (access_versions vaultId d') \<and> vm_version g < n)) \<and>
    (\<forall>n. (userId, n) \<in> set (access_versions vaultId d') \<longrightarrow> vm_version g < n \<and> 1 < n) \<and>
    (\<not> is_member orgId userId d' \<longrightarrow>
       (\<forall>m \<in> set (di_memberships d'). vm_vault m = vaultId \<and> vm_user m = userId \<longrightarrow> vm_status m = ''revoked'') \<and>
       password_wrapper vaultId userId d' = None)"
proof -
  define d' where "d' = fold dir_step es (remove_organization_member now uuid orgId userId d)"
  have ok': "directory_ok d'" unfolding d'_def by (rule directory.run_inv[OF later(1) remove_organization_member_ok[OF ok]])
  note o = directory_okD[OF ok']
  have "outdated vaultId userId (vm_version g) (remove_organization_member now uuid orgId userId d)"
    by (rule removal_outdates[OF ok v g(1)]) (simp add: g(2))
  then have old: "outdated vaultId userId (vm_version g) d'" unfolding d'_def using later(2) by (rule outdated_run)
  have pos: "1 \<le> vm_version g" using directory_okD(2)[OF ok] grant_ofD[OF g(1)] by (simp add: enrollment_ok_def)
  have newer: "vm_version g < vm_version m" if m: "m \<in> set (di_memberships d')" "vm_vault m = vaultId" "vm_user m = userId" for m
  proof -
    have "vaultId \<in> va_id ` set (di_vaults d')" using o(2)[OF m(1)] m(2) by (auto simp: enrollment_ok_def intro: rev_image_eqI)
    then obtain g' where g': "g' \<in> set (di_memberships d')" "vm_vault g' = vaultId" "vm_user g' = userId" "vm_version g < vm_version g'"
      using old by (auto simp: outdated_def)
    then have "g' = m" using o(1) m keyed_unique[of membership_key "di_memberships d'" g' m] by (simp add: keys_ok_def membership_key_def)
    then show ?thesis using g' by simp
  qed
  have versions: "(userId, n) \<in> set (access_versions vaultId d') \<longleftrightarrow>
      (\<exists>m \<in> set (di_memberships d'). vm_vault m = vaultId \<and> vm_user m = userId \<and> vm_version m = n)" for n
    by (auto simp: access_versions_def)
  have org: "va_org x = orgId" if x: "x \<in> set (di_vaults d')" "va_id x = vaultId" for x
  proof -
    obtain y where y: "y \<in> set (di_vaults (remove_organization_member now uuid orgId userId d))" "va_id y = vaultId" "va_org y = va_org x"
      using vault_keeps_organization_run[OF later(2) x(1)[unfolded d'_def] x(2)] by auto
    then show ?thesis using vault_org_unique[OF ok _ v(1), of y] v by (simp add: remove_organization_member_fields)
  qed
  have revoked: "vm_status m = ''revoked''" if "\<not> is_member orgId userId d'" "m \<in> set (di_memberships d')" "vm_vault m = vaultId" "vm_user m = userId" for m
    using o(2)[OF that(2)] that org by (auto simp: enrollment_ok_def)
  have locked: "password_wrapper vaultId userId d' = None" if "\<not> is_member orgId userId d'"
    using o(3) revoked[OF that] by (fastforce simp: password_wrapper_def wrapper_ok_def find_None_iff)
  have first: "vaultId \<notin> va_id ` set (di_vaults d') \<or> (\<exists>n. (userId, n) \<in> set (access_versions vaultId d') \<and> vm_version g < n)"
    using old unfolding outdated_def versions by blast
  have second: "vm_version g < n \<and> 1 < n" if "(userId, n) \<in> set (access_versions vaultId d')" for n
    using that newer pos unfolding versions by fastforce
  show ?thesis unfolding Let_def d'_def[symmetric] using first second revoked locked by (intro conjI) blast+
qed

theorem removal_locks_out_witness:
  "access_versions ''v'' (remove_organization_member 9 (\<lambda>_. ''r'') ''org'' ''bob'' example_shared) = [(''alice'', 1), (''bob'', 2)] \<and>
   password_wrapper ''v'' ''bob'' (remove_organization_member 9 (\<lambda>_. ''r'') ''org'' ''bob'' example_shared) = None"
proof -
  let ?d = "remove_organization_member 9 (\<lambda>_. ''r'') ''org'' ''bob'' example_shared"
  have v: "hd (di_vaults example_shared) \<in> set (di_vaults example_shared)" "va_id (hd (di_vaults example_shared)) = ''v''"
    "va_org (hd (di_vaults example_shared)) = ''org''" by code_simp+
  have "map_option vm_status (grant_of ''v'' ''bob'' example_shared) = Some ''active''" by code_simp
  then obtain g where g: "grant_of ''v'' ''bob'' example_shared = Some g" "vm_status g = ''active''" by auto
  have "access_versions ''v'' ?d = [(''alice'', 1), (''bob'', 2)]" by code_simp
  moreover have "\<not> is_member ''org'' ''bob'' ?d" by code_simp
  ultimately show ?thesis
    using removal_locks_out[OF example_shared_ok v g, of "[]" 9 "\<lambda>_. ''r''"] by (simp add: Let_def)
qed

end
