(* ===== verification/Seat_Limit.thy ===== *)
theory Seat_Limit
  imports Directory_Steps
begin

text \<open>
  The seats of an organization: its members and the invitations that are still open count against the
  member limit of its plan. An invitation reserves the seat that its acceptance fills, so the limit
  holds between any statements, however many invitations and acceptances run at the same time.
\<close>

section \<open>Steps with their times\<close>

definition time_of :: "directory_step \<Rightarrow> millis option" where
  "time_of e = (case e of Invite uuid now input \<Rightarrow> Some now | Accept clk uuid invite userId \<Rightarrow> Some (clk 0) | _ \<Rightarrow> None)"

definition timed_step :: "directory_step \<Rightarrow> millis \<times> directory \<Rightarrow> millis \<times> directory" where
  "timed_step e s = (case time_of e of None \<Rightarrow> fst s | Some t \<Rightarrow> t, dir_step e (snd s))"

definition within_limit :: "ident \<Rightarrow> int \<Rightarrow> directory_step \<Rightarrow> millis \<times> directory \<Rightarrow> bool" where
  \<comment> \<open>the clock does not run backwards, and invitations to the organization are made with a limit up to this one\<close>
  "within_limit orgId limit e s \<longleftrightarrow> genuine e (snd s) \<and> (case time_of e of None \<Rightarrow> True | Some t \<Rightarrow> fst s \<le> t) \<and>
     (case e of Sign_up u g m \<Rightarrow> mb_org m \<noteq> orgId
      | Invite uuid now input \<Rightarrow> ii_org input = orgId \<longrightarrow> 0 < ii_memberLimit input \<and> ii_memberLimit input \<le> limit
      | _ \<Rightarrow> True)"

definition seats_ok :: "ident \<Rightarrow> int \<Rightarrow> millis \<times> directory \<Rightarrow> bool" where
  "seats_ok orgId limit s \<longleftrightarrow> directory_ok (snd s) \<and> int (seats_taken (fst s) orgId (snd s)) \<le> limit"

section \<open>Counting\<close>

lemma length_filter_weaken: "(\<And>x. x \<in> set xs \<Longrightarrow> P x \<Longrightarrow> Q x) \<Longrightarrow> length (filter P xs) \<le> length (filter Q xs)"
  by (induction xs) (auto simp: le_SucI)

lemma length_filter_update:
  "(\<And>r. P r \<Longrightarrow> Q (f r) \<Longrightarrow> Q r) \<Longrightarrow> length (filter Q (update_rows P f rows)) \<le> length (filter Q rows)"
  by (induction rows) (auto simp: update_rows_def le_SucI)

lemma length_filter_delete: "length (filter Q (delete_rows P rows)) \<le> length (filter Q rows)"
  by (induction rows) (auto simp: delete_rows_def le_SucI)

lemma length_filter_closes:
  assumes "keyed key rows" "r \<in> set rows" "Q r" "\<And>x. key x = key r \<Longrightarrow> \<not> Q (f x)"
  shows "Suc (length (filter Q (update_rows (\<lambda>x. key x = key r) f rows))) = length (filter Q rows)"
  using assms
proof (induction rows)
  case (Cons x xs)
  show ?case
  proof (cases "key x = key r")
    case True
    then have "x = r" using Cons.prems(1,2) by (auto simp: keyed_def)
    moreover from True have "\<forall>y \<in> set xs. key y \<noteq> key r" using Cons.prems(1) by (auto simp: keyed_def image_iff)
    then have "update_rows (\<lambda>x. key x = key r) f xs = xs" by (auto simp: update_rows_def intro: map_idI)
    moreover have "update_rows (\<lambda>x. key x = key r) f (x # xs) = f x # update_rows (\<lambda>x. key x = key r) f xs"
      using True by (simp add: update_rows_def)
    ultimately show ?thesis using Cons.prems(3,4) by simp
  next
    case False
    then show ?thesis using Cons by (auto simp: update_rows_def keyed_def)
  qed
qed simp

lemma seats_frame:
  "di_members d' = di_members d \<Longrightarrow> di_invitations d' = di_invitations d \<Longrightarrow> seats_taken t orgId d' = seats_taken t orgId d"
  by (simp add: seats_taken_def)

lemma seats_later: "t \<le> t' \<Longrightarrow> seats_taken t' orgId d \<le> seats_taken t orgId d"
  by (auto simp: seats_taken_def pending_invitation_def intro: length_filter_weaken)

lemma seats_le:
  assumes "length (filter (\<lambda>m. mb_org m = orgId) (di_members d')) \<le> length (filter (\<lambda>m. mb_org m = orgId) (di_members d))"
    "length (filter (\<lambda>i. in_org i = orgId \<and> pending_invitation t i) (di_invitations d')) \<le>
     length (filter (\<lambda>i. in_org i = orgId \<and> pending_invitation t i) (di_invitations d))"
  shows "seats_taken t orgId d' \<le> seats_taken t orgId d"
  using assms by (simp add: seats_taken_def)

lemma accept_invitation_cases:
  assumes "\<exists>i \<in> set (di_invitations d). in_id i = in_id invite \<and> pending_invitation (clk 0) i"
  shows "di_invitations (snd (accept_invitation clk uuid invite userId d)) =
      update_rows (\<lambda>i. in_id i = in_id invite) (\<lambda>i. i\<lparr>in_status := ''accepted''\<rparr>) (di_invitations d)"
    "\<exists>ms. di_members (snd (accept_invitation clk uuid invite userId d)) = di_members d @ ms \<and> length ms \<le> 1 \<and>
       (\<forall>m \<in> set ms. mb_org m = in_org invite \<and> mb_user m = userId)"
  using assms by (auto simp: accept_invitation_def Let_def)

lemma seats_accept:
  assumes ok: "directory_ok d" and read: "\<forall>i \<in> set (di_invitations d). in_id i = in_id invite \<longrightarrow> in_org i = in_org invite"
  shows "seats_taken (clk 0) orgId (snd (accept_invitation clk uuid invite userId d)) \<le> seats_taken (clk 0) orgId d"
proof (cases "\<exists>i \<in> set (di_invitations d). in_id i = in_id invite \<and> pending_invitation (clk 0) i")
  case True
  let ?Q = "\<lambda>i. in_org i = orgId \<and> pending_invitation (clk 0) i"
  obtain i where i: "i \<in> set (di_invitations d)" "in_id i = in_id invite" "pending_invitation (clk 0) i" using True by blast
  obtain ms where ms: "di_members (snd (accept_invitation clk uuid invite userId d)) = di_members d @ ms" "length ms \<le> 1"
    "\<forall>m \<in> set ms. mb_org m = in_org invite \<and> mb_user m = userId"
    using accept_invitation_cases(2)[where clk = clk and uuid = uuid and userId = userId, OF True] by (elim exE conjE)
  note rows = accept_invitation_cases(1)[where clk = clk and uuid = uuid and userId = userId, OF True]
  have closed: "\<not> ?Q (x\<lparr>in_status := ''accepted''\<rparr>)" for x by (simp add: pending_invitation_def)
  show ?thesis
  proof (cases "in_org invite = orgId")
    case True
    have "Suc (length (filter ?Q (update_rows (\<lambda>x. in_id x = in_id i) (\<lambda>i. i\<lparr>in_status := ''accepted''\<rparr>) (di_invitations d)))) =
        length (filter ?Q (di_invitations d))"
      by (rule length_filter_closes[OF _ i(1)]) (use directory_okD(1)[OF ok] i read True closed in \<open>auto simp: keys_ok_def\<close>)
    moreover have "length (filter (\<lambda>m. mb_org m = orgId) ms) \<le> 1" using ms(2) length_filter_le order_trans by blast
    ultimately show ?thesis by (simp add: seats_taken_def ms(1) rows i(2))
  next
    case False
    then have "filter (\<lambda>m. mb_org m = orgId) ms = []" using ms(3) by (simp add: filter_empty_conv)
    moreover have "length (filter ?Q (update_rows (\<lambda>i. in_id i = in_id invite) (\<lambda>i. i\<lparr>in_status := ''accepted''\<rparr>) (di_invitations d)))
        \<le> length (filter ?Q (di_invitations d))" by (intro length_filter_update) (simp add: pending_invitation_def)
    ultimately show ?thesis by (simp add: seats_taken_def ms(1) rows)
  qed
next
  case False
  then have "accept_invitation clk uuid invite userId d = (False, d)" unfolding accept_invitation_def by (rule if_not_P)
  then show ?thesis by simp
qed

lemma seats_invite:
  assumes "int (seats_taken now orgId d) \<le> limit"
    and limit: "ii_org input = orgId \<longrightarrow> 0 < ii_memberLimit input \<and> ii_memberLimit input \<le> limit"
  shows "int (seats_taken now orgId (snd (create_invitation uuid now input d))) \<le> limit"
  using assms by (auto simp: create_invitation_def seats_taken_def Let_def)

lemma seats_step:
  assumes ok: "seats_ok orgId limit s" and step: "within_limit orgId limit e s"
  shows "seats_ok orgId limit (timed_step e s)"
proof -
  obtain t d where s: "s = (t, d)" by fastforce
  have d: "directory_ok d" "int (seats_taken t orgId d) \<le> limit" using ok by (simp_all add: seats_ok_def s)
  have gen: "genuine e d" using step by (simp add: within_limit_def s)
  have less: ?thesis if "time_of e = None" "seats_taken t orgId (dir_step e d) \<le> seats_taken t orgId d"
    using that d dir_step_ok[OF d(1) gen] by (simp add: seats_ok_def timed_step_def s)
  show ?thesis
  proof (cases e)
    case (Invite uuid now input)
    have "int (seats_taken now orgId d) \<le> limit"
      using d(2) seats_later[of t now orgId d] step by (simp add: within_limit_def time_of_def s Invite)
    then have "int (seats_taken now orgId (dir_step e d)) \<le> limit"
      unfolding Invite dir_step.simps using step by (intro seats_invite) (simp_all add: within_limit_def s Invite)
    then show ?thesis using dir_step_ok[OF d(1) gen] by (simp add: seats_ok_def timed_step_def time_of_def s Invite)
  next
    case (Accept clk uuid invite userId)
    have "seats_taken (clk 0) orgId (dir_step e d) \<le> seats_taken (clk 0) orgId d"
      unfolding Accept dir_step.simps using gen by (intro seats_accept[OF d(1)]) (simp add: genuine_def Accept)
    also have "\<dots> \<le> seats_taken t orgId d" using step by (intro seats_later) (simp add: within_limit_def time_of_def s Accept)
    finally show ?thesis using d(2) dir_step_ok[OF d(1) gen] by (simp add: seats_ok_def timed_step_def time_of_def s Accept)
  next
    case (Sign_up u g m)
    then show ?thesis using step by (intro less) (simp_all add: time_of_def within_limit_def s seats_taken_def)
  next
    case (Close_invitation i status)
    then show ?thesis using gen
      by (intro less seats_le) (auto simp: time_of_def set_invitation_status_def genuine_def pending_invitation_def intro!: length_filter_update)
  next
    case (Change_role g u role)
    then show ?thesis by (intro less seats_le) (auto simp: time_of_def change_organization_role_def intro!: length_filter_update)
  next
    case (Remove_member now uuid g u)
    then show ?thesis by (intro less seats_le) (simp_all add: time_of_def remove_organization_member_fields length_filter_delete)
  next
    case (Create_vault uuid now userId g name wrapper maxVaults)
    have "seats_taken t orgId (dir_step e d) = seats_taken t orgId d"
      unfolding Create_vault by (rule seats_frame) (auto simp: create_vault_for_user_def Let_def)
    then show ?thesis by (intro less) (simp_all add: time_of_def Create_vault)
  qed (intro less, simp add: time_of_def, rule eq_imp_le, rule seats_frame;
    simp add: rename_organization_def audit_def claim_invitation_delivery_def ensure_vault_enrollment_def queue_refresh_def finish_refresh_def
      prune_expired_requests_def create_key_request_def approve_key_request_def complete_key_request_def Let_def mark_vault_deletion_queued_def
      mark_vault_deletion_queue_failed_def mark_vault_purge_running_def mark_vault_purge_failed_def hard_delete_vault_def upsert_password_wrapper_def)+
qed

interpretation seats: step_system timed_step "within_limit orgId limit" "seats_ok orgId limit" for orgId limit
  by unfold_locales (rule seats_step)

section \<open>Property\<close>

text \<open>
  C1. The member limit holds. If every invitation to an organization is made with a member limit of at
  most \<open>limit\<close>, then no sequence of statements, in any order of the invitations, acceptances, cancellations
  and removals, brings its members together with its open invitations above the limit, and so neither its
  members alone.
\<close>

theorem members_within_limit:
  assumes "directory_ok d" "int (seats_taken t orgId d) \<le> limit" "admissible (within_limit orgId limit) timed_step es (t, d)"
  shows "let (t', d') = fold timed_step es (t, d) in
    int (seats_taken t' orgId d') \<le> limit \<and> int (length (filter (\<lambda>m. mb_org m = orgId) (di_members d'))) \<le> limit"
  using seats.run_inv[OF assms(3)] assms(1,2) by (auto simp: seats_ok_def seats_taken_def split: prod.split)

definition example_team :: directory where
  "example_team = dir_step (example_sign_up ''alice'' ''org'') empty_directory"

definition example_rush :: "directory_step list" where
  \<comment> \<open>three invitations for two free seats; two of them are accepted\<close>
  "example_rush = map (\<lambda>u. Invite u 2 \<lparr>ii_org = ''org'', ii_email = u, ii_role = ''member'', ii_inviter = ''alice'', ii_memberLimit = 3\<rparr>)
       [''b'', ''c'', ''d''] @
     map (\<lambda>u. Accept (\<lambda>_. 3) (\<lambda>_. u) (example_invite\<lparr>in_id := u, in_email := u\<rparr>) u) [''b'', ''c'', ''d'']"

theorem members_within_limit_witness:
  "map mb_user (di_members (snd (fold timed_step example_rush (0, example_team)))) = [''alice'', ''b'', ''c''] \<and>
   int (seats_taken 3 ''org'' (snd (fold timed_step example_rush (0, example_team)))) \<le> 3"
proof -
  have ok: "directory_ok example_team" unfolding example_team_def by (rule dir_step_ok[OF empty_directory_ok]) code_simp
  have run: "admissible (within_limit ''org'' 3) timed_step example_rush (0, example_team)" by code_simp
  have "int (seats_taken 0 ''org'' example_team) \<le> 3" by code_simp
  moreover have "map mb_user (di_members (snd (fold timed_step example_rush (0, example_team)))) = [''alice'', ''b'', ''c'']" by code_simp
  moreover have "fst (fold timed_step example_rush (0, example_team)) = 3" by code_simp
  ultimately show ?thesis using members_within_limit[OF ok _ run] by (simp add: split_beta)
qed

end
