(* ===== verification/Subscription_Policy.thy ===== *)
theory Subscription_Policy
  imports Vault_Store Complex_Main
begin

text \<open>
  The feature \<open>subscription\<close>: the plans and their limits (\<open>domain/policy.ts\<close>), the plan of an
  organization and its delivery to the coordinators of its vaults
  (\<open>application/services/subscription-service.ts\<close>), and the data it reads
  (\<open>drizzle-subscription-policy-data-reader.ts\<close>). Prices are rational numbers.
\<close>

section \<open>Plans\<close>

datatype plan_id = Free | Starter | Plus | Self_hosted

datatype billing_interval = Monthly | Annual

record plan_pricing =
  pr_monthlyUsd :: rat
  pr_annualMonthlyUsd :: rat
  pr_annualUsd :: rat

record plan_limits =
  pl_vaults :: int
  pl_storage :: int
  pl_maxFile :: int
  pl_retentionDays :: int

record plan_policy =
  pp_id :: plan_id
  pp_name :: string
  pp_badge :: "string option"
  pp_pricing :: plan_pricing
  pp_limits :: plan_limits
  pp_snapshots :: bool
  pp_storageUpgrade :: bool

definition bytes_per_mb :: int where "bytes_per_mb = 1000000"
definition bytes_per_gb :: int where "bytes_per_gb = 1000000000"

fun plan_policy_of :: "plan_id \<Rightarrow> plan_policy" where
  \<comment> \<open>\<open>SUBSCRIPTION_PLAN_POLICIES\<close> and \<open>getSubscriptionPlanPolicy\<close>\<close>
  "plan_policy_of Free = \<lparr>pp_id = Free, pp_name = ''Sync Free'', pp_badge = None,
     pp_pricing = \<lparr>pr_monthlyUsd = 0, pr_annualMonthlyUsd = 0, pr_annualUsd = 0\<rparr>,
     pp_limits = \<lparr>pl_vaults = 1, pl_storage = 30 * bytes_per_mb, pl_maxFile = 3 * bytes_per_mb, pl_retentionDays = 1\<rparr>,
     pp_snapshots = True, pp_storageUpgrade = False\<rparr>"
| "plan_policy_of Starter = \<lparr>pp_id = Starter, pp_name = ''Sync Starter'', pp_badge = Some ''$1/month'',
     pp_pricing = \<lparr>pr_monthlyUsd = 1, pr_annualMonthlyUsd = 10 / 12, pr_annualUsd = 10\<rparr>,
     pp_limits = \<lparr>pl_vaults = 1, pl_storage = bytes_per_gb, pl_maxFile = 5 * bytes_per_mb, pl_retentionDays = 30\<rparr>,
     pp_snapshots = True, pp_storageUpgrade = False\<rparr>"
| "plan_policy_of Plus = \<lparr>pp_id = Plus, pp_name = ''Sync Plus'', pp_badge = None,
     pp_pricing = \<lparr>pr_monthlyUsd = 9, pr_annualMonthlyUsd = 90 / 12, pr_annualUsd = 90\<rparr>,
     pp_limits = \<lparr>pl_vaults = 3, pl_storage = 5 * bytes_per_gb, pl_maxFile = 100 * bytes_per_mb, pl_retentionDays = 365\<rparr>,
     pp_snapshots = True, pp_storageUpgrade = False\<rparr>"
| "plan_policy_of Self_hosted = \<lparr>pp_id = Self_hosted, pp_name = ''Self Hosted'', pp_badge = None,
     pp_pricing = \<lparr>pr_monthlyUsd = 0, pr_annualMonthlyUsd = 0, pr_annualUsd = 0\<rparr>,
     pp_limits = \<lparr>pl_vaults = 0, pl_storage = 0, pl_maxFile = 0, pl_retentionDays = 1\<rparr>,
     pp_snapshots = True, pp_storageUpgrade = False\<rparr>"

definition apply_limit_overrides :: "plan_policy \<Rightarrow> int option \<Rightarrow> plan_policy" where
  \<comment> \<open>\<open>applySubscriptionPlanLimitOverrides\<close> with \<open>overrides.syncedVaults\<close>\<close>
  "apply_limit_overrides policy syncedVaults =
     policy\<lparr>pp_limits := (pp_limits policy)\<lparr>pl_vaults :=
       (case syncedVaults of None \<Rightarrow> pl_vaults (pp_limits policy) | Some n \<Rightarrow> n)\<rparr>\<rparr>"

definition organization_sharing_policy :: "plan_id \<Rightarrow> bool \<times> int" where
  \<comment> \<open>enabled, and the member limit, where zero is unrestricted\<close>
  "organization_sharing_policy plan = (plan = Plus \<or> plan = Self_hosted, if plan = Self_hosted then 0 else 3)"

section \<open>The access a subscription grants\<close>

record subscription_record =
  sb_product :: "string option"
  sb_status :: string
  sb_periodEnd :: "millis option"

definition subscription_grants_access :: "millis \<Rightarrow> subscription_record option \<Rightarrow> bool" where
  "subscription_grants_access now subscription =
     (case subscription of None \<Rightarrow> False
      | Some s \<Rightarrow>
          if sb_status s \<in> {''active'', ''trialing''}
          then (case sb_periodEnd s of None \<Rightarrow> True | Some t \<Rightarrow> t > now)
          else if sb_status s \<notin> {''canceled'', ''past_due'', ''unpaid''} then False
          else (case sb_periodEnd s of None \<Rightarrow> False | Some t \<Rightarrow> t > now))"

text \<open>\<open>productIdsByPlanId\<close> by its entries: the product ids of the paid plans, some of them not configured.\<close>

type_synonym product_ids = "(plan_id \<times> (billing_interval \<times> string option) list) list"

definition subscription_access ::
  "millis \<Rightarrow> subscription_record option \<Rightarrow> product_ids \<Rightarrow> (plan_id \<times> billing_interval) option" where
  "subscription_access now subscription products =
     (case subscription of None \<Rightarrow> None
      | Some s \<Rightarrow>
          if \<not> subscription_grants_access now subscription then None
          else map_option (\<lambda>(plan, interval, _). (plan, interval))
            (find (\<lambda>(plan, interval, p). truthy p \<and> sb_product s = p)
              (concat (map (\<lambda>(plan, ps). map (\<lambda>(interval, p). (plan, interval, p)) ps) products))))"

definition subscription_access_plan_id :: "millis \<Rightarrow> subscription_record option \<Rightarrow> product_ids \<Rightarrow> plan_id option" where
  "subscription_access_plan_id now subscription products = map_option fst (subscription_access now subscription products)"

definition subscription_billing_interval :: "millis \<Rightarrow> subscription_record option \<Rightarrow> product_ids \<Rightarrow> billing_interval option" where
  "subscription_billing_interval now subscription products = map_option snd (subscription_access now subscription products)"

section \<open>The plan of an organization\<close>

definition read_policy_data :: "ident \<Rightarrow> directory \<Rightarrow> subscription_record list \<times> int option option" where
  \<comment> \<open>\<open>readOrganizationPolicyData\<close>: the ten latest subscriptions, and the override of the organization\<close>
  "read_policy_data orgId d =
     (map (\<lambda>r. \<lparr>sb_product = Some (su_product r), sb_status = su_status r, sb_periodEnd = su_periodEnd r\<rparr>)
        (sql_limit 10 (rev (sort_key su_periodEnd (filter (\<lambda>r. su_org r = orgId) (di_subscriptions d))))),
      map_option or_vaultsOverride (row_of or_id orgId (di_orgs d)))"

record subscription_config =
  sc_selfHosted :: bool
  sc_products :: product_ids

fun first_plan :: "(nat \<Rightarrow> millis) \<Rightarrow> product_ids \<Rightarrow> subscription_record list \<Rightarrow> plan_id option" where
  \<comment> \<open>\<open>.map(subscriptionAccessPlanId).find(planId !== null)\<close>; each subscription reads the clock\<close>
  "first_plan clk products [] = None"
| "first_plan clk products (s # ss) =
     (case subscription_access_plan_id (clk 0) (Some s) products of
        Some plan \<Rightarrow> Some plan
      | None \<Rightarrow> first_plan (\<lambda>k. clk (Suc k)) products ss)"

definition read_organization_policy ::
  "subscription_config \<Rightarrow> (nat \<Rightarrow> millis) \<Rightarrow> ident \<Rightarrow> directory \<Rightarrow> plan_policy" where
  "read_organization_policy config clk orgId d =
     (if sc_selfHosted config then plan_policy_of Self_hosted
      else let (subscriptions, organization) = read_policy_data orgId d;
               base = plan_policy_of (case first_plan clk (sc_products config) subscriptions of
                  Some plan \<Rightarrow> plan | None \<Rightarrow> Free)
           in case organization of None \<Rightarrow> base | Some override \<Rightarrow> apply_limit_overrides base override)"

section \<open>Delivery of the limits\<close>

fun apply_all :: "(ident \<Rightarrow> 'w \<Rightarrow> bool \<times> 'w) \<Rightarrow> ident list \<Rightarrow> 'w \<Rightarrow> nat \<times> 'w" where
  \<comment> \<open>\<open>Promise.allSettled\<close> over the vaults: how many were rejected, and the outside world after it\<close>
  "apply_all apply [] w = (0, w)"
| "apply_all apply (v # vs) w =
     (let (applied, w1) = apply v w; (failures, w2) = apply_all apply vs w1
      in (if applied then failures else Suc failures, w2))"

definition refresh_organization_policy ::
  "subscription_config \<Rightarrow> (nat \<Rightarrow> millis) \<Rightarrow> (plan_limits \<Rightarrow> ident \<Rightarrow> 'w \<Rightarrow> bool \<times> 'w) \<Rightarrow> ident \<Rightarrow> directory \<Rightarrow> 'w \<Rightarrow>
   (string + unit) \<times> 'w" where
  \<comment> \<open>\<open>apply\<close> is the writer: the call of one vault's coordinator, whose answer says whether it is ok\<close>
  "refresh_organization_policy config clk apply orgId d w =
     (let policy = read_organization_policy config clk orgId d;
          (failures, w') = apply_all (apply (pp_limits policy)) (list_active_vault_ids orgId d) w
      in (if failures > 0 then Inl (''failed to refresh policy for '' @ show_nat failures @ '' vault'') else Inr (), w'))"

section \<open>Properties of the plans\<close>

lemma first_plan_None:
  "first_plan clk products ss = None \<longleftrightarrow>
     (\<forall>k < length ss. subscription_access (clk k) (Some (ss ! k)) products = None)"
proof (induction ss arbitrary: clk)
  case (Cons s ss)
  show ?case
  proof (cases "subscription_access (clk 0) (Some s) products")
    case None
    then show ?thesis using Cons[of "\<lambda>k. clk (Suc k)"]
      by (auto simp: subscription_access_plan_id_def nth_Cons split: nat.split)
  next
    case (Some a)
    then show ?thesis by (auto simp: subscription_access_plan_id_def)
  qed
qed simp

lemma first_plan_Some:
  "first_plan clk products ss = Some plan \<Longrightarrow>
     \<exists>k < length ss. map_option fst (subscription_access (clk k) (Some (ss ! k)) products) = Some plan"
proof (induction ss arbitrary: clk)
  case (Cons s ss)
  show ?case
  proof (cases "subscription_access_plan_id (clk 0) (Some s) products")
    case None
    then obtain k where "k < length ss" "map_option fst (subscription_access (clk (Suc k)) (Some (ss ! k)) products) = Some plan"
      using Cons.IH[of "\<lambda>k. clk (Suc k)"] Cons.prems by auto
    then show ?thesis by (intro exI[of _ "Suc k"]) simp
  next
    case (Some p)
    then have "p = plan" using Cons.prems by simp
    then show ?thesis using Some by (intro exI[of _ 0]) (simp add: subscription_access_plan_id_def)
  qed
qed simp

lemma subscription_access_Some:
  assumes "subscription_access now (Some s) products = Some (plan, interval)"
  shows "subscription_grants_access now (Some s)" "\<exists>p ps. (plan, ps) \<in> set products \<and> (interval, Some p) \<in> set ps \<and>
    p \<noteq> [] \<and> sb_product s = Some p"
  using assms by (auto simp: subscription_access_def find_Some_iff split: if_splits dest!: nth_mem[of _ "concat _"] truthyE)

lemma apply_all_spec:
  "apply_all apply vs w = (n, w') \<Longrightarrow> n \<le> length vs"
  by (induction vs arbitrary: w n w') (fastforce split: prod.splits if_splits)+

lemma override_fields [simp]:
  "pp_id (apply_limit_overrides p o') = pp_id p"
  "pl_storage (pp_limits (apply_limit_overrides p o')) = pl_storage (pp_limits p)"
  "pl_maxFile (pp_limits (apply_limit_overrides p o')) = pl_maxFile (pp_limits p)"
  "pl_retentionDays (pp_limits (apply_limit_overrides p o')) = pl_retentionDays (pp_limits p)"
  by (simp_all add: apply_limit_overrides_def)

lemma plan_policy_id [simp]: "pp_id (plan_policy_of plan) = plan"
  by (cases plan) simp_all

lemma policy_data_subscription:
  assumes "k < length (fst (read_policy_data orgId d))"
  shows "k < 10 \<and> (\<exists>r \<in> set (di_subscriptions d). su_org r = orgId \<and>
    fst (read_policy_data orgId d) ! k = \<lparr>sb_product = Some (su_product r), sb_status = su_status r, sb_periodEnd = su_periodEnd r\<rparr>)"
proof -
  let ?rows = "sql_limit 10 (rev (sort_key su_periodEnd (filter (\<lambda>r. su_org r = orgId) (di_subscriptions d))))"
  have k: "k < length ?rows" using assms by (simp add: read_policy_data_def)
  then have "?rows ! k \<in> set ?rows" by (rule nth_mem)
  then have "?rows ! k \<in> set (di_subscriptions d)" "su_org (?rows ! k) = orgId" by (auto dest!: set_sql_limit)
  moreover have "k < 10" using k by (simp add: sql_limit_def)
  ultimately show ?thesis using k by (auto simp: read_policy_data_def)
qed

section \<open>Properties\<close>

text \<open>
  A plan is paid for. On a hosted deployment, an organization has another plan than the free one
  only if one of its ten latest subscriptions is for a configured product of that plan and grants
  access at the time it is read: active or in trial, or canceled, past due or unpaid but within the
  period that was paid.
  Whatever the plan, the override of the organization changes the number of its vaults and nothing
  else.
\<close>

theorem plan_is_paid_for:
  assumes hosted: "\<not> sc_selfHosted config"
  shows "let p = read_organization_policy config clk orgId d in (pp_id p \<noteq> Free \<longrightarrow> (\<exists>k r interval ps. k < 10 \<and> r \<in> set (di_subscriptions d) \<and> su_org r = orgId \<and>
      (pp_id p, ps) \<in> set (sc_products config) \<and> (interval, Some (su_product r)) \<in> set ps \<and> su_product r \<noteq> [] \<and>
      (case su_periodEnd r of None \<Rightarrow> su_status r \<in> {''active'', ''trialing''}
       | Some t \<Rightarrow> clk k < t \<and> su_status r \<in> {''active'', ''trialing'', ''canceled'', ''past_due'', ''unpaid''}))) \<and>
    pp_limits p = (pp_limits (plan_policy_of (pp_id p)))\<lparr>pl_vaults := (case snd (read_policy_data orgId d) of
       Some (Some n) \<Rightarrow> n | _ \<Rightarrow> pl_vaults (pp_limits (plan_policy_of (pp_id p))))\<rparr>"
proof -
  define p where "p = read_organization_policy config clk orgId d"
  let ?subs = "fst (read_policy_data orgId d)" and ?first = "first_plan clk (sc_products config) (fst (read_policy_data orgId d))"
  have p: "p = (let base = plan_policy_of (case ?first of Some plan \<Rightarrow> plan | None \<Rightarrow> Free) in
      case snd (read_policy_data orgId d) of None \<Rightarrow> base | Some override \<Rightarrow> apply_limit_overrides base override)"
    using hosted by (simp add: p_def read_organization_policy_def split: prod.split)
  then have id: "pp_id p = (case ?first of Some plan \<Rightarrow> plan | None \<Rightarrow> Free)"
    by (simp add: Let_def split: option.split)
  have "\<exists>k r interval ps. k < 10 \<and> r \<in> set (di_subscriptions d) \<and> su_org r = orgId \<and>
      (pp_id p, ps) \<in> set (sc_products config) \<and> (interval, Some (su_product r)) \<in> set ps \<and> su_product r \<noteq> [] \<and>
      (case su_periodEnd r of None \<Rightarrow> su_status r \<in> {''active'', ''trialing''}
       | Some t \<Rightarrow> clk k < t \<and> su_status r \<in> {''active'', ''trialing'', ''canceled'', ''past_due'', ''unpaid''})"
    if paid: "pp_id p \<noteq> Free"
  proof -
    obtain plan where plan: "?first = Some plan" "pp_id p = plan" using paid id by (cases ?first) auto
    obtain k interval where k: "k < length ?subs" "subscription_access (clk k) (Some (?subs ! k)) (sc_products config) = Some (plan, interval)"
      using first_plan_Some[OF plan(1)] by auto
    obtain r where r: "k < 10" "r \<in> set (di_subscriptions d)" "su_org r = orgId"
      "?subs ! k = \<lparr>sb_product = Some (su_product r), sb_status = su_status r, sb_periodEnd = su_periodEnd r\<rparr>"
      using policy_data_subscription[OF k(1)] by blast
    note a = subscription_access_Some[OF k(2)]
    obtain ps where ps: "(plan, ps) \<in> set (sc_products config)" "(interval, Some (su_product r)) \<in> set ps" "su_product r \<noteq> []"
      using a(2) by (auto simp: r(4))
    have grants: "case su_periodEnd r of None \<Rightarrow> su_status r \<in> {''active'', ''trialing''}
       | Some t \<Rightarrow> clk k < t \<and> su_status r \<in> {''active'', ''trialing'', ''canceled'', ''past_due'', ''unpaid''}"
      using a(1) by (auto simp: r(4) subscription_grants_access_def split: option.splits if_splits)
    show ?thesis by (intro exI conjI) (use r ps grants in \<open>simp_all add: plan(2)\<close>)
  qed
  moreover have "pp_limits p = (pp_limits (plan_policy_of (pp_id p)))\<lparr>pl_vaults := (case snd (read_policy_data orgId d) of
       Some (Some n) \<Rightarrow> n | _ \<Rightarrow> pl_vaults (pp_limits (plan_policy_of (pp_id p))))\<rparr>"
    unfolding id by (simp add: p Let_def apply_limit_overrides_def split: option.split)
  ultimately show ?thesis unfolding Let_def p_def[symmetric] by (intro conjI impI)
qed

definition example_config :: subscription_config where
  "example_config = \<lparr>sc_selfHosted = False, sc_products = [(Plus, [(Monthly, Some ''p1''), (Annual, None)]), (Starter, [(Monthly, Some ''p2'')])]\<rparr>"

definition example_billing :: directory where
  "example_billing = empty_directory\<lparr>di_orgs := [\<lparr>or_id = ''o'', or_name = ''Org'', or_vaultsOverride = Some 7\<rparr>],
     di_subscriptions := [\<lparr>su_id = ''s1'', su_product = ''p2'', su_org = ''o'', su_status = ''active'', su_periodEnd = Some 5\<rparr>,
       \<lparr>su_id = ''s2'', su_product = ''p1'', su_org = ''o'', su_status = ''canceled'', su_periodEnd = Some 50\<rparr>]\<rparr>"

theorem plan_is_paid_for_witness:
  "pp_limits (read_organization_policy example_config (\<lambda>_. 10) ''o'' example_billing) =
     \<lparr>pl_vaults = 7, pl_storage = 5 * bytes_per_gb, pl_maxFile = 100 * bytes_per_mb, pl_retentionDays = 365\<rparr>"
proof -
  let ?p = "read_organization_policy example_config (\<lambda>_. 10) ''o'' example_billing"
  have plus: "pp_id ?p = Plus" by code_simp
  have override: "snd (read_policy_data ''o'' example_billing) = Some (Some 7)" by code_simp
  have "\<not> sc_selfHosted example_config" by (simp add: example_config_def)
  from plan_is_paid_for[OF this, of "\<lambda>_. 10" "''o''" example_billing] show ?thesis by (simp add: plus override Let_def)
qed

end
