(* ===== verification/Sharing_Access.thy ===== *)
theory Sharing_Access
  imports Directory_Steps Subscription_Policy Sync_Access
begin

text \<open>
  \<open>sharing/application/access.ts\<close>, \<open>refresh.ts\<close> and the guards of \<open>service.ts\<close>: the checks a sync token, a
  request and a coordinator's snapshot rest on, and the delivery of access changes to the coordinators.
  The call of a coordinator is a parameter. It may change the database, because other requests go on while
  it runs, and the world outside, of type \<open>'w\<close>.
\<close>

section \<open>Access\<close>

definition is_suspended :: "subscription_config \<Rightarrow> (nat \<Rightarrow> millis) \<Rightarrow> ident \<Rightarrow> directory \<Rightarrow> bool" where
  "is_suspended config clk vaultId d =
     (case live_vault vaultId d of None \<Rightarrow> False
      | Some v \<Rightarrow> if va_sharedAt v = None then False
          else \<not> fst (organization_sharing_policy (pp_id (read_organization_policy config clk (va_org v) d))))"

definition require_sync_access ::
  "subscription_config \<Rightarrow> (nat \<Rightarrow> millis) \<Rightarrow> ident \<Rightarrow> ident \<Rightarrow> directory \<Rightarrow> access_error + int" where
  \<comment> \<open>\<open>SharingAccess.require\<close>\<close>
  "require_sync_access config clk userId vaultId d =
     (case (live_vault vaultId d, grant_of vaultId userId d) of
        (Some v, Some g) \<Rightarrow>
          if vm_status g \<noteq> ''active'' \<or> membership (va_org v) userId d = None
          then Inl (Sharing_error 403 ''vault_access_denied'' ''Vault access has been removed or is awaiting key setup'')
          else if va_sharedAt v \<noteq> None \<and> is_suspended config clk vaultId d
          then Inl (Sharing_error 403 ''sharing_suspended'' ''Shared vault sync is paused until the organization renews Sync Plus'')
          else Inr (vm_version g)
      | _ \<Rightarrow> Inl (Sharing_error 403 ''vault_access_denied'' ''Vault access has been removed or is awaiting key setup''))"

definition read_access_snapshot ::
  "subscription_config \<Rightarrow> (nat \<Rightarrow> millis) \<Rightarrow> ident \<Rightarrow> directory \<Rightarrow> access_snapshot option" where
  \<comment> \<open>the reader that \<open>create-coordinator-application.ts\<close> passes; it throws when the vault is not found\<close>
  "read_access_snapshot config clk vaultId d =
     (if live_vault vaultId d = None then None
      else Some \<lparr>sn_suspended = is_suspended config clk vaultId d, sn_grants = access_versions vaultId d\<rparr>)"

section \<open>Guards of the service\<close>

datatype sharing_failure =
    Refused access_error
  | Failed string \<comment> \<open>an exception of the database or of the language\<close>

definition is_manager :: "string option \<Rightarrow> bool" where
  "is_manager role \<longleftrightarrow> role = Some ''owner'' \<or> role = Some ''admin''"

definition forbidden :: sharing_failure where
  "forbidden = Refused (Sharing_error 403 ''forbidden'' ''You do not have permission for this operation'')"

definition require_organization :: "ident \<Rightarrow> ident \<Rightarrow> bool \<Rightarrow> directory \<Rightarrow> sharing_failure + member_row" where
  "require_organization userId orgId manage d =
     (case membership orgId userId d of None \<Rightarrow> Inl forbidden
      | Some m \<Rightarrow> if manage \<and> \<not> is_manager (Some (mb_role m)) then Inl forbidden else Inr m)"

record vault_grant =
  vg_user :: ident
  vg_creator :: bool
  vg_status :: string
  vg_version :: int

definition vault_grant_of :: "ident \<Rightarrow> ident \<Rightarrow> directory \<Rightarrow> vault_grant" where
  "vault_grant_of userId vaultId d =
     (let stored = grant_of vaultId userId d
      in \<lparr>vg_user = userId, vg_creator = (case stored of None \<Rightarrow> False | Some g \<Rightarrow> vm_creator g),
          vg_status = vault_enrollment_status stored, vg_version = (case stored of None \<Rightarrow> 0 | Some g \<Rightarrow> vm_version g)\<rparr>)"

definition require_vault ::
  "ident \<Rightarrow> ident \<Rightarrow> bool \<Rightarrow> bool \<Rightarrow> directory \<Rightarrow> sharing_failure + vault_row \<times> vault_grant \<times> member_row" where
  "require_vault userId vaultId manage pending d =
     (case live_vault vaultId d of
        None \<Rightarrow> Inl (Refused (Sharing_error 404 ''not_found'' ''Vault not found''))
      | Some v \<Rightarrow>
          (case require_organization userId (va_org v) manage d of
             Inl e \<Rightarrow> Inl e
           | Inr m \<Rightarrow>
               let grant = vault_grant_of userId vaultId d
               in if vg_status grant \<noteq> ''active'' \<and> \<not> (pending \<and> vg_status grant = ''pending_key'') then Inl forbidden
                  else Inr (v, grant, m)))"

definition require_sharing :: "subscription_config \<Rightarrow> (nat \<Rightarrow> millis) \<Rightarrow> ident \<Rightarrow> directory \<Rightarrow> sharing_failure + int" where
  \<comment> \<open>the member limit of the plan\<close>
  "require_sharing config clk orgId d =
     (let (enabled, memberLimit) = organization_sharing_policy (pp_id (read_organization_policy config clk orgId d))
      in if \<not> enabled
         then Inl (Refused (Sharing_error 403 ''sharing_unavailable'' ''Organization sharing requires Sync Plus''))
         else Inr memberLimit)"

section \<open>Delivery of access changes\<close>

type_synonym 'w invalidator = "ident \<Rightarrow> directory \<times> 'w \<Rightarrow> bool \<times> directory \<times> 'w"

fun flush_tasks :: "'w invalidator \<Rightarrow> refresh_row list \<Rightarrow> directory \<times> 'w \<Rightarrow> bool \<times> directory \<times> 'w" where
  \<comment> \<open>the loop of \<open>flushSharingRefreshes\<close>\<close>
  "flush_tasks invalidate [] s = (True, s)"
| "flush_tasks invalidate (task # tasks) s =
     (let (refreshed, d, w) = invalidate (rf_vault task) s;
          d' = (if refreshed then finish_refresh (rf_vault task) (rf_revision task) d else d);
          (complete, s') = flush_tasks invalidate tasks (d', w)
      in (refreshed \<and> complete, s'))"

definition flush_sharing_refreshes :: "'w invalidator \<Rightarrow> directory \<times> 'w \<Rightarrow> bool \<times> directory \<times> 'w" where
  "flush_sharing_refreshes invalidate s = flush_tasks invalidate (refreshes (fst s)) s"

definition flush_refreshes :: "millis \<Rightarrow> 'w invalidator \<Rightarrow> directory \<times> 'w \<Rightarrow> bool \<times> directory \<times> 'w" where
  \<comment> \<open>the method of the service\<close>
  "flush_refreshes now invalidate s = flush_sharing_refreshes invalidate (prune_expired_requests now (fst s), snd s)"

section \<open>Removal and the coordinator\<close>

lemma authorize_denied:
  assumes ok: "access_ok (s, d)" and denied: "denied_by (live_rows now d) userId version"
  shows "fst (authorize_verified now userId version (s, d)) \<noteq> Access_ok"
proof -
  obtain s1 d1 where load: "load_access now (s, d) = (s1, d1)" by fastforce
  have "denial s1 userId version \<noteq> None"
    using load_access_spec[OF ok load] denied ok denial_iff[of s1 "live_rows now d"]
    by (simp add: access_ok_def live_rows_def keyed_filter)
  then obtain e where "denial s1 userId version = Some e" by blast
  then show ?thesis
    by (cases e) (simp add: authorize_verified_def require_access_def assert_sync_allowed_def legacy_pause_quota_compatibility_def load Let_def)
qed

lemma access_versions_distinct: "directory_ok d \<Longrightarrow> distinct (map fst (access_versions vaultId d))"
proof -
  have "keyed membership_key ms \<Longrightarrow> distinct (map fst (map (\<lambda>m. (vm_user m, vm_version m)) (filter (\<lambda>m. vm_vault m = vaultId) ms)))" for ms
    by (induction ms) (auto simp: keyed_def membership_key_def image_iff)
  then show "directory_ok d \<Longrightarrow> ?thesis" using directory_okD(1)[of d] by (simp add: access_versions_def keys_ok_def)
qed

lemma outdated_version:
  assumes ok: "directory_ok d" and old: "outdated vaultId userId n d" and vault: "vaultId \<in> va_id ` set (di_vaults d)"
  shows "\<exists>m. (userId, m) \<in> set (access_versions vaultId d) \<and> n < m"
  using old vault by (auto simp: outdated_def access_versions_def)

lemma require_sync_access_Inr:
  assumes "require_sync_access config clk userId vaultId d = Inr n"
  shows "\<exists>v g. live_vault vaultId d = Some v \<and> grant_of vaultId userId d = Some g \<and> vm_status g = ''active'' \<and>
    is_member (va_org v) userId d \<and> n = vm_version g \<and> \<not> is_suspended config clk vaultId d"
  using assms by (auto simp: require_sync_access_def membership_def is_member_def is_suspended_def find_Some_iff dest: nth_mem
    split: option.splits if_splits)

lemma after_removal:
  assumes ok: "directory_ok d" and v: "v \<in> set (di_vaults d)" "va_id v = vaultId" "va_org v = orgId"
    and g: "grant_of vaultId userId d = Some g" "vm_status g = ''active''"
    and removal: "removed = remove_organization_member t uuid orgId userId d"
    and later: "admissible genuine dir_step es removed" "\<forall>e \<in> set es. \<not> creates_vault vaultId e" "d' = fold dir_step es removed"
  shows "directory_ok d'" "outdated vaultId userId (vm_version g) d'" "x \<in> set (di_vaults d') \<Longrightarrow> va_id x = vaultId \<Longrightarrow> va_org x = orgId"
proof -
  show "directory_ok d'" unfolding later(3) using remove_organization_member_ok[OF ok]
    by (intro directory.run_inv[OF later(1)]) (simp add: removal)
  have "outdated vaultId userId (vm_version g) removed"
    unfolding removal by (rule removal_outdates[OF ok v g(1)]) (simp add: g(2))
  then show "outdated vaultId userId (vm_version g) d'" unfolding later(3) using later(2) by (rule outdated_run)
  assume x: "x \<in> set (di_vaults d')" "va_id x = vaultId"
  then obtain z where "z \<in> set (di_vaults removed)" "va_id z = vaultId" "va_org z = va_org x"
    using vault_keeps_organization_run[OF later(2), of x] unfolding later(3) by blast
  then show "va_org x = orgId"
    using vault_org_unique[OF ok _ v(1), of z] v by (simp add: removal remove_organization_member_fields)
qed

text \<open>
  C3. A removed member cannot sync. A member of an organization with an active key to one of its vaults
  is removed; the database goes on with any statements, in which the vault is not purged; then the vault's
  coordinator refreshes its access from the database. From then on, and for as long as a token issued before can
  live, every token of that member issued before the removal is refused, and every socket of theirs that was
  opened with such a token is closed; and a new token is issued to that user only with a later version and
  only once the user is a member again.
\<close>

theorem removed_member_cannot_sync:
  assumes ok: "directory_ok d" and v: "v \<in> set (di_vaults d)" "va_id v = vaultId" "va_org v = orgId"
    and g: "grant_of vaultId userId d = Some g" "vm_status g = ''active''"
    and removal: "removed = remove_organization_member t uuid orgId userId d"
    and later: "admissible genuine dir_step es removed" "\<forall>e \<in> set es. \<not> creates_vault vaultId e" "d' = fold dir_step es removed"
    and snapshot: "read_access_snapshot config clk vaultId d' = Some sn"
    and access: "access_ok (s, co_db c)" and run: "refresh_access env life (Inr sn) sockets (s, c) = (res, s', c')"
    and now: "ev_clk env 0 \<le> ev_clk env 2" "ev_clk env 2 < ev_clk env 1 + life" "ev_clk env 2 \<le> now" "now < ev_clk env 1 + life"
    and old: "version \<le> vm_version g"
  shows "fst (authorize_verified now userId version (s', co_db c')) \<noteq> Access_ok \<and>
    (\<forall>x \<in> set sockets. ss_userId (snd x) = userId \<and> (case ss_accessVersion (snd x) of None \<Rightarrow> 1 | Some n \<Rightarrow> n) \<le> vm_version g \<longrightarrow>
       Close_socket (fst x) 1012 ''vault access changed; reconnect'' \<in> set (co_calls c')) \<and>
    (\<forall>n clk'. require_sync_access config clk' userId vaultId d' = Inr n \<longrightarrow> vm_version g < n \<and> is_member orgId userId d')"
proof -
  note after = after_removal[OF ok v g removal later]
  have sn: "sn_grants sn = access_versions vaultId d'" and live: "live_vault vaultId d' \<noteq> None"
    using snapshot by (auto simp: read_access_snapshot_def split: if_splits)
  have vault: "vaultId \<in> va_id ` set (di_vaults d')" using live by (auto dest!: live_vaultD)
  obtain m where m: "(userId, m) \<in> set (sn_grants sn)" "vm_version g < m"
    using outdated_version[OF after(1,2) vault] by (auto simp: sn)
  have "1 \<le> vm_version g" using directory_okD(2)[OF ok] grant_ofD[OF g(1)] by (simp add: enrollment_ok_def)
  then have granted: "\<exists>n. (userId, n) \<in> set (sn_grants sn) \<and> 1 < n" using m by (intro exI[of _ m]) simp
  have distinct: "distinct (map fst (sn_grants sn))" unfolding sn using after(1) by (rule access_versions_distinct)
  have denied: "denied_by (live_rows t (co_db c')) userId n" if "n \<le> vm_version g" "ev_clk env 2 \<le> t" "t < ev_clk env 1 + life" for n t
  proof -
    have "n < m" using m(2) that(1) by simp
    then show ?thesis unfolding refresh_denied[OF access distinct run now(1) that(2,3)] if_P[OF granted] using m(1) by blast
  qed
  note closes = refresh_closes[OF access distinct run]
  have refused: "fst (authorize_verified now userId version (s', co_db c')) \<noteq> Access_ok"
    using closes denied[OF old now(3,4)] by (intro authorize_denied) auto
  have closed: "Close_socket (fst x) 1012 ''vault access changed; reconnect'' \<in> set (co_calls c')"
    if "x \<in> set sockets" "ss_userId (snd x) = userId" "(case ss_accessVersion (snd x) of None \<Rightarrow> 1 | Some n \<Rightarrow> n) \<le> vm_version g" for x
    using closes denied[OF that(3) order_refl now(2)] that by auto
  have issued: "vm_version g < n \<and> is_member orgId userId d'" if inr: "require_sync_access config clk' userId vaultId d' = Inr n" for n clk'
  proof -
    obtain y h where y: "live_vault vaultId d' = Some y" "grant_of vaultId userId d' = Some h" "is_member (va_org y) userId d'" "n = vm_version h"
      using require_sync_access_Inr[OF inr] by blast
    have "(userId, vm_version h) \<in> set (sn_grants sn)" using grant_ofD[OF y(2)] by (auto simp: sn access_versions_def)
    then have "vm_version h = m" using m(1) distinct by (auto dest: eq_key_imp_eq_value)
    then show ?thesis using m(2) y(3,4) after(3)[of y] live_vaultD[OF y(1)] by simp
  qed
  show ?thesis using refused closed issued by (intro conjI) blast+
qed

section \<open>Refreshes are not lost\<close>

definition queued :: "ident \<Rightarrow> (refresh_row \<Rightarrow> bool) \<Rightarrow> directory \<Rightarrow> bool" where
  "queued vaultId P d \<longleftrightarrow> (\<exists>r \<in> set (di_refreshes d). rf_vault r = vaultId \<and> P r)"

text \<open>
  What a coordinator's call may do to the queue while it runs: other requests queue refreshes, which
  replaces the revision of the vault's task by a fresh one, and none takes a task away.
\<close>

definition only_queues :: "ident set \<Rightarrow> 'w invalidator \<Rightarrow> bool" where
  "only_queues old invalidate \<longleftrightarrow> (\<forall>v s x. (queued x (\<lambda>r. True) (fst s) \<longrightarrow> queued x (\<lambda>r. True) (fst (snd (invalidate v s)))) \<and>
     (queued x (\<lambda>r. rf_revision r \<notin> old) (fst s) \<longrightarrow> queued x (\<lambda>r. rf_revision r \<notin> old) (fst (snd (invalidate v s)))))"

lemma only_queuesD:
  assumes "only_queues old invalidate" "invalidate v (d, w) = (b, d', w')"
  shows "queued x (\<lambda>r. True) d \<Longrightarrow> queued x (\<lambda>r. True) d'" "queued x (\<lambda>r. rf_revision r \<notin> old) d \<Longrightarrow> queued x (\<lambda>r. rf_revision r \<notin> old) d'"
  using assms unfolding only_queues_def by (metis fst_conv snd_conv)+

lemma finish_keeps_newer:
  "revision \<in> old \<Longrightarrow> queued x (\<lambda>r. rf_revision r \<notin> old) d \<Longrightarrow> queued x (\<lambda>r. rf_revision r \<notin> old) (finish_refresh v revision d)"
  by (auto simp: queued_def finish_refresh_def set_delete_rows)

lemma finish_keeps_other: "x \<noteq> v \<Longrightarrow> queued x P d \<Longrightarrow> queued x P (finish_refresh v revision d)"
  by (auto simp: queued_def finish_refresh_def set_delete_rows)

lemma flush_tasks_newer:
  assumes "only_queues old invalidate" "rf_revision ` set tasks \<subseteq> old" "queued x (\<lambda>r. rf_revision r \<notin> old) (fst s)"
  shows "queued x (\<lambda>r. rf_revision r \<notin> old) (fst (snd (flush_tasks invalidate tasks s)))"
  using assms(2,3)
proof (induction tasks arbitrary: s)
  case (Cons t ts)
  obtain d w where s: "s = (d, w)" by fastforce
  obtain b d' w' where i: "invalidate (rf_vault t) (d, w) = (b, d', w')" by (metis prod_cases3)
  have "queued x (\<lambda>r. rf_revision r \<notin> old) d'" using only_queuesD(2)[OF assms(1) i] Cons.prems(2) by (simp add: s)
  then have "queued x (\<lambda>r. rf_revision r \<notin> old) (if b then finish_refresh (rf_vault t) (rf_revision t) d' else d')"
    using Cons.prems(1) by (simp add: finish_keeps_newer)
  then show ?case using Cons.IH[of "(if b then finish_refresh (rf_vault t) (rf_revision t) d' else d', w')"] Cons.prems(1)
    by (cases b) (simp_all add: s i split_beta)
qed simp

lemma flush_tasks_other:
  assumes "only_queues old invalidate" "x \<notin> rf_vault ` set tasks" "queued x (\<lambda>r. True) (fst s)"
  shows "queued x (\<lambda>r. True) (fst (snd (flush_tasks invalidate tasks s)))"
  using assms(2,3)
proof (induction tasks arbitrary: s)
  case (Cons t ts)
  obtain d w where s: "s = (d, w)" by fastforce
  obtain b d' w' where i: "invalidate (rf_vault t) (d, w) = (b, d', w')" by (metis prod_cases3)
  have "queued x (\<lambda>r. True) d'" using only_queuesD(1)[OF assms(1) i] Cons.prems(2) by (simp add: s)
  then have "queued x (\<lambda>r. True) (if b then finish_refresh (rf_vault t) (rf_revision t) d' else d')"
    using Cons.prems(1) by (simp add: finish_keeps_other)
  then show ?case using Cons.IH[of "(if b then finish_refresh (rf_vault t) (rf_revision t) d' else d', w')"] Cons.prems(1)
    by (cases b) (simp_all add: s i split_beta)
qed simp

lemma flush_tasks_append:
  "flush_tasks invalidate (xs @ ys) s =
     (let (a, s1) = flush_tasks invalidate xs s; (b, s2) = flush_tasks invalidate ys s1 in (a \<and> b, s2))"
  by (induction xs arbitrary: s) (auto simp: Let_def split: prod.splits)

text \<open>
  C19. No refresh is lost. While the queue of refresh tasks is worked off, other requests may queue
  further refreshes at any point. Then a refresh that is queued with a newer revision by the time the
  coordinator has answered is still queued at the end; a task whose coordinator could not be reached is
  still queued; a task is taken off the queue only after its coordinator was refreshed; and the run
  reports completion only if every coordinator it had a task for was.
\<close>

theorem no_refresh_is_lost:
  assumes env: "only_queues (rf_revision ` set (di_refreshes d)) invalidate" and keyed: "keyed rf_vault (di_refreshes d)"
    and task: "refreshes d = before @ task # after"
    and run: "flush_sharing_refreshes invalidate (d, w) = (finished, d', w')"
    and call: "flush_tasks invalidate before (d, w) = (b, s1)" "invalidate (rf_vault task) s1 = (refreshed, d2, w2)"
  shows "(\<not> refreshed \<longrightarrow> \<not> finished \<and> queued (rf_vault task) (\<lambda>r. True) d') \<and>
    (queued (rf_vault task) (\<lambda>r. rf_revision r \<notin> rf_revision ` set (di_refreshes d)) d2 \<longrightarrow>
       queued (rf_vault task) (\<lambda>r. rf_revision r \<notin> rf_revision ` set (di_refreshes d)) d') \<and>
    (finished \<longrightarrow> refreshed)"
proof -
  let ?old = "rf_revision ` set (di_refreshes d)"
  have sub: "set (refreshes d) \<subseteq> set (di_refreshes d)" by (auto simp: refreshes_def dest: set_sql_limit)
  then have old: "rf_revision ` set after \<subseteq> ?old" "rf_revision task \<in> ?old" using task by auto
  have "distinct (map rf_vault (refreshes d))"
    using keyed by (simp add: keyed_def refreshes_def sql_limit_def take_map[symmetric])
  then have apart: "rf_vault task \<notin> rf_vault ` set before" "rf_vault task \<notin> rf_vault ` set after" by (auto simp: task)
  have "task \<in> set (di_refreshes d)" using sub task by auto
  then have "queued (rf_vault task) (\<lambda>r. True) d" by (auto simp: queued_def)
  then have "queued (rf_vault task) (\<lambda>r. True) (fst s1)"
    using flush_tasks_other[OF env apart(1), of "(d, w)"] call(1) by simp
  then have still: "queued (rf_vault task) (\<lambda>r. True) d2"
    using only_queuesD(1)[OF env, of "rf_vault task" "fst s1" "snd s1"] call(2) by simp
  obtain c s3 where rest: "flush_tasks invalidate after (if refreshed then finish_refresh (rf_vault task) (rf_revision task) d2 else d2, w2) = (c, s3)"
    by (meson surj_pair)
  have result: "finished = (b \<and> refreshed \<and> c)" "s3 = (d', w')"
    using run call rest by (simp_all add: flush_sharing_refreshes_def task flush_tasks_append split: if_splits)
  have failed: "queued (rf_vault task) (\<lambda>r. True) d'" if "\<not> refreshed"
    using flush_tasks_other[OF env apart(2), of "(d2, w2)"] rest result(2) still that by simp
  have newer: "queued (rf_vault task) (\<lambda>r. rf_revision r \<notin> ?old) d'" if "queued (rf_vault task) (\<lambda>r. rf_revision r \<notin> ?old) d2"
    using flush_tasks_newer[OF env old(1), of "rf_vault task" "(if refreshed then finish_refresh (rf_vault task) (rf_revision task) d2 else d2, w2)"]
      rest result(2) finish_keeps_newer[OF old(2) that] that by (simp split: if_splits)
  show ?thesis using failed newer result(1) by blast
qed

definition example_invalidator :: "nat invalidator" where
  \<comment> \<open>the coordinator of \<open>b\<close> is unreachable; meanwhile somebody else queues a refresh of \<open>a\<close>; calls are counted\<close>
  "example_invalidator v s = (v \<noteq> ''b'',
     queue_refreshes \<lparr>rf_vault = [], rf_revision = ''new'', rf_createdAt = 9\<rparr> ''new'' 9 [''a''] (fst s), Suc (snd s))"

definition example_queue :: directory where
  "example_queue = empty_directory\<lparr>di_refreshes := [\<lparr>rf_vault = ''a'', rf_revision = ''r1'', rf_createdAt = 1\<rparr>,
     \<lparr>rf_vault = ''b'', rf_revision = ''r2'', rf_createdAt = 2\<rparr>]\<rparr>"

lemma queue_keeps_queued:
  assumes "queued x P d" "\<And>r. P r \<Longrightarrow> P (r\<lparr>rf_revision := revision, rf_createdAt := t\<rparr>)"
  shows "queued x P (queue_refreshes row revision t [v] d)"
proof -
  obtain r where r: "r \<in> set (di_refreshes d)" "rf_vault r = x" "P r" using assms(1) by (auto simp: queued_def)
  let ?r = "if rf_vault r = v then r\<lparr>rf_revision := revision, rf_createdAt := t\<rparr> else r"
  have "?r \<in> set (di_refreshes (queue_refreshes row revision t [v] d))"
    using r(1) by (auto simp: queue_refreshes_def upsert_row_def set_update_rows)
  then show ?thesis using r assms(2) unfolding queued_def by (intro bexI[of _ ?r]) auto
qed

lemma example_only_queues: "''new'' \<notin> old \<Longrightarrow> only_queues old example_invalidator"
  by (simp add: only_queues_def example_invalidator_def queue_keeps_queued)

theorem no_refresh_is_lost_witness:
  "let r = flush_sharing_refreshes example_invalidator (example_queue, 0)
   in \<not> fst r \<and> map rf_revision (di_refreshes (fst (snd r))) = [''new'', ''r2''] \<and> snd (snd r) = 2 \<and>
     queued ''a'' (\<lambda>r. rf_revision r \<notin> {''r1'', ''r2''}) (fst (snd r))"
proof -
  let ?r = "flush_sharing_refreshes example_invalidator (example_queue, 0)"
  have old: "rf_revision ` set (di_refreshes example_queue) = {''r1'', ''r2''}" by (simp add: example_queue_def)
  have env: "only_queues (rf_revision ` set (di_refreshes example_queue)) example_invalidator"
    unfolding old by (rule example_only_queues) simp
  have keyed: "keyed rf_vault (di_refreshes example_queue)" by (simp add: example_queue_def keyed_def)
  have task: "refreshes example_queue = [] @ hd (di_refreshes example_queue) # tl (di_refreshes example_queue)"
    by (simp add: refreshes_def sql_limit_def example_queue_def)
  have first: "rf_vault (hd (di_refreshes example_queue)) = ''a''" by (simp add: example_queue_def)
  obtain finished d' w' where run: "?r = (finished, d', w')" by (metis prod_cases3)
  obtain refreshed d2 w2 where call: "example_invalidator ''a'' (example_queue, 0) = (refreshed, d2, w2)" by (metis prod_cases3)
  have "queued ''a'' (\<lambda>r. rf_revision r \<notin> {''r1'', ''r2''}) d2"
    using call by (auto simp: example_invalidator_def queued_def queue_refreshes_def example_queue_def upsert_row_def set_update_rows)
  then have "queued ''a'' (\<lambda>r. rf_revision r \<notin> {''r1'', ''r2''}) d'"
    using no_refresh_is_lost[OF env keyed task run flush_tasks.simps(1), unfolded first, OF call] by (simp add: old)
  moreover have "\<not> fst ?r \<and> map rf_revision (di_refreshes (fst (snd ?r))) = [''new'', ''r2''] \<and> snd (snd ?r) = 2" by code_simp
  ultimately show ?thesis by (simp add: run Let_def)
qed

theorem removed_member_cannot_sync_witness:
  "\<exists>s' c'. refresh_access example_env 120000 (Inr \<lparr>sn_suspended = False, sn_grants = [(''alice'', 1), (''bob'', 2)]\<rparr>) []
     (example_access, example_vault) = (Inr (), s', c') \<and> fst (authorize_verified 1000 ''bob'' 1 (s', co_db c')) \<noteq> Access_ok"
proof -
  let ?d = "remove_organization_member 9 (\<lambda>_. ''r'') ''org'' ''bob'' example_shared"
  let ?config = "\<lparr>sc_selfHosted = True, sc_products = []\<rparr>" and ?sn = "\<lparr>sn_suspended = False, sn_grants = [(''alice'', 1), (''bob'', 2)]\<rparr>"
  have v: "hd (di_vaults example_shared) \<in> set (di_vaults example_shared)" "va_id (hd (di_vaults example_shared)) = ''v''"
    "va_org (hd (di_vaults example_shared)) = ''org''" by code_simp+
  have "map_option (\<lambda>g. (vm_status g, vm_version g)) (grant_of ''v'' ''bob'' example_shared) = Some (''active'', 1)" by code_simp
  then obtain g where g: "grant_of ''v'' ''bob'' example_shared = Some g" "vm_status g = ''active''" "vm_version g = 1" by auto
  have snapshot: "read_access_snapshot ?config (\<lambda>_. 0) ''v'' (fold dir_step [] ?d) = Some ?sn" by code_simp
  obtain res s' c' where run: "refresh_access example_env 120000 (Inr ?sn) [] (example_access, example_vault) = (res, s', c')"
    by (metis prod.collapse)
  have "fst (authorize_verified 1000 ''bob'' 1 (s', co_db c')) \<noteq> Access_ok"
    using removed_member_cannot_sync[OF example_shared_ok v g(1,2) refl _ _ refl snapshot _ run, of 1000 1] example_access_ok(1) by (simp add: g(3))
  moreover have "res = Inr ()" using run by (simp add: refresh_access_def Let_def split: prod.splits)
  ultimately show ?thesis using run by blast
qed

end
