(* ===== verification/Sharing_Service.thy ===== *)
theory Sharing_Service
  imports Sharing_Access Sync_Token
begin

text \<open>
  \<open>sharing/application/service.ts\<close>: organizations, their members and invitations, and the key requests by
  which a member gets the key of a vault, one definition per method. A method runs on the database and the
  world outside (\<open>'w\<close>); it returns its answer or its failure, and both after it. The method's \<open>k\<close>-th
  statement or policy lookup reads the clock as \<open>se_clk env k\<close> and draws random ids from \<open>se_uuid env k\<close>.
  What a method does when other requests run between its statements is the subject of
  \<open>Directory_Steps\<close>.
\<close>

section \<open>Environment\<close>

record sharing_config =
  sg_policy :: subscription_config
  sg_origin :: string \<comment> \<open>the origin of \<open>baseURL\<close>\<close>
  sg_billingOrigin :: "string option" \<comment> \<open>of \<open>billingBaseURL\<close>\<close>
  sg_requireVerified :: bool
  sg_email :: bool \<comment> \<open>a sender is configured\<close>
  sg_emailFrom :: "string option"
  sg_allowed :: "string option"

record 'w sharing_env =
  se_config :: sharing_config
  se_clk :: "nat \<Rightarrow> nat \<Rightarrow> millis"
  se_uuid :: "nat \<Rightarrow> nat \<Rightarrow> ident"
  se_invalidate :: "'w invalidator"
  se_send :: "string \<times> string \<times> string \<times> string \<Rightarrow> 'w \<Rightarrow> bool \<times> 'w" \<comment> \<open>from, to, subject and text\<close>

type_synonym ('a, 'w) handled = "(sharing_failure + 'a) \<times> directory \<times> 'w"

definition proceed :: "sharing_failure + 'a \<Rightarrow> ('a \<Rightarrow> directory \<times> 'w \<Rightarrow> ('b, 'w) handled) \<Rightarrow> directory \<times> 'w \<Rightarrow> ('b, 'w) handled" where
  \<comment> \<open>a check that throws, and what comes after it\<close>
  "proceed check f s = (case check of Inl e \<Rightarrow> (Inl e, s) | Inr x \<Rightarrow> f x s)"

definition refuse_unless :: "bool \<Rightarrow> sharing_failure \<Rightarrow> sharing_failure + unit" where
  "refuse_unless b e = (if b then Inr () else Inl e)"

definition change :: "(directory \<Rightarrow> directory) \<Rightarrow> directory \<times> 'w \<Rightarrow> directory \<times> 'w" where
  "change f s = (f (fst s), snd s)"

definition flush :: "'w sharing_env \<Rightarrow> nat \<Rightarrow> directory \<times> 'w \<Rightarrow> bool \<times> directory \<times> 'w" where
  "flush env k s = flush_refreshes (se_clk env k 0) (se_invalidate env) s"

definition plan_for :: "'w sharing_env \<Rightarrow> nat \<Rightarrow> ident \<Rightarrow> directory \<Rightarrow> plan_policy" where
  "plan_for env k orgId d = read_organization_policy (sg_policy (se_config env)) (se_clk env k) orgId d"

definition sharing_required :: "'w sharing_env \<Rightarrow> nat \<Rightarrow> ident \<Rightarrow> directory \<Rightarrow> sharing_failure + int" where
  "sharing_required env k orgId d = require_sharing (sg_policy (se_config env)) (se_clk env k) orgId d"

definition log_audit :: "'w sharing_env \<Rightarrow> nat \<Rightarrow> ident \<Rightarrow> ident \<Rightarrow> string \<Rightarrow> ident \<Rightarrow> directory \<times> 'w \<Rightarrow> directory \<times> 'w" where
  "log_audit env k orgId actorId action targetId = change (audit (se_uuid env k 0) (se_clk env k 0) orgId actorId action targetId)"

section \<open>E-mail addresses and links\<close>

definition normalize_email :: "string \<Rightarrow> string" where
  \<comment> \<open>also \<open>auth/policies/allowed-emails.ts\<close>\<close>
  "normalize_email email = js_lower (js_trim email)"

definition parse_allowed_emails :: "string option \<Rightarrow> string list option" where
  "parse_allowed_emails value =
     (case value of None \<Rightarrow> None
      | Some v \<Rightarrow> if js_trim v = [] then None else Some (filter (\<lambda>e. e \<noteq> []) (map normalize_email (js_split (CHR '','') v))))"

definition is_email_allowed :: "string \<Rightarrow> string list \<Rightarrow> bool" where
  "is_email_allowed email allowed \<longleftrightarrow> normalize_email email \<in> set allowed"

definition utf8 :: "char \<Rightarrow> nat list" where
  "utf8 c = (let n = of_char c in if n < 128 then [n] else [192 + n div 64, 128 + n mod 64])"

definition hex_digit :: "nat \<Rightarrow> char" where
  "hex_digit n = (if n < 10 then char_of (48 + n) else char_of (55 + n))"

definition percent_encode :: "string \<Rightarrow> string \<Rightarrow> string" where
  \<comment> \<open>letters, digits and the given punctuation stand for themselves\<close>
  "percent_encode plain s = concat (map (\<lambda>c.
     if char_between (CHR ''a'') (CHR ''z'') c \<or> char_between (CHR ''A'') (CHR ''Z'') c \<or> char_between (CHR ''0'') (CHR ''9'') c \<or> c \<in> set plain then [c]
     else concat (map (\<lambda>b. [CHR ''%'', hex_digit (b div 16), hex_digit (b mod 16)]) (utf8 c))) s)"

definition billing_url :: "string option \<Rightarrow> ident \<Rightarrow> string option" where
  "billing_url origin orgId =
     (if truthy origin then Some (the origin @ ''/billing?organizationId='' @ percent_encode (CHR 0x27 # ''-_.!~*()'') orgId) else None)"

definition invitation_url :: "string \<Rightarrow> ident \<Rightarrow> string" where
  \<comment> \<open>\<open>searchParams.set\<close> writes a blank as a plus sign\<close>
  "invitation_url origin i = origin @ ''/invitations?invitationId='' @
     concat (map (\<lambda>c. if c = CHR '' '' then ''+'' else percent_encode ''*-._'' [c]) i)"

section \<open>Organizations\<close>

definition list_organizations :: "'w sharing_env \<Rightarrow> ident \<Rightarrow> directory \<Rightarrow> ((ident \<times> string \<times> string) \<times> plan_policy) list" where
  "list_organizations env userId d =
     (let orgs = organizations_of userId d
      in map (\<lambda>k. (orgs ! k, plan_for env k (fst (orgs ! k)) d)) [0..<length orgs])"

record member_view =
  mv_user :: ident
  mv_name :: string
  mv_email :: string
  mv_canManage :: bool
  mv_status :: string

record vault_view =
  vv_id :: ident
  vv_name :: string
  vv_shared :: bool
  vv_personal :: bool
  vv_canManage :: bool
  vv_status :: string
  vv_members :: "member_view list"

record organization_view =
  ov_id :: ident
  ov_billingUrl :: "string option"
  ov_name :: string
  ov_role :: string
  ov_plan :: plan_policy
  ov_sharing :: "bool \<times> int"
  ov_members :: "organization_member list"
  ov_vaults :: "vault_view list"
  ov_invitations :: "invitation_row list"

definition member_view_of :: "(ident \<times> string \<times> string \<times> string) list \<Rightarrow> organization_member \<Rightarrow> member_view" where
  "member_view_of grants m =
     \<lparr>mv_user = om_id m, mv_name = om_name m, mv_email = om_email m, mv_canManage = is_manager (Some (om_role m)),
      mv_status = (case find (\<lambda>g. fst g = om_id m) grants of
         None \<Rightarrow> ''pending_key'' | Some (_, status, _) \<Rightarrow> if status = ''revoked'' then ''pending_key'' else status)\<rparr>"

definition vault_view_of :: "ident \<Rightarrow> bool \<Rightarrow> organization_member list \<Rightarrow> directory \<Rightarrow> vault_row \<Rightarrow> vault_view" where
  "vault_view_of userId manage members d v =
     (let grant = grant_of (va_id v) userId d
      in \<lparr>vv_id = va_id v, vv_name = va_name v, vv_shared = (va_sharedAt v \<noteq> None),
          vv_personal = (case grant of None \<Rightarrow> False | Some g \<Rightarrow> vm_creator g), vv_canManage = manage,
          vv_status = vault_enrollment_status grant,
          vv_members = (if manage then map (member_view_of (grants_of (va_id v) d)) members else [])\<rparr>)"

definition organization_overview :: "'w sharing_env \<Rightarrow> ident \<Rightarrow> ident \<Rightarrow> directory \<times> 'w \<Rightarrow> (organization_view, 'w) handled" where
  "organization_overview env userId orgId =
     (\<lambda>s. proceed (require_organization userId orgId False (fst s)) (\<lambda>actor s.
       let d = fst s;
           plan = plan_for env 0 orgId d;
           members = members_of orgId d;
           manage = is_manager (Some (mb_role actor));
           vaults = map (vault_view_of userId manage members d) (vaults_of orgId d);
           (_, s') = flush env 1 s
       in case organization_of orgId d of
            None \<Rightarrow> (Inl (Failed ''TypeError''), s')
          | Some org \<Rightarrow> (Inr \<lparr>ov_id = orgId, ov_billingUrl = billing_url (sg_billingOrigin (se_config env)) orgId, ov_name = or_name org,
              ov_role = mb_role actor, ov_plan = plan, ov_sharing = organization_sharing_policy (pp_id plan),
              ov_members = (if manage then members else filter (\<lambda>m. om_id m = userId) members), ov_vaults = vaults,
              ov_invitations = (if manage then invitations_of orgId (fst s') else [])\<rparr>, s')) s)"

definition rename_by :: "ident \<Rightarrow> ident \<Rightarrow> string \<Rightarrow> directory \<times> 'w \<Rightarrow> (unit, 'w) handled" where
  "rename_by userId orgId name =
     (\<lambda>s. proceed (require_organization userId orgId True (fst s)) (\<lambda>_ s. (Inr (), change (rename_organization orgId name) s)) s)"

section \<open>Invitations\<close>

record delivery =
  de_id :: ident
  de_url :: string
  de_sent :: bool

definition invitation_text :: "string \<Rightarrow> string" where
  "invitation_text url = ''Sign in with this email address to review your Synch invitation:'' @ [CHR 0x0A, CHR 0x0A] @ url @
     [CHR 0x0A, CHR 0x0A] @ ''Your vault password and encryption keys are never included in invitations.''"

definition deliver_invitation :: "'w sharing_env \<Rightarrow> nat \<Rightarrow> ident \<Rightarrow> string \<Rightarrow> directory \<times> 'w \<Rightarrow> (delivery, 'w) handled" where
  "deliver_invitation env k i email s =
     (let config = se_config env;
          url = invitation_url (sg_origin config) i
      in if sg_email config \<and> truthy (sg_emailFrom config)
         then let limited = (Inl (Refused (Sharing_error 429 ''delivery_rate_limited'' ''Wait a minute before resending this invitation'')), s)
              in case invitation_of i (fst s) of
                   None \<Rightarrow> limited
                 | Some invite \<Rightarrow>
                     let (claimed, d) = claim_invitation_delivery (se_uuid env k 0) (se_clk env k 0) invite (fst s)
                     in if \<not> claimed then limited
                        else let (sent, w) = se_send env (the (sg_emailFrom config), email, ''Invitation to a Synch organization'',
                                   invitation_text url) (snd s)
                             in (Inr \<lparr>de_id = i, de_url = url, de_sent = sent\<rparr>, d, w)
         else (Inr \<lparr>de_id = i, de_url = url, de_sent = False\<rparr>, s))"

definition allowed_invitees :: "string option \<Rightarrow> string list" where
  "allowed_invitees allowed =
     (case allowed of None \<Rightarrow> [] | Some l \<Rightarrow> filter (\<lambda>v. v \<noteq> []) (map (\<lambda>v. js_lower (js_trim v)) (js_split (CHR '','') l)))"

definition invite_member :: "'w sharing_env \<Rightarrow> ident \<Rightarrow> ident \<Rightarrow> string \<Rightarrow> string \<Rightarrow> directory \<times> 'w \<Rightarrow> (delivery, 'w) handled" where
  \<comment> \<open>address and role, which is \<open>admin\<close> or \<open>member\<close>\<close>
  "invite_member env actorId orgId address role =
     (\<lambda>s. proceed (require_organization actorId orgId True (fst s)) (\<lambda>inviter.
      (\<lambda>s. proceed (refuse_unless (\<not> (role = ''admin'' \<and> mb_role inviter \<noteq> ''owner'')) forbidden) (\<lambda>_.
      (\<lambda>s. proceed (sharing_required env 0 orgId (fst s)) (\<lambda>memberLimit s.
        let email = js_lower (js_trim address);
            allowed = allowed_invitees (sg_allowed (se_config env))
        in if allowed \<noteq> [] \<and> email \<notin> set allowed
           then (Inl (Refused (Sharing_error 400 ''email_not_allowed'' ''This server's account allowlist does not include that email'')), s)
           else case create_invitation (se_uuid env 1 0) (se_clk env 1 0)
                  \<lparr>ii_org = orgId, ii_email = email, ii_role = role, ii_inviter = actorId, ii_memberLimit = memberLimit\<rparr> (fst s) of
             (None, d) \<Rightarrow> (Inl (Refused (Sharing_error 409 ''invitation_conflict''
                ''Member limit reached, or this person is already a member or invited'')), (d, snd s))
           | (Some invitation, d) \<Rightarrow>
               deliver_invitation env 3 (in_id invitation) (in_email invitation)
                 (log_audit env 2 orgId actorId ''invited'' (in_id invitation) (d, snd s))) s)) s)) s)"

definition resend_invitation :: "'w sharing_env \<Rightarrow> ident \<Rightarrow> ident \<Rightarrow> ident \<Rightarrow> directory \<times> 'w \<Rightarrow> (delivery, 'w) handled" where
  "resend_invitation env userId orgId i =
     (\<lambda>s. proceed (require_organization userId orgId True (fst s)) (\<lambda>_.
      (\<lambda>s. proceed (sharing_required env 0 orgId (fst s)) (\<lambda>_ s.
        let unavailable = Inl (Refused (Sharing_error 409 ''invitation_unavailable''
              ''Create a new invitation for expired or canceled invitations''))
        in case invitation_of i (fst s) of
             None \<Rightarrow> (unavailable, s)
           | Some invite \<Rightarrow>
               if in_org invite \<noteq> orgId \<or> in_status invite \<noteq> ''pending'' \<or> in_expiresAt invite \<le> se_clk env 1 0 then (unavailable, s)
               else deliver_invitation env 2 i (in_email invite) s) s)) s)"

definition cancel_invitation :: "'w sharing_env \<Rightarrow> ident \<Rightarrow> ident \<Rightarrow> ident \<Rightarrow> directory \<times> 'w \<Rightarrow> (unit, 'w) handled" where
  "cancel_invitation env userId orgId i =
     (\<lambda>s. proceed (require_organization userId orgId True (fst s)) (\<lambda>_ s.
        case invitation_of i (fst s) of
          None \<Rightarrow> (Inl forbidden, s)
        | Some invite \<Rightarrow>
            if in_org invite \<noteq> orgId then (Inl forbidden, s)
            else (Inr (), log_audit env 0 orgId userId ''invitation_canceled'' i (change (set_invitation_status i ''canceled'') s))) s)"

record sharing_actor =
  sa_id :: ident
  sa_email :: string

definition recipient :: "'w sharing_env \<Rightarrow> sharing_actor \<Rightarrow> ident \<Rightarrow> directory \<Rightarrow> sharing_failure + invitation_row" where
  "recipient env actor i d =
     (case invitation_of i d of
        None \<Rightarrow> Inl forbidden
      | Some invite \<Rightarrow>
          if js_lower (in_email invite) \<noteq> js_lower (sa_email actor) then Inl forbidden
          else if sg_requireVerified (se_config env) \<and> (case user_of (sa_id actor) d of None \<Rightarrow> True | Some u \<Rightarrow> \<not> us_verified u)
          then Inl (Refused (Sharing_error 403 ''verify_email'' ''Verify your email before opening an invitation''))
          else Inr invite)"

record invitation_view =
  iv_id :: ident
  iv_org :: ident
  iv_orgName :: "string option"
  iv_role :: "string option"
  iv_status :: string
  iv_vaults :: "(ident \<times> string) list"

definition show_invitation :: "'w sharing_env \<Rightarrow> sharing_actor \<Rightarrow> ident \<Rightarrow> directory \<Rightarrow> sharing_failure + invitation_view" where
  "show_invitation env actor i d =
     (case recipient env actor i d of
        Inl e \<Rightarrow> Inl e
      | Inr invite \<Rightarrow> Inr \<lparr>iv_id = i, iv_org = in_org invite, iv_orgName = map_option or_name (organization_of (in_org invite) d),
          iv_role = in_role invite,
          iv_status = (if in_expiresAt invite \<le> se_clk env 0 0 \<and> in_status invite = ''pending'' then ''expired'' else in_status invite),
          iv_vaults = map (\<lambda>v. (va_id v, va_name v)) (vaults_of (in_org invite) d)\<rparr>)"

definition respond_to_invitation :: "'w sharing_env \<Rightarrow> sharing_actor \<Rightarrow> ident \<Rightarrow> bool \<Rightarrow> directory \<times> 'w \<Rightarrow> (ident, 'w) handled" where
  \<comment> \<open>the answer is the organization\<close>
  "respond_to_invitation env actor i accept =
     (\<lambda>s. proceed (recipient env actor i (fst s)) (\<lambda>invite s.
        let orgId = in_org invite in
        if in_status invite = ''accepted'' then (Inr orgId, s)
        else if in_status invite \<noteq> ''pending'' \<or> in_expiresAt invite \<le> se_clk env 0 0
        then (Inl (Refused (Sharing_error 409 ''invitation_unavailable'' ''Invitation expired or canceled'')), s)
        else if \<not> accept then (Inr orgId, change (set_invitation_status i ''rejected'') s)
        else proceed (sharing_required env 1 orgId (fst s)) (\<lambda>_.
          (\<lambda>s. proceed (require_organization (in_inviter invite) orgId True (fst s)) (\<lambda>inviter s.
             if in_role invite = Some ''admin'' \<and> mb_role inviter \<noteq> ''owner'' then (Inl forbidden, s)
             else case accept_invitation (se_clk env 2) (se_uuid env 2) invite (sa_id actor) (fst s) of
               (False, d) \<Rightarrow> (Inl (Refused (Sharing_error 409 ''invitation_changed'' ''Invitation changed; refresh and try again'')), (d, snd s))
             | (True, d) \<Rightarrow>
                 let (_, s') = flush env 3 (d, snd s)
                 in (Inr orgId, log_audit env 4 orgId (sa_id actor) ''invitation_accepted'' i s')) s)) s) s)"

section \<open>Members\<close>

definition change_member ::
  "'w sharing_env \<Rightarrow> ident \<Rightarrow> ident \<Rightarrow> ident \<Rightarrow> string option \<Rightarrow> directory \<times> 'w \<Rightarrow> (bool, 'w) handled" where
  \<comment> \<open>without a role, the member is removed; the answer is whether a refresh is pending\<close>
  "change_member env userId orgId targetId role =
     (\<lambda>s. proceed (require_organization userId orgId False (fst s)) (\<lambda>actor s.
        case membership orgId targetId (fst s) of
          None \<Rightarrow> if role = None then (let (finished, s') = flush env 0 s in (Inr (\<not> finished), s')) else (Inl forbidden, s)
        | Some target \<Rightarrow>
            if mb_role target = ''owner''
            then (Inl (Refused (Sharing_error 409 ''owner_protected'' ''The organization owner cannot be removed or demoted here'')), s)
            else let changed = (case role of
                       Some r \<Rightarrow> if mb_role actor \<noteq> ''owner'' then None else Some (change_organization_role orgId targetId r)
                     | None \<Rightarrow> if userId \<noteq> targetId \<and>
                           (\<not> is_manager (Some (mb_role actor)) \<or> (mb_role target = ''admin'' \<and> mb_role actor \<noteq> ''owner''))
                         then None
                         else Some (remove_organization_member (se_clk env 1 0) (se_uuid env 1) orgId targetId))
                 in case changed of
                      None \<Rightarrow> (Inl forbidden, s)
                    | Some f \<Rightarrow>
                        let s1 = log_audit env 2 orgId userId (if role = None then ''member_removed'' else ''member_role_changed'') targetId (change f s);
                            (finished, s2) = flush env 3 s1
                        in (Inr (\<not> finished), s2)) s)"

section \<open>Key requests\<close>

definition list_key_requests :: "'w sharing_env \<Rightarrow> ident \<Rightarrow> ident \<Rightarrow> directory \<Rightarrow> sharing_failure + request_row list" where
  "list_key_requests env userId vaultId d =
     (case require_vault userId vaultId False True d of
        Inl e \<Rightarrow> Inl e
      | Inr (_, grant, member) \<Rightarrow>
          Inr (filter (\<lambda>r. kr_user r = userId \<or> (vg_status grant = ''active'' \<and> is_manager (Some (mb_role member))))
            (key_requests_of (se_clk env 0 0) vaultId d)))"

definition get_key_request :: "ident \<Rightarrow> ident \<Rightarrow> ident \<Rightarrow> directory \<Rightarrow> sharing_failure + request_row" where
  "get_key_request userId vaultId i d =
     (case require_vault userId vaultId False True d of
        Inl e \<Rightarrow> Inl e
      | Inr (_, grant, member) \<Rightarrow>
          (case key_request i d of
             None \<Rightarrow> Inl forbidden
           | Some r \<Rightarrow>
               if kr_vault r \<noteq> vaultId \<or> (kr_user r \<noteq> userId \<and> (vg_status grant \<noteq> ''active'' \<or> \<not> is_manager (Some (mb_role member))))
               then Inl forbidden else Inr r))"

definition start_key_request :: "'w sharing_env \<Rightarrow> ident \<Rightarrow> ident \<Rightarrow> ident \<Rightarrow> string \<Rightarrow> directory \<times> 'w \<Rightarrow> (request_row, 'w) handled" where
  "start_key_request env userId vaultId i publicKey =
     (\<lambda>s. proceed (require_vault userId vaultId False True (fst s)) (\<lambda>(vault, _).
      (\<lambda>s. proceed (sharing_required env 0 (va_org vault) (fst s)) (\<lambda>_ s0.
        let s1 = change (ensure_vault_enrollment (se_clk env 1 0) vaultId userId) s0
        in proceed (require_vault userId vaultId False True (fst s1)) (\<lambda>(_, grant, _) s.
             case key_request i (fst s) of
               Some existing \<Rightarrow>
                 if kr_user existing \<noteq> userId \<or> kr_vault existing \<noteq> vaultId \<or> kr_publicKey existing \<noteq> publicKey
                 then (Inl forbidden, s) else (Inr existing, s)
             | None \<Rightarrow>
                 let request = \<lparr>kr_id = i, kr_vault = vaultId, kr_user = userId,
                       kr_purpose = (if vg_status grant = ''pending_key'' then ''enrollment'' else ''recovery''), kr_version = vg_version grant,
                       kr_publicKey = publicKey, kr_status = ''pending'', kr_envelope = None, kr_approvedBy = None,
                       kr_createdAt = se_clk env 2 0, kr_expiresAt = se_clk env 2 1 + 48 * 60 * 60 * 1000\<rparr>
                 in case create_key_request request (fst s) of
                      None \<Rightarrow> (Inl (Failed ''DatabaseError''), s)
                    | Some d \<Rightarrow> (Inr request, log_audit env 3 (va_org vault) userId ''key_requested'' i (d, snd s))) s1) s)) s)"

definition approve_key_request_by ::
  "'w sharing_env \<Rightarrow> ident \<Rightarrow> ident \<Rightarrow> ident \<Rightarrow> transfer_envelope \<Rightarrow> directory \<times> 'w \<Rightarrow> (unit, 'w) handled" where
  "approve_key_request_by env userId vaultId i envelope =
     (\<lambda>s. proceed (require_vault userId vaultId True False (fst s)) (\<lambda>(vault, _).
      (\<lambda>s. proceed (sharing_required env 0 (va_org vault) (fst s)) (\<lambda>_ s.
        case key_request i (fst s) of
          None \<Rightarrow> (Inl forbidden, s)
        | Some request \<Rightarrow>
            if kr_vault request \<noteq> vaultId \<or> kr_user request = userId then (Inl forbidden, s)
            else proceed (require_vault (kr_user request) vaultId False True (fst s)) (\<lambda>_ s.
              case approve_key_request (se_clk env 1 0) i userId envelope (fst s) of
                (False, d) \<Rightarrow> (Inl (Refused (Sharing_error 409 ''request_changed'' ''Key request changed or expired'')), (d, snd s))
              | (True, d) \<Rightarrow> (Inr (), log_audit env 2 (va_org vault) userId ''key_approved'' i (d, snd s))) s) s)) s)"

definition refresh_vault :: "'w sharing_env \<Rightarrow> nat \<Rightarrow> ident \<Rightarrow> directory \<times> 'w \<Rightarrow> (unit, 'w) handled" where
  \<comment> \<open>\<open>refresh\<close>\<close>
  "refresh_vault env k vaultId s =
     (case queue_refresh (se_clk env k) (se_uuid env k) vaultId (fst s) of
        None \<Rightarrow> (Inl (Failed ''DatabaseError''), s)
      | Some d \<Rightarrow> (Inr (), snd (flush env (k + 1) (d, snd s))))"

definition complete_key_request_by ::
  "'w sharing_env \<Rightarrow> ident \<Rightarrow> ident \<Rightarrow> ident \<Rightarrow> key_envelope \<Rightarrow> directory \<times> 'w \<Rightarrow> (unit, 'w) handled" where
  "complete_key_request_by env userId vaultId i envelope =
     (\<lambda>s. proceed (require_vault userId vaultId False True (fst s)) (\<lambda>(vault, _).
      (\<lambda>s. proceed (sharing_required env 0 (va_org vault) (fst s)) (\<lambda>_ s.
        case key_request i (fst s) of
          None \<Rightarrow> (Inl forbidden, s)
        | Some request \<Rightarrow>
            if kr_user request \<noteq> userId \<or> kr_vault request \<noteq> vaultId then (Inl forbidden, s)
            else if kr_status request = ''completed''
            then (if password_wrapper vaultId userId (fst s) \<noteq> Some envelope
                  then (Inl (Refused (Sharing_error 409 ''password_changed''
                     ''Your vault password has changed since this request completed'')), s)
                  else (Inr (), s))
            else if ke_version envelope \<noteq> 2 \<or> ke_binding envelope \<noteq> Some (vaultId, userId) \<or> ke_keyVersion envelope \<noteq> va_keyVersion vault
            then (Inl (Refused (Sharing_error 400 ''invalid_wrapper'' ''Password wrapper does not match this vault and user'')), s)
            else case complete_key_request (se_clk env 1) (se_uuid env 1 0) request envelope (fst s) of
              (False, d) \<Rightarrow> (Inl (Refused (Sharing_error 409 ''request_changed'' ''Key request changed or expired'')), (d, snd s))
            | (True, d) \<Rightarrow>
                (case refresh_vault env 2 vaultId (d, snd s) of
                   (Inl e, s') \<Rightarrow> (Inl e, s')
                 | (Inr _, s') \<Rightarrow> (Inr (), log_audit env 4 (va_org vault) userId ''key_received'' i s'))) s)) s)"

end
