(* ===== verification/Sharing_Rules.thy ===== *)
theory Sharing_Rules
  imports Sharing_Service
begin

text \<open>
  What the service of organizations promises: who may change whose membership, what accepting an invitation
  does, and that the three steps of a key request hand over the key.
\<close>

section \<open>Delivery leaves the rest alone\<close>

declare One_nat_def [simp del]

lemma flush_tasks_keeps:
  assumes "\<And>v s. F (fst (snd (invalidate v s))) = F (fst s)" "\<And>v r d. F (finish_refresh v r d) = F d"
  shows "F (fst (snd (flush_tasks invalidate tasks s))) = F (fst s)"
proof (induction tasks arbitrary: s)
  case (Cons t ts)
  obtain b d w where i: "invalidate (rf_vault t) s = (b, d, w)" by (metis prod_cases3)
  have "F d = F (fst s)" using assms(1)[of "rf_vault t" s] i by simp
  then show ?case using Cons.IH assms(2) by (cases b) (simp_all add: i split_beta)
qed simp

lemma flush_keeps:
  assumes "\<And>v s. F (fst (snd (se_invalidate env v s))) = F (fst s)" "\<And>v r d. F (finish_refresh v r d) = F d"
    "\<And>now d. F (prune_expired_requests now d) = F d"
  shows "F (fst (snd (flush env k s))) = F (fst s)"
  using assms flush_tasks_keeps[of F "se_invalidate env"] by (simp add: flush_def flush_refreshes_def flush_sharing_refreshes_def)

lemma store_frames [simp]:
  "di_members (finish_refresh v r d) = di_members d" "di_members (prune_expired_requests now d) = di_members d"
  "di_invitations (finish_refresh v r d) = di_invitations d" "di_invitations (prune_expired_requests now d) = di_invitations d"
  "di_vaults (finish_refresh v r d) = di_vaults d" "di_vaults (prune_expired_requests now d) = di_vaults d"
  "di_memberships (finish_refresh v r d) = di_memberships d" "di_memberships (prune_expired_requests now d) = di_memberships d"
  "di_wrappers (finish_refresh v r d) = di_wrappers d" "di_wrappers (prune_expired_requests now d) = di_wrappers d"
  "di_orgs (finish_refresh v r d) = di_orgs d" "di_orgs (prune_expired_requests now d) = di_orgs d"
  "di_subscriptions (finish_refresh v r d) = di_subscriptions d" "di_subscriptions (prune_expired_requests now d) = di_subscriptions d"
  "di_requests (finish_refresh v r d) = di_requests d"
  by (simp_all add: finish_refresh_def prune_expired_requests_def)

lemma log_audit_fields [simp]:
  "di_members (fst (log_audit env k g a x t s)) = di_members (fst s)" "di_invitations (fst (log_audit env k g a x t s)) = di_invitations (fst s)"
  "di_vaults (fst (log_audit env k g a x t s)) = di_vaults (fst s)" "di_memberships (fst (log_audit env k g a x t s)) = di_memberships (fst s)"
  "di_wrappers (fst (log_audit env k g a x t s)) = di_wrappers (fst s)" "di_requests (fst (log_audit env k g a x t s)) = di_requests (fst s)"
  "di_orgs (fst (log_audit env k g a x t s)) = di_orgs (fst s)" "di_subscriptions (fst (log_audit env k g a x t s)) = di_subscriptions (fst s)"
  by (simp_all add: log_audit_def change_def audit_def)

section \<open>Members\<close>

definition member_key :: "member_row \<Rightarrow> ident \<times> ident" where
  "member_key m = (mb_org m, mb_user m)"

definition may_change :: "member_row \<Rightarrow> member_row \<Rightarrow> string option \<Rightarrow> bool" where
  \<comment> \<open>the rule: owners are untouchable; only owners change roles; one may leave; managers remove, but admins only by owners\<close>
  "may_change actor target role \<longleftrightarrow> mb_role target \<noteq> ''owner'' \<and>
     (case role of Some r \<Rightarrow> mb_role actor = ''owner''
      | None \<Rightarrow> mb_user actor = mb_user target \<or> mb_role actor = ''owner'' \<or> (mb_role actor = ''admin'' \<and> mb_role target \<noteq> ''admin''))"

lemma membership_Some:
  "membership orgId userId d = Some m \<Longrightarrow> m \<in> set (di_members d) \<and> mb_org m = orgId \<and> mb_user m = userId"
  by (auto simp: membership_def find_Some_iff)

lemma change_member_cases:
  assumes "change_member env userId orgId targetId role s = (res, s')"
  obtains (refused) e where "res = Inl e" "s' = s"
    | (gone) "\<not> isl res" "role = None" "membership orgId targetId (fst s) = None" "s' = snd (flush env 0 s)"
    | (changed) actor target where "\<not> isl res" "membership orgId userId (fst s) = Some actor" "membership orgId targetId (fst s) = Some target"
        "may_change actor target role"
        "s' = snd (flush env 3 (log_audit env 2 orgId userId (if role = None then ''member_removed'' else ''member_role_changed'') targetId
          (change (case role of Some r \<Rightarrow> change_organization_role orgId targetId r
             | None \<Rightarrow> remove_organization_member (se_clk env 1 0) (se_uuid env 1) orgId targetId) s)))"
proof (cases "membership orgId userId (fst s)")
  case None
  then show ?thesis using assms refused by (auto simp: change_member_def require_organization_def proceed_def)
next
  case (Some actor)
  have run: "change_member env userId orgId targetId role s = (case membership orgId targetId (fst s) of
      None \<Rightarrow> if role = None then (Inr (\<not> fst (flush env 0 s)), snd (flush env 0 s)) else (Inl forbidden, s)
    | Some target \<Rightarrow>
        if may_change actor target role
        then let s2 = flush env 3 (log_audit env 2 orgId userId (if role = None then ''member_removed'' else ''member_role_changed'') targetId
               (change (case role of Some r \<Rightarrow> change_organization_role orgId targetId r
                  | None \<Rightarrow> remove_organization_member (se_clk env 1 0) (se_uuid env 1) orgId targetId) s))
             in (Inr (\<not> fst s2), snd s2)
        else (Inl (if mb_role target = ''owner'' then Refused (Sharing_error 409 ''owner_protected''
          ''The organization owner cannot be removed or demoted here'') else forbidden), s))"
  proof (cases "membership orgId targetId (fst s)")
    case None
    then show ?thesis using Some by (simp add: change_member_def require_organization_def proceed_def split_beta)
  next
    case t: (Some target)
    note ids = membership_Some[OF Some] membership_Some[OF t]
    have role: "mb_role actor \<noteq> ''owner'' \<longleftrightarrow> \<not> may_change actor target (Some r)" if "mb_role target \<noteq> ''owner''" for r
      using that by (simp add: may_change_def)
    have removal: "(userId \<noteq> targetId \<and> (\<not> is_manager (Some (mb_role actor)) \<or> (mb_role target = ''admin'' \<and> mb_role actor \<noteq> ''owner'')))
        \<longleftrightarrow> \<not> may_change actor target None" if "mb_role target \<noteq> ''owner''"
      using that ids by (auto simp: may_change_def is_manager_def)
    show ?thesis
    proof (cases "mb_role target = ''owner''")
      case True
      then show ?thesis using Some t by (simp add: change_member_def require_organization_def proceed_def may_change_def)
    next
      case False
      note sides = Some t False role[OF False] removal[OF False]
      show ?thesis
      proof (cases role)
        case None
        then show ?thesis using sides unfolding change_member_def require_organization_def proceed_def
          by (cases "may_change actor target None") (simp_all add: split_beta Let_def)
      next
        case (Some r)
        then show ?thesis using sides unfolding change_member_def require_organization_def proceed_def
          by (cases "may_change actor target (Some r)") (simp_all add: split_beta Let_def)
      qed
    qed
  qed
  show ?thesis
  proof (cases "membership orgId targetId (fst s)")
    case None
    show ?thesis
    proof (cases "role = None")
      case True
      have "(res, s') = (Inr (\<not> fst (flush env 0 s)), snd (flush env 0 s))" using assms unfolding run None by (simp add: True)
      then have "\<not> isl res" "s' = snd (flush env 0 s)" by simp_all
      then show ?thesis by (rule gone[OF _ True None])
    next
      case False
      have "res = Inl forbidden" "s' = s" using assms unfolding run None by (simp_all add: False)
      then show ?thesis by (rule refused)
    qed
  next
    case t: (Some target)
    show ?thesis
    proof (cases "may_change actor target role")
      case True
      let ?s2 = "flush env 3 (log_audit env 2 orgId userId (if role = None then ''member_removed'' else ''member_role_changed'') targetId
        (change (case role of Some r \<Rightarrow> change_organization_role orgId targetId r
           | None \<Rightarrow> remove_organization_member (se_clk env 1 0) (se_uuid env 1) orgId targetId) s))"
      have "(res, s') = (Inr (\<not> fst ?s2), snd ?s2)" using assms unfolding run t by (simp add: True Let_def)
      then have "\<not> isl res" "s' = snd ?s2" by simp_all
      then show ?thesis by (rule changed[OF _ Some t True])
    next
      case False
      then show ?thesis using assms t unfolding run by (auto intro: refused)
    qed
  qed
qed

text \<open>
  C17. Membership changes are authorized. Whoever calls for a change of a member: an owner's membership is never
  touched; a role is changed only by an owner; a member is removed only by himself, by an owner, or, if he is
  no administrator, by an administrator; nobody else's row is touched, nobody becomes a member that way, and
  a refused call changes nothing at all.
\<close>

theorem member_changes_are_authorized:
  assumes env: "\<And>v s. di_members (fst (snd (se_invalidate env v s))) = di_members (fst s)"
    and keyed: "keyed member_key (di_members (fst s))"
    and run: "change_member env userId orgId targetId role s = (res, s')"
  shows "((\<exists>e. res = Inl e) \<longrightarrow> s' = s) \<and>
    (\<forall>m \<in> set (di_members (fst s)). m \<notin> set (di_members (fst s')) \<longrightarrow> member_key m = (orgId, targetId) \<and>
       (\<exists>actor. membership orgId userId (fst s) = Some actor \<and> may_change actor m role)) \<and>
    (\<forall>m \<in> set (di_members (fst s')). m \<notin> set (di_members (fst s)) \<longrightarrow>
       (\<exists>r m0. role = Some r \<and> m0 \<in> set (di_members (fst s)) \<and> m = m0\<lparr>mb_role := r\<rparr>))"
  using run
proof (cases rule: change_member_cases)
  case gone
  have "di_members (fst s') = di_members (fst s)" unfolding gone(4) by (rule flush_keeps[OF env]) simp_all
  moreover have "\<nexists>e. res = Inl e" using gone(1) by auto
  ultimately show ?thesis by simp
next
  case (changed actor target)
  let ?f = "case role of Some r \<Rightarrow> change_organization_role orgId targetId r
     | None \<Rightarrow> remove_organization_member (se_clk env 1 0) (se_uuid env 1) orgId targetId"
  have "di_members (fst s') = di_members (?f (fst s))"
    unfolding changed(5) flush_keeps[of di_members, OF env store_frames(1,2)] by (simp add: change_def)
  then have rows: "di_members (fst s') = (case role of
      Some r \<Rightarrow> update_rows (\<lambda>m. mb_org m = orgId \<and> mb_user m = targetId \<and> mb_role m \<noteq> ''owner'') (\<lambda>m. m\<lparr>mb_role := r\<rparr>) (di_members (fst s))
    | None \<Rightarrow> delete_rows (\<lambda>m. mb_org m = orgId \<and> mb_user m = targetId) (di_members (fst s)))"
    by (simp add: change_organization_role_def remove_organization_member_fields split: option.split)
  have target: "target = m" if "m \<in> set (di_members (fst s))" "mb_org m = orgId" "mb_user m = targetId" for m
    using keyed_unique[OF keyed, of target m] membership_Some[OF changed(3)] that by (simp add: member_key_def)
  have gone: "member_key m = (orgId, targetId) \<and> may_change actor m role" if m: "m \<in> set (di_members (fst s))" "m \<notin> set (di_members (fst s'))" for m
  proof -
    have "mb_org m = orgId \<and> mb_user m = targetId" using m by (auto simp: rows set_update_rows set_delete_rows split: option.splits)
    then show ?thesis using target[OF m(1)] changed(4) by (simp add: member_key_def)
  qed
  have new: "\<exists>r m0. role = Some r \<and> m0 \<in> set (di_members (fst s)) \<and> m = m0\<lparr>mb_role := r\<rparr>"
    if "m \<in> set (di_members (fst s'))" "m \<notin> set (di_members (fst s))" for m
    using that by (cases role) (auto simp: rows set_delete_rows elim!: update_rowsE)
  have "\<nexists>e. res = Inl e" using changed(1) by auto
  then show ?thesis using changed(2) gone new by blast
qed simp

section \<open>Invitations\<close>

lemma proceed_simps [simp]: "proceed (Inl e) f s = (Inl e, s)" "proceed (Inr x) f s = f x s"
  by (simp_all add: proceed_def)








section \<open>Handing over a key\<close>

definition sharing_enabled :: "'w sharing_env \<Rightarrow> ident \<Rightarrow> directory \<Rightarrow> bool" where
  "sharing_enabled env orgId d \<longleftrightarrow> (\<forall>k. fst (organization_sharing_policy (pp_id (plan_for env k orgId d))))"

lemma sharing_required_Inr: "sharing_enabled env orgId d \<Longrightarrow> \<exists>n. sharing_required env k orgId d = Inr n"
  by (simp add: sharing_enabled_def sharing_required_def require_sharing_def plan_for_def split_beta)

lemma policy_same:
  "di_orgs d' = di_orgs d \<Longrightarrow> di_subscriptions d' = di_subscriptions d \<Longrightarrow>
     read_organization_policy config clk orgId d' = read_organization_policy config clk orgId d"
  by (simp add: read_organization_policy_def read_policy_data_def)

lemma sharing_enabled_same:
  "di_orgs d' = di_orgs d \<Longrightarrow> di_subscriptions d' = di_subscriptions d \<Longrightarrow> sharing_enabled env orgId d' = sharing_enabled env orgId d"
  using policy_same[of d' d] by (simp add: sharing_enabled_def plan_for_def)

lemma require_vault_Inr:
  assumes "live_vault vaultId d = Some v" "membership (va_org v) userId d = Some m" "manage \<Longrightarrow> is_manager (Some (mb_role m))"
    "vault_enrollment_status (grant_of vaultId userId d) = ''active'' \<or> (pending \<and> vault_enrollment_status (grant_of vaultId userId d) = ''pending_key'')"
  shows "require_vault userId vaultId manage pending d = Inr (v, vault_grant_of userId vaultId d, m)"
  using assms by (auto simp: require_vault_def require_organization_def vault_grant_of_def Let_def)

lemma ensure_fields [simp]:
  "di_vaults (ensure_vault_enrollment t v u d) = di_vaults d" "di_members (ensure_vault_enrollment t v u d) = di_members d"
  "di_orgs (ensure_vault_enrollment t v u d) = di_orgs d" "di_subscriptions (ensure_vault_enrollment t v u d) = di_subscriptions d"
  "di_requests (ensure_vault_enrollment t v u d) = di_requests d" "di_wrappers (ensure_vault_enrollment t v u d) = di_wrappers d"
  by (simp_all add: ensure_vault_enrollment_def)

lemma ensure_grants:
  assumes v: "live_vault vaultId d = Some v" "is_member (va_org v) userId d"
  shows "\<exists>g. grant_of vaultId userId (ensure_vault_enrollment t vaultId userId d) = Some g \<and>
      vm_status g = vault_enrollment_status (grant_of vaultId userId d)"
    "u \<noteq> userId \<Longrightarrow> grant_of vaultId u (ensure_vault_enrollment t vaultId userId d) = grant_of vaultId u d"
proof -
  let ?row = "\<lparr>vm_vault = vaultId, vm_user = userId, vm_version = 1, vm_creator = False, vm_status = ''pending_key'', vm_joinedAt = t, vm_revokedAt = None\<rparr>"
  let ?f = "\<lambda>m. if vm_status m = ''revoked'' then m\<lparr>vm_status := ''pending_key'', vm_revokedAt := None, vm_version := vm_version m + 1\<rparr> else m"
  have "\<exists>x \<in> set (di_vaults d). va_id x = vaultId \<and> va_deletedAt x = None \<and> is_member (va_org x) userId d"
    using live_vaultD[OF v(1)] v(2) by blast
  then have "ensure_vault_enrollment t vaultId userId d = d\<lparr>di_memberships := upsert_row membership_key ?row ?f (di_memberships d)\<rparr>"
    unfolding ensure_vault_enrollment_def by (rule if_P)
  then have e: "grant_of vaultId u (ensure_vault_enrollment t vaultId userId d) =
    (if u = userId then Some (case grant_of vaultId userId d of
        None \<Rightarrow> \<lparr>vm_vault = vaultId, vm_user = userId, vm_version = 1, vm_creator = False, vm_status = ''pending_key'', vm_joinedAt = t, vm_revokedAt = None\<rparr>
      | Some m \<Rightarrow> if vm_status m = ''revoked''
          then m\<lparr>vm_status := ''pending_key'', vm_revokedAt := None, vm_version := vm_version m + 1\<rparr> else m)
     else grant_of vaultId u d)" for u
    using row_of_upsert_row[of membership_key ?row ?f "(vaultId, u)" "di_memberships d"] by (simp add: grant_of_def membership_key_def)
  show "\<exists>g. grant_of vaultId userId (ensure_vault_enrollment t vaultId userId d) = Some g \<and>
      vm_status g = vault_enrollment_status (grant_of vaultId userId d)"
    by (auto simp: e vault_enrollment_status_def split: option.split)
  show "u \<noteq> userId \<Longrightarrow> grant_of vaultId u (ensure_vault_enrollment t vaultId userId d) = grant_of vaultId u d"
    by (simp add: e)
qed

lemma live_vault_same: "di_vaults d' = di_vaults d \<Longrightarrow> live_vault v d' = live_vault v d"
  by (simp add: live_vault_def)

lemma membership_same: "di_members d' = di_members d \<Longrightarrow> membership g u d' = membership g u d"
  by (simp add: membership_def)

lemma grant_same: "di_memberships d' = di_memberships d \<Longrightarrow> grant_of v u d' = grant_of v u d"
  by (simp add: grant_of_def)

lemma membership_is_member: "membership g u d = Some m \<Longrightarrow> is_member g u d"
  by (auto simp: is_member_def dest: membership_Some)

lemma start_key_request_ok:
  assumes ok: "directory_ok d" and plan: "sharing_enabled env (va_org v) d" and v: "live_vault vaultId d = Some v"
    and m: "membership (va_org v) userId d = Some m" and status: "vault_enrollment_status (grant_of vaultId userId d) \<in> {''active'', ''pending_key''}"
    and fresh: "key_request i d = None"
  shows "\<exists>r g s1. start_key_request env userId vaultId i publicKey (d, w) = (Inr r, s1) \<and> directory_ok (fst s1) \<and>
    key_request i (fst s1) = Some r \<and> kr_id r = i \<and> kr_vault r = vaultId \<and> kr_user r = userId \<and> kr_status r = ''pending'' \<and>
    kr_publicKey r = publicKey \<and> kr_expiresAt r = se_clk env 2 1 + 48 * 60 * 60 * 1000 \<and>
    grant_of vaultId userId (fst s1) = Some g \<and> vm_status g \<in> {''active'', ''pending_key''} \<and> kr_version r = vm_version g \<and>
    (\<forall>u. u \<noteq> userId \<longrightarrow> grant_of vaultId u (fst s1) = grant_of vaultId u d) \<and> di_vaults (fst s1) = di_vaults d \<and>
    di_members (fst s1) = di_members d \<and> di_orgs (fst s1) = di_orgs d \<and> di_subscriptions (fst s1) = di_subscriptions d"
proof -
  let ?d1 = "ensure_vault_enrollment (se_clk env 1 0) vaultId userId d"
  have first: "require_vault userId vaultId False True d = Inr (v, vault_grant_of userId vaultId d, m)"
    using v m status by (intro require_vault_Inr) auto
  obtain g where g: "grant_of vaultId userId ?d1 = Some g" "vm_status g = vault_enrollment_status (grant_of vaultId userId d)"
    using ensure_grants(1)[OF v membership_is_member[OF m]] by blast
  have "vault_enrollment_status (Some g) = vm_status g" using g(2) status by (auto simp: vault_enrollment_status_def)
  then have second: "require_vault userId vaultId False True ?d1 = Inr (v, vault_grant_of userId vaultId ?d1, m)"
    using v m status g by (intro require_vault_Inr) (auto simp: live_vault_same[of ?d1 d] membership_same[of ?d1 d])
  obtain n where n: "sharing_required env 0 (va_org v) d = Inr n" using sharing_required_Inr[OF plan] by blast
  define r where "r = \<lparr>kr_id = i, kr_vault = vaultId, kr_user = userId,
    kr_purpose = (if vg_status (vault_grant_of userId vaultId ?d1) = ''pending_key'' then ''enrollment'' else ''recovery''),
    kr_version = vm_version g, kr_publicKey = publicKey, kr_status = ''pending'', kr_envelope = None, kr_approvedBy = None,
    kr_createdAt = se_clk env 2 0, kr_expiresAt = se_clk env 2 1 + 48 * 60 * 60 * 1000\<rparr>"
  have none: "\<forall>x \<in> set (di_requests d). kr_id x \<noteq> i" using fresh by (simp add: key_request_def row_of_None)
  have "vaultId \<in> va_id ` set (di_vaults d)" using live_vaultD[OF v] by auto
  then obtain d2 where d2: "create_key_request r ?d1 = Some d2" using none by (auto simp: create_key_request_def r_def)
  then have fields: "di_requests d2 = update_rows (\<lambda>x. kr_vault x = vaultId \<and> kr_user x = userId \<and> open_request x) cancel_request (di_requests d) @ [r]"
    "di_memberships d2 = di_memberships ?d1" "di_vaults d2 = di_vaults d" "di_members d2 = di_members d" "di_orgs d2 = di_orgs d"
    "di_subscriptions d2 = di_subscriptions d"
    by (auto simp: create_key_request_def r_def split: if_splits)
  have ok2: "directory_ok d2"
    by (rule create_key_request_ok[OF ensure_vault_enrollment_ok[OF ok] _ _ d2]) (simp_all add: r_def)
  have old: "row_of kr_id i (update_rows P cancel_request (di_requests d)) = None" for P
    using none by (auto simp: row_of_None set_update_rows cancel_request_def)
  have found: "row_of kr_id i (di_requests d2) = Some r"
    unfolding fields row_of_append old by (simp add: row_of_Cons r_def)
  define s1 where "s1 = log_audit env 3 (va_org v) userId ''key_requested'' i (d2, w)"
  have run: "start_key_request env userId vaultId i publicKey (d, w) = (Inr r, s1)"
    using d2 fresh by (simp add: start_key_request_def first second n change_def Let_def key_request_def s1_def r_def vault_grant_of_def g(1))
  have ok1: "directory_ok (fst s1)" using directory_ok_other(2)[OF ok2] by (simp add: s1_def log_audit_def change_def audit_def)
  have others: "\<forall>u. u \<noteq> userId \<longrightarrow> grant_of vaultId u (fst s1) = grant_of vaultId u d"
    using ensure_grants(2)[OF v membership_is_member[OF m]] by (simp add: s1_def grant_of_def fields)
  have mine: "grant_of vaultId userId (fst s1) = Some g" using g(1) by (simp add: s1_def grant_of_def fields)
  have r: "kr_id r = i" "kr_vault r = vaultId" "kr_user r = userId" "kr_status r = ''pending''" "kr_publicKey r = publicKey"
    "kr_expiresAt r = se_clk env 2 1 + 48 * 60 * 60 * 1000" "kr_version r = vm_version g" by (simp_all add: r_def)
  have key: "key_request i (fst s1) = Some r" using found by (simp add: key_request_def s1_def)
  show ?thesis
    by (intro exI[of _ r] exI[of _ g] exI[of _ s1] conjI run ok1 key r others mine) (use g(2) status in \<open>simp_all add: s1_def fields\<close>)
qed

lemma approve_key_request_ok_by:
  assumes ok: "directory_ok d" and plan: "sharing_enabled env (va_org v) d" and v: "live_vault vaultId d = Some v"
    and approver: "membership (va_org v) approverId d = Some a" "is_manager (Some (mb_role a))" "grant_of vaultId approverId d = Some ga" "vm_status ga = ''active''"
    and m: "membership (va_org v) userId d = Some m" and g: "grant_of vaultId userId d = Some g" "vm_status g \<in> {''active'', ''pending_key''}"
    and r: "key_request i d = Some r" "kr_vault r = vaultId" "kr_user r = userId" "kr_status r = ''pending''" "kr_version r = vm_version g"
    and other: "userId \<noteq> approverId" and time: "se_clk env 1 0 < kr_expiresAt r"
  shows "\<exists>s1. approve_key_request_by env approverId vaultId i envelope (d, w) = (Inr (), s1) \<and> directory_ok (fst s1) \<and>
    key_request i (fst s1) = Some (r\<lparr>kr_status := ''approved'', kr_approvedBy := Some approverId, kr_envelope := Some envelope\<rparr>) \<and>
    di_memberships (fst s1) = di_memberships d \<and> di_vaults (fst s1) = di_vaults d \<and>
    di_members (fst s1) = di_members d \<and> di_orgs (fst s1) = di_orgs d \<and> di_subscriptions (fst s1) = di_subscriptions d"
proof -
  have first: "require_vault approverId vaultId True False d = Inr (v, vault_grant_of approverId vaultId d, a)"
    using v approver by (intro require_vault_Inr) (auto simp: vault_enrollment_status_def)
  have second: "require_vault userId vaultId False True d = Inr (v, vault_grant_of userId vaultId d, m)"
    using v m g by (intro require_vault_Inr) (auto simp: vault_enrollment_status_def)
  obtain n where n: "sharing_required env 0 (va_org v) d = Inr n" using sharing_required_Inr[OF plan] by blast
  note row = row_of_SomeD[OF r(1)[unfolded key_request_def]]
  have "can_approve vaultId approverId d"
    using live_vaultD[OF v] grant_ofD[OF approver(3)] approver(2,4) membership_Some[OF approver(1)]
    unfolding can_approve_def is_manager_def by (intro bexI[of _ ga] bexI[of _ v] bexI[of _ a]) auto
  moreover have "\<exists>x \<in> set (di_memberships d). current_enrollment r x"
    using grant_ofD[OF g(1)] g(2) r by (intro bexI[of _ g]) (auto simp: current_enrollment_def)
  ultimately have can: "kr_status r = ''pending'' \<and> kr_expiresAt r > se_clk env 1 0 \<and> can_approve (kr_vault r) approverId d \<and>
      (\<exists>x \<in> set (di_memberships d). current_enrollment r x)" using r time by simp
  let ?P = "\<lambda>r. kr_id r = i \<and> kr_status r = ''pending'' \<and> kr_expiresAt r > se_clk env 1 0 \<and> can_approve (kr_vault r) approverId d \<and>
            (\<exists>m \<in> set (di_memberships d). current_enrollment r m)"
  let ?f = "\<lambda>r. r\<lparr>kr_status := ''approved'', kr_approvedBy := Some approverId, kr_envelope := Some envelope\<rparr>"
  have run: "approve_key_request (se_clk env 1 0) i approverId envelope d = (True, d\<lparr>di_requests := update_rows ?P ?f (di_requests d)\<rparr>)"
    using can row by (auto simp: approve_key_request_def Let_def)
  define s1 where "s1 = log_audit env 2 (va_org v) approverId ''key_approved'' i (d\<lparr>di_requests := update_rows ?P ?f (di_requests d)\<rparr>, w)"
  have "approve_key_request_by env approverId vaultId i envelope (d, w) = (Inr (), s1)"
    by (simp add: approve_key_request_by_def first second n r(1-3) other run s1_def)
  moreover have "directory_ok (fst s1)"
  proof -
    have "directory_ok (d\<lparr>di_requests := update_rows ?P ?f (di_requests d)\<rparr>)"
      using approve_key_request_ok[OF ok, of "se_clk env 1 0" i approverId envelope] by (simp only: run snd_conv)
    from directory_ok_other(2)[OF this] show ?thesis by (simp add: s1_def log_audit_def change_def audit_def)
  qed
  moreover have "key_request i (fst s1) = Some (?f r)"
    using row_of_update_rows[of ?P kr_id ?f i "di_requests d"] r(1) row can by (simp add: key_request_def s1_def)
  ultimately show ?thesis by (intro exI[of _ s1]) (simp add: s1_def)
qed

lemma find_update_all:
  assumes "\<And>x. x \<in> set xs \<Longrightarrow> Q x \<Longrightarrow> h x = e" "\<exists>x \<in> set xs. Q x"
  shows "map_option h (find Q xs) = Some e"
  using assms by (induction xs) auto

lemma complete_key_request_stores:
  assumes "complete_key_request clk uuid request envelope d = (True, d')"
  shows "password_wrapper (kr_vault request) (kr_user request) d' = Some envelope"
proof -
  let ?row = "\<lparr>kw_id = uuid, kw_vault = kr_vault request, kw_keyVersion = ke_keyVersion envelope, kw_kind = ''password'',
     kw_user = Some (kr_user request), kw_envelope = envelope, kw_createdAt = clk 1, kw_revokedAt = None\<rparr>"
  let ?f = "\<lambda>w. w\<lparr>kw_envelope := envelope, kw_revokedAt := None\<rparr>"
  let ?Q = "\<lambda>w. kw_vault w = kr_vault request \<and> kw_user w = Some (kr_user request) \<and> kw_kind w = ''password'' \<and> kw_revokedAt w = None"
  have ws: "di_wrappers d' = upsert_row wrapper_key ?row ?f (di_wrappers d)"
    using assms by (auto simp: complete_key_request_def Let_def split: if_split_asm)
  have "kw_envelope w = envelope" if "w \<in> set (di_wrappers d')" "?Q w" for w
    using that(1) unfolding ws
  proof (cases rule: upsert_rowE)
    case kept
    then show ?thesis using that(2) by (simp add: wrapper_key_def)
  qed simp_all
  moreover have "\<exists>w \<in> set (di_wrappers d'). ?Q w"
  proof (cases "\<exists>w \<in> set (di_wrappers d). wrapper_key w = wrapper_key ?row")
    case True
    then obtain w where w: "w \<in> set (di_wrappers d)" "wrapper_key w = wrapper_key ?row" by blast
    then have "?f w \<in> set (di_wrappers d')" unfolding ws upsert_row_def if_P[OF True] set_update_rows by (intro image_eqI[of _ _ w]) simp_all
    then show ?thesis using w(2) by (intro bexI[of _ "?f w"]) (simp_all add: wrapper_key_def)
  next
    case False
    then show ?thesis unfolding ws upsert_row_def if_not_P[OF False] by simp
  qed
  ultimately show ?thesis unfolding password_wrapper_def by (rule find_update_all)
qed

lemma complete_key_request_grant:
  assumes run: "complete_key_request clk uuid request envelope d = (True, d')" and g: "grant_of (kr_vault request) (kr_user request) d = Some g"
    "kr_version request = vm_version g"
  shows "grant_of (kr_vault request) (kr_user request) d' = Some (g\<lparr>vm_status := ''active'', vm_revokedAt := None\<rparr>)"
proof -
  have "di_memberships d' = update_rows
      (\<lambda>m. vm_vault m = kr_vault request \<and> vm_user m = kr_user request \<and> vm_version m = kr_version request)
      (\<lambda>m. m\<lparr>vm_status := ''active'', vm_revokedAt := None\<rparr>) (di_memberships d)"
    using run by (auto simp: complete_key_request_def Let_def split: if_split_asm)
  then show ?thesis using g grant_ofD[OF g(1)] by (simp add: grant_of_def row_of_update_rows membership_key_def)
qed

lemma complete_key_request_frame:
  assumes "complete_key_request clk uuid request envelope d = (True, d')"
  shows "di_vaults d' = di_vaults d" "di_members d' = di_members d" "di_orgs d' = di_orgs d" "di_subscriptions d' = di_subscriptions d"
    "di_requests d' = update_rows (\<lambda>r. kr_id r = kr_id request) (\<lambda>r. r\<lparr>kr_status := ''completed'', kr_envelope := None\<rparr>) (di_requests d)"
  using assms by (auto simp: complete_key_request_def Let_def split: if_split_asm)

lemma complete_key_request_ok_by:
  assumes env: "\<And>x s. fst (snd (se_invalidate env x s)) = fst s" and plan: "sharing_enabled env (va_org v) d" and v: "live_vault vaultId d = Some v"
    and m: "membership (va_org v) userId d = Some m" and g: "grant_of vaultId userId d = Some g" "vm_status g \<in> {''active'', ''pending_key''}"
    and r: "key_request i d = Some r" "kr_vault r = vaultId" "kr_user r = userId" "kr_status r = ''approved''" "kr_version r = vm_version g"
    and time: "se_clk env 1 0 < kr_expiresAt r"
    and e: "ke_version envelope = 2" "ke_binding envelope = Some (vaultId, userId)" "ke_keyVersion envelope = va_keyVersion v"
  shows "\<exists>s1. complete_key_request_by env userId vaultId i envelope (d, w) = (Inr (), s1) \<and>
    password_wrapper vaultId userId (fst s1) = Some envelope \<and> grant_of vaultId userId (fst s1) = Some (g\<lparr>vm_status := ''active'', vm_revokedAt := None\<rparr>) \<and>
    di_vaults (fst s1) = di_vaults d \<and> di_members (fst s1) = di_members d \<and> di_orgs (fst s1) = di_orgs d \<and> di_subscriptions (fst s1) = di_subscriptions d"
proof -
  have first: "require_vault userId vaultId False True d = Inr (v, vault_grant_of userId vaultId d, m)"
    using v m g by (intro require_vault_Inr) (auto simp: vault_enrollment_status_def)
  obtain n where n: "sharing_required env 0 (va_org v) d = Inr n" using sharing_required_Inr[OF plan] by blast
  note row = row_of_SomeD[OF r(1)[unfolded key_request_def]]
  have "completable (se_clk env 1 0) r d" unfolding completable_def
  proof (intro conjI)
    show "\<exists>x \<in> set (di_requests d). kr_id x = kr_id r \<and> kr_status x = ''approved'' \<and> kr_expiresAt x > se_clk env 1 0"
      using row r(4) time by blast
    show "\<exists>m \<in> set (di_memberships d). \<exists>o' \<in> set (di_members d). \<exists>v \<in> set (di_vaults d). mb_user o' = vm_user m \<and>
        va_id v = vm_vault m \<and> va_org v = mb_org o' \<and> current_enrollment r m"
      using grant_ofD[OF g(1)] membership_Some[OF m] live_vaultD[OF v] g(2) r
      by (intro bexI[of _ g] bexI[of _ m] bexI[of _ v]) (auto simp: current_enrollment_def)
  qed
  then obtain d1 where run: "complete_key_request (se_clk env 1) (se_uuid env 1 0) r envelope d = (True, d1)"
    by (auto simp: complete_key_request_def Let_def)
  note f = complete_key_request_frame[OF run]
  have "vaultId \<in> va_id ` set (di_vaults d1)" using live_vaultD[OF v] by (auto simp: f)
  then obtain d2 where d2: "queue_refresh (se_clk env 2) (se_uuid env 2) vaultId d1 = Some d2" by (simp add: queue_refresh_def)
  then have q: "di_vaults d2 = di_vaults d1" "di_members d2 = di_members d1" "di_orgs d2 = di_orgs d1" "di_subscriptions d2 = di_subscriptions d1"
    "di_wrappers d2 = di_wrappers d1" "di_memberships d2 = di_memberships d1"
    by (auto simp: queue_refresh_def queue_refreshes_def split: if_splits)
  define s2 where "s2 = snd (flush env 3 (d2, w))"
  have keep: "F (fst s2) = F d2" if "\<And>v r d. F (finish_refresh v r d) = F d" "\<And>now d. F (prune_expired_requests now d) = F d" for F :: "directory \<Rightarrow> 'x"
    using flush_keeps[of F env 3 "(d2, w)"] env that by (simp add: s2_def)
  define s1 where "s1 = log_audit env 4 (va_org v) userId ''key_received'' i s2"
  have "complete_key_request_by env userId vaultId i envelope (d, w) = (Inr (), s1)"
    by (simp add: complete_key_request_by_def first n r e run refresh_vault_def d2 s1_def s2_def)
  moreover have "password_wrapper vaultId userId (fst s1) = Some envelope"
    using complete_key_request_stores[OF run] r keep[of di_wrappers] by (simp add: s1_def password_wrapper_def q)
  moreover have "grant_of vaultId userId (fst s1) = Some (g\<lparr>vm_status := ''active'', vm_revokedAt := None\<rparr>)"
    using complete_key_request_grant[OF run, of g] g r keep[of di_memberships] by (simp add: s1_def grant_of_def q)
  ultimately show ?thesis
    using keep[of di_vaults] keep[of di_members] keep[of di_orgs] keep[of di_subscriptions] by (intro exI[of _ s1]) (simp add: s1_def q f)
qed

lemma sharing_enabled_config:
  "se_config env' = se_config env \<Longrightarrow> (\<And>clk. fst (organization_sharing_policy (pp_id (read_organization_policy (sg_policy (se_config env)) clk orgId d)))) \<Longrightarrow>
     sharing_enabled env' orgId d"
  by (simp add: sharing_enabled_def plan_for_def)

lemma not_suspended:
  assumes "live_vault vaultId d = Some v" "\<And>clk. fst (organization_sharing_policy (pp_id (read_organization_policy config clk (va_org v) d)))"
  shows "\<not> is_suspended config clk vaultId d"
  using assms by (simp add: is_suspended_def)

lemma membership_exists: "is_member g u d \<Longrightarrow> \<exists>m. membership g u d = Some m"
  by (cases "membership g u d") (auto simp: is_member_def membership_def find_None_iff)

text \<open>
  C9. A key request hands over the key. A member of an organization whose plan allows sharing asks for the key of
  one of its vaults; another member who manages the organization and has the key approves; the first one completes
  the request with the key under his own password; both in time. Then each of the three calls succeeds, the vault's
  key under exactly that password is what is stored for him, his enrollment is active whatever it was before
  (none, pending, revoked or active), and he is issued sync tokens of its current version.
\<close>

theorem key_request_hands_over:
  assumes ok: "directory_ok d" and env: "\<And>x s. fst (snd (se_invalidate e3 x s)) = fst s"
    and config: "se_config e2 = se_config e1" "se_config e3 = se_config e1"
    and plan: "\<And>clk. fst (organization_sharing_policy (pp_id (read_organization_policy (sg_policy (se_config e1)) clk (va_org v) d)))"
    and v: "live_vault vaultId d = Some v"
    and asker: "is_member (va_org v) userId d" "vault_enrollment_status (grant_of vaultId userId d) \<in> {''active'', ''pending_key''}"
    and approver: "membership (va_org v) approverId d = Some a" "is_manager (Some (mb_role a))" "grant_of vaultId approverId d = Some ga"
      "vm_status ga = ''active''" "userId \<noteq> approverId"
    and fresh: "key_request i d = None"
    and time: "se_clk e2 1 0 < se_clk e1 2 1 + 48 * 60 * 60 * 1000" "se_clk e3 1 0 < se_clk e1 2 1 + 48 * 60 * 60 * 1000"
    and envelope: "ke_version envelope = 2" "ke_binding envelope = Some (vaultId, userId)" "ke_keyVersion envelope = va_keyVersion v"
    and run: "start_key_request e1 userId vaultId i publicKey (d, w) = (r1, s1)"
      "approve_key_request_by e2 approverId vaultId i transfer s1 = (r2, s2)"
      "complete_key_request_by e3 userId vaultId i envelope s2 = (r3, s3)"
  shows "(\<exists>r. r1 = Inr r \<and> kr_publicKey r = publicKey) \<and> r2 = Inr () \<and> r3 = Inr () \<and> password_wrapper vaultId userId (fst s3) = Some envelope \<and>
    (\<exists>g. grant_of vaultId userId (fst s3) = Some g \<and> vm_status g = ''active'' \<and>
       require_sync_access (sg_policy (se_config e1)) clk userId vaultId (fst s3) = Inr (vm_version g))"
proof -
  obtain m where m: "membership (va_org v) userId d = Some m" using membership_exists[OF asker(1)] by blast
  note enabled = sharing_enabled_config[OF _ plan]
  obtain r g where r: "r1 = Inr r" "key_request i (fst s1) = Some r" "kr_vault r = vaultId" "kr_user r = userId" "kr_status r = ''pending''"
      "kr_publicKey r = publicKey" "kr_expiresAt r = se_clk e1 2 1 + 48 * 60 * 60 * 1000" "kr_version r = vm_version g"
    and ok1: "directory_ok (fst s1)" and g: "grant_of vaultId userId (fst s1) = Some g" "vm_status g \<in> {''active'', ''pending_key''}"
    and others: "\<And>u. u \<noteq> userId \<Longrightarrow> grant_of vaultId u (fst s1) = grant_of vaultId u d"
    and same1: "di_vaults (fst s1) = di_vaults d" "di_members (fst s1) = di_members d" "di_orgs (fst s1) = di_orgs d" "di_subscriptions (fst s1) = di_subscriptions d"
    using start_key_request_ok[OF ok enabled[OF refl] v m asker(2) fresh, of publicKey w] run(1) by auto
  have s1: "(fst s1, snd s1) = s1" by simp
  have v1: "live_vault vaultId (fst s1) = Some v" "membership (va_org v) approverId (fst s1) = Some a" "membership (va_org v) userId (fst s1) = Some m"
    "grant_of vaultId approverId (fst s1) = Some ga" "sharing_enabled e2 (va_org v) (fst s1)" "sharing_enabled e3 (va_org v) (fst s1)"
    using v approver m others[of approverId] enabled[OF config(1)] enabled[OF config(2)]
    by (simp_all add: sharing_enabled_same[OF same1(3,4)] live_vault_same[OF same1(1)] membership_same[OF same1(2)])
  obtain s2' where two: "r2 = Inr ()" "s2 = s2'"
      "key_request i (fst s2) = Some (r\<lparr>kr_status := ''approved'', kr_approvedBy := Some approverId, kr_envelope := Some transfer\<rparr>)"
    and same2: "di_memberships (fst s2) = di_memberships (fst s1)" "di_vaults (fst s2) = di_vaults (fst s1)" "di_members (fst s2) = di_members (fst s1)"
      "di_orgs (fst s2) = di_orgs (fst s1)" "di_subscriptions (fst s2) = di_subscriptions (fst s1)"
    using approve_key_request_ok_by[OF ok1 v1(5) v1(1,2) approver(2) v1(4) approver(4) v1(3) g r(2-5) r(8) approver(5), of transfer "snd s1"] run(2) r(7) time(1)
    by (auto simp: s1)
  have v2: "live_vault vaultId (fst s2) = Some v" "membership (va_org v) userId (fst s2) = Some m" "grant_of vaultId userId (fst s2) = Some g"
    "sharing_enabled e3 (va_org v) (fst s2)"
    using v1 g(1) by (simp_all add: sharing_enabled_same[OF same2(4,5)] live_vault_same[OF same2(2)] membership_same[OF same2(3)] grant_same[OF same2(1)])
  have three: "r3 = Inr ()" "password_wrapper vaultId userId (fst s3) = Some envelope"
    "grant_of vaultId userId (fst s3) = Some (g\<lparr>vm_status := ''active'', vm_revokedAt := None\<rparr>)"
    and same3: "di_vaults (fst s3) = di_vaults (fst s2)" "di_members (fst s3) = di_members (fst s2)" "di_orgs (fst s3) = di_orgs (fst s2)"
      "di_subscriptions (fst s3) = di_subscriptions (fst s2)"
    using complete_key_request_ok_by[OF env v2(4) v2(1,2,3) g(2) two(3) _ _ _ _ _ envelope, of "snd s2"] run(3) r time(2) by auto
  have plan3: "fst (organization_sharing_policy (pp_id (read_organization_policy (sg_policy (se_config e1)) clk (va_org v) (fst s3))))" for clk
    using plan policy_same[of "fst s3" d] by (simp add: same3 same2 same1)
  have v3: "live_vault vaultId (fst s3) = Some v" "membership (va_org v) userId (fst s3) = Some m"
    using v2 by (simp_all add: live_vault_same[OF same3(1)] membership_same[OF same3(2)])
  have "require_sync_access (sg_policy (se_config e1)) clk userId vaultId (fst s3) = Inr (vm_version g)"
    using v3 three(3) not_suspended[OF v3(1) plan3] by (simp add: require_sync_access_def)
  then show ?thesis using r(1,6) two(1) three by simp
qed

section \<open>Instances\<close>

definition example_setup :: sharing_config where
  "example_setup = \<lparr>sg_policy = \<lparr>sc_selfHosted = True, sc_products = []\<rparr>, sg_origin = ''https://synch'', sg_billingOrigin = None,
     sg_requireVerified = True, sg_email = False, sg_emailFrom = None, sg_allowed = None\<rparr>"

definition example_service :: "millis \<Rightarrow> nat sharing_env" where
  \<comment> \<open>every coordinator can be reached; calls are counted\<close>
  "example_service t = \<lparr>se_config = example_setup, se_clk = (\<lambda>_ _. t), se_uuid = (\<lambda>k j. replicate k CHR ''u'' @ replicate j CHR ''v''),
     se_invalidate = (\<lambda>v s. (True, fst s, Suc (snd s))), se_send = (\<lambda>m w. (False, w))\<rparr>"

lemma self_hosted_shares: "fst (organization_sharing_policy (pp_id (read_organization_policy (sg_policy example_setup) clk orgId d)))"
  by (simp add: example_setup_def read_organization_policy_def organization_sharing_policy_def)

lemma example_invalidate: "fst (snd (se_invalidate (example_service t) v s)) = fst s"
  by (simp add: example_service_def)


theorem member_changes_are_authorized_witness:
  "snd (change_member (example_service 9) ''bob'' ''org'' ''alice'' None (example_shared, 0)) = (example_shared, 0) \<and>
   \<not> is_member ''org'' ''bob'' (fst (snd (change_member (example_service 9) ''alice'' ''org'' ''bob'' None (example_shared, 0))))"
proof -
  have keyed: "keyed member_key (di_members (fst (example_shared, 0 :: nat)))" by code_simp
  obtain res s' where run: "change_member (example_service 9) ''bob'' ''org'' ''alice'' None (example_shared, 0) = (res, s')" by (meson surj_pair)
  have "isl (fst (change_member (example_service 9) ''bob'' ''org'' ''alice'' None (example_shared, 0)))" by code_simp
  then have "\<exists>e. res = Inl e" using run by (cases res) auto
  then have "s' = (example_shared, 0)"
    using member_changes_are_authorized[OF _ keyed run] by (simp add: example_invalidate)
  moreover have "\<not> is_member ''org'' ''bob'' (fst (snd (change_member (example_service 9) ''alice'' ''org'' ''bob'' None (example_shared, 0))))"
    by code_simp
  ultimately show ?thesis using run by simp
qed


theorem key_request_hands_over_witness:
  "let e = example_envelope\<lparr>ke_version := 2, ke_binding := Some (''v'', ''bob'')\<rparr>;
       s0 = (fold dir_step (take 5 example_sharing) empty_directory, 0);
       s1 = snd (start_key_request (example_service 4) ''bob'' ''v'' ''k2'' ''pem'' s0);
       s2 = snd (approve_key_request_by (example_service 5) ''alice'' ''v'' ''k2'' \<lparr>te_version = 1, te_algorithm = ''rsa'', te_ciphertext = ''t''\<rparr> s1);
       s3 = snd (complete_key_request_by (example_service 6) ''bob'' ''v'' ''k2'' e s2)
   in password_wrapper ''v'' ''bob'' (fst s3) = Some e"
proof -
  let ?d = "fold dir_step (take 5 example_sharing) empty_directory"
  let ?e = "example_envelope\<lparr>ke_version := 2, ke_binding := Some (''v'', ''bob'')\<rparr>"
  let ?t = "\<lparr>te_version = 1, te_algorithm = ''rsa'', te_ciphertext = ''t''\<rparr>"
  have "admissible genuine dir_step (take 5 example_sharing) empty_directory" by code_simp
  then have ok: "directory_ok ?d" by (rule directory.run_inv[OF _ empty_directory_ok])
  have "map_option (\<lambda>v. (va_org v, va_keyVersion v)) (live_vault ''v'' ?d) = Some (''org'', 1)" by code_simp
  then obtain v where v: "live_vault ''v'' ?d = Some v" "va_org v = ''org''" "va_keyVersion v = 1" by auto
  have asker: "is_member ''org'' ''bob'' ?d" "vault_enrollment_status (grant_of ''v'' ''bob'' ?d) \<in> {''active'', ''pending_key''}" by code_simp+
  have "map_option mb_role (membership ''org'' ''alice'' ?d) = Some ''owner''" by code_simp
  then obtain a where a: "membership ''org'' ''alice'' ?d = Some a" "is_manager (Some (mb_role a))" by (auto simp: is_manager_def)
  have "map_option vm_status (grant_of ''v'' ''alice'' ?d) = Some ''active''" by code_simp
  then obtain g where g: "grant_of ''v'' ''alice'' ?d = Some g" "vm_status g = ''active''" by auto
  have fresh: "key_request ''k2'' ?d = None" by code_simp
  have configs: "se_config (example_service t) = example_setup" for t by (simp add: example_service_def)
  have e: "ke_version ?e = 2" "ke_binding ?e = Some (''v'', ''bob'')" "ke_keyVersion ?e = va_keyVersion v"
    by (simp_all add: v(3) example_envelope_def)
  obtain r1 s1 where one: "start_key_request (example_service 4) ''bob'' ''v'' ''k2'' ''pem'' (?d, 0) = (r1, s1)" by (meson surj_pair)
  obtain r2 s2 where two: "approve_key_request_by (example_service 5) ''alice'' ''v'' ''k2'' ?t s1 = (r2, s2)" by (meson surj_pair)
  obtain r3 s3 where three: "complete_key_request_by (example_service 6) ''bob'' ''v'' ''k2'' ?e s2 = (r3, s3)" by (meson surj_pair)
  have "password_wrapper ''v'' ''bob'' (fst s3) = Some ?e"
    using key_request_hands_over[OF ok example_invalidate _ _ _ v(1) _ asker(2) _ a(2) g _ fresh _ _ e one two three] asker(1) a(1)
      self_hosted_shares configs by (simp add: v(2) example_service_def)
  then show ?thesis unfolding Let_def one two three snd_conv .
qed

end
