(* ===== verification/Vault_Api.thy ===== *)
theory Vault_Api
  imports Directory_Steps Subscription_Policy
begin

text \<open>
  \<open>vault/application/services\<close>: the catalogue of vaults as its users see it (\<open>vault-service.ts\<close>,
  \<open>vault-organization-service.ts\<close>), the purge of a deleted vault and the retention job
  (\<open>vault-lifecycle-service.ts\<close>), with the queues in between (\<open>purge-consumer.ts\<close>,
  \<open>purge-queue.ts\<close>, \<open>inline-purge-queue.ts\<close>, \<open>coordinator-purge-writer.ts\<close>). The queue and the
  coordinator's answer are parameters; an exception is its message.
\<close>

section \<open>Environment\<close>

record vault_notice =
  vn_name :: string
  vn_ownerEmail :: string
  vn_lastCommitAt :: "millis option"

datatype purge_message =
    Vault_purge ident
  | Inactive_vault_purge ident vault_notice

type_synonym 'w purge_queue = "purge_message \<Rightarrow> directory \<times> 'w \<Rightarrow> (string + unit) \<times> directory \<times> 'w"

datatype vault_failure =
    Refused_vault vault_error
  | Thrown string

record 'w vault_env =
  ve_policy :: subscription_config
  ve_clk :: "nat \<Rightarrow> nat \<Rightarrow> millis"
  ve_uuid :: "nat \<Rightarrow> ident"
  ve_canCreate :: "(ident \<Rightarrow> ident \<Rightarrow> directory \<Rightarrow> bool) option"
  ve_queue :: "'w purge_queue"

definition plan_at :: "'w vault_env \<Rightarrow> nat \<Rightarrow> ident \<Rightarrow> directory \<Rightarrow> plan_policy" where
  "plan_at env k orgId d = read_organization_policy (ve_policy env) (ve_clk env k) orgId d"

definition may_create_in_organization :: "ident \<Rightarrow> ident \<Rightarrow> directory \<Rightarrow> bool" where
  \<comment> \<open>what \<open>create-vault-feature.ts\<close> passes as \<open>canCreateInOrganization\<close>\<close>
  "may_create_in_organization userId orgId d =
     (case membership orgId userId d of None \<Rightarrow> False | Some m \<Rightarrow> mb_role m = ''owner'' \<or> mb_role m = ''admin'')"

section \<open>The vaults of a user\<close>

definition create_vault ::
  "'w vault_env \<Rightarrow> ident \<Rightarrow> string \<Rightarrow> string \<times> key_envelope \<Rightarrow> ident option \<Rightarrow> directory \<Rightarrow> (vault_error + vault_record) \<times> directory" where
  "create_vault env userId name wrapper selectedOrgId d =
     (case (case selectedOrgId of Some g \<Rightarrow> Some g | None \<Rightarrow> read_default_organization_id userId d) of
        None \<Rightarrow> (Inl (Vault_error ''organization_required''), d)
      | Some orgId \<Rightarrow>
          if orgId = [] then (Inl (Vault_error ''organization_required''), d)
          else if (case ve_canCreate env of None \<Rightarrow> False | Some can \<Rightarrow> \<not> can userId orgId d) then (Inl (Vault_error ''forbidden''), d)
          else let policy = plan_at env 0 orgId d;
                   maxVaults = pl_vaults (pp_limits policy)
               in if maxVaults > 0 \<and> count_vaults orgId d \<ge> maxVaults
                  then (Inl (Vault_limit_exceeded (pp_name policy) maxVaults), d)
                  else if vault_name_exists orgId name d then (Inl (Vault_error ''vault_name_exists''), d)
                  else create_vault_for_user (ve_uuid env) (ve_clk env 1 0) userId orgId name wrapper maxVaults d)"

definition get_vault_bootstrap :: "ident \<Rightarrow> ident \<Rightarrow> directory \<Rightarrow> vault_error + vault_record \<times> wrapper_row list" where
  "get_vault_bootstrap userId vaultId d =
     (case read_vault_bootstrap userId vaultId d of None \<Rightarrow> Inl (Vault_error ''forbidden'') | Some b \<Rightarrow> Inr b)"

definition user_can_access_vault :: "ident \<Rightarrow> ident \<Rightarrow> directory \<Rightarrow> bool" where
  "user_can_access_vault userId vaultId d = can_access_vault (read_vault_authorization_facts userId vaultId d)"

definition user_can_manage_vault :: "ident \<Rightarrow> ident \<Rightarrow> directory \<Rightarrow> bool" where
  "user_can_manage_vault userId vaultId d = can_manage_vault (read_vault_authorization_facts userId vaultId d)"

definition replace_password_wrapper ::
  "'w vault_env \<Rightarrow> ident \<Rightarrow> ident \<Rightarrow> key_envelope \<Rightarrow> directory \<Rightarrow> (vault_error + wrapper_row) \<times> directory" where
  "replace_password_wrapper env userId vaultId envelope d =
     (if \<not> user_can_access_vault userId vaultId d then (Inl (Vault_error ''forbidden''), d)
      else case read_accessible_vault userId vaultId d of
        None \<Rightarrow> (Inl (Vault_error ''forbidden''), d)
      | Some vault \<Rightarrow>
          if ke_keyVersion envelope \<noteq> vr_keyVersion vault \<or> (ke_version envelope = 2 \<and> ke_binding envelope \<noteq> Some (vaultId, userId))
          then (Inl (Vault_error ''forbidden''), d)
          else upsert_password_wrapper (ve_uuid env 0) (ve_clk env 0 0) userId vaultId envelope d)"

definition delete_vault :: "'w vault_env \<Rightarrow> ident \<Rightarrow> ident \<Rightarrow> directory \<times> 'w \<Rightarrow> (vault_failure + ident) \<times> directory \<times> 'w" where
  "delete_vault env userId vaultId s =
     (if \<not> user_can_manage_vault userId vaultId (fst s) then (Inl (Refused_vault (Vault_error ''forbidden'')), s)
      else let (_, d1) = mark_vault_deletion_queued (ve_clk env 0 0) vaultId (fst s)
           in case ve_queue env (Vault_purge vaultId) (d1, snd s) of
                (Inr _, s') \<Rightarrow> (Inr vaultId, s')
              | (Inl msg, d2, w2) \<Rightarrow>
                  (case mark_vault_deletion_queue_failed vaultId msg d2 of
                     None \<Rightarrow> (Inl (Refused_vault Database_error), d2, w2)
                   | Some d3 \<Rightarrow> (Inl (Thrown msg), d3, w2)))"

section \<open>Purge\<close>

definition coordinator_purge :: "(ident \<Rightarrow> 'w \<Rightarrow> (string + int) \<times> 'w) \<Rightarrow> ident \<Rightarrow> 'w \<Rightarrow> (string + unit) \<times> 'w" where
  \<comment> \<open>the transport throws or answers with a status\<close>
  "coordinator_purge transport vaultId w =
     (case transport vaultId w of
        (Inl msg, w') \<Rightarrow> (Inl msg, w')
      | (Inr status, w') \<Rightarrow>
          (if 200 \<le> status \<and> status \<le> 299 then Inr () else Inl (''coordinator purge failed with status '' @ show_num status), w'))"

definition purge_vault_data ::
  "(ident \<Rightarrow> 'w \<Rightarrow> (string + int) \<times> 'w) \<Rightarrow> ident \<Rightarrow> directory \<times> 'w \<Rightarrow> (string + unit) \<times> directory \<times> 'w" where
  "purge_vault_data transport vaultId s =
     (let d1 = mark_vault_purge_running vaultId (fst s)
      in case coordinator_purge transport vaultId (snd s) of
           (Inr _, w) \<Rightarrow> (Inr (), hard_delete_vault vaultId d1, w)
         | (Inl msg, w) \<Rightarrow> (Inl msg, mark_vault_purge_failed vaultId msg d1, w))"

definition inline_purge_queue :: "(ident \<Rightarrow> 'w \<Rightarrow> (string + int) \<times> 'w) \<Rightarrow> 'w purge_queue" where
  \<comment> \<open>the community edition purges at once\<close>
  "inline_purge_queue transport message s = (case message of
     Vault_purge vaultId \<Rightarrow> purge_vault_data transport vaultId s
   | Inactive_vault_purge vaultId notice \<Rightarrow> (Inl ''automatic inactivity purge is unavailable in community edition'', s))"

record purge_body =
  pb_type :: string
  pb_vault :: ident
  pb_reason :: "string option"
  pb_notice :: "vault_notice option"

definition purge_body_of :: "purge_message \<Rightarrow> purge_body" where
  \<comment> \<open>what \<open>CloudflareVaultPurgeQueue\<close> sends\<close>
  "purge_body_of message = (case message of
     Vault_purge vaultId \<Rightarrow> \<lparr>pb_type = ''vault_purge'', pb_vault = vaultId, pb_reason = None, pb_notice = None\<rparr>
   | Inactive_vault_purge vaultId notice \<Rightarrow>
       \<lparr>pb_type = ''vault_purge'', pb_vault = vaultId, pb_reason = Some ''inactivity'', pb_notice = Some notice\<rparr>)"

definition is_deliverable_notice :: "vault_notice option \<Rightarrow> bool" where
  "is_deliverable_notice notice = (case notice of None \<Rightarrow> False | Some n \<Rightarrow> CHR ''@'' \<in> set (vn_ownerEmail n))"

datatype settlement = Ack | Retry

definition handle_purge_message ::
  "(ident \<Rightarrow> 'w \<Rightarrow> (string + int) \<times> 'w) \<Rightarrow> (ident \<times> millis \<times> vault_notice \<Rightarrow> 'w \<Rightarrow> bool \<times> 'w) option \<Rightarrow> millis \<Rightarrow>
   purge_body option \<Rightarrow> directory \<times> 'w \<Rightarrow> settlement \<times> directory \<times> 'w" where
  \<comment> \<open>the second argument is the queue of notices, if there is one; whether it took the notice\<close>
  "handle_purge_message transport notices now body s =
     (case body of
        None \<Rightarrow> (Ack, s)
      | Some b \<Rightarrow>
          if pb_type b \<noteq> ''vault_purge'' \<or> js_trim (pb_vault b) = [] then (Ack, s)
          else case purge_vault_data transport (pb_vault b) s of
            (Inl msg, s') \<Rightarrow> (Retry, s')
          | (Inr _, d, w) \<Rightarrow>
              (case (notices, pb_notice b) of
                 (Some enqueue, Some notice) \<Rightarrow>
                   if pb_reason b = Some ''inactivity'' \<and> is_deliverable_notice (Some notice)
                   then let (sent, w') = enqueue (pb_vault b, now, notice) w in (if sent then Ack else Retry, d, w')
                   else (Ack, d, w)
               | _ \<Rightarrow> (Ack, d, w)))"

section \<open>Retention\<close>

definition scan_page_size :: int where "scan_page_size = 100"

definition is_inactivity_deletion_plan :: "plan_id \<Rightarrow> bool" where
  "is_inactivity_deletion_plan plan \<longleftrightarrow> plan = Free"

type_synonym free_cache = "(ident \<times> bool) list"

definition is_free_organization :: "'w vault_env \<Rightarrow> nat \<Rightarrow> ident \<Rightarrow> free_cache \<Rightarrow> directory \<Rightarrow> bool \<times> free_cache" where
  "is_free_organization env k orgId cache d =
     (case map_of cache orgId of
        Some free \<Rightarrow> (free, cache)
      | None \<Rightarrow> let free = is_inactivity_deletion_plan (pp_id (plan_at env k orgId d)) in (free, (orgId, free) # cache))"

definition delete_inactive_vault :: "'w vault_env \<Rightarrow> nat \<Rightarrow> inactive_candidate \<Rightarrow> directory \<times> 'w \<Rightarrow> (string + unit) \<times> directory \<times> 'w" where
  "delete_inactive_vault env k c s =
     (let (claimed, d1) = mark_vault_deletion_queued (ve_clk env k 0) (ic_vault c) (fst s)
      in if \<not> claimed then (Inr (), d1, snd s)
         else case ve_queue env (Inactive_vault_purge (ic_vault c)
                  \<lparr>vn_name = ic_name c, vn_ownerEmail = ic_ownerEmail c, vn_lastCommitAt = ic_lastCommitAt c\<rparr>) (d1, snd s) of
                (Inr _, s') \<Rightarrow> (Inr (), s')
              | (Inl msg, d2, w2) \<Rightarrow>
                  (case mark_vault_deletion_queue_failed (ic_vault c) msg d2 of
                     None \<Rightarrow> (Inl ''DatabaseError'', d2, w2)
                   | Some d3 \<Rightarrow> (Inl msg, d3, w2)))"

fun retention_page ::
  "'w vault_env \<Rightarrow> nat \<Rightarrow> inactive_candidate list \<Rightarrow> free_cache \<Rightarrow> directory \<times> 'w \<Rightarrow> (string + unit) \<times> free_cache \<times> directory \<times> 'w" where
  \<comment> \<open>the loop over a page; the number counts the candidates seen, for their clocks\<close>
  "retention_page env k [] cache s = (Inr (), cache, s)"
| "retention_page env k (c # cs) cache s =
     (let (free, cache') = is_free_organization env (2 * k) (ic_org c) cache (fst s)
      in if free
         then case delete_inactive_vault env (2 * k + 1) c s of
                (Inl msg, s') \<Rightarrow> (Inl msg, cache', s')
              | (Inr _, s') \<Rightarrow> retention_page env (Suc k) cs cache' s'
         else retention_page env (Suc k) cs cache' s)"

fun retention_loop ::
  "nat \<Rightarrow> 'w vault_env \<Rightarrow> millis \<Rightarrow> nat \<Rightarrow> ident option \<Rightarrow> free_cache \<Rightarrow> directory \<times> 'w \<Rightarrow> ((string + unit) \<times> directory \<times> 'w) option" where
  \<comment> \<open>\<open>for (;;)\<close> with fuel\<close>
  "retention_loop 0 env inactiveSince k after cache s = None"
| "retention_loop (Suc fuel) env inactiveSince k after cache s =
     (let cs = list_inactive_vault_candidates inactiveSince after scan_page_size (fst s)
      in if cs = [] then Some (Inr (), s)
         else case retention_page env k cs cache s of
                (Inl msg, _, s') \<Rightarrow> Some (Inl msg, s')
              | (Inr _, cache', s') \<Rightarrow>
                  if int (length cs) < scan_page_size then Some (Inr (), s')
                  else retention_loop fuel env inactiveSince (k + length cs) (Some (ic_vault (last cs))) cache' s')"

definition run_retention :: "nat \<Rightarrow> 'w vault_env \<Rightarrow> millis \<Rightarrow> directory \<times> 'w \<Rightarrow> ((string + unit) \<times> directory \<times> 'w) option" where
  "run_retention fuel env now s =
     retention_loop fuel env (now - free_vault_inactivity_delete_after_ms) 0 None [] s"

end
