(* ===== verification/Retention.thy ===== *)
theory Retention
  imports Vault_Api
begin

text \<open>
  The retention job of \<open>vault-lifecycle-service.ts\<close>: that its loop over the pages of inactive vaults ends,
  and that it queues the purge of exactly the vaults it should, each once.
\<close>

section \<open>The effect of claims\<close>

definition claimed_row :: "ident set \<Rightarrow> vault_row \<Rightarrow> vault_row \<Rightarrow> bool" where
  \<comment> \<open>before and after, if these vaults were claimed in between\<close>
  "claimed_row Q v v' \<longleftrightarrow> (if va_id v \<in> Q
     then (\<exists>t. v' = v\<lparr>va_deletedAt := Some t, va_purgeStatus := Some ''queued'', va_purgeError := None\<rparr>) else v' = v)"

definition claimed :: "ident set \<Rightarrow> directory \<Rightarrow> directory \<Rightarrow> bool" where
  "claimed Q d d' \<longleftrightarrow> list_all2 (claimed_row Q) (di_vaults d) (di_vaults d') \<and> d'\<lparr>di_vaults := di_vaults d\<rparr> = d"

lemma claimed_empty: "claimed {} d d"
  by (simp add: claimed_def claimed_row_def list_all2_same)

lemma claimed_fields:
  assumes "claimed Q d d'"
  shows "di_members d' = di_members d" "di_users d' = di_users d" "di_commits d' = di_commits d" "di_orgs d' = di_orgs d"
    "di_subscriptions d' = di_subscriptions d"
  using assms unfolding claimed_def by (metis directory.select_convs directory.update_convs directory.surjective)+

lemma claimed_plan: "claimed Q d d' \<Longrightarrow> plan_at env k orgId d' = plan_at env k orgId d"
  using claimed_fields[of Q d d'] by (simp add: plan_at_def read_organization_policy_def read_policy_data_def)

lemma list_all2_before: "list_all2 P xs ys \<Longrightarrow> y \<in> set ys \<Longrightarrow> \<exists>x \<in> set xs. P x y"
  by (induction rule: list_all2_induct) auto

lemma claimed_step:
  assumes c: "claimed Q d d'" and keyed: "keyed va_id (di_vaults d)" and mark: "mark_vault_deletion_queued t i d' = (True, d2)"
  shows "i \<notin> Q \<and> claimed (insert i Q) d d2"
proof -
  obtain v' where v': "v' \<in> set (di_vaults d')" "va_id v' = i" "va_deletedAt v' = None"
    using mark by (auto simp: mark_vault_deletion_queued_def)
  then obtain v where v: "v \<in> set (di_vaults d)" "claimed_row Q v v'"
    using c list_all2_before[of "claimed_row Q" "di_vaults d" "di_vaults d'" v'] by (auto simp: claimed_def)
  then have same: "i \<notin> Q" "v' = v" using v' by (auto simp: claimed_row_def split: if_splits)
  let ?f = "\<lambda>y. if va_id y = i \<and> va_deletedAt y = None
      then y\<lparr>va_deletedAt := Some t, va_purgeStatus := Some ''queued'', va_purgeError := None\<rparr> else y"
  have row: "claimed_row (insert i Q) x (if va_id y = i \<and> va_deletedAt y = None
      then y\<lparr>va_deletedAt := Some t, va_purgeStatus := Some ''queued'', va_purgeError := None\<rparr> else y)"
    if "x \<in> set (di_vaults d)" "claimed_row Q x y" for x y
  proof (cases "va_id x = i")
    case True
    then have "x = v" using keyed_unique[OF keyed that(1) v(1)] v'(2) same by simp
    then show ?thesis using that(2) same v' by (auto simp: claimed_row_def)
  next
    case False
    then show ?thesis using that(2) by (auto simp: claimed_row_def split: if_splits)
  qed
  have "list_all2 (\<lambda>x y. claimed_row (insert i Q) x (?f y)) (di_vaults d) (di_vaults d')"
    by (rule list.rel_mono_strong[of "claimed_row Q"]) (use c row in \<open>simp_all add: claimed_def\<close>)
  moreover have d2: "di_vaults d2 = map ?f (di_vaults d')" using mark by (auto simp: mark_vault_deletion_queued_def update_rows_def)
  ultimately have "list_all2 (claimed_row (insert i Q)) (di_vaults d) (di_vaults d2)" by (simp only: d2 list_all2_map2)
  then show ?thesis using c mark same by (auto simp: claimed_def mark_vault_deletion_queued_def)
qed

lemma unclaimed_step: "mark_vault_deletion_queued t i d = (False, d2) \<Longrightarrow> d2 = d"
proof -
  assume "mark_vault_deletion_queued t i d = (False, d2)"
  then have "\<forall>v \<in> set (di_vaults d). \<not> (va_id v = i \<and> va_deletedAt v = None)" "d2 = d\<lparr>di_vaults := update_rows (\<lambda>v. va_id v = i \<and> va_deletedAt v = None)
      (\<lambda>v. v\<lparr>va_deletedAt := Some t, va_purgeStatus := Some ''queued'', va_purgeError := None\<rparr>) (di_vaults d)\<rparr>"
    by (auto simp: mark_vault_deletion_queued_def)
  moreover from this(1) have "update_rows (\<lambda>v. va_id v = i \<and> va_deletedAt v = None) f (di_vaults d) = di_vaults d" for f
    unfolding update_rows_def by (intro map_idI) auto
  ultimately show "d2 = d" by simp
qed

lemma claimed_inactive:
  assumes "claimed Q d d'"
  shows "filter (inactive_vault since d') (di_vaults d') = filter (\<lambda>v. va_id v \<notin> Q) (filter (inactive_vault since d) (di_vaults d))"
proof -
  have same: "inactive_vault since d' = inactive_vault since d"
    using claimed_fields(3)[OF assms] by (simp add: inactive_vault_def[abs_def] last_commit_at_def)
  have "list_all2 (claimed_row Q) vs vs' \<Longrightarrow>
      filter (inactive_vault since d) vs' = filter (\<lambda>v. va_id v \<notin> Q) (filter (inactive_vault since d) vs)" for vs vs'
    by (induction rule: list_all2_induct) (auto simp: claimed_row_def inactive_vault_def split: if_splits)
  then show ?thesis using assms by (simp add: same claimed_def)
qed

lemma claimed_candidates:
  assumes "claimed Q d d'"
  shows "inactive_candidates since d' = filter (\<lambda>c. ic_vault c \<notin> Q) (inactive_candidates since d)"
proof -
  let ?g = "\<lambda>d v. map (\<lambda>email. \<lparr>ic_vault = va_id v, ic_org = va_org v, ic_name = va_name v, ic_ownerEmail = email,
    ic_lastCommitAt = last_commit_at (va_id v) d\<rparr>) (owner_emails (va_org v) d)"
  have all: "inactive_candidates since x = concat (map (?g x) (sort_key va_id (filter (inactive_vault since x) (di_vaults x))))" for x
    by (simp add: inactive_candidates_def)
  have same: "?g d' = ?g d" using claimed_fields(1-3)[OF assms] by (simp add: last_commit_at_def owner_emails_def)
  have blocks: "concat (map (?g d) (filter (\<lambda>v. va_id v \<notin> Q) vs)) = filter (\<lambda>c. ic_vault c \<notin> Q) (concat (map (?g d) vs))" for vs
    by (induction vs) (auto simp: filter_empty_conv)
  show ?thesis by (simp only: all same claimed_inactive[OF assms] filter_sort[symmetric] blocks)
qed

lemma sorted_const: "sorted (map (\<lambda>x. c) xs)"
  by (induction xs) auto

lemma candidates_sorted: "sorted (map ic_vault (inactive_candidates since d))"
proof -
  let ?g = "\<lambda>v. map (\<lambda>email. \<lparr>ic_vault = va_id v, ic_org = va_org v, ic_name = va_name v, ic_ownerEmail = email,
    ic_lastCommitAt = last_commit_at (va_id v) d\<rparr>) (owner_emails (va_org v) d)"
  have "sorted (map va_id vs) \<Longrightarrow> sorted (map ic_vault (concat (map ?g vs)))" for vs
    by (induction vs) (auto simp: sorted_append comp_def sorted_const)
  from this[of "sort_key va_id (filter (inactive_vault since d) (di_vaults d))"] show ?thesis
    unfolding inactive_candidates_def by simp
qed

lemma candidate_vault:
  assumes "c \<in> set (inactive_candidates since d)"
  shows "\<exists>v \<in> set (di_vaults d). inactive_vault since d v \<and> va_id v = ic_vault c \<and> va_org v = ic_org c \<and> owner_emails (va_org v) d \<noteq> []"
  using assms by (fastforce simp: inactive_candidates_def)

section \<open>A page\<close>

lemma retention_page_claims:
  assumes queue: "\<And>m s. fst (snd (ve_queue env m s)) = fst s" and keyed: "keyed va_id (di_vaults d)"
  shows "claimed Q d (fst s) \<Longrightarrow> retention_page env k cs cache s = (Inr (), cache', s') \<Longrightarrow>
    \<exists>Q'. claimed (Q \<union> Q') d (fst s') \<and> Q' \<subseteq> ic_vault ` set cs"
proof (induction cs arbitrary: k cache s Q)
  case Nil
  then show ?case by (intro exI[of _ "{}"]) simp
next
  case (Cons c cs)
  obtain free cache1 where f: "is_free_organization env (2 * k) (ic_org c) cache (fst s) = (free, cache1)" by fastforce
  obtain b d1 where mark: "mark_vault_deletion_queued (ve_clk env (2 * k + 1) 0) (ic_vault c) (fst s) = (b, d1)" by fastforce
  show ?case
  proof (cases "free \<and> b")
    case True
    obtain r s1 where enq: "ve_queue env (Inactive_vault_purge (ic_vault c)
        \<lparr>vn_name = ic_name c, vn_ownerEmail = ic_ownerEmail c, vn_lastCommitAt = ic_lastCommitAt c\<rparr>) (d1, snd s) = (r, s1)" by (meson surj_pair)
    then have "fst s1 = d1" using queue by (metis fst_conv snd_conv)
    moreover have "claimed (insert (ic_vault c) Q) d d1" using claimed_step[OF Cons.prems(1) keyed, of _ "ic_vault c" d1] mark True by simp
    moreover obtain u where r: "r = Inr u"
    proof (cases r)
      case (Inl msg)
      obtain d2 w2 where s1: "s1 = (d2, w2)" by fastforce
      have "retention_page env k (c # cs) cache s \<noteq> (Inr (), cache', s')"
        using True mark f enq Inl s1 by (cases "mark_vault_deletion_queue_failed (ic_vault c) msg d2") (simp_all add: delete_inactive_vault_def)
      then show ?thesis using Cons.prems(2) by simp
    qed
    moreover have "retention_page env (Suc k) cs cache1 s1 = (Inr (), cache', s')"
      using Cons.prems(2) True mark f enq r by (cases s1) (simp add: delete_inactive_vault_def)
    ultimately obtain Q' where Q': "claimed (insert (ic_vault c) Q \<union> Q') d (fst s')" "Q' \<subseteq> ic_vault ` set cs"
      using Cons.IH[of "insert (ic_vault c) Q" s1] by metis
    then show ?thesis by (intro exI[of _ "insert (ic_vault c) Q'"]) auto
  next
    case False
    have "retention_page env (Suc k) cs cache1 s = (Inr (), cache', s')"
      using Cons.prems(2) False mark f unclaimed_step[of "ve_clk env (2 * k + 1) 0" "ic_vault c" "fst s" d1]
      by (cases s; cases free) (simp_all add: delete_inactive_vault_def)
    then obtain Q' where Q': "claimed (Q \<union> Q') d (fst s')" "Q' \<subseteq> ic_vault ` set cs"
      using Cons.IH[OF Cons.prems(1)] by blast
    then show ?thesis by (intro exI[of _ Q']) auto
  qed
qed

section \<open>The loop\<close>

definition beyond :: "ident option \<Rightarrow> inactive_candidate \<Rightarrow> bool" where
  \<comment> \<open>the condition of the next page\<close>
  "beyond after c \<longleftrightarrow> \<not> truthy after \<or> ic_vault c > the after"

lemma page_rows: "list_inactive_vault_candidates since after scan_page_size d = take 100 (filter (beyond after) (inactive_candidates since d))"
  by (simp add: list_inactive_vault_candidates_def sql_limit_def scan_page_size_def beyond_def[abs_def])

lemma next_page:
  assumes sorted: "sorted (map ic_vault rows)" and page: "page = take n (filter (beyond after) rows)" "page \<noteq> []" and id: "ic_vault (last page) \<noteq> []"
  shows "filter (beyond (Some (ic_vault (last page)))) rows = filter (\<lambda>c. ic_vault (last page) < ic_vault c) (drop n (filter (beyond after) rows))"
    "c \<in> set rows \<Longrightarrow> beyond after c \<Longrightarrow> \<not> beyond (Some (ic_vault (last page))) c \<Longrightarrow> c \<in> set page \<or> ic_vault c = ic_vault (last page)"
proof -
  let ?C = "filter (beyond after) rows" and ?l = "ic_vault (last page)"
  have C: "?C = page @ drop n ?C" by (simp add: page(1))
  have "sorted (map ic_vault ?C)" using sorted by (simp add: sorted_filter)
  then have low: "\<forall>x \<in> set page. \<forall>y \<in> set (drop n ?C). ic_vault x \<le> ic_vault y" and sp: "sorted (map ic_vault page)"
    by (subst (asm) C, simp add: sorted_append)+
  have le: "ic_vault x \<le> ?l" if "x \<in> set page" for x
  proof -
    have "sorted (map ic_vault (butlast page @ [last page]))" using sp page(2) by simp
    then have "\<forall>y \<in> set (butlast page). ic_vault y \<le> ?l" unfolding map_append sorted_append by auto
    moreover have "x \<in> set (butlast page) \<or> x = last page" using that page(2) by (metis append_butlast_last_id in_set_conv_decomp set_append Un_iff list.set(1,2) insertE emptyE)
    ultimately show ?thesis by auto
  qed
  have more: "beyond (Some ?l) c = (?l < ic_vault c)" for c using id by (simp add: beyond_def)
  have "last page \<in> set ?C" using page last_in_set in_set_takeD by metis
  then have implies: "?l < ic_vault c \<Longrightarrow> beyond after c" for c by (auto simp: beyond_def)
  have "filter (beyond (Some ?l)) rows = filter (\<lambda>c. ?l < ic_vault c) ?C"
    unfolding filter_filter by (rule filter_cong) (use implies in \<open>auto simp: more\<close>)
  also have "\<dots> = filter (\<lambda>c. ?l < ic_vault c) (drop n ?C)"
  proof -
    have "filter (\<lambda>c. ?l < ic_vault c) page = []" using le by (simp add: filter_empty_conv leD)
    then show ?thesis by (subst C) simp
  qed
  finally show "filter (beyond (Some ?l)) rows = filter (\<lambda>c. ?l < ic_vault c) (drop n ?C)" .
  assume c: "c \<in> set rows" "beyond after c" "\<not> beyond (Some ?l) c"
  then have "c \<in> set (page @ drop n ?C)" using C[symmetric] by simp
  then have "c \<in> set page \<or> ?l \<le> ic_vault c" using low last_in_set[OF page(2)] by auto
  then show "c \<in> set page \<or> ic_vault c = ?l" using c(3) by (auto simp: more order.order_iff_strict)
qed

lemma retention_loop_terminates:
  assumes queue: "\<And>m s. fst (snd (ve_queue env m s)) = fst s" and keyed: "keyed va_id (di_vaults d)" and ids: "\<forall>v \<in> set (di_vaults d). va_id v \<noteq> []"
  shows "claimed Q d (fst s) \<Longrightarrow> length (filter (beyond after) (inactive_candidates since (fst s))) < fuel \<Longrightarrow>
    \<exists>r. retention_loop fuel env since k after cache s = Some r"
proof (induction fuel arbitrary: Q s k after cache)
  case (Suc fuel)
  define rows where "rows = inactive_candidates since (fst s)"
  define page where "page = take 100 (filter (beyond after) rows)"
  have list: "list_inactive_vault_candidates since after scan_page_size (fst s) = page" by (simp add: page_rows page_def rows_def)
  obtain res cache' s' where p: "retention_page env k page cache s = (res, cache', s')" by (metis prod_cases3)
  show ?case
  proof (cases "page = [] \<or> isl res")
    case True
    then show ?thesis by (cases res) (auto simp: list p)
  next
    case False
    then have ne: "page \<noteq> []" and inr: "retention_page env k page cache s = (Inr (), cache', s')" using p by (cases res; simp)+
    obtain Q' where Q': "claimed (Q \<union> Q') d (fst s')" using retention_page_claims[OF queue keyed Suc.prems(1) inr] by blast
    have "last page \<in> set rows" using last_in_set[OF ne] set_take_subset[of 100 "filter (beyond after) rows"] unfolding page_def by auto
    then have "last page \<in> set (inactive_candidates since d)"
      using claimed_candidates[OF Suc.prems(1)] by (simp add: rows_def)
    then have id: "ic_vault (last page) \<noteq> []" using candidate_vault[of "last page" since d] ids by fastforce
    have rows': "inactive_candidates since (fst s') = filter (\<lambda>c. ic_vault c \<notin> Q') rows"
      unfolding claimed_candidates[OF Q'] rows_def claimed_candidates[OF Suc.prems(1)] by (simp add: filter_filter conj_commute)
    have "length (filter (beyond (Some (ic_vault (last page)))) (inactive_candidates since (fst s'))) \<le>
        length (filter (beyond (Some (ic_vault (last page)))) rows)"
      unfolding rows' filter_filter by (induction rows) auto
    also have "\<dots> \<le> length (drop 100 (filter (beyond after) rows))"
      unfolding next_page(1)[OF candidates_sorted[of since "fst s", folded rows_def] page_def ne id] by (rule length_filter_le)
    also have "\<dots> < length (filter (beyond after) rows)" using ne by (auto simp: page_def)
    finally have "length (filter (beyond (Some (ic_vault (last page)))) (inactive_candidates since (fst s'))) < fuel"
      using Suc.prems(2) by (simp add: rows_def)
    then obtain r where "retention_loop fuel env since (k + length page) (Some (ic_vault (last page))) cache' s' = Some r"
      using Suc.IH[OF Q'] by blast
    then show ?thesis using ne by (cases r) (simp add: list inr)
  qed
qed simp

text \<open>
  C16. The retention job ends. Its loop has no bound of its own; it stops because each page starts beyond
  the last vault of the one before and claims only take vaults away. Whatever the queue answers, even
  failures, a number of rounds one above the number of inactive vaults (counted with their owners)
  suffices, and the job returns or throws.
\<close>

theorem retention_terminates:
  assumes queue: "\<And>m s. fst (snd (ve_queue env m s)) = fst s" and keyed: "keyed va_id (di_vaults d)" and ids: "\<forall>v \<in> set (di_vaults d). va_id v \<noteq> []"
    and fuel: "length (inactive_candidates (now - free_vault_inactivity_delete_after_ms) d) < fuel"
  shows "\<exists>res s'. run_retention fuel env now (d, w) = Some (res, s')"
proof -
  have "\<exists>r. retention_loop fuel env (now - free_vault_inactivity_delete_after_ms) 0 None [] (d, w) = Some r"
    by (rule retention_loop_terminates[OF queue keyed ids, of "{}"])
      (use fuel in \<open>simp_all add: claimed_empty beyond_def[abs_def]\<close>)
  then show ?thesis by (auto simp: run_retention_def)
qed

section \<open>What is queued\<close>

definition message_vault :: "purge_message \<Rightarrow> ident" where
  "message_vault m = (case m of Vault_purge v \<Rightarrow> v | Inactive_vault_purge v n \<Rightarrow> v)"

definition queued_are :: "ident set \<Rightarrow> directory \<Rightarrow> directory \<times> purge_message list \<Rightarrow> bool" where
  \<comment> \<open>exactly these vaults are claimed and queued, each once\<close>
  "queued_are Q d s \<longleftrightarrow> claimed Q d (fst s) \<and> distinct (map message_vault (snd s)) \<and> message_vault ` set (snd s) = Q"

definition free_vaults :: "(ident \<Rightarrow> bool) \<Rightarrow> inactive_candidate list \<Rightarrow> ident set" where
  "free_vaults free cs = ic_vault ` {c \<in> set cs. free (ic_org c)}"

lemma mark_claims:
  assumes keyed: "keyed va_id (di_vaults d)" and c: "claimed Q d d'" "c \<in> set (inactive_candidates since d)"
  shows "fst (mark_vault_deletion_queued t (ic_vault c) d') \<longleftrightarrow> ic_vault c \<notin> Q"
proof
  assume "fst (mark_vault_deletion_queued t (ic_vault c) d')"
  then show "ic_vault c \<notin> Q" using claimed_step[OF c(1) keyed, of t "ic_vault c" "snd (mark_vault_deletion_queued t (ic_vault c) d')"]
    by (metis prod.collapse)
next
  assume new: "ic_vault c \<notin> Q"
  obtain v where v: "v \<in> set (di_vaults d)" "va_id v = ic_vault c" "va_deletedAt v = None"
    using candidate_vault[OF c(2)] by (auto simp: inactive_vault_def)
  obtain i where i: "i < length (di_vaults d)" "di_vaults d ! i = v" using v(1) by (auto simp: in_set_conv_nth)
  then have "claimed_row Q v (di_vaults d' ! i)" "i < length (di_vaults d')"
    using c(1) by (auto simp: claimed_def list_all2_conv_all_nth)
  then have "v \<in> set (di_vaults d')" using new v(2) by (metis claimed_row_def nth_mem)
  then show "fst (mark_vault_deletion_queued t (ic_vault c) d')" using v by (auto simp: mark_vault_deletion_queued_def)
qed

lemma retention_page_exact:
  assumes queue: "\<And>m d w. ve_queue env m (d, w) = (Inr (), d, w @ [m])" and keyed: "keyed va_id (di_vaults d)"
    and plan: "\<And>k g. pp_id (plan_at env k g d) = Free \<longleftrightarrow> free g"
  shows "queued_are Q d s \<Longrightarrow> \<forall>x \<in> set cache. snd x = free (fst x) \<Longrightarrow> set cs \<subseteq> set (inactive_candidates since d) \<Longrightarrow>
    \<exists>cache' s'. retention_page env k cs cache s = (Inr (), cache', s') \<and> (\<forall>x \<in> set cache'. snd x = free (fst x)) \<and>
      queued_are (Q \<union> free_vaults free cs) d s'"
proof (induction cs arbitrary: k cache s Q)
  case Nil
  then show ?case by (simp add: free_vaults_def)
next
  case (Cons c cs)
  obtain dd w where s: "s = (dd, w)" by fastforce
  have q: "claimed Q d dd" "distinct (map message_vault w)" "message_vault ` set w = Q" using Cons.prems(1) by (simp_all add: queued_are_def s)
  obtain cache1 where f: "is_free_organization env (2 * k) (ic_org c) cache dd = (free (ic_org c), cache1)" "\<forall>x \<in> set cache1. snd x = free (fst x)"
  proof (cases "map_of cache (ic_org c)")
    case None
    then show ?thesis using that[of "(ic_org c, free (ic_org c)) # cache"] Cons.prems(2)
      by (simp add: is_free_organization_def is_inactivity_deletion_plan_def Let_def plan claimed_plan[OF q(1)])
  next
    case (Some b)
    then have "b = free (ic_org c)" using Cons.prems(2) by (auto dest!: map_of_SomeD)
    then show ?thesis using that[of cache] Cons.prems(2) Some by (simp add: is_free_organization_def)
  qed
  have c: "c \<in> set (inactive_candidates since d)" "set cs \<subseteq> set (inactive_candidates since d)" using Cons.prems(3) by simp_all
  obtain b d1 where mark: "mark_vault_deletion_queued (ve_clk env (2 * k + 1) 0) (ic_vault c) dd = (b, d1)" by fastforce
  have b: "b \<longleftrightarrow> ic_vault c \<notin> Q" using mark_claims[OF keyed q(1) c(1), of "ve_clk env (2 * k + 1) 0"] mark by simp
  show ?case
  proof (cases "free (ic_org c) \<and> b")
    case True
    define m where "m = Inactive_vault_purge (ic_vault c) \<lparr>vn_name = ic_name c, vn_ownerEmail = ic_ownerEmail c, vn_lastCommitAt = ic_lastCommitAt c\<rparr>"
    have "queued_are (insert (ic_vault c) Q) d (d1, w @ [m])"
      using q b True claimed_step[OF q(1) keyed, of _ "ic_vault c" d1] mark by (auto simp: queued_are_def m_def message_vault_def)
    moreover have "retention_page env k (c # cs) cache s = retention_page env (Suc k) cs cache1 (d1, w @ [m])"
      using True by (simp add: s f mark[simplified] delete_inactive_vault_def queue m_def)
    moreover have "insert (ic_vault c) Q \<union> free_vaults free cs = Q \<union> free_vaults free (c # cs)" using True by (auto simp: free_vaults_def)
    ultimately show ?thesis using Cons.IH[OF _ f(2) c(2), of "insert (ic_vault c) Q" "(d1, w @ [m])" "Suc k"] by simp
  next
    case False
    then have same: "free (ic_org c) \<Longrightarrow> d1 = dd" using mark unclaimed_step[of _ "ic_vault c" dd d1] by (cases b) auto
    have "retention_page env k (c # cs) cache s = retention_page env (Suc k) cs cache1 s"
      using False same by (cases "free (ic_org c)") (simp_all add: s f mark[simplified] delete_inactive_vault_def)
    moreover have "Q \<union> free_vaults free cs = Q \<union> free_vaults free (c # cs)" using False b by (auto simp: free_vaults_def)
    ultimately show ?thesis using Cons.IH[OF Cons.prems(1) f(2) c(2), of "Suc k"] by simp
  qed
qed

lemma retention_loop_exact:
  assumes queue: "\<And>m d w. ve_queue env m (d, w) = (Inr (), d, w @ [m])" and keyed: "keyed va_id (di_vaults d)"
    and plan: "\<And>k g. pp_id (plan_at env k g d) = Free \<longleftrightarrow> free g" and ids: "\<forall>v \<in> set (di_vaults d). va_id v \<noteq> []"
  shows "queued_are Q d s \<Longrightarrow> \<forall>x \<in> set cache. snd x = free (fst x) \<Longrightarrow> Q \<subseteq> free_vaults free (inactive_candidates since d) \<Longrightarrow>
    (\<forall>c \<in> set (inactive_candidates since d). free (ic_org c) \<and> \<not> beyond after c \<longrightarrow> ic_vault c \<in> Q) \<Longrightarrow>
    retention_loop fuel env since k after cache s = Some (res, s') \<Longrightarrow>
    res = Inr () \<and> queued_are (free_vaults free (inactive_candidates since d)) d s'"
proof (induction fuel arbitrary: Q s k after cache)
  case (Suc fuel)
  define rows where "rows = inactive_candidates since (fst s)"
  define page where "page = take 100 (filter (beyond after) rows)"
  let ?D = "free_vaults free (inactive_candidates since d)"
  have list: "list_inactive_vault_candidates since after scan_page_size (fst s) = page" by (simp add: page_rows page_def rows_def)
  have small: "int (length page) < scan_page_size \<longleftrightarrow> length page < 100" by (simp add: scan_page_size_def)
  have rows: "rows = filter (\<lambda>c. ic_vault c \<notin> Q) (inactive_candidates since d)"
    unfolding rows_def using Suc.prems(1) by (intro claimed_candidates) (simp add: queued_are_def)
  have sub: "set page \<subseteq> set (inactive_candidates since d)" using set_take_subset[of 100 "filter (beyond after) rows"] by (auto simp: page_def rows)
  obtain cache' s1 where p: "retention_page env k page cache s = (Inr (), cache', s1)" "\<forall>x \<in> set cache'. snd x = free (fst x)"
      "queued_are (Q \<union> free_vaults free page) d s1"
    using retention_page_exact[OF queue keyed plan Suc.prems(1,2) sub] by blast
  have Q1: "Q \<union> free_vaults free page \<subseteq> ?D" using Suc.prems(3) sub by (auto simp: free_vaults_def)
  have whole: "Q \<union> free_vaults free page = ?D" if "page = filter (beyond after) rows"
    using Q1 Suc.prems(4) that by (force simp: free_vaults_def rows)
  show ?case
  proof (cases "length page < 100")
    case True
    then have "Q \<union> free_vaults free page = ?D" by (intro whole) (simp add: page_def)
    moreover have "res = Inr () \<and> s' = s1"
      using Suc.prems(5) p(1) True by (cases "page = []") (auto simp: list small)
    ultimately show ?thesis using p(3) by simp
  next
    case False
    then have ne: "page \<noteq> []" by auto
    have last: "last page \<in> set page" using ne by simp
    then have id: "ic_vault (last page) \<noteq> []" using candidate_vault[of "last page" since d] sub ids by fastforce
    have "ic_vault c \<in> Q \<union> free_vaults free page"
      if c: "c \<in> set (inactive_candidates since d)" "free (ic_org c)" "\<not> beyond (Some (ic_vault (last page))) c" for c
    proof (cases "ic_vault c \<in> Q \<or> \<not> beyond after c")
      case True
      then show ?thesis using Suc.prems(4) c by blast
    next
      case False
      then have "c \<in> set rows" "beyond after c" using c(1) by (simp_all add: rows)
      then consider "c \<in> set page" | "ic_vault c = ic_vault (last page)"
        using next_page(2)[OF candidates_sorted[of since "fst s", folded rows_def] page_def ne id _ _ c(3)] by blast
      then show ?thesis
      proof cases
        case 2
        then have "ic_org c = ic_org (last page)"
          using candidate_vault[OF c(1)] candidate_vault[of "last page" since d] last sub keyed by (metis keyed_unique subsetD)
        then show ?thesis using 2 last c(2) by (auto simp: free_vaults_def)
      qed (use c(2) in \<open>auto simp: free_vaults_def\<close>)
    qed
    moreover have "retention_loop fuel env since (k + length page) (Some (ic_vault (last page))) cache' s1 = Some (res, s')"
      using Suc.prems(5) p(1) ne False by (simp add: list small)
    ultimately show ?thesis using Suc.IH[OF p(3,2) Q1] by blast
  qed
qed simp

text \<open>
  C15. Retention takes exactly the inactive vaults. With a queue that takes messages, and plans that do not change
  during the run, a run queues the purge of every vault that is neither deleted nor shared, has had no commit for
  the retention period (or was created that long ago, if it never had one), has an owner to notify and belongs to
  an organization on the free plan. Each of them is queued once, however many owners its organization has and wherever
  the pages are cut, and is marked as deleted; no other vault and no other table is touched.
\<close>

theorem retention_queues_exactly:
  assumes queue: "\<And>m d w. ve_queue env m (d, w) = (Inr (), d, w @ [m])" and keyed: "keyed va_id (di_vaults d)"
    and plan: "\<And>k g. pp_id (plan_at env k g d) = Free \<longleftrightarrow> free g" and ids: "\<forall>v \<in> set (di_vaults d). va_id v \<noteq> []"
    and fuel: "length (inactive_candidates (now - free_vault_inactivity_delete_after_ms) d) < fuel"
  shows "\<exists>d' messages. run_retention fuel env now (d, []) = Some (Inr (), d', messages) \<and>
    distinct (map message_vault messages) \<and>
    message_vault ` set messages = {va_id v | v. v \<in> set (di_vaults d) \<and> inactive_vault (now - 90 * 24 * 60 * 60 * 1000) d v \<and>
      free (va_org v) \<and> owner_emails (va_org v) d \<noteq> []} \<and>
    claimed (message_vault ` set messages) d d'"
proof -
  let ?since = "now - 90 * 24 * 60 * 60 * 1000"
  have since: "now - free_vault_inactivity_delete_after_ms = ?since" by (simp add: free_vault_inactivity_delete_after_ms_def)
  have "\<exists>r. retention_loop fuel env ?since 0 None [] (d, []) = Some r"
    by (rule retention_loop_terminates[OF _ keyed ids, of env "{}"])
      (use queue fuel since in \<open>simp_all add: claimed_empty beyond_def[abs_def] split_paired_all\<close>)
  then obtain res s' where run: "retention_loop fuel env ?since 0 None [] (d, []) = Some (res, s')" by auto
  have "queued_are {} d (d, [])" by (simp add: queued_are_def claimed_empty)
  from retention_loop_exact[OF queue keyed plan ids this _ _ _ run]
  have done': "res = Inr ()" "queued_are (free_vaults free (inactive_candidates ?since d)) d s'" by (simp_all add: beyond_def)
  have due: "free_vaults free (inactive_candidates ?since d) = {va_id v | v. v \<in> set (di_vaults d) \<and> inactive_vault ?since d v \<and>
      free (va_org v) \<and> owner_emails (va_org v) d \<noteq> []}"
  proof (intro set_eqI iffI)
    fix x assume "x \<in> free_vaults free (inactive_candidates ?since d)"
    then show "x \<in> {va_id v | v. v \<in> set (di_vaults d) \<and> inactive_vault ?since d v \<and> free (va_org v) \<and> owner_emails (va_org v) d \<noteq> []}"
      using candidate_vault[of _ ?since d] unfolding free_vaults_def by force
  next
    fix x assume "x \<in> {va_id v | v. v \<in> set (di_vaults d) \<and> inactive_vault ?since d v \<and> free (va_org v) \<and> owner_emails (va_org v) d \<noteq> []}"
    then obtain v where v: "v \<in> set (di_vaults d)" "inactive_vault ?since d v" "free (va_org v)" "owner_emails (va_org v) d \<noteq> []" "x = va_id v" by blast
    then obtain e where "e \<in> set (owner_emails (va_org v) d)" by (cases "owner_emails (va_org v) d") auto
    then have "\<lparr>ic_vault = va_id v, ic_org = va_org v, ic_name = va_name v, ic_ownerEmail = e,
        ic_lastCommitAt = last_commit_at (va_id v) d\<rparr> \<in> set (inactive_candidates ?since d)"
      using v(1,2) by (auto simp: inactive_candidates_def)
    then show "x \<in> free_vaults free (inactive_candidates ?since d)" using v(3,5) unfolding free_vaults_def by force
  qed
  show ?thesis
    using run done' due unfolding queued_are_def run_retention_def since by (intro exI[of _ "fst s'"] exI[of _ "snd s'"]) simp
qed

section \<open>Instances\<close>

definition example_cloud :: "purge_message list vault_env" where
  "example_cloud = \<lparr>ve_policy = \<lparr>sc_selfHosted = False, sc_products = []\<rparr>, ve_clk = (\<lambda>_ _. 8000000000), ve_uuid = (\<lambda>_. ''u''),
     ve_canCreate = None, ve_queue = (\<lambda>m s. (Inr (), fst s, snd s @ [m]))\<rparr>"

lemma example_retention_free: "pp_id (plan_at example_cloud k g d) = Free"
proof -
  have none: "first_plan clk [] ss = None" for clk ss
    by (induction ss arbitrary: clk) (simp_all add: subscription_access_plan_id_def subscription_access_def)
  show ?thesis by (simp add: plan_at_def example_cloud_def read_organization_policy_def none Let_def split_beta split: option.split)
qed

definition example_idle :: directory where
  \<comment> \<open>a vault of 1970, not shared\<close>
  "example_idle = fold dir_step (take 3 example_sharing) empty_directory"

theorem retention_terminates_witness:
  "\<exists>res s'. run_retention 2 (example_cloud\<lparr>ve_queue := (\<lambda>m s. (Inl ''down'', s))\<rparr>) 8000000000 (example_idle, []) = Some (res, s')"
proof (rule retention_terminates)
  show "keyed va_id (di_vaults example_idle)" "\<forall>v \<in> set (di_vaults example_idle). va_id v \<noteq> []"
    "length (inactive_candidates (8000000000 - free_vault_inactivity_delete_after_ms) example_idle) < 2" by code_simp+
qed simp

theorem retention_queues_exactly_witness:
  "\<exists>d' m. run_retention 2 example_cloud 8000000000 (example_idle, []) = Some (Inr (), d', m) \<and> map message_vault m = [''v'']"
proof -
  have "keyed va_id (di_vaults example_idle)" "\<forall>v \<in> set (di_vaults example_idle). va_id v \<noteq> []"
    "length (inactive_candidates (8000000000 - free_vault_inactivity_delete_after_ms) example_idle) < 2" by code_simp+
  note facts = this
  have "\<exists>d' messages. run_retention 2 example_cloud 8000000000 (example_idle, []) = Some (Inr (), d', messages) \<and>
    distinct (map message_vault messages) \<and>
    message_vault ` set messages = {va_id v | v. v \<in> set (di_vaults example_idle) \<and>
      inactive_vault (8000000000 - 90 * 24 * 60 * 60 * 1000) example_idle v \<and> True \<and> owner_emails (va_org v) example_idle \<noteq> []} \<and>
    claimed (message_vault ` set messages) example_idle d'"
    by (rule retention_queues_exactly[where free = "\<lambda>_. True"])
      (use facts in \<open>simp_all add: example_retention_free\<close>, simp add: example_cloud_def)
  then obtain d' m where r: "run_retention 2 example_cloud 8000000000 (example_idle, []) = Some (Inr (), d', m)" "distinct (map message_vault m)"
      "message_vault ` set m = {va_id v | v. v \<in> set (di_vaults example_idle) \<and>
         inactive_vault (8000000000 - 90 * 24 * 60 * 60 * 1000) example_idle v \<and> True \<and> owner_emails (va_org v) example_idle \<noteq> []}"
    by blast
  have one: "map va_id (filter (\<lambda>v. inactive_vault (8000000000 - 90 * 24 * 60 * 60 * 1000) example_idle v \<and>
      owner_emails (va_org v) example_idle \<noteq> []) (di_vaults example_idle)) = [''v'']" by code_simp
  have "message_vault ` set m = set (map va_id (filter (\<lambda>v. inactive_vault (8000000000 - 90 * 24 * 60 * 60 * 1000) example_idle v \<and>
      owner_emails (va_org v) example_idle \<noteq> []) (di_vaults example_idle)))" unfolding r(3) by auto
  then have "message_vault ` set m = {''v''}" unfolding one by simp
  then have "set (map message_vault m) = {''v''}" by simp
  then have "map message_vault m = [''v'']"
    using r(2) by (cases m; cases "tl m") auto
  then show ?thesis using r(1) by (intro exI[of _ d'] exI[of _ m]) simp
qed

end
