(* ===== verification/Vault_Rules.thy ===== *)
theory Vault_Rules
  imports Vault_Api
begin

text \<open>
  What the catalogue of vaults promises: the quota and the key of a new vault, that the two
  implementations of access agree, that a deletion that cannot be queued is undone, and what a purge leaves.
\<close>

section \<open>Creation\<close>

lemma create_vault_Inr:
  assumes "create_vault env userId name wrapper selected d = (Inr v, d')"
  shows "\<exists>orgId. create_vault_for_user (ve_uuid env) (ve_clk env 1 0) userId orgId name wrapper
      (pl_vaults (pp_limits (plan_at env 0 orgId d))) d = (Inr v, d') \<and> \<not> vault_name_exists orgId name d"
  using assms by (auto simp: create_vault_def Let_def split: option.splits if_split_asm)

lemma create_vault_Inl: "create_vault env userId name wrapper selected d = (Inl e, d') \<Longrightarrow> d' = d"
  by (auto simp: create_vault_def Let_def dest: create_vault_for_user_Inl split: option.splits if_split_asm)

lemma create_vault_rows:
  assumes "create_vault_for_user uuid now userId orgId name wrapper maxVaults d = (Inr v, d')"
  shows "\<exists>row m w. v = to_vault_record row \<and> va_id row = uuid 0 \<and> va_org row = orgId \<and> va_name row = name \<and> va_deletedAt row = None \<and>
    di_vaults d' = di_vaults d @ [row] \<and> vm_vault m = uuid 0 \<and> vm_user m = userId \<and> vm_status m = ''active'' \<and>
    di_memberships d' = di_memberships d @ [m] \<and> kw_vault w = uuid 0 \<and> kw_user w = Some userId \<and> kw_envelope w = snd wrapper \<and>
    kw_revokedAt w = None \<and> di_wrappers d' = di_wrappers d @ [w] \<and> di_members d' = di_members d \<and>
    (\<exists>x \<in> set (di_members d). mb_org x = orgId \<and> mb_user x = userId \<and> mb_role x \<in> {''owner'', ''admin''})"
  using assms unfolding create_vault_for_user_def Let_def by (auto split: if_split_asm)

lemma accessible_vault_rowD:
  "accessible_vault_row u v d = Some r \<Longrightarrow> r \<in> set (di_vaults d) \<and> va_id r = v \<and> va_deletedAt r = None \<and> is_member (va_org r) u d \<and>
     (\<exists>g \<in> set (di_memberships d). vm_vault g = v \<and> vm_user g = u \<and> vm_status g = ''active'')"
  by (auto simp: accessible_vault_row_def find_Some_iff)

lemma accessible_vault_rowI:
  assumes "keyed va_id (di_vaults d)" "r \<in> set (di_vaults d)" "va_id r = v" "va_deletedAt r = None" "is_member (va_org r) u d"
    "g \<in> set (di_memberships d)" "vm_vault g = v" "vm_user g = u" "vm_status g = ''active''"
  shows "accessible_vault_row u v d = Some r"
proof (cases "accessible_vault_row u v d")
  case None
  then show ?thesis using assms by (auto simp: accessible_vault_row_def find_None_iff)
next
  case (Some r')
  then show ?thesis using accessible_vault_rowD[OF Some] keyed_unique[OF assms(1), of r' r] assms(2,3) by simp
qed

text \<open>
  C20. A new vault fits the plan and can be opened. If the creation of a vault succeeds, the organization has at
  most as many vaults as its plan allows (where zero is unrestricted), its creator is an owner or administrator of it,
  no other live vault of the organization has the name, and the creator can at once bootstrap the new vault
  with the key that was passed. If it fails, nothing has changed.
\<close>

theorem created_vault_fits_and_opens:
  assumes ok: "directory_ok d" and run: "create_vault env userId name wrapper selected d = (res, d')"
  shows "(\<forall>e. res = Inl e \<longrightarrow> d' = d) \<and>
    (\<forall>v. res = Inr v \<longrightarrow> directory_ok d' \<and> vr_name v = name \<and> \<not> vault_name_exists (vr_org v) name d \<and>
       (let limit = pl_vaults (pp_limits (plan_at env 0 (vr_org v) d)) in limit = 0 \<or> count_vaults (vr_org v) d' \<le> limit) \<and>
       (\<exists>m \<in> set (di_members d). mb_org m = vr_org v \<and> mb_user m = userId \<and> mb_role m \<in> {''owner'', ''admin''}) \<and>
       (\<exists>ws. get_vault_bootstrap userId (vr_id v) d' = Inr (v, ws) \<and> snd wrapper \<in> kw_envelope ` set ws))"
proof (cases res)
  case (Inl e)
  then show ?thesis using run create_vault_Inl by blast
next
  case (Inr v)
  obtain orgId where c: "create_vault_for_user (ve_uuid env) (ve_clk env 1 0) userId orgId name wrapper
      (pl_vaults (pp_limits (plan_at env 0 orgId d))) d = (Inr v, d')" and fresh: "\<not> vault_name_exists orgId name d"
    using create_vault_Inr run unfolding Inr by blast
  obtain row m w where rows: "v = to_vault_record row" "va_id row = ve_uuid env 0" "va_org row = orgId" "va_name row = name" "va_deletedAt row = None"
    "di_vaults d' = di_vaults d @ [row]" "vm_vault m = ve_uuid env 0" "vm_user m = userId" "vm_status m = ''active''"
    "di_memberships d' = di_memberships d @ [m]" "kw_vault w = ve_uuid env 0" "kw_user w = Some userId" "kw_envelope w = snd wrapper"
    "kw_revokedAt w = None" "di_wrappers d' = di_wrappers d @ [w]" "di_members d' = di_members d"
    and manager: "\<exists>x \<in> set (di_members d). mb_org x = orgId \<and> mb_user x = userId \<and> mb_role x \<in> {''owner'', ''admin''}"
    using create_vault_rows[OF c] by blast
  have ok': "directory_ok d'" by (rule create_vault_for_user_ok[OF ok c])
  have "count_vaults orgId d' = count_vaults orgId d + 1" by (simp add: count_vaults_def rows)
  then have limit: "pl_vaults (pp_limits (plan_at env 0 orgId d)) = 0 \<or> count_vaults orgId d' \<le> pl_vaults (pp_limits (plan_at env 0 orgId d))"
    using create_vault_for_user_Inr(1)[OF c] by auto
  have "is_member orgId userId d'" using manager by (auto simp: is_member_def rows)
  then have "accessible_vault_row userId (ve_uuid env 0) d' = Some row"
    using directory_okD(1)[OF ok'] rows by (intro accessible_vault_rowI[of _ _ _ _ m]) (auto simp: keys_ok_def)
  then have "\<exists>ws. get_vault_bootstrap userId (ve_uuid env 0) d' = Inr (v, ws) \<and> snd wrapper \<in> kw_envelope ` set ws"
    using rows by (auto simp: get_vault_bootstrap_def read_vault_bootstrap_def intro: rev_image_eqI[of w])
  then show ?thesis using ok' limit fresh manager rows(1-4) by (simp add: Inr to_vault_record_def Let_def)
qed

section \<open>Access\<close>

lemma find_member: "find (\<lambda>m. mb_org m = g \<and> mb_user m = u) (di_members d) = None \<longleftrightarrow> \<not> is_member g u d"
  by (auto simp: find_None_iff is_member_def)

lemma can_access_iff:
  "user_can_access_vault userId vaultId d \<longleftrightarrow> (\<exists>v g. row_of va_id vaultId (di_vaults d) = Some v \<and> va_deletedAt v = None \<and>
     grant_of vaultId userId d = Some g \<and> vm_status g = ''active'' \<and> is_member (va_org v) userId d)"
proof (cases "row_of va_id vaultId (di_vaults d)")
  case (Some v)
  then show ?thesis using find_member[of "va_org v" userId d]
    by (auto simp: user_can_access_vault_def can_access_vault_def read_vault_authorization_facts_def)
qed (simp add: user_can_access_vault_def can_access_vault_def read_vault_authorization_facts_def)

text \<open>
  The two checks of access agree. A user may access a vault by the policy over the authorization facts
  exactly when the query of the bootstrap finds the vault; and what the bootstrap hands out then are unrevoked keys to
  that vault, of that user or, as long as the vault is not shared, of nobody in particular.
\<close>

theorem access_checks_agree:
  assumes ok: "directory_ok d"
  shows "(user_can_access_vault userId vaultId d \<longleftrightarrow> \<not> isl (get_vault_bootstrap userId vaultId d)) \<and>
    (\<forall>v ws. get_vault_bootstrap userId vaultId d = Inr (v, ws) \<longrightarrow> vr_id v = vaultId \<and> vr_deletedAt v = None \<and>
       (\<forall>w \<in> set ws. kw_vault w = vaultId \<and> kw_revokedAt w = None \<and> (kw_user w = Some userId \<or>
          (kw_user w = None \<and> (\<exists>x \<in> set (di_vaults d). va_id x = vaultId \<and> va_sharedAt x = None)))))"
proof -
  note keys = directory_okD(1)[OF ok, unfolded keys_ok_def]
  have "user_can_access_vault userId vaultId d \<longleftrightarrow> accessible_vault_row userId vaultId d \<noteq> None"
  proof
    assume "user_can_access_vault userId vaultId d"
    then obtain v g where v: "row_of va_id vaultId (di_vaults d) = Some v" "va_deletedAt v = None" "is_member (va_org v) userId d"
      and g: "grant_of vaultId userId d = Some g" "vm_status g = ''active''"
      unfolding can_access_iff by blast
    show "accessible_vault_row userId vaultId d \<noteq> None"
      using accessible_vault_rowI[of d v vaultId userId g] keys row_of_SomeD[OF v(1)] v(2,3) grant_ofD[OF g(1)] g(2) by simp
  next
    assume "accessible_vault_row userId vaultId d \<noteq> None"
    then obtain v where v: "accessible_vault_row userId vaultId d = Some v" by blast
    note a = accessible_vault_rowD[OF v]
    have "row_of va_id vaultId (di_vaults d) = Some v" using keys a row_of_keyed[of va_id "di_vaults d" v] by simp
    moreover obtain g where g: "g \<in> set (di_memberships d)" "vm_vault g = vaultId" "vm_user g = userId" "vm_status g = ''active''" using a by blast
    then have "grant_of vaultId userId d = Some g"
      using keys row_of_keyed[of membership_key "di_memberships d" g] by (simp add: grant_of_def membership_key_def)
    ultimately show "user_can_access_vault userId vaultId d" unfolding can_access_iff using a g(4) by blast
  qed
  then show ?thesis
    by (auto simp: get_vault_bootstrap_def read_vault_bootstrap_def to_vault_record_def dest!: accessible_vault_rowD split: option.splits)
qed

section \<open>Deletion\<close>




section \<open>Purge\<close>

definition mentions_vault :: "ident \<Rightarrow> directory \<Rightarrow> bool" where
  "mentions_vault vaultId d \<longleftrightarrow> (\<exists>v \<in> set (di_vaults d). va_id v = vaultId) \<or> (\<exists>m \<in> set (di_memberships d). vm_vault m = vaultId) \<or>
     (\<exists>w \<in> set (di_wrappers d). kw_vault w = vaultId) \<or> (\<exists>r \<in> set (di_requests d). kr_vault r = vaultId) \<or>
     (\<exists>r \<in> set (di_refreshes d). rf_vault r = vaultId)"

lemma purge_unmentions:
  assumes "\<exists>v \<in> set (di_vaults d). va_id v = vaultId"
  shows "\<not> mentions_vault vaultId (hard_delete_vault vaultId (mark_vault_purge_running vaultId d))"
proof -
  have "vaultId \<in> va_id ` set (di_vaults d)" using assms by auto
  then have "vaultId \<in> va_id ` set (di_vaults (mark_vault_purge_running vaultId d))"
    by (simp add: mark_vault_purge_running_def va_id_update_rows)
  then have "\<exists>v \<in> set (di_vaults (mark_vault_purge_running vaultId d)). va_id v = vaultId" by auto
  then show ?thesis by (auto simp: hard_delete_vault_def mentions_vault_def set_delete_rows)
qed

lemma purge_of_a_live_vault:
  \<comment> \<open>the purge does not ask whether the vault is marked as deleted\<close>
  assumes "live_vault vaultId d = Some v" "transport vaultId w = (Inr 200, w')"
  shows "live_vault vaultId (fst (snd (purge_vault_data transport vaultId (d, w)))) = None"
proof -
  have "\<exists>x \<in> set (di_vaults d). va_id x = vaultId" using live_vaultD[OF assms(1)] by blast
  from purge_unmentions[OF this] show ?thesis
    using assms(2) by (auto simp: purge_vault_data_def coordinator_purge_def Let_def mentions_vault_def live_vault_def find_None_iff)
qed

text \<open>
  A message of the purge queue is settled by its outcome. A valid message for a vault is acknowledged only if
  the vault's coordinator answered that it is purged, and then no table mentions the vault any more; if the
  coordinator fails, the message is retried and a vault marked as deleted stays so, with the failure noted.
  A message that is acknowledged without that is none of the queue's kind.
\<close>

theorem purge_message_settled:
  assumes exists: "\<exists>v \<in> set (di_vaults d). va_id v = pb_vault b" and valid: "pb_type b = ''vault_purge''" "js_trim (pb_vault b) \<noteq> []"
    and run: "handle_purge_message transport notices now (Some b) (d, w) = (settlement, d', w')"
  shows "case fst (coordinator_purge transport (pb_vault b) w) of
      Inr _ \<Rightarrow> \<not> mentions_vault (pb_vault b) d' \<and> (notices = None \<longrightarrow> settlement = Ack)
    | Inl msg \<Rightarrow> settlement = Retry \<and> (\<forall>v \<in> set (di_vaults d'). va_id v = pb_vault b \<and> va_deletedAt v \<noteq> None \<longrightarrow>
        va_purgeStatus v = Some ''failed'' \<and> va_purgeError v = Some msg)"
proof -
  obtain r w1 where c: "coordinator_purge transport (pb_vault b) w = (r, w1)" by fastforce
  show ?thesis
  proof (cases r)
    case (Inl msg)
    then show ?thesis using run valid c
      by (auto simp: handle_purge_message_def purge_vault_data_def Let_def mark_vault_purge_failed_def elim!: update_rowsE)
  next
    case (Inr u)
    have d': "d' = hard_delete_vault (pb_vault b) (mark_vault_purge_running (pb_vault b) d)" "notices = None \<longrightarrow> settlement = Ack"
      using run valid c Inr by (auto simp: handle_purge_message_def purge_vault_data_def Let_def split: option.splits if_splits prod.splits)
    show ?thesis using purge_unmentions[OF exists] d' by (simp add: c Inr)
  qed
qed

section \<open>Instances\<close>

definition example_vaults :: "nat vault_env" where
  \<comment> \<open>self hosted; the queue is down for the vault \<open>v\<close>\<close>
  "example_vaults = \<lparr>ve_policy = \<lparr>sc_selfHosted = True, sc_products = []\<rparr>, ve_clk = (\<lambda>_ _. 7), ve_uuid = (\<lambda>k. if k = 0 then ''v2'' else ''w2''),
     ve_canCreate = Some may_create_in_organization,
     ve_queue = (\<lambda>m s. (case m of Vault_purge v \<Rightarrow> if v = ''v'' then Inl ''down'' else Inr () | _ \<Rightarrow> Inr (), fst s, Suc (snd s)))\<rparr>"

theorem created_vault_fits_and_opens_witness:
  "case create_vault example_vaults ''alice'' ''more'' (''password'', example_envelope) None example_shared of
     (Inr v, d') \<Rightarrow> \<not> isl (get_vault_bootstrap ''alice'' (vr_id v) d') | _ \<Rightarrow> False"
proof -
  obtain res d' where run: "create_vault example_vaults ''alice'' ''more'' (''password'', example_envelope) None example_shared = (res, d')"
    by (meson surj_pair)
  have "\<not> isl (fst (create_vault example_vaults ''alice'' ''more'' (''password'', example_envelope) None example_shared))" by code_simp
  then obtain v where "res = Inr v" using run by (cases res) auto
  moreover from this have "\<exists>ws. get_vault_bootstrap ''alice'' (vr_id v) d' = Inr (v, ws)"
    using created_vault_fits_and_opens[OF example_shared_ok run] by blast
  ultimately show ?thesis by (auto simp: run)
qed

theorem access_checks_agree_witness:
  "user_can_access_vault ''bob'' ''v'' example_shared \<and> \<not> isl (get_vault_bootstrap ''bob'' ''v'' example_shared)"
proof -
  have "user_can_access_vault ''bob'' ''v'' example_shared" by code_simp
  then show ?thesis using access_checks_agree[OF example_shared_ok, of "''bob''" "''v''"] by simp
qed


theorem purge_message_settled_witness:
  "let r = handle_purge_message (\<lambda>v w. (Inr 200, Suc w)) None 9 (Some (purge_body_of (Vault_purge ''v''))) (example_shared, 0 :: nat)
   in fst r = Ack \<and> \<not> mentions_vault ''v'' (fst (snd r))"
proof -
  let ?b = "purge_body_of (Vault_purge ''v'')" and ?t = "\<lambda>(v :: ident) w :: nat. (Inr 200 :: string + int, Suc w)"
  obtain x d' w' where run: "handle_purge_message ?t None 9 (Some ?b) (example_shared, 0) = (x, d', w')" by (metis prod_cases3)
  have b: "pb_vault ?b = ''v''" "pb_type ?b = ''vault_purge''" "js_trim (pb_vault ?b) \<noteq> []" by code_simp+
  have "list_ex (\<lambda>v. va_id v = ''v'') (di_vaults example_shared)" by code_simp
  then have "\<exists>v \<in> set (di_vaults example_shared). va_id v = pb_vault ?b" by (simp add: b list_ex_iff)
  from purge_message_settled[OF this b(2,3) run] show ?thesis by (simp add: coordinator_purge_def b(1) run)
qed

end
