(* ===== verification/Message_Schemas.thy ===== *)
theory Message_Schemas
  imports Control_Messages Json "HOL-Library.Monad_Syntax"
begin

text \<open>
  \<open>adapters/inbound/websocket/protocol.ts\<close>: the schemas of the messages a client may send. They are
  declared with the library zod; a declaration is a value of the type \<open>schema\<close> here, and the library's
  \<open>safeParse\<close> is a parameter, of which only its documented meaning is relied on (\<open>zod_documented\<close>).
  The theorem says which messages get through: exactly the well-formed ones.
\<close>

section \<open>Schemas\<close>

datatype schema =
    Non_empty \<comment> \<open>\<open>z.string().trim().min(1)\<close>\<close>
  | Int_from int \<comment> \<open>\<open>z.number().int()\<close> with a minimum\<close>
  | Literal string
  | Enum "string list"
  | Nullable schema
  | Optional schema
  | Array schema nat nat \<comment> \<open>with the least and the greatest length\<close>
  | Object "(string \<times> schema) list"
  | Refined schema "json \<Rightarrow> bool" \<comment> \<open>\<open>superRefine\<close>\<close>
  | Tagged_union string "schema list" \<comment> \<open>\<open>z.discriminatedUnion\<close>\<close>

type_synonym issue = "string list \<times> string" \<comment> \<open>path and message\<close>
type_synonym zod = "schema \<Rightarrow> json \<Rightarrow> issue list + json"

fun omit :: "string list \<Rightarrow> schema \<Rightarrow> schema" where
  "omit keys (Object fs) = Object (filter (\<lambda>(k, _). k \<notin> set keys) fs)"
| "omit keys s = s"

definition non_negative_integer :: schema where "non_negative_integer = Int_from 0"
definition positive_integer :: schema where "positive_integer = Int_from 1"

definition blob_matches_op :: "json \<Rightarrow> bool" where
  \<comment> \<open>the refinement of \<open>commitMutationPayloadSchema\<close> adds no issue\<close>
  "blob_matches_op mutation \<longleftrightarrow>
     \<not> (property ''op'' mutation = Some (JString ''upsert'') \<and> property ''blobId'' mutation = Some JNull) \<and>
     \<not> (property ''op'' mutation = Some (JString ''delete'') \<and> property ''blobId'' mutation \<noteq> Some JNull)"

definition commit_mutation_payload_schema :: schema where
  "commit_mutation_payload_schema = Refined (Object
     [(''mutationId'', Non_empty), (''entryId'', Non_empty), (''op'', Enum [''upsert'', ''delete'']),
      (''baseRevision'', non_negative_integer), (''blobId'', Nullable Non_empty), (''encryptedMetadata'', Non_empty)])
     blob_matches_op"

definition request :: "string \<Rightarrow> (string \<times> schema) list \<Rightarrow> schema" where
  "request tag fs = Object ((''type'', Literal tag) # (''requestId'', Non_empty) # fs)"

definition notice :: "string \<Rightarrow> (string \<times> schema) list \<Rightarrow> schema" where
  "notice tag fs = Object ((''type'', Literal tag) # fs)"

definition hello_schema :: schema where
  "hello_schema = request ''hello'' [(''lastKnownCursor'', non_negative_integer)]"

definition commit_mutation_schema :: schema where
  "commit_mutation_schema = request ''commit_mutation'' [(''mutation'', commit_mutation_payload_schema)]"

definition commit_mutations_schema :: schema where
  "commit_mutations_schema = request ''commit_mutations'' [(''mutations'', Array commit_mutation_payload_schema 1 100)]"

definition entry_state_cursor_schema :: schema where
  "entry_state_cursor_schema = Object [(''updatedSeq'', non_negative_integer), (''entryId'', Non_empty)]"

definition list_entry_states_schema :: schema where
  "list_entry_states_schema = request ''list_entry_states''
     [(''sinceCursor'', non_negative_integer), (''targetCursor'', Nullable non_negative_integer),
      (''after'', Nullable entry_state_cursor_schema), (''limit'', positive_integer),
      (''entryIds'', Optional (Array Non_empty 1 100))]"

definition entry_version_cursor_schema :: schema where
  "entry_version_cursor_schema = Object [(''capturedAt'', non_negative_integer), (''versionId'', Non_empty)]"

definition deleted_entry_cursor_schema :: schema where
  "deleted_entry_cursor_schema = Object [(''deletedAt'', non_negative_integer), (''entryId'', Non_empty)]"

definition list_entry_versions_schema :: schema where
  "list_entry_versions_schema = request ''list_entry_versions''
     [(''entryId'', Non_empty), (''before'', Nullable entry_version_cursor_schema), (''limit'', positive_integer)]"

definition list_deleted_entries_schema :: schema where
  "list_deleted_entries_schema = request ''list_deleted_entries''
     [(''before'', Nullable deleted_entry_cursor_schema), (''limit'', positive_integer)]"

definition restore_entry_version_schema :: schema where
  "restore_entry_version_schema = request ''restore_entry_version''
     [(''entryId'', Non_empty), (''versionId'', Non_empty), (''baseRevision'', non_negative_integer),
      (''op'', Enum [''upsert'', ''delete'']), (''blobId'', Nullable Non_empty), (''encryptedMetadata'', Non_empty)]"

definition restore_entry_versions_schema :: schema where
  "restore_entry_versions_schema = request ''restore_entry_versions''
     [(''restores'', Array (omit [''type'', ''requestId''] restore_entry_version_schema) 1 100)]"

definition purge_deleted_entries_schema :: schema where
  "purge_deleted_entries_schema = request ''purge_deleted_entries''
     [(''entries'', Array (Object [(''entryId'', Non_empty), (''revision'', non_negative_integer)]) 1 100)]"

definition presence_position_schema :: schema where
  "presence_position_schema = Object [(''line'', non_negative_integer), (''ch'', non_negative_integer)]"

definition presence_selection_schema :: schema where
  "presence_selection_schema = Object [(''anchor'', presence_position_schema), (''head'', presence_position_schema)]"

definition presence_update_schema :: schema where
  "presence_update_schema = notice ''presence_update'' [(''entryId'', Non_empty), (''selection'', presence_selection_schema)]"

definition client_control_message_schema :: schema where
  "client_control_message_schema = Tagged_union ''type''
     [hello_schema, commit_mutations_schema, list_entry_states_schema, list_entry_versions_schema,
      list_deleted_entries_schema, restore_entry_version_schema, restore_entry_versions_schema,
      purge_deleted_entries_schema, request ''detach_local_vault'' [], request ''heartbeat'' [],
      notice ''watch_storage_status'' [], notice ''unwatch_storage_status'' [],
      notice ''watch_presence'' [(''entryIds'', Array Non_empty 0 100)], notice ''unwatch_presence'' [],
      presence_update_schema, notice ''presence_clear'' []]"

section \<open>The library\<close>

definition accepted :: "issue list + json \<Rightarrow> json option" where
  "accepted r = (case r of Inl _ \<Rightarrow> None | Inr d \<Rightarrow> Some d)"

fun tag_of :: "string \<Rightarrow> schema \<Rightarrow> string option" where
  "tag_of key (Object fs) = (case map_of fs key of Some (Literal t) \<Rightarrow> Some t | _ \<Rightarrow> None)"
| "tag_of key _ = None"

definition field_value :: "(schema \<Rightarrow> json \<Rightarrow> json option) \<Rightarrow> json \<Rightarrow> string \<times> schema \<Rightarrow> (string \<times> json) list option" where
  \<comment> \<open>what an object schema makes of one of its keys\<close>
  "field_value p v = (\<lambda>(key, s). case property key v of
      None \<Rightarrow> (case s of Optional _ \<Rightarrow> Some [] | _ \<Rightarrow> None)
    | Some x \<Rightarrow> map_option (\<lambda>d. [(key, d)]) (p s x))"

fun schema_step :: "(schema \<Rightarrow> json \<Rightarrow> json option) \<Rightarrow> schema \<Rightarrow> json \<Rightarrow> json option" where
  \<comment> \<open>the documented meaning of each constructor, given that of its parts\<close>
  "schema_step p Non_empty v = (case v of JString t \<Rightarrow> if js_trim t \<noteq> [] then Some (JString (js_trim t)) else None | _ \<Rightarrow> None)"
| "schema_step p (Int_from least) v = (case v of JInt n \<Rightarrow> if safe_integer n \<and> least \<le> n then Some v else None | _ \<Rightarrow> None)"
| "schema_step p (Literal t) v = (if v = JString t then Some v else None)"
| "schema_step p (Enum ts) v = (case v of JString t \<Rightarrow> if t \<in> set ts then Some v else None | _ \<Rightarrow> None)"
| "schema_step p (Nullable s) v = (if v = JNull then Some JNull else p s v)"
| "schema_step p (Optional s) v = p s v"
| "schema_step p (Array s least most) v = (case v of
     JArray xs \<Rightarrow> if least \<le> length xs \<and> length xs \<le> most then map_option JArray (those (map (p s) xs)) else None
   | _ \<Rightarrow> None)"
| "schema_step p (Object fs) v = (case v of
     JObject _ \<Rightarrow> map_option (\<lambda>ds. JObject (concat ds)) (those (map (field_value p v) fs)) | _ \<Rightarrow> None)"
| "schema_step p (Refined s check) v = (case p s v of Some d \<Rightarrow> if check d then Some d else None | None \<Rightarrow> None)"
| "schema_step p (Tagged_union key ss) v = (case property key v of
     Some (JString t) \<Rightarrow> (case List.find (\<lambda>s. tag_of key s = Some t) ss of None \<Rightarrow> None | Some s \<Rightarrow> p s v)
   | _ \<Rightarrow> None)"

definition zod_documented :: "zod \<Rightarrow> bool" where
  "zod_documented z \<longleftrightarrow> (\<forall>s v. accepted (z s v) = schema_step (\<lambda>s v. accepted (z s v)) s v)"

section \<open>Parsing a message\<close>

text \<open>The accepted value is used as a value of the declared type; these functions read it as one.\<close>

definition text_at :: "string \<Rightarrow> json \<Rightarrow> string option" where
  "text_at key v = as_string (property key v)"

definition number_at :: "string \<Rightarrow> json \<Rightarrow> int option" where
  "number_at key v = as_int (property key v)"

definition list_at :: "(json \<Rightarrow> 'a option) \<Rightarrow> string \<Rightarrow> json \<Rightarrow> 'a list option" where
  "list_at read key v = (case property key v of Some (JArray xs) \<Rightarrow> those (map read xs) | _ \<Rightarrow> None)"

definition nullable_at :: "(json \<Rightarrow> 'a option) \<Rightarrow> string \<Rightarrow> json \<Rightarrow> 'a option option" where
  "nullable_at read key v =
     (case property key v of None \<Rightarrow> None | Some x \<Rightarrow> if x = JNull then Some None else map_option Some (read x))"

definition op_at :: "string \<Rightarrow> json \<Rightarrow> op_type option" where
  "op_at key v = map_option (\<lambda>op. if op = ''upsert'' then Upsert else Delete) (text_at key v)"

definition text_of :: "json \<Rightarrow> string option" where "text_of v = as_string (Some v)"
definition number_of :: "json \<Rightarrow> int option" where "number_of v = as_int (Some v)"

definition pair_of :: "string \<Rightarrow> string \<Rightarrow> json \<Rightarrow> (int \<times> ident) option" where
  "pair_of number text v = do { n \<leftarrow> number_at number v; t \<leftarrow> text_at text v; Some (n, t) }"

definition mutation_of :: "json \<Rightarrow> mutation option" where
  "mutation_of v = do {
     mutationId \<leftarrow> text_at ''mutationId'' v; entryId \<leftarrow> text_at ''entryId'' v; op \<leftarrow> op_at ''op'' v;
     base \<leftarrow> number_at ''baseRevision'' v; blob \<leftarrow> nullable_at text_of ''blobId'' v;
     metadata \<leftarrow> text_at ''encryptedMetadata'' v;
     Some \<lparr>mu_id = mutationId, mu_entryId = entryId, mu_op = op, mu_base = base, mu_blob = blob, mu_metadata = metadata\<rparr> }"

definition restore_of :: "json \<Rightarrow> restore option" where
  "restore_of v = do {
     entryId \<leftarrow> text_at ''entryId'' v; versionId \<leftarrow> text_at ''versionId'' v; base \<leftarrow> number_at ''baseRevision'' v;
     op \<leftarrow> op_at ''op'' v; blob \<leftarrow> nullable_at text_of ''blobId'' v; metadata \<leftarrow> text_at ''encryptedMetadata'' v;
     Some \<lparr>rs_entryId = entryId, rs_versionId = versionId, rs_base = base, rs_op = op, rs_blob = blob, rs_metadata = metadata\<rparr> }"

definition position_of :: "json \<Rightarrow> presence_position option" where
  "position_of v = do { l \<leftarrow> number_at ''line'' v; c \<leftarrow> number_at ''ch'' v; Some \<lparr>pp_line = l, pp_ch = c\<rparr> }"

definition selection_of :: "json \<Rightarrow> presence_selection option" where
  "selection_of v = do {
     anchor \<leftarrow> property ''anchor'' v \<bind> position_of; head \<leftarrow> property ''head'' v \<bind> position_of;
     Some \<lparr>pn_anchor = anchor, pn_head = head\<rparr> }"

definition states_query_of :: "json \<Rightarrow> states_query option" where
  "states_query_of v = do {
     since \<leftarrow> number_at ''sinceCursor'' v; target \<leftarrow> nullable_at number_of ''targetCursor'' v;
     after \<leftarrow> nullable_at (pair_of ''updatedSeq'' ''entryId'') ''after'' v; limit \<leftarrow> number_at ''limit'' v;
     Some \<lparr>sq_since = since, sq_target = target, sq_after = after, sq_limit = limit,
       sq_entryIds = list_at text_of ''entryIds'' v\<rparr> }"

definition notice_of :: "string \<Rightarrow> json \<Rightarrow> client_message option" where
  "notice_of tag v =
     (if tag = ''watch_storage_status'' then Some Msg_watch_storage_status
      else if tag = ''unwatch_storage_status'' then Some Msg_unwatch_storage_status
      else if tag = ''watch_presence'' then map_option Msg_watch_presence (list_at text_of ''entryIds'' v)
      else if tag = ''unwatch_presence'' then Some Msg_unwatch_presence
      else if tag = ''presence_update''
      then do { e \<leftarrow> text_at ''entryId'' v; s \<leftarrow> property ''selection'' v \<bind> selection_of; Some (Msg_presence_update e s) }
      else if tag = ''presence_clear'' then Some Msg_presence_clear
      else None)"

definition request_from :: "string \<Rightarrow> ident \<Rightarrow> json \<Rightarrow> client_message option" where
  "request_from tag r v =
     (if tag = ''hello'' then map_option (Msg_hello r) (number_at ''lastKnownCursor'' v)
      else if tag = ''commit_mutations'' then map_option (Msg_commit_mutations r) (list_at mutation_of ''mutations'' v)
      else if tag = ''list_entry_states'' then map_option (Msg_list_entry_states r) (states_query_of v)
      else if tag = ''list_entry_versions''
      then do { e \<leftarrow> text_at ''entryId'' v; before \<leftarrow> nullable_at (pair_of ''capturedAt'' ''versionId'') ''before'' v;
                limit \<leftarrow> number_at ''limit'' v; Some (Msg_list_entry_versions r e before limit) }
      else if tag = ''list_deleted_entries''
      then do { before \<leftarrow> nullable_at (pair_of ''deletedAt'' ''entryId'') ''before'' v;
                limit \<leftarrow> number_at ''limit'' v; Some (Msg_list_deleted_entries r before limit) }
      else if tag = ''restore_entry_version'' then map_option (Msg_restore_entry_version r) (restore_of v)
      else if tag = ''restore_entry_versions'' then map_option (Msg_restore_entry_versions r) (list_at restore_of ''restores'' v)
      else if tag = ''purge_deleted_entries''
      then map_option (Msg_purge_deleted_entries r \<circ> map prod.swap) (list_at (pair_of ''revision'' ''entryId'') ''entries'' v)
      else if tag = ''detach_local_vault'' then Some (Msg_detach_local_vault r)
      else if tag = ''heartbeat'' then Some (Msg_heartbeat r)
      else None)"

definition read_message :: "json \<Rightarrow> client_message option" where
  "read_message v = do { tag \<leftarrow> text_at ''type'' v;
     case text_at ''requestId'' v of Some r \<Rightarrow> request_from tag r v | None \<Rightarrow> notice_of tag v }"

definition join_path :: "string list \<Rightarrow> string" where
  "join_path ks = concat (case ks of [] \<Rightarrow> [] | k # rest \<Rightarrow> k # concat (map (\<lambda>k. [''.'', k]) rest))"

definition format_client_control_message_error :: "issue list \<Rightarrow> string" where
  "format_client_control_message_error issues =
     (case issues of
        [] \<Rightarrow> ''invalid websocket message''
      | (path, message) # _ \<Rightarrow> (if path \<noteq> [] then join_path path @ '': '' else []) @ message)"

definition parse_client_control_message :: "zod \<Rightarrow> json \<Rightarrow> issue list + client_message option" where
  \<comment> \<open>the last option is empty only if an accepted value did not have the declared type\<close>
  "parse_client_control_message z v = map_sum id read_message (z client_control_message_schema v)"

section \<open>Well-formed messages\<close>

definition text_ok :: "string \<Rightarrow> bool" where
  "text_ok s \<longleftrightarrow> s \<noteq> [] \<and> js_trim s = s"

definition count_ok :: "int \<Rightarrow> bool" where
  "count_ok n \<longleftrightarrow> 0 \<le> n \<and> n \<le> max_safe_integer"

definition batch_ok :: "('a \<Rightarrow> bool) \<Rightarrow> 'a list \<Rightarrow> bool" where
  "batch_ok ok xs \<longleftrightarrow> xs \<noteq> [] \<and> length xs \<le> 100 \<and> (\<forall>x \<in> set xs. ok x)"

definition cursor_ok :: "(int \<times> ident) option \<Rightarrow> bool" where
  "cursor_ok c \<longleftrightarrow> pred_option (\<lambda>(n, t). count_ok n \<and> text_ok t) c"

definition mutation_ok :: "mutation \<Rightarrow> bool" where
  "mutation_ok m \<longleftrightarrow> text_ok (mu_id m) \<and> text_ok (mu_entryId m) \<and> count_ok (mu_base m) \<and>
     pred_option text_ok (mu_blob m) \<and> text_ok (mu_metadata m) \<and> (mu_op m = Upsert \<longleftrightarrow> mu_blob m \<noteq> None)"

definition restore_ok :: "restore \<Rightarrow> bool" where
  "restore_ok r \<longleftrightarrow> text_ok (rs_entryId r) \<and> text_ok (rs_versionId r) \<and> count_ok (rs_base r) \<and>
     pred_option text_ok (rs_blob r) \<and> text_ok (rs_metadata r)"

definition position_ok :: "presence_position \<Rightarrow> bool" where
  "position_ok p \<longleftrightarrow> count_ok (pp_line p) \<and> count_ok (pp_ch p)"

definition limit_ok :: "int \<Rightarrow> bool" where
  "limit_ok n \<longleftrightarrow> 1 \<le> n \<and> n \<le> max_safe_integer"

fun message_ok :: "client_message \<Rightarrow> bool" where
  "message_ok (Msg_hello r n) \<longleftrightarrow> text_ok r \<and> count_ok n"
| "message_ok (Msg_commit_mutation r m) \<longleftrightarrow> False"
| "message_ok (Msg_commit_mutations r ms) \<longleftrightarrow> text_ok r \<and> batch_ok mutation_ok ms"
| "message_ok (Msg_list_entry_states r q) \<longleftrightarrow> text_ok r \<and> count_ok (sq_since q) \<and> pred_option count_ok (sq_target q) \<and>
     cursor_ok (sq_after q) \<and> limit_ok (sq_limit q) \<and> pred_option (batch_ok text_ok) (sq_entryIds q)"
| "message_ok (Msg_list_entry_versions r e before limit) \<longleftrightarrow> text_ok r \<and> text_ok e \<and> cursor_ok before \<and> limit_ok limit"
| "message_ok (Msg_list_deleted_entries r before limit) \<longleftrightarrow> text_ok r \<and> cursor_ok before \<and> limit_ok limit"
| "message_ok (Msg_restore_entry_version r x) \<longleftrightarrow> text_ok r \<and> restore_ok x"
| "message_ok (Msg_restore_entry_versions r xs) \<longleftrightarrow> text_ok r \<and> batch_ok restore_ok xs"
| "message_ok (Msg_purge_deleted_entries r es) \<longleftrightarrow> text_ok r \<and> batch_ok (\<lambda>(e, n). text_ok e \<and> count_ok n) es"
| "message_ok (Msg_detach_local_vault r) \<longleftrightarrow> text_ok r"
| "message_ok (Msg_heartbeat r) \<longleftrightarrow> text_ok r"
| "message_ok (Msg_watch_presence es) \<longleftrightarrow> length es \<le> 100 \<and> (\<forall>e \<in> set es. text_ok e)"
| "message_ok (Msg_presence_update e s) \<longleftrightarrow> text_ok e \<and> position_ok (pn_anchor s) \<and> position_ok (pn_head s)"
| "message_ok _ \<longleftrightarrow> True"

section \<open>What each schema admits\<close>

definition admits :: "zod \<Rightarrow> schema \<Rightarrow> json \<Rightarrow> json option" where
  "admits z s v = accepted (z s v)"

lemma admits_step: "zod_documented z \<Longrightarrow> admits z s v = schema_step (admits z) s v"
  unfolding zod_documented_def admits_def[abs_def] by blast

lemma admits_non_empty:
  "zod_documented z \<Longrightarrow> admits z Non_empty v = Some d \<longleftrightarrow> (\<exists>t. v = JString t \<and> text_ok (js_trim t) \<and> d = JString (js_trim t))"
  by (subst admits_step) (auto simp: text_ok_def split: json.split)

lemma admits_int:
  "zod_documented z \<Longrightarrow> admits z (Int_from least) v = Some d \<longleftrightarrow> (\<exists>n. v = JInt n \<and> safe_integer n \<and> least \<le> n \<and> d = v)"
  by (subst admits_step) (auto split: json.split)

lemma admits_literal: "zod_documented z \<Longrightarrow> admits z (Literal t) v = Some d \<longleftrightarrow> v = JString t \<and> d = v"
  by (subst admits_step) auto

lemma admits_enum: "zod_documented z \<Longrightarrow> admits z (Enum ts) v = Some d \<longleftrightarrow> (\<exists>t. v = JString t \<and> t \<in> set ts \<and> d = v)"
  by (subst admits_step) (auto split: json.split)

lemma admits_nullable:
  "zod_documented z \<Longrightarrow> admits z (Nullable s) v = Some d \<longleftrightarrow> (v = JNull \<and> d = JNull) \<or> (v \<noteq> JNull \<and> admits z s v = Some d)"
  by (subst admits_step) auto

lemma admits_optional: "zod_documented z \<Longrightarrow> admits z (Optional s) v = admits z s v"
  by (subst admits_step) simp_all

lemma admits_array:
  "zod_documented z \<Longrightarrow> admits z (Array s least most) v = Some d \<longleftrightarrow>
     (\<exists>xs ds. v = JArray xs \<and> least \<le> length xs \<and> length xs \<le> most \<and> those (map (admits z s) xs) = Some ds \<and> d = JArray ds)"
  by (subst admits_step) (auto split: json.split)

lemma admits_object:
  "zod_documented z \<Longrightarrow> admits z (Object fs) v = Some d \<longleftrightarrow>
     (\<exists>ps ds. v = JObject ps \<and> those (map (field_value (admits z) v) fs) = Some ds \<and> d = JObject (concat ds))"
  by (subst admits_step) (auto split: json.split)

lemma admits_refined: "zod_documented z \<Longrightarrow> admits z (Refined s check) v = Some d \<longleftrightarrow> admits z s v = Some d \<and> check d"
  by (subst admits_step) (auto split: option.split)

lemmas admits_simps = admits_non_empty admits_int admits_literal admits_enum admits_nullable admits_optional
  admits_array admits_object admits_refined

lemma those_Cons: "those (x # xs) = Some ys \<longleftrightarrow> (\<exists>a b. x = Some a \<and> those xs = Some b \<and> ys = a # b)"
  by (auto split: option.split)

lemma field_required: "(\<forall>s'. s \<noteq> Optional s') \<Longrightarrow> field_value p v (key, s) = Some ps \<longleftrightarrow>
    (\<exists>x d. property key v = Some x \<and> p s x = Some d \<and> ps = [(key, d)])"
  by (auto simp: field_value_def split: option.split schema.split)

lemma field_optional: "field_value p v (key, Optional s) = Some ps \<longleftrightarrow>
    (property key v = None \<and> ps = []) \<or> (\<exists>x d. property key v = Some x \<and> p (Optional s) x = Some d \<and> ps = [(key, d)])"
  by (auto simp: field_value_def split: option.split)

lemma those_Nil: "those [] = Some ys \<longleftrightarrow> ys = []"
  by auto

lemmas field_simps = those_Nil those_Cons field_required field_optional

lemma those_read:
  assumes "\<And>x d. f x = Some d \<Longrightarrow> \<exists>m. read d = Some m \<and> ok m" "those (map f xs) = Some ds"
  shows "\<exists>ms. those (map read ds) = Some ms \<and> (\<forall>m \<in> set ms. ok m) \<and> length ms = length xs"
  using assms(2)
proof (induction xs arbitrary: ds)
  case (Cons x xs)
  then obtain d ds' where d: "f x = Some d" "those (map f xs) = Some ds'" "ds = d # ds'" by (auto simp: those_Cons simp del: those.simps)
  then show ?case using assms(1)[OF d(1)] Cons.IH[OF d(2)] by force
qed simp

lemma count_ok_iff: "count_ok n \<longleftrightarrow> safe_integer n \<and> 0 \<le> n"
  by (auto simp: count_ok_def safe_integer_def)

lemma limit_ok_iff: "limit_ok n \<longleftrightarrow> safe_integer n \<and> 1 \<le> n"
  by (auto simp: limit_ok_def safe_integer_def)

lemmas reads = text_at_def number_at_def list_at_def nullable_at_def op_at_def pair_of_def text_of_def number_of_def
  property_def

section \<open>Accepted parts\<close>

lemma text_accepted: "zod_documented z \<Longrightarrow> admits z Non_empty v = Some d \<Longrightarrow> \<exists>t. text_of d = Some t \<and> text_ok t"
  by (auto simp: admits_simps text_of_def)

lemma mutation_accepted:
  assumes z: "zod_documented z" and d: "admits z commit_mutation_payload_schema v = Some d"
  shows "\<exists>m. mutation_of d = Some m \<and> mutation_ok m"
  using d unfolding commit_mutation_payload_schema_def non_negative_integer_def
  by (auto simp: admits_simps[OF z] field_simps mutation_of_def mutation_ok_def reads blob_matches_op_def count_ok_iff
      simp del: those.simps)

lemma restore_accepted:
  assumes z: "zod_documented z" and d: "admits z (omit [''type'', ''requestId''] restore_entry_version_schema) v = Some d"
  shows "\<exists>r. restore_of d = Some r \<and> restore_ok r"
  using d unfolding restore_entry_version_schema_def request_def non_negative_integer_def
  by (auto simp: admits_simps[OF z] field_simps restore_of_def restore_ok_def reads count_ok_iff simp del: those.simps)

lemma pair_accepted:
  assumes z: "zod_documented z" and d: "admits z (Object [(number, Int_from 0), (text, Non_empty)]) v = Some d" "number \<noteq> text"
  shows "\<exists>c. pair_of number text d = Some c \<and> cursor_ok (Some c)"
  using d by (auto simp: admits_simps[OF z] field_simps reads count_ok_iff cursor_ok_def simp del: those.simps)

lemma cursor_accepted:
  assumes z: "zod_documented z" and p: "property key v = Some x"
    and d: "admits z (Nullable (Object [(number, Int_from 0), (text, Non_empty)])) x = Some y" "number \<noteq> text"
    and q: "property key d = Some y"
  shows "\<exists>c. nullable_at (pair_of number text) key d = Some c \<and> cursor_ok c"
proof (cases "x = JNull")
  case True
  then show ?thesis using d q by (simp add: admits_nullable[OF z] nullable_at_def cursor_ok_def)
next
  case False
  then have y: "admits z (Object [(number, Int_from 0), (text, Non_empty)]) x = Some y" using d(1) by (simp add: admits_nullable[OF z])
  then have "y \<noteq> JNull" by (auto simp: admits_object[OF z])
  then show ?thesis using pair_accepted[OF z y d(2)] q by (auto simp: nullable_at_def)
qed

lemma entry_accepted:
  assumes z: "zod_documented z" and d: "admits z (Object [(''entryId'', Non_empty), (''revision'', Int_from 0)]) v = Some d"
  shows "\<exists>c. pair_of ''revision'' ''entryId'' d = Some c \<and> count_ok (fst c) \<and> text_ok (snd c)"
  using d by (auto simp: admits_simps[OF z] field_simps reads count_ok_iff simp del: those.simps)

lemma selection_accepted:
  assumes z: "zod_documented z" and d: "admits z presence_selection_schema v = Some d"
  shows "\<exists>s. selection_of d = Some s \<and> position_ok (pn_anchor s) \<and> position_ok (pn_head s)"
  using d unfolding presence_selection_schema_def presence_position_schema_def non_negative_integer_def
  by (auto simp: admits_simps[OF z] field_simps reads selection_of_def position_of_def position_ok_def count_ok_iff simp del: those.simps)

lemma batch_accepted:
  assumes z: "zod_documented z" and each: "\<And>x d. admits z s x = Some d \<Longrightarrow> \<exists>m. read d = Some m \<and> ok m"
    and d: "admits z (Array s least most) x = Some y" and q: "property key d = Some y"
  shows "\<exists>ms. list_at read key d = Some ms \<and> (\<forall>m \<in> set ms. ok m) \<and> least \<le> length ms \<and> length ms \<le> most"
proof -
  obtain xs ds where x: "x = JArray xs" "least \<le> length xs" "length xs \<le> most"
      and ds: "those (map (admits z s) xs) = Some ds" "y = JArray ds"
    using d by (auto simp: admits_array[OF z])
  have "\<exists>ms. those (map read ds) = Some ms \<and> (\<forall>m \<in> set ms. ok m) \<and> length ms = length xs"
    using ds(1) by (rule those_read[rotated]) (rule each)
  then show ?thesis using x ds(2) q by (auto simp: list_at_def)
qed

section \<open>Accepted messages\<close>

definition reads_well :: "json \<Rightarrow> bool" where
  "reads_well d \<longleftrightarrow> (\<exists>m. read_message d = Some m \<and> message_ok m)"

lemma request_admits:
  assumes z: "zod_documented z"
  shows "admits z (request tag fs) v = Some d \<longleftrightarrow>
    (\<exists>ps t ds. v = JObject ps \<and> property ''type'' v = Some (JString tag) \<and>
       property ''requestId'' v = Some (JString t) \<and> text_ok (js_trim t) \<and>
       those (map (field_value (admits z) v) fs) = Some ds \<and>
       d = JObject ((''type'', JString tag) # (''requestId'', JString (js_trim t)) # concat ds))"
  unfolding request_def by (auto simp: admits_object[OF z] field_simps admits_simps[OF z] simp del: those.simps)

lemma notice_admits:
  assumes z: "zod_documented z"
  shows "admits z (notice tag fs) v = Some d \<longleftrightarrow>
    (\<exists>ps ds. v = JObject ps \<and> property ''type'' v = Some (JString tag) \<and>
       those (map (field_value (admits z) v) fs) = Some ds \<and> d = JObject ((''type'', JString tag) # concat ds))"
  unfolding notice_def by (auto simp: admits_object[OF z] field_simps admits_simps[OF z] simp del: those.simps)

lemma read_message_request:
  "read_message (JObject ((''type'', JString tag) # (''requestId'', JString r) # ps)) =
     request_from tag r (JObject ((''type'', JString tag) # (''requestId'', JString r) # ps))"
  by (simp add: read_message_def text_at_def property_def)

lemma read_message_notice:
  "map_of ps ''requestId'' = None \<Longrightarrow>
   read_message (JObject ((''type'', JString tag) # ps)) = notice_of tag (JObject ((''type'', JString tag) # ps))"
  by (simp add: read_message_def text_at_def property_def)

lemma hello_accepted: "zod_documented z \<Longrightarrow> admits z hello_schema v = Some d \<Longrightarrow> reads_well d"
  unfolding hello_schema_def non_negative_integer_def
  by (auto simp: request_admits admits_simps field_simps reads_well_def read_message_request request_from_def reads count_ok_iff
      simp del: those.simps)

lemma plain_requests_accepted:
  "zod_documented z \<Longrightarrow> admits z (request ''detach_local_vault'' []) v = Some d \<Longrightarrow> reads_well d"
  "zod_documented z \<Longrightarrow> admits z (request ''heartbeat'' []) v = Some d \<Longrightarrow> reads_well d"
  by (auto simp: request_admits reads_well_def read_message_request request_from_def)

lemma plain_notices_accepted:
  assumes "zod_documented z" "admits z (notice tag []) v = Some d"
    "tag \<in> {''watch_storage_status'', ''unwatch_storage_status'', ''unwatch_presence'', ''presence_clear''}"
  shows "reads_well d"
  using assms by (auto simp: notice_admits reads_well_def read_message_notice notice_of_def)

lemma batches_accepted:
  assumes z: "zod_documented z"
  shows "admits z commit_mutations_schema v = Some d \<Longrightarrow> reads_well d"
    "admits z restore_entry_versions_schema v = Some d \<Longrightarrow> reads_well d"
    "admits z purge_deleted_entries_schema v = Some d \<Longrightarrow> reads_well d"
    "admits z (notice ''watch_presence'' [(''entryIds'', Array Non_empty 0 100)]) v = Some d \<Longrightarrow> reads_well d"
proof -
  assume "admits z commit_mutations_schema v = Some d"
  then obtain t x y where d: "d = JObject [(''type'', JString ''commit_mutations''), (''requestId'', JString (js_trim t)), (''mutations'', y)]"
      "text_ok (js_trim t)" "admits z (Array commit_mutation_payload_schema 1 100) x = Some y"
    unfolding commit_mutations_schema_def by (auto simp: request_admits[OF z] field_simps simp del: those.simps)
  have "property ''mutations'' d = Some y" by (simp add: d(1) property_def)
  then have "\<exists>ms. list_at mutation_of ''mutations'' d = Some ms \<and> (\<forall>m \<in> set ms. mutation_ok m) \<and> 1 \<le> length ms \<and> length ms \<le> 100"
    by (intro batch_accepted[OF z _ d(3)]) (auto dest: mutation_accepted[OF z])
  then show "reads_well d" using d(1,2)
    by (auto simp: reads_well_def read_message_request request_from_def batch_ok_def)
next
  assume "admits z restore_entry_versions_schema v = Some d"
  then obtain t x y where d: "d = JObject [(''type'', JString ''restore_entry_versions''), (''requestId'', JString (js_trim t)), (''restores'', y)]"
      "text_ok (js_trim t)" "admits z (Array (omit [''type'', ''requestId''] restore_entry_version_schema) 1 100) x = Some y"
    unfolding restore_entry_versions_schema_def by (auto simp: request_admits[OF z] field_simps simp del: those.simps omit.simps)
  have "property ''restores'' d = Some y" by (simp add: d(1) property_def)
  then have "\<exists>ms. list_at restore_of ''restores'' d = Some ms \<and> (\<forall>m \<in> set ms. restore_ok m) \<and> 1 \<le> length ms \<and> length ms \<le> 100"
    by (intro batch_accepted[OF z _ d(3)]) (auto dest: restore_accepted[OF z])
  then show "reads_well d" using d(1,2)
    by (auto simp: reads_well_def read_message_request request_from_def batch_ok_def)
next
  assume "admits z purge_deleted_entries_schema v = Some d"
  then obtain t x y where d: "d = JObject [(''type'', JString ''purge_deleted_entries''), (''requestId'', JString (js_trim t)), (''entries'', y)]"
      "text_ok (js_trim t)" "admits z (Array (Object [(''entryId'', Non_empty), (''revision'', Int_from 0)]) 1 100) x = Some y"
    unfolding purge_deleted_entries_schema_def non_negative_integer_def
    by (auto simp: request_admits[OF z] field_simps simp del: those.simps)
  have "property ''entries'' d = Some y" by (simp add: d(1) property_def)
  then have "\<exists>ms. list_at (pair_of ''revision'' ''entryId'') ''entries'' d = Some ms \<and> (\<forall>m \<in> set ms. (\<lambda>c. count_ok (fst c) \<and> text_ok (snd c)) m) \<and> 1 \<le> length ms \<and> length ms \<le> 100"
    by (intro batch_accepted[OF z _ d(3)]) (auto dest: entry_accepted[OF z])
  then show "reads_well d" using d(1,2)
    by (fastforce simp: reads_well_def read_message_request request_from_def batch_ok_def)
next
  assume "admits z (notice ''watch_presence'' [(''entryIds'', Array Non_empty 0 100)]) v = Some d"
  then obtain x y where d: "d = JObject [(''type'', JString ''watch_presence''), (''entryIds'', y)]"
      "admits z (Array Non_empty 0 100) x = Some y"
    by (auto simp: notice_admits[OF z] field_simps simp del: those.simps)
  have "property ''entryIds'' d = Some y" by (simp add: d(1) property_def)
  then have "\<exists>ms. list_at text_of ''entryIds'' d = Some ms \<and> (\<forall>m \<in> set ms. text_ok m) \<and> 0 \<le> length ms \<and> length ms \<le> 100"
    by (intro batch_accepted[OF z _ d(2)]) (auto dest: text_accepted[OF z])
  then show "reads_well d" using d(1,2)
    by (auto simp: reads_well_def read_message_notice notice_of_def)
qed

lemma update_accepted:
  assumes z: "zod_documented z" and d: "admits z presence_update_schema v = Some d"
  shows "reads_well d"
proof -
  obtain t x y where d: "d = JObject [(''type'', JString ''presence_update''), (''entryId'', JString (js_trim t)), (''selection'', y)]"
      "text_ok (js_trim t)" "admits z presence_selection_schema x = Some y"
    using d unfolding presence_update_schema_def
    by (auto simp: notice_admits[OF z] field_simps admits_non_empty[OF z] presence_selection_schema_def simp del: those.simps)
  show ?thesis using selection_accepted[OF z d(3)] d(1,2)
    by (auto simp: reads_well_def read_message_notice notice_of_def reads)
qed

lemma restore_message_accepted:
  assumes z: "zod_documented z" and d: "admits z restore_entry_version_schema v = Some d"
  shows "reads_well d"
  using d unfolding restore_entry_version_schema_def non_negative_integer_def
  by (auto simp: request_admits[OF z] admits_simps[OF z] field_simps reads_well_def read_message_request request_from_def
      restore_of_def restore_ok_def reads count_ok_iff simp del: those.simps)

lemma listings_accepted:
  assumes z: "zod_documented z"
  shows "admits z list_entry_versions_schema v = Some d \<Longrightarrow> reads_well d"
    "admits z list_deleted_entries_schema v = Some d \<Longrightarrow> reads_well d"
proof -
  assume "admits z list_entry_versions_schema v = Some d"
  then obtain t e x y n where d: "d = JObject [(''type'', JString ''list_entry_versions''), (''requestId'', JString (js_trim t)),
        (''entryId'', JString (js_trim e)), (''before'', y), (''limit'', JInt n)]"
      "text_ok (js_trim t)" "text_ok (js_trim e)" "limit_ok n" "property ''before'' v = Some x"
      "admits z (Nullable (Object [(''capturedAt'', Int_from 0), (''versionId'', Non_empty)])) x = Some y"
    unfolding list_entry_versions_schema_def entry_version_cursor_schema_def non_negative_integer_def positive_integer_def
    by (auto simp: request_admits[OF z] field_simps admits_non_empty[OF z] admits_int[OF z] limit_ok_iff simp del: those.simps)
  have "\<exists>c. nullable_at (pair_of ''capturedAt'' ''versionId'') ''before'' d = Some c \<and> cursor_ok c"
    by (rule cursor_accepted[OF z d(5,6)]) (simp_all add: d(1) property_def)
  then show "reads_well d" using d(1-4)
    by (auto simp: reads_well_def read_message_request request_from_def text_at_def number_at_def property_def)
next
  assume "admits z list_deleted_entries_schema v = Some d"
  then obtain t x y n where d: "d = JObject [(''type'', JString ''list_deleted_entries''), (''requestId'', JString (js_trim t)),
        (''before'', y), (''limit'', JInt n)]" "text_ok (js_trim t)" "limit_ok n" "property ''before'' v = Some x"
      "admits z (Nullable (Object [(''deletedAt'', Int_from 0), (''entryId'', Non_empty)])) x = Some y"
    unfolding list_deleted_entries_schema_def deleted_entry_cursor_schema_def non_negative_integer_def positive_integer_def
    by (auto simp: request_admits[OF z] field_simps admits_int[OF z] limit_ok_iff simp del: those.simps)
  have "\<exists>c. nullable_at (pair_of ''deletedAt'' ''entryId'') ''before'' d = Some c \<and> cursor_ok c"
    by (rule cursor_accepted[OF z d(4,5)]) (simp_all add: d(1) property_def)
  then show "reads_well d" using d(1-3)
    by (auto simp: reads_well_def read_message_request request_from_def number_at_def property_def)
qed

lemma entry_states_accepted:
  assumes z: "zod_documented z" and d: "admits z list_entry_states_schema v = Some d"
  shows "reads_well d"
proof -
  obtain t since x y target target' n rest where d: "d = JObject ([(''type'', JString ''list_entry_states''), (''requestId'', JString (js_trim t)),
        (''sinceCursor'', JInt since), (''targetCursor'', target), (''after'', y), (''limit'', JInt n)] @ rest)"
      "text_ok (js_trim t)" "count_ok since" "limit_ok n" "property ''after'' v = Some x"
      "admits z (Nullable (Object [(''updatedSeq'', Int_from 0), (''entryId'', Non_empty)])) x = Some y"
      "admits z (Nullable (Int_from 0)) target' = Some target"
      "field_value (admits z) v (''entryIds'', Optional (Array Non_empty 1 100)) = Some rest"
    using d unfolding list_entry_states_schema_def entry_state_cursor_schema_def non_negative_integer_def positive_integer_def
    by (auto simp: request_admits[OF z] those_Nil those_Cons field_required admits_int[OF z] limit_ok_iff count_ok_iff simp del: those.simps)
  have "\<exists>c. nullable_at (pair_of ''updatedSeq'' ''entryId'') ''after'' d = Some c \<and> cursor_ok c"
    by (rule cursor_accepted[OF z d(5,6)]) (simp_all add: d(1) property_def)
  moreover have "\<exists>c. nullable_at number_of ''targetCursor'' d = Some c \<and> pred_option count_ok c"
    using d(7) unfolding d(1) by (auto simp: admits_nullable[OF z] admits_int[OF z] nullable_at_def property_def number_of_def count_ok_iff)
  moreover have "pred_option (batch_ok text_ok) (list_at text_of ''entryIds'' d)"
  proof (cases "rest = []")
    case True
    then show ?thesis unfolding d(1) by (simp add: list_at_def property_def)
  next
    case False
    then obtain e w where rest: "rest = [(''entryIds'', e)]" "admits z (Array Non_empty 1 100) w = Some e"
      using d(8) by (auto simp: field_optional admits_optional[OF z])
    then have "property ''entryIds'' d = Some e" unfolding d(1) by (simp add: property_def)
    then have "\<exists>ms. list_at text_of ''entryIds'' d = Some ms \<and> (\<forall>m \<in> set ms. text_ok m) \<and> 1 \<le> length ms \<and> length ms \<le> 100"
      by (intro batch_accepted[OF z _ rest(2)]) (auto dest: text_accepted[OF z])
    then show ?thesis by (auto simp: batch_ok_def)
  qed
  ultimately show ?thesis using d(2-4) unfolding d(1)
    by (auto simp: reads_well_def read_message_request request_from_def states_query_of_def number_at_def property_def)
qed

lemma union_admits:
  assumes z: "zod_documented z" and d: "admits z (Tagged_union key ss) v = Some d"
  shows "\<exists>s \<in> set ss. admits z s v = Some d"
  using d by (subst (asm) admits_step[OF z]) (auto split: option.splits json.splits simp: find_Some_iff)

lemma messages_accepted:
  assumes z: "zod_documented z" and d: "admits z client_control_message_schema v = Some d"
  shows "reads_well d"
proof -
  have "\<forall>s \<in> set [hello_schema, commit_mutations_schema, list_entry_states_schema, list_entry_versions_schema,
      list_deleted_entries_schema, restore_entry_version_schema, restore_entry_versions_schema,
      purge_deleted_entries_schema, request ''detach_local_vault'' [], request ''heartbeat'' [],
      notice ''watch_storage_status'' [], notice ''unwatch_storage_status'' [],
      notice ''watch_presence'' [(''entryIds'', Array Non_empty 0 100)], notice ''unwatch_presence'' [],
      presence_update_schema, notice ''presence_clear'' []]. admits z s v = Some d \<longrightarrow> reads_well d"
    unfolding list.set ball_simps(5,7)
    by (intro conjI impI TrueI; (erule hello_accepted[OF z] batches_accepted[OF z] entry_states_accepted[OF z] listings_accepted[OF z]
      restore_message_accepted[OF z] plain_requests_accepted[OF z] update_accepted[OF z] | (erule plain_notices_accepted[OF z], simp)))
  then show ?thesis using union_admits[OF z d[unfolded client_control_message_schema_def]] by blast
qed

section \<open>Every well-formed message is accepted as it is\<close>

definition text_or_null :: "string option \<Rightarrow> json" where
  "text_or_null v = (case v of None \<Rightarrow> JNull | Some t \<Rightarrow> JString t)"

definition op_json :: "op_type \<Rightarrow> json" where
  "op_json op = JString (case op of Upsert \<Rightarrow> ''upsert'' | Delete \<Rightarrow> ''delete'')"

definition mutation_json :: "mutation \<Rightarrow> json" where
  "mutation_json m = JObject
     [(''mutationId'', JString (mu_id m)), (''entryId'', JString (mu_entryId m)), (''op'', op_json (mu_op m)),
      (''baseRevision'', JInt (mu_base m)), (''blobId'', text_or_null (mu_blob m)), (''encryptedMetadata'', JString (mu_metadata m))]"

definition restore_fields :: "restore \<Rightarrow> (string \<times> json) list" where
  "restore_fields r =
     [(''entryId'', JString (rs_entryId r)), (''versionId'', JString (rs_versionId r)), (''baseRevision'', JInt (rs_base r)),
      (''op'', op_json (rs_op r)), (''blobId'', text_or_null (rs_blob r)), (''encryptedMetadata'', JString (rs_metadata r))]"

definition cursor_json :: "string \<Rightarrow> string \<Rightarrow> (int \<times> ident) option \<Rightarrow> json" where
  "cursor_json number text c =
     (case c of None \<Rightarrow> JNull | Some (n, t) \<Rightarrow> JObject [(number, JInt n), (text, JString t)])"

definition position_json :: "presence_position \<Rightarrow> json" where
  "position_json p = JObject [(''line'', JInt (pp_line p)), (''ch'', JInt (pp_ch p))]"

definition selection_json :: "presence_selection \<Rightarrow> json" where
  "selection_json s = JObject [(''anchor'', position_json (pn_anchor s)), (''head'', position_json (pn_head s))]"

definition request_json :: "string \<Rightarrow> ident \<Rightarrow> (string \<times> json) list \<Rightarrow> json" where
  "request_json tag r ps = JObject ((''type'', JString tag) # (''requestId'', JString r) # ps)"

definition notice_json :: "string \<Rightarrow> (string \<times> json) list \<Rightarrow> json" where
  "notice_json tag ps = JObject ((''type'', JString tag) # ps)"

fun message_json :: "client_message \<Rightarrow> json" where
  \<comment> \<open>a message as a client writes it\<close>
  "message_json (Msg_hello r n) = request_json ''hello'' r [(''lastKnownCursor'', JInt n)]"
| "message_json (Msg_commit_mutation r m) = request_json ''commit_mutation'' r [(''mutation'', mutation_json m)]"
| "message_json (Msg_commit_mutations r ms) =
     request_json ''commit_mutations'' r [(''mutations'', JArray (map mutation_json ms))]"
| "message_json (Msg_list_entry_states r q) = request_json ''list_entry_states'' r
     ([(''sinceCursor'', JInt (sq_since q)), (''targetCursor'', case sq_target q of None \<Rightarrow> JNull | Some n \<Rightarrow> JInt n),
       (''after'', cursor_json ''updatedSeq'' ''entryId'' (sq_after q)), (''limit'', JInt (sq_limit q))] @
      (case sq_entryIds q of None \<Rightarrow> [] | Some es \<Rightarrow> [(''entryIds'', JArray (map JString es))]))"
| "message_json (Msg_list_entry_versions r e before limit) = request_json ''list_entry_versions'' r
     [(''entryId'', JString e), (''before'', cursor_json ''capturedAt'' ''versionId'' before), (''limit'', JInt limit)]"
| "message_json (Msg_list_deleted_entries r before limit) = request_json ''list_deleted_entries'' r
     [(''before'', cursor_json ''deletedAt'' ''entryId'' before), (''limit'', JInt limit)]"
| "message_json (Msg_restore_entry_version r x) = request_json ''restore_entry_version'' r (restore_fields x)"
| "message_json (Msg_restore_entry_versions r xs) =
     request_json ''restore_entry_versions'' r [(''restores'', JArray (map (\<lambda>x. JObject (restore_fields x)) xs))]"
| "message_json (Msg_purge_deleted_entries r es) = request_json ''purge_deleted_entries'' r
     [(''entries'', JArray (map (\<lambda>(e, n). JObject [(''entryId'', JString e), (''revision'', JInt n)]) es))]"
| "message_json (Msg_detach_local_vault r) = request_json ''detach_local_vault'' r []"
| "message_json (Msg_heartbeat r) = request_json ''heartbeat'' r []"
| "message_json Msg_watch_storage_status = notice_json ''watch_storage_status'' []"
| "message_json Msg_unwatch_storage_status = notice_json ''unwatch_storage_status'' []"
| "message_json (Msg_watch_presence es) = notice_json ''watch_presence'' [(''entryIds'', JArray (map JString es))]"
| "message_json Msg_unwatch_presence = notice_json ''unwatch_presence'' []"
| "message_json (Msg_presence_update e s) =
     notice_json ''presence_update'' [(''entryId'', JString e), (''selection'', selection_json s)]"
| "message_json Msg_presence_clear = notice_json ''presence_clear'' []"

definition keeps :: "zod \<Rightarrow> schema \<Rightarrow> json \<Rightarrow> bool" where
  "keeps z s v \<longleftrightarrow> admits z s v = Some v"

lemma keeps_text: "zod_documented z \<Longrightarrow> keeps z Non_empty (JString t) \<longleftrightarrow> text_ok t"
  by (auto simp: keeps_def admits_non_empty text_ok_def)

lemma keeps_int: "zod_documented z \<Longrightarrow> keeps z (Int_from least) (JInt n) \<longleftrightarrow> safe_integer n \<and> least \<le> n"
  by (auto simp: keeps_def admits_int)

lemma keeps_literal: "zod_documented z \<Longrightarrow> keeps z (Literal t) (JString t)"
  by (simp add: keeps_def admits_literal)

lemma keeps_op: "zod_documented z \<Longrightarrow> keeps z (Enum [''upsert'', ''delete'']) (op_json op)"
  by (cases op) (simp_all add: keeps_def admits_enum op_json_def)

lemma keeps_nullable: "zod_documented z \<Longrightarrow> keeps z (Nullable s) v \<longleftrightarrow> v = JNull \<or> keeps z s v"
  by (auto simp: keeps_def admits_nullable)

lemma keeps_nullable_text: "zod_documented z \<Longrightarrow> keeps z (Nullable Non_empty) (text_or_null v) \<longleftrightarrow> pred_option text_ok v"
  by (cases v) (simp_all add: keeps_nullable keeps_text text_or_null_def)

lemma those_map_same: "\<forall>x \<in> set xs. f (g x) = Some (h x) \<Longrightarrow> those (map f (map g xs)) = Some (map h xs)"
  by (induction xs) auto

lemma keeps_array:
  assumes "zod_documented z" "\<forall>x \<in> set xs. keeps z s (enc x)" "least \<le> length xs" "length xs \<le> most"
  shows "keeps z (Array s least most) (JArray (map enc xs))"
  using assms those_map_same[of xs "admits z s" enc enc] by (simp add: keeps_def admits_array)

lemma keeps_fields:
  assumes "\<forall>(k, s, x) \<in> set fs. property k v = Some x \<and> keeps z s x"
  shows "those (map (field_value (admits z) v) (map (\<lambda>(k, s, x). (k, s)) fs)) = Some (map (\<lambda>(k, s, x). [(k, x)]) fs)"
  using assms by (induction fs) (auto simp: field_value_def keeps_def)

lemma keeps_object:
  assumes z: "zod_documented z" and v: "v = JObject (map (\<lambda>(k, s, x). (k, x)) fs)" and d: "distinct (map fst fs)"
    and each: "\<forall>(k, s, x) \<in> set fs. keeps z s x"
  shows "keeps z (Object (map (\<lambda>(k, s, x). (k, s)) fs)) v"
proof -
  have "distinct (map fst (map (\<lambda>(k, s, x). (k, x)) fs))" using d by (simp add: comp_def case_prod_beta)
  then have "property k v = Some x" if "(k, s, x) \<in> set fs" for k s x
    using that unfolding v property_def by (force intro!: map_of_is_SomeI)
  then have "those (map (field_value (admits z) v) (map (\<lambda>(k, s, x). (k, s)) fs)) = Some (map (\<lambda>(k, s, x). [(k, x)]) fs)"
    using each by (intro keeps_fields) blast
  moreover have "concat (map (\<lambda>(k, s, x). [(k, x)]) fs) = map (\<lambda>(k, s, x). (k, x)) fs" by (induction fs) auto
  ultimately show ?thesis by (simp add: keeps_def admits_object[OF z] v)
qed

lemma keeps_refined: "zod_documented z \<Longrightarrow> keeps z (Refined s check) v \<longleftrightarrow> keeps z s v \<and> check v"
  by (auto simp: keeps_def admits_refined)

lemma keeps_union:
  assumes "zod_documented z" "property key v = Some (JString t)" "List.find (\<lambda>s. tag_of key s = Some t) ss = Some s" "keeps z s v"
  shows "keeps z (Tagged_union key ss) v"
  using assms(2-4) unfolding keeps_def by (subst admits_step[OF assms(1)]) simp

lemma keeps_request:
  assumes z: "zod_documented z" and r: "text_ok r" and d: "distinct (''type'' # ''requestId'' # map fst fs)"
    and each: "\<forall>(k, s, x) \<in> set fs. keeps z s x"
  shows "keeps z (request tag (map (\<lambda>(k, s, x). (k, s)) fs)) (request_json tag r (map (\<lambda>(k, s, x). (k, x)) fs))"
  using keeps_object[OF z refl, of "(''type'', Literal tag, JString tag) # (''requestId'', Non_empty, JString r) # fs"] r d each
  by (simp add: request_def request_json_def keeps_literal[OF z] keeps_text[OF z])

lemma keeps_notice:
  assumes z: "zod_documented z" and d: "distinct (''type'' # map fst fs)" and each: "\<forall>(k, s, x) \<in> set fs. keeps z s x"
  shows "keeps z (notice tag (map (\<lambda>(k, s, x). (k, s)) fs)) (notice_json tag (map (\<lambda>(k, s, x). (k, x)) fs))"
  using keeps_object[OF z refl, of "(''type'', Literal tag, JString tag) # fs"] d each
  by (simp add: notice_def notice_json_def keeps_literal[OF z])

lemmas keeps_parts = keeps_text keeps_int keeps_op keeps_nullable_text

lemma keeps_mutation:
  assumes z: "zod_documented z" and m: "mutation_ok m"
  shows "keeps z commit_mutation_payload_schema (mutation_json m)"
proof -
  have "\<forall>(k, s, x) \<in> set [(''mutationId'', Non_empty, JString (mu_id m)), (''entryId'', Non_empty, JString (mu_entryId m)),
      (''op'', Enum [''upsert'', ''delete''], op_json (mu_op m)), (''baseRevision'', Int_from 0, JInt (mu_base m)),
      (''blobId'', Nullable Non_empty, text_or_null (mu_blob m)), (''encryptedMetadata'', Non_empty, JString (mu_metadata m))].
      keeps z s x"
    using m by (simp add: keeps_parts[OF z] mutation_ok_def count_ok_iff)
  from keeps_object[OF z refl _ this] have "keeps z (Object
     [(''mutationId'', Non_empty), (''entryId'', Non_empty), (''op'', Enum [''upsert'', ''delete'']),
      (''baseRevision'', non_negative_integer), (''blobId'', Nullable Non_empty), (''encryptedMetadata'', Non_empty)]) (mutation_json m)"
    by (simp add: mutation_json_def non_negative_integer_def)
  moreover have "blob_matches_op (mutation_json m)"
    using m by (cases "mu_op m"; cases "mu_blob m")
      (simp_all add: blob_matches_op_def mutation_json_def property_def op_json_def text_or_null_def mutation_ok_def)
  ultimately show ?thesis by (simp add: commit_mutation_payload_schema_def keeps_refined[OF z])
qed

lemma restore_parts_kept: "zod_documented z \<Longrightarrow> restore_ok r \<Longrightarrow>
    \<forall>(k, s, x) \<in> set [(''entryId'', Non_empty, JString (rs_entryId r)), (''versionId'', Non_empty, JString (rs_versionId r)),
      (''baseRevision'', Int_from 0, JInt (rs_base r)), (''op'', Enum [''upsert'', ''delete''], op_json (rs_op r)),
      (''blobId'', Nullable Non_empty, text_or_null (rs_blob r)), (''encryptedMetadata'', Non_empty, JString (rs_metadata r))].
    keeps z s x"
  by (simp add: keeps_parts restore_ok_def count_ok_iff)

lemma keeps_restore:
  "zod_documented z \<Longrightarrow> restore_ok r \<Longrightarrow>
   keeps z (omit [''type'', ''requestId''] restore_entry_version_schema) (JObject (restore_fields r))"
  using keeps_object[OF _ refl _ restore_parts_kept[of z r]]
  by (simp add: restore_entry_version_schema_def request_def restore_fields_def non_negative_integer_def)

lemma keeps_cursor:
  assumes "zod_documented z" "cursor_ok c" "number \<noteq> text"
  shows "keeps z (Nullable (Object [(number, Int_from 0), (text, Non_empty)])) (cursor_json number text c)"
  using assms keeps_object[OF assms(1) refl, of "[(number, Int_from 0, JInt (fst (the c))), (text, Non_empty, JString (snd (the c)))]"]
  by (cases c) (auto simp: keeps_nullable keeps_parts cursor_json_def cursor_ok_def count_ok_iff)

lemma keeps_position: "zod_documented z \<Longrightarrow> position_ok p \<Longrightarrow> keeps z presence_position_schema (position_json p)"
  using keeps_object[OF _ refl, of z "[(''line'', Int_from 0, JInt (pp_line p)), (''ch'', Int_from 0, JInt (pp_ch p))]"]
  by (simp add: presence_position_schema_def position_json_def non_negative_integer_def keeps_parts position_ok_def count_ok_iff)

lemma keeps_selection:
  "zod_documented z \<Longrightarrow> position_ok (pn_anchor s) \<Longrightarrow> position_ok (pn_head s) \<Longrightarrow> keeps z presence_selection_schema (selection_json s)"
  using keeps_object[OF _ refl, of z "[(''anchor'', presence_position_schema, position_json (pn_anchor s)),
      (''head'', presence_position_schema, position_json (pn_head s))]"]
  by (simp add: presence_selection_schema_def selection_json_def keeps_position)

lemma keeps_entry:
  "zod_documented z \<Longrightarrow> text_ok e \<Longrightarrow> count_ok n \<Longrightarrow>
   keeps z (Object [(''entryId'', Non_empty), (''revision'', Int_from 0)]) (JObject [(''entryId'', JString e), (''revision'', JInt n)])"
  using keeps_object[OF _ refl, of z "[(''entryId'', Non_empty, JString e), (''revision'', Int_from 0, JInt n)]"]
  by (simp add: keeps_parts count_ok_iff)

lemma keeps_batch: "zod_documented z \<Longrightarrow> batch_ok ok xs \<Longrightarrow> (\<And>x. ok x \<Longrightarrow> keeps z s (enc x)) \<Longrightarrow>
    keeps z (Array s 1 100) (JArray (map enc xs))"
  by (intro keeps_array) (auto simp: batch_ok_def Suc_le_eq)

section \<open>A well-formed message is read as itself\<close>

lemma mutation_read: "mutation_of (mutation_json m) = Some m"
  by (cases "mu_op m"; cases "mu_blob m"; simp add: mutation_of_def mutation_json_def reads op_json_def text_or_null_def)

lemma restore_read:
  "restore_of (JObject (restore_fields r)) = Some r" "restore_of (request_json tag i (restore_fields r)) = Some r"
  by (cases "rs_op r"; cases "rs_blob r";
      simp add: restore_of_def restore_fields_def request_json_def reads op_json_def text_or_null_def)+

lemma cursor_read:
  "property key v = Some (cursor_json number text c) \<Longrightarrow> number \<noteq> text \<Longrightarrow> nullable_at (pair_of number text) key v = Some c"
  by (cases c) (auto simp: nullable_at_def cursor_json_def pair_of_def number_at_def text_at_def property_def)

lemma selection_read: "selection_of (selection_json s) = Some s"
  by (simp add: selection_of_def selection_json_def position_of_def position_json_def number_at_def property_def)

lemma list_read:
  "property key v = Some (JArray (map enc xs)) \<Longrightarrow> (\<And>x. read (enc x) = Some x) \<Longrightarrow> list_at read key v = Some xs"
  using those_map_same[of xs read enc id] by (simp add: list_at_def)

lemma texts_read: "those (map (text_of \<circ> JString) es) = Some es"
  by (induction es) (auto simp: text_of_def)

lemmas message_read_simps = read_message_def request_from_def notice_of_def request_json_def notice_json_def
  text_at_def number_at_def property_def

lemma message_read: "message_ok m \<Longrightarrow> read_message (message_json m) = Some m"
proof (cases m)
  case (Msg_list_entry_states r q)
  have "nullable_at (pair_of ''updatedSeq'' ''entryId'') ''after'' (message_json m) = Some (sq_after q)"
    unfolding Msg_list_entry_states by (rule cursor_read) (simp_all add: request_json_def property_def)
  moreover have "list_at text_of ''entryIds'' (message_json m) = sq_entryIds q"
    unfolding Msg_list_entry_states
    by (cases "sq_entryIds q") (simp_all add: request_json_def property_def list_at_def texts_read)
  moreover have "nullable_at number_of ''targetCursor'' (message_json m) = Some (sq_target q)"
    unfolding Msg_list_entry_states by (cases "sq_target q") (simp_all add: nullable_at_def request_json_def property_def number_of_def)
  ultimately show ?thesis unfolding Msg_list_entry_states
    by (simp add: read_message_def request_from_def states_query_of_def request_json_def text_at_def number_at_def property_def)
next
  case (Msg_commit_mutations r ms)
  have "list_at mutation_of ''mutations'' (message_json m) = Some ms"
    unfolding Msg_commit_mutations by (rule list_read[of _ _ mutation_json]) (simp_all add: mutation_read request_json_def property_def)
  then show ?thesis unfolding Msg_commit_mutations by (simp add: message_read_simps)
next
  case (Msg_restore_entry_versions r xs)
  have "list_at restore_of ''restores'' (message_json m) = Some xs"
    unfolding Msg_restore_entry_versions
    by (rule list_read[of _ _ "\<lambda>x. JObject (restore_fields x)"]) (simp_all add: restore_read request_json_def property_def)
  then show ?thesis unfolding Msg_restore_entry_versions by (simp add: message_read_simps)
next
  case (Msg_purge_deleted_entries r es)
  have "list_at (pair_of ''revision'' ''entryId'') ''entries'' (message_json m) = Some (map prod.swap es)"
    unfolding Msg_purge_deleted_entries
    by (rule list_read[of _ _ "\<lambda>(n, e). JObject [(''entryId'', JString e), (''revision'', JInt n)]"])
       (auto simp: request_json_def property_def pair_of_def number_at_def text_at_def case_prod_beta)
  then show ?thesis unfolding Msg_purge_deleted_entries by (simp add: message_read_simps)
next
  case (Msg_watch_presence es)
  have "list_at text_of ''entryIds'' (message_json m) = Some es"
    unfolding Msg_watch_presence by (rule list_read[of _ _ JString]) (simp_all add: text_of_def notice_json_def property_def)
  then show ?thesis unfolding Msg_watch_presence by (simp add: message_read_simps)
next
  case (Msg_list_entry_versions r e before limit)
  have "nullable_at (pair_of ''capturedAt'' ''versionId'') ''before'' (message_json m) = Some before"
    unfolding Msg_list_entry_versions by (rule cursor_read) (simp_all add: request_json_def property_def)
  then show ?thesis unfolding Msg_list_entry_versions by (simp add: message_read_simps)
next
  case (Msg_list_deleted_entries r before limit)
  have "nullable_at (pair_of ''deletedAt'' ''entryId'') ''before'' (message_json m) = Some before"
    unfolding Msg_list_deleted_entries by (rule cursor_read) (simp_all add: request_json_def property_def)
  then show ?thesis unfolding Msg_list_deleted_entries by (simp add: message_read_simps)
next
  case (Msg_restore_entry_version r x)
  then show ?thesis using restore_read(2)[of "''restore_entry_version''" r x] by (simp add: message_read_simps)
qed (simp_all add: message_read_simps selection_read)

lemma states_query_kept:
  assumes z: "zod_documented z" and ok: "message_ok (Msg_list_entry_states r q)"
  shows "keeps z list_entry_states_schema (message_json (Msg_list_entry_states r q))"
proof -
  let ?target = "case sq_target q of None \<Rightarrow> JNull | Some n \<Rightarrow> JInt n"
  let ?after = "cursor_json ''updatedSeq'' ''entryId'' (sq_after q)"
  let ?v = "message_json (Msg_list_entry_states r q)"
  have target: "admits z (Nullable (Int_from 0)) ?target = Some ?target"
    using ok by (cases "sq_target q") (auto simp: admits_nullable[OF z] admits_int[OF z] count_ok_iff)
  have after: "admits z (Nullable entry_state_cursor_schema) ?after = Some ?after"
    using keeps_cursor[OF z, of "sq_after q" "''updatedSeq''" "''entryId''"] ok
    by (simp add: keeps_def entry_state_cursor_schema_def non_negative_integer_def)
  have ids: "admits z (Array Non_empty 1 100) (JArray (map JString es)) = Some (JArray (map JString es))" if "sq_entryIds q = Some es" for es
    using keeps_batch[OF z, of text_ok es Non_empty JString] ok that by (simp add: keeps_def[symmetric] keeps_text[OF z])
  have plain: "admits z Non_empty (JString r) = Some (JString r)" "admits z (Int_from 0) (JInt (sq_since q)) = Some (JInt (sq_since q))"
      "admits z (Int_from 1) (JInt (sq_limit q)) = Some (JInt (sq_limit q))" "admits z (Literal l) (JString l) = Some (JString l)" for l
    using ok by (auto simp: count_ok_iff limit_ok_iff keeps_def[symmetric] keeps_parts[OF z] keeps_literal[OF z])
  show ?thesis
    by (cases "sq_entryIds q")
       (simp_all add: keeps_def list_entry_states_schema_def request_def admits_object[OF z] request_json_def field_value_def property_def
         plain target after ids[unfolded One_nat_def] admits_optional[OF z] non_negative_integer_def positive_integer_def)
qed

definition member_schema :: "client_message \<Rightarrow> schema" where
  \<comment> \<open>the schema a message is checked against\<close>
  "member_schema m = (case m of
     Msg_hello _ _ \<Rightarrow> hello_schema | Msg_commit_mutation _ _ \<Rightarrow> commit_mutation_schema
   | Msg_commit_mutations _ _ \<Rightarrow> commit_mutations_schema | Msg_list_entry_states _ _ \<Rightarrow> list_entry_states_schema
   | Msg_list_entry_versions _ _ _ _ \<Rightarrow> list_entry_versions_schema
   | Msg_list_deleted_entries _ _ _ \<Rightarrow> list_deleted_entries_schema
   | Msg_restore_entry_version _ _ \<Rightarrow> restore_entry_version_schema
   | Msg_restore_entry_versions _ _ \<Rightarrow> restore_entry_versions_schema
   | Msg_purge_deleted_entries _ _ \<Rightarrow> purge_deleted_entries_schema
   | Msg_detach_local_vault _ \<Rightarrow> request ''detach_local_vault'' [] | Msg_heartbeat _ \<Rightarrow> request ''heartbeat'' []
   | Msg_watch_storage_status \<Rightarrow> notice ''watch_storage_status'' []
   | Msg_unwatch_storage_status \<Rightarrow> notice ''unwatch_storage_status'' []
   | Msg_watch_presence _ \<Rightarrow> notice ''watch_presence'' [(''entryIds'', Array Non_empty 0 100)]
   | Msg_unwatch_presence \<Rightarrow> notice ''unwatch_presence'' [] | Msg_presence_update _ _ \<Rightarrow> presence_update_schema
   | Msg_presence_clear \<Rightarrow> notice ''presence_clear'' [])"

lemma member_kept:
  assumes z: "zod_documented z" and ok: "message_ok m"
  shows "keeps z (member_schema m) (message_json m)"
proof (cases m)
  case (Msg_hello r n)
  then show ?thesis using ok keeps_request[OF z, of r "[(''lastKnownCursor'', Int_from 0, JInt n)]" "''hello''"]
    by (simp add: member_schema_def hello_schema_def non_negative_integer_def keeps_parts[OF z] count_ok_iff)
next
  case (Msg_commit_mutations r ms)
  then show ?thesis using ok keeps_batch[OF z, of mutation_ok ms _ mutation_json, OF _ keeps_mutation[OF z]]
      keeps_request[OF z, of r "[(''mutations'', Array commit_mutation_payload_schema 1 100, JArray (map mutation_json ms))]" "''commit_mutations''"]
    by (simp add: member_schema_def commit_mutations_schema_def)
next
  case (Msg_list_entry_states r q)
  then show ?thesis using states_query_kept[OF z] ok by (simp add: member_schema_def)
next
  case (Msg_list_entry_versions r e before limit)
  then show ?thesis using ok keeps_cursor[OF z, of before "''capturedAt''" "''versionId''"]
      keeps_request[OF z, of r "[(''entryId'', Non_empty, JString e), (''before'', Nullable entry_version_cursor_schema,
        cursor_json ''capturedAt'' ''versionId'' before), (''limit'', Int_from 1, JInt limit)]" "''list_entry_versions''"]
    by (simp add: member_schema_def list_entry_versions_schema_def entry_version_cursor_schema_def non_negative_integer_def
        positive_integer_def keeps_parts[OF z] limit_ok_iff)
next
  case (Msg_list_deleted_entries r before limit)
  then show ?thesis using ok keeps_cursor[OF z, of before "''deletedAt''" "''entryId''"]
      keeps_request[OF z, of r "[(''before'', Nullable deleted_entry_cursor_schema,
        cursor_json ''deletedAt'' ''entryId'' before), (''limit'', Int_from 1, JInt limit)]" "''list_deleted_entries''"]
    by (simp add: member_schema_def list_deleted_entries_schema_def deleted_entry_cursor_schema_def non_negative_integer_def
        positive_integer_def keeps_parts[OF z] limit_ok_iff)
next
  case (Msg_restore_entry_version r x)
  then show ?thesis using ok keeps_request[OF z _ _ restore_parts_kept[OF z], of r x "''restore_entry_version''"]
    by (simp add: member_schema_def restore_entry_version_schema_def non_negative_integer_def restore_fields_def)
next
  case (Msg_restore_entry_versions r xs)
  then show ?thesis using ok keeps_batch[OF z, of restore_ok xs _ "\<lambda>x. JObject (restore_fields x)", OF _ keeps_restore[OF z]]
      keeps_request[OF z, of r "[(''restores'', Array (omit [''type'', ''requestId''] restore_entry_version_schema) 1 100,
        JArray (map (\<lambda>x. JObject (restore_fields x)) xs))]" "''restore_entry_versions''"]
    by (simp add: member_schema_def restore_entry_versions_schema_def del: omit.simps)
next
  case (Msg_purge_deleted_entries r es)
  have "keeps z (Array (Object [(''entryId'', Non_empty), (''revision'', Int_from 0)]) 1 100)
      (JArray (map (\<lambda>(e, n). JObject [(''entryId'', JString e), (''revision'', JInt n)]) es))"
    using ok unfolding Msg_purge_deleted_entries
    by (intro keeps_batch[OF z, of "\<lambda>(e, n). text_ok e \<and> count_ok n"]) (auto simp: keeps_entry[OF z])
  then show ?thesis using ok Msg_purge_deleted_entries keeps_request[OF z, of r "[(''entries'',
        Array (Object [(''entryId'', Non_empty), (''revision'', Int_from 0)]) 1 100,
        JArray (map (\<lambda>(e, n). JObject [(''entryId'', JString e), (''revision'', JInt n)]) es))]" "''purge_deleted_entries''"]
    by (simp add: member_schema_def purge_deleted_entries_schema_def non_negative_integer_def)
next
  case (Msg_watch_presence es)
  have "keeps z (Array Non_empty 0 100) (JArray (map JString es))"
    using ok unfolding Msg_watch_presence by (intro keeps_array[OF z]) (auto simp: keeps_text[OF z])
  then show ?thesis using Msg_watch_presence
      keeps_notice[OF z, of "[(''entryIds'', Array Non_empty 0 100, JArray (map JString es))]" "''watch_presence''"]
    by (simp add: member_schema_def)
next
  case (Msg_presence_update e s)
  then show ?thesis using ok keeps_selection[OF z, of s]
      keeps_notice[OF z, of "[(''entryId'', Non_empty, JString e), (''selection'', presence_selection_schema, selection_json s)]" "''presence_update''"]
    by (simp add: member_schema_def presence_update_schema_def keeps_parts[OF z])
qed (use ok keeps_request[OF z, of _ "[]"] keeps_notice[OF z, of "[]"] in \<open>simp_all add: member_schema_def\<close>)

lemma member_found:
  "message_ok m \<Longrightarrow> (\<exists>t. property ''type'' (message_json m) = Some (JString t) \<and>
     List.find (\<lambda>s. tag_of ''type'' s = Some t)
       [hello_schema, commit_mutations_schema, list_entry_states_schema, list_entry_versions_schema,
        list_deleted_entries_schema, restore_entry_version_schema, restore_entry_versions_schema,
        purge_deleted_entries_schema, request ''detach_local_vault'' [], request ''heartbeat'' [],
        notice ''watch_storage_status'' [], notice ''unwatch_storage_status'' [],
        notice ''watch_presence'' [(''entryIds'', Array Non_empty 0 100)], notice ''unwatch_presence'' [],
        presence_update_schema, notice ''presence_clear'' []] = Some (member_schema m))"
  by (cases m) (simp_all add: member_schema_def hello_schema_def commit_mutations_schema_def list_entry_states_schema_def
      list_entry_versions_schema_def list_deleted_entries_schema_def restore_entry_version_schema_def
      restore_entry_versions_schema_def purge_deleted_entries_schema_def presence_update_schema_def request_def notice_def
      request_json_def notice_json_def property_def)

lemma messages_kept:
  assumes z: "zod_documented z" and ok: "message_ok m"
  shows "admits z client_control_message_schema (message_json m) = Some (message_json m)"
  using member_found[OF ok] member_kept[OF z ok] keeps_union[OF z] unfolding client_control_message_schema_def keeps_def by blast

section \<open>The library as documented\<close>

text \<open>The documented meaning can be had: an instance that complains in one way only.\<close>

fun depth :: "schema \<Rightarrow> nat" where
  "depth (Nullable s) = Suc (depth s)"
| "depth (Optional s) = Suc (depth s)"
| "depth (Array s _ _) = Suc (depth s)"
| "depth (Object fs) = Suc (Max (insert 0 (set (map (\<lambda>(k, s). depth s) fs))))"
| "depth (Refined s _) = Suc (depth s)"
| "depth (Tagged_union _ ss) = Suc (Max (insert 0 (set (map depth ss))))"
| "depth _ = 0"

fun checked :: "nat \<Rightarrow> schema \<Rightarrow> json \<Rightarrow> json option" where
  "checked 0 s v = schema_step (\<lambda>_ _. None) s v"
| "checked (Suc n) s v = schema_step (checked n) s v"

definition plain_zod :: zod where
  "plain_zod s v = (case checked (depth s) s v of Some d \<Rightarrow> Inr d | None \<Rightarrow> Inl [([], ''Invalid input'')])"

lemma field_value_cong: "(\<And>x. p s x = q s x) \<Longrightarrow> field_value p v (k, s) = field_value q v (k, s)"
  by (auto simp: field_value_def split: option.split schema.split)

lemma found_in: "List.find P xs = Some x \<Longrightarrow> x \<in> set xs"
  by (auto simp: find_Some_iff)

lemma union_step_cong:
  assumes "\<And>s. s \<in> set ss \<Longrightarrow> p s v = q s v"
  shows "schema_step p (Tagged_union key ss) v = schema_step q (Tagged_union key ss) v"
proof -
  have "(case List.find P ss of None \<Rightarrow> None | Some s \<Rightarrow> p s v) = (case List.find P ss of None \<Rightarrow> None | Some s \<Rightarrow> q s v)" for P
    using assms by (cases "List.find P ss") (simp_all add: found_in)
  then show ?thesis by (simp cong: option.case_cong json.case_cong)
qed

lemma checked_leaf:
  "checked n Non_empty v = schema_step (\<lambda>_ _. None) Non_empty v"
  "checked n (Int_from i) v = schema_step (\<lambda>_ _. None) (Int_from i) v"
  "checked n (Literal t) v = schema_step (\<lambda>_ _. None) (Literal t) v"
  "checked n (Enum ts) v = schema_step (\<lambda>_ _. None) (Enum ts) v"
  by (cases n; simp)+

lemma checked_enough: "depth s \<le> n \<Longrightarrow> depth s \<le> m \<Longrightarrow> checked n s v = checked m s v"
proof (induction s arbitrary: n m v)
  case (Object fs)
  obtain n' m' where nm: "n = Suc n'" "m = Suc m'" using Object.prems by (cases n; cases m) auto
  have "field_value (checked n') v x = field_value (checked m') v x" if "x \<in> set fs" for x
  proof -
    obtain k s where x: "x = (k, s)" by (cases x)
    have "depth s \<le> n'" "depth s \<le> m'" using Object.prems nm that x by auto
    then show ?thesis unfolding x using that x by (intro field_value_cong Object.IH[of x s]) (auto simp: prod_set_defs)
  qed
  then have "map (field_value (checked n') v) fs = map (field_value (checked m') v) fs" by (rule map_cong[OF refl])
  then show ?case by (cases v) (simp_all add: nm del: map_eq_conv)
next
  case (Tagged_union key ss)
  obtain n' m' where nm: "n = Suc n'" "m = Suc m'" using Tagged_union.prems by (cases n; cases m) auto
  have "checked n' s v = checked m' s v" if "s \<in> set ss" for s
  proof -
    have "depth s \<le> Max (insert 0 (set (map depth ss)))" using that by (intro Max_ge) auto
    then show ?thesis using that Tagged_union.prems nm by (intro Tagged_union.IH) auto
  qed
  then show ?case unfolding nm checked.simps by (rule union_step_cong)
next
  case (Array s least most)
  obtain n' m' where nm: "n = Suc n'" "m = Suc m'" using Array.prems by (cases n; cases m) auto
  have "checked n' s = checked m' s" using Array.prems nm by (intro ext Array.IH) simp_all
  then show ?case by (cases v) (simp_all add: nm)
next
  case (Nullable s)
  obtain n' m' where nm: "n = Suc n'" "m = Suc m'" using Nullable.prems by (cases n; cases m) auto
  have "checked n' s = checked m' s" using Nullable.prems nm by (intro ext Nullable.IH) simp_all
  then show ?case by (simp add: nm)
next
  case (Optional s)
  obtain n' m' where nm: "n = Suc n'" "m = Suc m'" using Optional.prems by (cases n; cases m) auto
  have "checked n' s = checked m' s" using Optional.prems nm by (intro ext Optional.IH) simp_all
  then show ?case by (simp add: nm)
next
  case (Refined s check)
  obtain n' m' where nm: "n = Suc n'" "m = Suc m'" using Refined.prems by (cases n; cases m) auto
  have "checked n' s = checked m' s" using Refined.prems nm by (intro ext Refined.IH) simp_all
  then show ?case by (simp add: nm)
qed (simp_all only: checked_leaf)

lemma checked_unfold: "checked (depth s) s v = schema_step (\<lambda>s v. checked (depth s) s v) s v"
proof (cases s)
  case (Object fs)
  let ?n = "Max (insert 0 (set (map (\<lambda>(k, s). depth s) fs)))"
  have "field_value (checked ?n) v x = field_value (\<lambda>s v. checked (depth s) s v) v x" if "x \<in> set fs" for x
  proof -
    obtain k s where x: "x = (k, s)" by (cases x)
    have "depth s \<le> ?n" using that x by (intro Max_ge) force+
    then show ?thesis unfolding x by (intro field_value_cong checked_enough) auto
  qed
  then have "map (field_value (checked ?n) v) fs = map (field_value (\<lambda>s v. checked (depth s) s v) v) fs" by (rule map_cong[OF refl])
  then show ?thesis by (cases v) (simp_all add: Object del: map_eq_conv)
next
  case (Tagged_union key ss)
  let ?n = "Max (insert 0 (set (map depth ss)))"
  have "checked ?n s v = checked (depth s) s v" if "s \<in> set ss" for s
    using that by (intro checked_enough Max_ge) auto
  then show ?thesis unfolding Tagged_union depth.simps checked.simps list.set_map by (rule union_step_cong)
qed simp_all

lemma plain_zod_documented: "zod_documented plain_zod"
proof -
  have "accepted (plain_zod s v) = checked (depth s) s v" for s v by (simp add: plain_zod_def accepted_def split: option.split)
  then show ?thesis by (simp add: zod_documented_def checked_unfold[symmetric])
qed

section \<open>Which messages get through\<close>

lemma parsed_message_ok:
  assumes z: "zod_documented z" and run: "parse_client_control_message z v = Inr m"
  shows "\<exists>m'. m = Some m' \<and> message_ok m'"
proof -
  obtain d where d: "z client_control_message_schema v = Inr d" "m = read_message d"
    using run by (cases "z client_control_message_schema v") (auto simp: parse_client_control_message_def)
  then have "admits z client_control_message_schema v = Some d" by (simp add: admits_def accepted_def)
  then show ?thesis using messages_accepted[OF z] d(2) by (simp add: reads_well_def)
qed

lemma written_message_parsed:
  assumes z: "zod_documented z" and ok: "message_ok m"
  shows "parse_client_control_message z (message_json m) = Inr (Some m)"
proof -
  have "z client_control_message_schema (message_json m) = Inr (message_json m)"
    using messages_kept[OF z ok] by (simp add: admits_def accepted_def split: sum.splits)
  then show ?thesis by (simp add: parse_client_control_message_def message_read[OF ok])
qed

text \<open>
  C1. Exactly the well-formed messages get through. Whatever value arrives, if the schema accepts it, the accepted
  value is a message in order: identifiers and metadata are not blank and carry no surrounding space, numbers are
  safe integers that are not negative, limits are positive, batches have one to a hundred members, an upsert names
  a blob and a delete none; the message \<open>commit_mutation\<close> of the type never arrives. And every such message is
  accepted as it is written and read as itself.
\<close>

theorem well_formed_messages_get_through:
  assumes z: "zod_documented z"
  shows "(\<forall>v m. parse_client_control_message z v = Inr m \<longrightarrow> (\<exists>m'. m = Some m' \<and> message_ok m')) \<and>
    (\<forall>m. message_ok m \<longrightarrow> parse_client_control_message z (message_json m) = Inr (Some m))"
  using parsed_message_ok[OF z] written_message_parsed[OF z] by blast

theorem well_formed_messages_get_through_witness:
  "parse_client_control_message plain_zod (JObject [(''type'', JString ''watch_presence''),
     (''entryIds'', JArray [JString '' e ''])]) = Inr (Some (Msg_watch_presence [''e''])) \<and>
   parse_client_control_message plain_zod (message_json (Msg_watch_presence [''e''])) = Inr (Some (Msg_watch_presence [''e'']))"
proof
  show "parse_client_control_message plain_zod (JObject [(''type'', JString ''watch_presence''),
     (''entryIds'', JArray [JString '' e ''])]) = Inr (Some (Msg_watch_presence [''e'']))" by code_simp
  have "message_ok (Msg_watch_presence [''e''])" by code_simp
  then show "parse_client_control_message plain_zod (message_json (Msg_watch_presence [''e''])) = Inr (Some (Msg_watch_presence [''e'']))"
    using well_formed_messages_get_through[OF plain_zod_documented] by blast
qed

end
