(* ===== verification/Http_Errors.thy ===== *)
theory Http_Errors
  imports Sync_Token
begin

text \<open>
  How failures leave the service (\<open>src/errors.ts\<close>, the \<open>error-mapper.ts\<close> of the coordinator, the
  translation for remote calls in \<open>durable-object-rpc/sync-coordinator.ts\<close>): a thrown error becomes a
  response with a status and a JSON body. Also here is the header with the size of a blob
  (\<open>src/platform/http/blob-size.ts\<close>), written by one service and read by another.
\<close>

section \<open>Responses\<close>

datatype http_body =
    No_body
  | Json_body "(string \<times> json) list"
  | Bytes string
  | Validation_failure \<comment> \<open>what the library zod-validator answers\<close>

record response =
  rp_status :: int
  rp_body :: http_body

definition json_response :: "int \<Rightarrow> (string \<times> json) list \<Rightarrow> response" where
  "json_response status ps = \<lparr>rp_status = status, rp_body = Json_body ps\<rparr>"

definition body_field :: "string \<Rightarrow> response \<Rightarrow> json option" where
  \<comment> \<open>a property of \<open>response.json().catch(() => null)\<close>\<close>
  "body_field key r = (case rp_body r of Json_body ps \<Rightarrow> map_of ps key | _ \<Rightarrow> None)"

definition response_ok :: "response \<Rightarrow> bool" where
  "response_ok r \<longleftrightarrow> 200 \<le> rp_status r \<and> rp_status r < 300"

definition code_body :: "string \<Rightarrow> string \<Rightarrow> (string \<times> json) list" where
  "code_body code message = [(''error'', JString code), (''message'', JString message)]"

definition reason_body :: "string \<Rightarrow> string \<Rightarrow> string \<Rightarrow> (string \<times> json) list" where
  "reason_body code reason message =
     [(''error'', JString code), (''reason'', JString reason), (''message'', JString message)]"

section \<open>Thrown values\<close>

datatype transfer_error =
    Invalid_id
  | Transfer_size_mismatch int \<comment> \<open>the declared size\<close>
  | Stage_refused "string option" "string option" \<comment> \<open>reason and message of the coordinator\<close>

datatype thrown =
    Http_exception response
  | Sharing_failure access_error
  | Token_thrown sync_access_error
  | Coordinator_thrown coord_error
  | Transfer_thrown transfer_error
  | Error_thrown string

definition api_error :: "int \<Rightarrow> string \<Rightarrow> string \<Rightarrow> thrown" where
  "api_error status code message = Http_exception (json_response status (code_body code message))"

definition thrown_of_token :: "token_failure \<Rightarrow> thrown" where
  "thrown_of_token e = (case e of
     Sync_access_failure x \<Rightarrow> Token_thrown x | Sharing_refusal x \<Rightarrow> Sharing_failure x | Other_failure m \<Rightarrow> Error_thrown m)"

definition on_error :: "thrown \<Rightarrow> response" where
  \<comment> \<open>an HTTP exception answers itself; an error with a numeric status and a code is answered with them\<close>
  "on_error e = (case e of
     Http_exception r \<Rightarrow> r
   | Sharing_failure (Sharing_error status code message) \<Rightarrow> json_response status (code_body code message)
   | _ \<Rightarrow> json_response 500 (code_body ''internal_error'' ''unexpected server error''))"

section \<open>Errors of the coordinator\<close>

definition domain_status :: "string \<Rightarrow> int option" where
  "domain_status code = map_of
     [(''sync_state_uninitialized'', 409), (''file_too_large'', 413), (''quota_exceeded'', 413),
      (''blob_already_live'', 409), (''blob_size_changed'', 409)] code"

definition domain_public_code :: "string \<Rightarrow> string" where
  "domain_public_code code =
     (if code = ''blob_already_live'' \<or> code = ''blob_size_changed'' then ''conflict'' else code)"

definition js_string_of :: "detail option \<Rightarrow> string" where
  \<comment> \<open>\<open>String(value)\<close>\<close>
  "js_string_of v = (case v of None \<Rightarrow> ''undefined'' | Some (DStr s) \<Rightarrow> s | Some (DNum n) \<Rightarrow> show_num n)"

definition message_of :: "(string \<times> detail) list \<Rightarrow> string \<Rightarrow> string" where
  "message_of details fallback =
     (case map_of details ''message'' of Some (DStr s) \<Rightarrow> s | _ \<Rightarrow> fallback)"

definition revision_message :: "(string \<times> detail) list \<Rightarrow> string" where
  "revision_message details =
     ''expected base revision '' @ js_string_of (map_of details ''expectedBaseRevision'') @ '' but received '' @
     js_string_of (map_of details ''receivedBaseRevision'')"

definition conflict_error_message :: "string \<Rightarrow> (string \<times> detail) list \<Rightarrow> string" where
  "conflict_error_message code details =
     (if code = ''stale_revision'' then revision_message details
      else message_of details ''restore payload does not match the requested version'')"

definition paused_message :: string where
  "paused_message = ''vault sync is temporarily paused for repair''"

definition map_sync_coordinator_application_error :: "thrown \<Rightarrow> response option" where
  "map_sync_coordinator_application_error e = (case e of
     Token_thrown x \<Rightarrow>
       let (status, code, message) = sync_access_public_error x
       in Some (json_response status (code_body code message))
   | Coordinator_thrown (AppError code details) \<Rightarrow>
       Some (if code = ''sync_paused'' then json_response 503 (code_body ''sync_paused'' paused_message)
         else if code = ''not_found'' then json_response 404 (code_body ''not_found'' (message_of details ''not found''))
         else case domain_status code of
           Some status \<Rightarrow> json_response status
             (reason_body (domain_public_code code) code (message_of details ''request failed''))
         | None \<Rightarrow>
             if code = ''stale_revision'' \<or> code = ''version_mismatch''
             then json_response 409 (code_body code (conflict_error_message code details))
             else json_response 409 (code_body code (message_of details ''request failed'')))
   | _ \<Rightarrow> None)"

definition coordinator_on_error :: "thrown \<Rightarrow> response" where
  \<comment> \<open>\<open>app.onError\<close> of \<open>routes.ts\<close>\<close>
  "coordinator_on_error e =
     (case map_sync_coordinator_application_error e of Some r \<Rightarrow> r | None \<Rightarrow> on_error e)"

section \<open>Errors of remote calls\<close>

definition rpc_error_status :: "string \<Rightarrow> int" where
  "rpc_error_status code =
     (if code = ''bad_request'' then 400 else if code = ''forbidden'' then 403 else if code = ''not_found'' then 404
      else if code = ''file_too_large'' \<or> code = ''quota_exceeded'' then 413 else 409)"

definition rpc_public_code :: "string \<Rightarrow> string" where
  "rpc_public_code code =
     (if code = ''blob_already_live'' \<or> code = ''blob_size_changed'' then ''conflict'' else code)"

definition rpc_error_message :: "string \<Rightarrow> (string \<times> detail) list \<Rightarrow> string" where
  "rpc_error_message code details =
     (case map_of details ''message'' of
        Some (DStr s) \<Rightarrow> s
      | _ \<Rightarrow> if code = ''not_found'' then ''requested version was not found''
          else if code = ''stale_revision'' then revision_message details
          else ''request failed'')"

definition map_coordinator_rpc_error :: "thrown \<Rightarrow> thrown" where
  "map_coordinator_rpc_error e = (case e of
     Coordinator_thrown (AppError code details) \<Rightarrow>
       if code = ''sync_paused'' then api_error 503 ''sync_paused'' paused_message
       else api_error (rpc_error_status code) (rpc_public_code code) (rpc_error_message code details)
   | _ \<Rightarrow> e)"

section \<open>The size of a blob in a header\<close>

definition is_digit :: "char \<Rightarrow> bool" where
  "is_digit c \<longleftrightarrow> char_between (CHR ''0'') (CHR ''9'') c"

definition digits_value :: "string \<Rightarrow> int" where
  \<comment> \<open>the exact value; \<open>Number\<close> rounds beyond \<open>max_safe_integer\<close>, but never back below it\<close>
  "digits_value s = foldl (\<lambda>n c. 10 * n + (of_char c - 48)) 0 s"

definition parse_blob_size_header :: "string option \<Rightarrow> int option" where
  "parse_blob_size_header value =
     (case value of None \<Rightarrow> None
      | Some v \<Rightarrow>
          let trimmed = js_trim v
          in if trimmed = [] \<or> \<not> list_all is_digit trimmed then None
             else let n = digits_value trimmed in if safe_integer n \<and> 0 \<le> n then Some n else None)"

lemma show_nat_step: "show_nat n = (if n < 10 then [] else show_nat (n div 10)) @ [char_of (48 + n mod 10)]"
  by (subst show_nat.simps) simp

lemma digit_char: "(d :: nat) < 10 \<Longrightarrow> is_digit (char_of (48 + d)) \<and> (of_char (char_of (48 + d) :: char) :: int) = 48 + int d \<and>
    \<not> js_space (char_of (48 + d))"
proof -
  assume d: "d < 10"
  have c: "(of_char (char_of (48 + d) :: char) :: nat) = 48 + d" using d by simp
  then have i: "(of_char (char_of (48 + d) :: char) :: int) = 48 + int d"
    by (metis of_nat_add of_nat_numeral of_nat_of_char)
  have "\<not> js_space (char_of (48 + d))" unfolding js_space_def c using d by simp
  then show ?thesis using c i d by (simp add: is_digit_def char_between_def less_eq_char_def)
qed

lemma digits_append: "digits_value (s @ [c]) = 10 * digits_value s + (of_char c - 48)"
  by (simp add: digits_value_def)

lemma show_nat_digits:
  "show_nat n \<noteq> [] \<and> list_all is_digit (show_nat n) \<and> digits_value (show_nat n) = int n \<and> (\<forall>c \<in> set (show_nat n). \<not> js_space c)"
proof (induction n rule: less_induct)
  case (less n)
  have d: "n mod 10 < 10" by simp
  have base: "digits_value [] = 0" by (simp add: digits_value_def)
  show ?case
  proof (cases "n < 10")
    case True
    then show ?thesis using digit_char[OF True] digits_append[of "[]"] by (subst (1 2 3 4) show_nat_step) (simp add: base)
  next
    case False
    then have "show_nat n = show_nat (n div 10) @ [char_of (48 + n mod 10)]" by (subst show_nat_step) simp
    moreover have "int n = 10 * int (n div 10) + int (n mod 10)" by presburger
    ultimately show ?thesis using less.IH[of "n div 10"] False digit_char[OF d] by (simp add: digits_append)
  qed
qed

text \<open>The size one service writes with \<open>String\<close> is the size the other reads.\<close>

lemma size_header_roundtrip: "0 \<le> n \<Longrightarrow> n \<le> max_safe_integer \<Longrightarrow> parse_blob_size_header (Some (show_num n)) = Some n"
  using show_nat_digits[of "nat n"]
  by (auto simp: parse_blob_size_header_def show_num_def js_trim_word Let_def safe_integer_def)

lemma parse_size_safe: "parse_blob_size_header h = Some n \<Longrightarrow> 0 \<le> n \<and> n \<le> max_safe_integer"
  by (auto simp: parse_blob_size_header_def Let_def safe_integer_def split: option.splits if_split_asm)

end
