(* ===== verification/Blob_Storage.thy ===== *)
theory Blob_Storage
  imports Sync_Token Coordinator_State
begin

text \<open>
  The object storages behind the uploads (\<open>src/sync-blob-transfer/adapters/outbound\<close>): the limit on
  the length of a body (\<open>body-size.ts\<close>), the local disk (\<open>local-disk-object-storage.ts\<close>), and the
  batch deletions of R2 and S3 (\<open>r2-object-storage.ts\<close>, \<open>s3-object-storage.ts\<close>). A body is the list
  of its chunks and, if reading it fails, the error. A file system is a map from absolute paths (their
  segments) to contents; which of its operations fail is a parameter. Directories are left out.
\<close>

section \<open>Identifiers\<close>

definition safe_id_char :: "char \<Rightarrow> bool" where
  \<comment> \<open>\<open>[a-zA-Z0-9_-]\<close>\<close>
  "safe_id_char c \<longleftrightarrow> char_between (CHR ''a'') (CHR ''z'') c \<or> char_between (CHR ''A'') (CHR ''Z'') c \<or> char_between (CHR ''0'') (CHR ''9'') c \<or>
     c = CHR ''_'' \<or> c = CHR ''-''"

definition is_safe_blob_id :: "ident \<Rightarrow> bool" where
  "is_safe_blob_id value = (let trimmed = js_trim value in length trimmed > 0 \<and> list_all safe_id_char trimmed)"

section \<open>The length of a body\<close>

record body =
  by_chunks :: "string list"
  by_fails :: "string option"

datatype limited = Exact | Size_mismatch | Input_failed string

fun limit_chunks :: "int \<Rightarrow> int \<Rightarrow> string list \<Rightarrow> string option \<Rightarrow> string list \<times> limited" where
  \<comment> \<open>\<open>transform\<close> and \<open>flush\<close>: what is passed on, and how the pipe ends\<close>
  "limit_chunks received maxBytes [] fails =
     ([], case fails of Some e \<Rightarrow> Input_failed e | None \<Rightarrow> if received \<noteq> maxBytes then Size_mismatch else Exact)"
| "limit_chunks received maxBytes (c # cs) fails =
     (let received' = received + int (length c)
      in if received' > maxBytes then ([], Size_mismatch)
         else let (out, result) = limit_chunks received' maxBytes cs fails in (c # out, result))"

definition limit_body_size :: "body \<Rightarrow> int \<Rightarrow> string list \<times> limited" where
  "limit_body_size b maxBytes = limit_chunks 0 maxBytes (by_chunks b) (by_fails b)"

lemma limit_chunks_Exact:
  "snd (limit_chunks r m cs f) = Exact \<longleftrightarrow> f = None \<and> r + int (length (concat cs)) = m"
proof (induction cs arbitrary: r)
  case (Cons c cs)
  have "r + int (length c) > m \<Longrightarrow> r + int (length (concat (c # cs))) \<noteq> m" by simp
  then show ?case using Cons[of "r + int (length c)"] by (auto simp: Let_def split_beta algebra_simps)
qed (auto split: option.split)

lemma limit_chunks_out: "snd (limit_chunks r m cs f) = Exact \<Longrightarrow> fst (limit_chunks r m cs f) = cs"
  by (induction cs arbitrary: r) (auto simp: Let_def split_beta split: if_split_asm)

lemma limit_chunks_bound:
  "0 \<le> m - r \<Longrightarrow> r + int (length (concat (fst (limit_chunks r m cs f)))) \<le> m"
proof (induction cs arbitrary: r)
  case (Cons c cs)
  show ?case
  proof (cases "r + int (length c) > m")
    case False
    then have "(r + int (length c)) + int (length (concat (fst (limit_chunks (r + int (length c)) m cs f)))) \<le> m"
      by (intro Cons.IH) simp
    then show ?thesis using False by (simp add: Let_def split_beta)
  qed (use Cons.prems in simp)
qed simp

section \<open>The local disk\<close>

type_synonym path = "string list"
type_synonym disk = "path \<rightharpoonup> string"

fun path_walk :: "path \<Rightarrow> string list \<Rightarrow> path" where
  "path_walk p [] = p"
| "path_walk p (s # ss) =
     (if s = [] \<or> s = ''.'' then path_walk p ss
      else if s = ''..'' then path_walk (butlast p) ss
      else path_walk (p @ [s]) ss)"

definition path_resolve :: "path \<Rightarrow> string \<Rightarrow> path" where
  \<comment> \<open>\<open>path.resolve(base, key)\<close> for an absolute \<open>base\<close>\<close>
  "path_resolve base key = path_walk (if starts_with ''/'' key then [] else base) (js_split (CHR ''/'') key)"

definition uploads_name :: string where "uploads_name = ''.uploads''"

definition resolve_key_path :: "path \<Rightarrow> string \<Rightarrow> string + path" where
  \<comment> \<open>\<open>base\<close> is the resolved base directory; below the root directory no prefix matches \<open>//\<close>\<close>
  "resolve_key_path base key =
     (if ''..'' \<in> set (js_split (CHR ''/'') key) then Inl (''blob key must not contain \"..\" segments: '' @ key)
      else let p = path_resolve base key
           in if p \<noteq> base \<and> \<not> (base \<noteq> [] \<and> take (length base) p = base)
              then Inl (''blob key escapes storage base directory: '' @ key)
              else if p = base \<or> p ! length base = uploads_name then Inl ''blob key targets reserved storage directory''
              else Inr p)"

record disk_faults =
  df_mkdir :: "string option"
  df_write :: "(nat \<times> string) option" \<comment> \<open>the chunk at which writing fails; beyond the last: at closing\<close>
  df_rename :: "string option"
  df_cleanup :: bool

definition part_path :: "path \<Rightarrow> ident \<Rightarrow> path" where
  "part_path base uuid = base @ [uploads_name, uuid @ ''.part'']"

definition write_part :: "disk_faults \<Rightarrow> path \<Rightarrow> string list \<times> limited \<Rightarrow> disk \<Rightarrow> (string + bool) \<times> disk" where
  \<comment> \<open>the pipeline into the temporary file: an error, or whether the size is wrong. A failing write cancels
      the body, unless its end was reached before\<close>
  "write_part faults tmp limited disk =
     (let (out, result) = limited;
          ended = (case result of Input_failed e \<Rightarrow> Inl e | Size_mismatch \<Rightarrow> Inr True | Exact \<Rightarrow> Inr False)
      in if disk tmp \<noteq> None then (Inl ''EEXIST: file already exists'', disk)
         else case df_write faults of
             None \<Rightarrow> (ended, disk(tmp \<mapsto> concat out))
           | Some (n, e) \<Rightarrow>
               (if n < length out \<or> result = Exact then Inl e else ended, disk(tmp \<mapsto> concat (take n out))))"

definition local_upload ::
  "path \<Rightarrow> ident \<Rightarrow> disk_faults \<Rightarrow> string \<Rightarrow> body \<Rightarrow> int \<Rightarrow> disk \<Rightarrow> (string + int \<times> bool) \<times> disk" where
  \<comment> \<open>size, and whether it mismatches\<close>
  "local_upload base uuid faults key b declaredSizeBytes disk =
     (case resolve_key_path base key of
        Inl e \<Rightarrow> (Inl e, disk)
      | Inr p \<Rightarrow>
          if df_mkdir faults \<noteq> None then (Inl (the (df_mkdir faults)), disk)
          else let tmp = part_path base uuid;
                   (written, disk1) = write_part faults tmp (limit_body_size b declaredSizeBytes) disk;
                   cleaned = (if df_cleanup faults then disk1 else disk1(tmp := None))
               in case written of
                    Inl e \<Rightarrow> (Inl e, cleaned)
                  | Inr True \<Rightarrow> (Inr (0, True), cleaned)
                  | Inr False \<Rightarrow>
                      (case df_rename faults of
                         Some e \<Rightarrow> (Inl e, cleaned)
                       | None \<Rightarrow> (Inr (declaredSizeBytes, False), disk1(p := disk1 tmp, tmp := None))))"

definition local_download :: "path \<Rightarrow> string \<Rightarrow> disk \<Rightarrow> string + string option" where
  "local_download base key disk = map_sum id disk (resolve_key_path base key)"

definition local_delete :: "path \<Rightarrow> string set \<Rightarrow> string \<Rightarrow> disk \<Rightarrow> (string + unit) \<times> disk" where
  \<comment> \<open>the keys whose removal the file system refuses are a parameter\<close>
  "local_delete base failing key disk =
     (case resolve_key_path base key of
        Inl e \<Rightarrow> (Inl e, disk)
      | Inr p \<Rightarrow> if key \<in> failing then (Inl ''EPERM'', disk) else (Inr (), disk(p := None)))"

fun local_delete_many :: "path \<Rightarrow> string set \<Rightarrow> string list \<Rightarrow> disk \<Rightarrow> string list \<times> disk" where
  \<comment> \<open>the failed keys\<close>
  "local_delete_many base failing [] disk = ([], disk)"
| "local_delete_many base failing (k # ks) disk =
     (let (result, disk1) = local_delete base failing k disk;
          (failed, disk2) = local_delete_many base failing ks disk1
      in (case result of Inl _ \<Rightarrow> k # failed | Inr _ \<Rightarrow> failed, disk2))"

definition local_delete_by_prefix :: "path \<Rightarrow> string \<Rightarrow> disk \<Rightarrow> (string + unit) \<times> disk" where
  \<comment> \<open>\<open>rm -r\<close> of the directory; its failures are left out\<close>
  "local_delete_by_prefix base prefix disk =
     (case resolve_key_path base prefix of
        Inl e \<Rightarrow> (Inl e, disk)
      | Inr p \<Rightarrow> (Inr (), \<lambda>q. if take (length p) q = p then None else disk q))"

definition local_exists :: "path \<Rightarrow> string \<Rightarrow> disk \<Rightarrow> string + bool" where
  "local_exists base key disk = map_sum id (\<lambda>p. disk p \<noteq> None) (resolve_key_path base key)"

definition ends_with :: "string \<Rightarrow> string \<Rightarrow> bool" where
  "ends_with s t \<longleftrightarrow> starts_with (rev s) (rev t)"

definition local_initialize :: "path \<Rightarrow> disk \<Rightarrow> disk" where
  \<comment> \<open>removes the parts that an earlier run left behind\<close>
  "local_initialize base disk =
     (\<lambda>q. if (\<exists>n. q = base @ [uploads_name, n] \<and> ends_with ''.part'' n) then None else disk q)"

section \<open>Batch deletion\<close>

definition list_batch_size :: nat where "list_batch_size = 1000"

function r2_delete_chunks ::
  "(string list \<Rightarrow> 's \<Rightarrow> string option \<times> 's) \<Rightarrow> bool \<Rightarrow> string list \<Rightarrow> 's \<Rightarrow> (string + string list) \<times> 's" where
  \<comment> \<open>the loop from an index on; the flag says that the index is 0. \<open>bulk\<close> is \<open>bucket.delete\<close>, which may throw\<close>
  "r2_delete_chunks bulk first keys s =
     (if keys = [] then (Inr [], s)
      else case bulk (take list_batch_size keys) s of
        (None, s1) \<Rightarrow> r2_delete_chunks bulk False (drop list_batch_size keys) s1
      | (Some e, s1) \<Rightarrow> if first then (Inl e, s1) else (Inr keys, s1))"
  by pat_completeness auto
termination
  by (relation "measure (\<lambda>(bulk, first, keys, s). length keys)") (auto simp: list_batch_size_def)

definition r2_delete_many ::
  "(string list \<Rightarrow> 's \<Rightarrow> string option \<times> 's) \<Rightarrow> string list \<Rightarrow> 's \<Rightarrow> (string + string list) \<times> 's" where
  \<comment> \<open>the failed keys\<close>
  "r2_delete_many bulk = r2_delete_chunks bulk True"

function s3_delete_chunks ::
  "(string list \<Rightarrow> 's \<Rightarrow> (string + string list) \<times> 's) \<Rightarrow> bool \<Rightarrow> string list \<Rightarrow> string list \<Rightarrow> 's \<Rightarrow> (string + string list) \<times> 's" where
  "s3_delete_chunks bulk first failed keys s =
     (if keys = [] then (Inr failed, s)
      else case bulk (take list_batch_size keys) s of
        (Inr ks, s1) \<Rightarrow> s3_delete_chunks bulk False (failed @ ks) (drop list_batch_size keys) s1
      | (Inl e, s1) \<Rightarrow> if first \<and> failed = [] then (Inl e, s1) else (Inr (failed @ keys), s1))"
  by pat_completeness auto
termination
  by (relation "measure (\<lambda>(bulk, first, failed, keys, s). length keys)") (auto simp: list_batch_size_def)

definition s3_delete_many ::
  "(string list \<Rightarrow> 's \<Rightarrow> (string + string list) \<times> 's) \<Rightarrow> string list \<Rightarrow> 's \<Rightarrow> (string + string list) \<times> 's" where
  "s3_delete_many bulk = s3_delete_chunks bulk True []"

declare r2_delete_chunks.simps [simp del] s3_delete_chunks.simps [simp del]

fun delete_pages ::
  "nat \<Rightarrow> (string option \<Rightarrow> 's \<Rightarrow> (string + string list \<times> string option) \<times> 's) \<Rightarrow>
   (string list \<Rightarrow> 's \<Rightarrow> (string + string list) \<times> 's) \<Rightarrow> string \<Rightarrow> string option \<Rightarrow> 's \<Rightarrow> ((string + unit) \<times> 's) option" where
  \<comment> \<open>the loop of \<open>deleteByPrefix\<close>, with fuel: a listing gives keys and the cursor of the next page, if there is one\<close>
  "delete_pages 0 listing delete_many name cursor s = None"
| "delete_pages (Suc fuel) listing delete_many name cursor s =
     (case listing cursor s of
        (Inl e, s1) \<Rightarrow> Some (Inl e, s1)
      | (Inr (keys, next), s1) \<Rightarrow>
          (case delete_many keys s1 of
             (Inl e, s2) \<Rightarrow> Some (Inl e, s2)
           | (Inr failed, s2) \<Rightarrow>
               if failed \<noteq> [] then Some (Inl (name @ '' batch delete failed for '' @ show_nat (length failed) @ '' key(s)''), s2)
               else if truthy next then delete_pages fuel listing delete_many name next s2
               else Some (Inr (), s2)))"

section \<open>XML of S3\<close>

function replace_all :: "string \<Rightarrow> string \<Rightarrow> string \<Rightarrow> string" where
  \<comment> \<open>\<open>replaceAll\<close> of a pattern that is not empty\<close>
  "replace_all pat new [] = []"
| "replace_all pat new (c # cs) =
     (if pat \<noteq> [] \<and> starts_with pat (c # cs) then new @ replace_all pat new (drop (length pat) (c # cs))
      else c # replace_all pat new cs)"
  by pat_completeness auto
termination
  by (relation "measure (\<lambda>(pat, new, s). length s)") auto

definition encode_xml_entities :: "string \<Rightarrow> string" where
  "encode_xml_entities s =
     replace_all [CHR 0x27] ''&apos;'' (replace_all [CHR 0x22] ''&quot;''
       (replace_all ''>'' ''&gt;'' (replace_all ''<'' ''&lt;'' (replace_all ''&'' ''&amp;'' s))))"

definition decode_xml_entities :: "string \<Rightarrow> string" where
  "decode_xml_entities s =
     replace_all ''&amp;'' ''&'' (replace_all ''&apos;'' [CHR 0x27] (replace_all ''&quot;'' [CHR 0x22]
       (replace_all ''&gt;'' ''>'' (replace_all ''&lt;'' ''<'' s))))"

fun split_first :: "string \<Rightarrow> string \<Rightarrow> (string \<times> string) option" where
  \<comment> \<open>the texts before and after the first occurrence\<close>
  "split_first pat [] = (if pat = [] then Some ([], []) else None)"
| "split_first pat (c # cs) =
     (if starts_with pat (c # cs) then Some ([], drop (length pat) (c # cs))
      else map_option (\<lambda>(a, b). (c # a, b)) (split_first pat cs))"

lemma split_first_shorter: "split_first pat s = Some (a, b) \<Longrightarrow> length a + length pat + length b = length s"
  by (induction s arbitrary: a b) (auto simp: starts_with_def split: if_split_asm dest: arg_cong[of _ _ length])

function xml_elements :: "string \<Rightarrow> string \<Rightarrow> string list" where
  \<comment> \<open>the matches of a regular expression: a tag, as little text as possible, and the closing tag\<close>
  "xml_elements tag s =
     (case split_first (''<'' @ tag @ ''>'') s of
        None \<Rightarrow> []
      | Some (_, rest) \<Rightarrow>
          (case split_first (''</'' @ tag @ ''>'') rest of
             None \<Rightarrow> []
           | Some (inner, rest') \<Rightarrow> inner # xml_elements tag rest'))"
  by pat_completeness auto
termination
  by (relation "measure (length \<circ> snd)") (auto dest!: split_first_shorter)

declare xml_elements.simps [simp del]

definition s3_delete_result_error_keys :: "string \<Rightarrow> string list" where
  "s3_delete_result_error_keys xml =
     concat (map (\<lambda>e. case xml_elements ''Key'' e of [] \<Rightarrow> [] | k # _ \<Rightarrow> [decode_xml_entities k]) (xml_elements ''Error'' xml))"

definition s3_delete_body :: "string list \<Rightarrow> string" where
  "s3_delete_body keys =
     ''<?xml version=\"1.0\" encoding=\"UTF-8\"?><Delete>'' @
     concat (map (\<lambda>k. ''<Object><Key>'' @ encode_xml_entities k @ ''</Key></Object>'') keys) @ ''</Delete>''"

definition s3_delete_objects ::
  "(string \<Rightarrow> 's \<Rightarrow> (string + int \<times> string) \<times> 's) \<Rightarrow> string list \<Rightarrow> 's \<Rightarrow> (string + string list) \<times> 's" where
  \<comment> \<open>\<open>post\<close> is the signed request: it throws, or answers with a status and a text\<close>
  "s3_delete_objects post keys s =
     (case post (s3_delete_body keys) s of
        (Inl e, s1) \<Rightarrow> (Inl e, s1)
      | (Inr (status, answer), s1) \<Rightarrow>
          (if status < 200 \<or> 299 < status then Inl (''s3 batch delete failed: '' @ show_num status @ '' '' @ answer)
           else Inr (s3_delete_result_error_keys answer), s1))"

definition s3_list_objects ::
  "(string option \<Rightarrow> 's \<Rightarrow> (string + int \<times> string) \<times> 's) \<Rightarrow> string \<Rightarrow> string option \<Rightarrow> 's \<Rightarrow>
   (string + string list \<times> string option) \<times> 's" where
  \<comment> \<open>\<open>get\<close> is the signed request for the prefix from a continuation token on\<close>
  "s3_list_objects get prefix token s =
     (case get token s of
        (Inl e, s1) \<Rightarrow> (Inl e, s1)
      | (Inr (status, xml), s1) \<Rightarrow>
          (if status < 200 \<or> 299 < status
           then Inl (''s3 list-objects failed for prefix '' @ prefix @ '': '' @ show_num status)
           else Inr (map decode_xml_entities (xml_elements ''Key'' xml),
             if split_first ''<IsTruncated>true</IsTruncated>'' xml = None then None
             else (case xml_elements ''NextContinuationToken'' xml of [] \<Rightarrow> None | t # _ \<Rightarrow> Some t)), s1))"

section \<open>Paths stay inside the storage\<close>

lemma path_walk_append: "path_walk p (a @ b) = path_walk (path_walk p a) b"
  by (induction a arbitrary: p) auto

lemma path_walk_prefix: "''..'' \<notin> set ss \<Longrightarrow> \<exists>q. path_walk p ss = p @ q \<and> set q \<subseteq> set ss - {[], ''.'', ''..''}"
proof (induction ss arbitrary: p)
  case (Cons s ss)
  show ?case
  proof (cases "s = [] \<or> s = ''.''")
    case True
    then show ?thesis using Cons.IH[of p] Cons.prems by auto
  next
    case False
    then obtain q where "path_walk (p @ [s]) ss = (p @ [s]) @ q" "set q \<subseteq> set ss - {[], ''.'', ''..''}"
      using Cons.IH[of "p @ [s]"] Cons.prems by auto
    then show ?thesis using False Cons.prems by (intro exI[of _ "s # q"]) auto
  qed
qed simp

lemma resolve_key_path_Inr:
  assumes "resolve_key_path base key = Inr p"
  shows "\<exists>q. p = base @ q \<and> q \<noteq> [] \<and> hd q \<noteq> uploads_name \<and> set q \<inter> {[], ''.'', ''..''} = {}"
proof -
  have key: "''..'' \<notin> set (js_split (CHR ''/'') key)" and p: "p = path_resolve base key" "p \<noteq> base" "base \<noteq> []"
    "take (length base) p = base" "p ! length base \<noteq> uploads_name"
    using assms by (auto simp: resolve_key_path_def Let_def split: if_split_asm)
  obtain q where q: "p = base @ q" using p(4) append_take_drop_id[of "length base" p] by metis
  have "set p \<inter> {[], ''.'', ''..''} = {} \<or> (\<exists>r. p = base @ r \<and> set r \<inter> {[], ''.'', ''..''} = {})"
    using path_walk_prefix[OF key, of "[]"] path_walk_prefix[OF key, of base] p(1)
    by (auto simp: path_resolve_def split: if_split_asm)
  then have "set q \<inter> {[], ''.'', ''..''} = {}" using q by auto
  then show ?thesis using q p(2,5) by (cases q) (auto simp: nth_append)
qed

lemma path_walk_words: "\<forall>s \<in> set ss. s \<noteq> [] \<and> s \<noteq> ''.'' \<and> s \<noteq> ''..'' \<Longrightarrow> path_walk p ss = p @ ss"
  by (induction ss arbitrary: p) auto

end
