(* ===== verification/Object_Storage.thy ===== *)
theory Object_Storage
  imports Blob_Storage Health_Service
begin

text \<open>
  What the object storages promise their callers: an upload that fails changes no object, keys stay
  inside the storage and do not collide, and a batch deletion names every key it did not delete.
\<close>

section \<open>Uploads to the disk\<close>

lemma part_is_no_object: "resolve_key_path base k = Inr q \<Longrightarrow> q \<noteq> part_path base uuid"
  by (drule resolve_key_path_Inr) (auto simp: part_path_def)

lemma write_part_cases:
  assumes "write_part faults tmp limited disk = (written, disk1)"
  shows "(\<forall>q. q \<noteq> tmp \<longrightarrow> disk1 q = disk q) \<and>
    (written = Inr False \<longrightarrow> snd limited = Exact \<and> disk1 tmp = Some (concat (fst limited)))"
  using assms by (auto simp: write_part_def Let_def split_beta split: if_split_asm option.splits limited.splits)

lemma local_upload_effect:
  assumes run: "local_upload base uuid faults key b declaredSizeBytes disk = (res, disk')"
  shows "if res = Inr (declaredSizeBytes, False)
    then by_fails b = None \<and> int (length (concat (by_chunks b))) = declaredSizeBytes \<and>
      (\<forall>k q. resolve_key_path base k = Inr q \<longrightarrow> disk' q =
         (if resolve_key_path base key = Inr q then Some (concat (by_chunks b)) else disk q)) \<and>
      disk' (part_path base uuid) = None
    else (isl res \<or> res = Inr (0, True)) \<and> (\<forall>k q. resolve_key_path base k = Inr q \<longrightarrow> disk' q = disk q) \<and>
      (\<not> df_cleanup faults \<and> disk (part_path base uuid) = None \<longrightarrow> disk' (part_path base uuid) = None)"
proof (cases "resolve_key_path base key")
  case (Inl e)
  then show ?thesis using run by (auto simp: local_upload_def)
next
  case (Inr p)
  let ?tmp = "part_path base uuid"
  show ?thesis
  proof (cases "df_mkdir faults")
    case (Some e)
    then show ?thesis using run Inr by (auto simp: local_upload_def)
  next
    case None
    obtain written disk1 where w: "write_part faults ?tmp (limit_body_size b declaredSizeBytes) disk = (written, disk1)"
      by fastforce
    let ?cleaned = "if df_cleanup faults then disk1 else disk1(?tmp := None)"
    have frame: "\<And>q. q \<noteq> ?tmp \<Longrightarrow> disk1 q = disk q"
      and exact: "written = Inr False \<Longrightarrow> snd (limit_body_size b declaredSizeBytes) = Exact \<and>
        disk1 ?tmp = Some (concat (fst (limit_body_size b declaredSizeBytes)))"
      using write_part_cases[OF w] by auto
    have kept: "\<And>k q. resolve_key_path base k = Inr q \<Longrightarrow> ?cleaned q = disk q"
      using frame part_is_no_object by auto
    consider "written = Inr False \<and> df_rename faults = None" "res = Inr (declaredSizeBytes, False)" "disk' = disk1(p := disk1 ?tmp, ?tmp := None)"
      | "isl res \<or> res = Inr (0, True)" "disk' = ?cleaned"
      using run Inr None w by (auto simp: local_upload_def Let_def split: sum.splits bool.splits option.splits)
    then show ?thesis
    proof cases
      case 1
      have b: "by_fails b = None" "int (length (concat (by_chunks b))) = declaredSizeBytes"
        "fst (limit_body_size b declaredSizeBytes) = by_chunks b"
        using exact 1(1) limit_chunks_Exact limit_chunks_out by (auto simp: limit_body_size_def)
      have "p \<noteq> ?tmp" using Inr by (rule part_is_no_object)
      then show ?thesis using 1 b exact frame Inr part_is_no_object by auto
    next
      case 2
      then have "res \<noteq> Inr (declaredSizeBytes, False)" by auto
      then show ?thesis using 2 kept frame by auto
    qed
  qed
qed

text \<open>
  A failed upload changes no object. If a body is uploaded to the disk, then either the object of its
  key is afterwards exactly that body, of exactly the declared length, or no object at all has changed:
  not if the length is wrong, not if reading the body, writing it or renaming the file fails. Other keys
  never change, and an upload leaves no temporary file behind unless its removal fails.
\<close>

theorem upload_is_all_or_nothing:
  assumes run: "local_upload base uuid faults key b declaredSizeBytes disk = (res, disk')"
  shows "if res = Inr (declaredSizeBytes, False)
    then by_fails b = None \<and> int (length (concat (by_chunks b))) = declaredSizeBytes \<and>
      (\<forall>k q. resolve_key_path base k = Inr q \<longrightarrow> disk' q =
         (if resolve_key_path base key = Inr q then Some (concat (by_chunks b)) else disk q)) \<and>
      disk' (part_path base uuid) = None
    else (isl res \<or> res = Inr (0, True)) \<and> (\<forall>k q. resolve_key_path base k = Inr q \<longrightarrow> disk' q = disk q) \<and>
      (\<not> df_cleanup faults \<and> disk (part_path base uuid) = None \<longrightarrow> disk' (part_path base uuid) = None)"
  using run by (rule local_upload_effect)

lemma example_upload:
  "local_upload [''data''] ''u'' \<lparr>df_mkdir = None, df_write = None, df_rename = None, df_cleanup = False\<rparr> ''v/b''
     \<lparr>by_chunks = [''ab'', ''c''], by_fails = None\<rparr> 3 Map.empty = (Inr (3, False), [[''data'', ''v'', ''b''] \<mapsto> ''abc''])"
  by (auto simp: local_upload_def resolve_key_path_def path_resolve_def starts_with_def uploads_name_def part_path_def
      write_part_def limit_body_size_def fun_eq_iff)

theorem upload_is_all_or_nothing_witness:
  "[[''data'', ''v'', ''b''] \<mapsto> ''abc''] [''data'', ''.uploads'', ''u.part''] = (None :: string option)"
  using upload_is_all_or_nothing[OF example_upload] by (simp add: part_path_def uploads_name_def)

section \<open>Keys of blobs\<close>

definition safe_id :: "ident \<Rightarrow> bool" where
  \<comment> \<open>an identifier as the routes pass it on: safe, and trimmed\<close>
  "safe_id v \<longleftrightarrow> is_safe_blob_id v \<and> js_trim v = v"

lemma safe_idD:
  assumes "safe_id v"
  shows "v \<noteq> []" "CHR ''/'' \<notin> set v" "v \<noteq> ''.''" "v \<noteq> ''..''" "v \<noteq> uploads_name" "\<not> starts_with ''/'' (v @ w)"
proof -
  have v: "v \<noteq> []" "list_all safe_id_char v" using assms by (auto simp: safe_id_def is_safe_blob_id_def Let_def)
  have dot: "\<not> safe_id_char (CHR ''.'')" "\<not> safe_id_char (CHR ''/'')" by (simp_all add: safe_id_char_def char_between_def less_eq_char_def)
  then have "CHR ''.'' \<notin> set v" "CHR ''/'' \<notin> set v" using v(2) by (auto simp: list_all_iff)
  then show "v \<noteq> []" "CHR ''/'' \<notin> set v" "v \<noteq> ''.''" "v \<noteq> ''..''" "v \<noteq> uploads_name" "\<not> starts_with ''/'' (v @ w)"
    using v(1) by (auto simp: uploads_name_def starts_with_def neq_Nil_conv)
qed

lemma split_key: "safe_id v \<Longrightarrow> safe_id b \<Longrightarrow> js_split (CHR ''/'') (blob_object_key v b) = [v, b]"
  using safe_idD[of v] safe_idD[of b] by (simp add: blob_object_key_def blob_object_key_prefix_def js_split_append js_split_no)

lemma safe_key_inj: "safe_id v \<Longrightarrow> safe_id b \<Longrightarrow> safe_id v' \<Longrightarrow> safe_id b' \<Longrightarrow>
    blob_object_key v b = blob_object_key v' b' \<longleftrightarrow> v = v' \<and> b = b'"
  using split_key[of v b] split_key[of v' b'] by (metis list.inject)

lemma resolve_safe_key:
  assumes "base \<noteq> []" "safe_id v" "safe_id b"
  shows "resolve_key_path base (blob_object_key v b) = Inr (base @ [v, b])"
    and "resolve_key_path base (blob_object_key_prefix v) = Inr (base @ [v])"
proof -
  have words: "\<And>x. x \<in> {v, b} \<Longrightarrow> x \<noteq> [] \<and> x \<noteq> ''.'' \<and> x \<noteq> ''..'' \<and> x \<noteq> uploads_name"
    using safe_idD(1,3,4,5)[OF assms(2)] safe_idD(1,3,4,5)[OF assms(3)] by auto
  have rel: "\<not> starts_with ''/'' (blob_object_key v b)" "\<not> starts_with ''/'' (blob_object_key_prefix v)"
    using safe_idD(6)[OF assms(2)] by (simp_all add: blob_object_key_def blob_object_key_prefix_def)
  have p1: "path_resolve base (blob_object_key v b) = base @ [v, b]"
    using words rel assms split_key by (simp add: path_resolve_def)
  have split: "js_split (CHR ''/'') (blob_object_key_prefix v) = [v, []]"
    using safe_idD(2)[OF assms(2)] js_split_append[of "CHR ''/''" v "[]"] by (simp add: blob_object_key_prefix_def)
  then have p2: "path_resolve base (blob_object_key_prefix v) = base @ [v]"
    using words rel by (simp add: path_resolve_def)
  show "resolve_key_path base (blob_object_key v b) = Inr (base @ [v, b])"
    using words assms p1 split_key by (auto simp: resolve_key_path_def)
  show "resolve_key_path base (blob_object_key_prefix v) = Inr (base @ [v])"
    using words assms p2 split by (auto simp: resolve_key_path_def)
qed

section \<open>The interface the coordinator deletes through\<close>

locale object_port =
  fixes objects :: "'s \<Rightarrow> string set"
    and usable :: "string \<Rightarrow> bool"
    and delete_many :: "string list \<Rightarrow> 's \<Rightarrow> ('e + string list) \<times> 's"
  assumes only_listed: "list_all usable ks \<Longrightarrow> delete_many ks s = (r, s') \<Longrightarrow> objects s - set ks \<subseteq> objects s' \<and> objects s' \<subseteq> objects s"
    and truthful: "list_all usable ks \<Longrightarrow> delete_many ks s = (Inr failed, s') \<Longrightarrow> set failed \<subseteq> set ks \<and> objects s' \<inter> set ks \<subseteq> set failed"
begin

lemma spared:
  assumes "list_all usable ks" "delete_many ks s = (r, s')" "k \<notin> set ks"
  shows "k \<in> objects s' \<longleftrightarrow> k \<in> objects s"
  using only_listed[OF assms(1,2)] assms(3) by auto

lemma unreported_gone:
  assumes "list_all usable ks" "delete_many ks s = (Inr failed, s')" "k \<in> set ks" "k \<notin> set failed"
  shows "k \<notin> objects s'"
  using truthful[OF assms(1,2)] assms(3,4) by auto

end

interpretation port: object_port co_objects "\<lambda>k. True" "object_delete_many env" for env
  by unfold_locales (auto simp: object_delete_many_def split: option.splits)

text \<open>
  What is documented of the platforms: a request deletes at most the keys it names, and, if it is
  successful, all of them, but for those that an answer of S3 reports as failed.
\<close>

definition bucket_deletes :: "('s \<Rightarrow> string set) \<Rightarrow> (string list \<Rightarrow> 's \<Rightarrow> (string + string list) \<times> 's) \<Rightarrow> bool" where
  "bucket_deletes objects bulk \<longleftrightarrow> (\<forall>ks s r s'. bulk ks s = (r, s') \<longrightarrow> objects s - set ks \<subseteq> objects s' \<and> objects s' \<subseteq> objects s \<and>
     (\<forall>failed. r = Inr failed \<longrightarrow> set failed \<subseteq> set ks \<and> objects s' \<inter> set ks \<subseteq> set failed))"

lemma set_chunk: "set ks = set (take n ks) \<union> set (drop n ks)"
  by (metis append_take_drop_id set_append)

lemma s3_delete_chunks_port:
  assumes bulk: "bucket_deletes objects bulk"
  shows "s3_delete_chunks bulk first failed0 ks s = (r, s') \<Longrightarrow> objects s - set ks \<subseteq> objects s' \<and> objects s' \<subseteq> objects s \<and>
    (\<forall>failed. r = Inr failed \<longrightarrow> set failed \<subseteq> set failed0 \<union> set ks \<and> objects s' \<inter> set ks \<subseteq> set failed \<and> set failed0 \<subseteq> set failed)"
proof (induction ks arbitrary: first failed0 s rule: measure_induct_rule[of length])
  case (less ks)
  show ?case
  proof (cases "ks = []")
    case True
    then show ?thesis using less.prems by (auto simp: s3_delete_chunks.simps)
  next
    case False
    let ?c = "take list_batch_size ks" and ?k = "drop list_batch_size ks"
    obtain e s1 where b: "bulk ?c s = (e, s1)" by fastforce
    have keep: "objects s - set ?c \<subseteq> objects s1" "objects s1 \<subseteq> objects s"
      "\<And>fs. e = Inr fs \<Longrightarrow> set fs \<subseteq> set ?c \<and> objects s1 \<inter> set ?c \<subseteq> set fs"
      using bulk b unfolding bucket_deletes_def by blast+
    note parts = set_chunk[of ks list_batch_size]
    show ?thesis
    proof (cases e)
      case (Inl m)
      then show ?thesis using less.prems False b keep parts by (auto simp: s3_delete_chunks.simps[of bulk first] split: if_split_asm)
    next
      case (Inr fs)
      have "length ?k < length ks" using False by (simp add: list_batch_size_def)
      moreover have "s3_delete_chunks bulk False (failed0 @ fs) ?k s1 = (r, s')"
        using less.prems False b Inr by (simp add: s3_delete_chunks.simps[of bulk first])
      ultimately have "objects s1 - set ?k \<subseteq> objects s' \<and> objects s' \<subseteq> objects s1 \<and> (\<forall>failed. r = Inr failed \<longrightarrow>
          set failed \<subseteq> set (failed0 @ fs) \<union> set ?k \<and> objects s' \<inter> set ?k \<subseteq> set failed \<and> set (failed0 @ fs) \<subseteq> set failed)"
        by (rule less.IH)
      note rest = this[unfolded set_append]
      show ?thesis unfolding parts using keep(1,2) keep(3)[OF Inr] rest by blast
    qed
  qed
qed

lemma r2_delete_chunks_port:
  assumes bulk: "bucket_deletes objects (\<lambda>ks s. map_prod (\<lambda>e. case e of Some m \<Rightarrow> Inl m | None \<Rightarrow> Inr []) id (bulk ks s))"
  shows "r2_delete_chunks bulk first ks s = (r, s') \<Longrightarrow> objects s - set ks \<subseteq> objects s' \<and> objects s' \<subseteq> objects s \<and>
    (\<forall>failed. r = Inr failed \<longrightarrow> set failed \<subseteq> set ks \<and> objects s' \<inter> set ks \<subseteq> set failed)"
proof (induction ks arbitrary: first s rule: measure_induct_rule[of length])
  case (less ks)
  show ?case
  proof (cases "ks = []")
    case True
    then show ?thesis using less.prems by (auto simp: r2_delete_chunks.simps)
  next
    case False
    let ?c = "take list_batch_size ks" and ?k = "drop list_batch_size ks"
    obtain e s1 where b: "bulk ?c s = (e, s1)" by fastforce
    have mapped: "map_prod (\<lambda>e. case e of Some m \<Rightarrow> Inl m | None \<Rightarrow> Inr []) id (bulk ?c s) = (case e of Some m \<Rightarrow> Inl m | None \<Rightarrow> Inr [], s1)"
      using b by simp
    have keep: "objects s - set ?c \<subseteq> objects s1" "objects s1 \<subseteq> objects s" "e = None \<Longrightarrow> objects s1 \<inter> set ?c = {}"
      using bulk mapped unfolding bucket_deletes_def by fastforce+
    note parts = set_chunk[of ks list_batch_size]
    show ?thesis
    proof (cases e)
      case (Some m)
      then show ?thesis using less.prems False b keep parts by (auto simp: r2_delete_chunks.simps[of bulk first] split: if_split_asm)
    next
      case None
      have "length ?k < length ks" using False by (simp add: list_batch_size_def)
      moreover have "r2_delete_chunks bulk False ?k s1 = (r, s')"
        using less.prems False b None by (simp add: r2_delete_chunks.simps[of bulk first])
      ultimately have "objects s1 - set ?k \<subseteq> objects s' \<and> objects s' \<subseteq> objects s1 \<and> (\<forall>failed. r = Inr failed \<longrightarrow>
          set failed \<subseteq> set ?k \<and> objects s' \<inter> set ?k \<subseteq> set failed)"
        by (rule less.IH)
      then show ?thesis using keep(1,2) keep(3)[OF None] parts by auto
    qed
  qed
qed

text \<open>So both adapters are object ports.\<close>

lemma s3_is_object_port: "bucket_deletes objects bulk \<Longrightarrow> object_port objects (\<lambda>k. True) (s3_delete_many bulk)"
  by unfold_locales (auto simp: s3_delete_many_def dest!: s3_delete_chunks_port)

lemma r2_is_object_port:
  assumes "bucket_deletes objects (\<lambda>ks s. map_prod (\<lambda>e. case e of Some m \<Rightarrow> Inl m | None \<Rightarrow> Inr []) id (bulk ks s))"
  shows "object_port objects (\<lambda>k. True) (r2_delete_many bulk)"
  by unfold_locales (auto simp: r2_delete_many_def dest!: r2_delete_chunks_port[OF assms])

section \<open>The disk behind the coordinator\<close>

definition safe_key :: "string \<Rightarrow> bool" where
  "safe_key k \<longleftrightarrow> (\<exists>v b. safe_id v \<and> safe_id b \<and> k = blob_object_key v b)"

definition disk_objects :: "path \<Rightarrow> disk \<Rightarrow> string set" where
  "disk_objects base disk = {k. safe_key k \<and> base \<noteq> [] \<and> disk (base @ js_split (CHR ''/'') k) \<noteq> None}"

lemma disk_objects_root [simp]: "disk_objects [] disk = {}"
  by (simp add: disk_objects_def)

lemma safe_key_path: "base \<noteq> [] \<Longrightarrow> safe_key k \<Longrightarrow> resolve_key_path base k = Inr (base @ js_split (CHR ''/'') k)"
  by (auto simp: safe_key_def resolve_safe_key split_key)

lemma safe_key_split_inj: "safe_key k \<Longrightarrow> safe_key l \<Longrightarrow> js_split (CHR ''/'') k = js_split (CHR ''/'') l \<longleftrightarrow> k = l"
  by (auto simp: safe_key_def split_key)

lemma resolve_below_root: "resolve_key_path [] k \<noteq> Inr p"
  by (auto simp: resolve_key_path_def Let_def)

lemma local_delete_objects:
  assumes "safe_key k" "base \<noteq> []"
  shows "local_delete base failing k disk = (if k \<in> failing then Inl ''EPERM'' else Inr (), snd (local_delete base failing k disk))"
    and "disk_objects base (snd (local_delete base failing k disk)) = disk_objects base disk - (if k \<in> failing then {} else {k})"
  using assms by (auto simp: local_delete_def safe_key_path disk_objects_def safe_key_split_inj split: if_split_asm)

lemma local_delete_many_objects:
  assumes "list_all safe_key ks" "base \<noteq> []"
  shows "fst (local_delete_many base failing ks disk) = filter (\<lambda>k. k \<in> failing) ks \<and>
    disk_objects base (snd (local_delete_many base failing ks disk)) = disk_objects base disk - (set ks - failing)"
  using assms(1)
proof (induction ks arbitrary: disk)
  case (Cons k ks)
  then have k: "safe_key k" by simp
  obtain d1 where d1: "local_delete base failing k disk = (if k \<in> failing then Inl ''EPERM'' else Inr (), d1)"
      "disk_objects base d1 = disk_objects base disk - (if k \<in> failing then {} else {k})"
    using local_delete_objects[OF k assms(2), of failing disk] by (metis snd_conv)
  show ?case using Cons.IH[of d1] Cons.prems d1 by (auto simp: Let_def split_beta)
qed simp

lemma local_delete_many_listed: "set (fst (local_delete_many base failing ks disk)) \<subseteq> set ks"
  by (induction ks arbitrary: disk) (force simp: Let_def split_beta split: sum.splits)+

text \<open>With failures at the level of keys, the disk is an object port too.\<close>

interpretation disk: object_port "disk_objects base" safe_key "\<lambda>ks d. map_prod Inr id (local_delete_many base failing ks d)" for base failing
proof (unfold_locales, goal_cases)
  case (1 ks s r s')
  then have "s' = snd (local_delete_many base failing ks s)" by (simp add: prod_eq_iff)
  then show ?case using local_delete_many_objects[OF 1(1), of base failing s] by (cases "base = []") auto
next
  case (2 ks s failed s')
  then have "s' = snd (local_delete_many base failing ks s)" "failed = fst (local_delete_many base failing ks s)"
    by (simp_all add: prod_eq_iff)
  then show ?case using local_delete_many_objects[OF 2(1), of base failing s] local_delete_many_listed[of base failing ks s]
    by (cases "base = []") auto
qed

lemma starts_with_vault:
  assumes "safe_id v" "safe_id v'"
  shows "starts_with (blob_object_key_prefix v) (blob_object_key v' b) \<longleftrightarrow> v = v'"
proof
  assume "starts_with (blob_object_key_prefix v) (blob_object_key v' b)"
  then have "blob_object_key v' b = blob_object_key_prefix v @ drop (length (blob_object_key_prefix v)) (blob_object_key v' b)"
    unfolding starts_with_def by (metis append_take_drop_id)
  then obtain w where "v' @ CHR ''/'' # b = v @ CHR ''/'' # w"
    unfolding blob_object_key_def blob_object_key_prefix_def by auto
  then have "js_split (CHR ''/'') (v' @ CHR ''/'' # b) = js_split (CHR ''/'') (v @ CHR ''/'' # w)" by simp
  then show "v = v'" using assms by (simp add: js_split_append safe_idD(2))
qed (simp add: blob_object_key_has_prefix)

text \<open>
  C27. The disk is the object storage the coordinator relies on. In the coordinator the storage is a set of keys
  that grows by uploads and shrinks by deletions. For keys made of safe identifiers the files below the base
  directory are exactly such a set: batch deletion, single deletion, existence and the removal of a whole
  vault agree, a key is never outside the base directory, and an upload adds its key and no other.
\<close>

theorem disk_implements_object_port:
  assumes base: "base \<noteq> []" and env: "ev_storage env = None" and c: "co_objects c = disk_objects base disk"
    and key: "safe_key key" and keys: "list_all safe_key keys" and v: "safe_id v"
  shows "map_prod id co_objects (object_delete_many env keys c) =
      map_prod Inr (disk_objects base) (local_delete_many base (ev_failing env) keys disk) \<and>
    co_objects (snd (object_delete env key c)) = disk_objects base (snd (local_delete base (ev_failing env) key disk)) \<and>
    (object_exists env key c = Inr True \<longleftrightarrow> local_exists base key disk = Inr True) \<and>
    co_objects (snd (object_delete_prefix env (blob_object_key_prefix v) c)) =
      disk_objects base (snd (local_delete_by_prefix base (blob_object_key_prefix v) disk)) \<and>
    (\<forall>uuid faults b n m disk'. local_upload base uuid faults key b n disk = (Inr (m, False), disk') \<longrightarrow>
       disk_objects base disk' = insert key (disk_objects base disk))"
proof (intro conjI allI impI)
  show "map_prod id co_objects (object_delete_many env keys c) = map_prod Inr (disk_objects base) (local_delete_many base (ev_failing env) keys disk)"
    using local_delete_many_objects[OF keys base, of "ev_failing env" disk] env c by (simp add: object_delete_many_def prod_eq_iff)
  show "co_objects (snd (object_delete env key c)) = disk_objects base (snd (local_delete base (ev_failing env) key disk))"
    using local_delete_objects(2)[OF key base, of "ev_failing env" disk] env c by (auto simp: object_delete_def)
  show "object_exists env key c = Inr True \<longleftrightarrow> local_exists base key disk = Inr True"
    using key base env c by (simp add: object_exists_def local_exists_def safe_key_path disk_objects_def)
  show "co_objects (snd (object_delete_prefix env (blob_object_key_prefix v) c)) =
      disk_objects base (snd (local_delete_by_prefix base (blob_object_key_prefix v) disk))"
  proof -
    have "starts_with (blob_object_key_prefix v) k \<longleftrightarrow> hd (js_split (CHR ''/'') k) = v" if k: "safe_key k" for k
      using k v starts_with_vault[OF v] by (auto simp: safe_key_def split_key)
    moreover have "js_split (CHR ''/'') k \<noteq> []" if "safe_key k" for k using that by (auto simp: safe_key_def split_key)
    ultimately show ?thesis
      using v base env c resolve_safe_key(2)[OF base v v]
      by (auto simp: object_delete_prefix_def local_delete_by_prefix_def disk_objects_def take_Suc split: if_split_asm)
  qed
next
  fix uuid faults b n m disk'
  assume run: "local_upload base uuid faults key b n disk = (Inr (m, False), disk')"
  note effect = local_upload_effect[OF run]
  have "m = n" using effect by (auto split: if_split_asm)
  then have files: "\<And>k q. resolve_key_path base k = Inr q \<Longrightarrow>
      disk' q = (if resolve_key_path base key = Inr q then Some (concat (by_chunks b)) else disk q)"
    using effect by simp
  have "disk' (base @ js_split (CHR ''/'') k) = (if k = key then Some (concat (by_chunks b)) else disk (base @ js_split (CHR ''/'') k))"
    if k: "safe_key k" for k
    using files[OF safe_key_path[OF base k]] key base k by (simp add: safe_key_path safe_key_split_inj eq_commute[of k])
  then show "disk_objects base disk' = insert key (disk_objects base disk)"
    using key base by (auto simp: disk_objects_def split: if_split_asm)
qed

lemma example_safe: "safe_id ''v''" "safe_id ''b''"
  by (simp_all add: safe_id_def is_safe_blob_id_def js_trim_def js_space_def safe_id_char_def char_between_def less_eq_char_def)

lemma example_safe_key: "safe_key ''v/b''"
  unfolding safe_key_def
  by (rule exI[of _ "''v''"], rule exI[of _ "''b''"]) (simp add: example_safe blob_object_key_def blob_object_key_prefix_def)

theorem disk_implements_object_port_witness:
  "disk_objects [''data''] [[''data'', ''v'', ''b''] \<mapsto> ''abc''] = {''v/b''}"
proof -
  have empty: "co_objects (example_vault\<lparr>co_objects := {}\<rparr>) = disk_objects [''data''] Map.empty" by (simp add: disk_objects_def)
  have "insert ''v/b'' (disk_objects [''data''] Map.empty) = {''v/b''}" by (simp add: disk_objects_def)
  then show ?thesis
    using disk_implements_object_port[OF _ _ empty example_safe_key, of example_env "[]" "''v''"] example_upload example_safe
    by (simp add: example_env_sel)
qed

section \<open>What S3 reports\<close>

definition xml_entity :: "char \<Rightarrow> string" where
  "xml_entity c = (if c = CHR ''&'' then ''&amp;'' else if c = CHR ''<'' then ''&lt;'' else if c = CHR ''>'' then ''&gt;''
     else if c = CHR 0x22 then ''&quot;'' else if c = CHR 0x27 then ''&apos;'' else [c])"

lemma replace_single_Cons: "replace_all [c] w (x # s) = (if x = c then w @ replace_all [c] w s else x # replace_all [c] w s)"
  by (simp add: starts_with_def)

lemma encode_xml_chars: "encode_xml_entities s = concat (map xml_entity s)"
proof (induction s)
  case (Cons c s)
  consider "c = CHR ''&''" | "c = CHR ''<''" | "c = CHR ''>''" | "c = CHR 0x22" | "c = CHR 0x27"
    | "c \<noteq> CHR ''&''" "c \<noteq> CHR ''<''" "c \<noteq> CHR ''>''" "c \<noteq> CHR 0x22" "c \<noteq> CHR 0x27" by blast
  then show ?case
    using Cons by cases (simp_all add: encode_xml_entities_def replace_single_Cons xml_entity_def del: replace_all.simps(2))
qed (simp add: encode_xml_entities_def)

text \<open>Decoding undoes one entity after the other.\<close>

definition undone :: "char list \<Rightarrow> char \<Rightarrow> string" where
  "undone cs c = (if c \<in> set cs then [c] else xml_entity c)"

lemma replace_plain: "p \<noteq> x \<Longrightarrow> replace_all (p # ps) w (x # s) = x # replace_all (p # ps) w s"
  by (simp add: starts_with_def)

lemma replace_here: "replace_all (p # ps) w (p # ps @ s) = w @ replace_all (p # ps) w s"
  by (simp add: starts_with_def)

definition xml_specials :: "char list" where
  "xml_specials = [CHR ''&'', CHR ''<'', CHR ''>'', CHR 0x22, CHR 0x27]"

lemma xml_entity_shape:
  "c \<in> set xml_specials \<Longrightarrow> \<exists>p. xml_entity c = CHR ''&'' # p \<and> CHR ''&'' \<notin> set p \<and> 2 \<le> length p"
  "c \<notin> set xml_specials \<Longrightarrow> xml_entity c = [c]" "CHR ''&'' \<in> set xml_specials"
  by (auto simp: xml_specials_def xml_entity_def)

lemma xml_entity_code: "c \<in> set xml_specials \<Longrightarrow> x \<in> set xml_specials \<Longrightarrow> c \<noteq> x \<Longrightarrow> take 3 (xml_entity c) \<noteq> take 3 (xml_entity x)"
  by (auto simp: xml_specials_def xml_entity_def)

lemma replace_skip: "p \<notin> set e \<Longrightarrow> replace_all (p # ps) w (e @ s) = e @ replace_all (p # ps) w s"
  by (induction e) (simp_all add: replace_plain del: replace_all.simps(2))

lemma replace_other:
  assumes "c \<in> set xml_specials" "x \<in> set xml_specials" "c \<noteq> x"
  shows "replace_all (xml_entity c) w (xml_entity x @ s) = xml_entity x @ replace_all (xml_entity c) w s"
proof -
  obtain p where p: "xml_entity c = CHR ''&'' # p" "2 \<le> length p" using xml_entity_shape(1)[OF assms(1)] by blast
  obtain e where e: "xml_entity x = CHR ''&'' # e" "CHR ''&'' \<notin> set e" "2 \<le> length e" using xml_entity_shape(1)[OF assms(2)] by blast
  have "\<not> starts_with (xml_entity c) (xml_entity x @ s)"
  proof
    assume "starts_with (xml_entity c) (xml_entity x @ s)"
    then have "take 3 (take (length (xml_entity c)) (xml_entity x @ s)) = take 3 (xml_entity c)" by (simp add: starts_with_def)
    then have "take 3 (xml_entity x) = take 3 (xml_entity c)" using p e by (simp add: min_def)
    then show False using xml_entity_code[OF assms] by simp
  qed
  then show ?thesis using p e by (simp add: replace_skip)
qed

lemma undo_entity:
  assumes c: "c \<in> set xml_specials" and amp: "CHR ''&'' \<notin> set cs"
  shows "replace_all (xml_entity c) [c] (concat (map (undone cs) s)) = concat (map (undone (c # cs)) s)"
proof (induction s)
  case (Cons x s)
  obtain p where p: "xml_entity c = CHR ''&'' # p" using xml_entity_shape(1)[OF c] by blast
  let ?rest = "concat (map (undone cs) s)"
  have "replace_all (xml_entity c) [c] (undone cs x @ ?rest) = undone (c # cs) x @ replace_all (xml_entity c) [c] ?rest"
  proof (cases "x \<in> set cs \<or> x \<notin> set xml_specials")
    case True
    then have "undone cs x = [x]" "undone (c # cs) x = [x]" "CHR ''&'' \<noteq> x"
      using xml_entity_shape(2,3) amp by (auto simp: undone_def)
    then show ?thesis using replace_plain[of "CHR ''&''" x p] p by simp
  next
    case False
    then have "undone cs x = xml_entity x" by (simp add: undone_def)
    then show ?thesis
      using False c replace_other[of c x] replace_here[of "CHR ''&''" p] p by (cases "x = c") (simp_all add: undone_def)
  qed
  then show ?case using Cons by simp
qed simp

lemma decode_encode_xml [simp]: "decode_xml_entities (encode_xml_entities s) = s"
proof -
  have start: "concat (map xml_entity s) = concat (map (undone []) s)" by (simp add: undone_def[abs_def])
  have entities: "''&lt;'' = xml_entity (CHR ''<'')" "''&gt;'' = xml_entity (CHR ''>'')" "''&quot;'' = xml_entity (CHR 0x22)"
    "''&apos;'' = xml_entity (CHR 0x27)" "''&amp;'' = xml_entity (CHR ''&'')" by (simp_all add: xml_entity_def)
  have specials: "CHR ''<'' \<in> set xml_specials" "CHR ''>'' \<in> set xml_specials" "CHR 0x22 \<in> set xml_specials" "CHR 0x27 \<in> set xml_specials"
    by (simp_all add: xml_specials_def)
  have "decode_xml_entities (encode_xml_entities s) =
      concat (map (undone [CHR ''&'', CHR 0x27, CHR 0x22, CHR ''>'', CHR ''<'']) s)"
    unfolding decode_xml_entities_def encode_xml_chars start entities
    by (simp add: undo_entity specials xml_entity_shape(3) del: map_eq_conv)
  also have "... = s"
    by (induction s) (auto simp: undone_def xml_entity_def)
  finally show ?thesis .
qed

section \<open>Reading an answer of S3\<close>

lemma encode_xml_no_tag: "CHR ''<'' \<notin> set (encode_xml_entities s)"
  by (induction s) (auto simp: encode_xml_chars xml_entity_def)

definition skips :: "string \<Rightarrow> string \<Rightarrow> bool" where
  \<comment> \<open>no occurrence of the pattern begins within \<open>x\<close>\<close>
  "skips pat x \<longleftrightarrow> (\<forall>s. split_first pat (x @ s) = map_option (\<lambda>r. (x @ fst r, snd r)) (split_first pat s))"

lemma skips_Nil: "skips pat []"
  by (simp add: skips_def option.map_ident)

lemma skips_append: "skips pat x \<Longrightarrow> skips pat y \<Longrightarrow> skips pat (x @ y)"
  by (simp add: skips_def option.map_comp comp_def split_beta)

lemma skips_Cons: "\<forall>s. \<not> starts_with pat (c # x @ s) \<Longrightarrow> skips pat x \<Longrightarrow> skips pat (c # x)"
  by (simp add: skips_def option.map_comp comp_def split_beta)

lemma skips_plain: "CHR ''<'' \<notin> set x \<Longrightarrow> skips (CHR ''<'' # p) x"
  by (induction x) (auto simp: skips_Nil starts_with_def intro!: skips_Cons)

lemma split_first_here: "skips (c # p) x \<Longrightarrow> split_first (c # p) (x @ c # p @ s) = Some (x, s)"
  by (simp add: skips_def starts_with_def)

lemma xml_elements_skip: "skips (''<'' @ tag @ ''>'') x \<Longrightarrow> xml_elements tag (x @ s) = xml_elements tag s"
  by (simp add: skips_def xml_elements.simps[of tag "x @ s"] xml_elements.simps[of tag s] split: option.split)

lemma xml_elements_here:
  assumes "skips (''</'' @ tag @ ''>'') inner"
  shows "xml_elements tag (''<'' @ tag @ ''>'' @ inner @ ''</'' @ tag @ ''>'' @ s) = inner # xml_elements tag s"
  using split_first_here[OF skips_Nil, of "CHR ''<''" "tag @ ''>''" "inner @ ''</'' @ tag @ ''>'' @ s"]
    split_first_here[of "CHR ''<''" "CHR ''/'' # tag @ ''>''" inner s] assms
  by (simp add: xml_elements.simps[of tag "CHR ''<'' # tag @ CHR ''>'' # inner @ CHR ''<'' # CHR ''/'' # tag @ CHR ''>'' # s"])

datatype delete_outcome = Deleted string | Failed string string \<comment> \<open>key and code\<close>

definition s3_outcome_xml :: "delete_outcome \<Rightarrow> string" where
  "s3_outcome_xml outcome = (case outcome of
     Deleted k \<Rightarrow> ''<Deleted><Key>'' @ encode_xml_entities k @ ''</Key></Deleted>''
   | Failed k code \<Rightarrow> ''<Error><Key>'' @ encode_xml_entities k @ ''</Key><Code>'' @ encode_xml_entities code @ ''</Code></Error>'')"

definition s3_answer :: "delete_outcome list \<Rightarrow> string" where
  \<comment> \<open>the documented form of an answer to a batch deletion\<close>
  "s3_answer outcomes = ''<DeleteResult>'' @ concat (map s3_outcome_xml outcomes) @ ''</DeleteResult>''"

lemma literal_tags:
  "skips ''<Error>'' ''<DeleteResult>''" "skips ''<Error>'' ''<Deleted><Key>''" "skips ''<Error>'' ''</Key></Deleted>''"
  "skips ''</Error>'' ''<Key>''" "skips ''</Error>'' ''</Key><Code>''" "skips ''</Error>'' ''</Code>''"
  by (auto simp: skips_Nil starts_with_def intro!: skips_Cons)

lemma no_more_errors: "xml_elements ''Error'' ''</DeleteResult>'' = []"
  by (simp add: xml_elements.simps starts_with_def)

definition failed_keys :: "delete_outcome list \<Rightarrow> string list" where
  "failed_keys outcomes = concat (map (\<lambda>x. case x of Deleted k \<Rightarrow> [] | Failed k code \<Rightarrow> [k]) outcomes)"

lemma error_inner: "skips ''</Error>'' (''<Key>'' @ encode_xml_entities k @ ''</Key><Code>'' @ encode_xml_entities code @ ''</Code>'')"
  by (intro skips_append literal_tags skips_plain[where p = "''/Error>''"] encode_xml_no_tag)

lemma deleted_skips: "skips ''<Error>'' (''<Deleted><Key>'' @ encode_xml_entities k @ ''</Key></Deleted>'')"
  by (intro skips_append literal_tags skips_plain[where p = "''Error>''"] encode_xml_no_tag)

lemma first_key:
  "xml_elements ''Key'' (''<Key>'' @ encode_xml_entities k @ ''</Key>'' @ s) = encode_xml_entities k # xml_elements ''Key'' s"
  using xml_elements_here[of "''Key''" "encode_xml_entities k" s] skips_plain[OF encode_xml_no_tag, of "''/Key>''" k] by simp

definition error_text :: "string \<Rightarrow> string \<Rightarrow> string" where
  "error_text k code = ''<Key>'' @ encode_xml_entities k @ ''</Key><Code>'' @ encode_xml_entities code @ ''</Code>''"

lemma read_deleted: "xml_elements ''Error'' (s3_outcome_xml (Deleted k) @ s) = xml_elements ''Error'' s"
  using xml_elements_skip[of "''Error''" "''<Deleted><Key>'' @ encode_xml_entities k @ ''</Key></Deleted>''" s] deleted_skips[of k]
  by (simp add: s3_outcome_xml_def)

lemma read_failed: "xml_elements ''Error'' (s3_outcome_xml (Failed k code) @ s) = error_text k code # xml_elements ''Error'' s"
  using xml_elements_here[of "''Error''" "error_text k code" s] error_inner[of k code]
  by (simp add: s3_outcome_xml_def error_text_def)

lemma read_key: "xml_elements ''Key'' (error_text k code) = encode_xml_entities k # xml_elements ''Key'' (''<Code>'' @ encode_xml_entities code @ ''</Code>'')"
  using first_key[of k "''<Code>'' @ encode_xml_entities code @ ''</Code>''"] by (simp add: error_text_def)

text \<open>
  A failed deletion is read back. From S3's answer to a batch deletion, which lists for each key whether it
  was deleted or why not, the adapter reads exactly the keys that failed, in their order, whatever characters
  the keys and codes consist of.
\<close>

theorem s3_failures_are_read_back: "s3_delete_result_error_keys (s3_answer outcomes) = failed_keys outcomes"
proof -
  let ?closing = "''</DeleteResult>''"
  have "concat (map (\<lambda>e. case xml_elements ''Key'' e of [] \<Rightarrow> [] | k # _ \<Rightarrow> [decode_xml_entities k])
      (xml_elements ''Error'' (concat (map s3_outcome_xml outcomes) @ ?closing))) = failed_keys outcomes"
  proof (induction outcomes)
    case Nil
    then show ?case by (simp add: no_more_errors failed_keys_def)
  next
    case (Cons outcome outcomes)
    then show ?case by (cases outcome) (simp_all add: read_deleted read_failed read_key failed_keys_def)
  qed
  then show ?thesis
    using xml_elements_skip[of "''Error''" "''<DeleteResult>''"] literal_tags(1) by (simp add: s3_delete_result_error_keys_def s3_answer_def)
qed

end
