(* ===== verification/Blob_Transfer.thy ===== *)
theory Blob_Transfer
  imports Http_Errors Object_Storage
begin

text \<open>
  The path of an upload (\<open>src/sync-blob-transfer\<close>): the route of the API, \<open>BlobTransferService\<close>,
  the adapter that asks the vault's coordinator to stage the blob (\<open>coordinator-blob-stager.ts\<close>), the
  coordinator's own routes (\<open>sync-coordinator/adapters/inbound/http/routes.ts\<close>), and the way of a
  refusal back to the client (\<open>error-mapper.ts\<close>). The service works on ports over an arbitrary state;
  the last section puts the coordinator and the disk behind them. Parameters of a path are taken after
  decoding: \<open>encodeURIComponent\<close> and the router undo each other.
\<close>

section \<open>The service\<close>

record upload_input =
  ui_vaultId :: ident
  ui_blobId :: ident
  ui_size :: int
  ui_token :: "string option"
  ui_body :: body

record 's transfer_ports =
  tp_verify :: "string option \<Rightarrow> ident \<Rightarrow> 's \<Rightarrow> (thrown + token_claims) \<times> 's"
  tp_stage :: "ident \<Rightarrow> ident \<Rightarrow> int \<Rightarrow> string option \<Rightarrow> 's \<Rightarrow> (thrown + unit) \<times> 's"
  tp_abort :: "ident \<Rightarrow> ident \<Rightarrow> 's \<Rightarrow> (thrown + unit) \<times> 's"
  tp_upload :: "string \<Rightarrow> body \<Rightarrow> int \<Rightarrow> 's \<Rightarrow> (thrown + int \<times> bool) \<times> 's"
  tp_download :: "string \<Rightarrow> 's \<Rightarrow> thrown + string option"

definition abort_upload :: "'s transfer_ports \<Rightarrow> upload_input \<Rightarrow> 's \<Rightarrow> 's" where
  \<comment> \<open>a failure of the cleanup is only logged\<close>
  "abort_upload ports input s = snd (tp_abort ports (ui_vaultId input) (ui_blobId input) s)"

definition store_upload :: "'s transfer_ports \<Rightarrow> upload_input \<Rightarrow> 's \<Rightarrow> (thrown + ident) \<times> 's" where
  \<comment> \<open>\<open>uploadBlob\<close> from the object key on\<close>
  "store_upload ports input s =
     (case tp_upload ports (blob_object_key (ui_vaultId input) (ui_blobId input)) (ui_body input) (ui_size input) s of
        (Inl e, s1) \<Rightarrow> (Inl e, abort_upload ports input s1)
      | (Inr (n, mismatch), s1) \<Rightarrow>
          if mismatch \<or> n \<noteq> ui_size input
          then (Inl (Transfer_thrown (Transfer_size_mismatch (ui_size input))), abort_upload ports input s1)
          else (Inr (ui_blobId input), s1))"

definition upload_blob :: "'s transfer_ports \<Rightarrow> upload_input \<Rightarrow> 's \<Rightarrow> (thrown + ident) \<times> 's" where
  "upload_blob ports input s =
     (if \<not> is_safe_blob_id (ui_vaultId input) \<or> \<not> is_safe_blob_id (ui_blobId input) then (Inl (Transfer_thrown Invalid_id), s)
      else case tp_verify ports (ui_token input) (ui_vaultId input) s of
        (Inl e, s1) \<Rightarrow> (Inl e, s1)
      | (Inr _, s1) \<Rightarrow>
          (case tp_stage ports (ui_vaultId input) (ui_blobId input) (ui_size input) (ui_token input) s1 of
             (Inl e, s2) \<Rightarrow> (Inl e, s2)
           | (Inr _, s2) \<Rightarrow> store_upload ports input s2))"

definition download_blob ::
  "'s transfer_ports \<Rightarrow> ident \<Rightarrow> ident \<Rightarrow> string option \<Rightarrow> 's \<Rightarrow> (thrown + string option) \<times> 's" where
  "download_blob ports vaultId blobId token s =
     (if \<not> is_safe_blob_id vaultId \<or> \<not> is_safe_blob_id blobId then (Inl (Transfer_thrown Invalid_id), s)
      else case tp_verify ports token vaultId s of
        (Inl e, s1) \<Rightarrow> (Inl e, s1)
      | (Inr _, s1) \<Rightarrow> (tp_download ports (blob_object_key vaultId blobId) s1, s1))"

section \<open>The way back of a refusal\<close>

definition stage_rejection_of :: "response \<Rightarrow> transfer_error" where
  "stage_rejection_of r = Stage_refused
     (case as_string (body_field ''reason'' r) of Some s \<Rightarrow> Some s | None \<Rightarrow> as_string (body_field ''error'' r))
     (as_string (body_field ''message'' r))"

definition coordinator_stage_rejection :: "string \<Rightarrow> (int \<times> string \<times> bool) option" where
  \<comment> \<open>status, public code, \<open>includeReason\<close>\<close>
  "coordinator_stage_rejection reason = map_of
     [(''sync_paused'', if legacy_pause_quota_compatibility then (413, ''quota_exceeded'', True) else (503, ''sync_paused'', False)),
      (''sync_state_uninitialized'', 409, ''sync_state_uninitialized'', True),
      (''file_too_large'', 413, ''file_too_large'', True),
      (''quota_exceeded'', 413, ''quota_exceeded'', True),
      (''blob_already_live'', 409, ''conflict'', True),
      (''blob_size_changed'', 409, ''conflict'', True),
      (''bad_request'', 400, ''bad_request'', False),
      (''unauthorized'', 401, ''unauthorized'', False),
      (''forbidden'', 403, ''forbidden'', False),
      (''not_found'', 404, ''not_found'', False)] reason"

definition map_blob_transfer_application_error :: "transfer_error \<Rightarrow> response" where
  \<comment> \<open>the adapter sets no \<open>details.error\<close>, so \<open>stageRejectionKey\<close> is the reason\<close>
  "map_blob_transfer_application_error e = (case e of
     Transfer_size_mismatch declared \<Rightarrow>
       json_response 400 (code_body ''size_mismatch''
         (''declared blob size '' @ show_num declared @ '' did not match the uploaded body''))
   | Invalid_id \<Rightarrow> json_response 400 (code_body ''bad_request'' ''invalid blob identifier'')
   | Stage_refused reason message \<Rightarrow>
       (let key = (case reason of Some r \<Rightarrow> r | None \<Rightarrow> []);
            msg = (case message of Some m \<Rightarrow> m | None \<Rightarrow> ''blob staging was rejected'')
        in case coordinator_stage_rejection key of
             None \<Rightarrow> json_response 500 (code_body ''internal_error'' ''unexpected server error'')
           | Some (status, code, includeReason) \<Rightarrow>
               json_response status (if includeReason then reason_body code key msg else code_body code msg)))"

definition api_on_error :: "thrown \<Rightarrow> response" where
  \<comment> \<open>\<open>app.onError\<close> of \<open>app.ts\<close>, for the errors of uploads and downloads\<close>
  "api_on_error e = (case e of
     Token_thrown x \<Rightarrow> (let (status, code, message) = sync_access_public_error x in json_response status (code_body code message))
   | Transfer_thrown t \<Rightarrow> map_blob_transfer_application_error t
   | _ \<Rightarrow> on_error e)"

section \<open>Routes of the API\<close>

definition safe_id_param :: "string \<Rightarrow> ident option" where
  \<comment> \<open>\<open>safeIdSchema\<close>\<close>
  "safe_id_param raw = (let s = js_trim raw in if s \<noteq> [] \<and> list_all safe_id_char s then Some s else None)"

definition validation_response :: response where
  "validation_response = \<lparr>rp_status = 400, rp_body = Validation_failure\<rparr>"

definition upload_route ::
  "'s transfer_ports \<Rightarrow> string \<Rightarrow> string \<Rightarrow> string option \<Rightarrow> string option \<Rightarrow> body option \<Rightarrow> 's \<Rightarrow> response \<times> 's" where
  \<comment> \<open>the path's parameters, the headers \<open>x-blob-size\<close> and \<open>authorization\<close>, the body\<close>
  "upload_route ports vaultIdParam blobIdParam sizeHeader authorization b s =
     (case (safe_id_param vaultIdParam, safe_id_param blobIdParam) of
        (Some vaultId, Some blobId) \<Rightarrow>
          (case b of
             None \<Rightarrow> (json_response 400 (code_body ''bad_request'' ''blob upload requires a request body''), s)
           | Some body \<Rightarrow>
               (case parse_blob_size_header sizeHeader of
                  None \<Rightarrow> (json_response 400 (code_body ''bad_request'' ''blob upload requires a valid x-blob-size header''), s)
                | Some declaredSizeBytes \<Rightarrow>
                    (case upload_blob ports \<lparr>ui_vaultId = vaultId, ui_blobId = blobId, ui_size = declaredSizeBytes,
                         ui_token = parse_bearer_token authorization, ui_body = body\<rparr> s of
                       (Inl e, s1) \<Rightarrow> (api_on_error e, s1)
                     | (Inr i, s1) \<Rightarrow> (json_response 201 [(''ok'', JBool True), (''blobId'', JString i)], s1))))
      | _ \<Rightarrow> (validation_response, s))"

definition download_route ::
  "'s transfer_ports \<Rightarrow> string \<Rightarrow> string \<Rightarrow> string option \<Rightarrow> 's \<Rightarrow> response \<times> 's" where
  "download_route ports vaultIdParam blobIdParam authorization s =
     (case (safe_id_param vaultIdParam, safe_id_param blobIdParam) of
        (Some vaultId, Some blobId) \<Rightarrow>
          (case download_blob ports vaultId blobId (parse_bearer_token authorization) s of
             (Inl e, s1) \<Rightarrow> (api_on_error e, s1)
           | (Inr None, s1) \<Rightarrow> (json_response 404 (code_body ''not_found'' ''blob not found''), s1)
           | (Inr (Some content), s1) \<Rightarrow> (\<lparr>rp_status = 200, rp_body = Bytes content\<rparr>, s1))
      | _ \<Rightarrow> (validation_response, s))"

section \<open>The coordinator\<close>

type_synonym coordinator_state = "access_state \<times> coordinator"

definition claims_version :: "token_claims \<Rightarrow> int" where
  "claims_version claims = (case tc_accessVersion claims of None \<Rightarrow> 1 | Some n \<Rightarrow> n)"

definition require_claims :: "millis \<Rightarrow> token_claims \<Rightarrow> coordinator_state \<Rightarrow> (thrown + unit) \<times> coordinator_state" where
  \<comment> \<open>the \<open>accessVerifier\<close> of \<open>create-coordinator-application.ts\<close>\<close>
  "require_claims now claims sc =
     (let (r, s1, d1) = require_access now (tc_sub claims) (claims_version claims) (fst sc, co_db (snd sc))
      in (map_sum Sharing_failure id r, s1, (snd sc)\<lparr>co_db := d1\<rparr>))"

definition coordinator_verify ::
  "(int \<Rightarrow> string \<Rightarrow> jwt_result) \<Rightarrow> env \<Rightarrow> string option \<Rightarrow> ident \<Rightarrow> coordinator_state \<Rightarrow>
   (thrown + token_claims) \<times> coordinator_state" where
  \<comment> \<open>\<open>verifySyncToken\<close> with that verifier\<close>
  "coordinator_verify jwt env token vaultId sc =
     (case verify_sync_token jwt None (ev_clk env 0) token (Some vaultId) of
        Inl e \<Rightarrow> (Inl (thrown_of_token e), sc)
      | Inr claims \<Rightarrow>
          (case require_claims (ev_clk env 1) claims sc of (Inl e, sc1) \<Rightarrow> (Inl e, sc1) | (Inr _, sc1) \<Rightarrow> (Inr claims, sc1)))"

definition coordinator_stage ::
  "(int \<Rightarrow> string \<Rightarrow> jwt_result) \<Rightarrow> env \<Rightarrow> string option \<Rightarrow> ident \<Rightarrow> ident \<Rightarrow> int \<Rightarrow> coordinator_state \<Rightarrow>
   (thrown + unit) \<times> coordinator_state" where
  \<comment> \<open>\<open>BlobService.stageBlob\<close> with its verifier\<close>
  "coordinator_stage jwt env token vaultId blobId sizeBytes sc =
     (case coordinator_verify jwt env token vaultId sc of
        (Inl e, sc1) \<Rightarrow> (Inl e, sc1)
      | (Inr _, s1, c1) \<Rightarrow>
          let (r, c2) = stage_blob ((later_clock (later_clock env))\<lparr>ev_token := Inr ()\<rparr>) blobId sizeBytes c1
          in (map_sum Coordinator_thrown id r, s1, c2))"

definition route_read_sync_token :: "string option \<Rightarrow> string option \<Rightarrow> string option" where
  "route_read_sync_token authorization protocols =
     (case parse_bearer_token authorization of
        Some token \<Rightarrow> Some token
      | None \<Rightarrow> first_auth_protocol
          (map js_trim (js_split (CHR '','') (case protocols of None \<Rightarrow> [] | Some p \<Rightarrow> p))))"

definition stage_route ::
  "(int \<Rightarrow> string \<Rightarrow> jwt_result) \<Rightarrow> env \<Rightarrow> string \<Rightarrow> string \<Rightarrow> string option \<Rightarrow> string option \<Rightarrow> string option \<Rightarrow>
   coordinator_state \<Rightarrow> response \<times> coordinator_state" where
  "stage_route jwt env vaultIdParam blobIdParam sizeHeader authorization protocols sc =
     (let vaultId = js_trim vaultIdParam; blobId = js_trim blobIdParam
      in if vaultId = [] \<or> blobId = [] then (validation_response, sc)
         else case parse_blob_size_header sizeHeader of
           None \<Rightarrow> (json_response 400 (code_body ''bad_request'' ''blob stage requires a valid x-blob-size header''), sc)
         | Some sizeBytes \<Rightarrow>
             (case coordinator_stage jwt env (route_read_sync_token authorization protocols) vaultId blobId sizeBytes sc of
                (Inl e, sc1) \<Rightarrow> (coordinator_on_error e, sc1)
              | (Inr _, sc1) \<Rightarrow> (\<lparr>rp_status = 204, rp_body = No_body\<rparr>, sc1)))"

definition abort_route :: "env \<Rightarrow> string \<Rightarrow> string \<Rightarrow> coordinator_state \<Rightarrow> response \<times> coordinator_state" where
  "abort_route env vaultIdParam blobIdParam sc =
     (let vaultId = js_trim vaultIdParam; blobId = js_trim blobIdParam
      in if vaultId = [] \<or> blobId = [] then (validation_response, sc)
         else case abort_staged_blob env vaultId blobId (snd sc) of
           (Inl e, c1) \<Rightarrow> (coordinator_on_error (Coordinator_thrown e), fst sc, c1)
         | (Inr _, c1) \<Rightarrow> (\<lparr>rp_status = 204, rp_body = No_body\<rparr>, fst sc, c1))"

section \<open>The adapter\<close>

text \<open>A call to the coordinator may fail before it arrives, or its answer may be lost.\<close>

datatype link = Delivered | Request_lost | Response_lost

definition over_link :: "link \<Rightarrow> ('s \<Rightarrow> 'a \<times> 's) \<Rightarrow> 's \<Rightarrow> 'a option \<times> 's" where
  "over_link l call s = (case l of
     Delivered \<Rightarrow> map_prod Some id (call s) | Request_lost \<Rightarrow> (None, s) | Response_lost \<Rightarrow> (None, snd (call s)))"

definition adapter_stage_blob ::
  "(string option \<Rightarrow> string \<Rightarrow> 's \<Rightarrow> response option \<times> 's) \<Rightarrow> int \<Rightarrow> string option \<Rightarrow> 's \<Rightarrow> (thrown + unit) \<times> 's" where
  \<comment> \<open>\<open>fetch\<close> with the headers \<open>authorization\<close> and \<open>x-blob-size\<close>\<close>
  "adapter_stage_blob fetch sizeBytes token s =
     (case fetch (if truthy token then Some (''Bearer '' @ the token) else None) (show_num sizeBytes) s of
        (None, s1) \<Rightarrow> (Inl (Error_thrown ''fetch failed''), s1)
      | (Some r, s1) \<Rightarrow> (if response_ok r then Inr () else Inl (Transfer_thrown (stage_rejection_of r)), s1))"

definition adapter_abort_staged_blob :: "('s \<Rightarrow> response option \<times> 's) \<Rightarrow> 's \<Rightarrow> (thrown + unit) \<times> 's" where
  "adapter_abort_staged_blob fetch s =
     (case fetch s of
        (None, s1) \<Rightarrow> (Inl (Error_thrown ''fetch failed''), s1)
      | (Some r, s1) \<Rightarrow>
          (if response_ok r then Inr ()
           else Inl (Error_thrown (''staged upload cleanup failed: '' @ show_num (rp_status r))), s1))"

definition authorize_sync ::
  "link \<Rightarrow> millis \<Rightarrow> token_claims \<Rightarrow> coordinator_state \<Rightarrow> (thrown + unit) \<times> coordinator_state" where
  \<comment> \<open>\<open>CoordinatorProxyRepository.authorizeSync\<close> over the remote call, the \<open>accessVerifier\<close> of the API\<close>
  "authorize_sync l now claims sc =
     (case over_link l (\<lambda>(s, c).
          let (decision, s1, d1) = authorize_verified now (tc_sub claims) (claims_version claims) (s, co_db c)
          in (decision, s1, c\<lparr>co_db := d1\<rparr>)) sc of
        (None, sc1) \<Rightarrow> (Inl (Sharing_failure (Sharing_error 503 ''access_unavailable'' ''Vault access could not be verified'')), sc1)
      | (Some Access_ok, sc1) \<Rightarrow> (Inr (), sc1)
      | (Some (Access_denied status code message), sc1) \<Rightarrow> (Inl (Sharing_failure (Sharing_error status code message)), sc1))"

section \<open>The parts together\<close>

record upload_env =
  ue_jwt :: "int \<Rightarrow> string \<Rightarrow> jwt_result"
  ue_now :: millis \<comment> \<open>when the API verifies the token\<close>
  ue_authorize :: "link \<times> millis"
  ue_stage :: "link \<times> env"
  ue_abort :: "link \<times> env"
  ue_base :: path
  ue_uuid :: ident
  ue_faults :: disk_faults

type_synonym site = "coordinator_state \<times> disk"

definition on_coordinator :: "(coordinator_state \<Rightarrow> 'a \<times> coordinator_state) \<Rightarrow> site \<Rightarrow> 'a \<times> site" where
  "on_coordinator f site = (let (r, sc) = f (fst site) in (r, sc, snd site))"

definition api_verify :: "upload_env \<Rightarrow> string option \<Rightarrow> ident \<Rightarrow> coordinator_state \<Rightarrow> (thrown + token_claims) \<times> coordinator_state" where
  "api_verify ue token vaultId sc =
     (case verify_sync_token (ue_jwt ue) None (ue_now ue) token (Some vaultId) of
        Inl e \<Rightarrow> (Inl (thrown_of_token e), sc)
      | Inr claims \<Rightarrow>
          (case authorize_sync (fst (ue_authorize ue)) (snd (ue_authorize ue)) claims sc of
             (Inl e, sc1) \<Rightarrow> (Inl e, sc1) | (Inr _, sc1) \<Rightarrow> (Inr claims, sc1)))"

definition transfer_over :: "upload_env \<Rightarrow> site transfer_ports" where
  "transfer_over ue =
     \<lparr>tp_verify = \<lambda>token vaultId. on_coordinator (api_verify ue token vaultId),
      tp_stage = \<lambda>vaultId blobId sizeBytes token. on_coordinator (adapter_stage_blob (\<lambda>authorization sizeHeader.
        over_link (fst (ue_stage ue)) (stage_route (ue_jwt ue) (snd (ue_stage ue)) vaultId blobId (Some sizeHeader) authorization None))
        sizeBytes token),
      tp_abort = \<lambda>vaultId blobId. on_coordinator (adapter_abort_staged_blob
        (over_link (fst (ue_abort ue)) (abort_route (snd (ue_abort ue)) vaultId blobId))),
      tp_upload = \<lambda>key b sizeBytes (sc, disk).
        let (r, disk') = local_upload (ue_base ue) (ue_uuid ue) (ue_faults ue) key b sizeBytes disk
        in (map_sum Error_thrown id r, sc, disk'),
      tp_download = \<lambda>key (sc, disk). map_sum Error_thrown id (local_download (ue_base ue) key disk)\<rparr>"

section \<open>What the coordinator answers\<close>

lemma require_access_granted:
  assumes ok: "access_ok (s, d)" and run: "require_access now u version (s, d) = (r, s1, d1)"
  shows "(r = Inr () \<longleftrightarrow> \<not> denied_by (live_rows now d) u version) \<and> access_ok (s1, d1) \<and>
    d1\<lparr>db_revocations := db_revocations d\<rparr> = d \<and>
    (\<forall>e. r = Inl e \<longrightarrow> (\<exists>code msg. e = Sharing_error 403 code msg \<and> code \<in> {''sharing_suspended'', ''vault_access_denied''}))"
proof -
  obtain s2 d2 where load: "load_access now (s, d) = (s2, d2)" by fastforce
  note spec = load_access_spec[OF ok load]
  have r: "r = (case denial s2 u version of Some e \<Rightarrow> Inl e | None \<Rightarrow> Inr ())" "s1 = s2" "d1 = d2"
    using run by (auto simp: require_access_def assert_sync_allowed_def legacy_pause_quota_compatibility_def load Let_def)
  have "denial s2 u version \<noteq> None \<longleftrightarrow> denied_by (live_rows now d) u version"
    using spec ok by (intro denial_iff) (auto simp: access_ok_def live_rows_def keyed_filter)
  moreover have "\<exists>code msg. e = Sharing_error 403 code msg \<and> code \<in> {''sharing_suspended'', ''vault_access_denied''}"
    if "denial s2 u version = Some e" for e
    using that by (auto simp: denial_def split: if_split_asm option.splits)
  ultimately show ?thesis using spec r by (auto split: option.splits)
qed

lemma stage_blob_row:
  assumes "stage_blob env b n c = (Inr (), c')"
  shows "\<exists>r. read_blob b (co_db c') = Some r \<and> bl_state r = Staged \<and> bl_size r = n \<and>
    bl_deleteAfter r = Some (ev_clk env 0 + ev_grace env)"
proof -
  let ?t = "ev_clk env 0" and ?da = "ev_clk env 0 + ev_grace env"
  obtain delta d where rec: "stage_blob_record b n ?t ?da (co_db c) = (Inr (Stage_ok delta), d)"
    and c': "c' = notify_storage_status_changed env (schedule_at ?da ?t (c\<lparr>co_db := d\<rparr>))"
    using assms by (rule stage_blob_Inr)
  obtain s where "db_state (co_db c) = Some s" "read_sync_pause (co_db c) = None"
    and dec: "decide_blob_stage b n ?t staged_blob_stale_ms (map_option to_existing_blob (read_blob b (co_db c)))
       (case read_blob b (co_db c) of None \<Rightarrow> False | Some r \<Rightarrow> pinned ?t (co_db c) b) (cs_used s) (cs_limit s) (cs_maxFile s)
     = Stage_ok delta"
    and d: "d = (if delta > 0 then adjust_storage_used delta (persist_stage b n ?t ?da (co_db c)) else persist_stage b n ?t ?da (co_db c))"
    using rec by (rule stage_blob_record_ok)
  have "read_blob b (co_db c') = read_blob b (persist_stage b n ?t ?da (co_db c))"
    by (simp add: read_blob_def c' d store_simps)
  then show ?thesis using decide_stage_okD[OF dec]
    by (auto simp: read_blob_persist_stage to_existing_blob_def split: option.splits)
qed

lemma stage_record_Inl:
  assumes "stage_blob_record b n now da d = (Inl e, d')"
  shows "e = AppError ''sync_state_uninitialized'' [(''message'', DStr ''vault sync state is not initialized'')]"
proof (cases "db_state d")
  case None
  then show ?thesis using assms by (auto simp: stage_blob_record_def read_sync_pause_def read_vault_id_def)
next
  case (Some s)
  then have "\<exists>l u. read_vault_limits d = Inr l \<and> read_storage_used d = Inr u"
    by (simp add: read_vault_limits_def read_storage_used_def)
  then show ?thesis using assms by (auto simp: stage_blob_record_def Let_def split: option.splits if_split_asm)
qed

lemma stage_blob_refused:
  assumes run: "stage_blob env b n c = (Inl e, c')" and token: "ev_token env = Inr ()"
  shows "e = AppError ''sync_state_uninitialized'' [(''message'', DStr ''vault sync state is not initialized'')] \<or>
    e = sync_paused_error \<or> (\<exists>d. e = blob_stage_error b d)"
proof -
  obtain r d where rec: "stage_blob_record b n (ev_clk env 0) (ev_clk env 0 + ev_grace env) (co_db c) = (r, d)" by fastforce
  show ?thesis
  proof (cases r)
    case (Inl x)
    then show ?thesis using run token rec stage_record_Inl[of b n] by (auto simp: stage_blob_def in_transaction_def uow_run_def Let_def)
  next
    case (Inr decision)
    then show ?thesis using run token rec
      by (cases decision) (auto simp: stage_blob_def in_transaction_def uow_run_def Let_def)
  qed
qed

section \<open>A refusal reaches the client\<close>

definition refusal :: "response \<Rightarrow> response" where
  \<comment> \<open>what the API answers when the coordinator refused with this response\<close>
  "refusal r = api_on_error (Transfer_thrown (stage_rejection_of r))"

lemma refusal_of_fields:
  "refusal (json_response status (code_body code message)) =
     (case coordinator_stage_rejection code of
        None \<Rightarrow> json_response 500 (code_body ''internal_error'' ''unexpected server error'')
      | Some (status', code', includeReason) \<Rightarrow>
          json_response status' (if includeReason then reason_body code' code message else code_body code' message))"
  "refusal (json_response status (reason_body public reason message)) =
     (case coordinator_stage_rejection reason of
        None \<Rightarrow> json_response 500 (code_body ''internal_error'' ''unexpected server error'')
      | Some (status', code', includeReason) \<Rightarrow>
          json_response status' (if includeReason then reason_body code' reason message else code_body code' message))"
  by (simp_all add: refusal_def api_on_error_def stage_rejection_of_def body_field_def json_response_def code_body_def
      reason_body_def map_blob_transfer_application_error_def)

lemma refusal_codes [simp]:
  "coordinator_stage_rejection ''sync_paused'' = Some (413, ''quota_exceeded'', True)"
  "coordinator_stage_rejection ''sync_state_uninitialized'' = Some (409, ''sync_state_uninitialized'', True)"
  "coordinator_stage_rejection ''file_too_large'' = Some (413, ''file_too_large'', True)"
  "coordinator_stage_rejection ''quota_exceeded'' = Some (413, ''quota_exceeded'', True)"
  "coordinator_stage_rejection ''blob_already_live'' = Some (409, ''conflict'', True)"
  "coordinator_stage_rejection ''blob_size_changed'' = Some (409, ''conflict'', True)"
  "coordinator_stage_rejection ''bad_request'' = Some (400, ''bad_request'', False)"
  "coordinator_stage_rejection ''unauthorized'' = Some (401, ''unauthorized'', False)"
  "coordinator_stage_rejection ''forbidden'' = Some (403, ''forbidden'', False)"
  "coordinator_stage_rejection ''sharing_suspended'' = None" "coordinator_stage_rejection ''vault_access_denied'' = None"
  by (simp_all add: coordinator_stage_rejection_def legacy_pause_quota_compatibility_def)

lemma error_field [simp]:
  "body_field ''error'' (json_response status (code_body code message)) = Some (JString code)"
  "body_field ''error'' (json_response status (reason_body code reason message)) = Some (JString code)"
  by (simp_all add: body_field_def json_response_def code_body_def reason_body_def)

definition plain_codes :: "json option set" where
  "plain_codes = (\<lambda>code. Some (JString code)) `
     {''bad_request'', ''unauthorized'', ''forbidden'', ''sync_state_uninitialized'', ''file_too_large'', ''quota_exceeded'', ''conflict''}"

lemma stage_error_response:
  "refusal (coordinator_on_error (Coordinator_thrown (blob_stage_error b d))) = coordinator_on_error (Coordinator_thrown (blob_stage_error b d)) \<and>
   body_field ''error'' (coordinator_on_error (Coordinator_thrown (blob_stage_error b d))) \<in> plain_codes"
  by (cases d) (simp_all add: coordinator_on_error_def map_sync_coordinator_application_error_def blob_stage_error_def
      domain_status_def domain_public_code_def message_of_def refusal_of_fields plain_codes_def)

lemma uninitialized_response:
  "coordinator_on_error (Coordinator_thrown (AppError ''sync_state_uninitialized'' [(''message'', DStr m)])) =
     json_response 409 (reason_body ''sync_state_uninitialized'' ''sync_state_uninitialized'' m)"
  by (simp add: coordinator_on_error_def map_sync_coordinator_application_error_def domain_status_def
      domain_public_code_def message_of_def)

lemma paused_response: "coordinator_on_error (Coordinator_thrown sync_paused_error) = json_response 503 (code_body ''sync_paused'' paused_message)"
  by (simp add: coordinator_on_error_def map_sync_coordinator_application_error_def sync_paused_error_def)

lemma token_response:
  "x \<noteq> Sync_paused \<Longrightarrow> refusal (coordinator_on_error (Token_thrown x)) = coordinator_on_error (Token_thrown x) \<and>
     body_field ''error'' (coordinator_on_error (Token_thrown x)) \<in> plain_codes"
  by (cases x) (simp_all add: coordinator_on_error_def map_sync_coordinator_application_error_def refusal_of_fields plain_codes_def)

lemma verify_without_verifier:
  "verify_sync_token jwt None now token v = Inl e \<Longrightarrow> \<exists>x. e = Sync_access_failure x \<and> x \<noteq> Sync_paused"
  by (auto simp: verify_sync_token_def codec_verify_sync_token_def split: if_split_asm sum.splits jwt_result.splits option.splits)

lemma coordinator_stage_errors:
  assumes ok: "access_ok (fst sc, co_db (snd sc))" and run: "coordinator_stage jwt env token v b n sc = (Inl e, sc')"
  shows "(\<exists>x. e = Token_thrown x \<and> x \<noteq> Sync_paused) \<or>
    (\<exists>code m. e = Sharing_failure (Sharing_error 403 code m) \<and> code \<in> {''sharing_suspended'', ''vault_access_denied''}) \<or>
    e = Coordinator_thrown (AppError ''sync_state_uninitialized'' [(''message'', DStr ''vault sync state is not initialized'')]) \<or>
    e = Coordinator_thrown sync_paused_error \<or> (\<exists>d. e = Coordinator_thrown (blob_stage_error b d))"
proof (cases "verify_sync_token jwt None (ev_clk env 0) token (Some v)")
  case (Inl x)
  then show ?thesis using run verify_without_verifier[OF Inl]
    by (auto simp: coordinator_stage_def coordinator_verify_def thrown_of_token_def)
next
  case (Inr claims)
  obtain r s1 d1 where req: "require_access (ev_clk env 1) (tc_sub claims) (claims_version claims) (fst sc, co_db (snd sc)) = (r, s1, d1)"
    by (metis prod_cases3)
  note granted = require_access_granted[OF ok req]
  show ?thesis
  proof (cases r)
    case (Inl x)
    then have "e = Sharing_failure x"
      using run Inr by (simp add: coordinator_stage_def coordinator_verify_def require_claims_def req del: One_nat_def)
    then show ?thesis using granted Inl by simp
  next
    case r: (Inr u)
    obtain q c2 where st: "stage_blob ((later_clock (later_clock env))\<lparr>ev_token := Inr ()\<rparr>) b n ((snd sc)\<lparr>co_db := d1\<rparr>) = (q, c2)"
      by fastforce
    have "map_sum Coordinator_thrown id q = Inl e"
      using run Inr r by (simp add: coordinator_stage_def coordinator_verify_def require_claims_def req st Let_def del: One_nat_def)
    then obtain x where "q = Inl x" "e = Coordinator_thrown x" by (cases q) auto
    then show ?thesis using stage_blob_refused[of "(later_clock (later_clock env))\<lparr>ev_token := Inr ()\<rparr>" b n] st by auto
  qed
qed

definition spared_codes :: "json option set" where
  "spared_codes = {Some (JString ''sharing_suspended''), Some (JString ''vault_access_denied'')}"

lemma plain_is_plain: "x \<in> plain_codes \<Longrightarrow> x \<notin> spared_codes \<and> x \<noteq> Some (JString ''sync_paused'')"
  by (auto simp: plain_codes_def spared_codes_def)

definition refusal_shown :: "response \<Rightarrow> response" where
  \<comment> \<open>unchanged, but for a pause and for a revocation that came between the two checks of the access\<close>
  "refusal_shown r =
     (if body_field ''error'' r = Some (JString ''sync_paused'')
      then json_response 413 (reason_body ''quota_exceeded'' ''sync_paused'' paused_message)
      else if body_field ''error'' r \<in> spared_codes
      then json_response 500 (code_body ''internal_error'' ''unexpected server error'') else r)"

lemma thrown_refusal:
  assumes "access_ok (fst sc, co_db (snd sc))" "coordinator_stage jwt env token v b n sc = (Inl e, sc')"
  shows "refusal (coordinator_on_error e) = refusal_shown (coordinator_on_error e)"
  using coordinator_stage_errors[OF assms]
proof (elim disjE exE conjE)
  fix code m
  assume "e = Sharing_failure (Sharing_error 403 code m)" "code \<in> {''sharing_suspended'', ''vault_access_denied''}"
  moreover from this have "coordinator_stage_rejection code = None" by auto
  ultimately show ?thesis
    by (auto simp: coordinator_on_error_def map_sync_coordinator_application_error_def on_error_def refusal_of_fields
        refusal_shown_def spared_codes_def)
next
  fix d
  assume "e = Coordinator_thrown (blob_stage_error b d)"
  then show ?thesis using stage_error_response[of b d] plain_is_plain by (simp add: refusal_shown_def)
next
  fix x
  assume "e = Token_thrown x" "x \<noteq> Sync_paused"
  then show ?thesis using token_response[of x] plain_is_plain by (simp add: refusal_shown_def)
qed (simp_all add: uninitialized_response paused_response refusal_of_fields refusal_shown_def spared_codes_def)

lemma route_refusal:
  assumes ok: "access_ok (fst sc, co_db (snd sc))" and run: "stage_route jwt env vp bp h a p sc = (r, sc')"
    and "\<not> response_ok r" "js_trim vp \<noteq> []" "js_trim bp \<noteq> []"
  shows "refusal r = refusal_shown r"
proof (cases "parse_blob_size_header h")
  case None
  then show ?thesis using assms by (auto simp: stage_route_def Let_def refusal_of_fields refusal_shown_def spared_codes_def)
next
  case (Some n)
  obtain q sc1 where st: "coordinator_stage jwt env (route_read_sync_token a p) (js_trim vp) (js_trim bp) n sc = (q, sc1)"
    by (metis surj_pair)
  show ?thesis
  proof (cases q)
    case (Inl e)
    then have "r = coordinator_on_error e" using run Some st assms(4,5) by (simp add: stage_route_def Let_def)
    then show ?thesis using thrown_refusal[OF ok st[unfolded Inl]] by simp
  next
    case (Inr u)
    then show ?thesis using assms Some st by (auto simp: stage_route_def Let_def response_ok_def)
  qed
qed

section \<open>What an upload leaves behind\<close>

lemma safe_id_paramD: "safe_id_param raw = Some v \<Longrightarrow> v = js_trim raw \<and> v \<noteq> [] \<and> is_safe_blob_id v \<and> js_trim v = v \<and> safe_id v"
  by (auto simp: safe_id_param_def is_safe_blob_id_def Let_def safe_id_def split: if_split_asm)

lemma coordinator_stage_granted:
  assumes ok: "access_ok (fst sc, co_db (snd sc))" and run: "coordinator_stage jwt env token v b n sc = (Inr (), sc')"
  shows "\<exists>claims r. verify_sync_token jwt None (ev_clk env 0) token (Some v) = Inr claims \<and>
    \<not> denied_by (live_rows (ev_clk env 1) (co_db (snd sc))) (tc_sub claims) (claims_version claims) \<and>
    read_blob b (co_db (snd sc')) = Some r \<and> bl_state r = Staged \<and> bl_size r = n"
proof -
  obtain claims where claims: "verify_sync_token jwt None (ev_clk env 0) token (Some v) = Inr claims"
    using run by (auto simp: coordinator_stage_def coordinator_verify_def split: sum.splits)
  obtain r s1 d1 where req: "require_access (ev_clk env 1) (tc_sub claims) (claims_version claims) (fst sc, co_db (snd sc)) = (r, s1, d1)"
    by (metis prod_cases3)
  obtain q c2 where st: "stage_blob ((later_clock (later_clock env))\<lparr>ev_token := Inr ()\<rparr>) b n ((snd sc)\<lparr>co_db := d1\<rparr>) = (q, c2)"
    by fastforce
  have "r = Inr () \<and> q = Inr () \<and> snd sc' = c2"
    using run claims by (cases r; cases q)
      (auto simp: coordinator_stage_def coordinator_verify_def require_claims_def req st Let_def simp del: One_nat_def)
  then show ?thesis using claims require_access_granted[OF ok req] stage_blob_row[of _ b n] st by blast
qed

lemma api_verify_granted:
  assumes ok: "access_ok (fst sc, co_db (snd sc))" and run: "api_verify ue token v sc = (Inr claims, sc')"
  shows "verify_sync_token (ue_jwt ue) None (ue_now ue) token (Some v) = Inr claims \<and>
    \<not> denied_by (live_rows (snd (ue_authorize ue)) (co_db (snd sc))) (tc_sub claims) (claims_version claims) \<and>
    access_ok (fst sc', co_db (snd sc'))"
proof -
  obtain s c where sc: "sc = (s, c)" by fastforce
  obtain r s1 d1 where req: "require_access (snd (ue_authorize ue)) (tc_sub claims) (claims_version claims) (s, co_db c) = (r, s1, d1)"
    by (metis prod_cases3)
  note granted = require_access_granted[OF ok[unfolded sc fst_conv snd_conv] req]
  have v: "verify_sync_token (ue_jwt ue) None (ue_now ue) token (Some v) = Inr claims"
    using run by (auto simp: api_verify_def split: sum.splits prod.splits)
  then have "r = Inr () \<and> fst sc' = s1 \<and> co_db (snd sc') = d1"
    using run by (cases r; cases "fst (ue_authorize ue)")
      (auto simp: api_verify_def authorize_sync_def over_link_def authorize_verified_def req sc split: access_error.splits)
  then show ?thesis using granted v by (simp add: sc)
qed

lemma store_upload_over:
  assumes run: "store_upload (transfer_over ue) input (sc, disk) = (res, sc', disk')"
  shows "if isl res then \<forall>k q. resolve_key_path (ue_base ue) k = Inr q \<longrightarrow> disk' q = disk q
    else res = Inr (ui_blobId input) \<and> sc' = sc \<and> by_fails (ui_body input) = None \<and>
      int (length (concat (by_chunks (ui_body input)))) = ui_size input \<and>
      (\<forall>k q. resolve_key_path (ue_base ue) k = Inr q \<longrightarrow> disk' q =
        (if resolve_key_path (ue_base ue) (blob_object_key (ui_vaultId input) (ui_blobId input)) = Inr q
         then Some (concat (by_chunks (ui_body input))) else disk q))"
proof -
  let ?key = "blob_object_key (ui_vaultId input) (ui_blobId input)"
  obtain r d1 where up: "local_upload (ue_base ue) (ue_uuid ue) (ue_faults ue) ?key (ui_body input) (ui_size input) disk = (r, d1)"
    by fastforce
  have port: "tp_upload (transfer_over ue) ?key (ui_body input) (ui_size input) (sc, disk) = (map_sum Error_thrown id r, sc, d1)"
    by (simp add: transfer_over_def up)
  have abort: "snd (abort_upload (transfer_over ue) input (sc, d1)) = d1"
    by (simp add: abort_upload_def transfer_over_def on_coordinator_def split: prod.split)
  note effect = local_upload_effect[OF up]
  show ?thesis
  proof (cases "r = Inr (ui_size input, False)")
    case True
    then have "res = Inr (ui_blobId input) \<and> sc' = sc \<and> disk' = d1"
      using run by (simp add: store_upload_def port)
    then show ?thesis using effect True by simp
  next
    case False
    then have "r = Inr (0, True) \<or> (\<exists>e. r = Inl e)" using effect by (cases r) auto
    then have "isl res \<and> disk' = d1" using run abort by (auto simp: store_upload_def port)
    then show ?thesis using effect False by simp
  qed
qed

lemma bearer_arrives: "t \<noteq> [] \<Longrightarrow> route_read_sync_token (Some (''Bearer '' @ t)) None = Some t"
  by (simp add: route_read_sync_token_def parse_bearer_token_def starts_with_def)

lemma response_ok_json [simp]: "response_ok (json_response status fs) \<longleftrightarrow> 200 \<le> status \<and> status < 300"
  by (simp add: response_ok_def json_response_def)

lemma stage_error_not_ok:
  assumes "access_ok (fst sc, co_db (snd sc))" "coordinator_stage jwt env token v b n sc = (Inl e, sc')"
  shows "\<not> response_ok (coordinator_on_error e)"
  using coordinator_stage_errors[OF assms]
proof (elim disjE exE conjE)
  fix code m
  assume "e = Sharing_failure (Sharing_error 403 code m)"
  then show ?thesis by (simp add: coordinator_on_error_def map_sync_coordinator_application_error_def on_error_def)
next
  fix d
  assume "e = Coordinator_thrown (blob_stage_error b d)"
  then show ?thesis
    by (cases d) (simp_all add: coordinator_on_error_def map_sync_coordinator_application_error_def blob_stage_error_def domain_status_def)
next
  fix x
  assume "e = Token_thrown x"
  then show ?thesis by (cases x) (simp_all add: coordinator_on_error_def map_sync_coordinator_application_error_def)
qed (simp_all add: uninitialized_response paused_response)

lemma adapter_stage_granted:
  assumes ok: "access_ok (fst sc, co_db (snd sc))"
    and run: "adapter_stage_blob (\<lambda>a h. over_link l (stage_route jwt env v b (Some h) a None)) n token sc = (Inr (), sc')"
    and ids: "js_trim v = v" "js_trim b = b" and n: "0 \<le> n" "n \<le> max_safe_integer" and token: "truthy token"
  shows "\<exists>claims r. verify_sync_token jwt None (ev_clk env 0) token (Some v) = Inr claims \<and>
    \<not> denied_by (live_rows (ev_clk env 1) (co_db (snd sc))) (tc_sub claims) (claims_version claims) \<and>
    read_blob b (co_db (snd sc')) = Some r \<and> bl_state r = Staged \<and> bl_size r = n"
proof -
  obtain t where t: "token = Some t" "t \<noteq> []" using token truthyE by blast
  define header where "header = ''Bearer '' @ t"
  have arrives: "route_read_sync_token (Some header) None = Some t" using bearer_arrives[OF t(2)] by (simp only: header_def)
  obtain r sc1 where route: "stage_route jwt env v b (Some (show_num n)) (Some header) None sc = (r, sc1)"
    by (metis surj_pair)
  have "(if truthy token then Some (''Bearer '' @ the token) else None) = Some header" using t by (simp add: header_def)
  note sending = run[unfolded adapter_stage_blob_def this over_link_def]
  have sent: "response_ok r" "sc' = sc1" using sending route by (cases l; simp split: if_split_asm)+
  obtain q sc2 where st: "coordinator_stage jwt env (Some t) v b n sc = (q, sc2)" by (metis surj_pair)
  have "q = Inr () \<and> sc2 = sc1"
  proof (cases q)
    case (Inl e)
    then have "\<not> response_ok (coordinator_on_error e)" using stage_error_not_ok[OF ok] st by blast
    then show ?thesis using route sent(1) ids n st Inl
      by (auto simp: stage_route_def Let_def size_header_roundtrip arrives validation_response_def response_ok_def split: if_split_asm)
  next
    case (Inr u)
    then show ?thesis using route sent(1) ids n st
      by (auto simp: stage_route_def Let_def size_header_roundtrip arrives validation_response_def response_ok_def split: if_split_asm)
  qed
  then have "coordinator_stage jwt env (Some t) v b n sc = (Inr (), sc')" using st sent by simp
  then show ?thesis using coordinator_stage_granted[OF ok] unfolding t(1) by blast
qed

lemma transfer_over_ports:
  "tp_verify (transfer_over ue) token v (sc, disk) = (let (r, sc1) = api_verify ue token v sc in (r, sc1, disk))"
  "tp_stage (transfer_over ue) v b n token (sc, disk) =
    (let (r, sc1) = adapter_stage_blob (\<lambda>a h. over_link (fst (ue_stage ue)) (stage_route (ue_jwt ue) (snd (ue_stage ue)) v b (Some h) a None))
       n token sc in (r, sc1, disk))"
  "tp_upload (transfer_over ue) key content n (sc, disk) =
    (let (r, disk') = local_upload (ue_base ue) (ue_uuid ue) (ue_faults ue) key content n disk in (map_sum Error_thrown id r, sc, disk'))"
  by (simp_all add: transfer_over_def on_coordinator_def)

lemma api_verify_error: "api_verify ue token v sc = (Inl e, sc') \<Longrightarrow> e \<noteq> Http_exception x"
  by (auto simp: api_verify_def thrown_of_token_def authorize_sync_def
      split: sum.splits prod.splits token_failure.splits option.splits access_decision.splits)

lemma adapter_stage_error: "adapter_stage_blob fetch n token sc = (Inl e, sc') \<Longrightarrow> e \<noteq> Http_exception x"
  by (auto simp: adapter_stage_blob_def split: prod.splits option.splits if_split_asm)

lemma store_upload_error: "store_upload (transfer_over ue) input (sc, disk) = (Inl e, site) \<Longrightarrow> e \<noteq> Http_exception x"
  by (cases "local_upload (ue_base ue) (ue_uuid ue) (ue_faults ue) (blob_object_key (ui_vaultId input) (ui_blobId input))
        (ui_body input) (ui_size input) disk")
    (auto simp: store_upload_def transfer_over_ports map_sum_def split: sum.splits prod.splits if_split_asm)

lemma upload_blob_over:
  assumes run: "upload_blob (transfer_over ue) input (sc, disk) = (res, sc', disk')"
  obtains (refused) e where "res = Inl e" "disk' = disk" "\<forall>x. e \<noteq> Http_exception x"
  | (staged) claims sc1 sc2 where "api_verify ue (ui_token input) (ui_vaultId input) sc = (Inr claims, sc1)"
    "adapter_stage_blob (\<lambda>a h. over_link (fst (ue_stage ue)) (stage_route (ue_jwt ue) (snd (ue_stage ue))
       (ui_vaultId input) (ui_blobId input) (Some h) a None)) (ui_size input) (ui_token input) sc1 = (Inr (), sc2)"
    "store_upload (transfer_over ue) input (sc2, disk) = (res, sc', disk')"
proof -
  let ?stage = "\<lambda>sc1. adapter_stage_blob (\<lambda>a h. over_link (fst (ue_stage ue)) (stage_route (ue_jwt ue) (snd (ue_stage ue))
       (ui_vaultId input) (ui_blobId input) (Some h) a None)) (ui_size input) (ui_token input) sc1"
  obtain q sc1 where v: "api_verify ue (ui_token input) (ui_vaultId input) sc = (q, sc1)" by (metis surj_pair)
  obtain u sc2 where st: "?stage sc1 = (u, sc2)" by (metis surj_pair)
  show thesis
  proof (cases "is_safe_blob_id (ui_vaultId input) \<and> is_safe_blob_id (ui_blobId input)")
    case False
    then show thesis using run refused by (auto simp: upload_blob_def)
  next
    case safe: True
    show thesis
    proof (cases q)
      case (Inl e)
      then show thesis using run safe v refused api_verify_error[OF v[unfolded Inl]] by (auto simp: upload_blob_def transfer_over_ports)
    next
      case q: (Inr claims)
      show thesis
      proof (cases u)
        case (Inl e)
        then show thesis using run safe v st q refused adapter_stage_error[OF st[unfolded Inl]]
          by (auto simp: upload_blob_def transfer_over_ports)
      next
        case (Inr x)
        then show thesis using run safe v st q staged by (simp add: upload_blob_def transfer_over_ports)
      qed
    qed
  qed
qed

definition uploaded_response :: "ident \<Rightarrow> response" where
  "uploaded_response b = json_response 201 [(''ok'', JBool True), (''blobId'', JString b)]"

lemma error_is_no_success: "\<forall>x. e \<noteq> Http_exception x \<Longrightarrow> api_on_error e \<noteq> uploaded_response b"
proof -
  assume e: "\<forall>x. e \<noteq> Http_exception x"
  have "body_field ''error'' (api_on_error e) \<noteq> None"
    using e by (cases e) (auto simp: api_on_error_def on_error_def map_blob_transfer_application_error_def Let_def split: option.split prod.split
        transfer_error.split access_error.split)
  moreover have "body_field ''error'' (uploaded_response b) = None"
    by (simp add: uploaded_response_def body_field_def json_response_def)
  ultimately show ?thesis by auto
qed

lemma upload_blob_outcome:
  assumes ok: "access_ok (fst sc, co_db (snd sc))" and run: "upload_blob (transfer_over ue) input (sc, disk) = (res, sc', disk')"
    and ids: "js_trim (ui_vaultId input) = ui_vaultId input" "js_trim (ui_blobId input) = ui_blobId input"
    and n: "0 \<le> ui_size input" "ui_size input \<le> max_safe_integer"
  shows "if isl res then (\<forall>k q. resolve_key_path (ue_base ue) k = Inr q \<longrightarrow> disk' q = disk q) \<and> (\<forall>x. res \<noteq> Inl (Http_exception x))
    else res = Inr (ui_blobId input) \<and>
     (\<exists>claims row. verify_sync_token (ue_jwt ue) None (ue_now ue) (ui_token input) (Some (ui_vaultId input)) = Inr claims \<and>
       \<not> denied_by (live_rows (snd (ue_authorize ue)) (co_db (snd sc))) (tc_sub claims) (claims_version claims) \<and>
       read_blob (ui_blobId input) (co_db (snd sc')) = Some row \<and> bl_state row = Staged \<and> bl_size row = ui_size input) \<and>
     by_fails (ui_body input) = None \<and> int (length (concat (by_chunks (ui_body input)))) = ui_size input \<and>
     (\<forall>k q. resolve_key_path (ue_base ue) k = Inr q \<longrightarrow> disk' q =
       (if resolve_key_path (ue_base ue) (blob_object_key (ui_vaultId input) (ui_blobId input)) = Inr q
        then Some (concat (by_chunks (ui_body input))) else disk q))"
  using run
proof (cases rule: upload_blob_over)
  case (refused e)
  then show ?thesis by simp
next
  case (staged claims sc1 sc2)
  note granted = api_verify_granted[OF ok staged(1)]
  have token: "truthy (ui_token input)" using granted by (auto simp: verify_sync_token_def split: if_split_asm)
  note row = adapter_stage_granted[OF _ staged(2) ids n token]
  note stored = store_upload_over[OF staged(3)]
  show ?thesis
  proof (cases "isl res")
    case True
    then show ?thesis using stored store_upload_error staged(3) by (cases res) auto
  next
    case False
    then show ?thesis using stored granted row by auto
  qed
qed

section \<open>Properties\<close>

text \<open>
  C22. A client that is told its blob was stored can rely on it. Over any links between the API and the
  vault's coordinator, any failures of the disk and any request, an answer 201 means: the ids were safe,
  the token was valid for this vault and not revoked when it was checked, the coordinator has the blob
  staged with exactly the declared size, and the object of this blob, and no other, is now exactly the
  body of the request, which has that size. After every other answer no object has changed.
\<close>

theorem upload_answers_truthfully:
  assumes ok: "access_ok (fst sc, co_db (snd sc))"
    and run: "upload_route (transfer_over ue) vaultIdParam blobIdParam sizeHeader authorization content (sc, disk) = (r, sc', disk')"
  shows "if \<exists>i. r = json_response 201 [(''ok'', JBool True), (''blobId'', JString i)]
    then \<exists>v b n payload claims row. safe_id_param vaultIdParam = Some v \<and> safe_id_param blobIdParam = Some b \<and>
      parse_blob_size_header sizeHeader = Some n \<and> content = Some payload \<and>
      verify_sync_token (ue_jwt ue) None (ue_now ue) (parse_bearer_token authorization) (Some v) = Inr claims \<and>
      \<not> denied_by (live_rows (snd (ue_authorize ue)) (co_db (snd sc))) (tc_sub claims) (claims_version claims) \<and>
      read_blob b (co_db (snd sc')) = Some row \<and> bl_state row = Staged \<and> bl_size row = n \<and>
      by_fails payload = None \<and> int (length (concat (by_chunks payload))) = n \<and>
      (\<forall>k q. resolve_key_path (ue_base ue) k = Inr q \<longrightarrow> disk' q =
        (if resolve_key_path (ue_base ue) (blob_object_key v b) = Inr q then Some (concat (by_chunks payload)) else disk q))
    else \<forall>k q. resolve_key_path (ue_base ue) k = Inr q \<longrightarrow> disk' q = disk q"
proof -
  consider v b n payload where "safe_id_param vaultIdParam = Some v" "safe_id_param blobIdParam = Some b"
      "parse_blob_size_header sizeHeader = Some n" "content = Some payload"
    | "disk' = disk" "body_field ''error'' r \<noteq> None \<or> r = validation_response"
    using run by (auto simp: upload_route_def split: option.splits)
  then show ?thesis
  proof cases
    case 2
    then have "\<nexists>i. r = uploaded_response i"
      by (auto simp: uploaded_response_def body_field_def json_response_def validation_response_def)
    then show ?thesis using 2 by (simp add: uploaded_response_def)
  next
    case (1 v b n payload)
    define input where "input = \<lparr>ui_vaultId = v, ui_blobId = b, ui_size = n, ui_token = parse_bearer_token authorization, ui_body = payload\<rparr>"
    obtain res site where up: "upload_blob (transfer_over ue) input (sc, disk) = (res, site)" by (metis surj_pair)
    have ids: "js_trim v = v" "js_trim b = b" "0 \<le> n" "n \<le> max_safe_integer"
      using safe_id_paramD 1 parse_size_safe by auto
    note outcome = upload_blob_outcome[OF ok, of ue input disk res "fst site" "snd site"]
    have r: "r = (case res of Inl e \<Rightarrow> api_on_error e | Inr i \<Rightarrow> uploaded_response i)" "site = (sc', disk')"
      using run 1 up by (auto simp: upload_route_def input_def uploaded_response_def split: sum.splits)
    show ?thesis
    proof (cases res)
      case (Inl e)
      then have "\<nexists>i. r = uploaded_response i" using outcome up ids r error_is_no_success[of e] by (auto simp: input_def)
      then show ?thesis using outcome up ids Inl r by (simp add: uploaded_response_def input_def)
    next
      case (Inr i)
      then show ?thesis using outcome up ids 1 r by (auto simp: uploaded_response_def input_def)
    qed
  qed
qed

text \<open>
  C23. A refusal of the coordinator reaches the client as it is. Whatever makes the coordinator refuse to
  stage a blob, a bad header, a bad token, a limit of the vault or a blob that is already there, the API
  answers its client with the same status and the same body, read from the coordinator's response. There
  are two exceptions: a pause is shown as an exceeded quota, which stops old clients, and a revocation that
  came after the API's own check of the access is shown as an internal error.
\<close>

theorem refusals_reach_clients:
  assumes ok: "access_ok (fst sc, co_db (snd sc))"
    and run: "stage_route jwt env vaultIdParam blobIdParam sizeHeader authorization protocols sc = (r, sc')"
    and refused: "\<not> response_ok r" and ids: "js_trim vaultIdParam \<noteq> []" "js_trim blobIdParam \<noteq> []"
  shows "api_on_error (Transfer_thrown (stage_rejection_of r)) =
    (if body_field ''error'' r = Some (JString ''sync_paused'')
     then json_response 413 (reason_body ''quota_exceeded'' ''sync_paused'' paused_message)
     else if body_field ''error'' r \<in> {Some (JString ''sharing_suspended''), Some (JString ''vault_access_denied'')}
     then json_response 500 (code_body ''internal_error'' ''unexpected server error'') else r)"
  using route_refusal[OF assms] by (simp add: refusal_def refusal_shown_def spared_codes_def)

section \<open>Instances\<close>

definition example_transfer_claims :: token_claims where
  "example_transfer_claims = \<lparr>tc_accessVersion = Some 2, tc_sub = ''u'', tc_vaultId = ''v'', tc_localVaultId = ''l'',
     tc_displayName = [], tc_iat = 0, tc_exp = 120\<rparr>"

definition example_jwt :: "int \<Rightarrow> string \<Rightarrow> jwt_result" where
  "example_jwt now token = (if token = ''t'' then Jwt_payload (token_payload example_transfer_claims) else Jwt_failed)"

definition example_upload_env :: upload_env where
  "example_upload_env = \<lparr>ue_jwt = example_jwt, ue_now = 0, ue_authorize = (Delivered, 1), ue_stage = (Delivered, example_env),
     ue_abort = (Delivered, example_env), ue_base = [''data''], ue_uuid = ''u'',
     ue_faults = \<lparr>df_mkdir = None, df_write = None, df_rename = None, df_cleanup = False\<rparr>\<rparr>"

definition example_state :: coordinator_state where
  "example_state = (\<lparr>ac_cache = None, ac_nextExpiry = None\<rparr>, example_vault)"

definition example_upload_run :: "response \<times> site" where
  "example_upload_run = upload_route (transfer_over example_upload_env) ''v'' ''n'' (Some ''3'') (Some ''Bearer t'')
     (Some \<lparr>by_chunks = [''ab'', ''c''], by_fails = None\<rparr>) (example_state, Map.empty)"

lemma example_uploaded: "fst example_upload_run = json_response 201 [(''ok'', JBool True), (''blobId'', JString ''n'')]"
  by code_simp

lemma example_state_ok: "access_ok (fst example_state, co_db (snd example_state))"
  by (simp add: example_state_def access_ok_def example_vault_def example_db_def empty_db_def keyed_def)

lemma example_resolved: "safe_id_param ''v'' = Some ''v''" "safe_id_param ''n'' = Some ''n''"
  "resolve_key_path [''data''] (blob_object_key ''v'' ''n'') = Inr [''data'', ''v'', ''n'']"
  by code_simp+

theorem upload_answers_truthfully_witness:
  "snd (snd example_upload_run) [''data'', ''v'', ''n''] = Some ''abc'' \<and>
   (\<exists>row. read_blob ''n'' (co_db (snd (fst (snd example_upload_run)))) = Some row \<and> bl_size row = 3)"
proof -
  have run: "upload_route (transfer_over example_upload_env) ''v'' ''n'' (Some ''3'') (Some ''Bearer t'')
     (Some \<lparr>by_chunks = [''ab'', ''c''], by_fails = None\<rparr>) (example_state, Map.empty) =
     (fst example_upload_run, fst (snd example_upload_run), snd (snd example_upload_run))"
    by (simp add: example_upload_run_def)
  have base: "ue_base example_upload_env = [''data'']" by (simp add: example_upload_env_def)
  have told: "\<exists>i. fst example_upload_run = json_response 201 [(''ok'', JBool True), (''blobId'', JString i)]"
    using example_uploaded by blast
  show ?thesis
    using upload_answers_truthfully[OF example_state_ok run, unfolded if_P[OF told] base] example_resolved by auto
qed

lemma example_stage_refused: "fst (stage_route example_jwt example_env ''v'' ''n'' (Some ''60'') (Some ''Bearer t'') None example_state) =
    json_response 413 (reason_body ''file_too_large'' ''file_too_large'' ''blob exceeds maximum file size of 50 bytes'')"
  by code_simp

theorem refusals_reach_clients_witness:
  "api_on_error (Transfer_thrown (stage_rejection_of (json_response 413
     (reason_body ''file_too_large'' ''file_too_large'' ''blob exceeds maximum file size of 50 bytes'')))) =
   json_response 413 (reason_body ''file_too_large'' ''file_too_large'' ''blob exceeds maximum file size of 50 bytes'')"
proof -
  have ids: "js_trim ''v'' \<noteq> []" "js_trim ''n'' \<noteq> []" by code_simp+
  have run: "stage_route example_jwt example_env ''v'' ''n'' (Some ''60'') (Some ''Bearer t'') None example_state =
     (json_response 413 (reason_body ''file_too_large'' ''file_too_large'' ''blob exceeds maximum file size of 50 bytes''),
      snd (stage_route example_jwt example_env ''v'' ''n'' (Some ''60'') (Some ''Bearer t'') None example_state))"
    by (metis example_stage_refused prod.collapse)
  show ?thesis using refusals_reach_clients[OF example_state_ok run _ ids] by simp
qed

end
