(* ===== verification/Coordinator_Entry.thy ===== *)
theory Coordinator_Entry
  imports Hub Message_Schemas Blob_Transfer
begin

text \<open>
  The entry points of a vault's instance: the frames of its sockets, their end, and the upgrade of a request
  to a socket, under the Durable Object (\<open>durable-object-rpc/sync-coordinator.ts\<close>, the route of
  \<open>inbound/http/routes.ts\<close>) and under Node (\<open>runtime/node-websocket.ts\<close>,
  \<open>runtime/node-coordinator-namespace.ts\<close>). What comes in is what a client sent, unchecked: text that may be no JSON,
  JSON that may be no message, a path, headers. \<open>JSON.parse\<close>, \<open>decodeURIComponent\<close>, zod and the JWT library are
  parameters. \<open>Socket_Gateway\<close> stands for both gateways, as \<open>Durable_Gateway\<close> justifies.
\<close>

section \<open>Frames\<close>

datatype frame = Text string | Binary

definition binary_refusal :: server_message where
  "binary_refusal = Session_error ''invalid_message'' ''binary websocket messages are not supported''"

definition json_refusal :: server_message where
  "json_refusal = Session_error ''invalid_json'' ''websocket message must be valid json''"

definition schema_refusal :: "issue list \<Rightarrow> server_message" where
  "schema_refusal issues = Session_error ''invalid_message'' (format_client_control_message_error issues)"

definition node_receive :: "zod \<Rightarrow> (string \<Rightarrow> json option) \<Rightarrow> env \<Rightarrow> ident \<Rightarrow> frame \<Rightarrow> hub \<Rightarrow> hub" where
  \<comment> \<open>the listener for \<open>message\<close>; a value the schema accepts always reads as a message\<close>
  "node_receive z parse env i f h =
     (case f of
        Binary \<Rightarrow> send i binary_refusal h
      | Text t \<Rightarrow> (case parse t of
          None \<Rightarrow> send i json_refusal h
        | Some v \<Rightarrow> (case parse_client_control_message z v of
            Inl issues \<Rightarrow> send i (schema_refusal issues) h
          | Inr None \<Rightarrow> h
          | Inr (Some m) \<Rightarrow> handle env i m h)))"


section \<open>The end of a socket\<close>

definition object_terminate :: "env \<Rightarrow> bool \<Rightarrow> ident \<Rightarrow> hub \<Rightarrow> hub" where
  \<comment> \<open>\<open>handleWebSocketTermination\<close>; the platform drops the socket afterwards\<close>
  "object_terminate env ready i h =
     (if \<not> ready then h
      else let h1 = (if i \<noteq> [] then handle_disconnect i h else h)
        in h1\<lparr>hb_co := handle_socket_close env (hb_co h1)\<rparr>)"

definition node_ended :: "env \<Rightarrow> ident \<Rightarrow> ident set \<times> hub \<Rightarrow> ident set \<times> hub" where
  \<comment> \<open>\<open>onDisconnect\<close>, for \<open>close\<close> and for \<open>error\<close>, with the connections whose flag \<open>disconnected\<close> is set\<close>
  "node_ended env i = (\<lambda>(ended, h). if i \<in> ended then (ended, h) else (insert i ended, close_connection env i h))"

section \<open>Remote calls and alarms of a Durable Object\<close>

definition with_rpc_error :: "thrown + unit \<Rightarrow> thrown + 'a \<Rightarrow> thrown + 'a" where
  \<comment> \<open>\<open>withRpcError\<close> around every remote call, given how \<open>this.ready\<close> and the operation end\<close>
  "with_rpc_error ready operation =
     (case ready of Inl e \<Rightarrow> Inl (map_coordinator_rpc_error e) | Inr _ \<Rightarrow> map_sum map_coordinator_rpc_error id operation)"

definition alarm_failure_retry_ms :: millis where "alarm_failure_retry_ms = 30 * 1000"

definition object_alarm :: "(thrown + unit) \<times> coordinator \<Rightarrow> millis \<Rightarrow> bool \<Rightarrow> (thrown + unit) \<times> coordinator" where
  \<comment> \<open>\<open>alarm\<close>, given how the attempt ends, the clock, and whether \<open>setAlarm\<close> works; what it throws makes the platform retry\<close>
  "object_alarm attempt now works = (case attempt of
     (Inr _, c) \<Rightarrow> (Inr (), c)
   | (Inl e, c) \<Rightarrow> if works then (Inr (), c\<lparr>co_alarm := Some (now + alarm_failure_retry_ms)\<rparr>) else (Inl e, c))"

lemma failed_alarm_returns:
  "fst attempt = Inl e \<Longrightarrow> object_alarm attempt now works = (r, c) \<Longrightarrow>
   r = Inl e \<or> co_alarm c = Some (now + alarm_failure_retry_ms)"
  by (cases attempt) (auto simp: object_alarm_def split: if_splits)

section \<open>Upgrades\<close>

record upgrade_request =
  ur_path :: string
  ur_upgrade :: "string option"
  ur_authorization :: "string option"
  ur_protocols :: "string option"

datatype upgrade_result =
    Socket_destroyed
  | Unauthorized \<comment> \<open>a \<open>401\<close> on the raw socket\<close>
  | Refused response
  | Upgraded

definition verify_for_socket ::
  "(int \<Rightarrow> string \<Rightarrow> jwt_result) \<Rightarrow> env \<Rightarrow> string option \<Rightarrow> ident \<Rightarrow> hub \<Rightarrow> (token_failure + token_claims) \<times> hub" where
  \<comment> \<open>\<open>verifySyncToken\<close> with the access verifier of \<open>create-coordinator-application.ts\<close>, which comes last\<close>
  "verify_for_socket verify env token vaultId h =
     (case verify_sync_token verify None (ev_clk env 0) token (Some vaultId) of
        Inl e \<Rightarrow> (Inl e, h)
      | Inr claims \<Rightarrow> (case authorize (later_clock env) (session_of_claims claims) h of
          (Inl e, h1) \<Rightarrow> (Inl (Sharing_refusal e), h1)
        | (Inr _, h1) \<Rightarrow> (Inr claims, h1)))"

definition prepare_for_socket ::
  "(int \<Rightarrow> string \<Rightarrow> jwt_result) \<Rightarrow> coord_error + vault_limits \<Rightarrow> env \<Rightarrow> string option \<Rightarrow> ident \<Rightarrow> hub \<Rightarrow>
   (socket_failure + prepared_session) \<times> hub" where
  "prepare_for_socket verify limits env token vaultId h =
     (let (verified, h1) = verify_for_socket verify env token vaultId h;
          (prepared, c) = prepare_socket_session verified limits (hb_co h1)
      in (prepared, h1\<lparr>hb_co := c\<rparr>))"

definition thrown_of_socket :: "socket_failure \<Rightarrow> thrown" where
  "thrown_of_socket e = (case e of
     Token_failure x \<Rightarrow> thrown_of_token x | Coordinator_failure x \<Rightarrow> Coordinator_thrown x | Access_failure x \<Rightarrow> Sharing_failure x)"

definition ascii_lower :: "char \<Rightarrow> char" where
  "ascii_lower c = (if char_between (CHR ''A'') (CHR ''Z'') c then char_of ((of_char c :: nat) + 32) else c)"

definition object_upgrade ::
  "(int \<Rightarrow> string \<Rightarrow> jwt_result) \<Rightarrow> coord_error + vault_limits \<Rightarrow> env \<Rightarrow> ident \<Rightarrow> ident \<Rightarrow> upgrade_request \<Rightarrow> hub \<Rightarrow>
   upgrade_result \<times> hub" where
  \<comment> \<open>the route \<open>/v1/vaults/:vaultId/socket\<close>, given the parameter; the id of the connection is random\<close>
  "object_upgrade verify limits env i vaultId q h =
     (if js_trim vaultId = [] then (Refused \<lparr>rp_status = 400, rp_body = Validation_failure\<rparr>, h)
      else if map_option (map ascii_lower) (ur_upgrade q) \<noteq> Some ''websocket''
      then (Refused (json_response 400 (code_body ''bad_request'' ''expected websocket upgrade'')), h)
      else case prepare_for_socket verify limits env (node_read_sync_token (ur_authorization q) (ur_protocols q)) (js_trim vaultId) h of
        (Inl e, h1) \<Rightarrow> (Refused (coordinator_on_error (thrown_of_socket e)), h1)
      | (Inr p, h1) \<Rightarrow> (case accept_socket (later_clock (later_clock env)) i p h1 of
          (Inl e, _, h2) \<Rightarrow> (Refused (coordinator_on_error (thrown_of_socket e)), h2)
        | (Inr _, _, h2) \<Rightarrow> (Upgraded, h2)))"

definition socket_path_vault :: "string \<Rightarrow> string option" where
  \<comment> \<open>\<open>SOCKET_PATH_PATTERN\<close>, still encoded\<close>
  "socket_path_vault path =
     (let rest = drop 11 path; vault = takeWhile (\<lambda>c. c \<noteq> CHR ''/'') rest
      in if starts_with ''/v1/vaults/'' path \<and> vault \<noteq> [] \<and> drop (length vault) rest = ''/socket'' then Some vault else None)"

definition vault_id_ok :: "string \<Rightarrow> bool" where
  \<comment> \<open>\<open>VAULT_ID_PATTERN\<close>\<close>
  "vault_id_ok v \<longleftrightarrow> v \<noteq> [] \<and> list_all (\<lambda>c. char_between (CHR ''a'') (CHR ''z'') c \<or> char_between (CHR ''A'') (CHR ''Z'') c \<or>
     char_between (CHR ''0'') (CHR ''9'') c \<or> c = CHR ''_'' \<or> c = CHR ''-'') v"

definition requested_vault :: "(string \<Rightarrow> string option) \<Rightarrow> string \<Rightarrow> ident option" where
  \<comment> \<open>the vault whose instance is opened; \<open>decodeURIComponent\<close> and \<open>vaultFilePath\<close> may throw\<close>
  "requested_vault decode path =
     (case socket_path_vault path of None \<Rightarrow> None
      | Some raw \<Rightarrow> (case decode raw of None \<Rightarrow> None | Some v \<Rightarrow> if vault_id_ok v then Some v else None))"

record node_vaults =
  nv_hubs :: "ident \<Rightarrow> hub" \<comment> \<open>the instance of each vault\<close>
  nv_opened :: "ident set" \<comment> \<open>the keys of \<open>runtimes\<close>: the instances that were opened, with their files\<close>

definition get_or_create_runtime :: "ident \<Rightarrow> node_vaults \<Rightarrow> node_vaults" where
  "get_or_create_runtime v nv = nv\<lparr>nv_opened := insert v (nv_opened nv)\<rparr>"

definition put_hub :: "ident \<Rightarrow> hub \<Rightarrow> node_vaults \<Rightarrow> node_vaults" where
  "put_hub v h nv = nv\<lparr>nv_hubs := (nv_hubs nv)(v := h)\<rparr>"

definition node_upgrade ::
  "(int \<Rightarrow> string \<Rightarrow> jwt_result) \<Rightarrow> (string \<Rightarrow> string option) \<Rightarrow> (ident \<Rightarrow> coord_error + vault_limits) \<Rightarrow> env \<Rightarrow> ident \<Rightarrow>
   bool \<times> bool \<Rightarrow> upgrade_request \<Rightarrow> node_vaults \<Rightarrow> upgrade_result \<times> node_vaults" where
  \<comment> \<open>\<open>handleUpgrade\<close>; the flags are \<open>closing\<close> at the start and after the token was checked\<close>
  "node_upgrade verify decode limits env i closing q nv =
     (if fst closing then (Socket_destroyed, nv)
      else case requested_vault decode (ur_path q) of
        None \<Rightarrow> (Socket_destroyed, nv)
      | Some v \<Rightarrow>
          let nv0 = get_or_create_runtime v nv in
          (case prepare_for_socket verify (limits v) env (node_read_sync_token (ur_authorization q) (ur_protocols q)) v (nv_hubs nv0 v) of
             (Inl e, h1) \<Rightarrow> (Unauthorized, put_hub v h1 nv0)
           | (Inr p, h1) \<Rightarrow>
               (case assert_session_access (later_clock (later_clock env)) p h1 of
                  (Inl e, _, h2) \<Rightarrow> (Unauthorized, put_hub v h2 nv0)
                | (Inr _, _, h2) \<Rightarrow>
                    if snd closing then (Socket_destroyed, put_hub v h2 nv0)
                    else let h3 = on_sockets (register_socket i (pd_session p)) h2
                      in (Upgraded, put_hub v (h3\<lparr>hb_co := complete_socket_open (later_clock (later_clock env)) (hb_co h3)\<rparr>) nv0))))"

section \<open>Frames that are no messages\<close>



lemma receive_cases:
  assumes z: "zod_documented z"
  shows "(\<exists>m. message_ok m \<and> node_receive z parse env i f h = handle env i m h \<and>
      (\<exists>t v. f = Text t \<and> parse t = Some v \<and> parse_client_control_message z v = Inr (Some m))) \<or>
    (\<exists>code text. code \<in> {''invalid_message'', ''invalid_json''} \<and> node_receive z parse env i f h = send i (Session_error code text) h)"
proof (cases f)
  case (Text t)
  show ?thesis
  proof (cases "parse t")
    case None
    then show ?thesis by (auto simp: node_receive_def Text json_refusal_def)
  next
    case (Some v)
    show ?thesis
    proof (cases "parse_client_control_message z v")
      case (Inl issues)
      then show ?thesis using Some by (auto simp: node_receive_def Text schema_refusal_def)
    next
      case (Inr r)
      then obtain m where "r = Some m" "message_ok m" using parsed_message_ok[OF z] by blast
      then show ?thesis using Some Inr by (auto simp: node_receive_def Text)
    qed
  qed
qed (auto simp: node_receive_def binary_refusal_def)




section \<open>The end of a socket under both runtimes\<close>

lemma unregister_send_where: "unregister_socket i (send_where P m g) = send_where P m (unregister_socket i g)"
  by (induction g) (auto simp: send_where_def unregister_socket_def)

lemma unregister_availability:
  "unregister_socket i (snd (broadcast_presence_availability (Some i) g)) = snd (broadcast_presence_availability (Some i) (unregister_socket i g))"
  "fst (broadcast_presence_availability (Some i) g) = fst (broadcast_presence_availability (Some i) (unregister_socket i g))"
proof -
  have "filter (presence_watcher (Some i)) (unregister_socket i g) = filter (presence_watcher (Some i)) g"
    by (induction g) (auto simp: unregister_socket_def presence_watcher_def)
  then show "unregister_socket i (snd (broadcast_presence_availability (Some i) g)) = snd (broadcast_presence_availability (Some i) (unregister_socket i g))"
    "fst (broadcast_presence_availability (Some i) g) = fst (broadcast_presence_availability (Some i) (unregister_socket i g))"
    by (simp_all add: broadcast_presence_availability_def Let_def unregister_send_where)
qed

lemma unregister_disconnect:
  "on_sockets (unregister_socket i) (handle_disconnect i h) = handle_disconnect i (on_sockets (unregister_socket i) h)"
proof -
  let ?b = "\<lambda>h. announce_cleared i (presence_get i (hb_presence h)) (h\<lparr>hb_presence := snd (presence_clear i (hb_presence h))\<rparr>)"
  have 1: "?b (on_sockets (unregister_socket i) h) = on_sockets (unregister_socket i) (?b h)"
    by (simp add: announce_cleared_def broadcast_presence_cleared_def on_sockets_def broadcast_presence_to_watchers_def
        unregister_send_where split: option.split)
  have 2: "on_sockets (unregister_socket i) (snd (announce_availability (Some i) k)) =
      snd (announce_availability (Some i) (on_sockets (unregister_socket i) k))" for k
    using unregister_availability[of i "hb_sockets k"]
    by (auto simp: announce_availability_def on_sockets_def Let_def split: prod.splits)
  show ?thesis unfolding handle_disconnect_def clear_presence_eq Let_def prod.case 1[symmetric] 2
    by (simp add: on_sockets_def)
qed

lemma terminations_agree:
  assumes "i \<noteq> []"
  shows "on_sockets (unregister_socket i) (object_terminate env True i h) = close_connection env i h"
proof -
  have "hb_co (on_sockets f k) = hb_co k" "(on_sockets f k)\<lparr>hb_co := c\<rparr> = on_sockets f (k\<lparr>hb_co := c\<rparr>)" for f k c
    by (simp_all add: on_sockets_def)
  then show ?thesis using assms
    by (simp add: object_terminate_def close_connection_def Let_def unregister_disconnect[symmetric])
qed

lemma ended_once: "node_ended env' i (node_ended env i s) = node_ended env i s"
  by (cases s) (simp add: node_ended_def)

section \<open>Who gets a socket\<close>

lemma authorize_checked:
  assumes ok: "access_ok (hb_access h, co_db (hb_co h))" and run: "authorize env session h = (r, h')"
  shows "(r = Inr () \<longleftrightarrow> \<not> denied_by (live_rows (ev_clk env 0) (co_db (hb_co h))) (ss_userId session)
      (case ss_accessVersion session of None \<Rightarrow> 1 | Some n \<Rightarrow> n)) \<and>
    access_ok (hb_access h', co_db (hb_co h')) \<and> hb_sockets h' = hb_sockets h \<and>
    (\<forall>t. ev_clk env 0 \<le> t \<longrightarrow> live_rows t (co_db (hb_co h')) = live_rows t (co_db (hb_co h)))"
proof -
  let ?version = "case ss_accessVersion session of None \<Rightarrow> 1 | Some n \<Rightarrow> n"
  obtain s1 d1 where req: "require_access (ev_clk env 0) (ss_userId session) ?version (hb_access h, co_db (hb_co h)) = (r, s1, d1)"
      and h': "h' = h\<lparr>hb_access := s1, hb_co := (hb_co h)\<lparr>co_db := d1\<rparr>\<rparr>"
    using run by (auto simp: authorize_def split: prod.splits)
  obtain s2 d2 where load: "load_access (ev_clk env 0) (hb_access h, co_db (hb_co h)) = (s2, d2)" by fastforce
  have d1: "d1 = d2" using req by (auto simp: require_access_def assert_sync_allowed_def legacy_pause_quota_compatibility_def load Let_def)
  have "live_rows t d1 = live_rows t (co_db (hb_co h))" if "ev_clk env 0 \<le> t" for t
  proof -
    have "db_revocations d1 = live_rows (ev_clk env 0) (co_db (hb_co h))" using load_access_spec[OF ok load] d1 by simp
    then show ?thesis using that by (auto simp: live_rows_def intro!: filter_cong)
  qed
  then show ?thesis using require_access_granted[OF ok req] by (simp add: h')
qed

lemma ensure_state_revocations:
  "db_revocations (co_db (snd (service_ensure_vault_state limits v c))) = db_revocations (co_db c)"
  by (auto simp: service_ensure_vault_state_def ensure_vault_state_def split: sum.splits bool.splits option.splits prod.splits if_splits)

definition version_of :: "token_claims \<Rightarrow> int" where
  "version_of claims = (case tc_accessVersion claims of None \<Rightarrow> 1 | Some n \<Rightarrow> n)"

lemma prepare_checked:
  assumes ok: "access_ok (hb_access h, co_db (hb_co h))" and run: "prepare_for_socket verify limits env token v h = (r, h')"
  shows "hb_sockets h' = hb_sockets h \<and> access_ok (hb_access h', co_db (hb_co h')) \<and>
    (\<forall>t. ev_clk env 1 \<le> t \<longrightarrow> live_rows t (co_db (hb_co h')) = live_rows t (co_db (hb_co h))) \<and>
    (\<forall>p. r = Inr p \<longrightarrow> (\<exists>claims. verify_sync_token verify None (ev_clk env 0) token (Some v) = Inr claims \<and>
       p = \<lparr>pd_session = session_of_claims claims, pd_expiry = Some (tc_exp claims * 1000)\<rparr>))"
proof (cases "verify_sync_token verify None (ev_clk env 0) token (Some v)")
  case (Inl e)
  then show ?thesis using run ok by (auto simp: prepare_for_socket_def verify_for_socket_def prepare_socket_session_def)
next
  case (Inr claims)
  obtain a h1 where auth: "authorize (later_clock env) (session_of_claims claims) h = (a, h1)" by fastforce
  note checked = authorize_checked[OF ok auth]
  have clk: "ev_clk (later_clock env) 0 = ev_clk env 1" by (simp add: later_clock_def)
  show ?thesis
  proof (cases a)
    case (Inl e)
    then show ?thesis using run Inr auth checked
      by (auto simp: prepare_for_socket_def verify_for_socket_def prepare_socket_session_def clk)
  next
    case a: (Inr u)
    obtain q c where st: "service_ensure_vault_state limits (tc_vaultId claims) (hb_co h1) = (q, c)" by fastforce
    have same: "db_revocations (co_db c) = db_revocations (co_db (hb_co h1))"
      using ensure_state_revocations[of limits "tc_vaultId claims" "hb_co h1"] by (simp add: st)
    have "h' = h1\<lparr>hb_co := c\<rparr>" and r: "r = (case q of Inl e \<Rightarrow> Inl (Coordinator_failure e)
        | Inr _ \<Rightarrow> Inr \<lparr>pd_session = session_of_claims claims, pd_expiry = Some (tc_exp claims * 1000)\<rparr>)"
      using run Inr auth a st
      by (auto simp: prepare_for_socket_def verify_for_socket_def prepare_socket_session_def split: sum.splits)
    then show ?thesis using checked same Inr by (auto simp: access_ok_def live_rows_def clk split: sum.splits)
  qed
qed

lemma assert_checked:
  assumes ok: "access_ok (hb_access h, co_db (hb_co h))" and run: "assert_session_access env p h = (r, p', h')"
  shows "hb_sockets h' = hb_sockets h \<and>
    (r = Inr () \<longrightarrow> (\<exists>t. pd_expiry p = Some t \<and> ev_clk env 0 < t \<or> pd_expiry p = None \<and> ev_clk env 0 < 0) \<and>
      \<not> denied_by (live_rows (ev_clk env 1) (co_db (hb_co h))) (ss_userId (pd_session p))
        (case ss_accessVersion (pd_session p) of None \<Rightarrow> 1 | Some n \<Rightarrow> n))"
proof -
  obtain a h1 where auth: "authorize (later_clock env) (pd_session p) h = (a, h1)" by fastforce
  then show ?thesis using run authorize_checked[OF ok auth]
    by (auto simp: assert_session_access_def later_clock_def not_le split: if_splits sum.splits option.splits)
qed

lemma vault_id_trim: "vault_id_ok v \<Longrightarrow> js_trim v = v"
proof (rule js_trim_word)
  fix c
  assume "vault_id_ok v" "c \<in> set v"
  then have "45 \<le> (of_char c :: nat) \<and> (of_char c :: nat) \<le> 122"
    by (auto simp: vault_id_ok_def list_all_iff char_between_def less_eq_char_def)
  then show "\<not> js_space c" by (auto simp: js_space_def)
qed

section \<open>Properties\<close>


definition example_parse :: "string \<Rightarrow> json option" where
  "example_parse t = (if t = ''beat'' then Some (message_json (Msg_heartbeat ''r'')) else None)"



text \<open>
  C28. Only the authorized get a socket. An upgrade request opens a socket exactly in the vault its path names, and
  only with a token that is signed for this vault and not expired, of a user whose access is not revoked at the
  moment the socket is accepted; the session of the socket is the one of the token. Every other request leaves all
  sockets of all vaults alone, and no request touches another vault. The route of the Durable Object decides alike
  and has the same effect.
\<close>

theorem upgrade_admits_the_authorized:
  assumes ok: "\<And>v. access_ok (hb_access (nv_hubs nv v), co_db (hb_co (nv_hubs nv v)))"
    and clock: "\<And>j k. j \<le> k \<Longrightarrow> ev_clk env j \<le> ev_clk env k" "0 \<le> ev_clk env 0"
    and run: "node_upgrade verify decode limits env i closing q nv = (r, nv')"
  shows "(case requested_vault decode (ur_path q) of
      None \<Rightarrow> r = Socket_destroyed \<and> nv' = nv
    | Some v \<Rightarrow>
        (\<forall>w. w \<noteq> v \<longrightarrow> nv_hubs nv' w = nv_hubs nv w) \<and>
        (if r = Upgraded
         then closing = (False, False) \<and> (\<exists>claims.
           verify_sync_token verify None (ev_clk env 0) (node_read_sync_token (ur_authorization q) (ur_protocols q)) (Some v) = Inr claims \<and>
           tc_vaultId claims = v \<and> ev_clk env 2 < tc_exp claims * 1000 \<and>
           \<not> denied_by (live_rows (ev_clk env 3) (co_db (hb_co (nv_hubs nv v)))) (tc_sub claims) (version_of claims) \<and>
           hb_sockets (nv_hubs nv' v) = register_socket i (session_of_claims claims) (hb_sockets (nv_hubs nv v)))
         else hb_sockets (nv_hubs nv' v) = hb_sockets (nv_hubs nv v)) \<and>
        (\<forall>q'. closing = (False, False) \<and> ur_upgrade q' = Some ''websocket'' \<and> ur_authorization q' = ur_authorization q \<and>
            ur_protocols q' = ur_protocols q \<longrightarrow>
          (\<exists>r'. object_upgrade verify (limits v) env i v q' (nv_hubs nv v) = (r', nv_hubs nv' v) \<and> (r' = Upgraded \<longleftrightarrow> r = Upgraded))))"
proof (cases "requested_vault decode (ur_path q)")
  case None
  then show ?thesis using run by (auto simp: node_upgrade_def split: if_splits)
next
  case (Some v)
  let ?token = "node_read_sync_token (ur_authorization q) (ur_protocols q)"
  let ?env = "later_clock (later_clock env)"
  obtain c1 c2 where c: "closing = (c1, c2)" by fastforce
  have clk: "ev_clk ?env 0 = ev_clk env 2" "ev_clk ?env 1 = ev_clk env 3" by (simp_all add: later_clock_def numeral_2_eq_2 numeral_3_eq_3)
  have v: "js_trim v = v" "v \<noteq> []" using Some by (auto simp: requested_vault_def vault_id_trim vault_id_ok_def split: option.splits if_splits)
  obtain pr h1 where prep: "prepare_for_socket verify (limits v) env ?token v (nv_hubs nv v) = (pr, h1)" by fastforce
  note P = prepare_checked[OF ok prep]
  have ws: "map ascii_lower ''websocket'' = ''websocket''" by code_simp
  have vault_of: "tc_vaultId claims = v" if "verify_sync_token verify None (ev_clk env 0) ?token (Some v) = Inr claims" for claims
    using that v(2) by (auto simp: verify_sync_token_def truthy_def split: if_splits sum.splits)
  show ?thesis
  proof (cases pr)
    case (Inl e)
    then show ?thesis using run Some prep P v ws
      by (auto simp: node_upgrade_def object_upgrade_def get_or_create_runtime_def put_hub_def split: if_splits)
  next
    case (Inr p)
    obtain claims where claims: "verify_sync_token verify None (ev_clk env 0) ?token (Some v) = Inr claims"
        "p = \<lparr>pd_session = session_of_claims claims, pd_expiry = Some (tc_exp claims * 1000)\<rparr>"
      using P Inr by blast
    obtain a p' h2 where chk: "assert_session_access ?env p h1 = (a, p', h2)" by (metis prod_cases3)
    have A: "hb_sockets h2 = hb_sockets (nv_hubs nv v)"
      "a = Inr () \<Longrightarrow> ev_clk env 2 < tc_exp claims * 1000 \<and>
        \<not> denied_by (live_rows (ev_clk env 3) (co_db (hb_co (nv_hubs nv v)))) (tc_sub claims) (version_of claims)"
      using assert_checked[OF _ chk] P clk clock(1)[of 1 3] by (auto simp: claims(2) session_of_claims_def version_of_def)
    show ?thesis
      using run Some prep Inr chk A claims vault_of[OF claims(1)] v ws c
      by (auto simp: node_upgrade_def object_upgrade_def accept_socket_def get_or_create_runtime_def put_hub_def on_sockets_def
          Let_def split: if_splits sum.splits)
  qed
qed

lemma refused_upgrade_opens_vault:
  \<comment> \<open>the instance and its file are opened before the token is looked at\<close>
  "node_upgrade verify Some limits env i (False, False)
     \<lparr>ur_path = ''/v1/vaults/nobody/socket'', ur_upgrade = Some ''websocket'', ur_authorization = None, ur_protocols = None\<rparr> nv =
   (Unauthorized, put_hub ''nobody'' (nv_hubs nv ''nobody'') (get_or_create_runtime ''nobody'' nv))"
proof -
  have "requested_vault Some ''/v1/vaults/nobody/socket'' = Some ''nobody''" "node_read_sync_token None None = None" by code_simp+
  then show ?thesis
    by (simp add: node_upgrade_def prepare_for_socket_def verify_for_socket_def verify_sync_token_def truthy_def
        prepare_socket_session_def get_or_create_runtime_def)
qed

definition example_check :: "int \<Rightarrow> string \<Rightarrow> jwt_result" where
  "example_check now token = (if token = ''t'' then Jwt_payload (token_payload example_claims) else Jwt_failed)"

definition example_upgrade :: upgrade_request where
  "example_upgrade = \<lparr>ur_path = ''/v1/vaults/v/socket'', ur_upgrade = Some ''websocket'', ur_authorization = None,
     ur_protocols = Some ''synch.v1, synch.auth.t''\<rparr>"

definition example_vaults :: node_vaults where
  "example_vaults = \<lparr>nv_hubs = (\<lambda>_. idle_hub), nv_opened = {}\<rparr>"

theorem upgrade_admits_the_authorized_witness:
  "hb_sockets (nv_hubs (snd (node_upgrade example_check Some (\<lambda>_. Inr example_limits) example_env ''a'' (False, False)
     example_upgrade example_vaults)) ''v'') = register_socket ''a'' (session_of_claims example_claims) []"
proof -
  obtain r nv' where run: "node_upgrade example_check Some (\<lambda>_. Inr example_limits) example_env ''a'' (False, False)
     example_upgrade example_vaults = (r, nv')" by fastforce
  have ok: "access_ok (hb_access (nv_hubs example_vaults v), co_db (hb_co (nv_hubs example_vaults v)))" for v
    by (simp add: access_ok_def example_vaults_def idle_hub_def idle_coordinator_def empty_db_def keyed_def)
  have clock: "ev_clk example_env j \<le> ev_clk example_env k" "0 \<le> ev_clk example_env 0" for j k by (simp_all add: example_env_def)
  have r: "r = Upgraded"
  proof -
    have "fst (node_upgrade example_check Some (\<lambda>_. Inr example_limits) example_env ''a'' (False, False)
      example_upgrade example_vaults) = Upgraded" by code_simp
    then show ?thesis by (simp add: run)
  qed
  have v: "requested_vault Some (ur_path example_upgrade) = Some ''v''" by code_simp
  have c: "verify_sync_token example_check None (ev_clk example_env 0)
      (node_read_sync_token (ur_authorization example_upgrade) (ur_protocols example_upgrade)) (Some ''v'') = Inr example_claims" by code_simp
  note admitted = upgrade_admits_the_authorized[OF ok clock run, unfolded v option.case c r]
  then have "hb_sockets (nv_hubs nv' ''v'') = register_socket ''a'' (session_of_claims example_claims) (hb_sockets (nv_hubs example_vaults ''v''))"
    by auto
  then show ?thesis unfolding run by (simp add: example_vaults_def idle_hub_def)
qed

section \<open>All vaults of a server\<close>

text \<open>
  A Node server as a whole: requests, frames and ended sockets as they arrive, and everything the instances do
  besides, over all vaults.
\<close>

datatype server_event =
    Upgrade_arrived upgrade_request ident "bool \<times> bool"
  | Frame_arrived ident ident frame \<comment> \<open>vault and connection\<close>
  | Socket_ended ident ident
  | Vault_event ident hub_event

record server =
  sv_now :: millis
  sv_vaults :: node_vaults
  sv_ended :: "ident set"

record server_libraries =
  sl_zod :: zod
  sl_json_parse :: "string \<Rightarrow> json option"
  sl_jwt :: "int \<Rightarrow> string \<Rightarrow> jwt_result"
  sl_decode :: "string \<Rightarrow> string option"
  sl_limits :: "ident \<Rightarrow> coord_error + vault_limits"

fun server_do :: "server_libraries \<Rightarrow> env \<Rightarrow> server_event \<Rightarrow> ident set \<times> node_vaults \<Rightarrow> ident set \<times> node_vaults" where
  "server_do l env (Upgrade_arrived q i closing) (ended, nv) =
     (ended, snd (node_upgrade (sl_jwt l) (sl_decode l) (sl_limits l) env i closing q nv))"
| "server_do l env (Frame_arrived v i f) (ended, nv) =
     (ended, put_hub v (node_receive (sl_zod l) (sl_json_parse l) env i f (nv_hubs nv v)) nv)"
| "server_do l env (Socket_ended v i) (ended, nv) =
     (let (ended', h) = node_ended env i (ended, nv_hubs nv v) in (ended', put_hub v h nv))"
| "server_do l env (Vault_event v e) (ended, nv) = (ended, put_hub v (hub_do v env e (nv_hubs nv v)) nv)"

fun server_event_ok :: "env \<Rightarrow> server_event \<Rightarrow> node_vaults \<Rightarrow> bool" where
  \<comment> \<open>connection ids are fresh; nothing is asked of what clients send\<close>
  "server_event_ok env (Upgrade_arrived q i closing) nv \<longleftrightarrow> (\<forall>v. i \<notin> so_id ` set (hb_sockets (nv_hubs nv v)))"
| "server_event_ok env (Vault_event v e) nv \<longleftrightarrow> hub_event_ok v env e (nv_hubs nv v)"
| "server_event_ok env _ nv \<longleftrightarrow> True"

definition server_step :: "server_libraries \<Rightarrow> env \<times> server_event \<times> millis \<Rightarrow> server \<Rightarrow> server" where
  "server_step l = (\<lambda>(env, e, until) s. let (ended, nv) = server_do l env e (sv_ended s, sv_vaults s)
     in \<lparr>sv_now = until, sv_vaults = nv, sv_ended = ended\<rparr>)"

definition server_step_ok :: "env \<times> server_event \<times> millis \<Rightarrow> server \<Rightarrow> bool" where
  "server_step_ok = (\<lambda>(env, e, until) s. (\<forall>k. sv_now s \<le> ev_clk env k \<and> ev_clk env k \<le> until) \<and> server_event_ok env e (sv_vaults s))"

definition server_inv :: "server \<Rightarrow> bool" where
  "server_inv s \<longleftrightarrow> (\<forall>v. hub_inv v (sv_now s, nv_hubs (sv_vaults s) v))"

lemma hub_inv_later: "hub_inv v (now, h) \<Longrightarrow> now \<le> until \<Longrightarrow> hub_inv v (until, h)"
  using vault_ok_later by (auto simp: hub_inv_def)

lemma authorize_hub_inv: "hub_inv v (now, h) \<Longrightarrow> authorize env session h = (r, h') \<Longrightarrow> hub_inv v (now, h')"
  using authorize_inv authorize_fields by (fastforce simp: hub_inv_def hub_ok_def)

lemma prepare_hub_inv:
  assumes inv: "hub_inv v (now, h)" and v: "v \<noteq> []" and run: "prepare_for_socket verify limits env token v h = (r, h')"
  shows "hub_inv v (now, h') \<and> hb_sockets h' = hb_sockets h \<and> (\<forall>p. r = Inr p \<longrightarrow> ss_vaultId (pd_session p) = v)"
proof -
  obtain x h1 where ver: "verify_for_socket verify env token v h = (x, h1)" by fastforce
  have h1: "hub_inv v (now, h1) \<and> hb_sockets h1 = hb_sockets h \<and> (\<forall>claims. x = Inr claims \<longrightarrow> tc_vaultId claims = v)"
  proof (cases "verify_sync_token verify None (ev_clk env 0) token (Some v)")
    case (Inl e)
    then show ?thesis using ver inv by (auto simp: verify_for_socket_def)
  next
    case (Inr claims)
    obtain a ha where auth: "authorize (later_clock env) (session_of_claims claims) h = (a, ha)" by fastforce
    have "tc_vaultId claims = v" using Inr v by (auto simp: verify_sync_token_def truthy_def split: if_splits sum.splits)
    then show ?thesis using ver Inr auth authorize_hub_inv[OF inv auth] authorize_fields[OF auth]
      by (auto simp: verify_for_socket_def split: sum.splits)
  qed
  show ?thesis
  proof (cases x)
    case (Inl e)
    then show ?thesis using run ver h1 by (auto simp: prepare_for_socket_def prepare_socket_session_def)
  next
    case (Inr claims)
    obtain q c where st: "service_ensure_vault_state limits (tc_vaultId claims) (hb_co h1) = (q, c)" by fastforce
    then have "vault_ok now v c"
      using h1 Inr ensure_state_inv[of True now v "hb_co h1" limits] by (auto simp: hub_inv_def)
    then show ?thesis using run ver h1 Inr st
      by (auto simp: prepare_for_socket_def prepare_socket_session_def hub_inv_def session_of_claims_def split: sum.splits)
  qed
qed

lemma upgrade_inv:
  assumes inv: "\<And>w. hub_inv w (now, nv_hubs nv w)" and fresh: "\<And>w. i \<notin> so_id ` set (hb_sockets (nv_hubs nv w))"
    and run: "node_upgrade verify decode limits env i closing q nv = (r, nv')"
  shows "hub_inv w (now, nv_hubs nv' w)"
proof (cases "fst closing \<or> requested_vault decode (ur_path q) = None")
  case True
  then show ?thesis using run inv by (auto simp: node_upgrade_def split: if_splits option.splits)
next
  case False
  then obtain v where v: "requested_vault decode (ur_path q) = Some v" and starts: "\<not> fst closing" by auto
  have ne: "v \<noteq> []" using v by (auto simp: requested_vault_def vault_id_ok_def split: option.splits if_splits)
  let ?env = "later_clock (later_clock env)"
  obtain pr h1 where prep: "prepare_for_socket verify (limits v) env (node_read_sync_token (ur_authorization q) (ur_protocols q)) v
      (nv_hubs nv v) = (pr, h1)" by fastforce
  note P = prepare_hub_inv[OF inv ne prep]
  show ?thesis
  proof (cases pr)
    case (Inl e)
    then show ?thesis using run v starts prep P inv[of w] by (auto simp: node_upgrade_def get_or_create_runtime_def put_hub_def)
  next
    case (Inr p)
    obtain a p' h2 where chk: "assert_session_access ?env p h1 = (a, p', h2)" by (metis prod_cases3)
    have h2: "hub_inv v (now, h2)"
    proof -
      obtain b hb where auth: "authorize (later_clock ?env) (pd_session p) h1 = (b, hb)" by fastforce
      have "hub_inv v (now, hb)" using authorize_hub_inv[OF _ auth] P by blast
      then show ?thesis using chk auth P by (auto simp: assert_session_access_def split: if_splits sum.splits)
    qed
    have acc: "hub_inv v (now, snd (snd (accept_socket ?env i p h1)))"
      using P Inr fresh[of v] hub_ok_accept[of v h1 i p ?env] accept_inv[of now v h1 ?env i p] by (auto simp: hub_inv_def)
    then show ?thesis using run v starts prep Inr chk h2 inv[of w]
      by (auto simp: node_upgrade_def get_or_create_runtime_def put_hub_def accept_socket_def Let_def split: sum.splits if_splits)
  qed
qed

lemma receive_inv:
  assumes "hub_inv v (now, h)" and t: "\<And>k. now \<le> ev_clk env k" "\<And>k. ev_clk env k \<le> until"
  shows "hub_inv v (until, node_receive z parse env i f h)"
proof -
  have nu: "now \<le> until" using t order_trans by blast
  have h: "hub_inv v (until, handle env i m h)" for m
    using assms hub_ok_handle handle_inv[OF _ _ t] by (simp add: hub_inv_def)
  have s: "hub_inv v (until, send i m h)" for m
    using hub_inv_later[OF assms(1) nu] by (auto simp: hub_inv_def send_def on_sockets_def dest: hub_ok_send[of v h i m, unfolded send_def on_sockets_def])
  show ?thesis using h s hub_inv_later[OF assms(1) nu]
    by (auto simp: node_receive_def split: frame.splits option.splits sum.splits)
qed

lemma server_step_inv:
  assumes ok: "server_step_ok e s" and inv: "server_inv s"
  shows "server_inv (server_step l e s)"
proof -
  obtain env event until where e: "e = (env, event, until)" by (cases e)
  have t: "\<And>k. sv_now s \<le> ev_clk env k" "\<And>k. ev_clk env k \<le> until" and ev: "server_event_ok env event (sv_vaults s)"
    using ok by (simp_all add: server_step_ok_def e)
  have nu: "sv_now s \<le> until" using t order_trans by blast
  have inv': "hub_inv w (sv_now s, nv_hubs (sv_vaults s) w)" for w using inv by (simp add: server_inv_def)
  note later = hub_inv_later[OF _ nu]
  have hub: "hub_inv v (until, hub_do v env x (nv_hubs (sv_vaults s) v))" if "hub_event_ok v env x (nv_hubs (sv_vaults s) v)" for v x
    using hub_step_inv[of v "(env, x, until)" "(sv_now s, nv_hubs (sv_vaults s) v)"] that t inv'
    by (simp add: hub_step_ok_def hub_step_def)
  have "hub_inv w (until, nv_hubs (snd (server_do l env event (sv_ended s, sv_vaults s))) w)" for w
  proof (cases event)
    case (Upgrade_arrived q i closing)
    obtain r nv' where run: "node_upgrade (sl_jwt l) (sl_decode l) (sl_limits l) env i closing q (sv_vaults s) = (r, nv')" by fastforce
    show ?thesis using later[OF upgrade_inv[OF inv' _ run]] ev by (simp add: Upgrade_arrived run)
  next
    case (Frame_arrived v i f)
    then show ?thesis using receive_inv[OF inv' t] later[OF inv'] by (simp add: put_hub_def)
  next
    case (Socket_ended v i)
    then show ?thesis using hub[of v "Disconnected i"] later[OF inv'] by (simp add: put_hub_def node_ended_def)
  next
    case (Vault_event v x)
    then show ?thesis using hub[of v x] later[OF inv'] ev by (simp add: put_hub_def)
  qed
  then show ?thesis by (simp add: server_inv_def server_step_def e case_prod_beta)
qed

interpretation server: step_system "server_step l" server_step_ok server_inv for l
  by unfold_locales (rule server_step_inv)

section \<open>Whose connections they are\<close>

text \<open>No operation on a connection changes whose it is. \<open>D\<close> holds connections with the device they belong to.\<close>

definition owners_in :: "(ident \<times> ident \<times> ident) set \<Rightarrow> hub \<Rightarrow> bool" where
  "owners_in D h \<longleftrightarrow> (\<forall>(i, s) \<in> set (sessions (hb_sockets h)). (i, identity s) \<in> D)"

lemma owners_same: "owners_in D h \<Longrightarrow> sessions (hb_sockets h') = sessions (hb_sockets h) \<Longrightarrow> owners_in D h'"
  by (simp add: owners_in_def)

lemma owners_simps [simp]:
  "owners_in D (h\<lparr>hb_co := c\<rparr>) = owners_in D h" "owners_in D (h\<lparr>hb_access := a\<rparr>) = owners_in D h"
  "owners_in D (h\<lparr>hb_presence := p\<rparr>) = owners_in D h"
  by (simp_all add: owners_in_def)

lemma owners_on_sockets: "owners_in D h \<Longrightarrow> (\<And>g. sessions (f g) = sessions g) \<Longrightarrow> owners_in D (on_sockets f h)"
  by (rule owners_same) (simp_all add: on_sockets_def)

lemma owners_send [intro]: "owners_in D h \<Longrightarrow> owners_in D (send i m h)"
  by (auto simp: send_def intro: owners_on_sockets)

lemma owners_reply [intro]: "owners_in D h \<Longrightarrow> owners_in D (reply_and_broadcast i m b h)"
  by (auto simp: reply_and_broadcast_def Let_def intro!: owners_on_sockets split: option.split)

lemma owners_with_services: "owners_in D h \<Longrightarrow> owners_in D (snd (with_services op h))"
  by (cases "op ((hb_co h)\<lparr>co_calls := []\<rparr>)") (auto simp: with_services_def owners_in_def)

lemma owners_service:
  assumes "owners_in D h" "\<And>e h1. owners_in D h1 \<Longrightarrow> owners_in D (f e h1)" "\<And>x h1. owners_in D h1 \<Longrightarrow> owners_in D (k x h1)"
  shows "owners_in D (case with_services op h of (Inl e, h1) \<Rightarrow> f e h1 | (Inr x, h1) \<Rightarrow> k x h1)"
  using assms owners_with_services[OF assms(1), of op]
  by (cases "with_services op h" rule: prod.exhaust) (auto split: sum.split)

lemma owners_cleared [intro]: "owners_in D h \<Longrightarrow> owners_in D (announce_cleared i previous h)"
  by (auto simp: announce_cleared_def broadcast_presence_cleared_def intro: owners_on_sockets split: option.split)

lemma owners_push [intro]: "owners_in D h \<Longrightarrow> owners_in D (push_presence_updated p e sel receiver h)"
  by (auto simp: push_presence_updated_def Let_def intro!: owners_on_sockets split: option.split)

lemma owners_snapshots [intro]: "owners_in D h \<Longrightarrow> owners_in D (push_snapshots i e h)"
proof -
  have "owners_in D h \<Longrightarrow> owners_in D (fold (\<lambda>y. push_presence_updated (py_presenceId y) (py_entryId y) (py_selection y) (Some i)) ys h)" for ys
    by (induction ys arbitrary: h) auto
  then show "owners_in D h \<Longrightarrow> owners_in D (push_snapshots i e h)" by (simp add: push_snapshots_def)
qed

lemma owners_all_snapshots [intro]: "owners_in D h \<Longrightarrow> owners_in D (fold (push_snapshots i) es h)"
  by (induction es arbitrary: h) auto

lemma owners_availability: "owners_in D h \<Longrightarrow> owners_in D (snd (announce_availability x h))"
proof (rule owners_same)
  obtain enabled g where g: "broadcast_presence_availability x (hb_sockets h) = (enabled, g)" by fastforce
  then show "sessions (hb_sockets (snd (announce_availability x h))) = sessions (hb_sockets h)"
    using sessions_broadcast(5)[of x "hb_sockets h"] by (simp add: announce_availability_def Let_def)
qed

lemma owners_availability_fst: "owners_in D h \<Longrightarrow> announce_availability x h = (enabled, h') \<Longrightarrow> owners_in D h'"
  using owners_availability[of D h x] by simp

lemma in_change_first: "s \<in> set (change_first P f g) \<Longrightarrow> s \<in> set g \<or> (\<exists>t \<in> set g. P t \<and> s = f t)"
  by (induction g) (auto split: if_splits)

lemma sessions_change_owner:
  "(i, s) \<in> set (sessions (attach_socket_session j session g)) \<Longrightarrow> (i, s) \<in> set (sessions g) \<or> (i = j \<and> s = session)"
  unfolding attach_socket_session_def sessions_def with_id_def by (force dest!: in_change_first)

lemma owners_attach: "owners_in D h \<Longrightarrow> (i, identity session) \<in> D \<Longrightarrow> owners_in D (attach i session h)"
  by (auto simp: owners_in_def attach_def on_sockets_def dest!: sessions_change_owner)

lemma owners_announced:
  assumes "owners_in D h"
  shows "owners_in D (case announce_availability None h of (enabled, h3) \<Rightarrow> if \<not> enabled then h3 else fold (push_snapshots i) es h3)"
proof (cases "announce_availability None h")
  case (Pair enabled h3)
  then have "owners_in D h3" using owners_availability_fst[OF assms] by blast
  then show ?thesis using Pair by auto
qed

lemma owners_watch:
  assumes ok: "owners_in D h" and i: "(i, identity session) \<in> D"
  shows "owners_in D (watch_presence i session es h)"
  unfolding watch_presence_def Let_def clear_presence_eq
  by (rule owners_announced) (auto intro!: owners_cleared owners_attach ok simp: i)

lemma owners_respond:
  assumes ok: "owners_in D h" and i: "(i, identity session) \<in> D"
  shows "owners_in D (respond env i session m h)"
proof (cases m)
  case (Msg_detach_local_vault r)
  then show ?thesis using ok by (auto intro: owners_with_services)
next
  case (Msg_hello r n)
  then show ?thesis using ok by (auto simp: say_hello_def Let_def split: sum.split prod.split)
next
  case (Msg_commit_mutations r ms)
  show ?thesis unfolding Msg_commit_mutations respond.simps by (rule owners_service[OF ok]) auto
next
  case (Msg_restore_entry_version r x)
  show ?thesis unfolding Msg_restore_entry_version respond.simps by (rule owners_service[OF ok]) (auto split: prod.split)
next
  case (Msg_restore_entry_versions r xs)
  show ?thesis unfolding Msg_restore_entry_versions respond.simps by (rule owners_service[OF ok]) (auto split: prod.split)
next
  case (Msg_purge_deleted_entries r es)
  show ?thesis unfolding Msg_purge_deleted_entries respond.simps by (rule owners_service[OF ok]) (auto split: prod.split)
next
  case (Msg_watch_presence es)
  then show ?thesis using owners_watch[OF ok i] by simp
next
  case Msg_unwatch_presence
  then show ?thesis using ok i
    by (auto simp: unwatch_presence_def clear_presence_eq intro!: owners_availability owners_cleared owners_attach)
next
  case Msg_presence_clear
  then show ?thesis using ok i by (auto simp: drop_presence_def clear_presence_eq intro!: owners_cleared owners_attach)
next
  case (Msg_presence_update e sel)
  then show ?thesis using ok i
    by (auto simp: update_presence_def Let_def intro!: owners_snapshots owners_push owners_cleared owners_attach
        split: prod.split presence_decision.split)
qed (use ok i in \<open>auto intro!: owners_send owners_attach split: prod.split\<close>)

lemma owners_handle:
  assumes ok: "owners_in D h"
  shows "owners_in D (handle env i m h)"
proof (cases "read_socket_session i (hb_sockets h)")
  case None
  then show ?thesis using ok by (auto simp: handle_def intro!: owners_on_sockets)
next
  case (Some session)
  obtain r h1 where auth: "authorize env session h = (r, h1)" by fastforce
  have "owners_in D h1" using ok authorize_fields[OF auth] by (auto simp: owners_in_def)
  moreover have "(i, identity session) \<in> D" using ok read_session_in[OF Some] by (auto simp: owners_in_def)
  moreover have "owners_in D h1 \<Longrightarrow> owners_in D (refuse i e h1)" for e
    unfolding refuse_def Let_def by (cases e) (simp add: owners_on_sockets owners_send)
  ultimately show ?thesis using Some auth owners_respond by (auto simp: handle_def split: sum.split)
qed

lemma owners_receive: "owners_in D h \<Longrightarrow> owners_in D (node_receive z parse env i f h)"
  by (auto simp: node_receive_def intro: owners_handle split: frame.split option.split sum.split)

lemma owners_close_connection:
  assumes "owners_in D h"
  shows "owners_in D (close_connection env i h)"
proof -
  have "owners_in D (on_sockets (unregister_socket i) h)"
    using assms by (auto simp: owners_in_def on_sockets_def sessions_def unregister_socket_def)
  then have "owners_in D (handle_disconnect i (on_sockets (unregister_socket i) h))"
    by (auto simp: handle_disconnect_def clear_presence_eq intro!: owners_availability owners_cleared)
  then show ?thesis by (simp add: close_connection_def Let_def)
qed

lemma owners_hub_do: "owners_in D h \<Longrightarrow> (\<forall>i p. e \<noteq> Connected i p) \<Longrightarrow> owners_in D (hub_do v env e h)"
  by (cases e) (auto simp: owners_handle owners_close_connection owners_with_services refresh_hub_def hibernate_def
      intro: owners_same split: prod.split)

lemma sessions_superseded: "sessions (close_superseded_sockets i session g) = sessions g"
proof -
  have "sessions (fold (\<lambda>s g'. if Q s then close_socket (so_id s) 4409 ''superseded by newer connection''
      (snd (send_socket_message (so_id s) replaced_message g')) else g') xs g) = sessions g" for Q xs
    by (induction xs arbitrary: g) auto
  then show ?thesis by (simp add: close_superseded_sockets_def)
qed

lemma sessions_register: "sessions (register_socket i session g) = sessions g @ [(i, session)]"
  by (simp add: register_socket_def sessions_superseded) (simp add: sessions_def)

section \<open>Histories of a server\<close>

definition admissions :: "server_libraries \<Rightarrow> (env \<times> server_event \<times> millis) list \<Rightarrow> ident \<Rightarrow> (ident \<times> ident \<times> ident) set" where
  \<comment> \<open>the connections to a vault that requests with a valid token for it asked for, with the device of the token\<close>
  "admissions l events v = {(i, tc_sub claims, tc_localVaultId claims) | env q i closing until claims.
     (env, Upgrade_arrived q i closing, until) \<in> set events \<and> requested_vault (sl_decode l) (ur_path q) = Some v \<and>
     verify_sync_token (sl_jwt l) None (ev_clk env 0) (node_read_sync_token (ur_authorization q) (ur_protocols q)) (Some v) = Inr claims}"

fun internal_event :: "server_event \<Rightarrow> bool" where
  \<comment> \<open>connections come from requests only\<close>
  "internal_event (Vault_event v (Connected i p)) = False"
| "internal_event _ = True"

lemma prepare_claims:
  assumes "prepare_for_socket verify limits env token v h = (r, h')"
  shows "hb_sockets h' = hb_sockets h \<and> (\<forall>p. r = Inr p \<longrightarrow> (\<exists>claims.
    verify_sync_token verify None (ev_clk env 0) token (Some v) = Inr claims \<and> pd_session p = session_of_claims claims))"
proof (cases "verify_sync_token verify None (ev_clk env 0) token (Some v)")
  case (Inl e)
  then show ?thesis using assms by (auto simp: prepare_for_socket_def verify_for_socket_def prepare_socket_session_def)
next
  case (Inr claims)
  obtain a h1 where auth: "authorize (later_clock env) (session_of_claims claims) h = (a, h1)" by fastforce
  then show ?thesis using assms Inr authorize_fields[OF auth]
    by (auto simp: prepare_for_socket_def verify_for_socket_def prepare_socket_session_def split: sum.splits prod.splits)
qed

lemma upgrade_owners:
  assumes run: "node_upgrade verify decode limits env i closing q nv = (r, nv')"
    and D: "owners_in D (nv_hubs nv w)"
    and new: "\<And>claims. requested_vault decode (ur_path q) = Some w \<Longrightarrow> verify_sync_token verify None (ev_clk env 0)
      (node_read_sync_token (ur_authorization q) (ur_protocols q)) (Some w) = Inr claims \<Longrightarrow> (i, tc_sub claims, tc_localVaultId claims) \<in> D"
  shows "owners_in D (nv_hubs nv' w)"
proof (cases "\<not> fst closing \<and> requested_vault decode (ur_path q) = Some w")
  case False
  then show ?thesis using run D
    by (auto simp: node_upgrade_def get_or_create_runtime_def put_hub_def Let_def split: if_splits option.splits sum.splits prod.splits)
next
  case True
  obtain pr h1 where prep: "prepare_for_socket verify (limits w) env (node_read_sync_token (ur_authorization q) (ur_protocols q)) w
      (nv_hubs nv w) = (pr, h1)" by fastforce
  note P = prepare_claims[OF prep]
  show ?thesis
  proof (cases pr)
    case (Inl e)
    then show ?thesis using run True prep P D
      by (auto simp: node_upgrade_def get_or_create_runtime_def put_hub_def owners_in_def)
  next
    case (Inr p)
    obtain a p' h2 where chk: "assert_session_access (later_clock (later_clock env)) p h1 = (a, p', h2)" by (metis prod_cases3)
    obtain b hb where auth: "authorize (later_clock (later_clock (later_clock env))) (pd_session p) h1 = (b, hb)" by fastforce
    have h2: "hb_sockets h2 = hb_sockets (nv_hubs nv w)"
      using chk auth authorize_fields[OF auth] P by (auto simp: assert_session_access_def split: if_splits sum.splits)
    have "(i, identity (pd_session p)) \<in> D" using P Inr new True by (auto simp: identity_def session_of_claims_def)
    then show ?thesis using run True prep Inr chk h2 D
      by (auto simp: node_upgrade_def get_or_create_runtime_def put_hub_def on_sockets_def Let_def owners_in_def sessions_register
          split: sum.splits if_splits)
  qed
qed

definition guarded_step_ok :: "server_libraries \<Rightarrow> (ident \<Rightarrow> (ident \<times> ident \<times> ident) set) \<Rightarrow> env \<times> server_event \<times> millis \<Rightarrow> server \<Rightarrow> bool" where
  "guarded_step_ok l D e s \<longleftrightarrow> server_step_ok e s \<and> internal_event (fst (snd e)) \<and> (\<forall>v. admissions l [e] v \<subseteq> D v)"

definition guarded_inv :: "(ident \<Rightarrow> (ident \<times> ident \<times> ident) set) \<Rightarrow> server \<Rightarrow> bool" where
  "guarded_inv D s \<longleftrightarrow> server_inv s \<and> (\<forall>v. owners_in (D v) (nv_hubs (sv_vaults s) v))"

lemma guarded_step_inv:
  assumes ok: "guarded_step_ok l D e s" and inv: "guarded_inv D s"
  shows "guarded_inv D (server_step l e s)"
proof -
  obtain env event until where e: "e = (env, event, until)" by (cases e)
  have own: "owners_in (D v) (nv_hubs (sv_vaults s) v)" for v using inv by (simp add: guarded_inv_def)
  have "owners_in (D w) (nv_hubs (snd (server_do l env event (sv_ended s, sv_vaults s))) w)" for w
  proof (cases event)
    case (Upgrade_arrived q i closing)
    obtain r nv' where run: "node_upgrade (sl_jwt l) (sl_decode l) (sl_limits l) env i closing q (sv_vaults s) = (r, nv')" by fastforce
    have "(i, tc_sub claims, tc_localVaultId claims) \<in> D w"
      if "requested_vault (sl_decode l) (ur_path q) = Some w" "verify_sync_token (sl_jwt l) None (ev_clk env 0)
        (node_read_sync_token (ur_authorization q) (ur_protocols q)) (Some w) = Inr claims" for claims
    proof -
      have "(i, tc_sub claims, tc_localVaultId claims) \<in> admissions l [e] w"
        unfolding admissions_def e Upgrade_arrived using that by (intro CollectI exI[of _ env] exI[of _ q] exI[of _ i] exI[of _ closing]) auto
      then show ?thesis using ok by (auto simp: guarded_step_ok_def)
    qed
    then show ?thesis using upgrade_owners[OF run own] by (simp add: Upgrade_arrived run)
  next
    case (Frame_arrived v i f)
    then show ?thesis using own owners_receive by (simp add: put_hub_def)
  next
    case (Socket_ended v i)
    then show ?thesis using own owners_close_connection by (simp add: put_hub_def node_ended_def)
  next
    case (Vault_event v x)
    then have "\<forall>i p. x \<noteq> Connected i p" using ok by (auto simp: guarded_step_ok_def e)
    then show ?thesis using own owners_hub_do Vault_event by (simp add: put_hub_def)
  qed
  moreover have "server_inv (server_step l e s)" using ok inv server_step_inv by (simp add: guarded_step_ok_def guarded_inv_def)
  ultimately show ?thesis by (simp add: guarded_inv_def server_step_def e case_prod_beta)
qed

interpretation guarded: step_system "server_step l" "guarded_step_ok l D" "guarded_inv D" for l D
  by unfold_locales (rule guarded_step_inv)

lemma guarded_admissible:
  "admissible server_step_ok (server_step l) es s \<Longrightarrow> \<forall>e \<in> set es. internal_event (fst (snd e)) \<Longrightarrow>
   \<forall>v. admissions l es v \<subseteq> D v \<Longrightarrow> admissible (guarded_step_ok l D) (server_step l) es s"
proof (induction es arbitrary: s)
  case (Cons e es)
  have "admissions l [e] v \<subseteq> D v" "admissions l es v \<subseteq> D v" for v
    using Cons.prems(3) by (auto simp: admissions_def subset_iff) blast+
  then show ?case using Cons by (simp add: guarded_step_ok_def)
qed simp

definition fresh_server :: "millis \<Rightarrow> server" where
  "fresh_server start = \<lparr>sv_now = start, sv_vaults = \<lparr>nv_hubs = (\<lambda>_. idle_hub), nv_opened = {}\<rparr>, sv_ended = {}\<rparr>"

lemma fresh_server_inv: "guarded_inv D (fresh_server start)"
  by (simp add: guarded_inv_def server_inv_def fresh_server_def idle_hub_inv)
     (simp add: owners_in_def idle_hub_def sessions_def)

text \<open>
  C4. Nobody is connected without a token. Start a server without connections and let any sequence of requests,
  frames, ended sockets, service calls, alarms and access changes arrive at its vaults, whatever the clients send:
  every connection of every vault goes back to a request for this very vault with a token that was valid for it,
  belongs to the user and the device of that token ever since, and the connections and the data of every vault are
  in order.
\<close>

theorem every_connection_was_admitted:
  assumes adm: "admissible server_step_ok (server_step l) events (fresh_server start)"
    and internal: "\<forall>e \<in> set events. internal_event (fst (snd e))"
    and run: "fold (server_step l) events (fresh_server start) = s"
  shows "\<forall>v. hub_ok v (nv_hubs (sv_vaults s) v) \<and> vault_ok (sv_now s) v (hb_co (nv_hubs (sv_vaults s) v)) \<and>
    (\<forall>c \<in> set (hb_sockets (nv_hubs (sv_vaults s) v)). ss_vaultId (so_data c) = v \<and>
      (\<exists>env q closing until claims. (env, Upgrade_arrived q (so_id c) closing, until) \<in> set events \<and>
         requested_vault (sl_decode l) (ur_path q) = Some v \<and>
         verify_sync_token (sl_jwt l) None (ev_clk env 0) (node_read_sync_token (ur_authorization q) (ur_protocols q)) (Some v) = Inr claims \<and>
         ss_userId (so_data c) = tc_sub claims \<and> ss_localVaultId (so_data c) = tc_localVaultId claims))"
proof (intro allI ballI conjI)
  fix v
  have "guarded_inv (admissions l events) s"
    unfolding run[symmetric] using adm internal by (intro guarded.run_inv guarded_admissible fresh_server_inv) simp_all
  then have inv: "hub_inv v (sv_now s, nv_hubs (sv_vaults s) v)" and own: "owners_in (admissions l events v) (nv_hubs (sv_vaults s) v)"
    by (simp_all add: guarded_inv_def server_inv_def)
  then show "hub_ok v (nv_hubs (sv_vaults s) v)" "vault_ok (sv_now s) v (hb_co (nv_hubs (sv_vaults s) v))"
    by (simp_all add: hub_inv_def)
  fix c
  assume c: "c \<in> set (hb_sockets (nv_hubs (sv_vaults s) v))"
  then have at: "(so_id c, so_data c) \<in> set (sessions (hb_sockets (nv_hubs (sv_vaults s) v)))" by (auto simp: sessions_def)
  show "ss_vaultId (so_data c) = v" using inv at by (auto simp: hub_inv_def hub_ok_def)
  have "(so_id c, identity (so_data c)) \<in> admissions l events v" using own at by (auto simp: owners_in_def)
  then show "\<exists>env q closing until claims. (env, Upgrade_arrived q (so_id c) closing, until) \<in> set events \<and>
         requested_vault (sl_decode l) (ur_path q) = Some v \<and>
         verify_sync_token (sl_jwt l) None (ev_clk env 0) (node_read_sync_token (ur_authorization q) (ur_protocols q)) (Some v) = Inr claims \<and>
         ss_userId (so_data c) = tc_sub claims \<and> ss_localVaultId (so_data c) = tc_localVaultId claims"
    unfolding admissions_def identity_def by blast
qed

definition example_libraries :: server_libraries where
  "example_libraries = \<lparr>sl_zod = plain_zod, sl_json_parse = example_parse, sl_jwt = example_check, sl_decode = Some,
     sl_limits = (\<lambda>_. Inr example_limits)\<rparr>"

definition example_server_events :: "(env \<times> server_event \<times> millis) list" where
  "example_server_events = map (\<lambda>e. (example_env, e, 10)) [Upgrade_arrived example_upgrade ''a'' (False, False),
     Frame_arrived ''v'' ''a'' (Text ''beat''), Frame_arrived ''v'' ''a'' (Text ''noise'')]"

lemma example_server_run:
  "map (\<lambda>c. (so_id c, so_sent c)) (hb_sockets (nv_hubs (sv_vaults (fold (server_step example_libraries) example_server_events
     (fresh_server 10))) ''v'')) = [(''a'', [Heartbeat_ack ''r'', json_refusal])]"
  by code_simp

lemma server_step_now: "sv_now (server_step l (env, e, until) s) = until"
  by (simp add: server_step_def case_prod_beta)

theorem every_connection_was_admitted_witness:
  "\<exists>c \<in> set (hb_sockets (nv_hubs (sv_vaults (fold (server_step example_libraries) example_server_events (fresh_server 10))) ''v'')).
     so_id c = ''a'' \<and> ss_vaultId (so_data c) = ''v''"
proof -
  obtain s where run: "fold (server_step example_libraries) example_server_events (fresh_server 10) = s" by blast
  have adm: "admissible server_step_ok (server_step example_libraries) example_server_events (fresh_server 10)"
    unfolding example_server_events_def list.map admissible.simps(2)
  proof (rule conjI)
    show "server_step_ok (example_env, Upgrade_arrived example_upgrade ''a'' (False, False), 10) (fresh_server 10)"
      by (simp add: server_step_ok_def fresh_server_def idle_hub_def example_env_def)
  qed (simp add: server_step_ok_def server_step_now example_env_def)
  have internal: "\<forall>e \<in> set example_server_events. internal_event (fst (snd e))" by (simp add: example_server_events_def)
  have "map (\<lambda>c. (so_id c, so_sent c)) (hb_sockets (nv_hubs (sv_vaults s) ''v'')) = [(''a'', [Heartbeat_ack ''r'', json_refusal])]"
    using example_server_run unfolding run .
  then obtain c where "c \<in> set (hb_sockets (nv_hubs (sv_vaults s) ''v''))" "so_id c = ''a''" by auto
  then show ?thesis using every_connection_was_admitted[OF adm internal run] unfolding run by blast
qed

end
