(* ===== verification/Billing.thy ===== *)
theory Billing
  imports Http_Errors Sharing_Service
begin

text \<open>
  The feature \<open>billing\<close>: the subscriptions an organization buys from Polar
  (\<open>application/services/billing-service.ts\<close>), the tables they are kept in
  (\<open>drizzle-billing-store.ts\<close>), the calls to Polar (\<open>polar-provider.ts\<close>) and its webhook
  (\<open>polar-webhook-plugin.ts\<close>), the requests and the answers. Polar's API and the refresh of the
  coordinators are parameters over an arbitrary outside world.
\<close>

section \<open>Tables\<close>

text \<open>
  The table of subscriptions has more columns than the plans need; \<open>plan_directory\<close> is the view of
  the feature \<open>subscription\<close>. \<open>bd_customers\<close> is the column \<open>polarCustomerId\<close> of the organizations,
  where it is not NULL.
\<close>

record billing_row = subscription_row +
  bs_customer :: string
  bs_polarId :: string
  bs_checkout :: "string option"
  bs_periodStart :: "millis option"
  bs_cancelAtEnd :: bool
  bs_updatedAt :: millis

record billing_db =
  bd_directory :: directory
  bd_subscriptions :: "billing_row list"
  bd_customers :: "(ident \<times> string) list"


record subscription_input =
  si_id :: ident
  si_product :: string
  si_org :: ident
  si_customer :: string
  si_polarId :: string
  si_checkout :: "string option"
  si_status :: string
  si_periodStart :: "millis option"
  si_periodEnd :: "millis option"
  si_cancelAtEnd :: bool

definition read_default_organization :: "ident \<Rightarrow> billing_db \<Rightarrow> ident option" where
  "read_default_organization userId b =
     (case sort_key mb_createdAt (filter (\<lambda>m. mb_user m = userId) (di_members (bd_directory b))) of
        [] \<Rightarrow> None | m # _ \<Rightarrow> Some (mb_org m))"

definition read_organization_role :: "ident \<Rightarrow> ident \<Rightarrow> billing_db \<Rightarrow> string option" where
  "read_organization_role userId orgId b =
     map_option mb_role (find (\<lambda>m. mb_user m = userId \<and> mb_org m = orgId) (di_members (bd_directory b)))"

definition read_subscription_statuses :: "ident \<Rightarrow> billing_db \<Rightarrow> billing_row list" where
  \<comment> \<open>the latest first\<close>
  "read_subscription_statuses orgId b =
     sql_limit 10 (rev (sort_key bs_updatedAt (filter (\<lambda>r. su_org r = orgId) (bd_subscriptions b))))"

definition read_polar_customer :: "ident \<Rightarrow> billing_db \<Rightarrow> string option" where
  "read_polar_customer orgId b = map_of (bd_customers b) orgId"

definition inserted_row :: "millis \<Rightarrow> subscription_input \<Rightarrow> billing_row" where
  "inserted_row now i =
     \<lparr>su_id = si_id i, su_product = si_product i, su_org = si_org i, su_status = si_status i, su_periodEnd = si_periodEnd i,
      bs_customer = si_customer i, bs_polarId = si_polarId i, bs_checkout = si_checkout i,
      bs_periodStart = si_periodStart i, bs_cancelAtEnd = si_cancelAtEnd i, bs_updatedAt = now\<rparr>"

definition upsert_polar_subscription :: "millis \<Rightarrow> subscription_input \<Rightarrow> billing_db \<Rightarrow> (string + unit) \<times> billing_db" where
  \<comment> \<open>the batch of the upsert and the binding of the customer: a violated constraint undoes both\<close>
  "upsert_polar_subscription now i b =
     (let fresh = row_of bs_polarId (si_polarId i) (bd_subscriptions b) = None
      in if fresh \<and> (\<exists>r \<in> set (bd_subscriptions b). su_id r = si_id i) then (Inl ''UNIQUE constraint failed: polar_subscription.id'', b)
         else if row_of or_id (si_org i) (di_orgs (bd_directory b)) = None then (Inl ''FOREIGN KEY constraint failed'', b)
         else if \<exists>(org, customer) \<in> set (bd_customers b). customer = si_customer i \<and> org \<noteq> si_org i
         then (Inl ''UNIQUE constraint failed: organization.polar_customer_id'', b)
         else (Inr (), b\<lparr>bd_subscriptions := upsert_row bs_polarId (inserted_row now i)
                 (\<lambda>r. (inserted_row now i)\<lparr>su_id := su_id r\<rparr>) (bd_subscriptions b),
              bd_customers := (si_org i, si_customer i) # filter (\<lambda>(org, _). org \<noteq> si_org i) (bd_customers b)\<rparr>))"

section \<open>Policy\<close>

datatype billing_error =
    Organization_required | Plan_not_available | Subscription_already_active | Billing_permission_required
  | Subscription_not_active | Subscription_plan_unchanged | Interval_downgrade_not_allowed
  | Billing_customer_not_found | Billing_email_unavailable | Subscription_canceled | Payment_failed
  | Subscription_locked

text \<open>
  A call of Polar's API succeeds, or fails with an error the code looks at: a missing resource, a
  validation error with the locations it names, a refused update with its status and code, or another.
\<close>

datatype polar_failure =
    Resource_not_found
  | Validation_failed "string list list"
  | Update_refused int string
  | Polar_failure string

datatype billing_failure =
    Billing_error billing_error
  | Polar_error polar_failure
  | Other_error string

definition is_checkout_plan_id :: "plan_id \<Rightarrow> bool" where
  "is_checkout_plan_id plan \<longleftrightarrow> plan = Starter \<or> plan = Plus"

definition is_billing_manager_role :: "string option \<Rightarrow> bool" where
  "is_billing_manager_role role \<longleftrightarrow> role = Some ''owner'' \<or> role = Some ''admin''"

definition is_changeable_status :: "string \<Rightarrow> bool" where
  "is_changeable_status status \<longleftrightarrow> status = ''active'' \<or> status = ''trialing''"

definition is_annual_to_monthly_downgrade :: "billing_interval option \<Rightarrow> billing_interval \<Rightarrow> bool" where
  "is_annual_to_monthly_downgrade current requested \<longleftrightarrow> current = Some Annual \<and> requested = Monthly"

fun plan_name :: "plan_id \<Rightarrow> string" where
  "plan_name Free = ''free''"
| "plan_name Starter = ''starter''"
| "plan_name Plus = ''plus''"
| "plan_name Self_hosted = ''self_hosted''"

fun interval_name :: "billing_interval \<Rightarrow> string" where
  "interval_name Monthly = ''monthly''"
| "interval_name Annual = ''annual''"

definition product_of :: "product_ids \<Rightarrow> plan_id \<Rightarrow> billing_interval \<Rightarrow> string option" where
  \<comment> \<open>\<open>productIdsByPlanId?.[planId]?.[billingInterval]\<close>\<close>
  "product_of products plan interval =
     (case map_of products plan of None \<Rightarrow> None | Some ps \<Rightarrow> (case map_of ps interval of None \<Rightarrow> None | Some p \<Rightarrow> p))"

section \<open>The status of an organization\<close>

definition subscription_record_of :: "billing_row \<Rightarrow> subscription_record" where
  "subscription_record_of r = \<lparr>sb_product = Some (su_product r), sb_status = su_status r, sb_periodEnd = su_periodEnd r\<rparr>"

definition with_access ::
  "(nat \<Rightarrow> millis) \<Rightarrow> product_ids \<Rightarrow> billing_row list \<Rightarrow> (billing_row \<times> (plan_id \<times> billing_interval) option) list" where
  \<comment> \<open>each subscription reads the clock\<close>
  "with_access clk products rows =
     map (\<lambda>(k, r). (r, subscription_access (clk k) (Some (subscription_record_of r)) products)) (enumerate 0 rows)"

record organization_status =
  bt_plan :: plan_id
  bt_interval :: "billing_interval option"
  bt_active :: bool
  bt_status :: string
  bt_cancelAtEnd :: bool
  bt_periodEnd :: "millis option"

record billing_status = organization_status +
  bt_canManage :: bool
  bt_plusIntervals :: "billing_interval list option"

definition status_of :: "product_ids \<Rightarrow> (nat \<Rightarrow> millis) \<Rightarrow> billing_row list \<Rightarrow> organization_status" where
  "status_of products clk rows =
     (let active = find (\<lambda>(_, access). access \<noteq> None) (with_access clk products rows);
          latest = (case rows of [] \<Rightarrow> None | r # _ \<Rightarrow> Some r);
          shown = (case active of Some (r, _) \<Rightarrow> Some r | None \<Rightarrow> latest)
      in \<lparr>bt_plan = (case active of Some (_, Some (plan, _)) \<Rightarrow> plan | _ \<Rightarrow> Free),
          bt_interval = (case active of Some (_, Some (_, interval)) \<Rightarrow> Some interval | _ \<Rightarrow> None),
          bt_active = (active \<noteq> None),
          bt_status = (case shown of Some r \<Rightarrow> su_status r | None \<Rightarrow> ''none''),
          bt_cancelAtEnd = (case shown of Some r \<Rightarrow> bs_cancelAtEnd r | None \<Rightarrow> False),
          bt_periodEnd = (case active of
              Some (r, _) \<Rightarrow> (case su_periodEnd r of Some t \<Rightarrow> Some t
                | None \<Rightarrow> (case latest of Some l \<Rightarrow> su_periodEnd l | None \<Rightarrow> None))
            | None \<Rightarrow> (case latest of Some l \<Rightarrow> su_periodEnd l | None \<Rightarrow> None))\<rparr>)"

definition read_organization_billing_status :: "product_ids \<Rightarrow> (nat \<Rightarrow> millis) \<Rightarrow> ident \<Rightarrow> billing_db \<Rightarrow> organization_status" where
  "read_organization_billing_status products clk orgId b = status_of products clk (read_subscription_statuses orgId b)"

section \<open>The service\<close>

record checkout_request =
  cq_plan :: plan_id
  cq_interval :: billing_interval
  cq_product :: string
  cq_org :: ident
  cq_customer :: "string option"
  cq_user :: ident
  cq_email :: string

record 'w provider =
  pv_checkout :: "checkout_request \<Rightarrow> 'w \<Rightarrow> (billing_failure + string \<times> string) \<times> 'w" \<comment> \<open>checkout id and url\<close>
  pv_update :: "ident \<Rightarrow> string \<Rightarrow> string \<Rightarrow> 'w \<Rightarrow> (billing_failure + subscription_input) \<times> 'w" \<comment> \<open>organization, subscription, product\<close>
  pv_portal :: "string \<Rightarrow> string \<Rightarrow> 'w \<Rightarrow> (billing_failure + string) \<times> 'w" \<comment> \<open>customer and return url\<close>
  pv_refresh :: "(ident \<Rightarrow> 'w \<Rightarrow> (string + unit) \<times> 'w) option" \<comment> \<open>\<open>onSubscriptionUpsert\<close>\<close>

definition billing_organization :: "ident \<Rightarrow> ident option \<Rightarrow> billing_db \<Rightarrow> billing_failure + ident" where
  "billing_organization userId selected b =
     (let org = (case selected of Some o' \<Rightarrow> Some o' | None \<Rightarrow> read_default_organization userId b)
      in if truthy org then Inr (the org) else Inl (Billing_error Organization_required))"

definition managed_organization :: "ident \<Rightarrow> ident option \<Rightarrow> billing_db \<Rightarrow> billing_failure + ident" where
  \<comment> \<open>the first checks of \<open>createCheckout\<close>, \<open>changeSubscriptionPlan\<close> and \<open>createCustomerPortalSession\<close>\<close>
  "managed_organization userId selected b =
     (case billing_organization userId selected b of
        Inl e \<Rightarrow> Inl e
      | Inr org \<Rightarrow>
          if is_billing_manager_role (read_organization_role userId org b) then Inr org
          else Inl (Billing_error Billing_permission_required))"

definition offered_product :: "product_ids \<Rightarrow> plan_id \<Rightarrow> billing_interval \<Rightarrow> billing_failure + string" where
  "offered_product products plan interval =
     (if \<not> is_checkout_plan_id plan then Inl (Billing_error Plan_not_available)
      else if truthy (product_of products plan interval) then Inr (the (product_of products plan interval))
      else Inl (Other_error (''Polar product ID is not configured for '' @ plan_name plan @ '' '' @ interval_name interval)))"


definition changeable_subscription ::
  "product_ids \<Rightarrow> (nat \<Rightarrow> millis) \<Rightarrow> ident \<Rightarrow> billing_db \<Rightarrow> (billing_row \<times> billing_interval) option" where
  "changeable_subscription products clk org b =
     (case find (\<lambda>(r, access). access \<noteq> None \<and> is_changeable_status (su_status r))
         (with_access clk products (read_subscription_statuses org b)) of
        Some (r, Some (_, interval)) \<Rightarrow> Some (r, interval)
      | _ \<Rightarrow> None)"

definition change_decision ::
  "product_ids \<Rightarrow> (nat \<Rightarrow> millis) \<Rightarrow> ident \<Rightarrow> ident option \<Rightarrow> plan_id \<Rightarrow> billing_interval \<Rightarrow> billing_db \<Rightarrow>
   billing_failure + ident \<times> string \<times> string" where
  \<comment> \<open>\<open>changeSubscriptionPlan\<close> up to the call of the provider: organization, subscription and new product\<close>
  "change_decision products clk userId selected plan interval b =
     (case managed_organization userId selected b of
        Inl e \<Rightarrow> Inl e
      | Inr org \<Rightarrow>
          (case offered_product products plan interval of
             Inl e \<Rightarrow> Inl e
           | Inr product \<Rightarrow>
               (case changeable_subscription products clk org b of
                  None \<Rightarrow> Inl (Billing_error Subscription_not_active)
                | Some (r, current) \<Rightarrow>
                    if su_product r = product then Inl (Billing_error Subscription_plan_unchanged)
                    else if is_annual_to_monthly_downgrade (Some current) interval
                    then Inl (Billing_error Interval_downgrade_not_allowed)
                    else Inr (org, bs_polarId r, product))))"

definition change_subscription_plan ::
  "'w provider \<Rightarrow> product_ids \<Rightarrow> (nat \<Rightarrow> millis) \<Rightarrow> (nat \<Rightarrow> millis) \<Rightarrow> ident \<Rightarrow> ident option \<Rightarrow> plan_id \<Rightarrow> billing_interval \<Rightarrow>
   billing_db \<Rightarrow> 'w \<Rightarrow> (billing_failure + billing_status) \<times> billing_db \<times> 'w" where
  \<comment> \<open>the clock before and, for the second reading of the status, after the call; its first reading is the time of the update\<close>
  "change_subscription_plan provider products clk later userId selected plan interval b w =
     (case change_decision products clk userId selected plan interval b of
        Inl e \<Rightarrow> (Inl e, b, w)
      | Inr (org, polarId, product) \<Rightarrow>
          (case pv_update provider org polarId product w of
             (Inl e, w1) \<Rightarrow> (Inl e, b, w1)
           | (Inr updated, w1) \<Rightarrow>
               (case upsert_polar_subscription (later 0) updated b of
                  (Inl m, b1) \<Rightarrow> (Inl (Other_error m), b1, w1)
                | (Inr _, b1) \<Rightarrow>
                    let w2 = (case pv_refresh provider of None \<Rightarrow> w1 | Some refresh \<Rightarrow> snd (refresh (si_org updated) w1))
                    in (Inr (organization_status.extend
                          (read_organization_billing_status products (\<lambda>k. later (Suc k)) org b1)
                          \<lparr>bt_canManage = True, bt_plusIntervals = None\<rparr>), b1, w2))))"

definition read_billing_status ::
  "product_ids \<Rightarrow> (nat \<Rightarrow> millis) \<Rightarrow> ident \<Rightarrow> ident option \<Rightarrow> billing_db \<Rightarrow> billing_failure + billing_status" where
  "read_billing_status products clk userId selected b =
     (case billing_organization userId selected b of
        Inl e \<Rightarrow> Inl e
      | Inr org \<Rightarrow>
          (let role = read_organization_role userId org b
           in if \<not> truthy role then Inl (Billing_error Billing_permission_required)
              else Inr (organization_status.extend (read_organization_billing_status products clk org b)
                \<lparr>bt_canManage = is_billing_manager_role role,
                 bt_plusIntervals = (case map_of products Plus of None \<Rightarrow> None
                   | Some _ \<Rightarrow> Some (filter (\<lambda>i. truthy (product_of products Plus i)) [Monthly, Annual]))\<rparr>)))"

definition create_customer_portal_session ::
  "'w provider \<Rightarrow> (string \<Rightarrow> string) \<Rightarrow> ident \<Rightarrow> string \<Rightarrow> ident option \<Rightarrow> billing_db \<Rightarrow> 'w \<Rightarrow> (billing_failure + string) \<times> 'w" where
  \<comment> \<open>the second argument resolves a path against the address of the site\<close>
  "create_customer_portal_session provider resolve userId returnPath selected b w =
     (case managed_organization userId selected b of
        Inl e \<Rightarrow> (Inl e, w)
      | Inr org \<Rightarrow>
          (let customer = read_polar_customer org b
           in if truthy customer then pv_portal provider (the customer) (resolve returnPath) w
              else (Inl (Billing_error Billing_customer_not_found), w)))"

section \<open>Polar\<close>

text \<open>Dates are instants.\<close>

record polar_subscription =
  ps_id :: string
  ps_product :: string
  ps_customer :: string
  ps_checkout :: "string option"
  ps_status :: string
  ps_periodStart :: millis
  ps_periodEnd :: millis
  ps_cancelAtEnd :: bool
  ps_metadata :: "(string \<times> json) list"

record checkout_body =
  cb_products :: "string list"
  cb_customer :: string
  cb_successUrl :: string
  cb_metadata :: "(string \<times> string) list"

record 'w polar_api =
  pa_getExternal :: "ident \<Rightarrow> 'w \<Rightarrow> (polar_failure + string) \<times> 'w"
  pa_createCustomer :: "ident \<Rightarrow> string \<Rightarrow> 'w \<Rightarrow> (polar_failure + string) \<times> 'w"
  pa_createCheckout :: "checkout_body \<Rightarrow> 'w \<Rightarrow> (polar_failure + string \<times> string) \<times> 'w"
  pa_updateSubscription :: "string \<Rightarrow> string \<Rightarrow> 'w \<Rightarrow> (polar_failure + polar_subscription) \<times> 'w"
  pa_createSession :: "string \<Rightarrow> string \<Rightarrow> 'w \<Rightarrow> (polar_failure + string) \<times> 'w"

definition find_organization_customer ::
  "'w polar_api \<Rightarrow> ident \<Rightarrow> 'w \<Rightarrow> (billing_failure + string option) \<times> 'w" where
  "find_organization_customer api org w =
     (case pa_getExternal api org w of
        (Inr i, w1) \<Rightarrow> (Inr (Some i), w1)
      | (Inl Resource_not_found, w1) \<Rightarrow> (Inr None, w1)
      | (Inl e, w1) \<Rightarrow> (Inl (Polar_error e), w1))"

definition create_organization_customer ::
  "'w polar_api \<Rightarrow> ident \<Rightarrow> string \<Rightarrow> 'w \<Rightarrow> (billing_failure + string) \<times> 'w" where
  \<comment> \<open>the second half of \<open>checkoutCustomerId\<close>\<close>
  "create_organization_customer api org email w =
     (case pa_createCustomer api org email w of
        (Inr i, w1) \<Rightarrow> (Inr i, w1)
      | (Inl (Validation_failed locations), w1) \<Rightarrow>
          (case find_organization_customer api org w1 of
             (Inl e, w2) \<Rightarrow> (Inl e, w2)
           | (Inr concurrent, w2) \<Rightarrow>
               (if truthy concurrent then Inr (the concurrent)
                else if [''body'', ''email''] \<in> set locations then Inl (Billing_error Billing_email_unavailable)
                else Inl (Polar_error (Validation_failed locations)), w2))
      | (Inl e, w1) \<Rightarrow> (Inl (Polar_error e), w1))"

definition checkout_customer_id :: "'w polar_api \<Rightarrow> checkout_request \<Rightarrow> 'w \<Rightarrow> (billing_failure + string) \<times> 'w" where
  "checkout_customer_id api i w =
     (if truthy (cq_customer i) then (Inr (the (cq_customer i)), w)
      else case find_organization_customer api (cq_org i) w of
        (Inl e, w1) \<Rightarrow> (Inl e, w1)
      | (Inr existing, w1) \<Rightarrow>
          if truthy existing then (Inr (the existing), w1)
          else create_organization_customer api (cq_org i) (cq_email i) w1)"

definition success_url :: "string \<Rightarrow> ident \<Rightarrow> string" where
  "success_url origin org =
     origin @ ''/billing/success?checkout_id={CHECKOUT_ID}&organizationId='' @ percent_encode (CHR 0x27 # ''-_.!~*()'') org"

definition polar_create_checkout ::
  "'w polar_api \<Rightarrow> string option \<Rightarrow> string \<Rightarrow> checkout_request \<Rightarrow> 'w \<Rightarrow> (billing_failure + string \<times> string) \<times> 'w" where
  \<comment> \<open>with the access token and the origin of \<open>wwwBaseUrl\<close>\<close>
  "polar_create_checkout api accessToken origin i w =
     (if \<not> truthy accessToken then (Inl (Other_error ''POLAR_ACCESS_TOKEN is not configured''), w)
      else case checkout_customer_id api i w of
        (Inl e, w1) \<Rightarrow> (Inl e, w1)
      | (Inr customer, w1) \<Rightarrow>
          (case pa_createCheckout api
             \<lparr>cb_products = [cq_product i], cb_customer = customer, cb_successUrl = success_url origin (cq_org i),
              cb_metadata = [(''referenceId'', cq_org i), (''organizationId'', cq_org i), (''userId'', cq_user i),
                (''planId'', plan_name (cq_plan i)), (''billingInterval'', interval_name (cq_interval i))]\<rparr> w1 of
             (Inl e, w2) \<Rightarrow> (Inl (Polar_error e), w2)
           | (Inr checkout, w2) \<Rightarrow> (Inr checkout, w2)))"

definition to_polar_subscription_upsert_input :: "polar_subscription \<Rightarrow> ident \<Rightarrow> subscription_input" where
  "to_polar_subscription_upsert_input s org =
     \<lparr>si_id = ''polar-sub-'' @ ps_id s, si_product = ps_product s, si_org = org, si_customer = ps_customer s,
      si_polarId = ps_id s, si_checkout = ps_checkout s, si_status = ps_status s,
      si_periodStart = Some (ps_periodStart s), si_periodEnd = Some (ps_periodEnd s), si_cancelAtEnd = ps_cancelAtEnd s\<rparr>"

definition update_failure :: "polar_failure \<Rightarrow> billing_failure" where
  "update_failure e =
     (if e = Update_refused 403 ''AlreadyCanceledSubscription'' then Billing_error Subscription_canceled
      else if e = Update_refused 402 ''PaymentFailed'' then Billing_error Payment_failed
      else if e = Update_refused 409 ''SubscriptionLocked'' then Billing_error Subscription_locked
      else Polar_error e)"

definition polar_update_subscription_product ::
  "'w polar_api \<Rightarrow> string option \<Rightarrow> ident \<Rightarrow> string \<Rightarrow> string \<Rightarrow> 'w \<Rightarrow> (billing_failure + subscription_input) \<times> 'w" where
  "polar_update_subscription_product api accessToken org polarId product w =
     (if \<not> truthy accessToken then (Inl (Other_error ''POLAR_ACCESS_TOKEN is not configured''), w)
      else case pa_updateSubscription api polarId product w of
        (Inl e, w1) \<Rightarrow> (Inl (update_failure e), w1)
      | (Inr s, w1) \<Rightarrow> (Inr (to_polar_subscription_upsert_input s org), w1))"

definition polar_customer_portal_session ::
  "'w polar_api \<Rightarrow> string option \<Rightarrow> string \<Rightarrow> string \<Rightarrow> 'w \<Rightarrow> (billing_failure + string) \<times> 'w" where
  "polar_customer_portal_session api accessToken customer returnUrl w =
     (if \<not> truthy accessToken then (Inl (Other_error ''POLAR_ACCESS_TOKEN is not configured''), w)
      else case pa_createSession api customer returnUrl w of
        (Inl e, w1) \<Rightarrow> (Inl (Polar_error e), w1) | (Inr url, w1) \<Rightarrow> (Inr url, w1))"

definition polar_provider ::
  "'w polar_api \<Rightarrow> string option \<Rightarrow> string \<Rightarrow> (ident \<Rightarrow> 'w \<Rightarrow> (string + unit) \<times> 'w) option \<Rightarrow> 'w provider" where
  "polar_provider api accessToken origin refresh =
     \<lparr>pv_checkout = polar_create_checkout api accessToken origin,
      pv_update = polar_update_subscription_product api accessToken,
      pv_portal = polar_customer_portal_session api accessToken, pv_refresh = refresh\<rparr>"

section \<open>The webhook\<close>

definition organization_id_from_polar_subscription :: "polar_subscription \<Rightarrow> ident option" where
  "organization_id_from_polar_subscription s =
     find (\<lambda>v. js_trim v \<noteq> []) (List.map_filter (\<lambda>key. as_string (map_of (ps_metadata s) key)) [''referenceId'', ''organizationId''])"

definition handle_subscription ::
  "'w provider \<Rightarrow> millis \<Rightarrow> polar_subscription \<Rightarrow> billing_db \<Rightarrow> 'w \<Rightarrow> (string + unit) \<times> billing_db \<times> 'w" where
  "handle_subscription provider now s b w =
     (case organization_id_from_polar_subscription s of
        None \<Rightarrow> (Inr (), b, w)
      | Some org \<Rightarrow>
          (case upsert_polar_subscription now (to_polar_subscription_upsert_input s org) b of
             (Inl m, b1) \<Rightarrow> (Inl m, b1, w)
           | (Inr _, b1) \<Rightarrow>
               (case pv_refresh provider of
                  None \<Rightarrow> (Inr (), b1, w)
                | Some refresh \<Rightarrow> (let (r, w1) = refresh org w in (r, b1, w1)))))"

section \<open>Requests and answers\<close>

definition bad_billing_request :: "string \<Rightarrow> thrown" where
  "bad_billing_request what = api_error 400 ''bad_request'' (''invalid '' @ what)"

text \<open>The body of a request, if it has a content type: what it parses to, if it is JSON and passes the schema.\<close>

definition read_portal_request :: "(string option \<times> ident option) option option \<Rightarrow> thrown + string \<times> ident option" where
  "read_portal_request parsed =
     (case parsed of
        None \<Rightarrow> Inr (''/billing'', None)
      | Some None \<Rightarrow> Inl (bad_billing_request ''billing portal request'')
      | Some (Some (path, org)) \<Rightarrow>
          (let returnPath = (case path of None \<Rightarrow> ''/billing'' | Some p \<Rightarrow> p)
           in if \<not> starts_with ''/'' returnPath \<or> starts_with ''//'' returnPath
              then Inl (bad_billing_request ''billing portal return path'') else Inr (returnPath, org)))"

definition read_checkout_request ::
  "(plan_id option \<times> ident option \<times> billing_interval option) option option \<Rightarrow> thrown + plan_id \<times> ident option \<times> billing_interval" where
  "read_checkout_request parsed =
     (case parsed of
        None \<Rightarrow> Inr (Starter, None, Monthly)
      | Some None \<Rightarrow> Inl (bad_billing_request ''checkout request'')
      | Some (Some (plan, org, interval)) \<Rightarrow>
          Inr (case plan of None \<Rightarrow> Starter | Some p \<Rightarrow> p, org, case interval of None \<Rightarrow> Monthly | Some i \<Rightarrow> i))"

definition billing_error_status :: "billing_error \<Rightarrow> int" where
  "billing_error_status e = (case e of
     Payment_failed \<Rightarrow> 402 | Billing_permission_required \<Rightarrow> 403 | Billing_customer_not_found \<Rightarrow> 404
   | Organization_required \<Rightarrow> 400 | Plan_not_available \<Rightarrow> 400 | _ \<Rightarrow> 409)"

fun billing_error_code :: "billing_error \<Rightarrow> string" where
  "billing_error_code Organization_required = ''organization_required''"
| "billing_error_code Plan_not_available = ''plan_not_available''"
| "billing_error_code Subscription_already_active = ''subscription_already_active''"
| "billing_error_code Billing_permission_required = ''billing_permission_required''"
| "billing_error_code Subscription_not_active = ''subscription_not_active''"
| "billing_error_code Subscription_plan_unchanged = ''subscription_plan_unchanged''"
| "billing_error_code Interval_downgrade_not_allowed = ''billing_interval_downgrade_not_allowed''"
| "billing_error_code Billing_customer_not_found = ''billing_customer_not_found''"
| "billing_error_code Billing_email_unavailable = ''billing_email_unavailable''"
| "billing_error_code Subscription_canceled = ''subscription_canceled''"
| "billing_error_code Payment_failed = ''payment_failed''"
| "billing_error_code Subscription_locked = ''subscription_locked''"

fun billing_error_message :: "billing_error \<Rightarrow> string" where
  "billing_error_message Organization_required = ''user has no organization''"
| "billing_error_message Plan_not_available = ''plan is not available for checkout''"
| "billing_error_message Subscription_already_active = ''paid subscription is already active''"
| "billing_error_message Billing_permission_required = ''organization billing permission is required''"
| "billing_error_message Subscription_not_active = ''no active subscription to change''"
| "billing_error_message Subscription_plan_unchanged = ''subscription already uses the requested plan''"
| "billing_error_message Interval_downgrade_not_allowed = ''switching from annual to monthly billing is not available''"
| "billing_error_message Billing_customer_not_found = ''billing customer was not found''"
| "billing_error_message Billing_email_unavailable = ''This email cannot be used for this organization'' @ [CHR 0x27] @
     ''s billing. Ask an organization owner or admin with a different email to start checkout.''"
| "billing_error_message Subscription_canceled = ''subscription is already canceled''"
| "billing_error_message Payment_failed = ''payment for the plan change failed''"
| "billing_error_message Subscription_locked = ''subscription is already being updated''"

definition map_billing_application_error :: "billing_error \<Rightarrow> response" where
  "map_billing_application_error e =
     json_response (billing_error_status e) (code_body (billing_error_code e) (billing_error_message e))"

section \<open>The return address of the portal\<close>

text \<open>
  What \<open>new URL(path, base).host\<close> is for a path that begins with a slash and a base whose scheme is
  special, as the URL Standard has it: tabs and line ends are removed, a backslash counts as a slash,
  and after two of them comes a host. User information and port are part of the text here.
\<close>

definition url_ignored :: "char \<Rightarrow> bool" where
  "url_ignored c \<longleftrightarrow> of_char c \<in> {9, 10, 13 :: nat}"

definition url_slash :: "char \<Rightarrow> bool" where
  "url_slash c \<longleftrightarrow> c = CHR ''/'' \<or> c = CHR 0x5C"

definition url_host :: "string \<Rightarrow> string \<Rightarrow> string" where
  "url_host host path =
     (let p = filter (\<lambda>c. \<not> url_ignored c) path
      in if length p \<ge> 2 \<and> url_slash (p ! 0) \<and> url_slash (p ! 1)
         then takeWhile (\<lambda>c. \<not> url_slash c \<and> c \<noteq> CHR ''?'' \<and> c \<noteq> CHR ''#'') (dropWhile url_slash p)
         else host)"



section \<open>Status and plan\<close>




lemma find_hit: "find P xs = Some x \<Longrightarrow> x \<in> set xs \<and> P x"
  by (auto simp: find_Some_iff)


definition organization_rows :: "ident \<Rightarrow> billing_db \<Rightarrow> billing_row list" where
  "organization_rows org b = filter (\<lambda>r. su_org r = org) (bd_subscriptions b)"


lemma truncated [simp]: "su_org (subscription_row.truncate r) = su_org r" "su_product (subscription_row.truncate r) = su_product r"
  "su_status (subscription_row.truncate r) = su_status r" "su_periodEnd (subscription_row.truncate r) = su_periodEnd r"
  by (simp_all add: subscription_row.truncate_def)










section \<open>The store\<close>

definition billing_ok :: "billing_db \<Rightarrow> bool" where
  "billing_ok b \<longleftrightarrow> keyed bs_polarId (bd_subscriptions b) \<and>
     (\<forall>r \<in> set (bd_subscriptions b). su_id r = ''polar-sub-'' @ bs_polarId r) \<and>
     distinct (map fst (bd_customers b)) \<and> distinct (map snd (bd_customers b))"

lemma distinct_rebind:
  assumes "distinct (map fst cs)" "distinct (map snd cs)" "\<not> (\<exists>(o', c') \<in> set cs. c' = c \<and> o' \<noteq> org)"
  shows "distinct (map fst ((org, c) # filter (\<lambda>(o', _). o' \<noteq> org) cs))" "distinct (map snd ((org, c) # filter (\<lambda>(o', _). o' \<noteq> org) cs))"
  using assms by (auto simp: distinct_map inj_on_def)

text \<open>
  Subscriptions are written as Polar reports them, or not at all: a violated constraint, because the
  organization is unknown or the customer is bound to another one, changes nothing.
\<close>

lemma subscription_upsert_effect:
  assumes ok: "billing_ok b" and run: "upsert_polar_subscription now (to_polar_subscription_upsert_input s org) b = (res, b')"
  shows "billing_ok b' \<and> bd_directory b' = bd_directory b \<and>
    (isl res \<longleftrightarrow> row_of or_id org (di_orgs (bd_directory b)) = None \<or> (\<exists>(o', c) \<in> set (bd_customers b). c = ps_customer s \<and> o' \<noteq> org)) \<and>
    (if isl res then b' = b
     else (\<forall>k. row_of bs_polarId k (bd_subscriptions b') =
        (if k = ps_id s then Some (inserted_row now (to_polar_subscription_upsert_input s org)) else row_of bs_polarId k (bd_subscriptions b))) \<and>
       (\<forall>o'. read_polar_customer o' b' = (if o' = org then Some (ps_customer s) else read_polar_customer o' b)))"
proof -
  let ?i = "to_polar_subscription_upsert_input s org" and ?rows = "bd_subscriptions b"
  let ?new = "inserted_row now ?i" and ?f = "\<lambda>r. (inserted_row now ?i)\<lparr>su_id := su_id r\<rparr>"
  have i: "si_id ?i = ''polar-sub-'' @ ps_id s" "si_polarId ?i = ps_id s" "si_org ?i = org" "si_customer ?i = ps_customer s"
    by (simp_all add: to_polar_subscription_upsert_input_def)
  have new: "bs_polarId ?new = ps_id s" "su_id ?new = ''polar-sub-'' @ ps_id s" by (simp_all add: inserted_row_def i)
  have fresh: "\<not> (row_of bs_polarId (ps_id s) ?rows = None \<and> (\<exists>r \<in> set ?rows. su_id r = ''polar-sub-'' @ ps_id s))"
    using ok by (auto simp: billing_ok_def row_of_None)
  have id: "su_id r = ''polar-sub-'' @ ps_id s" if "row_of bs_polarId (ps_id s) ?rows = Some r" for r
    using ok that by (auto simp: billing_ok_def dest: row_of_SomeD)
  have upsert: "row_of bs_polarId k (upsert_row bs_polarId ?new ?f ?rows) = (if k = ps_id s then Some ?new else row_of bs_polarId k ?rows)" for k
    using id new by (auto simp: row_of_upsert_row split: option.split)
  have run': "(res, b') = (if row_of or_id org (di_orgs (bd_directory b)) = None then (Inl ''FOREIGN KEY constraint failed'', b)
      else if \<exists>(o', c) \<in> set (bd_customers b). c = ps_customer s \<and> o' \<noteq> org
      then (Inl ''UNIQUE constraint failed: organization.polar_customer_id'', b)
      else (Inr (), b\<lparr>bd_subscriptions := upsert_row bs_polarId ?new ?f ?rows,
          bd_customers := (org, ps_customer s) # filter (\<lambda>(o', _). o' \<noteq> org) (bd_customers b)\<rparr>))"
    using run unfolding upsert_polar_subscription_def Let_def i if_not_P[OF fresh] by (rule sym)
  let ?bad = "row_of or_id org (di_orgs (bd_directory b)) = None \<or> (\<exists>(o', c) \<in> set (bd_customers b). c = ps_customer s \<and> o' \<noteq> org)"
  show ?thesis
  proof (cases ?bad)
    case True
    then have "isl res \<and> b' = b" using run' by (simp split: if_split_asm)
    then show ?thesis using True ok by simp
  next
    case False
    let ?b = "b\<lparr>bd_subscriptions := upsert_row bs_polarId ?new ?f ?rows,
        bd_customers := (org, ps_customer s) # filter (\<lambda>(o', _). o' \<noteq> org) (bd_customers b)\<rparr>"
    note n = conjunct1[OF False[unfolded de_Morgan_disj]] conjunct2[OF False[unfolded de_Morgan_disj]]
    have b': "res = Inr ()" "b' = ?b" using run'[unfolded if_not_P[OF n(1)] if_not_P[OF n(2)]] by simp_all
    have "keyed bs_polarId (upsert_row bs_polarId ?new ?f ?rows)" using ok new by (intro keyed_upsert_row) (auto simp: billing_ok_def)
    moreover have "\<forall>r \<in> set (upsert_row bs_polarId ?new ?f ?rows). su_id r = ''polar-sub-'' @ bs_polarId r"
      using ok new by (auto simp: upsert_row_def update_rows_def billing_ok_def split: if_split_asm)
    ultimately have "billing_ok ?b"
      using ok False distinct_rebind[of "bd_customers b" "ps_customer s" org] by (simp add: billing_ok_def)
    moreover have "map_of (filter (\<lambda>(o', _). o' \<noteq> org) cs) o' = map_of cs o'" if "o' \<noteq> org" for o' and cs :: "(ident \<times> string) list"
      using that by (induction cs) auto
    ultimately show ?thesis using b' False upsert by (simp add: read_polar_customer_def)
  qed
qed

definition changeable :: "billing_row \<times> (plan_id \<times> billing_interval) option \<Rightarrow> bool" where
  "changeable = (\<lambda>(r, access). access \<noteq> None \<and> is_changeable_status (su_status r))"

lemma with_access_member: "(r, a) \<in> set (with_access clk products rows) \<Longrightarrow> r \<in> set rows"
  by (auto simp: with_access_def in_set_enumerate_eq)

lemma changeable_granted:
  assumes "changeable_subscription products clk org b = Some (r, interval)"
  shows "r \<in> set (organization_rows org b) \<and> is_changeable_status (su_status r)"
proof -
  have "\<exists>plan. find changeable (with_access clk products (read_subscription_statuses org b)) = Some (r, Some (plan, interval))"
    using assms unfolding changeable_subscription_def changeable_def[symmetric] by (auto split: option.splits)
  then obtain plan where f: "find changeable (with_access clk products (read_subscription_statuses org b)) = Some (r, Some (plan, interval))" ..
  have "r \<in> set (read_subscription_statuses org b)" "is_changeable_status (su_status r)"
    using find_hit[OF f] with_access_member by (auto simp: changeable_def)
  then show ?thesis by (auto simp: read_subscription_statuses_def organization_rows_def dest!: set_sql_limit)
qed

lemma managed_is_manager:
  "managed_organization u selected b = Inr org \<Longrightarrow>
    \<exists>m \<in> set (di_members (bd_directory b)). mb_user m = u \<and> mb_org m = org \<and> mb_role m \<in> {''owner'', ''admin''}"
  by (auto simp: managed_organization_def is_billing_manager_role_def read_organization_role_def
      split: sum.splits if_split_asm dest!: find_hit)

lemma change_decision_Inr:
  assumes "change_decision products clk u selected plan interval b = Inr (org, polarId, product)"
  shows "(\<exists>m \<in> set (di_members (bd_directory b)). mb_user m = u \<and> mb_org m = org \<and> mb_role m \<in> {''owner'', ''admin''}) \<and>
    plan \<in> {Starter, Plus} \<and> product_of products plan interval = Some product \<and>
    (\<exists>r \<in> set (organization_rows org b). bs_polarId r = polarId \<and> su_status r \<in> {''active'', ''trialing''} \<and> su_product r \<noteq> product)"
proof -
  obtain r current where m: "managed_organization u selected b = Inr org" and o': "offered_product products plan interval = Inr product"
    and r: "changeable_subscription products clk org b = Some (r, current)" "bs_polarId r = polarId" "su_product r \<noteq> product"
    using assms by (auto simp: change_decision_def split: sum.splits option.splits if_split_asm)
  have "plan \<in> {Starter, Plus} \<and> product_of products plan interval = Some product"
    using o' by (auto simp: offered_product_def is_checkout_plan_id_def split: if_split_asm dest!: truthyE)
  then show ?thesis using managed_is_manager[OF m] changeable_granted[OF r(1)] r by (auto simp: is_changeable_status_def)
qed

section \<open>Properties\<close>



lemma portal_return_leaves_site:
  "read_portal_request (Some (Some (Some (CHR ''/'' # CHR 0x5C # ''evil.example/x''), None))) =
     Inr (CHR ''/'' # CHR 0x5C # ''evil.example/x'', None) \<and>
   url_host ''synch.example'' (CHR ''/'' # CHR 0x5C # ''evil.example/x'') = ''evil.example''"
  by code_simp

text \<open>
  C25. A plan is changed only by those who may, and is kept as Polar reports it. Unless an owner or
  administrator asks, for a plan on sale with a configured product, and the organization has an active or
  trial subscription for another product that is not annual when a monthly one is asked for, nothing
  happens and Polar is not asked. Otherwise Polar is asked for exactly this change of this subscription;
  if it refuses, or its answer cannot be stored, no row changes, and if the change succeeds the row of the
  subscription is exactly what Polar reported and every other row is as before.
\<close>

theorem plan_change_effect:
  assumes ok: "billing_ok b"
    and run: "change_subscription_plan (polar_provider api token origin refresh) products clk later u selected plan interval b w = (res, b', w')"
  shows "billing_ok b' \<and>
    (case change_decision products clk u selected plan interval b of
       Inl e \<Rightarrow> res = Inl e \<and> b' = b \<and> w' = w
     | Inr (org, polarId, product) \<Rightarrow>
        (\<exists>m \<in> set (di_members (bd_directory b)). mb_user m = u \<and> mb_org m = org \<and> mb_role m \<in> {''owner'', ''admin''}) \<and>
        plan \<in> {Starter, Plus} \<and> product_of products plan interval = Some product \<and>
        (\<exists>r \<in> set (organization_rows org b). bs_polarId r = polarId \<and> su_status r \<in> {''active'', ''trialing''} \<and> su_product r \<noteq> product) \<and>
        (if isl res then b' = b
         else \<exists>s w1. pa_updateSubscription api polarId product w = (Inr s, w1) \<and>
           (\<forall>k. row_of bs_polarId k (bd_subscriptions b') =
             (if k = ps_id s then Some (inserted_row (later 0) (to_polar_subscription_upsert_input s org))
              else row_of bs_polarId k (bd_subscriptions b)))))"
proof (cases "change_decision products clk u selected plan interval b")
  case (Inl e)
  then show ?thesis using run ok by (simp add: change_subscription_plan_def)
next
  case (Inr x)
  obtain org polarId product where x: "x = (org, polarId, product)" by (metis prod_cases3)
  obtain q w1 where up: "polar_update_subscription_product api token org polarId product w = (q, w1)" by fastforce
  have pv: "pv_update (polar_provider api token origin refresh) = polar_update_subscription_product api token"
    by (simp add: polar_provider_def)
  note guarded = change_decision_Inr[OF Inr[unfolded x]]
  show ?thesis
  proof (cases q)
    case (Inl e)
    then have "isl res \<and> b' = b" using run Inr x up pv by (auto simp: change_subscription_plan_def)
    then show ?thesis using guarded ok Inr x by simp
  next
    case q: (Inr i)
    then obtain s where s: "pa_updateSubscription api polarId product w = (Inr s, w1)" "i = to_polar_subscription_upsert_input s org"
      using up by (auto simp: polar_update_subscription_product_def split: if_split_asm prod.splits sum.splits)
    obtain r b1 where st: "upsert_polar_subscription (later 0) i b = (r, b1)" by fastforce
    have out: "isl res = isl r \<and> b' = b1" using run Inr x up pv q st by (cases r) (auto simp: change_subscription_plan_def Let_def)
    note effect = subscription_upsert_effect[OF ok st[unfolded s(2)]]
    show ?thesis
    proof (cases "isl r")
      case True
      then show ?thesis using effect out guarded ok Inr x by simp
    next
      case False
      then show ?thesis using effect out guarded ok Inr x s(1) by simp
    qed
  qed
qed

section \<open>Instances\<close>

definition example_products :: product_ids where
  "example_products = [(Plus, [(Monthly, Some ''p1''), (Annual, Some ''p3'')]), (Starter, [(Monthly, Some ''p2''), (Annual, None)])]"

definition example_subscription :: polar_subscription where
  "example_subscription = \<lparr>ps_id = ''s1'', ps_product = ''p1'', ps_customer = ''c'', ps_checkout = None, ps_status = ''active'',
     ps_periodStart = 0, ps_periodEnd = 50, ps_cancelAtEnd = False, ps_metadata = [(''referenceId'', JString ''o'')]\<rparr>"

definition example_billing_db :: billing_db where
  "example_billing_db = \<lparr>bd_directory = empty_directory
       \<lparr>di_orgs := [\<lparr>or_id = ''o'', or_name = ''Org'', or_vaultsOverride = None\<rparr>],
        di_members := [\<lparr>mb_id = ''m'', mb_org = ''o'', mb_user = ''u'', mb_role = ''owner'', mb_createdAt = 0\<rparr>]\<rparr>,
     bd_subscriptions = [inserted_row 0 (to_polar_subscription_upsert_input example_subscription ''o'')],
     bd_customers = [(''o'', ''c'')]\<rparr>"

definition example_api :: "nat polar_api" where
  "example_api = \<lparr>pa_getExternal = \<lambda>_ w. (Inl Resource_not_found, Suc w), pa_createCustomer = \<lambda>_ _ w. (Inr ''c'', Suc w),
     pa_createCheckout = \<lambda>_ w. (Inr (''k'', ''url''), Suc w),
     pa_updateSubscription = \<lambda>_ p w. (Inr (example_subscription\<lparr>ps_product := p\<rparr>), Suc w),
     pa_createSession = \<lambda>_ _ w. (Inr ''url'', Suc w)\<rparr>"

lemma example_billing_ok: "billing_ok example_billing_db"
  by (simp add: billing_ok_def example_billing_db_def keyed_def inserted_row_def to_polar_subscription_upsert_input_def)

definition example_change :: "(billing_failure + billing_status) \<times> billing_db \<times> nat" where
  "example_change = change_subscription_plan (polar_provider example_api (Some ''t'') ''https://synch.example'' None) example_products
     (\<lambda>_. 10) (\<lambda>_. 11) ''u'' None Plus Annual example_billing_db 0"

theorem plan_change_effect_witness:
  "map_option su_product (row_of bs_polarId ''s1'' (bd_subscriptions (fst (snd example_change)))) = Some ''p3''"
proof -
  have run: "change_subscription_plan (polar_provider example_api (Some ''t'') ''https://synch.example'' None) example_products
     (\<lambda>_. 10) (\<lambda>_. 11) ''u'' None Plus Annual example_billing_db 0 =
     (fst example_change, fst (snd example_change), snd (snd example_change))"
    by (simp add: example_change_def)
  have decision: "change_decision example_products (\<lambda>_. 10) ''u'' None Plus Annual example_billing_db = Inr (''o'', ''s1'', ''p3'')"
    and ok: "\<not> isl (fst example_change)" by code_simp+
  show ?thesis
    using plan_change_effect[OF example_billing_ok run] ok unfolding decision
    by (auto simp: example_api_def example_subscription_def inserted_row_def to_polar_subscription_upsert_input_def)
qed



end
