(* ===== verification/Spec2Isabelle.thy ===== *)
theory Spec2Isabelle
  imports Hub_Messages Durable_Gateway Node_Scheduler Vault_Lock Seat_Limit Sharing_Rules Retention Vault_Rules Coordinator_Entry Billing
begin

text \<open>
  Synch is the server of an encrypted synchronisation service for note vaults. Clients hold the keys; the
  server keeps, for each vault, the encrypted metadata of its entries, their history and the encrypted
  files. This library models the code under \<open>src/src\<close> that decides what happens to that data and who
  may reach it, and proves what it promises.

  \<^bold>\<open>The program.\<close> A vault has one coordinator (\<open>sync-coordinator\<close>): a Durable Object, or a SQLite file with a
  lock per vault on Node. It keeps the vault's tables, commits mutations with optimistic concurrency, serves
  listings and history, collects ciphertext nobody refers to, keeps health figures, and talks to the open
  sockets of the devices. Devices carry short-lived sync tokens (\<open>sync-access\<close>). Files are uploaded beside
  the coordinator (\<open>sync-blob-transfer\<close>) into an object storage after the coordinator has staged them. A
  shared database (\<open>db/d1\<close>) knows users, organizations, vaults and who is enrolled in them with which keys;
  \<open>vault\<close>, \<open>sharing\<close>, \<open>subscription\<close> and \<open>billing\<close> are services on it. Changes of access in the database
  reach a coordinator through a durable queue of refreshes.

  \<^bold>\<open>Modelling.\<close> Tables are lists of rows (records) in insertion order; a unique index is \<open>keyed\<close>
  (\<open>Prelude\<close>). A service operation is a function from its environment (clock readings, random ids, answers
  of the platform) and its state to a result and a new state; a thrown error is the left side of a sum, and a
  transaction that throws restores the database. Strings are lists of characters below 256, numbers of the code that stay
  below \<open>2 ^ 53\<close> are integers. Parts that are not under \<open>src/\<close> (the JWT library, queues, the payment provider,
  object storages other than the disk, transports) are parameters; what is relied on of them is a named
  hypothesis, such as \<open>jose_documented\<close> or \<open>bucket_deletes\<close>.

  \<^bold>\<open>Theories.\<close>
  \<^item> \<open>Prelude\<close>, \<open>Paging\<close>, \<open>Json\<close>: primitives, keyed tables, runs of admissible steps (locale
    \<open>step_system\<close>), paging with cursors (locale for listings), values of unknown shape.
  \<^item> \<open>Storage_Model\<close>, \<open>State_Store\<close>, \<open>Blob_Store\<close>, \<open>Entry_Store\<close>: rows, errors, unit of work and the SQLite
    adapters of the coordinator (\<open>adapters/outbound/sqlite\<close>).
  \<^item> \<open>Entry_Policy\<close>, \<open>Blob_Policy\<close>, \<open>Health_Policy\<close>: the pure decisions of \<open>sync-coordinator/domain\<close>.
  \<^item> \<open>Coordinator_State\<close>, \<open>Blob_Records\<close>, \<open>Scheduler\<close>, \<open>Health_Service\<close>, \<open>Blob_Gc\<close>, \<open>Maintenance_Service\<close>,
    \<open>Mutation_Service\<close>, \<open>Entry_Service\<close>, \<open>Blob_Service\<close>, \<open>Vault_Service\<close>, \<open>Sync_Access\<close>: the services of
    \<open>sync-coordinator/application/services\<close>, each with the lemma that it keeps the vault's invariant
    (\<open>vault_ok\<close>, \<open>vault_inv\<close>): accounting, cursors, references to stored ciphertext, an armed alarm.
    \<open>Coordinator_Api\<close> composes them into a system of calls, alarms and failures.
  \<^item> \<open>Node_Scheduler\<close>, \<open>Vault_Lock\<close>: what replaces the Durable Object on Node, a timer and a chain of promises.
  \<^item> \<open>Protocol_Types\<close>, \<open>Control_Messages\<close>, \<open>Socket_Gateway\<close>, \<open>Presence_Store\<close>, \<open>Control_Handler\<close>,
    \<open>Socket_Connection\<close>: the control channel; \<open>Hub\<close> runs connections, messages, disconnects and services together,
    \<open>Hub_Messages\<close> says who receives what.
  \<^item> \<open>Sync_Token\<close>: issuing, verifying and transporting tokens.
  \<^item> \<open>Directory\<close>, \<open>Sharing_Store\<close>, \<open>Vault_Store\<close>: the shared database and the statements of its Drizzle adapters.
    \<open>Directory_Steps\<close> lets them run in any order (each statement and each batch is atomic, nothing more), and
    \<open>Seat_Limit\<close> adds the clock.
  \<^item> \<open>Subscription_Policy\<close>, \<open>Sharing_Access\<close>, \<open>Sharing_Service\<close>, \<open>Sharing_Rules\<close>, \<open>Vault_Api\<close>, \<open>Retention\<close>,
    \<open>Vault_Rules\<close>: plans, the checks of a sync token, the requests of the sharing service and of the vault service,
    the purge queue and the retention job.
  \<^item> \<open>Blob_Storage\<close>, \<open>Object_Storage\<close>: the limit on a body, the disk, batch deletion of R2 and S3.
  \<^item> \<open>Durable_Gateway\<close>: the sockets of a Durable Object, with sessions in attachments; it implements the gateway
    of Node through hibernation.
  \<^item> \<open>Http_Errors\<close>, \<open>Blob_Transfer\<close>: errors as responses on every path they cross, and uploads and downloads from
    the route to the coordinator and the object storage.
  \<^item> \<open>Billing\<close>: subscriptions bought from Polar, their table, webhook and requests.
  \<^item> \<open>Message_Schemas\<close>: the schemas of client messages as values, with zod's \<open>safeParse\<close> as a parameter
    (\<open>zod_documented\<close>). \<open>Coordinator_Entry\<close>: frames, ended sockets, remote calls and upgrades under both runtimes,
    and a Node server with all its vaults as a system of raw events.
  \<^bold>\<open>What is shown.\<close> No interleaving of calls, alarms and storage failures loses the ciphertext of a live entry
  or a retained version (\<open>no_history_loses_data\<close>); a commit is atomic, idempotent and announced; collection
  removes what it may and nothing else; only well-formed messages are handled, and every connection of a server goes
  back to a valid token (\<open>every_connection_was_admitted\<close>); connections stay in order and presence reaches only those who may see it.
  In the database keys follow membership however statements interleave; a removed member is locked out of the
  database and, after the refresh that is never lost, of the coordinator (\<open>removed_member_cannot_sync\<close> composes
  both); invitations never exceed the plan's seats; retention ends and takes exactly what it should. The disk
  implements the object storage the coordinator's proofs assume, the Node scheduler the Durable Object's, and the
  gateway of the Durable Object that of Node. An upload that is answered with success has left exactly its body
  under a staged record, and every refusal of the coordinator reaches the client as what it is. What billing
  shows agrees with the plan that sets the limits.

  \<^bold>\<open>Concurrency.\<close> Within a coordinator an operation runs to its end, but the garbage collection awaits the object
  storage: \<open>Coordinator_Api\<close> shows what a commit in between does there. In the shared database single
  statements interleave freely in \<open>Directory_Steps\<close>; the services on it are functions whose reads see one
  state, and the theorems about them say so by their form.

  \<^bold>\<open>Bounds and fuel.\<close> The retention job has no bound of its own: \<open>run_retention\<close> has fuel, and one round more than
  there are candidates is shown to be enough (\<open>retention_terminates\<close>). \<open>delete_pages\<close>, the deletion by prefix
  in a remote storage, has fuel because it ends only as the platform's listing does. All other loops are total.
  Batch sizes and limits are those of the code.

  \<^bold>\<open>Not modelled.\<close> The routes of hono beyond the decisions they make, the texts of zod's complaints, the set-up
  of better-auth, the payment provider's own client, migrations, streams below the level of chunks, logging, and the
  web pages: they are declarations for, or calls of, code that is not in the repository.
\<close>

end
